(* ===== verification/Prelude.thy ===== *)
theory Prelude
  imports Main "HOL-Library.Multiset" "HOL-Library.AList" "HOL-Library.Sublist" "HOL-Library.Char_ord"
    "HOL-Library.List_Lexorder"
begin

text \<open>
  Shared vocabulary of the development: fallible results as sums, Python dictionaries as
  association lists in insertion order, the string operations of the Python standard library
  that the code uses, and the stable sort behind \<open>list.sort\<close> and \<open>sorted\<close>.

  Strings are character lists. The strings of the program are image tags, digests, Docker
  references, user names and Kubernetes names, all of them ASCII; the case mappings below are
  those of ASCII.
\<close>

section \<open>Results\<close>

text \<open>A result is \<open>Inl e\<close> for a raised exception \<open>e\<close> and \<open>Inr v\<close> for a returned value.\<close>

type_synonym ('e, 'a) result = "'e + 'a"

named_theorems result_simps \<open>unfolding rules for fallible computations\<close>

definition rbind :: "('e, 'a) result \<Rightarrow> ('a \<Rightarrow> ('e, 'b) result) \<Rightarrow> ('e, 'b) result" where
  "rbind m f = (case m of Inl e \<Rightarrow> Inl e | Inr v \<Rightarrow> f v)"

lemma rbind_Inl [simp, result_simps]: "rbind (Inl e) f = Inl e"
  and rbind_Inr [simp, result_simps]: "rbind (Inr v) f = f v"
  by (simp_all add: rbind_def)

lemma rbind_eq_Inr [result_simps]: "rbind m f = Inr y \<longleftrightarrow> (\<exists>x. m = Inr x \<and> f x = Inr y)"
  by (cases m) auto

lemma rbind_eq_Inl: "rbind m f = Inl e \<longleftrightarrow> m = Inl e \<or> (\<exists>x. m = Inr x \<and> f x = Inl e)"
  by (cases m) auto

fun rmap :: "('a \<Rightarrow> ('e, 'b) result) \<Rightarrow> 'a list \<Rightarrow> ('e, 'b list) result" where
  "rmap f [] = Inr []"
| "rmap f (x # xs) = rbind (f x) (\<lambda>y. rbind (rmap f xs) (\<lambda>ys. Inr (y # ys)))"

lemma rmap_length: "rmap f xs = Inr ys \<Longrightarrow> length ys = length xs"
  by (induction xs arbitrary: ys) (auto simp: rbind_eq_Inr)

lemma rmap_total: "(\<And>x. x \<in> set xs \<Longrightarrow> f x = Inr (g x)) \<Longrightarrow> rmap f xs = Inr (map g xs)"
  by (induction xs) auto

section \<open>Dictionaries\<close>

text \<open>
  A Python \<open>dict\<close> iterates in insertion order, and assigning to a present key keeps its place.
  That is an association list with distinct keys under \<open>AList.update\<close>; lookup is \<open>map_of\<close>.
\<close>

type_synonym ('k, 'v) dict = "('k \<times> 'v) list"

definition dict_ok :: "('k, 'v) dict \<Rightarrow> bool" where
  "dict_ok d \<longleftrightarrow> distinct (map fst d)"

abbreviation dset :: "'k \<Rightarrow> 'v \<Rightarrow> ('k, 'v) dict \<Rightarrow> ('k, 'v) dict" where
  "dset k v d \<equiv> AList.update k v d"

abbreviation dkeys :: "('k, 'v) dict \<Rightarrow> 'k list" where
  "dkeys d \<equiv> map fst d"

abbreviation dvalues :: "('k, 'v) dict \<Rightarrow> 'v list" where
  "dvalues d \<equiv> map snd d"

lemma map_of_dset [simp]: "map_of (dset k v d) = (map_of d)(k \<mapsto> v)"
  by (rule update_conv')

lemma dict_ok_Nil [simp, intro]: "dict_ok []"
  by (simp add: dict_ok_def)

lemma dict_ok_dset [simp, intro]: "dict_ok d \<Longrightarrow> dict_ok (dset k v d)"
  by (simp add: dict_ok_def distinct_update)

lemma dict_ok_delete [simp, intro]: "dict_ok d \<Longrightarrow> dict_ok (AList.delete k d)"
  by (simp add: dict_ok_def distinct_delete)

lemma dict_ok_in_iff: "dict_ok d \<Longrightarrow> (k, v) \<in> set d \<longleftrightarrow> map_of d k = Some v"
  by (metis dict_ok_def map_of_eq_Some_iff)

lemma dset_in_iff:
  "dict_ok d \<Longrightarrow> (m, u) \<in> set (dset k v d) \<longleftrightarrow> (if m = k then u = v else (m, u) \<in> set d)"
  using dict_ok_in_iff [OF dict_ok_dset, of d m u k v] by (auto simp: dict_ok_in_iff)

lemma fst_dset [simp]: "fst ` set (dset k v d) = insert k (fst ` set d)"
  using dom_update [of k v d] by simp

lemma dset_values: "v' \<in> set (dvalues (dset k v d)) \<Longrightarrow> v' = v \<or> v' \<in> set (dvalues d)"
  by (induction d) (auto split: if_splits)

section \<open>First elements\<close>

lemma find_SomeD: "find P xs = Some x \<Longrightarrow> x \<in> set xs \<and> P x"
  by (induction xs) (auto split: if_splits)

lemma find_None: "find P xs = None \<longleftrightarrow> (\<forall>x \<in> set xs. \<not> P x)"
  by (induction xs) auto

lemma find_cong: "(\<And>x. x \<in> set xs \<Longrightarrow> P x = Q x) \<Longrightarrow> find P xs = find Q xs"
  by (induction xs) auto

section \<open>Strings\<close>

definition is_digit :: "char \<Rightarrow> bool" where
  "is_digit c \<longleftrightarrow> CHR ''0'' \<le> c \<and> c \<le> CHR ''9''"

definition is_lower :: "char \<Rightarrow> bool" where
  "is_lower c \<longleftrightarrow> CHR ''a'' \<le> c \<and> c \<le> CHR ''z''"

definition is_upper :: "char \<Rightarrow> bool" where
  "is_upper c \<longleftrightarrow> CHR ''A'' \<le> c \<and> c \<le> CHR ''Z''"

definition to_upper :: "char \<Rightarrow> char" where
  "to_upper c = (if is_lower c then char_of (of_char c - 32 :: nat) else c)"

definition to_lower :: "char \<Rightarrow> char" where
  "to_lower c = (if is_upper c then char_of (of_char c + 32 :: nat) else c)"

text \<open>\<open>str.title\<close>: a letter is capitalised when no letter precedes it, lowered otherwise.\<close>

fun title_from :: "bool \<Rightarrow> string \<Rightarrow> string" where
  "title_from prev [] = []"
| "title_from prev (c # cs) =
     (if is_lower c \<or> is_upper c
      then (if prev then to_lower c else to_upper c) # title_from True cs
      else c # title_from False cs)"

definition str_title :: "string \<Rightarrow> string" where
  "str_title s = title_from False s"

text \<open>
  \<open>str.replace\<close> for a nonempty pattern: from the left, without overlaps. The counter skips
  the rest of a match.
\<close>

fun replace_from :: "string \<Rightarrow> string \<Rightarrow> nat \<Rightarrow> string \<Rightarrow> string" where
  "replace_from old new k [] = []"
| "replace_from old new (Suc k) (c # cs) = replace_from old new k cs"
| "replace_from old new 0 (c # cs) =
     (if prefix old (c # cs) then new @ replace_from old new (length old - 1) cs
      else c # replace_from old new 0 cs)"

definition str_replace :: "string \<Rightarrow> string \<Rightarrow> string \<Rightarrow> string" where
  "str_replace old new s = replace_from old new 0 s"

fun str_contains :: "string \<Rightarrow> string \<Rightarrow> bool" where
  "str_contains p [] \<longleftrightarrow> p = []"
| "str_contains p (c # cs) \<longleftrightarrow> prefix p (c # cs) \<or> str_contains p cs"

lemma replace_from_absent: "\<not> str_contains old s \<Longrightarrow> replace_from old new 0 s = s"
  by (induction s) auto

lemma str_replace_absent: "\<not> str_contains old s \<Longrightarrow> str_replace old new s = s"
  by (simp add: str_replace_def replace_from_absent)

lemma str_contains_iff: "str_contains p s \<longleftrightarrow> sublist p s"
  by (induction s) (auto simp: sublist_Cons_right)

definition removeprefix :: "string \<Rightarrow> string \<Rightarrow> string" where
  "removeprefix p s = (if prefix p s then drop (length p) s else s)"

lemma removeprefix_append [simp]: "removeprefix p (p @ s) = s"
  by (simp add: removeprefix_def)

text \<open>Decimal numerals: \<open>str(n)\<close> and the unlimited part of \<open>int(s)\<close>.\<close>

definition digit_val :: "char \<Rightarrow> nat" where
  "digit_val c = of_char c - 48"

definition digit_char :: "nat \<Rightarrow> char" where
  "digit_char d = char_of (48 + d)"

fun dec :: "nat \<Rightarrow> string" where
  "dec n = (if n < 10 then [digit_char n] else dec (n div 10) @ [digit_char (n mod 10)])"

declare dec.simps [simp del]

definition digits_val :: "string \<Rightarrow> nat" where
  "digits_val s = foldl (\<lambda>n c. 10 * n + digit_val c) 0 s"

lemma is_digit_iff: "is_digit c \<longleftrightarrow> 48 \<le> (of_char c :: nat) \<and> (of_char c :: nat) \<le> 57"
  by (simp add: is_digit_def less_eq_char_def)

lemma is_upper_iff: "is_upper c \<longleftrightarrow> 65 \<le> (of_char c :: nat) \<and> (of_char c :: nat) \<le> 90"
  by (simp add: is_upper_def less_eq_char_def)

lemma is_lower_iff: "is_lower c \<longleftrightarrow> 97 \<le> (of_char c :: nat) \<and> (of_char c :: nat) \<le> 122"
  by (simp add: is_lower_def less_eq_char_def)

lemma digit_char_is_digit: "d < 10 \<Longrightarrow> is_digit (digit_char d)"
  by (simp add: is_digit_iff digit_char_def)

lemma digit_val_char: "d < 10 \<Longrightarrow> digit_val (digit_char d) = d"
  by (simp add: digit_val_def digit_char_def)

lemma dec_digits: "list_all is_digit (dec n)"
proof (induction n rule: dec.induct)
  case (1 n)
  then show ?case
    by (cases "n < 10") (simp_all add: dec.simps [of n] digit_char_is_digit)
qed

lemma dec_nonempty: "dec n \<noteq> []"
  by (subst dec.simps) simp

lemma digits_val_append: "digits_val (s @ [c]) = 10 * digits_val s + digit_val c"
  by (simp add: digits_val_def)

lemma digits_val_dec: "digits_val (dec n) = n"
proof (induction n rule: dec.induct)
  case (1 n)
  show ?case
  proof (cases "n < 10")
    case True
    then show ?thesis by (simp add: dec.simps [of n] digits_val_def digit_val_char)
  next
    case False
    with "1.IH" show ?thesis
      by (simp add: dec.simps [of n] digits_val_append digit_val_char)
  qed
qed

section \<open>Sorting\<close>

text \<open>
  \<open>list.sort\<close> is stable and only uses \<open><\<close>. The insertion below keeps an element before the
  equal elements that follow it; \<open>reverse=True\<close> keeps equal elements in their order too, which
  Python does by reversing before and after.
\<close>

fun insert_by :: "('a \<Rightarrow> 'a \<Rightarrow> bool) \<Rightarrow> 'a \<Rightarrow> 'a list \<Rightarrow> 'a list" where
  "insert_by lt x [] = [x]"
| "insert_by lt x (y # ys) = (if lt y x then y # insert_by lt x ys else x # y # ys)"

fun sort_by :: "('a \<Rightarrow> 'a \<Rightarrow> bool) \<Rightarrow> 'a list \<Rightarrow> 'a list" where
  "sort_by lt [] = []"
| "sort_by lt (x # xs) = insert_by lt x (sort_by lt xs)"

definition sort_reverse :: "('a \<Rightarrow> 'a \<Rightarrow> bool) \<Rightarrow> 'a list \<Rightarrow> 'a list" where
  "sort_reverse lt xs = rev (sort_by lt (rev xs))"

lemma mset_insert_by [simp]: "mset (insert_by lt x xs) = add_mset x (mset xs)"
  by (induction xs) auto

lemma mset_sort_by [simp]: "mset (sort_by lt xs) = mset xs"
  by (induction xs) auto

lemma mset_sort_reverse [simp]: "mset (sort_reverse lt xs) = mset xs"
  by (simp add: sort_reverse_def)

lemma set_sort_by [simp]: "set (sort_by lt xs) = set xs"
  by (metis mset_sort_by set_mset_mset)

lemma set_insert_by [simp]: "set (insert_by lt x xs) = insert x (set xs)"
  by (induction xs) auto

lemma set_sort_reverse [simp]: "set (sort_reverse lt xs) = set xs"
  by (simp add: sort_reverse_def)

lemma length_sort_reverse [simp]: "length (sort_reverse lt xs) = length xs"
  by (metis mset_sort_reverse size_mset)

lemma distinct_sort_by [simp]: "distinct (sort_by lt xs) = distinct xs"
  by (metis mset_sort_by mset_eq_imp_distinct_iff)

lemma distinct_sort_reverse [simp]: "distinct (sort_reverse lt xs) = distinct xs"
  by (simp add: sort_reverse_def)

lemma sort_reverse_Nil [simp]: "sort_reverse lt [] = []"
  by (simp add: sort_reverse_def)

text \<open>
  The contract the sort relies on: on the elements of \<open>A\<close>, \<open>lt\<close> is a strict weak order, that is
  the strict part of a total preorder.
\<close>

locale weak_order =
  fixes lt :: "'a \<Rightarrow> 'a \<Rightarrow> bool" and A :: "'a set"
  assumes irrefl: "x \<in> A \<Longrightarrow> \<not> lt x x"
    and lt_trans: "x \<in> A \<Longrightarrow> y \<in> A \<Longrightarrow> z \<in> A \<Longrightarrow> lt x y \<Longrightarrow> lt y z \<Longrightarrow> lt x z"
    and incomp_trans: "x \<in> A \<Longrightarrow> y \<in> A \<Longrightarrow> z \<in> A \<Longrightarrow>
      \<not> lt x y \<Longrightarrow> \<not> lt y z \<Longrightarrow> \<not> lt x z"
begin

lemma asym: "x \<in> A \<Longrightarrow> y \<in> A \<Longrightarrow> lt x y \<Longrightarrow> \<not> lt y x"
  using irrefl lt_trans by blast

lemma insert_by_sorted:
  "x \<in> A \<Longrightarrow> set xs \<subseteq> A \<Longrightarrow> sorted_wrt (\<lambda>a b. \<not> lt b a) xs \<Longrightarrow>
   sorted_wrt (\<lambda>a b. \<not> lt b a) (insert_by lt x xs)"
proof (induction xs)
  case Nil
  then show ?case by simp
next
  case (Cons y ys)
  show ?case
  proof (cases "lt y x")
    case True
    with Cons show ?thesis using asym [of y x] by auto
  next
    case False
    have "\<not> lt z x" if "z \<in> set ys" for z
      using Cons.prems that False incomp_trans [of z y x] by auto
    with False Cons.prems show ?thesis by auto
  qed
qed

lemma sort_by_sorted: "set xs \<subseteq> A \<Longrightarrow> sorted_wrt (\<lambda>a b. \<not> lt b a) (sort_by lt xs)"
  by (induction xs) (auto intro!: insert_by_sorted)

lemma sort_reverse_sorted: "set xs \<subseteq> A \<Longrightarrow> sorted_wrt (\<lambda>a b. \<not> lt a b) (sort_reverse lt xs)"
  by (simp add: sort_reverse_def sorted_wrt_rev sort_by_sorted)

lemma sort_reverse_max:
  "set xs \<subseteq> A \<Longrightarrow> sort_reverse lt xs = y # ys \<Longrightarrow> x \<in> set xs \<Longrightarrow> \<not> lt y x"
  using sort_reverse_sorted [of xs] irrefl set_sort_reverse [of lt xs] by fastforce

lemma insert_by_stable:
  "a \<in> A \<Longrightarrow> x \<in> A \<Longrightarrow> set xs \<subseteq> A \<Longrightarrow>
   filter (\<lambda>b. \<not> lt a b \<and> \<not> lt b a) (insert_by lt x xs) =
   filter (\<lambda>b. \<not> lt a b \<and> \<not> lt b a) (x # xs)"
proof (induction xs)
  case Nil
  then show ?case by simp
next
  case (Cons y ys)
  then have IH: "filter (\<lambda>b. \<not> lt a b \<and> \<not> lt b a) (insert_by lt x ys) =
    filter (\<lambda>b. \<not> lt a b \<and> \<not> lt b a) (x # ys)" by simp
  show ?case
  proof (cases "lt y x")
    case True
    have "\<not> (\<not> lt a x \<and> \<not> lt x a \<and> \<not> lt a y \<and> \<not> lt y a)"
      using Cons.prems True incomp_trans [of y a x] by auto
    with True IH show ?thesis by auto
  next
    case False
    then show ?thesis by simp
  qed
qed

lemma sort_by_stable:
  "a \<in> A \<Longrightarrow> set xs \<subseteq> A \<Longrightarrow>
   filter (\<lambda>b. \<not> lt a b \<and> \<not> lt b a) (sort_by lt xs) = filter (\<lambda>b. \<not> lt a b \<and> \<not> lt b a) xs"
  by (induction xs) (simp_all add: insert_by_stable)

lemma sort_reverse_stable:
  "a \<in> A \<Longrightarrow> set xs \<subseteq> A \<Longrightarrow>
   filter (\<lambda>b. \<not> lt a b \<and> \<not> lt b a) (sort_reverse lt xs) = filter (\<lambda>b. \<not> lt a b \<and> \<not> lt b a) xs"
  by (simp add: sort_reverse_def sort_by_stable flip: rev_filter)

end

lemma weak_order_cong:
  assumes "weak_order lt A" and "\<And>x y. x \<in> A \<Longrightarrow> y \<in> A \<Longrightarrow> lt' x y = lt x y"
  shows "weak_order lt' A"
proof
  note lt = weak_order.irrefl [OF assms(1)] weak_order.lt_trans [OF assms(1)]
    weak_order.incomp_trans [OF assms(1)]
  fix x y z
  assume A: "x \<in> A" "y \<in> A" "z \<in> A"
  show "\<not> lt' x x" using A(1) lt(1) by (simp add: assms(2))
  show "lt' x y \<Longrightarrow> lt' y z \<Longrightarrow> lt' x z" using A lt(2) [of x y z] by (simp add: assms(2))
  show "\<not> lt' x y \<Longrightarrow> \<not> lt' y z \<Longrightarrow> \<not> lt' x z"
    using A lt(3) [of x y z] by (simp add: assms(2))
qed

lemma weak_order_pull:
  assumes "weak_order lt B" and "\<And>x. x \<in> A \<Longrightarrow> f x \<in> B"
  shows "weak_order (\<lambda>x y. lt (f x) (f y)) A"
proof
  fix x y z
  assume "x \<in> A" "y \<in> A" "z \<in> A"
  then have B: "f x \<in> B" "f y \<in> B" "f z \<in> B" by (simp_all add: assms(2))
  show "\<not> lt (f x) (f x)" using B(1) by (rule weak_order.irrefl [OF assms(1)])
  show "lt (f x) (f y) \<Longrightarrow> lt (f y) (f z) \<Longrightarrow> lt (f x) (f z)"
    using B by (rule weak_order.lt_trans [OF assms(1)])
  show "\<not> lt (f x) (f y) \<Longrightarrow> \<not> lt (f y) (f z) \<Longrightarrow> \<not> lt (f x) (f z)"
    using B by (rule weak_order.incomp_trans [OF assms(1)])
qed

text \<open>
  Three-way comparisons: \<open>-1\<close>, \<open>0\<close> or \<open>1\<close>, antisymmetric and transitive on \<open>A\<close>. Comparing by one
  criterion and then by another is again one, and its strict part is a weak order.
\<close>

locale comparison =
  fixes cmp :: "'a \<Rightarrow> 'a \<Rightarrow> int" and A :: "'a set"
  assumes cmp_range: "x \<in> A \<Longrightarrow> y \<in> A \<Longrightarrow> cmp x y = -1 \<or> cmp x y = 0 \<or> cmp x y = 1"
    and cmp_refl: "x \<in> A \<Longrightarrow> cmp x x = 0"
    and cmp_sym: "x \<in> A \<Longrightarrow> y \<in> A \<Longrightarrow> cmp y x = - cmp x y"
    and cmp_trans: "x \<in> A \<Longrightarrow> y \<in> A \<Longrightarrow> z \<in> A \<Longrightarrow> cmp x y \<le> 0 \<Longrightarrow> cmp y z \<le> 0 \<Longrightarrow> cmp x z \<le> 0"
begin

lemma lt_iff: "x \<in> A \<Longrightarrow> y \<in> A \<Longrightarrow> cmp x y = -1 \<longleftrightarrow> \<not> cmp y x \<le> 0"
  using cmp_range [of x y] cmp_sym [of x y] by auto

lemma cmp_eq_trans: "x \<in> A \<Longrightarrow> y \<in> A \<Longrightarrow> z \<in> A \<Longrightarrow> cmp x y = 0 \<Longrightarrow> cmp y z = 0 \<Longrightarrow> cmp x z = 0"
  using cmp_trans [of x y z] cmp_trans [of z y x] cmp_sym [of x y] cmp_sym [of y z] cmp_sym [of x z]
  by auto

end

sublocale comparison \<subseteq> weak_order "\<lambda>x y. cmp x y = -1" A
proof
  fix x y z
  assume A: "x \<in> A" "y \<in> A" "z \<in> A"
  show "\<not> cmp x x = -1" using A cmp_refl by simp
  show "cmp x z = -1" if "cmp x y = -1" "cmp y z = -1"
    using A that lt_iff [of x z] cmp_trans [of z x y] cmp_sym [of y z] cmp_range [of y z] lt_iff [of y z]
    by (smt (verit, best))
  show "\<not> cmp x z = -1" if "\<not> cmp x y = -1" "\<not> cmp y z = -1"
    using A that lt_iff [of x z] lt_iff [of x y] lt_iff [of y z] cmp_trans [of z y x] by auto
qed

context comparison
begin

lemma strict_weak_order: "weak_order (\<lambda>x y. cmp x y = -1) A"
  by unfold_locales

end

definition cmp_then :: "('a \<Rightarrow> 'a \<Rightarrow> int) \<Rightarrow> ('a \<Rightarrow> 'a \<Rightarrow> int) \<Rightarrow> 'a \<Rightarrow> 'a \<Rightarrow> int" where
  "cmp_then c d x y = (if c x y \<noteq> 0 then c x y else d x y)"

lemma comparison_then:
  assumes "comparison c A" and "comparison d A"
  shows "comparison (cmp_then c d) A"
proof -
  note c = comparison.cmp_range [OF assms(1)] comparison.cmp_refl [OF assms(1)]
    comparison.cmp_sym [OF assms(1)] comparison.cmp_trans [OF assms(1)]
  note d = comparison.cmp_range [OF assms(2)] comparison.cmp_refl [OF assms(2)]
    comparison.cmp_sym [OF assms(2)] comparison.cmp_trans [OF assms(2)]
  show ?thesis
  proof
    fix x y z
    assume A: "x \<in> A" "y \<in> A" "z \<in> A"
    show "cmp_then c d x y = -1 \<or> cmp_then c d x y = 0 \<or> cmp_then c d x y = 1"
      using A c(1) [of x y] d(1) [of x y] by (auto simp: cmp_then_def)
    show "cmp_then c d x x = 0" using A c(2) d(2) by (simp add: cmp_then_def)
    show "cmp_then c d y x = - cmp_then c d x y"
      using A c(3) [of x y] d(3) [of x y] by (simp add: cmp_then_def)
    show "cmp_then c d x z \<le> 0" if le: "cmp_then c d x y \<le> 0" "cmp_then c d y z \<le> 0"
    proof -
      have 1: "c x y \<le> 0" "c y z \<le> 0" using le by (auto simp: cmp_then_def split: if_splits)
      then have 2: "c x z \<le> 0" using A c(4) by blast
      show ?thesis
      proof (cases "c x z = 0")
        case True
        then have "c z x = 0" using A c(3) [of x z] by simp
        then have "c y x \<le> 0" "c z y \<le> 0"
          using A 1 c(4) [of y z x] c(4) [of z x y] by simp_all
        then have "c x y = 0" "c y z = 0"
          using A 1 c(3) [of x y] c(3) [of y z] by auto
        then show ?thesis using True A le d(4) [of x y z] by (simp add: cmp_then_def)
      next
        case False
        with 2 show ?thesis by (simp add: cmp_then_def)
      qed
    qed
  qed
qed

lemma comparison_pull:
  assumes "comparison c B" and "\<And>x. x \<in> A \<Longrightarrow> f x \<in> B"
  shows "comparison (\<lambda>x y. c (f x) (f y)) A"
proof
  fix x y z
  assume A: "x \<in> A" "y \<in> A" "z \<in> A"
  note B = A [THEN assms(2)]
  show "c (f x) (f y) = -1 \<or> c (f x) (f y) = 0 \<or> c (f x) (f y) = 1"
    using B(1,2) by (rule comparison.cmp_range [OF assms(1)])
  show "c (f x) (f x) = 0" using B(1) by (rule comparison.cmp_refl [OF assms(1)])
  show "c (f y) (f x) = - c (f x) (f y)" using B(1,2) by (rule comparison.cmp_sym [OF assms(1)])
  show "c (f x) (f z) \<le> 0" if "c (f x) (f y) \<le> 0" "c (f y) (f z) \<le> 0"
    using comparison.cmp_trans [OF assms(1) B that] .
qed

lemma comparison_mono: "comparison c B \<Longrightarrow> A \<subseteq> B \<Longrightarrow> comparison c A"
  using comparison_pull [of c B A "\<lambda>x. x"] by blast

text \<open>Sorting by a key in a linear order, as \<open>sorted(xs, key=k)\<close> does.\<close>

lemma weak_order_key: "weak_order (\<lambda>x y. (k x :: 'b :: linorder) < k y) A"
  by unfold_locales auto

section \<open>Splitting and joining strings\<close>

text \<open>\<open>s.split(sep)\<close> for a separator of one character.\<close>

fun split_on :: "char \<Rightarrow> string \<Rightarrow> string list" where
  "split_on sep [] = [[]]"
| "split_on sep (c # cs) =
     (if c = sep then [] # split_on sep cs
      else case split_on sep cs of [] \<Rightarrow> [[c]] | w # ws \<Rightarrow> (c # w) # ws)"

fun str_join :: "string \<Rightarrow> string list \<Rightarrow> string" where
  "str_join sep [] = []"
| "str_join sep [w] = w"
| "str_join sep (w # ws) = w @ sep @ str_join sep ws"

end
