(* ===== verification/Py_Regex.thy ===== *)
theory Py_Regex
  imports Prelude
begin

text \<open>
  The fragment of Python's \<open>re\<close> module that the tag and reference parsers use: character
  classes, greedy and lazy repetition of a class, alternatives, optional groups, named groups and \<open>$\<close>.
  Matching is the backtracking search of the library: \<open>rmatch r s\<close> lists every way to match a
  prefix of \<open>s\<close>, in the order in which the search tries them, each with the groups captured and
  the rest of the string. \<open>re_match\<close> returns the groups of the first.
\<close>

section \<open>Syntax and matching\<close>

datatype cclass = Lit char | LitI char | Digit | LowerNum | Dot | NoneOf "char list" | Ranges "(char \<times> char) list"

primrec cmatch :: "cclass \<Rightarrow> char \<Rightarrow> bool" where
  "cmatch (Lit d) c \<longleftrightarrow> c = d"
| "cmatch (LitI d) c \<longleftrightarrow> to_lower c = to_lower d"
| "cmatch Digit c \<longleftrightarrow> is_digit c"
| "cmatch LowerNum c \<longleftrightarrow> is_lower c \<or> is_digit c"
| "cmatch Dot c \<longleftrightarrow> c \<noteq> CHR 0x0A"
| "cmatch (NoneOf ds) c \<longleftrightarrow> c \<notin> set ds"
| "cmatch (Ranges rs) c \<longleftrightarrow> list_ex (\<lambda>(lo, hi). lo \<le> c \<and> c \<le> hi) rs"

datatype regex =
    Cls cclass
  | Plus cclass
  | LazyPlus cclass
  | LazyStar cclass
  | Opt regex
  | Seq regex regex
  | Alt regex regex
  | Group string regex
  | Eos

type_synonym groups = "(string \<times> string) list"

text \<open>The rests after a greedy \<open>c*\<close>, longest match first, and after a greedy \<open>c+\<close>.\<close>

fun star_rests :: "cclass \<Rightarrow> string \<Rightarrow> string list" where
  "star_rests c [] = [[]]"
| "star_rests c (x # xs) = (if cmatch c x then star_rests c xs @ [x # xs] else [x # xs])"

fun plus_rests :: "cclass \<Rightarrow> string \<Rightarrow> string list" where
  "plus_rests c [] = []"
| "plus_rests c (x # xs) = (if cmatch c x then star_rests c xs else [])"

primrec rmatch :: "regex \<Rightarrow> string \<Rightarrow> (groups \<times> string) list" where
  "rmatch (Cls c) s = (case s of [] \<Rightarrow> [] | x # xs \<Rightarrow> if cmatch c x then [([], xs)] else [])"
| "rmatch (Plus c) s = map (Pair []) (plus_rests c s)"
| "rmatch (LazyPlus c) s = map (Pair []) (rev (plus_rests c s))"
| "rmatch (LazyStar c) s = map (Pair []) (rev (star_rests c s))"
| "rmatch (Opt r) s = rmatch r s @ [([], s)]"
| "rmatch (Seq r q) s =
     concat (map (\<lambda>(g, t). map (\<lambda>(h, u). (g @ h, u)) (rmatch q t)) (rmatch r s))"
| "rmatch (Alt r q) s = rmatch r s @ rmatch q s"
| "rmatch (Group n r) s =
     map (\<lambda>(g, t). (g @ [(n, take (length s - length t) s)], t)) (rmatch r s)"
| "rmatch Eos s = (if s = [] \<or> s = [CHR 0x0A] then [([], s)] else [])"

definition re_match :: "regex \<Rightarrow> string \<Rightarrow> groups option" where
  "re_match r s = (case rmatch r s of [] \<Rightarrow> None | m # _ \<Rightarrow> Some (fst m))"

text \<open>The first place where an expression matches.\<close>

fun re_search :: "regex \<Rightarrow> string \<Rightarrow> groups option" where
  "re_search r [] = re_match r []"
| "re_search r (c # cs) = (case re_match r (c # cs) of Some g \<Rightarrow> Some g | None \<Rightarrow> re_search r cs)"

text \<open>A literal string in front of an expression.\<close>

definition lit :: "string \<Rightarrow> regex \<Rightarrow> regex" where
  "lit s r = foldr (\<lambda>c q. Seq (Cls (Lit c)) q) s r"

lemma lit_simps [simp]: "lit [] r = r" "lit (c # s) r = Seq (Cls (Lit c)) (lit s r)"
  by (simp_all add: lit_def)

section \<open>First matches\<close>

text \<open>
  \<open>re_first r s\<close> is the match the library would report. Most facts about a parser only need the
  first match of each part; the lemmas below compose them.
\<close>

definition re_first :: "regex \<Rightarrow> string \<Rightarrow> (groups \<times> string) option" where
  "re_first r s = (case rmatch r s of [] \<Rightarrow> None | m # _ \<Rightarrow> Some m)"

lemma re_match_first: "re_match r s = map_option fst (re_first r s)"
  by (simp add: re_match_def re_first_def split: list.splits)

lemma re_first_None: "re_first r s = None \<longleftrightarrow> rmatch r s = []"
  by (simp add: re_first_def split: list.splits)

lemma re_first_Cls [simp]:
  "re_first (Cls c) [] = None"
  "re_first (Cls c) (x # xs) = (if cmatch c x then Some ([], xs) else None)"
  by (simp_all add: re_first_def)

lemma map_Pair_append_Nil [simp]: "map (\<lambda>(h, u). (h, u)) xs = xs"
  by (induction xs) auto

lemma rmatch_Seq_Cls:
  "rmatch (Seq (Cls c) r) (x # xs) = (if cmatch c x then rmatch r xs else [])"
  "rmatch (Seq (Cls c) r) [] = []"
  by simp_all

lemma re_first_Seq_Cls [simp]:
  "re_first (Seq (Cls c) r) (x # xs) = (if cmatch c x then re_first r xs else None)"
  "re_first (Seq (Cls c) r) [] = None"
  by (simp_all add: re_first_def)

lemma re_first_Eos: "re_first Eos s = (if s = [] \<or> s = [CHR 0x0A] then Some ([], s) else None)"
  by (simp add: re_first_def)

text \<open>If the first way to match \<open>r\<close> lets \<open>q\<close> match the rest, no backtracking happens.\<close>

lemma re_first_Seq:
  "re_first r s = Some (g, t) \<Longrightarrow> re_first q t = Some (h, u) \<Longrightarrow>
   re_first (Seq r q) s = Some (g @ h, u)"
  by (auto simp: re_first_def split: list.splits)

lemma re_first_Group:
  "re_first r s = Some (g, t) \<Longrightarrow>
   re_first (Group n r) s = Some (g @ [(n, take (length s - length t) s)], t)"
  by (auto simp: re_first_def split: list.splits)

lemma re_first_Opt_skip: "rmatch r s = [] \<Longrightarrow> re_first (Opt r) s = Some ([], s)"
  by (simp add: re_first_def)

lemma re_first_Opt_take: "re_first r s = Some m \<Longrightarrow> re_first (Opt r) s = Some m"
  by (auto simp: re_first_def split: list.splits)

lemma star_rests_all: "list_all (cmatch c) s \<Longrightarrow> \<exists>more. star_rests c (s @ t) = star_rests c t @ more"
  by (induction s) auto

lemma star_rests_stop: "(case t of [] \<Rightarrow> True | x # _ \<Rightarrow> \<not> cmatch c x) \<Longrightarrow> star_rests c t = [t]"
  by (cases t) auto

text \<open>A greedy repetition first takes the longest run of the class.\<close>

lemma re_first_Plus:
  assumes "list_all (cmatch c) s" and "s \<noteq> []" and "case t of [] \<Rightarrow> True | x # _ \<Rightarrow> \<not> cmatch c x"
  shows "re_first (Plus c) (s @ t) = Some ([], t)"
proof -
  obtain x xs where s: "s = x # xs" using assms(2) by (cases s) auto
  obtain more where "star_rests c (xs @ t) = star_rests c t @ more"
    using star_rests_all [of c xs t] assms(1) s by auto
  then show ?thesis
    using assms(1,3) s by (simp add: re_first_def star_rests_stop)
qed

lemma re_first_Group_Plus:
  assumes "list_all (cmatch c) s" and "s \<noteq> []" and "case t of [] \<Rightarrow> True | x # _ \<Rightarrow> \<not> cmatch c x"
  shows "re_first (Group n (Plus c)) (s @ t) = Some ([(n, s)], t)"
  using re_first_Group [OF re_first_Plus [OF assms], of n] by simp

section \<open>Captures are parts of the input\<close>

lemma star_rests_suffix: "t \<in> set (star_rests c s) \<Longrightarrow> suffix t s"
  by (induction s) (auto simp: suffix_Cons split: if_splits)

lemma plus_rests_suffix: "t \<in> set (plus_rests c s) \<Longrightarrow> strict_suffix t s"
  by (cases s) (auto dest!: star_rests_suffix simp: strict_suffix_def suffix_def split: if_splits)

lemma rmatch_suffix: "(g, t) \<in> set (rmatch r s) \<Longrightarrow> suffix t s"
proof (induction r arbitrary: g s t)
  case (Cls c)
  then show ?case by (cases s) (auto simp: suffix_ConsI split: if_splits)
next
  case (Seq r q)
  then show ?case by (fastforce intro: suffix_order.order_trans)
qed (auto dest: star_rests_suffix plus_rests_suffix simp: strict_suffix_def split: if_splits)

lemma rmatch_length: "(g, t) \<in> set (rmatch r s) \<Longrightarrow> length t \<le> length s"
  by (auto dest!: rmatch_suffix simp: suffix_def)

lemma rmatch_capture_length:
  "(g, t) \<in> set (rmatch r s) \<Longrightarrow> (n, v) \<in> set g \<Longrightarrow> length v \<le> length s"
proof (induction r arbitrary: g s t)
  case (Seq r q)
  then show ?case by (fastforce dest: rmatch_length)
next
  case (Group m r)
  then show ?case by fastforce
next
  case (Cls c)
  then show ?case by (cases s) (auto split: if_splits)
qed (auto split: if_splits)

lemma rmatch_Seq_Cls_capture:
  assumes "(g, t) \<in> set (rmatch (Seq (Cls c) r) s)" and "(n, v) \<in> set g"
  shows "length v < length s"
proof (cases s)
  case Nil
  with assms(1) show ?thesis by simp
next
  case (Cons x xs)
  with assms(1) have "(g, t) \<in> set (rmatch r xs)" by (simp split: if_splits)
  then have "length v \<le> length xs" using assms(2) by (rule rmatch_capture_length)
  with Cons show ?thesis by simp
qed

lemma re_first_in: "re_first r s = Some m \<Longrightarrow> m \<in> set (rmatch r s)"
  by (auto simp: re_first_def split: list.splits)

section \<open>Removing what matches\<close>

text \<open>\<open>r.sub("", s)\<close> for an expression that does not match the empty string.\<close>

function re_remove :: "regex \<Rightarrow> string \<Rightarrow> string" where
  "re_remove r [] = []"
| "re_remove r (c # cs) =
     (case re_first r (c # cs) of
        Some (g, t) \<Rightarrow> if length t < length (c # cs) then re_remove r t else c # re_remove r cs
      | None \<Rightarrow> c # re_remove r cs)"
  by pat_completeness auto
termination by (relation "measure (length \<circ> snd)") auto

definition star :: "cclass \<Rightarrow> regex" where
  "star c = Opt (Plus c)"

definition lit_ignore_case :: "string \<Rightarrow> regex \<Rightarrow> regex" where
  "lit_ignore_case s r = foldr (\<lambda>c q. Seq (Cls (LitI c)) q) s r"

declare re_remove.simps [simp del]

lemma re_remove_subset: "set (re_remove r s) \<subseteq> set s"
proof (induction r s rule: re_remove.induct)
  case (1 r)
  show ?case by (simp add: re_remove.simps)
next
  case (2 r c cs)
  show ?case
  proof (cases "re_first r (c # cs)")
    case None
    then show ?thesis using "2.IH" by (auto simp: re_remove.simps(2))
  next
    case (Some m)
    obtain g t where m: "m = (g, t)" by (cases m)
    have t: "set t \<subseteq> set (c # cs)"
      using rmatch_suffix [OF re_first_in [OF Some [unfolded m]]] by (rule set_mono_suffix)
    show ?thesis
    proof (cases "length t < length (c # cs)")
      case True
      have "set (re_remove r t) \<subseteq> set t" using "2.IH" True Some m by simp
      with True show ?thesis using t Some m by (auto simp: re_remove.simps(2))
    next
      case False
      have "set (re_remove r cs) \<subseteq> set cs" using "2.IH" False Some m by simp
      with False show ?thesis using Some m by (auto simp: re_remove.simps(2))
    qed
  qed
qed

end
