(* ===== verification/Py_Datetime.thy ===== *)
theory Py_Datetime
  imports Prelude
begin

text \<open>
  The part of Python's \<open>datetime\<close> that dates a tag: the proleptic Gregorian ordinal of a date and
  of an ISO week date, with the range checks of the library. A UTC \<open>datetime\<close> is the number of
  microseconds since 0001-01-01T00:00Z and a \<open>timedelta\<close> a number of microseconds, so that
  comparison and subtraction are those of the integers.
\<close>

type_synonym datetime = int
type_synonym timedelta = int

datatype date_error = DateValueError

definition is_leap :: "nat \<Rightarrow> bool" where
  "is_leap y \<longleftrightarrow> y mod 4 = 0 \<and> (y mod 100 \<noteq> 0 \<or> y mod 400 = 0)"

definition days_before_year :: "nat \<Rightarrow> nat" where
  "days_before_year y = (let n = y - 1 in n * 365 + n div 4 - n div 100 + n div 400)"

definition month_lengths :: "nat list" where
  "month_lengths = [31, 28, 31, 30, 31, 30, 31, 31, 30, 31, 30, 31]"

definition days_in_month :: "nat \<Rightarrow> nat \<Rightarrow> nat" where
  "days_in_month y m = (if m = 2 \<and> is_leap y then 29 else month_lengths ! (m - 1))"

definition days_before_month :: "nat \<Rightarrow> nat \<Rightarrow> nat" where
  "days_before_month y m =
     sum_list (take (m - 1) month_lengths) + (if 2 < m \<and> is_leap y then 1 else 0)"

definition ymd2ord :: "nat \<Rightarrow> nat \<Rightarrow> nat \<Rightarrow> nat" where
  "ymd2ord y m d = days_before_year y + days_before_month y m + d"

definition us_per_day :: int where
  "us_per_day = 86400 * 1000000"

definition midnight :: "int \<Rightarrow> datetime" where
  "midnight n = (n - 1) * us_per_day"

text \<open>\<open>datetime(year, month, day, tzinfo=UTC)\<close>\<close>

definition datetime_ymd :: "nat \<Rightarrow> nat \<Rightarrow> nat \<Rightarrow> (date_error, datetime) result" where
  "datetime_ymd y m d =
     (if y < 1 \<or> 9999 < y then Inl DateValueError
      else if m < 1 \<or> 12 < m then Inl DateValueError
      else if d < 1 \<or> days_in_month y m < d then Inl DateValueError
      else Inr (midnight (int (ymd2ord y m d))))"

text \<open>
  \<open>datetime.fromisocalendar(year, week, day)\<close>. Week 1 is the week with the year's first Thursday;
  week 53 exists when the year starts on a Thursday, or on a Wednesday in a leap year. Ordinal 1
  is a Monday.
\<close>

definition isoweek1_monday :: "nat \<Rightarrow> int" where
  "isoweek1_monday y =
     (let first = int (ymd2ord y 1 1);
          weekday = (first + 6) mod 7;
          monday = first - weekday
      in if 3 < weekday then monday + 7 else monday)"

definition has_week53 :: "nat \<Rightarrow> bool" where
  "has_week53 y \<longleftrightarrow>
     (let first_weekday = ymd2ord y 1 1 mod 7
      in first_weekday = 4 \<or> first_weekday = 3 \<and> is_leap y)"

definition datetime_iso :: "nat \<Rightarrow> nat \<Rightarrow> nat \<Rightarrow> (date_error, datetime) result" where
  "datetime_iso y w d =
     (if y < 1 \<or> 9999 < y then Inl DateValueError
      else if \<not> (0 < w \<and> w < 53) \<and> \<not> (w = 53 \<and> has_week53 y) then Inl DateValueError
      else if \<not> (0 < d \<and> d < 8) then Inl DateValueError
      else Inr (midnight (isoweek1_monday y + (int w - 1) * 7 + (int d - 1))))"

text \<open>Two dates checked by hand: 2021 week 13 has Thursday 2021-04-01; 2021 has no week 53.\<close>

lemmas calendar_defs = datetime_iso_def datetime_ymd_def isoweek1_monday_def has_week53_def ymd2ord_def
  days_before_year_def days_before_month_def days_in_month_def month_lengths_def is_leap_def
  midnight_def us_per_day_def

lemma datetime_iso_2021_13: "datetime_iso 2021 13 4 = datetime_ymd 2021 4 1"
  by (simp add: calendar_defs)

lemma datetime_iso_2021_53: "datetime_iso 2021 53 4 = Inl DateValueError"
  by (simp add: calendar_defs)

lemma datetime_iso_weeks_mono:
  "datetime_iso y w d = Inr a \<Longrightarrow> datetime_iso y v d = Inr b \<Longrightarrow> w < v \<Longrightarrow> a < b"
  by (auto simp: datetime_iso_def midnight_def us_per_day_def split: if_splits)

lemma datetime_iso_week_range: "datetime_iso y w d = Inr a \<Longrightarrow> 1 \<le> w \<and> w \<le> 53"
  by (auto simp: datetime_iso_def split: if_splits)

end
