(* ===== verification/Image_Filter.thy ===== *)
theory Image_Filter
  imports Prelude Py_Datetime
begin

text \<open>
  \<open>src/src/nublado/models/images/_type.py\<close> and \<open>_filter.py\<close>: the image types in menu order and
  the filter policies. A semantic version is the argument tuple of \<open>semver.Version\<close>; how two of
  them compare belongs to the library and is a parameter wherever it is used.
\<close>

section \<open>Image types\<close>

datatype rsp_image_type = ALIAS | RELEASE | WEEKLY | DAILY | CANDIDATE | EXPERIMENTAL | UNKNOWN

definition image_types :: "rsp_image_type list" where
  "image_types = [ALIAS, RELEASE, WEEKLY, DAILY, CANDIDATE, EXPERIMENTAL, UNKNOWN]"

primrec image_type_value :: "rsp_image_type \<Rightarrow> string" where
  "image_type_value ALIAS = ''Alias''"
| "image_type_value RELEASE = ''Release''"
| "image_type_value WEEKLY = ''Weekly''"
| "image_type_value DAILY = ''Daily''"
| "image_type_value CANDIDATE = ''Release Candidate''"
| "image_type_value EXPERIMENTAL = ''Experimental''"
| "image_type_value UNKNOWN = ''Unknown''"

text \<open>The enumeration order is the menu order, so the type is linearly ordered by it.\<close>

primrec menu_rank :: "rsp_image_type \<Rightarrow> nat" where
  "menu_rank ALIAS = 0"
| "menu_rank RELEASE = 1"
| "menu_rank WEEKLY = 2"
| "menu_rank DAILY = 3"
| "menu_rank CANDIDATE = 4"
| "menu_rank EXPERIMENTAL = 5"
| "menu_rank UNKNOWN = 6"

lemma menu_rank_inj: "menu_rank a = menu_rank b \<longleftrightarrow> a = b"
  by (cases a; cases b) simp_all

instantiation rsp_image_type :: linorder
begin

definition less_eq_rsp_image_type :: "rsp_image_type \<Rightarrow> rsp_image_type \<Rightarrow> bool" where
  "a \<le> b \<longleftrightarrow> menu_rank a \<le> menu_rank b"

definition less_rsp_image_type :: "rsp_image_type \<Rightarrow> rsp_image_type \<Rightarrow> bool" where
  "a < b \<longleftrightarrow> menu_rank a < menu_rank b"

instance
  by standard (auto simp: less_eq_rsp_image_type_def less_rsp_image_type_def menu_rank_inj)

end

lemma set_image_types [simp]: "set image_types = UNIV"
  by (auto simp: image_types_def intro: rsp_image_type.exhaust)

lemma in_image_types [simp]: "t \<in> set image_types"
  by simp

lemma distinct_image_types [simp]: "distinct image_types"
  by (simp add: image_types_def)

lemma sorted_image_types: "sorted_wrt (<) image_types"
  by (simp add: image_types_def less_rsp_image_type_def)

section \<open>Versions\<close>

record semver =
  major :: nat
  minor :: nat
  patch :: nat
  prerelease :: "string option"

text \<open>
  What the code relies on of \<open>Version.compare\<close>: it returns \<open>-1\<close>, \<open>0\<close> or \<open>1\<close>, exchanging the
  arguments changes the sign, equal versions compare equal, and the order is transitive.
\<close>

definition semver_ok :: "(semver \<Rightarrow> semver \<Rightarrow> int) \<Rightarrow> bool" where
  "semver_ok vcmp \<longleftrightarrow>
     (\<forall>a b. vcmp a b \<in> {-1, 0, 1}) \<and>
     (\<forall>a. vcmp a a = 0) \<and>
     (\<forall>a b. vcmp b a = - vcmp a b) \<and>
     (\<forall>a b c. vcmp a b \<le> 0 \<longrightarrow> vcmp b c \<le> 0 \<longrightarrow> vcmp a c \<le> 0)"

text \<open>An instance for the witnesses: precedence by major, minor and patch.\<close>

definition precedence :: "semver \<Rightarrow> semver \<Rightarrow> int" where
  "precedence a b =
     (if major a \<noteq> major b then (if major a < major b then -1 else 1)
      else if minor a \<noteq> minor b then (if minor a < minor b then -1 else 1)
      else if patch a \<noteq> patch b then (if patch a < patch b then -1 else 1)
      else 0)"

lemma semver_ok_precedence: "semver_ok precedence"
  by (auto simp: semver_ok_def precedence_def split: if_splits)

section \<open>Filters\<close>

record image_filter =
  number :: "int option"
  age :: "timedelta option"
  cutoff_build :: "int option"
  cutoff_date :: "datetime option"
  cutoff_version :: "semver option"

definition default_filter :: image_filter where
  "default_filter = \<lparr>number = None, age = None, cutoff_build = None, cutoff_date = None,
     cutoff_version = None\<rparr>"

record image_filter_policy =
  release :: image_filter
  weekly :: image_filter
  daily :: image_filter
  release_candidate :: image_filter
  experimental :: image_filter

primrec for_image_type :: "rsp_image_type \<Rightarrow> image_filter_policy \<Rightarrow> image_filter option" where
  "for_image_type ALIAS p = None"
| "for_image_type RELEASE p = Some (release p)"
| "for_image_type WEEKLY p = Some (weekly p)"
| "for_image_type DAILY p = Some (daily p)"
| "for_image_type CANDIDATE p = Some (release_candidate p)"
| "for_image_type EXPERIMENTAL p = Some (experimental p)"
| "for_image_type UNKNOWN p = None"

lemma for_image_type_None: "for_image_type t p = None \<longleftrightarrow> t = ALIAS \<or> t = UNKNOWN"
  by (cases t) simp_all

text \<open>
  Python's truth value of an optional number: absent and zero both count as false.
\<close>

definition truthy :: "int option \<Rightarrow> bool" where
  "truthy x \<longleftrightarrow> (case x of None \<Rightarrow> False | Some n \<Rightarrow> n \<noteq> 0)"

lemma truthy_simps [simp]: "truthy None \<longleftrightarrow> False" "truthy (Some n) \<longleftrightarrow> n \<noteq> 0"
  by (simp_all add: truthy_def)

end
