(* ===== verification/Image_Tag.thy ===== *)
theory Image_Tag
  imports Py_Regex Image_Filter
begin

text \<open>
  \<open>src/src/nublado/models/images/_tag.py\<close>, class \<open>RSPImageTag\<close>: the tag record, the parser that
  reads a tag string into it, and the comparison that sorts tags within one image type.
\<close>

section \<open>Regular expressions\<close>

definition dg :: "string \<Rightarrow> regex" where
  "dg n = Group n (Plus Digit)"

definition release_rx :: "regex \<Rightarrow> regex" where
  "release_rx k = lit ''r'' (Seq (dg ''major'') (lit ''_'' (Seq (dg ''minor'')
     (lit ''_'' (Seq (dg ''patch'') k)))))"

definition candidate_rx :: "regex \<Rightarrow> regex" where
  "candidate_rx k = release_rx (lit ''_'' (Seq (Group ''pre'' (lit ''rc'' (Plus Digit))) k))"

definition obsolete_rx :: regex where
  "obsolete_rx = lit ''r'' (Seq (Group ''major'' (Seq (Cls Digit) (Cls Digit)))
     (Seq (Group ''minor'' (Cls Digit)) Eos))"

definition weekly_rx :: "regex \<Rightarrow> regex" where
  "weekly_rx k = lit ''w_'' (Seq (dg ''year'') (lit ''_'' (Seq (dg ''week'') k)))"

definition daily_rx :: "regex \<Rightarrow> regex" where
  "daily_rx k = lit ''d_'' (Seq (dg ''year'') (lit ''_'' (Seq (dg ''month'')
     (lit ''_'' (Seq (dg ''day'') k)))))"

definition experimental_rx :: regex where
  "experimental_rx = lit ''exp_'' (Seq (Group ''rest'' (Plus Dot)) Eos)"

definition cycle_rx :: regex where
  "cycle_rx = Opt (lit ''_c'' (Seq (dg ''cycle'') (lit ''.'' (dg ''cbuild''))))"

definition rsp_rx :: regex where
  "rsp_rx = Opt (lit ''_rsp'' (dg ''build''))"

definition rest_rx :: regex where
  "rest_rx = Opt (lit ''_'' (Group ''rest'' (LazyPlus Dot)))"

definition arch_rx :: regex where
  "arch_rx = Opt (lit ''-'' (Group ''arch'' (Plus LowerNum)))"

definition arch_end_rx :: regex where
  "arch_end_rx = Seq arch_rx Eos"

definition tail_rx :: regex where
  "tail_rx = Seq cycle_rx (Seq rsp_rx (Seq rest_rx arch_end_rx))"

definition unknown_cycle_rx :: regex where
  "unknown_cycle_rx = Seq (Group ''tag'' (LazyStar Dot)) (lit ''_c'' (Seq (dg ''cycle'') arch_end_rx))"

definition unknown_rx :: regex where
  "unknown_rx = Seq (Group ''tag'' (LazyStar Dot)) arch_end_rx"

definition tag_regexes :: "(rsp_image_type \<times> regex) list" where
  "tag_regexes =
    [(CANDIDATE, candidate_rx tail_rx), (RELEASE, release_rx tail_rx), (RELEASE, obsolete_rx),
     (WEEKLY, weekly_rx tail_rx), (DAILY, daily_rx tail_rx), (EXPERIMENTAL, experimental_rx),
     (UNKNOWN, unknown_cycle_rx), (UNKNOWN, unknown_rx)]"

section \<open>Tags\<close>

record rsp_image_tag =
  tag_name :: string
  image_type :: rsp_image_type
  display_name :: string
  base :: "string option"
  version :: "semver option"
  semantic :: bool
  cycle :: "nat option"
  cycle_build :: "nat option"
  build :: "nat option"
  architecture :: "string option"
  extra :: "string option"
  date :: "datetime option"

datatype tag_error = ValueError | KeyError string | RuntimeError

text \<open>\<open>int(s)\<close> of a matched group: digits only, at most 4300 of them.\<close>

definition py_int :: "string \<Rightarrow> (tag_error, nat) result" where
  "py_int s = (if s = [] \<or> \<not> list_all is_digit s \<or> 4300 < length s then Inl ValueError
               else Inr (digits_val s))"

definition py_int_opt :: "string option \<Rightarrow> (tag_error, nat option) result" where
  "py_int_opt s = (case s of None \<Rightarrow> Inr None
     | Some v \<Rightarrow> if v = [] then Inr None else rbind (py_int v) (\<lambda>n. Inr (Some n)))"

definition need :: "(string \<rightharpoonup> string) \<Rightarrow> string \<Rightarrow> (tag_error, string) result" where
  "need data k = (case data k of None \<Rightarrow> Inl (KeyError k) | Some v \<Rightarrow> Inr v)"

definition get_default :: "(string \<rightharpoonup> string) \<Rightarrow> string \<Rightarrow> string \<Rightarrow> string" where
  "get_default data k d = (case data k of None \<Rightarrow> d | Some v \<Rightarrow> v)"

definition nonempty :: "string option \<Rightarrow> bool" where
  "nonempty s \<longleftrightarrow> (case s of None \<Rightarrow> False | Some v \<Rightarrow> v \<noteq> [])"

definition date_result :: "(date_error, datetime) result \<Rightarrow> (tag_error, datetime option) result" where
  "date_result r = (case r of Inl _ \<Rightarrow> Inl ValueError | Inr d \<Rightarrow> Inr (Some d))"

definition calculate_date :: "(string \<rightharpoonup> string) \<Rightarrow> (tag_error, datetime option) result" where
  "calculate_date data =
     (if \<not> nonempty (data ''year'') then Inr None
      else if nonempty (data ''week'') then
        rbind (py_int (the (data ''year''))) (\<lambda>y.
        rbind (py_int (the (data ''week''))) (\<lambda>w. date_result (datetime_iso y w 4)))
      else if \<not> (nonempty (data ''month'') \<and> nonempty (data ''day'')) then Inr None
      else
        rbind (py_int (the (data ''year''))) (\<lambda>y.
        rbind (py_int (the (data ''month''))) (\<lambda>m.
        rbind (py_int (the (data ''day''))) (\<lambda>d. date_result (datetime_ymd y m d)))))"

definition semantic_types :: "rsp_image_type list" where
  "semantic_types = [RELEASE, CANDIDATE]"

definition parse_version ::
  "rsp_image_type \<Rightarrow> (string \<rightharpoonup> string) \<Rightarrow> (tag_error, string \<times> semver) result" where
  "parse_version ty data =
     (if ty \<in> set semantic_types then
        rbind (need data ''major'') (\<lambda>ms. rbind (py_int ms) (\<lambda>ma.
        rbind (need data ''minor'') (\<lambda>mis. rbind (py_int mis) (\<lambda>mi.
        rbind (py_int (get_default data ''patch'' ''0'')) (\<lambda>pa.
          Inr (image_type_value ty @ '' r'' @ dec ma @ ''.'' @ dec mi @ ''.'' @ dec pa
                 @ (case data ''pre'' of None \<Rightarrow> [] | Some p \<Rightarrow> if p = [] then [] else ''-'' @ p),
               \<lparr>major = ma, minor = mi, patch = pa, prerelease = data ''pre''\<rparr>))))))
      else
        rbind (need data ''year'') (\<lambda>year. rbind (py_int year) (\<lambda>ma.
        if ty = WEEKLY then
          rbind (need data ''week'') (\<lambda>week. rbind (py_int week) (\<lambda>mi.
            Inr (image_type_value ty @ '' '' @ year @ ''_'' @ week,
                 \<lparr>major = ma, minor = mi, patch = 0, prerelease = None\<rparr>)))
        else
          rbind (need data ''month'') (\<lambda>month. rbind (need data ''day'') (\<lambda>day.
          rbind (py_int month) (\<lambda>mi. rbind (py_int day) (\<lambda>pa.
            Inr (image_type_value ty @ '' '' @ year @ ''_'' @ month @ ''_'' @ day,
                 \<lparr>major = ma, minor = mi, patch = pa, prerelease = None\<rparr>))))))))"

text \<open>The optional parts of a display name.\<close>

definition cycle_suffix :: "string option \<Rightarrow> string option \<Rightarrow> string" where
  "cycle_suffix cyc cb = (case cyc of None \<Rightarrow> []
     | Some c \<Rightarrow> (case cb of Some b \<Rightarrow> '' (SAL Cycle '' @ c @ '', Build '' @ b @ '')''
                           | None \<Rightarrow> '' (SAL Cycle '' @ c @ '')''))"

definition build_suffix :: "string option \<Rightarrow> string" where
  "build_suffix b = (case b of None \<Rightarrow> [] | Some v \<Rightarrow> '' (RSP Build '' @ v @ '')'')"

definition bracketed :: "string option \<Rightarrow> string" where
  "bracketed s = (case s of None \<Rightarrow> [] | Some v \<Rightarrow> if v = [] then [] else '' ['' @ v @ '']'')"

text \<open>
  \<open>_from_match\<close>. The recursive call of \<open>from_str\<close> on the body of an experimental tag is the
  parameter \<open>parse\<close>.
\<close>

definition from_match ::
  "(string \<Rightarrow> rsp_image_tag) \<Rightarrow> rsp_image_type \<Rightarrow> (string \<rightharpoonup> string) \<Rightarrow> string
     \<Rightarrow> (tag_error, rsp_image_tag) result" where
  "from_match parse ty data s =
     (if ty = EXPERIMENTAL then
        (if \<not> nonempty (data ''rest'') then Inl RuntimeError
         else let subtag = parse (the (data ''rest''))
              in Inr (subtag\<lparr>image_type := ty, tag_name := s,
                        display_name := image_type_value ty @ '' '' @ display_name subtag\<rparr>))
      else
        rbind (if ty = UNKNOWN
               then Inr (get_default data ''tag'' s, Some (get_default data ''tag'' s), None)
               else rbind (parse_version ty data) (\<lambda>(d, v). Inr (d, None, Some v)))
          (\<lambda>(display, bs, v).
        rbind (py_int_opt (data ''cycle'')) (\<lambda>cyc.
        rbind (py_int_opt (data ''cbuild'')) (\<lambda>cb.
        rbind (py_int_opt (data ''build'')) (\<lambda>b.
        rbind (calculate_date data) (\<lambda>dt.
          Inr \<lparr>tag_name = s, image_type = ty,
               display_name = display @ cycle_suffix (data ''cycle'') (data ''cbuild'')
                 @ build_suffix (data ''build'') @ bracketed (data ''rest'')
                 @ bracketed (data ''arch''),
               base = bs, version = v, semantic = (ty \<in> set semantic_types),
               cycle = cyc, cycle_build = cb, build = b, architecture = data ''arch'',
               extra = data ''rest'', date = dt\<rparr>))))))"

text \<open>
  The loop of \<open>from_str\<close>: the first expression that matches and whose match converts without an
  exception. A suppressed exception goes on with the next expression.
\<close>

fun first_match ::
  "(string \<Rightarrow> rsp_image_tag) \<Rightarrow> string \<Rightarrow> (rsp_image_type \<times> regex) list \<Rightarrow> rsp_image_tag option" where
  "first_match parse s [] = None"
| "first_match parse s ((ty, rx) # rest) =
     (case re_match rx s of
        None \<Rightarrow> first_match parse s rest
      | Some g \<Rightarrow> (case from_match parse ty (map_of g) s of
                    Inl _ \<Rightarrow> first_match parse s rest
                  | Inr t \<Rightarrow> Some t))"

definition plain_tag :: "string \<Rightarrow> rsp_image_tag" where
  "plain_tag s = \<lparr>tag_name = s, image_type = UNKNOWN, display_name = s, base = None, version = None,
     semantic = False, cycle = None, cycle_build = None, build = None, architecture = None,
     extra = None, date = None\<rparr>"

definition docker_default_tag :: string where
  "docker_default_tag = ''latest''"

definition parse_with :: "(string \<Rightarrow> rsp_image_tag) \<Rightarrow> string \<Rightarrow> rsp_image_tag" where
  "parse_with parse s0 =
     (let s = (if s0 = [] then docker_default_tag else s0)
      in case first_match parse s tag_regexes of Some t \<Rightarrow> t | None \<Rightarrow> plain_tag s)"

text \<open>
  The recursion is on the body of an experimental tag, which is nonempty and shorter than the tag.
\<close>

lemma experimental_capture:
  assumes "re_match experimental_rx s = Some g" and "map_of g ''rest'' = Some e"
  shows "length e < length s"
proof -
  obtain t where m: "(g, t) \<in> set (rmatch experimental_rx s)"
    using assms(1) by (auto simp: re_match_first dest: re_first_in)
  have "(''rest'', e) \<in> set g" using assms(2) by (rule map_of_SomeD)
  with m show ?thesis
    unfolding experimental_rx_def lit_simps by (rule rmatch_Seq_Cls_capture)
qed

lemma from_match_cong:
  "(\<And>e. data ''rest'' = Some e \<Longrightarrow> e \<noteq> [] \<Longrightarrow> ty = EXPERIMENTAL \<Longrightarrow> p e = q e) \<Longrightarrow>
   from_match p ty data s = from_match q ty data s"
  by (cases "ty = EXPERIMENTAL"; cases "data ''rest''") (simp_all add: from_match_def nonempty_def)

lemma first_match_cong:
  assumes "\<And>e. e \<noteq> [] \<Longrightarrow> length e < length s \<Longrightarrow> p e = q e"
    and "\<And>rx. (EXPERIMENTAL, rx) \<in> set rs \<Longrightarrow> rx = experimental_rx"
  shows "first_match p s rs = first_match q s rs"
  using assms(2)
proof (induction rs)
  case Nil
  then show ?case by simp
next
  case (Cons r rs)
  obtain ty rx where r: "r = (ty, rx)" by (cases r)
  have IH: "first_match p s rs = first_match q s rs" using Cons by auto
  have "from_match p ty (map_of g) s = from_match q ty (map_of g) s"
    if "re_match rx s = Some g" for g
    using that Cons.prems r by (intro from_match_cong assms(1)) (auto intro: experimental_capture)
  with IH r show ?case by (auto split: option.splits sum.splits)
qed

lemma parse_with_cong [fundef_cong]:
  assumes "s = s'" and "\<And>e. e \<noteq> [] \<Longrightarrow> length e < length (if s' = [] then docker_default_tag else s') \<Longrightarrow> p e = q e"
  shows "parse_with p s = parse_with q s'"
proof -
  have "rx = experimental_rx" if "(EXPERIMENTAL, rx) \<in> set tag_regexes" for rx
    using that by (auto simp: tag_regexes_def)
  then show ?thesis
    using assms first_match_cong [of "if s' = [] then docker_default_tag else s'" p q tag_regexes]
    by (simp add: parse_with_def Let_def)
qed

function from_str :: "string \<Rightarrow> rsp_image_tag" where
  "from_str s = parse_with from_str s"
  by pat_completeness auto
termination
  by (relation "measure (\<lambda>s. length (if s = [] then docker_default_tag else s))") auto

declare from_str.simps [simp del]

section \<open>Aliases\<close>

definition make_alias ::
  "string \<Rightarrow> string \<Rightarrow> string option \<Rightarrow> string option \<Rightarrow> (tag_error, rsp_image_tag) result" where
  "make_alias s bs cyc arch =
     rbind (py_int_opt cyc) (\<lambda>c.
       Inr \<lparr>tag_name = s, image_type = ALIAS,
            display_name = str_title (str_replace ''_'' '' '' bs) @ cycle_suffix cyc None
              @ bracketed arch,
            base = Some bs, version = None, semantic = False, cycle = c, cycle_build = None,
            build = None, architecture = arch, extra = None, date = None\<rparr>)"

definition alias_tag :: "string \<Rightarrow> (tag_error, rsp_image_tag) result" where
  "alias_tag s =
     (case re_match unknown_cycle_rx s of
        Some g \<Rightarrow> make_alias s (the (map_of g ''tag'')) (map_of g ''cycle'') (map_of g ''arch'')
      | None \<Rightarrow>
     (case re_match unknown_rx s of
        Some g \<Rightarrow> make_alias s (the (map_of g ''tag'')) None (map_of g ''arch'')
      | None \<Rightarrow> make_alias s s None None))"

section \<open>Comparison\<close>

definition compare_int :: "nat option \<Rightarrow> nat option \<Rightarrow> int" where
  "compare_int left right =
     (if left = right then 0
      else case left of None \<Rightarrow> -1
      | Some a \<Rightarrow> (case right of None \<Rightarrow> 1 | Some b \<Rightarrow> if a < b then -1 else 1))"

definition compare_str :: "bool \<Rightarrow> string option \<Rightarrow> string option \<Rightarrow> int" where
  "compare_str none_last left right =
     (if left = right then 0
      else case left of None \<Rightarrow> (if none_last then 1 else -1)
      | Some a \<Rightarrow> (case right of None \<Rightarrow> (if none_last then -1 else 1)
                  | Some b \<Rightarrow> if a < b then -1 else 1))"

definition compare_key ::
  "(semver \<Rightarrow> semver \<Rightarrow> int) \<Rightarrow> ('a rsp_image_tag_scheme) \<Rightarrow> ('a rsp_image_tag_scheme) \<Rightarrow> int" where
  "compare_key vcmp a b =
     (case (version a, version b) of
        (Some v, Some w) \<Rightarrow> vcmp v w
      | _ \<Rightarrow> compare_str False (base a) (base b))"

definition compare_tag ::
  "(semver \<Rightarrow> semver \<Rightarrow> int) \<Rightarrow> ('a rsp_image_tag_scheme) \<Rightarrow> ('a rsp_image_tag_scheme) \<Rightarrow> int option" where
  "compare_tag vcmp a b =
     (if image_type a \<noteq> image_type b then None
      else Some
        (let rank = compare_key vcmp a b in if rank \<noteq> 0 then rank else
         let rank = compare_int (cycle a) (cycle b) in if rank \<noteq> 0 then rank else
         let rank = compare_int (cycle_build a) (cycle_build b) in if rank \<noteq> 0 then rank else
         let rank = compare_int (build a) (build b) in if rank \<noteq> 0 then rank else
         let rank = compare_str False (extra a) (extra b) in if rank \<noteq> 0 then rank else
         compare_str True (architecture a) (architecture b)))"

definition tag_lt ::
  "(semver \<Rightarrow> semver \<Rightarrow> int) \<Rightarrow> ('a rsp_image_tag_scheme) \<Rightarrow> ('a rsp_image_tag_scheme) \<Rightarrow> bool" where
  "tag_lt vcmp a b \<longleftrightarrow> compare_tag vcmp a b = Some (-1)"

definition tag_eq ::
  "(semver \<Rightarrow> semver \<Rightarrow> int) \<Rightarrow> ('a rsp_image_tag_scheme) \<Rightarrow> ('a rsp_image_tag_scheme) \<Rightarrow> bool" where
  "tag_eq vcmp a b \<longleftrightarrow> compare_tag vcmp a b = Some 0"

section \<open>What the parser returns\<close>

definition digits :: "string \<Rightarrow> bool" where
  "digits s \<longleftrightarrow> s \<noteq> [] \<and> list_all is_digit s \<and> length s \<le> 4300"

lemma py_int_digits: "digits s \<Longrightarrow> py_int s = Inr (digits_val s)"
  by (auto simp: digits_def py_int_def)

lemma digits_dec: "length (dec n) \<le> 4300 \<Longrightarrow> digits (dec n)"
  by (simp add: digits_def dec_nonempty dec_digits)

definition tail_str :: "(string \<times> string) option \<Rightarrow> string option \<Rightarrow> string option \<Rightarrow> string" where
  "tail_str cyc b arch =
     (case cyc of None \<Rightarrow> [] | Some (c, cb) \<Rightarrow> ''_c'' @ c @ ''.'' @ cb) @
     (case b of None \<Rightarrow> [] | Some n \<Rightarrow> ''_rsp'' @ n) @
     (case arch of None \<Rightarrow> [] | Some a \<Rightarrow> ''-'' @ a)"

definition tail_groups :: "(string \<times> string) option \<Rightarrow> string option \<Rightarrow> string option \<Rightarrow> groups" where
  "tail_groups cyc b arch =
     (case cyc of None \<Rightarrow> [] | Some (c, cb) \<Rightarrow> [(''cycle'', c), (''cbuild'', cb)]) @
     (case b of None \<Rightarrow> [] | Some n \<Rightarrow> [(''build'', n)]) @
     (case arch of None \<Rightarrow> [] | Some a \<Rightarrow> [(''arch'', a)])"

definition tail_ok :: "(string \<times> string) option \<Rightarrow> string option \<Rightarrow> string option \<Rightarrow> bool" where
  "tail_ok cyc b arch \<longleftrightarrow>
     (case cyc of None \<Rightarrow> True | Some (c, cb) \<Rightarrow> digits c \<and> digits cb) \<and>
     (case b of None \<Rightarrow> True | Some n \<Rightarrow> digits n) \<and>
     (case arch of None \<Rightarrow> True | Some a \<Rightarrow> a \<noteq> [] \<and> list_all (cmatch LowerNum) a)"

definition no_digit :: "string \<Rightarrow> bool" where
  "no_digit t \<longleftrightarrow> (case t of [] \<Rightarrow> True | x # _ \<Rightarrow> \<not> is_digit x)"

lemma no_digit_simps [simp]: "no_digit []" "no_digit (x # xs) \<longleftrightarrow> \<not> is_digit x"
  by (simp_all add: no_digit_def)

lemma is_digit_chars [simp]:
  "\<not> is_digit CHR ''_''" "\<not> is_digit CHR ''.''" "\<not> is_digit CHR ''-''" "\<not> is_digit CHR ''r''"
  by (simp_all add: is_digit_def less_eq_char_def)

lemma cmatch_Digit: "cmatch Digit = is_digit"
  by (rule ext) simp

lemma re_first_dg: "digits s \<Longrightarrow> no_digit t \<Longrightarrow> re_first (dg n) (s @ t) = Some ([(n, s)], t)"
  unfolding dg_def by (rule re_first_Group_Plus) (auto simp: digits_def no_digit_def cmatch_Digit split: list.splits)

lemma re_first_dg_end: "digits s \<Longrightarrow> re_first (dg n) s = Some ([(n, s)], [])"
  using re_first_dg [of s "[]" n] by simp

lemma re_first_dg_Seq:
  "digits s \<Longrightarrow> no_digit t \<Longrightarrow> re_first q t = Some (h, u) \<Longrightarrow>
   re_first (Seq (dg n) q) (s @ t) = Some ((n, s) # h, u)"
  using re_first_Seq [OF re_first_dg] by fastforce

lemma re_first_arch_end:
  "(case arch of None \<Rightarrow> True | Some a \<Rightarrow> a \<noteq> [] \<and> list_all (cmatch LowerNum) a) \<Longrightarrow>
   re_first arch_end_rx (case arch of None \<Rightarrow> [] | Some a \<Rightarrow> ''-'' @ a) =
     Some (case arch of None \<Rightarrow> [] | Some a \<Rightarrow> [(''arch'', a)], [])"
proof (cases arch)
  case None
  then show ?thesis
    by (simp add: arch_end_rx_def arch_rx_def re_first_def)
next
  case (Some a)
  assume "case arch of None \<Rightarrow> True | Some a \<Rightarrow> a \<noteq> [] \<and> list_all (cmatch LowerNum) a"
  with Some have a: "re_first (Group ''arch'' (Plus LowerNum)) a = Some ([(''arch'', a)], [])"
    using re_first_Group_Plus [of LowerNum a "[]" "''arch''"] by simp
  have "re_first arch_rx (''-'' @ a) = Some ([(''arch'', a)], [])"
    unfolding arch_rx_def by (rule re_first_Opt_take) (simp add: a)
  from re_first_Seq [OF this, of Eos "[]" "[]"] Some show ?thesis
    by (simp add: arch_end_rx_def re_first_Eos)
qed

lemma re_first_Seq_Opt_skip:
  "rmatch r s = [] \<Longrightarrow> re_first q s = Some m \<Longrightarrow> re_first (Seq (Opt r) q) s = Some m"
  using re_first_Seq [OF re_first_Opt_skip] by (metis append_Nil surj_pair)

lemma re_first_tail:
  assumes "tail_ok cyc b arch"
  shows "re_first tail_rx (tail_str cyc b arch) = Some (tail_groups cyc b arch, [])"
proof -
  let ?a = "case arch of None \<Rightarrow> [] | Some a \<Rightarrow> ''-'' @ a"
  let ?ga = "case arch of None \<Rightarrow> [] | Some a \<Rightarrow> [(''arch'', a)]"
  let ?b = "(case b of None \<Rightarrow> [] | Some n \<Rightarrow> ''_rsp'' @ n) @ ?a"
  let ?gb = "(case b of None \<Rightarrow> [] | Some n \<Rightarrow> [(''build'', n)]) @ ?ga"
  have nda: "no_digit ?a" by (simp split: option.splits)
  have ndb: "no_digit ?b" using nda by (simp split: option.splits)
  have "re_first arch_end_rx ?a = Some (?ga, [])"
    using assms by (intro re_first_arch_end) (simp add: tail_ok_def)
  then have rest: "re_first (Seq rest_rx arch_end_rx) ?a = Some (?ga, [])"
    unfolding rest_rx_def by (intro re_first_Seq_Opt_skip) (auto split: option.splits)
  have bld: "re_first (Seq rsp_rx (Seq rest_rx arch_end_rx)) ?b = Some (?gb, [])"
  proof (cases b)
    case None
    with rest show ?thesis
      unfolding rsp_rx_def by (intro re_first_Seq_Opt_skip) (auto split: option.splits)
  next
    case (Some n)
    with assms have "digits n" by (simp add: tail_ok_def)
    then have "re_first rsp_rx (''_rsp'' @ n @ ?a) = Some ([(''build'', n)], ?a)"
      unfolding rsp_rx_def by (intro re_first_Opt_take) (simp add: re_first_dg nda)
    from re_first_Seq [OF this rest] Some show ?thesis by simp
  qed
  show ?thesis
  proof (cases cyc)
    case None
    with bld show ?thesis
      unfolding tail_rx_def tail_str_def tail_groups_def cycle_rx_def
      by (intro re_first_Seq_Opt_skip) (auto split: option.splits)
  next
    case (Some p)
    obtain c cb where p: "p = (c, cb)" by (cases p)
    with assms Some have d: "digits c" "digits cb" by (simp_all add: tail_ok_def)
    have "re_first (lit ''.'' (dg ''cbuild'')) (''.'' @ cb @ ?b) = Some ([(''cbuild'', cb)], ?b)"
      using d(2) ndb by (simp add: re_first_dg)
    from re_first_dg_Seq [OF d(1) _ this]
    have "re_first cycle_rx (''_c'' @ c @ ''.'' @ cb @ ?b) =
      Some ([(''cycle'', c), (''cbuild'', cb)], ?b)"
      unfolding cycle_rx_def by (intro re_first_Opt_take) simp
    from re_first_Seq [OF this bld] Some p show ?thesis
      by (simp add: tail_rx_def tail_str_def tail_groups_def)
  qed
qed

lemma tail_str_no_digit: "no_digit (tail_str cyc b arch)"
  by (auto simp: tail_str_def split: option.splits)

lemma re_match_weekly:
  assumes "digits y" "digits w" "tail_ok cyc b arch"
  shows "re_match (weekly_rx tail_rx) (''w_'' @ y @ ''_'' @ w @ tail_str cyc b arch) =
    Some ((''year'', y) # (''week'', w) # tail_groups cyc b arch)"
proof -
  have 1: "re_first (Seq (dg ''week'') tail_rx) (w @ tail_str cyc b arch) =
    Some ((''week'', w) # tail_groups cyc b arch, [])"
    using assms by (intro re_first_dg_Seq re_first_tail) (simp_all add: tail_str_no_digit)
  have "re_first (Seq (dg ''year'') (lit ''_'' (Seq (dg ''week'') tail_rx)))
     (y @ ''_'' @ w @ tail_str cyc b arch) =
     Some ((''year'', y) # (''week'', w) # tail_groups cyc b arch, [])"
    using assms 1 by (intro re_first_dg_Seq) simp_all
  then show ?thesis by (simp add: re_match_first weekly_rx_def)
qed

lemma map_of_tail_groups:
  "map_of (tail_groups cyc b arch) =
     (\<lambda>k. if k = ''cycle'' then map_option fst cyc else if k = ''cbuild'' then map_option snd cyc
          else if k = ''build'' then b else if k = ''arch'' then arch else None)"
  by (rule ext) (simp add: tail_groups_def split: option.splits prod.splits)

lemma re_match_lit_skip: "c \<noteq> x \<Longrightarrow> re_match (Seq (Cls (Lit c)) k) (x # xs) = None"
  by (simp add: re_match_first)

lemmas rx_defs = candidate_rx_def release_rx_def obsolete_rx_def weekly_rx_def daily_rx_def
  experimental_rx_def

text \<open>The numbers of the tail convert, whatever of it is present.\<close>

lemma py_int_opt_tail:
  assumes "tail_ok cyc b arch"
  shows "py_int_opt (map_option fst cyc) = Inr (map_option (digits_val \<circ> fst) cyc)"
    and "py_int_opt (map_option snd cyc) = Inr (map_option (digits_val \<circ> snd) cyc)"
    and "py_int_opt b = Inr (map_option digits_val b)"
  using assms
  by (auto simp: tail_ok_def py_int_opt_def py_int_digits digits_def split: option.splits prod.splits)

definition weekly_tag ::
  "string \<Rightarrow> string \<Rightarrow> (string \<times> string) option \<Rightarrow> string option \<Rightarrow> string option \<Rightarrow> datetime \<Rightarrow> rsp_image_tag" where
  "weekly_tag y w cyc b arch dt =
     \<lparr>tag_name = ''w_'' @ y @ ''_'' @ w @ tail_str cyc b arch, image_type = WEEKLY,
      display_name = ''Weekly '' @ y @ ''_'' @ w
        @ cycle_suffix (map_option fst cyc) (map_option snd cyc) @ build_suffix b @ bracketed arch,
      base = None,
      version = Some \<lparr>major = digits_val y, minor = digits_val w, patch = 0, prerelease = None\<rparr>,
      semantic = False, cycle = map_option (digits_val \<circ> fst) cyc,
      cycle_build = map_option (digits_val \<circ> snd) cyc, build = map_option digits_val b,
      architecture = arch, extra = None, date = Some dt\<rparr>"

lemma digits_nonempty: "digits s \<Longrightarrow> s \<noteq> []"
  by (simp add: digits_def)

lemma from_match_weekly:
  assumes "digits y" "digits w" "tail_ok cyc b arch"
    and "datetime_iso (digits_val y) (digits_val w) 4 = Inr dt"
  shows "from_match p WEEKLY (map_of ((''year'', y) # (''week'', w) # tail_groups cyc b arch))
    (''w_'' @ y @ ''_'' @ w @ tail_str cyc b arch) = Inr (weekly_tag y w cyc b arch dt)"
  using assms digits_nonempty [OF assms(1)] digits_nonempty [OF assms(2)]
  by (simp add: from_match_def parse_version_def need_def py_int_digits map_of_tail_groups
      py_int_opt_tail calculate_date_def date_result_def weekly_tag_def
      semantic_types_def bracketed_def nonempty_def)

theorem parse_weekly:
  assumes "digits y" "digits w" "tail_ok cyc b arch"
    and "datetime_iso (digits_val y) (digits_val w) 4 = Inr dt"
  shows "from_str (''w_'' @ y @ ''_'' @ w @ tail_str cyc b arch) = weekly_tag y w cyc b arch dt"
  using from_match_weekly [OF assms] re_match_weekly [OF assms(1-3)]
  by (subst from_str.simps)
    (simp add: parse_with_def tag_regexes_def rx_defs re_match_lit_skip flip: weekly_rx_def)

text \<open>Digits followed by a literal: the search has one way through, however it backtracks.\<close>

lemma star_rests_digits_lit:
  "list_all is_digit s \<Longrightarrow> \<not> is_digit c \<Longrightarrow> no_digit t \<Longrightarrow>
   concat (map (\<lambda>r. map (f r) (rmatch (Seq (Cls (Lit c)) k) r)) (star_rests Digit (s @ t))) =
   map (f t) (rmatch (Seq (Cls (Lit c)) k) t)"
proof (induction s)
  case Nil
  then have "star_rests Digit t = [t]" by (intro star_rests_stop) (auto simp: no_digit_def split: list.splits)
  then show ?case by simp
next
  case (Cons x xs)
  then have "rmatch (Seq (Cls (Lit c)) k) (x # xs @ t) = []" by (auto simp: rmatch_Seq_Cls simp del: rmatch.simps)
  with Cons show ?case by (simp del: rmatch.simps)
qed

lemma rmatch_dg_lit:
  assumes "digits s" "\<not> is_digit c" "no_digit t"
  shows "rmatch (Seq (dg n) (Seq (Cls (Lit c)) k)) (s @ t) =
    map (\<lambda>(h, u). ((n, s) # h, u)) (rmatch (Seq (Cls (Lit c)) k) t)"
proof -
  obtain x xs where s: "s = x # xs" "is_digit x" "list_all is_digit xs"
    using assms(1) by (cases s) (auto simp: digits_def)
  define R where "R = rmatch (Seq (Cls (Lit c)) k)"
  have "rmatch (Seq (dg n) (Seq (Cls (Lit c)) k)) (s @ t) =
    concat (map (\<lambda>r. map (\<lambda>(h, u). ((n, take (length (s @ t) - length r) (s @ t)) # h, u)) (R r))
      (star_rests Digit (xs @ t)))"
    unfolding R_def by (simp add: dg_def s comp_def del: rmatch.simps(1)) 
  also have "\<dots> = map (\<lambda>(h, u). ((n, take (length (s @ t) - length t) (s @ t)) # h, u)) (R t)"
    unfolding R_def by (rule star_rests_digits_lit [OF s(3) assms(2,3)])
  finally show ?thesis by (simp add: R_def)
qed

lemma re_match_candidate_none:
  assumes "digits ma" "digits mi" "digits pa" "tail_ok cyc b arch"
  shows "re_match (candidate_rx k) (''r'' @ ma @ ''_'' @ mi @ ''_'' @ pa @ tail_str cyc b arch) = None"
proof -
  have "rmatch (lit ''_'' (Seq (Group ''pre'' (lit ''rc'' (Plus Digit))) k)) (tail_str cyc b arch) = []"
    by (auto simp: tail_str_def split: option.splits)
  then have "rmatch (Seq (dg ''patch'') (lit ''_'' (Seq (Group ''pre'' (lit ''rc'' (Plus Digit))) k)))
    (pa @ tail_str cyc b arch) = []"
    using rmatch_dg_lit [OF assms(3) _ tail_str_no_digit] by (simp del: rmatch.simps)
  then have "rmatch (candidate_rx k) (''r'' @ ma @ ''_'' @ mi @ ''_'' @ pa @ tail_str cyc b arch) = []"
    unfolding candidate_rx_def release_rx_def
    using rmatch_dg_lit [OF assms(1), of "CHR ''_''" "''_'' @ mi @ ''_'' @ pa @ tail_str cyc b arch"]
      rmatch_dg_lit [OF assms(2), of "CHR ''_''" "''_'' @ pa @ tail_str cyc b arch"]
    by (simp add: rmatch_Seq_Cls del: rmatch.simps)
  then show ?thesis by (simp add: re_match_def)
qed

lemma re_match_release:
  assumes "digits ma" "digits mi" "digits pa" "tail_ok cyc b arch"
  shows "re_match (release_rx tail_rx) (''r'' @ ma @ ''_'' @ mi @ ''_'' @ pa @ tail_str cyc b arch) =
    Some ((''major'', ma) # (''minor'', mi) # (''patch'', pa) # tail_groups cyc b arch)"
proof -
  have 1: "re_first (Seq (dg ''patch'') tail_rx) (pa @ tail_str cyc b arch) =
    Some ((''patch'', pa) # tail_groups cyc b arch, [])"
    using assms by (intro re_first_dg_Seq re_first_tail) (simp_all add: tail_str_no_digit)
  have 2: "re_first (Seq (dg ''minor'') (lit ''_'' (Seq (dg ''patch'') tail_rx)))
     (mi @ ''_'' @ pa @ tail_str cyc b arch) =
     Some ((''minor'', mi) # (''patch'', pa) # tail_groups cyc b arch, [])"
    using assms 1 by (intro re_first_dg_Seq) simp_all
  have "re_first (Seq (dg ''major'') (lit ''_'' (Seq (dg ''minor'') (lit ''_'' (Seq (dg ''patch'') tail_rx)))))
     (ma @ ''_'' @ mi @ ''_'' @ pa @ tail_str cyc b arch) =
     Some ((''major'', ma) # (''minor'', mi) # (''patch'', pa) # tail_groups cyc b arch, [])"
    using assms 2 by (intro re_first_dg_Seq) simp_all
  then show ?thesis by (simp add: re_match_first release_rx_def)
qed

definition release_tag ::
  "string \<Rightarrow> string \<Rightarrow> string \<Rightarrow> (string \<times> string) option \<Rightarrow> string option \<Rightarrow> string option \<Rightarrow> rsp_image_tag" where
  "release_tag ma mi pa cyc b arch =
     \<lparr>tag_name = ''r'' @ ma @ ''_'' @ mi @ ''_'' @ pa @ tail_str cyc b arch, image_type = RELEASE,
      display_name = ''Release r'' @ dec (digits_val ma) @ ''.'' @ dec (digits_val mi) @ ''.''
        @ dec (digits_val pa)
        @ cycle_suffix (map_option fst cyc) (map_option snd cyc) @ build_suffix b @ bracketed arch,
      base = None,
      version = Some \<lparr>major = digits_val ma, minor = digits_val mi, patch = digits_val pa,
        prerelease = None\<rparr>,
      semantic = True, cycle = map_option (digits_val \<circ> fst) cyc,
      cycle_build = map_option (digits_val \<circ> snd) cyc, build = map_option digits_val b,
      architecture = arch, extra = None, date = None\<rparr>"

lemma from_match_release:
  assumes "digits ma" "digits mi" "digits pa" "tail_ok cyc b arch"
  shows "from_match p RELEASE
      (map_of ((''major'', ma) # (''minor'', mi) # (''patch'', pa) # tail_groups cyc b arch))
      (''r'' @ ma @ ''_'' @ mi @ ''_'' @ pa @ tail_str cyc b arch) =
    Inr (release_tag ma mi pa cyc b arch)"
  using assms
  by (simp add: from_match_def parse_version_def need_def py_int_digits map_of_tail_groups
      py_int_opt_tail calculate_date_def get_default_def release_tag_def
      semantic_types_def bracketed_def nonempty_def)

theorem parse_release:
  assumes "digits ma" "digits mi" "digits pa" "tail_ok cyc b arch"
  shows "from_str (''r'' @ ma @ ''_'' @ mi @ ''_'' @ pa @ tail_str cyc b arch) =
    release_tag ma mi pa cyc b arch"
  using from_match_release [OF assms] re_match_release [OF assms]
    re_match_candidate_none [OF assms, of tail_rx]
  by (subst from_str.simps) (simp add: parse_with_def tag_regexes_def)

text \<open>
  A tag without a newline always matches the last expression, whose match always converts, so the
  fallback of \<open>from_str\<close> is for tags with a newline only.
\<close>

definition newline_free :: "string \<Rightarrow> bool" where
  "newline_free s \<longleftrightarrow> CHR 0x0A \<notin> set s"

lemma star_rests_Dot: "newline_free s \<Longrightarrow> [] \<in> set (star_rests Dot s)"
  by (induction s) (auto simp: newline_free_def)

fun group_names :: "regex \<Rightarrow> string set" where
  "group_names (Opt r) = group_names r"
| "group_names (Seq r q) = group_names r \<union> group_names q"
| "group_names (Alt r q) = group_names r \<union> group_names q"
| "group_names (Group n r) = insert n (group_names r)"
| "group_names r = {}"

lemma rmatch_group_names: "(g, t) \<in> set (rmatch r s) \<Longrightarrow> fst ` set g \<subseteq> group_names r"
proof (induction r arbitrary: g s t)
  case (Cls c)
  then show ?case by (cases s) (auto split: if_splits)
next
  case (Seq r q)
  then obtain g1 t1 g2 where "(g1, t1) \<in> set (rmatch r s)" "(g2, t) \<in> set (rmatch q t1)" "g = g1 @ g2"
    by auto
  with Seq.IH(1) [of g1 t1 s] Seq.IH(2) [of g2 t t1] show ?case by auto
next
  case (Alt r q)
  then have "(g, t) \<in> set (rmatch r s) \<or> (g, t) \<in> set (rmatch q s)" by auto
  with Alt.IH(1) [of g t s] Alt.IH(2) [of g t s] show ?case by auto
next
  case (Opt r)
  then have "(g, t) \<in> set (rmatch r s) \<or> g = []" by auto
  with Opt.IH [of g t s] show ?case by auto
next
  case (Group n r)
  then obtain g1 v where "(g1, t) \<in> set (rmatch r s)" "g = g1 @ [(n, v)]" by auto
  with Group.IH [of g1 t s] show ?case by auto
qed (auto split: if_splits)

lemma re_match_names: "re_match r s = Some g \<Longrightarrow> k \<notin> group_names r \<Longrightarrow> map_of g k = None"
proof -
  assume "re_match r s = Some g" and k: "k \<notin> group_names r"
  then obtain t where "(g, t) \<in> set (rmatch r s)"
    using re_first_in [of r s] by (auto simp: re_match_first)
  then have "fst ` set g \<subseteq> group_names r" by (rule rmatch_group_names)
  with k show "map_of g k = None" by (auto simp: map_of_eq_None_iff)
qed

lemma unknown_rx_matches:
  assumes "newline_free s"
  shows "\<exists>g. re_match unknown_rx s = Some g"
proof -
  have "([], []) \<in> set (rmatch arch_end_rx [])"
    by (simp add: arch_end_rx_def arch_rx_def)
  moreover have "([(''tag'', s)], []) \<in> set (rmatch (Group ''tag'' (LazyStar Dot)) s)"
    using star_rests_Dot [OF assms] by (force simp: image_iff)
  ultimately have "rmatch unknown_rx s \<noteq> []"
    unfolding unknown_rx_def rmatch.simps(6) by fastforce
  then show ?thesis by (auto simp: re_match_def split: list.splits)
qed

lemma from_match_unknown:
  assumes "re_match unknown_rx s = Some g"
  shows "\<exists>t. from_match p UNKNOWN (map_of g) s = Inr t"
proof -
  have "map_of g k = None" if "k \<in> {''cycle'', ''cbuild'', ''build'', ''year''}" for k
    using that by (intro re_match_names [OF assms])
      (auto simp: unknown_rx_def arch_end_rx_def arch_rx_def)
  then show ?thesis
    by (simp add: from_match_def py_int_opt_def calculate_date_def nonempty_def)
qed

text \<open>A well-formed tag has either a version or a base name, never both, never neither.\<close>

definition tag_wf :: "('a rsp_image_tag_scheme) \<Rightarrow> bool" where
  "tag_wf t \<longleftrightarrow> (version t = None \<longleftrightarrow> base t \<noteq> None)"

lemma from_match_wf:
  assumes "from_match p ty data s = Inr t" and "ty = EXPERIMENTAL \<Longrightarrow> tag_wf (p (the (data ''rest'')))"
  shows "tag_wf t \<and> image_type t = ty \<and> tag_name t = s"
  using assms
  by (auto simp: from_match_def tag_wf_def Let_def rbind_eq_Inr split: if_splits)

lemma first_match_wf:
  assumes "first_match p s rs = Some t"
    and "\<And>rx g. (EXPERIMENTAL, rx) \<in> set rs \<Longrightarrow> re_match rx s = Some g \<Longrightarrow>
      nonempty (map_of g ''rest'') \<Longrightarrow> tag_wf (p (the (map_of g ''rest'')))"
  shows "tag_wf t \<and> tag_name t = s \<and> image_type t \<in> fst ` set rs"
  using assms
proof (induction rs)
  case Nil
  then show ?case by simp
next
  case (Cons r rs)
  obtain ty rx where r: "r = (ty, rx)" by (cases r)
  show ?case
  proof (cases "\<exists>g t'. re_match rx s = Some g \<and> from_match p ty (map_of g) s = Inr t'")
    case True
    then obtain g t' where g: "re_match rx s = Some g" "from_match p ty (map_of g) s = Inr t'" by blast
    with Cons.prems(1) r have "t' = t" by simp
    moreover have "tag_wf (p (the (map_of g ''rest'')))" if "ty = EXPERIMENTAL"
      using that g Cons.prems(2) r by (auto simp: from_match_def split: if_splits)
    ultimately show ?thesis using from_match_wf [OF g(2)] r by auto
  next
    case False
    with Cons.prems(1) r have "first_match p s rs = Some t"
      by (auto split: option.splits sum.splits)
    with Cons show ?thesis by auto
  qed
qed

lemma first_match_total:
  assumes "newline_free s"
  shows "\<exists>t. first_match p s tag_regexes = Some t"
proof -
  obtain g where g: "re_match unknown_rx s = Some g" using unknown_rx_matches [OF assms] ..
  then obtain t where t: "from_match p UNKNOWN (map_of g) s = Inr t" using from_match_unknown by blast
  have "\<exists>t. first_match p s (rs @ [(UNKNOWN, unknown_rx)]) = Some t" for rs
    by (induction rs) (auto simp: g t split: option.splits sum.splits)
  from this [of "butlast tag_regexes"] show ?thesis by (simp add: tag_regexes_def)
qed

lemma experimental_rest:
  assumes "re_match experimental_rx s = Some g" and "newline_free s"
  shows "\<exists>e. s = ''exp_'' @ e \<and> e \<noteq> [] \<and> map_of g ''rest'' = Some e"
proof -
  obtain c1 c2 c3 c4 e where s: "s = c1 # c2 # c3 # c4 # e"
    using assms(1) by (auto simp: experimental_rx_def re_match_def split: list.splits if_splits)
  then have s: "s = ''exp_'' @ e"
    and r: "re_match (Seq (Group ''rest'' (Plus Dot)) Eos) e = Some g"
    using assms(1) by (auto simp: experimental_rx_def re_match_first split: if_splits)
  have e: "e \<noteq> []" using r by (auto simp: re_match_def)
  have "list_all (cmatch Dot) e"
    using assms(2) s by (auto simp: newline_free_def list_all_iff)
  then have "re_first (Seq (Group ''rest'' (Plus Dot)) Eos) e = Some ([(''rest'', e)], [])"
    using re_first_Seq [OF re_first_Group_Plus [of Dot e "[]" "''rest''"], of Eos "[]" "[]"] e
    by (simp add: re_first_Eos)
  with r s e show ?thesis by (auto simp: re_match_first)
qed

lemma from_str_facts:
  "newline_free s \<Longrightarrow> tag_wf (from_str s) \<and> image_type (from_str s) \<noteq> ALIAS \<and>
     tag_name (from_str s) = (if s = [] then ''latest'' else s)"
proof (induction s rule: from_str.induct)
  case (1 s)
  let ?s = "if s = [] then ''latest'' else s"
  have nf: "newline_free ?s" using "1.prems" by (auto simp: newline_free_def)
  obtain t where t: "first_match from_str ?s tag_regexes = Some t" using first_match_total [OF nf] ..
  have "tag_wf t \<and> tag_name t = ?s \<and> image_type t \<in> fst ` set tag_regexes"
  proof (rule first_match_wf [OF t])
    fix rx g
    assume "(EXPERIMENTAL, rx) \<in> set tag_regexes" and m: "re_match rx ?s = Some g"
    then have "rx = experimental_rx" by (auto simp: tag_regexes_def)
    with m nf obtain e where e: "?s = ''exp_'' @ e" "e \<noteq> []" "map_of g ''rest'' = Some e"
      using experimental_rest by blast
    moreover have "length e < length (if s = [] then docker_default_tag else s)"
      using e(1) by (auto simp: docker_default_tag_def split: if_splits)
    moreover have "newline_free e" using nf e(1) by (auto simp: newline_free_def)
    ultimately show "tag_wf (from_str (the (map_of g ''rest'')))" using "1.IH" by auto
  qed
  moreover have "from_str s = t"
    using t by (subst from_str.simps) (cases "s = []"; simp add: parse_with_def docker_default_tag_def Let_def)
  ultimately show ?case by (auto simp: tag_regexes_def)
qed

theorem parse_experimental:
  assumes "newline_free e" and "e \<noteq> []"
  shows "from_str (''exp_'' @ e) =
    (from_str e)\<lparr>image_type := EXPERIMENTAL, tag_name := ''exp_'' @ e,
       display_name := ''Experimental '' @ display_name (from_str e)\<rparr>"
proof -
  have "list_all (cmatch Dot) e"
    using assms(1) by (auto simp: newline_free_def list_all_iff)
  then have "re_first (Seq (Group ''rest'' (Plus Dot)) Eos) e = Some ([(''rest'', e)], [])"
    using re_first_Seq [OF re_first_Group_Plus [of Dot e "[]" "''rest''"], of Eos "[]" "[]"] assms(2)
    by (simp add: re_first_Eos)
  then have "re_match experimental_rx (''exp_'' @ e) = Some [(''rest'', e)]"
    by (simp add: experimental_rx_def re_match_first)
  then show ?thesis
    using assms(2) by (subst from_str.simps)
     (simp add: parse_with_def tag_regexes_def rx_defs re_match_lit_skip from_match_def nonempty_def Let_def
        flip: experimental_rx_def)
qed

section \<open>The order of tags\<close>

text \<open>
  Python sorts with \<open><\<close>, which is \<open>tag_lt\<close> here. On well-formed tags of one type it is the strict
  part of a comparison, so sorting a list of them gives a sorted list.
\<close>

interpretation ints: comparison compare_int UNIV
proof
  fix x y z :: "nat option"
  show "compare_int x y = -1 \<or> compare_int x y = 0 \<or> compare_int x y = 1"
    and "compare_int x x = 0" and "compare_int y x = - compare_int x y"
    by (auto simp: compare_int_def split: option.splits)
  show "compare_int x y \<le> 0 \<Longrightarrow> compare_int y z \<le> 0 \<Longrightarrow> compare_int x z \<le> 0"
    by (auto simp: compare_int_def split: option.splits if_splits)
qed

interpretation strs: comparison "compare_str none_last" UNIV
proof
  fix x y z :: "string option"
  show "compare_str none_last x y = -1 \<or> compare_str none_last x y = 0 \<or> compare_str none_last x y = 1"
    and "compare_str none_last x x = 0"
    and "compare_str none_last y x = - compare_str none_last x y"
    by (auto simp: compare_str_def split: option.splits)
  show "compare_str none_last x y \<le> 0 \<Longrightarrow> compare_str none_last y z \<le> 0 \<Longrightarrow>
    compare_str none_last x z \<le> 0"
    by (auto simp: compare_str_def split: option.splits if_splits)
qed

definition wf_tags :: "rsp_image_type \<Rightarrow> ('a rsp_image_tag_scheme) set" where
  "wf_tags ty = {t. tag_wf t \<and> image_type t = ty}"

lemma compare_key_wf:
  assumes "version a = None \<longleftrightarrow> base a \<noteq> None" and "version b = None \<longleftrightarrow> base b \<noteq> None"
  shows "compare_key vcmp a b =
    (case version a of
       Some v \<Rightarrow> (case version b of Some w \<Rightarrow> vcmp v w | None \<Rightarrow> -1)
     | None \<Rightarrow> (case version b of Some w \<Rightarrow> 1 | None \<Rightarrow> compare_str False (base a) (base b)))"
  using assms by (cases "version a"; cases "version b") (auto simp: compare_key_def compare_str_def)

lemma comparison_key:
  assumes "semver_ok vcmp"
  shows "comparison (compare_key vcmp) (wf_tags ty)"
proof -
  have v1: "vcmp a b = -1 \<or> vcmp a b = 0 \<or> vcmp a b = 1" for a b
    using assms unfolding semver_ok_def by blast
  have v2: "vcmp a a = 0" for a using assms unfolding semver_ok_def by blast
  have v3: "vcmp b a = - vcmp a b" for a b using assms unfolding semver_ok_def by blast
  have v4: "vcmp a b \<le> 0 \<Longrightarrow> vcmp b c \<le> 0 \<Longrightarrow> vcmp a c \<le> 0" for a b c
    using assms unfolding semver_ok_def by blast
  show ?thesis
  proof
    fix x y z :: "'a rsp_image_tag_scheme"
    assume "x \<in> wf_tags ty" "y \<in> wf_tags ty" "z \<in> wf_tags ty"
    then have wf: "version x = None \<longleftrightarrow> base x \<noteq> None" "version y = None \<longleftrightarrow> base y \<noteq> None"
        "version z = None \<longleftrightarrow> base z \<noteq> None"
      by (auto simp: wf_tags_def tag_wf_def)
    show "compare_key vcmp x y = -1 \<or> compare_key vcmp x y = 0 \<or> compare_key vcmp x y = 1"
      using v1 strs.cmp_range by (simp add: compare_key_def split: option.split)
    show "compare_key vcmp x x = 0"
      using strs.cmp_refl by (simp add: compare_key_def v2 split: option.split)
    show "compare_key vcmp y x = - compare_key vcmp x y"
    proof (cases "version x = None \<or> version y = None")
      case True
      then show ?thesis
        using strs.cmp_sym [of "base x" "base y" False]
        by (auto simp: compare_key_def split: option.split)
    next
      case False
      then show ?thesis using v3 [of "the (version y)" "the (version x)"] by (auto simp: compare_key_def)
    qed
    note key = compare_key_wf [OF wf(1,2)] compare_key_wf [OF wf(2,3)] compare_key_wf [OF wf(1,3)]
    show "compare_key vcmp x z \<le> 0" if "compare_key vcmp x y \<le> 0" "compare_key vcmp y z \<le> 0"
      using that strs.cmp_trans [of "base x" "base y" "base z" False]
        v4 [of "the (version x)" "the (version y)" "the (version z)"] unfolding key
      by (cases "version x"; cases "version y"; cases "version z"; simp)
  qed
qed

definition tag_cmp ::
  "(semver \<Rightarrow> semver \<Rightarrow> int) \<Rightarrow> ('a rsp_image_tag_scheme) \<Rightarrow> ('a rsp_image_tag_scheme) \<Rightarrow> int" where
  "tag_cmp vcmp =
     cmp_then (compare_key vcmp)
    (cmp_then (\<lambda>a b. compare_int (cycle a) (cycle b))
    (cmp_then (\<lambda>a b. compare_int (cycle_build a) (cycle_build b))
    (cmp_then (\<lambda>a b. compare_int (build a) (build b))
    (cmp_then (\<lambda>a b. compare_str False (extra a) (extra b))
       (\<lambda>a b. compare_str True (architecture a) (architecture b))))))"

lemma compare_tag_cmp:
  "compare_tag vcmp a b = (if image_type a \<noteq> image_type b then None else Some (tag_cmp vcmp a b))"
  by (simp add: compare_tag_def tag_cmp_def cmp_then_def Let_def)

lemma comparison_tag_cmp: "semver_ok vcmp \<Longrightarrow> comparison (tag_cmp vcmp) (wf_tags ty)"
  unfolding tag_cmp_def
  by (intro comparison_then comparison_key comparison_pull [OF ints.comparison_axioms]
      comparison_pull [OF strs.comparison_axioms]) simp_all

lemma weak_order_tag_lt: "semver_ok vcmp \<Longrightarrow> weak_order (tag_lt vcmp) (wf_tags ty)"
  by (rule weak_order_cong [OF comparison.strict_weak_order [OF comparison_tag_cmp]])
    (auto simp: tag_lt_def compare_tag_cmp wf_tags_def)

text \<open>C34: On parsed tags of one type the comparison is a total preorder: any two are
  related, less is asymmetric and transitive, equality is transitive, given that the version
  comparison of the library is one.\<close>

theorem parsed_tags_ordered:
  assumes "semver_ok vcmp" and "newline_free r" and "newline_free s" and "newline_free t"
    and "image_type (from_str r) = image_type (from_str s)"
    and "image_type (from_str s) = image_type (from_str t)"
  shows "(tag_lt vcmp (from_str r) (from_str s) \<or> tag_eq vcmp (from_str r) (from_str s) \<or>
      tag_lt vcmp (from_str s) (from_str r)) \<and>
    \<not> (tag_lt vcmp (from_str r) (from_str s) \<and> tag_lt vcmp (from_str s) (from_str r)) \<and>
    (tag_lt vcmp (from_str r) (from_str s) \<longrightarrow> tag_lt vcmp (from_str s) (from_str t) \<longrightarrow>
      tag_lt vcmp (from_str r) (from_str t)) \<and>
    (tag_eq vcmp (from_str r) (from_str s) \<longrightarrow> tag_eq vcmp (from_str s) (from_str t) \<longrightarrow>
      tag_eq vcmp (from_str r) (from_str t))"
proof -
  let ?A = "wf_tags (image_type (from_str r))"
  have A: "from_str r \<in> ?A" "from_str s \<in> ?A" "from_str t \<in> ?A"
    using assms(2-6) from_str_facts by (auto simp: wf_tags_def)
  note cmp = comparison_tag_cmp [OF assms(1), of "image_type (from_str r)"]
  note order = weak_order_tag_lt [OF assms(1), of "image_type (from_str r)"]
  show ?thesis
    using comparison.cmp_range [OF cmp A(1,2)] comparison.cmp_sym [OF cmp A(1,2)]
      weak_order.asym [OF order A(1,2)] weak_order.lt_trans [OF order A]
      comparison.cmp_eq_trans [OF cmp A] assms(5,6)
    by (auto simp: tag_lt_def tag_eq_def compare_tag_cmp)
qed

text \<open>A tag that names a week or day that does not exist is kept, as an unknown tag.\<close>

lemma rmatch_no_cycle:
  assumes "CHR ''c'' \<notin> set s"
  shows "re_match unknown_cycle_rx s = None"
proof -
  have "rmatch (lit ''_c'' k) t = []" if "suffix t s" for k t
    using that assms by (auto simp: suffix_def split: list.splits)
  then have "rmatch unknown_cycle_rx s = []"
    by (fastforce simp: unknown_cycle_rx_def dest: star_rests_suffix simp del: lit_simps)
  then show ?thesis by (simp add: re_match_def)
qed

lemma lazy_dots:
  "newline_free s \<Longrightarrow> (\<And>t. suffix t s \<Longrightarrow> t \<noteq> [] \<Longrightarrow> f t = []) \<Longrightarrow>
   concat (map f (rev (star_rests Dot s))) = f []"
proof (induction s)
  case Nil
  then show ?case by simp
next
  case (Cons x xs)
  have "concat (map f (rev (star_rests Dot xs))) = f []"
    using Cons by (auto simp: newline_free_def suffix_Cons)
  then show ?case using Cons.prems(1) Cons.prems(2) [of "x # xs"] by (auto simp: newline_free_def)
qed

lemma re_match_unknown_plain:
  assumes "newline_free s" and "CHR ''-'' \<notin> set s"
  shows "re_match unknown_rx s = Some [(''tag'', s)]"
proof -
  define f where "f t = map (\<lambda>(h, u). ([(''tag'', take (length s - length t) s)] @ h, u))
    (rmatch arch_end_rx t)" for t
  have "f t = []" if t: "suffix t s" "t \<noteq> []" for t
  proof -
    obtain x xs where x: "t = x # xs" using t(2) by (cases t) auto
    then have "x \<noteq> CHR ''-''" "x \<noteq> CHR 0x0A"
      using t(1) assms by (auto simp: suffix_def newline_free_def)
    with x show ?thesis by (auto simp: f_def arch_end_rx_def arch_rx_def)
  qed
  then have "concat (map f (rev (star_rests Dot s))) = f []" by (rule lazy_dots [OF assms(1)])
  then have "rmatch unknown_rx s = f []"
    by (simp add: unknown_rx_def f_def [abs_def] comp_def case_prod_beta)
  then show ?thesis by (simp add: f_def re_match_def arch_end_rx_def arch_rx_def)
qed

lemma digits_chars: "digits s \<Longrightarrow> c \<in> set s \<Longrightarrow> is_digit c"
  by (auto simp: digits_def list_all_iff)

lemma digits_no: "digits s \<Longrightarrow> \<not> is_digit c \<Longrightarrow> c \<notin> set s"
  using digits_chars by blast

theorem parse_weekly_invalid:
  assumes "digits y" and "digits w"
    and "datetime_iso (digits_val y) (digits_val w) 4 = Inl e"
  shows "from_str (''w_'' @ y @ ''_'' @ w) =
    (plain_tag (''w_'' @ y @ ''_'' @ w))\<lparr>base := Some (''w_'' @ y @ ''_'' @ w)\<rparr>"
proof -
  let ?s = "''w_'' @ y @ ''_'' @ w"
  have tail: "tail_ok None None None" by (simp add: tail_ok_def)
  have weekly: "re_match (weekly_rx tail_rx) ?s = Some [(''year'', y), (''week'', w)]"
    using re_match_weekly [OF assms(1,2) tail] by (simp add: tail_str_def tail_groups_def)
  have fails: "from_match p WEEKLY (map_of [(''year'', y), (''week'', w)]) ?s = Inl ValueError" for p
    using assms digits_nonempty [OF assms(1)] digits_nonempty [OF assms(2)]
    by (simp add: from_match_def parse_version_def need_def py_int_digits py_int_opt_def
        calculate_date_def date_result_def semantic_types_def nonempty_def)
  have "newline_free ?s" "CHR ''-'' \<notin> set ?s" "CHR ''c'' \<notin> set ?s"
    using digits_no [OF assms(1)] digits_no [OF assms(2)]
    by (auto simp: newline_free_def is_digit_iff)
  then have unknown: "re_match unknown_rx ?s = Some [(''tag'', ?s)]"
    and cycle: "re_match unknown_cycle_rx ?s = None"
    using re_match_unknown_plain rmatch_no_cycle by blast+
  have none: "re_match (candidate_rx tail_rx) ?s = None" "re_match (release_rx tail_rx) ?s = None"
    "re_match obsolete_rx ?s = None" "re_match (daily_rx tail_rx) ?s = None"
    "re_match experimental_rx ?s = None"
    by (simp_all add: candidate_rx_def release_rx_def obsolete_rx_def daily_rx_def
        experimental_rx_def re_match_first)
  have kept: "from_match from_str UNKNOWN (map_of [(''tag'', ?s)]) ?s =
    Inr ((plain_tag ?s)\<lparr>base := Some ?s\<rparr>)"
    by (simp add: from_match_def get_default_def py_int_opt_def calculate_date_def nonempty_def
        cycle_suffix_def build_suffix_def bracketed_def plain_tag_def semantic_types_def)
  have "first_match from_str ?s tag_regexes = Some ((plain_tag ?s)\<lparr>base := Some ?s\<rparr>)"
    by (simp only: tag_regexes_def first_match.simps none weekly unknown cycle option.case fails
        kept sum.case)
  then show ?thesis by (subst from_str.simps) (simp add: parse_with_def Let_def)
qed

section \<open>Examples\<close>

lemma parse_weekly_witness:
  "from_str ''w_2021_22_c0023.002_rsp19-arm64'' =
     weekly_tag ''2021'' ''22'' (Some (''0023'', ''002'')) (Some ''19'') (Some ''arm64'') 63758275200000000"
proof -
  have "datetime_iso (digits_val ''2021'') (digits_val ''22'') 4 = Inr 63758275200000000" by (simp add: calendar_defs digits_val_def digit_val_def)
  from parse_weekly [OF _ _ _ this, of "Some (''0023'', ''002'')" "Some ''19''" "Some ''arm64''"]
  show ?thesis by (simp add: digits_def tail_ok_def tail_str_def is_digit_iff is_lower_iff)
qed

lemma parse_weekly_invalid_witness:
  "from_str ''w_2021_54'' = (plain_tag ''w_2021_54'')\<lparr>base := Some ''w_2021_54''\<rparr>"
proof -
  have "datetime_iso (digits_val ''2021'') (digits_val ''54'') 4 = Inl DateValueError" by (simp add: calendar_defs digits_val_def digit_val_def)
  from parse_weekly_invalid [OF _ _ this] show ?thesis by (simp add: digits_def is_digit_iff)
qed

lemma parsed_tags_ordered_witness:
  "tag_lt precedence (from_str ''exp_a'') (from_str ''exp_b'') \<and>
   tag_lt precedence (from_str ''exp_b'') (from_str ''exp_c'') \<and>
   tag_lt precedence (from_str ''exp_a'') (from_str ''exp_c'')"
proof -
  have types: "image_type (from_str ''exp_a'') = image_type (from_str ''exp_b'')"
    "image_type (from_str ''exp_b'') = image_type (from_str ''exp_c'')"
    by code_simp+
  have "tag_lt precedence (from_str ''exp_a'') (from_str ''exp_b'')"
    "tag_lt precedence (from_str ''exp_b'') (from_str ''exp_c'')"
    by code_simp+
  then show ?thesis
    using parsed_tags_ordered [OF semver_ok_precedence _ _ _ types]
    by (simp add: newline_free_def)
qed

lemma parse_release_witness:
  "from_str ''r23_0_1_rsp19'' = release_tag ''23'' ''0'' ''1'' None (Some ''19'') None"
  using parse_release [of "''23''" "''0''" "''1''" None "Some ''19''" None]
  by (simp add: digits_def tail_ok_def tail_str_def is_digit_iff)

lemma parse_experimental_witness:
  "display_name (from_str ''exp_w_2021_22'') = ''Experimental '' @ display_name (from_str ''w_2021_22'')"
  using parse_experimental [of "''w_2021_22''"] by (simp add: newline_free_def)

end
