(* ===== verification/Tag_Collection.thy ===== *)
theory Tag_Collection
  imports Image_Tag
begin

text \<open>
  \<open>src/src/nublado/models/images/_tag.py\<close>, class \<open>RSPImageTagCollection\<close>. The collection holds
  objects that have a tag: the tags themselves, or images. The parameter \<open>tg\<close> reads the tag of an
  object, and \<open>vcmp\<close> is the version comparison of the library.

  The dictionary of lists by type is a \<open>defaultdict\<close>, so a missing entry reads as the empty list:
  it is a wanted function here.
\<close>

section \<open>The collection\<close>

record 'a tag_collection =
  by_tag :: "(string, 'a) dict"
  by_type :: "rsp_image_type \<Rightarrow> 'a list"

type_synonym vcompare = "semver \<Rightarrow> semver \<Rightarrow> int"

definition obj_lt :: "vcompare \<Rightarrow> ('a \<Rightarrow> 'm rsp_image_tag_scheme) \<Rightarrow> 'a \<Rightarrow> 'a \<Rightarrow> bool" where
  "obj_lt vcmp tg a b \<longleftrightarrow> tag_lt vcmp (tg a) (tg b)"

text \<open>\<open>__init__\<close>: index the objects in turn, then sort every list in reverse.\<close>

definition index_tag :: "('a \<Rightarrow> 'm rsp_image_tag_scheme) \<Rightarrow> 'a \<Rightarrow> 'a tag_collection \<Rightarrow> 'a tag_collection" where
  "index_tag tg t c =
     c\<lparr>by_tag := dset (tag_name (tg t)) t (by_tag c),
       by_type := (by_type c)(image_type (tg t) := by_type c (image_type (tg t)) @ [t])\<rparr>"

definition empty_collection :: "'a tag_collection" where
  "empty_collection = \<lparr>by_tag = [], by_type = (\<lambda>_. [])\<rparr>"

definition make_collection :: "vcompare \<Rightarrow> ('a \<Rightarrow> 'm rsp_image_tag_scheme) \<Rightarrow> 'a list \<Rightarrow> 'a tag_collection" where
  "make_collection vcmp tg tags =
     (let c = fold (index_tag tg) tags empty_collection
      in c\<lparr>by_type := (\<lambda>ty. sort_reverse (obj_lt vcmp tg) (by_type c ty))\<rparr>)"

definition add_tag :: "vcompare \<Rightarrow> ('a \<Rightarrow> 'm rsp_image_tag_scheme) \<Rightarrow> 'a \<Rightarrow> 'a tag_collection \<Rightarrow> 'a tag_collection" where
  "add_tag vcmp tg t c =
     (let c = index_tag tg t c; ty = image_type (tg t)
      in c\<lparr>by_type := (by_type c)(ty := sort_reverse (obj_lt vcmp tg) (by_type c ty))\<rparr>)"

definition from_tag_names ::
  "vcompare \<Rightarrow> string list \<Rightarrow> string set \<Rightarrow> nat option \<Rightarrow> (tag_error, rsp_image_tag tag_collection) result" where
  "from_tag_names vcmp names aliases cyc =
     rbind (rmap (\<lambda>n. if n \<in> aliases then alias_tag n else Inr (from_str n)) names) (\<lambda>tags.
       Inr (make_collection vcmp id (filter (\<lambda>t. cyc = None \<or> cycle t = cyc) tags)))"

definition arch_specific :: "('a \<Rightarrow> 'm rsp_image_tag_scheme) \<Rightarrow> 'a \<Rightarrow> bool" where
  "arch_specific tg t \<longleftrightarrow> nonempty (architecture (tg t))"

definition all_tags :: "('a \<Rightarrow> 'm rsp_image_tag_scheme) \<Rightarrow> bool \<Rightarrow> 'a tag_collection \<Rightarrow> 'a list" where
  "all_tags tg hide_arch c =
     concat (map (\<lambda>ty. filter (\<lambda>t. \<not> (hide_arch \<and> arch_specific tg t)) (by_type c ty)) image_types)"

definition latest :: "rsp_image_type \<Rightarrow> 'a tag_collection \<Rightarrow> 'a option" where
  "latest ty c = (case by_type c ty of [] \<Rightarrow> None | t # _ \<Rightarrow> Some t)"

definition tag_for_tag_name :: "string \<Rightarrow> 'a tag_collection \<Rightarrow> 'a option" where
  "tag_for_tag_name n c = map_of (by_tag c) n"

section \<open>Filtering\<close>

text \<open>
  \<open>_build_filter\<close>. The cutoff is the later of the date given and the date that the maximum age
  gives. A count, age or build of zero counts as not given.
\<close>

definition cutoff_of :: "image_filter \<Rightarrow> datetime \<Rightarrow> datetime option" where
  "cutoff_of policy age_basis =
     (let d = (if truthy (age policy) then Some (age_basis - the (age policy)) else None)
      in case cutoff_date policy of
           None \<Rightarrow> d
         | Some c \<Rightarrow> (case d of None \<Rightarrow> Some c | Some d \<Rightarrow> if d < c then Some c else Some d))"

definition skipped ::
  "vcompare \<Rightarrow> image_filter \<Rightarrow> datetime option \<Rightarrow> bool \<Rightarrow> ('m rsp_image_tag_scheme) \<Rightarrow> bool" where
  "skipped vcmp policy cutoff remove_arch t \<longleftrightarrow>
     (remove_arch \<and> nonempty (architecture t)) \<or>
     (case (build t, cutoff_build policy) of
        (Some b, Some c) \<Rightarrow> b \<noteq> 0 \<and> c \<noteq> 0 \<and> int b < c | _ \<Rightarrow> False) \<or>
     (case (date t, cutoff) of (Some d, Some c) \<Rightarrow> d < c | _ \<Rightarrow> False) \<or>
     (semantic t \<and>
      (case (version t, cutoff_version policy) of (Some v, Some c) \<Rightarrow> vcmp v c < 0 | _ \<Rightarrow> False))"

fun tag_filter :: "(('m rsp_image_tag_scheme) \<Rightarrow> bool) \<Rightarrow> int option \<Rightarrow> ('a \<Rightarrow> 'm rsp_image_tag_scheme)
    \<Rightarrow> int \<Rightarrow> 'a list \<Rightarrow> 'a list" where
  "tag_filter skip n tg k [] = []"
| "tag_filter skip n tg k (t # ts) =
     (if skip (tg t) then tag_filter skip n tg k ts
      else t # (if truthy n \<and> the n \<le> k + 1 then [] else tag_filter skip n tg (k + 1) ts))"

definition build_filter :: "vcompare \<Rightarrow> ('a \<Rightarrow> 'm rsp_image_tag_scheme) \<Rightarrow> image_filter \<Rightarrow> datetime
    \<Rightarrow> bool \<Rightarrow> 'a list \<Rightarrow> 'a list" where
  "build_filter vcmp tg policy age_basis remove_arch =
     tag_filter (skipped vcmp policy (cutoff_of policy age_basis) remove_arch) (number policy) tg 0"

definition filter_image_list :: "vcompare \<Rightarrow> ('a \<Rightarrow> 'm rsp_image_tag_scheme) \<Rightarrow> image_filter option
    \<Rightarrow> datetime \<Rightarrow> bool \<Rightarrow> bool \<Rightarrow> 'a list \<Rightarrow> 'a list" where
  "filter_image_list vcmp tg policy age_basis invert remove_arch tags =
     (let candidates = (if remove_arch then filter (\<lambda>t. \<not> arch_specific tg t) tags else tags)
      in case policy of
           None \<Rightarrow> (if invert then [] else candidates)
         | Some p \<Rightarrow>
             (let kept = build_filter vcmp tg p age_basis False candidates
              in if invert
                 then filter (\<lambda>t. tag_name (tg t) \<notin> (\<lambda>t. tag_name (tg t)) ` set kept) candidates
                 else kept))"

definition filter_collection :: "vcompare \<Rightarrow> ('a \<Rightarrow> 'm rsp_image_tag_scheme) \<Rightarrow> image_filter_policy
    \<Rightarrow> datetime \<Rightarrow> bool \<Rightarrow> bool \<Rightarrow> 'a tag_collection \<Rightarrow> 'a list" where
  "filter_collection vcmp tg policy age_basis invert remove_arch c =
     concat (map (\<lambda>ty. filter_image_list vcmp tg (for_image_type ty policy) age_basis invert
                         remove_arch (by_type c ty)) image_types)"

section \<open>Subsets\<close>

fun take_tags :: "('a \<Rightarrow> bool) \<Rightarrow> int \<Rightarrow> int \<Rightarrow> 'a list \<Rightarrow> 'a list" where
  "take_tags skip wanted k [] = []"
| "take_tags skip wanted k (t # ts) =
     (if skip t then take_tags skip wanted k ts
      else t # (if wanted \<le> k + 1 then [] else take_tags skip wanted (k + 1) ts))"

definition first_tags :: "('a \<Rightarrow> 'm rsp_image_tag_scheme) \<Rightarrow> rsp_image_type \<Rightarrow> int \<Rightarrow> bool
    \<Rightarrow> 'a tag_collection \<Rightarrow> 'a list" where
  "first_tags tg ty wanted remove_arch c =
     (if wanted = 0 then []
      else take_tags (\<lambda>t. remove_arch \<and> arch_specific tg t) wanted 0 (by_type c ty))"

text \<open>The set of names to include is given as the list of its elements in iteration order.\<close>

definition subset_tags :: "('a \<Rightarrow> 'm rsp_image_tag_scheme) \<Rightarrow> int \<Rightarrow> int \<Rightarrow> int \<Rightarrow> string list \<Rightarrow> bool
    \<Rightarrow> 'a tag_collection \<Rightarrow> 'a list" where
  "subset_tags tg releases weeklies dailies include remove_arch c =
     first_tags tg RELEASE releases remove_arch c
     @ first_tags tg WEEKLY weeklies remove_arch c
     @ first_tags tg DAILY dailies remove_arch c
     @ map (\<lambda>n. the (tag_for_tag_name n c)) (filter (\<lambda>n. tag_for_tag_name n c \<noteq> None) include)"

definition subset_collection :: "vcompare \<Rightarrow> ('a \<Rightarrow> 'm rsp_image_tag_scheme) \<Rightarrow> int \<Rightarrow> int \<Rightarrow> int
    \<Rightarrow> string list \<Rightarrow> bool \<Rightarrow> 'a tag_collection \<Rightarrow> 'a tag_collection" where
  "subset_collection vcmp tg releases weeklies dailies include remove_arch c =
     make_collection vcmp tg (subset_tags tg releases weeklies dailies include remove_arch c)"

section \<open>What a collection holds\<close>

text \<open>
  The invariant: names lead to objects of that name, the two indices hold the same objects, every
  list holds well-formed objects of its type, newest first.
\<close>

definition collection_ok :: "vcompare \<Rightarrow> ('a \<Rightarrow> 'm rsp_image_tag_scheme) \<Rightarrow> 'a tag_collection \<Rightarrow> bool" where
  "collection_ok vcmp tg c \<longleftrightarrow>
     dict_ok (by_tag c) \<and>
     (\<forall>(n, t) \<in> set (by_tag c). tag_name (tg t) = n \<and> t \<in> set (by_type c (image_type (tg t)))) \<and>
     (\<forall>ty. \<forall>t \<in> set (by_type c ty). image_type (tg t) = ty \<and> tag_wf (tg t) \<and>
        tag_name (tg t) \<in> set (dkeys (by_tag c))) \<and>
     (\<forall>ty. sorted_wrt (\<lambda>a b. \<not> obj_lt vcmp tg a b) (by_type c ty))"

definition objs_of :: "('a \<Rightarrow> 'm rsp_image_tag_scheme) \<Rightarrow> rsp_image_type \<Rightarrow> 'a set" where
  "objs_of tg ty = {t. tg t \<in> wf_tags ty}"

lemma weak_order_obj: "semver_ok vcmp \<Longrightarrow> weak_order (obj_lt vcmp tg) (objs_of tg ty)"
  unfolding obj_lt_def
  by (rule weak_order_pull [OF weak_order_tag_lt]) (auto simp: objs_of_def)

lemma index_fold:
  "by_type (fold (index_tag tg) ts c) ty = by_type c ty @ filter (\<lambda>t. image_type (tg t) = ty) ts"
  by (induction ts arbitrary: c) (auto simp: index_tag_def)

lemma by_type_make:
  "by_type (make_collection vcmp tg ts) ty =
     sort_reverse (obj_lt vcmp tg) (filter (\<lambda>t. image_type (tg t) = ty) ts)"
  by (simp add: make_collection_def index_fold empty_collection_def Let_def)

lemma by_tag_make: "by_tag (make_collection vcmp tg ts) = by_tag (fold (index_tag tg) ts empty_collection)"
  by (simp add: make_collection_def Let_def)

lemma by_tag_index: "by_tag (index_tag tg t c) = dset (tag_name (tg t)) t (by_tag c)"
  by (simp add: index_tag_def)

lemma by_tag_fold_props:
  "dict_ok (by_tag c) \<Longrightarrow> (\<forall>(n, t) \<in> set (by_tag c). tag_name (tg t) = n) \<Longrightarrow>
   dict_ok (by_tag (fold (index_tag tg) ts c)) \<and>
   (\<forall>(n, t) \<in> set (by_tag (fold (index_tag tg) ts c)).
      tag_name (tg t) = n \<and> (t \<in> set ts \<or> (n, t) \<in> set (by_tag c))) \<and>
   set (dkeys (by_tag (fold (index_tag tg) ts c))) = (\<lambda>t. tag_name (tg t)) ` set ts \<union> set (dkeys (by_tag c))"
proof (induction ts arbitrary: c)
  case Nil
  then show ?case by auto
next
  case (Cons t ts)
  let ?c = "index_tag tg t c"
  have in_dset: "(m, u) \<in> set (dset (tag_name (tg t)) t (by_tag c)) \<Longrightarrow>
      (m = tag_name (tg t) \<and> u = t) \<or> (m, u) \<in> set (by_tag c)" for m u
    using Cons.prems(1) by (auto simp: dset_in_iff split: if_splits)
  have "dict_ok (by_tag ?c)" "\<forall>(n, t) \<in> set (by_tag ?c). tag_name (tg t) = n"
    using Cons.prems by (auto simp: by_tag_index dest!: in_dset)
  note IH = Cons.IH [OF this]
  moreover have "set (dkeys (by_tag ?c)) = insert (tag_name (tg t)) (set (dkeys (by_tag c)))"
    by (simp add: by_tag_index dom_update)
  ultimately show ?case
    by (auto simp: by_tag_index dest!: in_dset)
qed

lemma make_collection_ok:
  assumes "semver_ok vcmp" and wf: "\<And>t. t \<in> set ts \<Longrightarrow> tag_wf (tg t)"
  shows "collection_ok vcmp tg (make_collection vcmp tg ts)"
proof -
  have "sorted_wrt (\<lambda>a b. \<not> obj_lt vcmp tg a b) (by_type (make_collection vcmp tg ts) ty)" for ty
    unfolding by_type_make
    using wf by (intro weak_order.sort_reverse_sorted [OF weak_order_obj [OF assms(1), where ty = ty]])
      (auto simp: objs_of_def wf_tags_def)
  with wf show ?thesis
    using by_tag_fold_props [of empty_collection tg ts]
    unfolding collection_ok_def by_tag_make
    by (auto simp: by_type_make empty_collection_def)
qed

lemma collection_okD:
  assumes "collection_ok vcmp tg c"
  shows "dict_ok (by_tag c)"
    and "(n, t) \<in> set (by_tag c) \<Longrightarrow> tag_name (tg t) = n \<and> t \<in> set (by_type c (image_type (tg t)))"
    and "t \<in> set (by_type c ty) \<Longrightarrow>
      image_type (tg t) = ty \<and> tag_wf (tg t) \<and> tag_name (tg t) \<in> set (dkeys (by_tag c))"
    and "sorted_wrt (\<lambda>a b. \<not> obj_lt vcmp tg a b) (by_type c ty)"
  using assms unfolding collection_ok_def by blast+

lemma collection_okI:
  assumes "dict_ok (by_tag c)"
    and "\<And>n t. (n, t) \<in> set (by_tag c) \<Longrightarrow> tag_name (tg t) = n \<and> t \<in> set (by_type c (image_type (tg t)))"
    and "\<And>t ty. t \<in> set (by_type c ty) \<Longrightarrow>
      image_type (tg t) = ty \<and> tag_wf (tg t) \<and> tag_name (tg t) \<in> set (dkeys (by_tag c))"
    and "\<And>ty. sorted_wrt (\<lambda>a b. \<not> obj_lt vcmp tg a b) (by_type c ty)"
  shows "collection_ok vcmp tg c"
  using assms unfolding collection_ok_def by blast

text \<open>The law of the sort, for any list of well-formed objects of one type.\<close>

lemma sorted_objs:
  assumes "semver_ok vcmp" and "\<And>t. t \<in> set ts \<Longrightarrow> image_type (tg t) = ty \<and> tag_wf (tg t)"
  shows "sorted_wrt (\<lambda>a b. \<not> obj_lt vcmp tg a b) (sort_reverse (obj_lt vcmp tg) ts)"
  using assms(2) by (intro weak_order.sort_reverse_sorted [OF weak_order_obj [OF assms(1), where ty = ty]])
    (auto simp: objs_of_def wf_tags_def)

text \<open>C35: Adding a tag keeps the collection well formed: one entry per name, every tag
  under its type, and every list sorted newest first.\<close>

theorem add_tag_ok:
  assumes "semver_ok vcmp" and "collection_ok vcmp tg c" and "tag_wf (tg t)"
  shows "collection_ok vcmp tg (add_tag vcmp tg t c)"
proof -
  let ?ty = "image_type (tg t)" and ?c = "add_tag vcmp tg t c"
  have types: "by_type ?c ty = (if ty = ?ty then sort_reverse (obj_lt vcmp tg) (by_type c ?ty @ [t])
      else by_type c ty)" for ty
    by (simp add: add_tag_def index_tag_def Let_def)
  have tags: "by_tag ?c = dset (tag_name (tg t)) t (by_tag c)"
    by (simp add: add_tag_def index_tag_def Let_def)
  have ok: "dict_ok (by_tag c)" using assms(2) by (simp add: collection_ok_def)
  have "tag_name (tg u) = n \<and> u \<in> set (by_type ?c (image_type (tg u)))"
    if "(n, u) \<in> set (by_tag ?c)" for n u
  proof -
    have "n = tag_name (tg t) \<and> u = t \<or> (n, u) \<in> set (by_tag c)"
      using that ok by (auto simp: tags dset_in_iff split: if_splits)
    then show ?thesis using collection_okD(2) [OF assms(2), of n u] by (auto simp: types)
  qed
  moreover have "image_type (tg u) = ty \<and> tag_wf (tg u) \<and> tag_name (tg u) \<in> set (dkeys (by_tag ?c))"
    if "u \<in> set (by_type ?c ty)" for u ty
  proof -
    have "u = t \<and> ty = ?ty \<or> u \<in> set (by_type c ty)"
      using that by (auto simp: types split: if_splits)
    then show ?thesis using collection_okD(3) [OF assms(2), of u ty] assms(3) unfolding tags by auto
  qed
  moreover have "sorted_wrt (\<lambda>a b. \<not> obj_lt vcmp tg a b) (by_type ?c ty)" for ty
  proof (cases "ty = ?ty")
    case True
    have "image_type (tg u) = ?ty \<and> tag_wf (tg u)" if "u \<in> set (by_type c ?ty @ [t])" for u
      using that collection_okD(3) [OF assms(2), of u ?ty] assms(3) by auto
    then have "sorted_wrt (\<lambda>a b. \<not> obj_lt vcmp tg a b)
      (sort_reverse (obj_lt vcmp tg) (by_type c ?ty @ [t]))" by (rule sorted_objs [OF assms(1)])
    with True show ?thesis by (simp add: types)
  next
    case False
    then show ?thesis using collection_okD(4) [OF assms(2), of ty] by (simp add: types)
  qed
  ultimately show ?thesis using dict_ok_dset [OF ok] by (intro collection_okI) (simp_all only: tags)
qed

text \<open>Building a collection keeps every object, in type order and newest first within a type.\<close>

lemma filter_types_mset:
  "distinct tys \<Longrightarrow> (\<And>t. t \<in> set ts \<Longrightarrow> f t \<in> set tys) \<Longrightarrow>
   mset (concat (map (\<lambda>ty. filter (\<lambda>t. f t = ty) ts) tys)) = mset ts"
proof (induction tys arbitrary: ts)
  case Nil
  then show ?case by (cases ts) auto
next
  case (Cons ty tys)
  let ?rest = "filter (\<lambda>t. f t \<noteq> ty) ts"
  have "map (\<lambda>ty. filter (\<lambda>t. f t = ty) ?rest) tys = map (\<lambda>ty. filter (\<lambda>t. f t = ty) ts) tys"
    using Cons.prems(1) by (intro map_cong refl) (auto intro!: filter_cong)
  moreover have "f t \<in> set tys" if "t \<in> set ?rest" for t using that Cons.prems(2) [of t] by auto
  then have "mset (concat (map (\<lambda>ty. filter (\<lambda>t. f t = ty) ?rest) tys)) = mset ?rest"
    using Cons.prems(1) by (intro Cons.IH) auto
  ultimately have "mset (concat (map (\<lambda>ty. filter (\<lambda>t. f t = ty) ts) tys)) = mset ?rest"
    by (simp only:)
  then show ?case by (simp add: multiset_partition [symmetric])
qed

theorem make_collection_all_tags:
  assumes "semver_ok vcmp" and "\<And>t. t \<in> set ts \<Longrightarrow> tag_wf (tg t)"
  shows "mset (all_tags tg False (make_collection vcmp tg ts)) = mset ts \<and>
    sorted_wrt (\<lambda>a b. image_type (tg a) \<le> image_type (tg b) \<and>
      (image_type (tg a) = image_type (tg b) \<longrightarrow> \<not> tag_lt vcmp (tg a) (tg b)))
      (all_tags tg False (make_collection vcmp tg ts))"
proof -
  let ?l = "\<lambda>ty. sort_reverse (obj_lt vcmp tg) (filter (\<lambda>t. image_type (tg t) = ty) ts)"
  have all: "all_tags tg False (make_collection vcmp tg ts) = concat (map ?l image_types)"
    by (simp add: all_tags_def by_type_make)
  have "mset (concat (map ?l tys)) = mset (concat (map (\<lambda>ty. filter (\<lambda>t. image_type (tg t) = ty) ts) tys))" for tys
    by (induction tys) simp_all
  then have "mset (concat (map ?l image_types)) = mset ts"
    by (simp add: filter_types_mset [of image_types ts "\<lambda>t. image_type (tg t)"])
  moreover have sorted: "sorted_wrt (\<lambda>a b. \<not> tag_lt vcmp (tg a) (tg b)) (?l ty)" for ty
    using sorted_objs [OF assms(1), of "filter (\<lambda>t. image_type (tg t) = ty) ts" tg ty] assms(2)
    by (simp add: obj_lt_def)
  have "sorted_wrt (\<lambda>a b. image_type (tg a) \<le> image_type (tg b) \<and>
      (image_type (tg a) = image_type (tg b) \<longrightarrow> \<not> tag_lt vcmp (tg a) (tg b))) (concat (map ?l tys))"
    if "sorted_wrt (<) tys" for tys
    using that
  proof (induction tys)
    case Nil
    then show ?case by simp
  next
    case (Cons ty tys)
    have "sorted_wrt (\<lambda>a b. image_type (tg a) \<le> image_type (tg b) \<and>
      (image_type (tg a) = image_type (tg b) \<longrightarrow> \<not> tag_lt vcmp (tg a) (tg b))) (?l ty)"
      by (rule sorted_wrt_mono_rel [OF _ sorted]) auto
    with Cons show ?case by (auto simp: sorted_wrt_append less_le)
  qed
  ultimately show ?thesis unfolding all using sorted_image_types by blast
qed

section \<open>What a filter keeps\<close>

text \<open>The filter's loop with a counter is: drop what is skipped, keep at most the number given.\<close>

definition limit_of :: "int option \<Rightarrow> 'a list \<Rightarrow> 'a list" where
  "limit_of n xs = (if truthy n then take (nat (the n)) xs else xs)"

lemma tag_filter_take:
  "truthy n \<Longrightarrow> k < the n \<Longrightarrow>
   tag_filter skip n tg k ts = take (nat (the n - k)) (filter (\<lambda>t. \<not> skip (tg t)) ts)"
proof (induction ts arbitrary: k)
  case Nil
  then show ?case by simp
next
  case (Cons t ts)
  have n: "nat (the n - k) = Suc (nat (the n - (k + 1)))" using Cons.prems(2) by simp
  show ?case
  proof (cases "the n \<le> k + 1")
    case True
    with Cons n show ?thesis by simp
  next
    case False
    with Cons n show ?thesis by simp
  qed
qed

lemma tag_filter_all: "\<not> truthy n \<Longrightarrow> tag_filter skip n tg k ts = filter (\<lambda>t. \<not> skip (tg t)) ts"
  by (induction ts arbitrary: k) auto

definition number_ok :: "image_filter \<Rightarrow> bool" where
  "number_ok p \<longleftrightarrow> (case number p of None \<Rightarrow> True | Some n \<Rightarrow> 0 \<le> n)"

lemma build_filter_eq:
  assumes "number_ok p"
  shows "build_filter vcmp tg p now rm ts =
    limit_of (number p) (filter (\<lambda>t. \<not> skipped vcmp p (cutoff_of p now) rm (tg t)) ts)"
proof (cases "truthy (number p)")
  case True
  then have "0 < the (number p)" using assms by (auto simp: number_ok_def truthy_def split: option.splits)
  with True show ?thesis
    by (simp add: build_filter_def limit_of_def tag_filter_take)
next
  case False
  then show ?thesis by (simp add: build_filter_def limit_of_def tag_filter_all)
qed

definition candidates_of :: "('a \<Rightarrow> 'm rsp_image_tag_scheme) \<Rightarrow> bool \<Rightarrow> 'a list \<Rightarrow> 'a list" where
  "candidates_of tg rm ts = filter (\<lambda>t. \<not> (rm \<and> arch_specific tg t)) ts"

lemma candidates_simp: "(if rm then filter (\<lambda>t. \<not> arch_specific tg t) ts else ts) = candidates_of tg rm ts"
  by (simp add: candidates_of_def)

lemma set_limit_of: "set (limit_of n xs) \<subseteq> set xs"
  by (auto simp: limit_of_def dest: in_set_takeD)

text \<open>The filter keeps exactly the newest acceptable objects, as many as the policy asks for.\<close>

lemma sorted_take_drop:
  "sorted_wrt R xs \<Longrightarrow> a \<in> set (take n xs) \<Longrightarrow> b \<in> set (drop n xs) \<Longrightarrow> R a b"
  using sorted_wrt_append [of R "take n xs" "drop n xs"] by simp

text \<open>C33: Filtering the tags of one type keeps exactly the newest tags that the policy does
  not skip, as many as the policy asks for (a count of zero or none is no limit), and no tag that
  is left out for the count is newer than one that is kept.\<close>

theorem filter_keeps_newest:
  fixes tg :: "'a \<Rightarrow> 'm rsp_image_tag_scheme" and now :: datetime and rm :: bool
  assumes "collection_ok vcmp tg c" and "number_ok p" and "for_image_type ty policy = Some p"
  defines "kept \<equiv> filter_image_list vcmp tg (for_image_type ty policy) now False rm (by_type c ty)"
    and "good \<equiv> \<lambda>t. \<not> (rm \<and> arch_specific tg t) \<and> \<not> skipped vcmp p (cutoff_of p now) False (tg t)"
  shows "(\<forall>t \<in> set kept. t \<in> set (by_type c ty) \<and> good t) \<and>
    (\<forall>t \<in> set kept. \<forall>u \<in> set (by_type c ty). good u \<longrightarrow> u \<notin> set kept \<longrightarrow> \<not> tag_lt vcmp (tg t) (tg u)) \<and>
    length kept = (if truthy (number p) then min (nat (the (number p))) (length (filter good (by_type c ty)))
                   else length (filter good (by_type c ty)))"
proof -
  have kept: "kept = limit_of (number p) (filter good (by_type c ty))"
    using assms(2,3) unfolding kept_def good_def
    by (simp add: filter_image_list_def build_filter_eq candidates_simp candidates_of_def conj_commute)
  have sorted: "sorted_wrt (\<lambda>a b. \<not> obj_lt vcmp tg a b) (filter good (by_type c ty))"
    using collection_okD(4) [OF assms(1)] by (rule sorted_wrt_filter)
  have "\<not> tag_lt vcmp (tg t) (tg u)"
    if "t \<in> set kept" "u \<in> set (filter good (by_type c ty))" "u \<notin> set kept" for t u
  proof -
    have n: "truthy (number p)" using that kept by (auto simp: limit_of_def split: if_splits)
    let ?n = "nat (the (number p))"
    have "u \<in> set (take ?n (filter good (by_type c ty))) \<union> set (drop ?n (filter good (by_type c ty)))"
      using that(2) by (simp only: append_take_drop_id flip: set_append)
    moreover have "u \<notin> set (take ?n (filter good (by_type c ty)))"
      using that(3) kept n by (simp add: limit_of_def)
    ultimately have "u \<in> set (drop ?n (filter good (by_type c ty)))" by simp
    then show ?thesis
      using sorted_take_drop [OF sorted] that(1) kept n by (auto simp: limit_of_def obj_lt_def)
  qed
  moreover have "length kept = (if truthy (number p)
      then min (nat (the (number p))) (length (filter good (by_type c ty)))
      else length (filter good (by_type c ty)))"
    by (simp add: kept limit_of_def min.commute)
  moreover have "t \<in> set (by_type c ty) \<and> good t" if "t \<in> set kept" for t
    using that set_limit_of [of "number p" "filter good (by_type c ty)"] kept by auto
  ultimately show ?thesis by simp
qed

text \<open>A filter and its inverse split the collection when the names in it are distinct.\<close>

definition names_distinct :: "('a \<Rightarrow> 'm rsp_image_tag_scheme) \<Rightarrow> 'a tag_collection \<Rightarrow> bool" where
  "names_distinct tg c \<longleftrightarrow> (\<forall>ty \<in> set image_types. distinct (map (\<lambda>t. tag_name (tg t)) (by_type c ty)))"

lemma tag_filter_subset: "set (tag_filter skip n tg k ts) \<subseteq> set ts"
  by (induction ts arbitrary: k) auto

lemma tag_filter_sublist: "subseq (tag_filter skip n tg k ts) ts"
  by (induction ts arbitrary: k) auto

lemma subseq_filter_in:
  "distinct ts \<Longrightarrow> subseq ks ts \<Longrightarrow> filter (\<lambda>t. t \<in> set ks) ts = ks"
proof (induction ts arbitrary: ks)
  case Nil
  then show ?case by (cases ks) auto
next
  case (Cons t ts)
  show ?case
  proof (cases "\<exists>ks'. ks = t # ks' \<and> subseq ks' ts")
    case True
    then obtain ks' where ks: "ks = t # ks'" "subseq ks' ts" by blast
    then have "filter (\<lambda>u. u \<in> set ks) ts = filter (\<lambda>u. u \<in> set ks') ts"
      using Cons.prems(1) by (intro filter_cong) auto
    with ks Cons show ?thesis by simp
  next
    case False
    then have "subseq ks ts" using Cons.prems(2) by (cases ks) (auto split: if_splits)
    moreover from this have "t \<notin> set ks"
      using Cons.prems(1) by (auto dest: list_emb_set)
    ultimately show ?thesis using Cons by simp
  qed
qed

lemma filter_list_partition:
  assumes "distinct (map (\<lambda>t. tag_name (tg t)) ts)"
  shows "mset (filter_image_list vcmp tg p now False rm ts) +
    mset (filter_image_list vcmp tg p now True rm ts) = mset (candidates_of tg rm ts)"
proof (cases p)
  case None
  then show ?thesis by (simp add: filter_image_list_def candidates_simp)
next
  case (Some q)
  let ?cs = "candidates_of tg rm ts" and ?name = "\<lambda>t. tag_name (tg t)"
  let ?kept = "build_filter vcmp tg q now False ?cs"
  have d: "distinct (map ?name ?cs)"
    using assms by (auto simp: candidates_of_def distinct_map_filter)
  then have inj: "inj_on ?name (set ?cs)" and dist: "distinct ?cs" by (auto simp: distinct_map)
  have sub: "set ?kept \<subseteq> set ?cs" unfolding build_filter_def by (rule tag_filter_subset)
  have "filter (\<lambda>t. ?name t \<notin> ?name ` set ?kept) ?cs = filter (\<lambda>t. t \<notin> set ?kept) ?cs"
    using inj sub by (intro filter_cong refl) (auto simp: inj_on_def subset_eq)
  moreover have "filter (\<lambda>t. t \<in> set ?kept) ?cs = ?kept"
    using dist unfolding build_filter_def by (intro subseq_filter_in tag_filter_sublist)
  then have "mset ?kept = filter_mset (\<lambda>t. t \<in> set ?kept) (mset ?cs)"
    by (metis mset_filter)
  ultimately show ?thesis
    using Some by (simp add: filter_image_list_def candidates_simp Let_def flip: multiset_partition)
qed

theorem filter_partition:
  assumes "names_distinct tg c"
  shows "mset (filter_collection vcmp tg policy now False rm c) +
    mset (filter_collection vcmp tg policy now True rm c) = mset (all_tags tg rm c)"
proof -
  have "mset (concat (map (\<lambda>ty. filter_image_list vcmp tg (for_image_type ty policy) now False rm (by_type c ty)) tys)) +
    mset (concat (map (\<lambda>ty. filter_image_list vcmp tg (for_image_type ty policy) now True rm (by_type c ty)) tys)) =
    mset (concat (map (\<lambda>ty. candidates_of tg rm (by_type c ty)) tys))"
    if "\<forall>ty \<in> set tys. distinct (map (\<lambda>t. tag_name (tg t)) (by_type c ty))" for tys
    using that
  proof (induction tys)
    case Nil
    then show ?case by simp
  next
    case (Cons ty tys)
    from Cons.prems have "distinct (map (\<lambda>t. tag_name (tg t)) (by_type c ty))" by simp
    note filter_list_partition [OF this, of vcmp "for_image_type ty policy" now rm]
    moreover note Cons.IH
    ultimately show ?case using Cons.prems by (simp add: ac_simps)
  qed
  then show ?thesis
    using assms by (simp add: filter_collection_def all_tags_def names_distinct_def candidates_of_def)
qed

section \<open>What a subset holds\<close>

lemma take_tags_eq:
  "k < wanted \<Longrightarrow> take_tags skip wanted k ts = take (nat (wanted - k)) (filter (\<lambda>t. \<not> skip t) ts)"
proof (induction ts arbitrary: k)
  case Nil
  then show ?case by simp
next
  case (Cons t ts)
  have n: "nat (wanted - k) = Suc (nat (wanted - (k + 1)))" using Cons.prems by simp
  show ?case
  proof (cases "wanted \<le> k + 1")
    case True
    with Cons n show ?thesis by simp
  next
    case False
    with Cons n show ?thesis by simp
  qed
qed

lemma first_tags_eq:
  "0 \<le> wanted \<Longrightarrow> first_tags tg ty wanted rm c = take (nat wanted) (candidates_of tg rm (by_type c ty))"
  by (cases "wanted = 0") (simp_all add: first_tags_def take_tags_eq candidates_of_def)

theorem subset_by_type:
  fixes rm :: bool
  assumes "semver_ok vcmp" and "collection_ok vcmp tg c"
    and "0 \<le> releases" and "0 \<le> weeklies" and "0 \<le> dailies"
  defines "s \<equiv> subset_collection vcmp tg releases weeklies dailies [] rm c"
  shows "collection_ok vcmp tg s \<and>
    mset (by_type s ty) = mset
      (case ty of
         RELEASE \<Rightarrow> take (nat releases) (candidates_of tg rm (by_type c RELEASE))
       | WEEKLY \<Rightarrow> take (nat weeklies) (candidates_of tg rm (by_type c WEEKLY))
       | DAILY \<Rightarrow> take (nat dailies) (candidates_of tg rm (by_type c DAILY))
       | _ \<Rightarrow> [])"
proof -
  let ?take = "\<lambda>n ty. take (nat n) (candidates_of tg rm (by_type c ty))"
  have mem: "image_type (tg t) = ty \<and> tag_wf (tg t)" if "t \<in> set (?take n ty)" for t n ty
    using that collection_okD(3) [OF assms(2), of t ty] by (auto simp: candidates_of_def dest: in_set_takeD)
  have sub: "subset_tags tg releases weeklies dailies [] rm c =
      ?take releases RELEASE @ ?take weeklies WEEKLY @ ?take dailies DAILY"
    using assms(3-5) by (simp add: subset_tags_def first_tags_eq)
  have same: "filter (\<lambda>t. image_type (tg t) = ty) (?take n ty) = ?take n ty" for n ty
    using mem by (auto intro!: filter_True)
  have other: "filter (\<lambda>t. image_type (tg t) = ty) (?take n ty') = []" if "ty \<noteq> ty'" for n ty ty'
    using mem that by (auto intro!: filter_False)
  have "collection_ok vcmp tg s"
    unfolding s_def subset_collection_def sub
    using mem by (intro make_collection_ok [OF assms(1)]) auto
  moreover have "mset (by_type s ty) = mset (filter (\<lambda>t. image_type (tg t) = ty)
      (?take releases RELEASE @ ?take weeklies WEEKLY @ ?take dailies DAILY))"
    unfolding s_def subset_collection_def sub by (simp add: by_type_make)
  ultimately show ?thesis
    by (cases ty) (simp_all only: filter_append same other append_Nil append_Nil2
        rsp_image_type.distinct rsp_image_type.case not_False_eq_True simp_thms)
qed

text \<open>Naming an object that is among the first of its type puts it into the subset twice.\<close>

theorem subset_include_duplicates:
  assumes "collection_ok vcmp tg c" and "by_type c RELEASE = t # ts" and "\<not> arch_specific tg t"
    and "tag_for_tag_name (tag_name (tg t)) c = Some t"
  shows "mset (by_type (subset_collection vcmp tg 1 0 0 [tag_name (tg t)] rm c) RELEASE) = {# t, t #}"
proof -
  have "image_type (tg t) = RELEASE" using collection_okD(3) [OF assms(1), of t RELEASE] assms(2) by simp
  moreover have "subset_tags tg 1 0 0 [tag_name (tg t)] rm c = [t, t]"
    using assms(2-4) by (simp add: subset_tags_def first_tags_eq candidates_of_def)
  ultimately show ?thesis by (simp add: subset_collection_def by_type_make)
qed

theorem latest_newest:
  assumes "collection_ok vcmp tg c" and "latest ty c = Some t" and "semver_ok vcmp"
  shows "t \<in> set (by_type c ty) \<and> (\<forall>u \<in> set (by_type c ty). \<not> tag_lt vcmp (tg t) (tg u))"
proof -
  obtain ts where ts: "by_type c ty = t # ts" using assms(2) by (auto simp: latest_def split: list.splits)
  then have "t \<in> objs_of tg ty" using collection_okD(3) [OF assms(1), of t ty] by (simp add: objs_of_def wf_tags_def)
  then have "\<not> obj_lt vcmp tg t t" by (rule weak_order.irrefl [OF weak_order_obj [OF assms(3)]])
  then show ?thesis using collection_okD(4) [OF assms(1), of ty] ts by (auto simp: obj_lt_def)
qed

section \<open>Examples\<close>

text \<open>A collection of three releases, one of them for one architecture.\<close>

definition example_release :: "string \<Rightarrow> nat \<Rightarrow> string option \<Rightarrow> rsp_image_tag" where
  "example_release n v arch =
     \<lparr>tag_name = n, image_type = RELEASE, display_name = n, base = None,
      version = Some \<lparr>major = v, minor = 0, patch = 0, prerelease = None\<rparr>, semantic = True,
      cycle = None, cycle_build = None, build = None, architecture = arch, extra = None, date = None\<rparr>"

definition example_tags :: "rsp_image_tag list" where
  "example_tags = [example_release ''r1'' 1 None, example_release ''r3'' 3 None,
     example_release ''r2'' 2 (Some ''arm64'')]"

definition example_collection :: "rsp_image_tag tag_collection" where
  "example_collection = make_collection precedence id example_tags"

lemma example_tags_wf: "t \<in> set example_tags \<Longrightarrow> tag_wf (id t)"
  by (auto simp: example_tags_def example_release_def tag_wf_def)

lemma example_collection_ok: "collection_ok precedence id example_collection"
  unfolding example_collection_def by (rule make_collection_ok [OF semver_ok_precedence example_tags_wf])

lemma example_releases:
  "by_type example_collection RELEASE =
     [example_release ''r3'' 3 None, example_release ''r2'' 2 (Some ''arm64''), example_release ''r1'' 1 None]"
  by code_simp

lemma add_tag_ok_witness:
  "collection_ok precedence id (add_tag precedence id (example_release ''r4'' 4 None) example_collection)"
  by (rule add_tag_ok [OF semver_ok_precedence example_collection_ok])
    (simp add: example_release_def tag_wf_def)

lemma make_collection_all_tags_witness:
  "mset (all_tags id False (make_collection precedence id example_tags)) = mset example_tags"
  using make_collection_all_tags [OF semver_ok_precedence, of example_tags id] example_tags_wf by simp

definition example_policy :: image_filter_policy where
  "example_policy = \<lparr>release = default_filter\<lparr>number := Some 1\<rparr>, weekly = default_filter,
     daily = default_filter, release_candidate = default_filter, experimental = default_filter\<rparr>"

lemma filter_keeps_newest_witness:
  "length (filter_image_list precedence id (for_image_type RELEASE example_policy) 0 False True
      (by_type example_collection RELEASE)) = 1"
proof -
  let ?p = "default_filter\<lparr>number := Some 1\<rparr>"
  have p: "number_ok ?p" "for_image_type RELEASE example_policy = Some ?p"
    by (simp_all add: number_ok_def example_policy_def)
  have "length (filter (\<lambda>t. \<not> (True \<and> arch_specific id t) \<and> \<not> skipped precedence ?p (cutoff_of ?p 0) False (id t))
      (by_type example_collection RELEASE)) = 2"
    by code_simp
  then show ?thesis
    using filter_keeps_newest [OF example_collection_ok p, where now = 0 and rm = True]
    by (simp add: default_filter_def)
qed

lemma filter_partition_witness:
  "mset (filter_collection precedence id example_policy 0 False False example_collection) +
   mset (filter_collection precedence id example_policy 0 True False example_collection) =
   mset (all_tags id False example_collection)"
  by (rule filter_partition) code_simp

lemma subset_by_type_witness:
  "by_type (subset_collection precedence id 1 0 0 [] True example_collection) RELEASE =
     [example_release ''r3'' 3 None]"
proof -
  have "take (nat 1) (candidates_of id True (by_type example_collection RELEASE)) =
      [example_release ''r3'' 3 None]"
    by code_simp
  then show ?thesis
    using subset_by_type [OF semver_ok_precedence example_collection_ok, of 1 0 0 True RELEASE]
    by simp
qed

lemma subset_include_duplicates_witness:
  "mset (by_type (subset_collection precedence id 1 0 0 [''r3''] False example_collection) RELEASE) =
     {# example_release ''r3'' 3 None, example_release ''r3'' 3 None #}"
proof -
  have "tag_for_tag_name (tag_name (id (example_release ''r3'' 3 None))) example_collection =
      Some (example_release ''r3'' 3 None)"
    by code_simp
  from subset_include_duplicates [OF example_collection_ok example_releases _ this, of False]
  show ?thesis by (simp add: arch_specific_def example_release_def nonempty_def id_def)
qed

lemma latest_newest_witness:
  "example_release ''r3'' 3 None \<in> set (by_type example_collection RELEASE) \<and>
   \<not> tag_lt precedence (example_release ''r3'' 3 None) (example_release ''r1'' 1 None)"
proof -
  have "latest RELEASE example_collection = Some (example_release ''r3'' 3 None)" by code_simp
  from latest_newest [OF example_collection_ok this semver_ok_precedence] show ?thesis by (simp add: example_releases)
qed

end
