(* ===== verification/Image_Collection.thy ===== *)
theory Image_Collection
  imports Tag_Collection
begin

text \<open>
  \<open>src/src/nublado/models/images/_image.py\<close>: images and image collections.

  Images are mutable objects that collections share: a collection holds addresses, and a store maps
  an address to the image. \<open>subset\<close> and \<open>subtract\<close> build new collections over the same objects.
  A Python set of strings is the list of its elements in the order they were added; the order in
  which the interpreter iterates over it is the parameter \<open>it\<close>, of which the theorems assume only
  that it enumerates the elements (\<open>set_order it\<close>).
\<close>

section \<open>Images\<close>

record rsp_image = rsp_image_tag +
  registry :: string
  repository :: string
  digest :: string
  img_size :: "int option"
  aliases :: "string list"
  alias_target :: "string option"
  nodes :: "string list"

datatype image_error = NotAlias | DigestMismatch | SetChanged

type_synonym addr = nat
type_synonym store = "addr \<Rightarrow> rsp_image"
type_synonym set_iter = "string list \<Rightarrow> string list"

definition set_order :: "set_iter \<Rightarrow> bool" where
  "set_order it \<longleftrightarrow> (\<forall>xs. mset (it xs) = mset xs)"

definition set_add :: "string \<Rightarrow> string list \<Rightarrow> string list" where
  "set_add x xs = (if x \<in> set xs then xs else xs @ [x])"

definition from_tag :: "rsp_image_tag \<Rightarrow> string \<Rightarrow> string \<Rightarrow> string \<Rightarrow> int option \<Rightarrow> rsp_image" where
  "from_tag t reg repo dig sz =
     \<lparr>tag_name = tag_name t, image_type = image_type t, display_name = display_name t,
      base = base t, version = version t, semantic = semantic t, cycle = cycle t,
      cycle_build = cycle_build t, build = build t, architecture = architecture t,
      extra = extra t, date = date t, registry = reg, repository = repo, digest = dig,
      img_size = sz, aliases = [], alias_target = None, nodes = []\<rparr>"

definition alias_types :: "rsp_image_type list" where
  "alias_types = [ALIAS, UNKNOWN]"

definition is_possible_alias :: "('m rsp_image_tag_scheme) \<Rightarrow> bool" where
  "is_possible_alias i \<longleftrightarrow> image_type i \<in> set alias_types"

definition reference :: "rsp_image \<Rightarrow> string" where
  "reference i = registry i @ ''/'' @ repository i @ '':'' @ tag_name i"

definition reference_with_digest :: "rsp_image \<Rightarrow> string" where
  "reference_with_digest i = registry i @ ''/'' @ repository i @ '':'' @ tag_name i @ ''@'' @ digest i"

definition modify :: "addr \<Rightarrow> (rsp_image \<Rightarrow> rsp_image) \<Rightarrow> store \<Rightarrow> store" where
  "modify a f h = h(a := f (h a))"

definition add_alias :: "addr \<Rightarrow> string \<Rightarrow> store \<Rightarrow> store" where
  "add_alias a n = modify a (\<lambda>i. i\<lparr>aliases := set_add n (aliases i)\<rparr>)"

text \<open>\<open>f"{x}"\<close> of an optional string prints \<open>None\<close> for a missing one.\<close>

definition format_opt :: "string option \<Rightarrow> string" where
  "format_opt s = (case s of None \<Rightarrow> ''None'' | Some v \<Rightarrow> v)"

definition alias_display :: "rsp_image \<Rightarrow> string \<Rightarrow> string" where
  "alias_display i target_display =
     (let bs = (if nonempty (base i) then the (base i) else tag_name i);
          base_display = str_title (str_replace ''_'' '' '' bs);
          ext = (if str_contains '' ('' target_display
                 then str_replace '')'' [] (str_replace '' ('' '', '' target_display)
                 else target_display);
          ext = str_replace ('' ['' @ format_opt (architecture i) @ '']'') [] ext
      in base_display @ '' ('' @ ext @ '')'' @ bracketed (architecture i))"

text \<open>\<open>steps fs h\<close> runs assignments one after the other.\<close>

definition steps :: "(store \<Rightarrow> store) list \<Rightarrow> store \<Rightarrow> store" where
  "steps fs h = fold (\<lambda>f h. f h) fs h"

definition resolve_alias :: "set_iter \<Rightarrow> addr \<Rightarrow> addr \<Rightarrow> store \<Rightarrow> (image_error, store) result" where
  "resolve_alias it self target h =
     (if \<not> is_possible_alias (h self) then Inl NotAlias
      else Inr (steps
       [\<lambda>h. modify self (\<lambda>i. i\<lparr>image_type := ALIAS\<rparr>) h,
        \<lambda>h. modify self (\<lambda>i. i\<lparr>alias_target := Some (tag_name (h target))\<rparr>) h,
        \<lambda>h. modify self (\<lambda>i. i\<lparr>aliases := fold (\<lambda>a s. if a \<noteq> tag_name i then set_add a s else s)
                               (it (aliases (h target))) (aliases i)\<rparr>) h,
        \<lambda>h. add_alias target (tag_name (h self)) h,
        \<lambda>h. modify self (\<lambda>i. i\<lparr>cycle := cycle (h target)\<rparr>) h,
        \<lambda>h. modify self (\<lambda>i. i\<lparr>architecture :=
              (if architecture i = None then architecture (h target) else architecture i)\<rparr>) h,
        \<lambda>h. modify self (\<lambda>i. i\<lparr>date := (if date i = None then date (h target) else date i)\<rparr>) h,
        \<lambda>h. modify self (\<lambda>i. i\<lparr>display_name := alias_display i (display_name (h target))\<rparr>) h] h))"

section \<open>Collections\<close>

record image_collection =
  by_digest :: "(string, addr) dict"
  collection :: "addr tag_collection"
  unresolved_aliases :: "(string, addr list) dict"

text \<open>
  A loop over the alias set of an image whose body may add to alias sets. The interpreter raises
  an exception when the set has changed its size after an iteration.
\<close>

fun over_set :: "(store \<Rightarrow> nat) \<Rightarrow> nat \<Rightarrow> (string \<Rightarrow> store \<Rightarrow> (image_error, store) result)
    \<Rightarrow> string list \<Rightarrow> store \<Rightarrow> (image_error, store) result" where
  "over_set size_now n body [] h = Inr h"
| "over_set size_now n body (a # as) h =
     rbind (body a h) (\<lambda>h. if size_now h \<noteq> n then Inl SetChanged else over_set size_now n body as h)"

definition for_aliases :: "set_iter \<Rightarrow> addr \<Rightarrow> (string \<Rightarrow> store \<Rightarrow> (image_error, store) result)
    \<Rightarrow> store \<Rightarrow> (image_error, store) result" where
  "for_aliases it old body h =
     over_set (\<lambda>h. length (aliases (h old))) (length (aliases (h old))) body (it (aliases (h old))) h"

definition append_unresolved :: "string \<Rightarrow> addr \<Rightarrow> image_collection \<Rightarrow> image_collection" where
  "append_unresolved d a c =
     c\<lparr>unresolved_aliases := dset d
        ((case map_of (unresolved_aliases c) d of None \<Rightarrow> [] | Some as \<Rightarrow> as) @ [a])
        (unresolved_aliases c)\<rparr>"

definition set_digest :: "string \<Rightarrow> addr \<Rightarrow> image_collection \<Rightarrow> image_collection" where
  "set_digest d a c = c\<lparr>by_digest := dset d a (by_digest c)\<rparr>"

text \<open>The loop bodies of \<open>_resolve_duplicate\<close>.\<close>

definition link_alias :: "addr tag_collection \<Rightarrow> string \<Rightarrow> string \<Rightarrow> store \<Rightarrow> (image_error, store) result" where
  "link_alias tags new_name a h =
     (case tag_for_tag_name a tags of
        None \<Rightarrow> Inr h
      | Some other \<Rightarrow> if a = new_name then Inr h else Inr (add_alias other new_name h))"

definition move_alias :: "set_iter \<Rightarrow> addr tag_collection \<Rightarrow> addr \<Rightarrow> addr \<Rightarrow> string \<Rightarrow> store
    \<Rightarrow> (image_error, store) result" where
  "move_alias it tags new old a h =
     (case tag_for_tag_name a tags of
        None \<Rightarrow> Inr h
      | Some other \<Rightarrow>
          if a = tag_name (h new) then Inr h
          else
            let h = add_alias new a h
            in if alias_target (h other) = Some (tag_name (h old))
               then rbind (resolve_alias it other new h) (\<lambda>h. Inr (add_alias other (tag_name (h old)) h))
               else Inr (add_alias other (tag_name (h new)) h))"

definition resolve_duplicate :: "set_iter \<Rightarrow> addr \<Rightarrow> addr \<Rightarrow> store \<times> image_collection
    \<Rightarrow> (image_error, store \<times> image_collection) result" where
  "resolve_duplicate it new old = (\<lambda>(h, c).
     if digest (h new) \<noteq> digest (h old) then Inl DigestMismatch
     else if is_possible_alias (h new) then
       rbind (if is_possible_alias (h old)
              then Inr (add_alias old (tag_name (h new)) (add_alias new (tag_name (h old)) h),
                        append_unresolved (digest (h new)) new c)
              else rbind (resolve_alias it new old h) (\<lambda>h. Inr (h, c)))
         (\<lambda>(h, c).
       rbind (for_aliases it old (link_alias (collection c) (tag_name (h new))) h) (\<lambda>h. Inr (h, c)))
     else
       let h = add_alias new (tag_name (h old)) h
       in rbind (for_aliases it old (move_alias it (collection c) new old) h) (\<lambda>h.
            let h = add_alias old (tag_name (h new)) h
            in Inr (h, set_digest (digest (h new)) new c)))"

text \<open>The two passes of \<open>_replace_contents\<close>.\<close>

fun index_targets :: "set_iter \<Rightarrow> addr list \<Rightarrow> store \<times> image_collection
    \<Rightarrow> (image_error, store \<times> image_collection) result" where
  "index_targets it [] s = Inr s"
| "index_targets it (a # as) (h, c) =
     (if is_possible_alias (h a) then index_targets it as (h, c)
      else case map_of (by_digest c) (digest (h a)) of
        Some other \<Rightarrow> rbind (resolve_duplicate it other a (h, c)) (index_targets it as)
      | None \<Rightarrow> index_targets it as (h, set_digest (digest (h a)) a c))"

fun index_aliases :: "set_iter \<Rightarrow> addr list \<Rightarrow> store \<times> image_collection
    \<Rightarrow> (image_error, store \<times> image_collection) result" where
  "index_aliases it [] s = Inr s"
| "index_aliases it (a # as) (h, c) =
     (case map_of (by_digest c) (digest (h a)) of
        Some other \<Rightarrow> rbind (resolve_duplicate it a other (h, c)) (index_aliases it as)
      | None \<Rightarrow> index_aliases it as (h, set_digest (digest (h a)) a (append_unresolved (digest (h a)) a c)))"

definition replace_contents :: "vcompare \<Rightarrow> set_iter \<Rightarrow> addr list \<Rightarrow> nat option \<Rightarrow> store
    \<Rightarrow> (image_error, store \<times> image_collection) result" where
  "replace_contents vcmp it images cyc h =
     (let images = filter (\<lambda>a. cyc = None \<or> cycle (h a) = cyc) images;
          c = \<lparr>by_digest = [], collection = make_collection vcmp h images, unresolved_aliases = []\<rparr>
      in rbind (index_targets it images (h, c)) (\<lambda>(h1, c).
         rbind (index_aliases it (filter (\<lambda>a. is_possible_alias (h a)) images) (h1, c)) (\<lambda>(h2, c).
           Inr (h2, c\<lparr>collection := make_collection vcmp h2 images\<rparr>))))"

definition is_image_aliased :: "store \<Rightarrow> image_collection \<Rightarrow> addr \<Rightarrow> bool" where
  "is_image_aliased h c a \<longleftrightarrow>
     image_type (h a) \<noteq> ALIAS \<and>
     list_ex (\<lambda>n. case tag_for_tag_name n (collection c) of
         None \<Rightarrow> False
       | Some b \<Rightarrow> image_type (h b) = ALIAS \<and> alias_target (h b) = Some (tag_name (h a)))
       (aliases (h a))"

definition all_images :: "bool \<Rightarrow> bool \<Rightarrow> bool \<Rightarrow> store \<Rightarrow> image_collection \<Rightarrow> addr list" where
  "all_images hide_aliased hide_arch hide_resolved h c =
     filter (\<lambda>a. \<not> (hide_aliased \<and> is_image_aliased h c a) \<and>
        \<not> (hide_resolved \<and> nonempty (alias_target (h a)) \<and>
           tag_for_tag_name (the (alias_target (h a))) (collection c) \<noteq> None))
       (all_tags h hide_arch (collection c))"

definition add_image :: "vcompare \<Rightarrow> set_iter \<Rightarrow> addr \<Rightarrow> store \<times> image_collection
    \<Rightarrow> (image_error, store \<times> image_collection) result" where
  "add_image vcmp it a = (\<lambda>(h, c).
     if \<not> is_possible_alias (h a) \<and> map_of (unresolved_aliases c) (digest (h a)) \<noteq> None
     then replace_contents vcmp it (all_images False True False h c @ [a]) None h
     else
       rbind (case map_of (by_digest c) (digest (h a)) of
                Some other \<Rightarrow> resolve_duplicate it a other (h, c)
              | None \<Rightarrow> Inr (h, set_digest (digest (h a)) a c))
         (\<lambda>(h, c). Inr (h, c\<lparr>collection := add_tag vcmp h a (collection c)\<rparr>)))"

definition image_for_digest :: "string \<Rightarrow> image_collection \<Rightarrow> addr option" where
  "image_for_digest d c = map_of (by_digest c) d"

definition image_for_tag_name :: "string \<Rightarrow> image_collection \<Rightarrow> addr option" where
  "image_for_tag_name n c = tag_for_tag_name n (collection c)"

definition see_image :: "string \<Rightarrow> int option \<Rightarrow> rsp_image \<Rightarrow> rsp_image" where
  "see_image node sz i = i\<lparr>nodes := set_add node (nodes i),
     img_size := (if truthy sz then sz else img_size i)\<rparr>"

definition mark_image_seen_on_node :: "set_iter \<Rightarrow> string \<Rightarrow> string \<Rightarrow> int option \<Rightarrow> image_collection
    \<Rightarrow> store \<Rightarrow> store" where
  "mark_image_seen_on_node it d node sz c h =
     (case map_of (by_digest c) d of
        None \<Rightarrow> h
      | Some a \<Rightarrow>
          fold (\<lambda>n h. case tag_for_tag_name n (collection c) of
                  None \<Rightarrow> h | Some other \<Rightarrow> modify other (see_image node sz) h)
               (it (aliases (h a))) (modify a (see_image node sz) h))"

definition subset_images :: "vcompare \<Rightarrow> set_iter \<Rightarrow> int \<Rightarrow> int \<Rightarrow> int \<Rightarrow> string list \<Rightarrow> bool
    \<Rightarrow> store \<times> image_collection \<Rightarrow> (image_error, store \<times> image_collection) result" where
  "subset_images vcmp it releases weeklies dailies include remove_arch = (\<lambda>(h, c).
     replace_contents vcmp it
       (all_tags h False
          (subset_collection vcmp h releases weeklies dailies include remove_arch (collection c)))
       None h)"

definition subtract :: "vcompare \<Rightarrow> set_iter \<Rightarrow> image_collection \<Rightarrow> store \<times> image_collection
    \<Rightarrow> (image_error, store \<times> image_collection) result" where
  "subtract vcmp it other = (\<lambda>(h, c).
     replace_contents vcmp it
       (dvalues (fold (\<lambda>a d. AList.delete (digest (h a)) d) (all_images False True False h other)
          (by_digest c)))
       None h)"

section \<open>What indexing leaves alone\<close>

text \<open>
  Indexing adds to alias sets and rewrites the presentation of possible aliases. Everything else of
  an image stays, and so does whether it is a possible alias.
\<close>

definition core_of :: "rsp_image \<Rightarrow> rsp_image" where
  "core_of i = (if is_possible_alias i
     then i\<lparr>aliases := [], alias_target := None, image_type := ALIAS, cycle := None,
            architecture := None, date := None, display_name := []\<rparr>
     else i\<lparr>aliases := []\<rparr>)"

definition frame :: "store \<Rightarrow> store \<Rightarrow> bool" where
  "frame h h' \<longleftrightarrow> (\<forall>a. core_of (h' a) = core_of (h a))"

lemma frame_refl [simp, intro]: "frame h h"
  by (simp add: frame_def)

lemma frame_trans [trans]: "frame h h' \<Longrightarrow> frame h' h'' \<Longrightarrow> frame h h''"
  by (simp add: frame_def)

lemma core_eqD:
  assumes "core_of i = core_of j"
  shows "tag_name i = tag_name j" "digest i = digest j" "is_possible_alias i = is_possible_alias j"
    "base i = base j" "version i = version j"
    "\<not> is_possible_alias j \<Longrightarrow> i\<lparr>aliases := []\<rparr> = j\<lparr>aliases := []\<rparr>"
proof -
  have "is_possible_alias i \<longleftrightarrow> image_type (core_of i) = ALIAS \<or> image_type (core_of i) = UNKNOWN" for i
    by (simp add: core_of_def is_possible_alias_def alias_types_def)
  then show *: "is_possible_alias i = is_possible_alias j" using assms by metis
  have "tag_name i = tag_name (core_of i)" "digest i = digest (core_of i)" "base i = base (core_of i)"
    "version i = version (core_of i)" for i
    by (simp_all add: core_of_def)
  then show "tag_name i = tag_name j" "digest i = digest j" "base i = base j" "version i = version j"
    using assms by metis+
  show "i\<lparr>aliases := []\<rparr> = j\<lparr>aliases := []\<rparr>" if "\<not> is_possible_alias j"
    using assms that * by (simp add: core_of_def)
qed

lemma frameD:
  assumes "frame h h'"
  shows "tag_name (h' a) = tag_name (h a)" "digest (h' a) = digest (h a)"
    "is_possible_alias (h' a) = is_possible_alias (h a)"
    "\<not> is_possible_alias (h a) \<Longrightarrow> (h' a)\<lparr>aliases := []\<rparr> = (h a)\<lparr>aliases := []\<rparr>"
  using assms core_eqD [of "h' a" "h a"] by (auto simp: frame_def)

lemma frame_wf:
  assumes "frame h h'" shows "tag_wf (h' a) = tag_wf (h a)"
  using assms core_eqD [of "h' a" "h a"] by (auto simp: frame_def tag_wf_def)

section \<open>Operations on one image\<close>

lemma core_aliases [simp]: "core_of (i\<lparr>aliases := s\<rparr>) = core_of i"
  by (simp add: core_of_def is_possible_alias_def)

lemma frame_add_alias [simp, intro]: "frame h (add_alias a n h)"
  by (simp add: frame_def add_alias_def modify_def)

lemma set_set_add [simp]: "set (set_add x xs) = insert x (set xs)"
  by (auto simp: set_add_def)

lemma set_order_set [simp]: "set_order it \<Longrightarrow> set (it xs) = set xs"
  by (metis set_order_def set_mset_mset)

lemma add_alias_simps [simp]:
  "add_alias a n h b = (if b = a then (h a)\<lparr>aliases := set_add n (aliases (h a))\<rparr> else h b)"
  by (simp add: add_alias_def modify_def)

lemma possible_alias_update [simp]:
  "is_possible_alias (i\<lparr>aliases := s\<rparr>) = is_possible_alias i"
  by (simp add: is_possible_alias_def)

text \<open>
  The invariant of the images of a collection under indexing, with the names the collection knows:
  no image lists itself as an alias, and only possible aliases have a target.
\<close>

definition links_ok :: "addr set \<Rightarrow> store \<Rightarrow> bool" where
  "links_ok S h \<longleftrightarrow> inj_on (\<lambda>a. tag_name (h a)) S \<and>
     (\<forall>a \<in> S. tag_name (h a) \<notin> set (aliases (h a)) \<and>
        (alias_target (h a) \<noteq> None \<longrightarrow> is_possible_alias (h a)))"

definition names_ok :: "addr set \<Rightarrow> store \<Rightarrow> addr tag_collection \<Rightarrow> bool" where
  "names_ok S h tags \<longleftrightarrow> (\<forall>n b. tag_for_tag_name n tags = Some b \<longrightarrow> b \<in> S \<and> tag_name (h b) = n)"

lemma names_ok_frame: "names_ok S h tags \<Longrightarrow> frame h h' \<Longrightarrow> names_ok S h' tags"
  by (simp add: names_ok_def frameD)

lemma links_ok_add_alias:
  assumes "links_ok S h" and "tag_name (h a) \<noteq> n"
  shows "links_ok S (add_alias a n h)"
proof -
  have "tag_name (add_alias a n h b) = tag_name (h b)" for b by simp
  then show ?thesis using assms by (auto simp: links_ok_def inj_on_def)
qed

definition resolved :: "set_iter \<Rightarrow> rsp_image \<Rightarrow> rsp_image \<Rightarrow> rsp_image" where
  "resolved it i t =
     (let i = i\<lparr>image_type := ALIAS, alias_target := Some (tag_name t),
          aliases := fold (\<lambda>a s. if a \<noteq> tag_name i then set_add a s else s) (it (aliases t)) (aliases i),
          cycle := cycle t,
          architecture := (if architecture i = None then architecture t else architecture i),
          date := (if date i = None then date t else date i)\<rparr>
      in i\<lparr>display_name := alias_display i (display_name t)\<rparr>)"

lemma resolve_alias_eq:
  assumes "is_possible_alias (h self)" and "self \<noteq> target"
  shows "resolve_alias it self target h =
    Inr (h(self := resolved it (h self) (h target),
           target := (h target)\<lparr>aliases := set_add (tag_name (h self)) (aliases (h target))\<rparr>))"
proof -
  have twist: "h(target := y, self := x) = h(self := x, target := y)" for h :: store and x y
    using assms(2) by (intro fun_upd_twist) simp
  show ?thesis
    using assms by (simp add: resolve_alias_def steps_def modify_def add_alias_def resolved_def twist Let_def)
qed

lemma set_fold_add:
  "set (fold (\<lambda>a s. if a \<noteq> n then set_add a s else s) xs s) = set s \<union> (set xs - {n})"
  by (induction xs arbitrary: s) auto

lemma resolved_simps:
  "image_type (resolved it i t) = ALIAS" "alias_target (resolved it i t) = Some (tag_name t)"
  "tag_name (resolved it i t) = tag_name i" "is_possible_alias (resolved it i t)"
  "set_order it \<Longrightarrow> set (aliases (resolved it i t)) = set (aliases i) \<union> (set (aliases t) - {tag_name i})"
  "is_possible_alias i \<Longrightarrow> core_of (resolved it i t) = core_of i"
  by (simp_all add: resolved_def Let_def set_fold_add core_of_def is_possible_alias_def alias_types_def)

lemma frame_resolve:
  "is_possible_alias (h self) \<Longrightarrow> self \<noteq> target \<Longrightarrow> resolve_alias it self target h = Inr h' \<Longrightarrow> frame h h'"
  by (auto simp: resolve_alias_eq frame_def resolved_simps)

lemma links_ok_resolve:
  assumes "links_ok S h" and "is_possible_alias (h self)" and "self \<in> S" and "target \<in> S" and "self \<noteq> target"
    and "set_order it" and "resolve_alias it self target h = Inr h'"
  shows "links_ok S h'"
proof -
  have names: "tag_name (h' a) = tag_name (h a)" for a
    using frameD(1) [OF frame_resolve [OF assms(2,5,7)]] .
  have "tag_name (h self) \<noteq> tag_name (h target)"
    using assms(1,3,4,5) by (auto simp: links_ok_def inj_on_def)
  then have "tag_name (h a) \<notin> set (aliases (h' a)) \<and>
      (alias_target (h' a) \<noteq> None \<longrightarrow> is_possible_alias (h' a))" if "a \<in> S" for a
    using assms that
    by (cases "a = self"; cases "a = target") (auto simp: links_ok_def resolve_alias_eq resolved_simps)
  then show ?thesis using assms(1) unfolding links_ok_def names by blast
qed

section \<open>Loops over alias sets\<close>

text \<open>A loop whose body keeps an invariant that fixes the size of the set runs to its end.\<close>

lemma over_set_total:
  assumes "\<And>a h. a \<in> set as \<Longrightarrow> P h \<Longrightarrow> \<exists>h'. body a h = Inr h' \<and> P h'"
    and "\<And>h. P h \<Longrightarrow> sz h = n" and "P h"
  shows "\<exists>h'. over_set sz n body as h = Inr h' \<and> P h'"
  using assms(1,3)
proof (induction as arbitrary: h)
  case Nil
  then show ?case by simp
next
  case (Cons a as)
  obtain h' where h': "body a h = Inr h'" "P h'" using Cons.prems by (meson list.set_intros(1))
  obtain h'' where "over_set sz n body as h' = Inr h''" "P h''"
    using Cons.IH [of h'] Cons.prems(1) h'(2) by (meson list.set_intros(2))
  then show ?case using h' assms(2) by simp
qed

lemma for_aliases_total:
  assumes "set_order it" and "P h"
    and "\<And>a h. a \<in> set (aliases (h0 old)) \<Longrightarrow> P h \<Longrightarrow> \<exists>h'. body a h = Inr h' \<and> P h'"
    and "\<And>h. P h \<Longrightarrow> aliases (h old) = aliases (h0 old)"
  shows "\<exists>h'. for_aliases it old body h = Inr h' \<and> P h'"
  unfolding for_aliases_def
  using assms by (intro over_set_total) auto

text \<open>What one step of indexing keeps: the frame, the invariant and the targets of aliases.\<close>

definition targets_kept :: "addr set \<Rightarrow> store \<Rightarrow> store \<Rightarrow> bool" where
  "targets_kept A h h' \<longleftrightarrow>
     (\<forall>a \<in> A. alias_target (h' a) = alias_target (h a) \<and> image_type (h' a) = image_type (h a))"

lemma link_alias_loop:
  assumes "links_ok S h" and "names_ok S h tags" and "set_order it" and "old \<in> S"
  shows "\<exists>h'. for_aliases it old (link_alias tags m) h = Inr h' \<and> frame h h' \<and> links_ok S h' \<and>
    targets_kept UNIV h h'"
proof -
  define P where "P h' \<longleftrightarrow> frame h h' \<and> links_ok S h' \<and> targets_kept UNIV h h' \<and>
    aliases (h' old) = aliases (h old)" for h'
  have "\<exists>h2. link_alias tags m a h1 = Inr h2 \<and> P h2"
    if a: "a \<in> set (aliases (h old))" and P: "P h1" for a h1
  proof (cases "\<exists>b. tag_for_tag_name a tags = Some b \<and> a \<noteq> m")
    case True
    then obtain b where b: "tag_for_tag_name a tags = Some b" "a \<noteq> m" by blast
    then have name: "tag_name (h b) = a" using assms(2) by (auto simp: names_ok_def)
    have fr: "frame h h1" using P by (simp add: P_def)
    have "b \<noteq> old" using a name assms(1,4) by (auto simp: links_ok_def)
    moreover have "links_ok S (add_alias b m h1)"
      using P b(2) name frameD(1) [OF fr] by (intro links_ok_add_alias) (simp_all add: P_def)
    moreover have "frame h (add_alias b m h1)" using fr frame_trans by blast
    ultimately show ?thesis using P b by (auto simp: link_alias_def P_def targets_kept_def)
  next
    case False
    then show ?thesis using P by (auto simp: link_alias_def split: option.splits)
  qed
  moreover have "P h" using assms(1) by (simp add: P_def targets_kept_def)
  ultimately have "\<exists>h'. for_aliases it old (link_alias tags m) h = Inr h' \<and> P h'"
    using assms(3) by (intro for_aliases_total) (auto simp: P_def)
  then show ?thesis by (auto simp: P_def)
qed

lemma move_alias_loop:
  assumes "links_ok S h" and "names_ok S h tags" and "set_order it" and "old \<in> S" and "new \<in> S"
    and "new \<noteq> old"
  shows "\<exists>h'. for_aliases it old (move_alias it tags new old) h = Inr h' \<and> frame h h' \<and> links_ok S h' \<and>
    targets_kept {a. alias_target (h a) = None} h h'"
proof -
  let ?T = "{a. alias_target (h a) = None}"
  define P where "P h' \<longleftrightarrow> frame h h' \<and> links_ok S h' \<and> targets_kept ?T h h' \<and>
    aliases (h' old) = aliases (h old)" for h'
  have "\<exists>h2. move_alias it tags new old a h1 = Inr h2 \<and> P h2"
    if a: "a \<in> set (aliases (h old))" and P: "P h1" for a h1
  proof (cases "\<exists>b. tag_for_tag_name a tags = Some b \<and> a \<noteq> tag_name (h1 new)")
    case True
    then obtain b where b: "tag_for_tag_name a tags = Some b" "a \<noteq> tag_name (h1 new)" by blast
    have fr: "frame h h1" using P by (simp add: P_def)
    note names = frameD(1) [OF fr]
    have name: "tag_name (h1 b) = a" "b \<in> S" using assms(2) b by (auto simp: names_ok_def names)
    then have other: "b \<noteq> old" "b \<noteq> new"
      using a b(2) assms(1,4) by (auto simp: links_ok_def names)
    have old_name: "a \<noteq> tag_name (h1 old)" using a assms(1,4) by (auto simp: links_ok_def names)
    define h2 where "h2 = add_alias new a h1"
    have fr2: "frame h h2" using fr frame_trans unfolding h2_def by blast
    have ok2: "links_ok S h2"
      using P b(2) unfolding h2_def P_def by (intro links_ok_add_alias) auto
    have old2: "aliases (h2 old) = aliases (h old)" using P assms(6) by (simp add: h2_def P_def)
    have kept2: "targets_kept ?T h h2" using P by (auto simp: h2_def P_def targets_kept_def)
    have same2: "tag_name (h2 c) = tag_name (h1 c)" for c by (simp add: h2_def)
    show ?thesis
    proof (cases "alias_target (h2 b) = Some (tag_name (h2 old))")
      case True
      then have poss: "is_possible_alias (h2 b)" using ok2 name(2) by (auto simp: links_ok_def)
      obtain h3 where h3: "resolve_alias it b new h2 = Inr h3"
        using resolve_alias_eq [of h2 b new it] poss other(2) by blast
      note ok3 = links_ok_resolve [OF ok2 poss name(2) assms(5) other(2) assms(3) h3]
        and fr3 = frame_resolve [OF poss other(2) h3]
      have "b \<notin> ?T" using kept2 True by (auto simp: targets_kept_def)
      then have "targets_kept ?T h (add_alias b (tag_name (h2 old)) h3)"
        using kept2 h3 poss other by (auto simp: targets_kept_def resolve_alias_eq)
      moreover have "links_ok S (add_alias b (tag_name (h2 old)) h3)"
        using ok3 old_name name(1) frameD(1) [OF fr3]
        by (intro links_ok_add_alias) (simp_all add: same2)
      moreover have "frame h (add_alias b (tag_name (h2 old)) h3)"
        using fr2 fr3 frame_add_alias frame_trans by blast
      moreover have "aliases (add_alias b (tag_name (h2 old)) h3 old) = aliases (h old)"
        using old2 h3 poss other assms(6) by (auto simp: resolve_alias_eq)
      ultimately show ?thesis
        using b True h3 other(1) frameD(1) [OF fr3, of old] by (simp add: move_alias_def P_def Let_def flip: h2_def)
    next
      case False
      have "links_ok S (add_alias b (tag_name (h2 new)) h2)"
        using ok2 b(2) name(1) by (intro links_ok_add_alias) (simp_all add: same2)
      moreover have "frame h (add_alias b (tag_name (h2 new)) h2)"
        using fr2 frame_add_alias frame_trans by blast
      moreover have "targets_kept ?T h (add_alias b (tag_name (h2 new)) h2)"
        using kept2 by (auto simp: targets_kept_def)
      ultimately show ?thesis
        using b False old2 other by (simp add: move_alias_def P_def Let_def flip: h2_def)
    qed
  next
    case False
    then show ?thesis using P by (auto simp: move_alias_def split: option.splits)
  qed
  moreover have "P h" using assms(1) by (simp add: P_def targets_kept_def)
  ultimately have "\<exists>h'. for_aliases it old (move_alias it tags new old) h = Inr h' \<and> P h'"
    using assms(3) by (intro for_aliases_total) (auto simp: P_def)
  then show ?thesis by (auto simp: P_def)
qed

section \<open>Indexing a collection\<close>

definition unresolved_for :: "string \<Rightarrow> image_collection \<Rightarrow> addr list" where
  "unresolved_for d c = (case map_of (unresolved_aliases c) d of None \<Rightarrow> [] | Some as \<Rightarrow> as)"

lemma append_unresolved_simps [simp]:
  "by_digest (append_unresolved d a c) = by_digest c"
  "collection (append_unresolved d a c) = collection c"
  "unresolved_for e (append_unresolved d a c) = unresolved_for e c @ (if e = d then [a] else [])"
  by (auto simp: append_unresolved_def unresolved_for_def split: option.splits)

lemma set_digest_simps [simp]:
  "map_of (by_digest (set_digest d a c)) = (map_of (by_digest c))(d \<mapsto> a)"
  "collection (set_digest d a c) = collection c"
  "unresolved_for e (set_digest d a c) = unresolved_for e c"
  "unresolved_aliases (set_digest d a c) = unresolved_aliases c"
  by (simp_all add: set_digest_def unresolved_for_def)

lemma targets_kept_trans:
  "targets_kept A h h1 \<Longrightarrow> targets_kept B h1 h2 \<Longrightarrow> A \<subseteq> B \<Longrightarrow> targets_kept A h h2"
  by (auto simp: targets_kept_def)

lemma targets_kept_mono: "targets_kept B h h' \<Longrightarrow> A \<subseteq> B \<Longrightarrow> targets_kept A h h'"
  by (auto simp: targets_kept_def)

lemma targets_kept_add_alias [simp]: "targets_kept A h (add_alias a n h)"
  by (simp add: targets_kept_def)

text \<open>\<open>indexable\<close>: the state between two steps of indexing the images \<open>S\<close>.\<close>

definition indexable :: "addr set \<Rightarrow> store \<Rightarrow> image_collection \<Rightarrow> bool" where
  "indexable S h c \<longleftrightarrow> links_ok S h \<and> names_ok S h (collection c) \<and>
     (\<forall>d a. map_of (by_digest c) d = Some a \<longrightarrow> a \<in> S \<and> digest (h a) = d)"

lemma links_differ:
  "links_ok S h \<Longrightarrow> a \<in> S \<Longrightarrow> b \<in> S \<Longrightarrow> a \<noteq> b \<Longrightarrow> tag_name (h a) \<noteq> tag_name (h b)"
  by (auto simp: links_ok_def inj_on_def)

lemma duplicate_alias:
  assumes "links_ok S h" and "names_ok S h (collection c)" and "set_order it"
    and "new \<in> S" and "old \<in> S" and "new \<noteq> old"
    and "digest (h new) = digest (h old)" and "is_possible_alias (h new)"
  shows "\<exists>h' c'. resolve_duplicate it new old (h, c) = Inr (h', c') \<and> frame h h' \<and> links_ok S h' \<and>
    collection c' = collection c \<and> by_digest c' = by_digest c \<and> targets_kept (- {new}) h h' \<and>
    (if is_possible_alias (h old)
     then targets_kept {new} h h' \<and> c' = append_unresolved (digest (h new)) new c
     else alias_target (h' new) = Some (tag_name (h old)) \<and> image_type (h' new) = ALIAS \<and> c' = c)"
proof (cases "is_possible_alias (h old)")
  case True
  let ?h = "add_alias old (tag_name (h new)) (add_alias new (tag_name (h old)) h)"
  have fr: "frame h ?h" using frame_add_alias frame_trans by blast
  have differ: "tag_name (h new) \<noteq> tag_name (h old)" using links_differ assms(1,4,5,6) by blast
  have ok: "links_ok S ?h"
    using differ assms(6) by (intro links_ok_add_alias assms(1)) auto
  note names = names_ok_frame [OF assms(2) fr]
  obtain h' where h': "for_aliases it old (link_alias (collection c) (tag_name (h new))) ?h = Inr h'"
      "frame ?h h'" "links_ok S h'" "targets_kept UNIV ?h h'"
    using link_alias_loop [OF ok names assms(3,5)] by blast
  have "targets_kept UNIV h ?h" by (auto simp: targets_kept_def)
  then have "targets_kept UNIV h h'" using h'(4) by (rule targets_kept_trans) simp
  moreover have "tag_name (?h new) = tag_name (h new)" by simp
  then have "resolve_duplicate it new old (h, c) = Inr (h', append_unresolved (digest (h new)) new c)"
    using assms(7,8) True h'(1) by (simp add: resolve_duplicate_def del: add_alias_simps)
  moreover have "frame h h'" using fr h'(2) by (rule frame_trans)
  ultimately show ?thesis
    using True h'(3) by (auto simp: targets_kept_def)
next
  case False
  obtain h1 where h1: "resolve_alias it new old h = Inr h1"
    using resolve_alias_eq [of h new old it] assms(6,8) by blast
  note fr = frame_resolve [OF assms(8,6) h1]
    and ok = links_ok_resolve [OF assms(1,8,4,5,6,3) h1]
  note names = names_ok_frame [OF assms(2) fr]
  obtain h' where h': "for_aliases it old (link_alias (collection c) (tag_name (h new))) h1 = Inr h'"
      "frame h1 h'" "links_ok S h'" "targets_kept UNIV h1 h'"
    using link_alias_loop [OF ok names assms(3,5)] by blast
  have "targets_kept (- {new}) h h1" "alias_target (h1 new) = Some (tag_name (h old))" "image_type (h1 new) = ALIAS"
    using h1 assms(6,8) by (auto simp: resolve_alias_eq targets_kept_def resolved_simps)
  then have "targets_kept (- {new}) h h'" "alias_target (h' new) = Some (tag_name (h old))" "image_type (h' new) = ALIAS"
    using h'(4) targets_kept_trans [of "- {new}" h h1 UNIV h'] by (auto simp: targets_kept_def)
  moreover have "resolve_duplicate it new old (h, c) = Inr (h', c)"
    using assms(7,8) False h1 h'(1) frameD(1) [OF fr] by (simp add: resolve_duplicate_def)
  moreover have "frame h h'" using fr h'(2) by (rule frame_trans)
  ultimately show ?thesis using False h'(3) by auto
qed

lemma duplicate_target:
  assumes "links_ok S h" and "names_ok S h (collection c)" and "set_order it"
    and "new \<in> S" and "old \<in> S" and "new \<noteq> old"
    and "digest (h new) = digest (h old)" and "\<not> is_possible_alias (h new)"
  shows "\<exists>h'. resolve_duplicate it new old (h, c) = Inr (h', set_digest (digest (h new)) new c) \<and>
    frame h h' \<and> links_ok S h' \<and> targets_kept {a. alias_target (h a) = None} h h'"
proof -
  let ?h = "add_alias new (tag_name (h old)) h" and ?T = "{a. alias_target (h a) = None}"
  have differ: "tag_name (h new) \<noteq> tag_name (h old)" using links_differ assms(1,4,5,6) by blast
  then have ok: "links_ok S ?h" by (intro links_ok_add_alias assms(1))
  have fr: "frame h ?h" by simp
  note names = names_ok_frame [OF assms(2) fr]
  have T: "{a. alias_target (?h a) = None} = ?T" by auto
  obtain h1 where h1: "for_aliases it old (move_alias it (collection c) new old) ?h = Inr h1"
      "frame ?h h1" "links_ok S h1" "targets_kept ?T ?h h1"
    using move_alias_loop [OF ok names assms(3,5,4,6)] unfolding T by blast
  let ?h' = "add_alias old (tag_name (h1 new)) h1"
  have fr1: "frame h h1" using fr h1(2) by (rule frame_trans)
  have "frame h ?h'" using fr1 frame_add_alias by (rule frame_trans)
  moreover have "links_ok S ?h'"
    using differ frameD(1) [OF fr1] by (intro links_ok_add_alias h1(3)) simp
  moreover have "targets_kept ?T h ?h'"
    using h1(4) by (auto simp: targets_kept_def)
  moreover have "resolve_duplicate it new old (h, c) = Inr (?h', set_digest (digest (h new)) new c)"
    using assms(7,8) h1(1) frameD(1,2) [OF fr1] frameD(2) [OF frame_add_alias]
    by (simp add: resolve_duplicate_def Let_def del: add_alias_simps)
  ultimately show ?thesis by blast
qed

text \<open>The first pass gives every digest its first image that cannot be an alias.\<close>

lemma index_targets_result:
  assumes "set_order it" and "set as \<subseteq> S" and "distinct as" and "indexable S h c"
    and "\<forall>d a. map_of (by_digest c) d = Some a \<longrightarrow> a \<notin> set as \<and> \<not> is_possible_alias (h a)"
  shows "\<exists>h' c'. index_targets it as (h, c) = Inr (h', c') \<and> frame h h' \<and> indexable S h' c' \<and>
    collection c' = collection c \<and> unresolved_aliases c' = unresolved_aliases c \<and>
    targets_kept {a. alias_target (h a) = None} h h' \<and>
    (\<forall>d. map_of (by_digest c') d = (case map_of (by_digest c) d of Some a \<Rightarrow> Some a
       | None \<Rightarrow> find (\<lambda>a. \<not> is_possible_alias (h a) \<and> digest (h a) = d) as))"
  using assms(2-5)
proof (induction as arbitrary: h c)
  case Nil
  then show ?case by (auto simp: targets_kept_def split: option.splits)
next
  case (Cons a as)
  let ?d = "digest (h a)"
  have pre: "set as \<subseteq> S" "distinct as" "a \<in> S" "a \<notin> set as" using Cons.prems by auto
  have entries: "b \<notin> set (a # as) \<and> \<not> is_possible_alias (h b)" if "map_of (by_digest c) d = Some b" for d b
    using Cons.prems(4) that by blast
  show ?case
  proof (cases "is_possible_alias (h a)")
    case True
    have ent: "\<forall>d b. map_of (by_digest c) d = Some b \<longrightarrow> b \<notin> set as \<and> \<not> is_possible_alias (h b)"
      using entries by auto
    have "find (\<lambda>a. \<not> is_possible_alias (h a) \<and> digest (h a) = d) (a # as) =
      find (\<lambda>a. \<not> is_possible_alias (h a) \<and> digest (h a) = d) as" for d
      using True by simp
    then show ?thesis using Cons.IH [OF pre(1,2) Cons.prems(3) ent] True by (simp only: index_targets.simps if_True)
  next
    case nonalias: False
    show ?thesis
    proof (cases "map_of (by_digest c) ?d")
      case None
      let ?c = "set_digest ?d a c"
      have idx: "indexable S h ?c" using Cons.prems(3) pre(3) by (auto simp: indexable_def)
      have ent: "\<forall>d b. map_of (by_digest ?c) d = Some b \<longrightarrow> b \<notin> set as \<and> \<not> is_possible_alias (h b)"
        using entries pre(4) nonalias by auto
      obtain h' c' where "index_targets it as (h, ?c) = Inr (h', c')" "frame h h'" "indexable S h' c'"
        "collection c' = collection ?c" "unresolved_aliases c' = unresolved_aliases ?c"
        "targets_kept {a. alias_target (h a) = None} h h'"
        "\<forall>d. map_of (by_digest c') d = (case map_of (by_digest ?c) d of Some a \<Rightarrow> Some a
           | None \<Rightarrow> find (\<lambda>a. \<not> is_possible_alias (h a) \<and> digest (h a) = d) as)"
        using Cons.IH [OF pre(1,2) idx ent] by blast
      with None nonalias show ?thesis by (auto split: option.splits)
    next
      case (Some b)
      have b: "b \<in> S" "digest (h b) = ?d" "b \<noteq> a" "\<not> is_possible_alias (h b)"
        using Some Cons.prems(3) entries [OF Some] by (auto simp: indexable_def)
      have ok: "links_ok S h" "names_ok S h (collection c)" using Cons.prems(3) by (auto simp: indexable_def)
      obtain h1 where h1: "resolve_duplicate it b a (h, c) = Inr (h1, set_digest ?d b c)"
          "frame h h1" "links_ok S h1" "targets_kept {a. alias_target (h a) = None} h h1"
        using duplicate_target [OF ok assms(1) b(1) pre(3) b(3) b(2) b(4)] b(2) by auto
      let ?c = "set_digest ?d b c"
      have same: "map_of (by_digest ?c) = map_of (by_digest c)" using Some by auto
      note fr = frameD [OF h1(2)]
      have idx: "indexable S h1 ?c"
        using Cons.prems(3) h1(3) names_ok_frame [OF ok(2) h1(2)]
        unfolding indexable_def same set_digest_simps(2) fr(2) by blast
      have ent: "\<forall>d x. map_of (by_digest ?c) d = Some x \<longrightarrow> x \<notin> set as \<and> \<not> is_possible_alias (h1 x)"
        using entries unfolding same fr(3) by auto
      obtain h' c' where h': "index_targets it as (h1, ?c) = Inr (h', c')" "frame h1 h'" "indexable S h' c'"
        "collection c' = collection ?c" "unresolved_aliases c' = unresolved_aliases ?c"
        "targets_kept {a. alias_target (h1 a) = None} h1 h'"
        "\<forall>d. map_of (by_digest c') d = (case map_of (by_digest ?c) d of Some a \<Rightarrow> Some a
           | None \<Rightarrow> find (\<lambda>a. \<not> is_possible_alias (h1 a) \<and> digest (h1 a) = d) as)"
        using Cons.IH [OF pre(1,2) idx ent] by blast
      have "targets_kept {a. alias_target (h a) = None} h h'"
        using h1(4) h'(6) by (rule targets_kept_trans) (use h1(4) in \<open>auto simp: targets_kept_def\<close>)
      moreover have "frame h h'" using h1(2) h'(2) by (rule frame_trans)
      moreover have "map_of (by_digest c') d = (case map_of (by_digest c) d of Some a \<Rightarrow> Some a
           | None \<Rightarrow> find (\<lambda>a. \<not> is_possible_alias (h a) \<and> digest (h a) = d) (a # as))" for d
        using h'(7) Some unfolding same fr(2,3) by (auto split: option.splits)
      ultimately show ?thesis using h' h1(1) Some nonalias by auto
    qed
  qed
qed

text \<open>The second pass resolves the possible aliases of the digests that have such an image.\<close>

definition has_target :: "store \<Rightarrow> image_collection \<Rightarrow> string \<Rightarrow> addr \<Rightarrow> bool" where
  "has_target h c d t \<longleftrightarrow> map_of (by_digest c) d = Some t \<and> \<not> is_possible_alias (h t)"

definition alias_settled :: "store \<Rightarrow> image_collection \<Rightarrow> store \<Rightarrow> image_collection \<Rightarrow> addr \<Rightarrow> bool" where
  "alias_settled h c h' c' a \<longleftrightarrow>
     (\<forall>t. has_target h c (digest (h a)) t \<longrightarrow>
        image_type (h' a) = ALIAS \<and> alias_target (h' a) = Some (tag_name (h t))) \<and>
     ((\<nexists>t. has_target h c (digest (h a)) t) \<longrightarrow>
        targets_kept {a} h h' \<and> a \<in> set (unresolved_for (digest (h a)) c'))"

lemma index_aliases_result:
  assumes "set_order it" and "set as \<subseteq> S" and "distinct as" and "indexable S h c"
    and "\<forall>a \<in> set as. is_possible_alias (h a)"
    and "\<forall>d a. map_of (by_digest c) d = Some a \<longrightarrow> a \<notin> set as"
  shows "\<exists>h' c'. index_aliases it as (h, c) = Inr (h', c') \<and> frame h h' \<and> indexable S h' c' \<and>
    collection c' = collection c \<and> targets_kept (- set as) h h' \<and>
    (\<forall>d. map_of (by_digest c') d = (case map_of (by_digest c) d of Some a \<Rightarrow> Some a
       | None \<Rightarrow> find (\<lambda>a. digest (h a) = d) as)) \<and>
    (\<forall>d. set (unresolved_for d c) \<subseteq> set (unresolved_for d c')) \<and>
    (\<forall>a \<in> set as. alias_settled h c h' c' a)"
  using assms(2-6)
proof (induction as arbitrary: h c)
  case Nil
  then show ?case by (auto simp: targets_kept_def split: option.splits)
next
  case (Cons a as)
  let ?d = "digest (h a)"
  have pre: "set as \<subseteq> S" "distinct as" "a \<in> S" "a \<notin> set as" "is_possible_alias (h a)"
    "\<forall>a \<in> set as. is_possible_alias (h a)" using Cons.prems by auto
  have entries: "b \<noteq> a" "b \<notin> set as" if "map_of (by_digest c) d = Some b" for d b
    using Cons.prems(5) that by auto
  have ok: "links_ok S h" "names_ok S h (collection c)" using Cons.prems(3) by (auto simp: indexable_def)
  define fresh where "fresh \<longleftrightarrow> map_of (by_digest c) ?d = None"
  obtain h1 c1 where h1: "frame h h1" "links_ok S h1" "collection c1 = collection c"
      "map_of (by_digest c1) = (map_of (by_digest c))(?d \<mapsto> the (if fresh then Some a else map_of (by_digest c) ?d))"
      "targets_kept (- {a}) h h1" "alias_settled h c h1 c1 a"
      "\<forall>d. set (unresolved_for d c) \<subseteq> set (unresolved_for d c1)"
      "index_aliases it (a # as) (h, c) = index_aliases it as (h1, c1)"
  proof (cases "map_of (by_digest c) ?d")
    case None
    then have "alias_settled h c h (set_digest ?d a (append_unresolved ?d a c)) a"
      by (simp add: alias_settled_def has_target_def targets_kept_def)
    then show ?thesis
      using None ok(1) by (intro that [of h "set_digest ?d a (append_unresolved ?d a c)"])
        (auto simp: fresh_def targets_kept_def)
  next
    case (Some b)
    have b: "b \<in> S" "digest (h b) = ?d" "a \<noteq> b"
      using Some Cons.prems(3) entries [OF Some] by (auto simp: indexable_def)
    obtain h1 c1 where r: "resolve_duplicate it a b (h, c) = Inr (h1, c1)" "frame h h1" "links_ok S h1"
      "collection c1 = collection c" "by_digest c1 = by_digest c" "targets_kept (- {a}) h h1"
      "if is_possible_alias (h b) then targets_kept {a} h h1 \<and> c1 = append_unresolved ?d a c
       else alias_target (h1 a) = Some (tag_name (h b)) \<and> image_type (h1 a) = ALIAS \<and> c1 = c"
      using duplicate_alias [OF ok assms(1) pre(3) b(1,3) b(2) [symmetric] pre(5)] by blast
    have "alias_settled h c h1 c1 a"
      using r(7) Some by (auto simp: alias_settled_def has_target_def split: if_splits)
    moreover have "set (unresolved_for d c) \<subseteq> set (unresolved_for d c1)" for d
      using r(7) by (auto split: if_splits)
    ultimately show ?thesis
      using r Some by (intro that [of h1 c1]) (auto simp: fresh_def)
  qed
  note fr = frameD [OF h1(1)]
  have idx: "indexable S h1 c1"
    using Cons.prems(3) h1(2,4) names_ok_frame [OF ok(2) h1(1)] pre(3) entries
    unfolding indexable_def h1(3) fr(2) by (auto simp: fresh_def split: if_splits)
  have poss: "\<forall>a \<in> set as. is_possible_alias (h1 a)" using pre(6) fr(3) by simp
  have ent: "\<forall>d b. map_of (by_digest c1) d = Some b \<longrightarrow> b \<notin> set as"
    using entries(2) pre(4) by (auto simp: h1(4) fresh_def split: if_splits)
  obtain h' c' where h': "index_aliases it as (h1, c1) = Inr (h', c')" "frame h1 h'" "indexable S h' c'"
    "collection c' = collection c1" "targets_kept (- set as) h1 h'"
    "\<forall>d. map_of (by_digest c') d = (case map_of (by_digest c1) d of Some a \<Rightarrow> Some a
       | None \<Rightarrow> find (\<lambda>a. digest (h1 a) = d) as)"
    "\<forall>d. set (unresolved_for d c1) \<subseteq> set (unresolved_for d c')"
    "\<forall>a \<in> set as. alias_settled h1 c1 h' c' a"
    using Cons.IH [OF pre(1,2) idx poss ent] by blast
  have targets: "has_target h1 c1 d t \<longleftrightarrow> has_target h c d t" for d t
    using pre(5) by (auto simp: has_target_def h1(4) fr(3) fresh_def)
  have a_kept: "targets_kept {a} h1 h'" using h'(5) pre(4) by (auto simp: targets_kept_def)
  have "alias_settled h c h' c' a"
    using h1(6) a_kept h'(7) unfolding alias_settled_def targets_kept_def by auto
  moreover have "alias_settled h c h' c' b" if "b \<in> set as" for b
  proof -
    have "alias_settled h1 c1 h' c' b" using h'(8) that by simp
    moreover have "targets_kept {b} h h1" using h1(5) that pre(4) by (auto simp: targets_kept_def)
    ultimately show ?thesis by (simp add: alias_settled_def targets fr(1,2) targets_kept_def)
  qed
  moreover have "targets_kept (- set (a # as)) h h'"
    using h1(5) h'(5) by (auto simp: targets_kept_def)
  moreover have "map_of (by_digest c') d = (case map_of (by_digest c) d of Some a \<Rightarrow> Some a
       | None \<Rightarrow> find (\<lambda>a. digest (h a) = d) (a # as))" for d
    using h'(6) by (auto simp: h1(4) fr(2) fresh_def split: option.splits if_splits)
  moreover have "frame h h'" using h1(1) h'(2) by (rule frame_trans)
  moreover have "set (unresolved_for d c) \<subseteq> set (unresolved_for d c')" for d
    using h1(7) h'(7) by (meson subset_trans)
  ultimately show ?case using h1(3,8) h'(1,3,4) by (intro exI [of _ h'] exI [of _ c']) simp
qed

lemma make_collection_names:
  assumes "tag_for_tag_name n (make_collection vcmp tg ts) = Some t"
  shows "t \<in> set ts \<and> tag_name (tg t) = n"
proof -
  have "(n, t) \<in> set (by_tag (fold (index_tag tg) ts empty_collection))"
    using assms by (auto simp: tag_for_tag_name_def by_tag_make dest: map_of_SomeD)
  then show ?thesis
    using by_tag_fold_props [of empty_collection tg ts] by (auto simp: empty_collection_def)
qed

lemma make_collection_complete:
  assumes "inj_on (\<lambda>t. tag_name (tg t)) (set ts)" and "t \<in> set ts"
  shows "tag_for_tag_name (tag_name (tg t)) (make_collection vcmp tg ts) = Some t"
proof -
  have "tag_name (tg t) \<in> set (dkeys (by_tag (fold (index_tag tg) ts empty_collection)))"
    using by_tag_fold_props [of empty_collection tg ts] assms(2) by (auto simp: empty_collection_def)
  then have "map_of (by_tag (fold (index_tag tg) ts empty_collection)) (tag_name (tg t)) \<noteq> None"
    by (simp add: map_of_eq_None_iff)
  then obtain u where u: "tag_for_tag_name (tag_name (tg t)) (make_collection vcmp tg ts) = Some u"
    by (auto simp: tag_for_tag_name_def by_tag_make)
  then show ?thesis using make_collection_names [OF u] assms by (auto simp: inj_on_def)
qed

text \<open>
  The image that a digest leads to: the first image in the list given that cannot be an alias, and
  if there is none, the first image.
\<close>

definition canonical :: "store \<Rightarrow> addr list \<Rightarrow> string \<Rightarrow> addr option" where
  "canonical h images d =
     (case find (\<lambda>a. \<not> is_possible_alias (h a) \<and> digest (h a) = d) images of
        Some a \<Rightarrow> Some a
      | None \<Rightarrow> find (\<lambda>a. digest (h a) = d) images)"

lemma find_filter: "find P (filter Q xs) = find (\<lambda>x. Q x \<and> P x) xs"
  by (induction xs) auto

definition of_cycle :: "store \<Rightarrow> nat option \<Rightarrow> addr list \<Rightarrow> addr list" where
  "of_cycle h cyc images = filter (\<lambda>a. cyc = None \<or> cycle (h a) = cyc) images"

text \<open>The two passes over the images of a cycle, and what each of them leaves.\<close>

lemma replace_contents_passes:
  fixes im :: "addr list" and cyc :: "nat option"
  assumes "set_order it" and "distinct images" and "links_ok (set images) h"
  defines "im \<equiv> of_cycle h cyc images"
  obtains h1 c1 h2 c2 where
    "replace_contents vcmp it images cyc h = Inr (h2, c2\<lparr>collection := make_collection vcmp h2 im\<rparr>)"
    and "frame h h1" and "frame h1 h2" and "targets_kept {a. alias_target (h a) = None} h h1"
    and "\<forall>d. map_of (by_digest c1) d = find (\<lambda>a. \<not> is_possible_alias (h a) \<and> digest (h a) = d) im"
    and "\<forall>d. map_of (by_digest c2) d = canonical h im d"
    and "\<forall>a \<in> set im. is_possible_alias (h a) \<longrightarrow> alias_settled h1 c1 h2 c2 a"
proof -
  let ?S = "set im" and ?al = "filter (\<lambda>a. is_possible_alias (h a)) im"
  let ?c = "\<lparr>by_digest = [], collection = make_collection vcmp h im, unresolved_aliases = []\<rparr>"
  have sub: "set im \<subseteq> set images" and dist: "distinct im"
    using assms(2) by (auto simp: im_def of_cycle_def)
  have ok: "links_ok ?S h"
    using assms(3) sub inj_on_subset unfolding links_ok_def by blast
  have idx: "indexable ?S h ?c"
    using ok make_collection_names [where tg = h] by (simp add: indexable_def names_ok_def)
  obtain h1 c1 where r1: "index_targets it im (h, ?c) = Inr (h1, c1)" "frame h h1" "indexable ?S h1 c1"
    "collection c1 = collection ?c" "targets_kept {a. alias_target (h a) = None} h h1"
    "\<forall>d. map_of (by_digest c1) d = (case map_of (by_digest ?c) d of Some a \<Rightarrow> Some a
       | None \<Rightarrow> find (\<lambda>a. \<not> is_possible_alias (h a) \<and> digest (h a) = d) im)"
    using index_targets_result [OF assms(1) order.refl dist idx] by (auto simp del: index_targets.simps)
  note fr = frameD [OF r1(2)]
  have by1: "map_of (by_digest c1) d = find (\<lambda>a. \<not> is_possible_alias (h a) \<and> digest (h a) = d) im" for d
    using r1(6) by simp
  have al: "set ?al \<subseteq> ?S" "distinct ?al" "\<forall>a \<in> set ?al. is_possible_alias (h1 a)"
    using dist fr(3) by auto
  have new: "\<forall>d a. map_of (by_digest c1) d = Some a \<longrightarrow> a \<notin> set ?al"
    using by1 find_SomeD by fastforce
  obtain h2 c2 where r2: "index_aliases it ?al (h1, c1) = Inr (h2, c2)" "frame h1 h2"
    "\<forall>d. map_of (by_digest c2) d = (case map_of (by_digest c1) d of Some a \<Rightarrow> Some a
       | None \<Rightarrow> find (\<lambda>a. digest (h1 a) = d) ?al)"
    "\<forall>a \<in> set ?al. alias_settled h1 c1 h2 c2 a"
    using index_aliases_result [OF assms(1) al(1,2) r1(3) al(3) new] by blast
  have canon: "map_of (by_digest c2) d = canonical h im d" for d
  proof (cases "find (\<lambda>a. \<not> is_possible_alias (h a) \<and> digest (h a) = d) im")
    case None
    then have "find (\<lambda>x. is_possible_alias (h x) \<and> digest (h x) = d) im = find (\<lambda>x. digest (h x) = d) im"
      by (intro find_cong) (auto simp: find_None)
    with None show ?thesis using r2(3) by (simp add: by1 canonical_def fr(2) find_filter)
  next
    case (Some t)
    then show ?thesis using r2(3) by (simp add: by1 canonical_def)
  qed
  have "replace_contents vcmp it images cyc h = Inr (h2, c2\<lparr>collection := make_collection vcmp h2 im\<rparr>)"
    using r1(1) r2(1) by (simp add: replace_contents_def im_def of_cycle_def Let_def)
  then show thesis
    by (rule that) (use r1(2,5) r2(2,4) by1 canon in auto)
qed

lemma replace_contents_total:
  assumes "set_order it" and "distinct images" and "links_ok (set images) h"
  shows "\<exists>s. replace_contents vcmp it images cyc h = Inr s"
  using replace_contents_passes [OF assms] by metis

lemma canonicalD: "canonical h im d = Some t \<Longrightarrow> t \<in> set im \<and> digest (h t) = d"
  by (auto simp: canonical_def split: option.splits dest: find_SomeD)

lemma canonical_target:
  assumes "canonical h im d = Some t" and "\<not> is_possible_alias (h t)"
  shows "find (\<lambda>b. \<not> is_possible_alias (h b) \<and> digest (h b) = d) im = Some t"
  using assms canonicalD [OF assms(1)] find_None [of "\<lambda>b. \<not> is_possible_alias (h b) \<and> digest (h b) = d" im]
  by (auto simp: canonical_def split: option.splits)

lemma canonical_untargeted:
  assumes "canonical h im d = Some t" and "is_possible_alias (h t)"
  shows "find (\<lambda>b. \<not> is_possible_alias (h b) \<and> digest (h b) = d) im = None"
  using assms by (auto simp: canonical_def split: option.splits dest: find_SomeD)


section \<open>The other operations\<close>

text \<open>
  Building from images of pairwise different digests stores them as they are: nothing is resolved.
\<close>

lemma index_targets_distinct:
  "distinct (map (\<lambda>a. digest (h a)) as) \<Longrightarrow>
   (\<forall>a \<in> set as. map_of (by_digest c) (digest (h a)) = None) \<Longrightarrow>
   \<exists>c'. index_targets it as (h, c) = Inr (h, c') \<and>
     (\<forall>d. map_of (by_digest c') d = (case find (\<lambda>a. \<not> is_possible_alias (h a) \<and> digest (h a) = d) as of
        Some a \<Rightarrow> Some a | None \<Rightarrow> map_of (by_digest c) d))"
proof (induction as arbitrary: c)
  case Nil
  then show ?case by simp
next
  case (Cons a as)
  show ?case
  proof (cases "is_possible_alias (h a)")
    case True
    have "find (\<lambda>a. \<not> is_possible_alias (h a) \<and> digest (h a) = d) (a # as) =
      find (\<lambda>a. \<not> is_possible_alias (h a) \<and> digest (h a) = d) as" for d using True by simp
    then show ?thesis using Cons True by (simp del: find.simps)
  next
    case False
    let ?c = "set_digest (digest (h a)) a c"
    have differ: "digest (h b) \<noteq> digest (h a)" if "b \<in> set as" for b
      using Cons.prems(1) that by (metis (mono_tags) distinct.simps(2) image_eqI list.simps(9) set_map)
    then have "\<forall>b \<in> set as. map_of (by_digest ?c) (digest (h b)) = None"
      using Cons.prems(2) by simp
    then obtain c' where c': "index_targets it as (h, ?c) = Inr (h, c')"
      "\<forall>d. map_of (by_digest c') d = (case find (\<lambda>a. \<not> is_possible_alias (h a) \<and> digest (h a) = d) as of
         Some a \<Rightarrow> Some a | None \<Rightarrow> map_of (by_digest ?c) d)"
      using Cons.IH [of ?c] Cons.prems(1) by auto
    have "find (\<lambda>b. \<not> is_possible_alias (h b) \<and> digest (h b) = digest (h a)) as = None"
      using differ by (simp add: find_None)
    then show ?thesis using c' False Cons.prems(2) by (auto split: option.splits)
  qed
qed

lemma index_aliases_distinct:
  "distinct (map (\<lambda>a. digest (h a)) as) \<Longrightarrow>
   (\<forall>a \<in> set as. map_of (by_digest c) (digest (h a)) = None) \<Longrightarrow>
   \<exists>c'. index_aliases it as (h, c) = Inr (h, c') \<and>
     (\<forall>d. map_of (by_digest c') d = (case find (\<lambda>a. digest (h a) = d) as of
        Some a \<Rightarrow> Some a | None \<Rightarrow> map_of (by_digest c) d))"
proof (induction as arbitrary: c)
  case Nil
  then show ?case by simp
next
  case (Cons a as)
  let ?c = "set_digest (digest (h a)) a (append_unresolved (digest (h a)) a c)"
  have differ: "digest (h b) \<noteq> digest (h a)" if "b \<in> set as" for b
    using Cons.prems(1) that by (metis (mono_tags) distinct.simps(2) image_eqI list.simps(9) set_map)
  then have "\<forall>b \<in> set as. map_of (by_digest ?c) (digest (h b)) = None"
    using Cons.prems(2) by simp
  then obtain c' where c': "index_aliases it as (h, ?c) = Inr (h, c')"
    "\<forall>d. map_of (by_digest c') d = (case find (\<lambda>a. digest (h a) = d) as of
       Some a \<Rightarrow> Some a | None \<Rightarrow> map_of (by_digest ?c) d)"
    using Cons.IH [of ?c] Cons.prems(1) by auto
  have "find (\<lambda>b. digest (h b) = digest (h a)) as = None"
    using differ by (simp add: find_None)
  then show ?case using c' Cons.prems(2) by (auto split: option.splits)
qed

lemma replace_contents_distinct:
  assumes "distinct (map (\<lambda>a. digest (h a)) images)"
  shows "\<exists>c. replace_contents vcmp it images None h = Inr (h, c) \<and>
    collection c = make_collection vcmp h images \<and>
    (\<forall>d. image_for_digest d c = find (\<lambda>a. digest (h a) = d) images)"
proof -
  let ?c = "\<lparr>by_digest = [], collection = make_collection vcmp h images, unresolved_aliases = []\<rparr>"
    and ?al = "filter (\<lambda>a. is_possible_alias (h a)) images"
  obtain c1 where c1: "index_targets it images (h, ?c) = Inr (h, c1)"
    "\<forall>d. map_of (by_digest c1) d = (case find (\<lambda>a. \<not> is_possible_alias (h a) \<and> digest (h a) = d) images of
        Some a \<Rightarrow> Some a | None \<Rightarrow> map_of (by_digest ?c) d)"
    using index_targets_distinct [OF assms, of ?c it] by auto
  have none: "map_of (by_digest c1) (digest (h a)) = None" if "a \<in> set ?al" for a
  proof -
    have "find (\<lambda>b. \<not> is_possible_alias (h b) \<and> digest (h b) = digest (h a)) images = None"
      using that assms by (auto simp: find_None distinct_map inj_on_def)
    then show ?thesis using c1(2) by simp
  qed
  obtain c2 where c2: "index_aliases it ?al (h, c1) = Inr (h, c2)"
    "\<forall>d. map_of (by_digest c2) d = (case find (\<lambda>a. digest (h a) = d) ?al of
       Some a \<Rightarrow> Some a | None \<Rightarrow> map_of (by_digest c1) d)"
    using index_aliases_distinct [of h ?al c1 it] assms none by (auto simp: distinct_map_filter)
  have "map_of (by_digest c2) d = find (\<lambda>a. digest (h a) = d) images" for d
  proof (cases "find (\<lambda>a. digest (h a) = d) images")
    case None
    then have "find (\<lambda>a. digest (h a) = d) ?al = None"
      "find (\<lambda>a. \<not> is_possible_alias (h a) \<and> digest (h a) = d) images = None"
      by (auto simp: find_None)
    with None show ?thesis using c1(2) c2(2) by simp
  next
    case (Some a)
    have a: "a \<in> set images" "digest (h a) = d" using find_SomeD [OF Some] by auto
    then have only: "b = a" if "b \<in> set images" "digest (h b) = d" for b
      using assms that by (auto simp: distinct_map inj_on_def)
    show ?thesis
    proof (cases "is_possible_alias (h a)")
      case True
      then have "find (\<lambda>a. digest (h a) = d) ?al \<noteq> None" using a by (auto simp: find_None)
      then obtain b where b: "find (\<lambda>a. digest (h a) = d) ?al = Some b" by blast
      then have "b = a" using find_SomeD [OF b] only by auto
      with b Some show ?thesis using c2(2) by simp
    next
      case False
      then have "find (\<lambda>a. \<not> is_possible_alias (h a) \<and> digest (h a) = d) images \<noteq> None"
        using a by (auto simp: find_None)
      then obtain b where b: "find (\<lambda>a. \<not> is_possible_alias (h a) \<and> digest (h a) = d) images = Some b"
        by blast
      then have "b = a" using find_SomeD [OF b] only by auto
      moreover have "find (\<lambda>a. digest (h a) = d) ?al = None"
        using False only by (auto simp: find_None)
      ultimately show ?thesis using b Some c1(2) c2(2) by simp
    qed
  qed
  then show ?thesis
    using c1(1) c2(1)
    by (simp add: replace_contents_def image_for_digest_def)
qed

definition digests_ok :: "store \<Rightarrow> image_collection \<Rightarrow> bool" where
  "digests_ok h c \<longleftrightarrow> dict_ok (by_digest c) \<and> (\<forall>(d, a) \<in> set (by_digest c). digest (h a) = d)"

lemma delete_fold:
  "fold (\<lambda>a d. AList.delete (f a) d) as d = filter (\<lambda>(k, v). k \<notin> f ` set as) d"
  by (induction as arbitrary: d) (auto simp: AList.delete_eq intro!: filter_cong)

lemma map_of_filter_key: "map_of (filter (\<lambda>(k, v). P k) d) k = (if P k then map_of d k else None)"
  by (induction d) auto

lemma subtract_contents:
  fixes h :: store and c other :: image_collection
  assumes "digests_ok h c"
  defines "gone \<equiv> (\<lambda>a. digest (h a)) ` set (all_images False True False h other)"
  shows "\<exists>c'. subtract vcmp it other (h, c) = Inr (h, c') \<and>
    collection c' = make_collection vcmp h (dvalues (filter (\<lambda>(k, v). k \<notin> gone) (by_digest c))) \<and>
    (\<forall>d. image_for_digest d c' = (if d \<in> gone then None else image_for_digest d c))"
proof -
  let ?left = "filter (\<lambda>(k, v). k \<notin> gone) (by_digest c)"
  have ok: "dict_ok (by_digest c)" and digs: "\<forall>(d, a) \<in> set (by_digest c). digest (h a) = d"
    using assms by (auto simp: digests_ok_def)
  have keys: "map (\<lambda>a. digest (h a)) (dvalues ?left) = dkeys ?left"
    using digs by (auto intro!: map_cong)
  have left_ok: "dict_ok ?left" using ok by (auto simp: dict_ok_def distinct_map_filter)
  then have "distinct (map (\<lambda>a. digest (h a)) (dvalues ?left))"
    unfolding keys by (simp add: dict_ok_def)
  then obtain c' where c': "replace_contents vcmp it (dvalues ?left) None h = Inr (h, c')"
    "collection c' = make_collection vcmp h (dvalues ?left)"
    "\<forall>d. image_for_digest d c' = find (\<lambda>a. digest (h a) = d) (dvalues ?left)"
    using replace_contents_distinct by blast
  have find: "find (\<lambda>a. digest (h a) = d) (dvalues xs) = map_of xs d"
    if "\<forall>(d, a) \<in> set xs. digest (h a) = d" for xs :: "(string, addr) dict" and d
    using that by (induction xs) auto
  have "map_of ?left d = (if d \<in> gone then None else map_of (by_digest c) d)" for d
    by (simp add: map_of_filter_key [of "\<lambda>k. k \<notin> gone"])
  then have "image_for_digest d c' = (if d \<in> gone then None else image_for_digest d c)" for d
    using c'(3) find [of ?left d] digs by (auto simp: image_for_digest_def)
  then show ?thesis using c'(1,2) by (simp add: subtract_def delete_fold gone_def)
qed

theorem subtract_result:
  assumes "digests_ok h c"
  shows "\<exists>c'. subtract vcmp it other (h, c) = Inr (h, c') \<and>
    (\<forall>d. image_for_digest d c' =
       (if d \<in> (\<lambda>a. digest (h a)) ` set (all_images False True False h other) then None
        else image_for_digest d c))"
  using subtract_contents [OF assms] by blast

text \<open>Seeing an image on a node reaches it and the images of the collection that its aliases name.\<close>

definition seen_objects :: "string \<Rightarrow> image_collection \<Rightarrow> store \<Rightarrow> addr set" where
  "seen_objects d c h =
     (case map_of (by_digest c) d of
        None \<Rightarrow> {}
      | Some a \<Rightarrow> insert a {b. \<exists>n \<in> set (aliases (h a)). tag_for_tag_name n (collection c) = Some b})"

lemma see_image_twice [simp]: "see_image n z (see_image n z i) = see_image n z i"
  by (simp add: see_image_def set_add_def)

lemma fold_see:
  "(\<forall>b. h b = h0 b \<or> h b = see_image node sz (h0 b)) \<Longrightarrow>
   fold (\<lambda>n h. case f n of None \<Rightarrow> h | Some other \<Rightarrow> modify other (see_image node sz) h) ns h b =
     (if h b = see_image node sz (h0 b) \<or> (\<exists>n \<in> set ns. f n = Some b) then see_image node sz (h0 b) else h0 b)"
proof (induction ns arbitrary: h)
  case Nil
  then show ?case by auto
next
  case (Cons n ns)
  let ?h = "case f n of None \<Rightarrow> h | Some other \<Rightarrow> modify other (see_image node sz) h"
  have "\<forall>b. ?h b = h0 b \<or> ?h b = see_image node sz (h0 b)"
  proof
    fix b
    show "?h b = h0 b \<or> ?h b = see_image node sz (h0 b)"
      using Cons.prems [rule_format, of b] by (auto simp: modify_def split: option.splits)
  qed
  note IH = Cons.IH [OF this]
  have "?h b = see_image node sz (h0 b) \<longleftrightarrow> h b = see_image node sz (h0 b) \<or> f n = Some b \<or>
      h0 b = see_image node sz (h0 b) \<and> h b = h0 b"
    using Cons.prems [rule_format, of b] by (auto simp: modify_def split: option.splits)
  then show ?case using IH Cons.prems [rule_format, of b] by auto
qed

theorem mark_image_seen:
  assumes "set_order it"
  shows "mark_image_seen_on_node it d node sz c h b =
    (if b \<in> seen_objects d c h then see_image node sz (h b) else h b)"
proof (cases "map_of (by_digest c) d")
  case None
  then show ?thesis by (simp add: mark_image_seen_on_node_def seen_objects_def)
next
  case (Some a)
  let ?h = "modify a (see_image node sz) h"
  have "\<forall>b. ?h b = h b \<or> ?h b = see_image node sz (h b)" by (simp add: modify_def)
  note fold_see [OF this, of "\<lambda>n. tag_for_tag_name n (collection c)" "it (aliases (h a))" b]
  then have "mark_image_seen_on_node it d node sz c h b =
    (if ?h b = see_image node sz (h b) \<or> (\<exists>n \<in> set (it (aliases (h a))). tag_for_tag_name n (collection c) = Some b)
     then see_image node sz (h b) else h b)"
    using Some by (simp add: mark_image_seen_on_node_def)
  moreover have "?h b = see_image node sz (h b) \<longleftrightarrow> b = a \<or> h b = see_image node sz (h b)"
    by (auto simp: modify_def)
  ultimately show ?thesis using Some assms by (auto simp: seen_objects_def)
qed

text \<open>
  Adding the target of unresolved aliases reindexes the images that \<open>all_images\<close> shows by default,
  so the images for one architecture are no longer in the collection.
\<close>

lemma in_make_collection:
  "a \<in> set (all_tags tg rm (make_collection vcmp tg ts)) \<Longrightarrow> a \<in> set ts"
  by (auto simp: all_tags_def by_type_make)

theorem reindex_drops_architectures:
  assumes "map_of (unresolved_aliases c) (digest (h a)) \<noteq> None" and "\<not> is_possible_alias (h a)"
    and "add_image vcmp it a (h, c) = Inr (h', c')" and "b \<in> set (all_tags h' False (collection c'))"
  shows "b = a \<or> \<not> arch_specific h b"
proof -
  let ?images = "all_images False True False h c @ [a]"
  have "replace_contents vcmp it ?images None h = Inr (h', c')"
    using assms(1-3) by (simp add: add_image_def)
  then have "collection c' = make_collection vcmp h' ?images"
    by (auto simp: replace_contents_def Let_def rbind_eq_Inr)
  then have "b \<in> set ?images" using assms(4) in_make_collection by fastforce
  then show ?thesis by (auto simp: all_images_def all_tags_def)
qed

text \<open>
  An alias added to a collection that does not know its digest yet is entered by digest, but not
  among the unresolved aliases.
\<close>

theorem added_alias_not_unresolved:
  assumes "is_possible_alias (h a)" and "map_of (by_digest c) (digest (h a)) = None"
  shows "\<exists>c'. add_image vcmp it a (h, c) = Inr (h, c') \<and>
    image_for_digest (digest (h a)) c' = Some a \<and> unresolved_aliases c' = unresolved_aliases c"
  using assms by (simp add: add_image_def image_for_digest_def set_digest_def)

section \<open>Examples\<close>

text \<open>
  Address 0 is a release, 1 the tag \<open>recommended\<close> with the same digest, 2 a second release for one
  architecture, and every other address a third release.
\<close>

definition example_image :: "rsp_image_tag \<Rightarrow> string \<Rightarrow> rsp_image" where
  "example_image t d = from_tag t ''reg'' ''repo'' d None"

definition example_store :: store where
  "example_store a =
     (if a = 0 then example_image (example_release ''r1'' 1 None) ''d1''
      else if a = 1 then example_image (plain_tag ''recommended'') ''d1''
      else if a = 2 then example_image (example_release ''r2'' 2 (Some ''arm64'')) ''d2''
      else example_image (example_release ''r3'' 3 None) ''d3'')"

lemma set_order_rev: "set_order rev"
  by (simp add: set_order_def)

lemma example_links_ok: "links_ok (set [0, 1, 2]) example_store"
  by (auto simp: links_ok_def inj_on_def example_store_def example_image_def from_tag_def
      example_release_def plain_tag_def)


definition example_images :: image_collection where
  "example_images = \<lparr>by_digest = [(''d1'', 0), (''d2'', 2)],
     collection = make_collection precedence example_store [0, 1, 2], unresolved_aliases = []\<rparr>"

definition example_other :: image_collection where
  "example_other = \<lparr>by_digest = [(''d1'', 0)],
     collection = make_collection precedence example_store [0], unresolved_aliases = []\<rparr>"

lemma subtract_result_witness:
  "\<exists>c'. subtract precedence rev example_other (example_store, example_images) = Inr (example_store, c') \<and>
     image_for_digest ''d1'' c' = None \<and> image_for_digest ''d2'' c' = Some 2"
proof -
  have "digests_ok example_store example_images" by code_simp
  from subtract_result [OF this, of precedence rev example_other]
  obtain c' where c': "subtract precedence rev example_other (example_store, example_images) = Inr (example_store, c')"
    "\<forall>d. image_for_digest d c' =
       (if d \<in> (\<lambda>a. digest (example_store a)) ` set (all_images False True False example_store example_other)
        then None else image_for_digest d example_images)"
    by blast
  have "''d1'' \<in> (\<lambda>a. digest (example_store a)) ` set (all_images False True False example_store example_other)"
    "''d2'' \<notin> (\<lambda>a. digest (example_store a)) ` set (all_images False True False example_store example_other)"
    "image_for_digest ''d2'' example_images = Some 2"
    by code_simp+
  with c' show ?thesis by auto
qed

lemma mark_image_seen_witness:
  "mark_image_seen_on_node rev ''d2'' ''node'' (Some 5) example_images example_store 2 =
     see_image ''node'' (Some 5) (example_store 2)"
proof -
  have "2 \<in> seen_objects ''d2'' example_images example_store"
    by (simp add: seen_objects_def example_images_def)
  then show ?thesis by (simp add: mark_image_seen [OF set_order_rev])
qed

definition example_unresolved :: image_collection where
  "example_unresolved = \<lparr>by_digest = [(''d1'', 1), (''d2'', 2)],
     collection = make_collection precedence example_store [1, 2],
     unresolved_aliases = [(''d1'', [1])]\<rparr>"

lemma reindex_drops_architectures_witness:
  "\<exists>h' c'. 2 \<in> set (all_tags example_store False (collection example_unresolved)) \<and>
     add_image precedence rev 0 (example_store, example_unresolved) = Inr (h', c') \<and>
     2 \<notin> set (all_tags h' False (collection c'))"
proof -
  have pre: "map_of (unresolved_aliases example_unresolved) (digest (example_store 0)) \<noteq> None"
    "\<not> is_possible_alias (example_store 0)"
    by code_simp+
  have images: "all_images False True False example_store example_unresolved @ [0] = [1, 0]" by code_simp
  have "\<exists>s. replace_contents precedence rev [1, 0] None example_store = Inr s"
    using example_links_ok by (intro replace_contents_total set_order_rev) (auto simp: links_ok_def inj_on_def)
  then obtain h' c' where add: "add_image precedence rev 0 (example_store, example_unresolved) = Inr (h', c')"
    using pre images by (auto simp: add_image_def)
  have arch: "arch_specific example_store 2" by code_simp
  have "2 \<notin> set (all_tags h' False (collection c'))"
    using reindex_drops_architectures [OF pre add, of 2] arch by auto
  moreover have "2 \<in> set (all_tags example_store False (collection example_unresolved))" by code_simp
  ultimately show ?thesis using add by blast
qed

lemma added_alias_not_unresolved_witness:
  "\<exists>c'. add_image precedence rev 1 (example_store, \<lparr>by_digest = [], collection = empty_collection,
       unresolved_aliases = []\<rparr>) = Inr (example_store, c') \<and>
     image_for_digest ''d1'' c' = Some 1 \<and> unresolved_aliases c' = []"
proof -
  have "is_possible_alias (example_store 1)" "digest (example_store 1) = ''d1''" by code_simp+
  with added_alias_not_unresolved [of example_store 1 "\<lparr>by_digest = [], collection = empty_collection,
       unresolved_aliases = []\<rparr>" precedence rev]
  show ?thesis by simp
qed

end
