(* ===== verification/Docker_Model.thy ===== *)
theory Docker_Model
  imports Py_Regex
begin

text \<open>
  \<open>src/src/nublado/controller/models/domain/docker.py\<close>: parsing and printing of Docker references;
  \<open>src/src/nublado/models/docker.py\<close>: credentials for Docker registries and the store that looks
  them up. The Base64 codec of the standard library is modelled on strings of bytes (characters);
  files and JSON text are not modelled: a configuration is the dictionary that JSON encodes.
\<close>

section \<open>References\<close>

record docker_reference =
  ref_registry :: string
  ref_repository :: string
  ref_tag :: "string option"
  ref_digest :: "string option"

definition registry_rx :: regex where
  "registry_rx = Group ''registry'' (Plus (NoneOf ''/''))"

definition repository_rx :: "regex \<Rightarrow> regex" where
  "repository_rx k = lit ''/'' (Seq (Group ''repository'' (Plus (NoneOf '':@''))) k)"

definition tag_rx :: regex where
  "tag_rx = Opt (lit '':'' (Group ''tag'' (Plus (NoneOf ''@''))))"

definition digest_rx :: regex where
  "digest_rx = Opt (lit ''@'' (Group ''digest'' (Plus Dot)))"

definition digest_regex :: regex where
  "digest_regex = Seq registry_rx (repository_rx (Seq tag_rx (Seq digest_rx Eos)))"

definition ref_from_str :: "string \<Rightarrow> docker_reference option" where
  "ref_from_str s =
     (case re_match digest_regex s of
        None \<Rightarrow> None
      | Some g \<Rightarrow> Some \<lparr>ref_registry = the (map_of g ''registry''), ref_repository = the (map_of g ''repository''),
                        ref_tag = map_of g ''tag'', ref_digest = map_of g ''digest''\<rparr>)"

definition ref_to_str :: "docker_reference \<Rightarrow> string" where
  "ref_to_str r = ref_registry r @ ''/'' @ ref_repository r
     @ (case ref_tag r of None \<Rightarrow> [] | Some t \<Rightarrow> '':'' @ t)
     @ (case ref_digest r of None \<Rightarrow> [] | Some d \<Rightarrow> ''@'' @ d)"

text \<open>The references that have one reading: each part avoids the separators that follow it.\<close>

definition part_ok :: "char list \<Rightarrow> string \<Rightarrow> bool" where
  "part_ok seps s \<longleftrightarrow> s \<noteq> [] \<and> list_all (\<lambda>c. c \<notin> set seps) s"

definition ref_ok :: "docker_reference \<Rightarrow> bool" where
  "ref_ok r \<longleftrightarrow> part_ok ''/'' (ref_registry r) \<and> part_ok '':@'' (ref_repository r) \<and>
     (case ref_tag r of None \<Rightarrow> True | Some t \<Rightarrow> part_ok ''@'' t) \<and>
     (case ref_digest r of None \<Rightarrow> True | Some d \<Rightarrow> part_ok [CHR 0x0A] d)"

lemma re_first_part:
  assumes "part_ok seps s" and "case t of [] \<Rightarrow> True | x # _ \<Rightarrow> x \<in> set seps" and "re_first k t = Some (h, u)"
  shows "re_first (Seq (Group n (Plus (NoneOf seps))) k) (s @ t) = Some ((n, s) # h, u)"
proof -
  have "re_first (Group n (Plus (NoneOf seps))) (s @ t) = Some ([(n, s)], t)"
    using assms(1,2) by (intro re_first_Group_Plus) (auto simp: part_ok_def list_all_iff split: list.splits)
  from re_first_Seq [OF this assms(3)] show ?thesis by simp
qed

lemma re_first_digest_end:
  assumes "case d of None \<Rightarrow> True | Some d \<Rightarrow> part_ok [CHR 0x0A] d"
  shows "re_first (Seq digest_rx Eos) (case d of None \<Rightarrow> [] | Some d \<Rightarrow> ''@'' @ d) =
    Some (case d of None \<Rightarrow> [] | Some d \<Rightarrow> [(''digest'', d)], [])"
proof (cases d)
  case None
  then show ?thesis
    using re_first_Seq [OF re_first_Opt_skip, of "lit ''@'' (Group ''digest'' (Plus Dot))" "[]" Eos "[]" "[]"]
    by (simp add: digest_rx_def re_first_Eos)
next
  case (Some v)
  have "re_first (Group ''digest'' (Plus Dot)) (v @ []) = Some ([(''digest'', v)], [])"
    using assms Some by (intro re_first_Group_Plus) (auto simp: part_ok_def list_all_iff)
  then have "re_first digest_rx (''@'' @ v) = Some ([(''digest'', v)], [])"
    unfolding digest_rx_def by (intro re_first_Opt_take) simp
  from re_first_Seq [OF this, of Eos "[]" "[]"] Some show ?thesis by (simp add: re_first_Eos)
qed

lemma re_first_tag_end:
  assumes "case t of None \<Rightarrow> True | Some t \<Rightarrow> part_ok ''@'' t"
    and "case d of None \<Rightarrow> True | Some d \<Rightarrow> part_ok [CHR 0x0A] d"
  shows "re_first (Seq tag_rx (Seq digest_rx Eos))
      ((case t of None \<Rightarrow> [] | Some t \<Rightarrow> '':'' @ t) @ (case d of None \<Rightarrow> [] | Some d \<Rightarrow> ''@'' @ d)) =
    Some ((case t of None \<Rightarrow> [] | Some t \<Rightarrow> [(''tag'', t)]) @
          (case d of None \<Rightarrow> [] | Some d \<Rightarrow> [(''digest'', d)]), [])"
proof (cases t)
  case None
  have "rmatch (lit '':'' (Group ''tag'' (Plus (NoneOf ''@'')))) (case d of None \<Rightarrow> [] | Some d \<Rightarrow> ''@'' @ d) = []"
    by (auto split: option.splits)
  then have "re_first tag_rx (case d of None \<Rightarrow> [] | Some d \<Rightarrow> ''@'' @ d) =
      Some ([], case d of None \<Rightarrow> [] | Some d \<Rightarrow> ''@'' @ d)"
    unfolding tag_rx_def by (rule re_first_Opt_skip)
  from re_first_Seq [OF this re_first_digest_end [OF assms(2)]] None show ?thesis by simp
next
  case (Some v)
  let ?d = "case d of None \<Rightarrow> [] | Some d \<Rightarrow> ''@'' @ d"
  have "re_first (Group ''tag'' (Plus (NoneOf ''@''))) (v @ ?d) = Some ([(''tag'', v)], ?d)"
    using assms(1) Some
    by (intro re_first_Group_Plus) (auto simp: part_ok_def list_all_iff split: option.splits list.splits)
  then have "re_first tag_rx ('':'' @ v @ ?d) = Some ([(''tag'', v)], ?d)"
    unfolding tag_rx_def by (intro re_first_Opt_take) simp
  from re_first_Seq [OF this re_first_digest_end [OF assms(2)]] Some show ?thesis by simp
qed

theorem ref_roundtrip:
  assumes "ref_ok r"
  shows "ref_from_str (ref_to_str r) = Some r"
proof -
  let ?t = "case ref_tag r of None \<Rightarrow> [] | Some t \<Rightarrow> '':'' @ t"
    and ?d = "case ref_digest r of None \<Rightarrow> [] | Some d \<Rightarrow> ''@'' @ d"
  let ?gt = "case ref_tag r of None \<Rightarrow> [] | Some t \<Rightarrow> [(''tag'', t)]"
    and ?gd = "case ref_digest r of None \<Rightarrow> [] | Some d \<Rightarrow> [(''digest'', d)]"
  have parts: "part_ok ''/'' (ref_registry r)" "part_ok '':@'' (ref_repository r)"
    "case ref_tag r of None \<Rightarrow> True | Some t \<Rightarrow> part_ok ''@'' t"
    "case ref_digest r of None \<Rightarrow> True | Some d \<Rightarrow> part_ok [CHR 0x0A] d"
    using assms by (auto simp: ref_ok_def part_ok_def list_all_iff split: option.splits)
  have "re_first (Seq (Group ''repository'' (Plus (NoneOf '':@''))) (Seq tag_rx (Seq digest_rx Eos)))
      (ref_repository r @ ?t @ ?d) = Some ((''repository'', ref_repository r) # ?gt @ ?gd, [])"
    using parts by (intro re_first_part re_first_tag_end) (auto split: option.splits)
  then have "re_first (repository_rx (Seq tag_rx (Seq digest_rx Eos))) (''/'' @ ref_repository r @ ?t @ ?d) =
      Some ((''repository'', ref_repository r) # ?gt @ ?gd, [])"
    by (simp add: repository_rx_def)
  then have "re_first digest_regex (ref_registry r @ ''/'' @ ref_repository r @ ?t @ ?d) =
      Some ((''registry'', ref_registry r) # (''repository'', ref_repository r) # ?gt @ ?gd, [])"
    unfolding digest_regex_def registry_rx_def using parts(1) by (intro re_first_part) auto
  then have "re_match digest_regex (ref_to_str r) =
      Some ((''registry'', ref_registry r) # (''repository'', ref_repository r) # ?gt @ ?gd)"
    by (simp add: re_match_first ref_to_str_def)
  then show ?thesis by (auto simp: ref_from_str_def split: option.splits)
qed

text \<open>What the parser accepts prints back to the input, up to the newline that \<open>$\<close> overlooks.\<close>

lemma star_rests_split: "t \<in> set (star_rests c s) \<Longrightarrow> \<exists>v. s = v @ t \<and> list_all (cmatch c) v"
proof (induction s)
  case Nil
  then show ?case by simp
next
  case (Cons x xs)
  show ?case
  proof (cases "t = x # xs")
    case True
    then show ?thesis by (intro exI [of _ "[]"]) simp
  next
    case False
    then have "cmatch c x" "t \<in> set (star_rests c xs)" using Cons.prems by (auto split: if_splits)
    then obtain v where "xs = v @ t" "list_all (cmatch c) v" using Cons.IH by blast
    with \<open>cmatch c x\<close> show ?thesis by (intro exI [of _ "x # v"]) simp
  qed
qed

lemma group_plus_split:
  assumes "(g, t) \<in> set (rmatch (Group n (Plus c)) s)"
  shows "\<exists>v. s = v @ t \<and> g = [(n, v)] \<and> v \<noteq> [] \<and> list_all (cmatch c) v"
proof -
  obtain x xs where s: "s = x # xs" "cmatch c x" "t \<in> set (star_rests c xs)"
    using assms by (cases s) (auto split: if_splits)
  then obtain v where "xs = v @ t" "list_all (cmatch c) v" using star_rests_split by blast
  with s assms show ?thesis by (intro exI [of _ "x # v"]) auto
qed

lemma seq_split:
  assumes "(g, t) \<in> set (rmatch (Seq r q) s)"
  obtains g1 g2 u where "(g1, u) \<in> set (rmatch r s)" "(g2, t) \<in> set (rmatch q u)" "g = g1 @ g2"
  using assms by auto

lemma lit1_split: "(g, t) \<in> set (rmatch (lit [c] k) s) \<Longrightarrow> \<exists>u. s = c # u \<and> (g, t) \<in> set (rmatch k u)"
  by (cases s) (auto split: if_splits)

lemma opt_part_split:
  assumes "(g, t) \<in> set (rmatch (Opt (lit [c] (Group n (Plus cl)))) s)"
  shows "(g = [] \<and> s = t) \<or> (\<exists>v. s = c # v @ t \<and> g = [(n, v)] \<and> v \<noteq> [] \<and> list_all (cmatch cl) v)"
proof -
  consider "g = []" "s = t" | "(g, t) \<in> set (rmatch (lit [c] (Group n (Plus cl))) s)"
    using assms unfolding rmatch.simps(5) by auto
  then show ?thesis
  proof cases
    case 2
    then obtain u where "s = c # u" "(g, t) \<in> set (rmatch (Group n (Plus cl)) u)" using lit1_split by blast
    then show ?thesis using group_plus_split by fastforce
  qed simp
qed

lemma opt_part_option:
  assumes "(g, t) \<in> set (rmatch (Opt (lit [c] (Group n (Plus cl)))) s)"
  obtains w where "s = (case w of None \<Rightarrow> [] | Some v \<Rightarrow> c # v) @ t"
    "g = (case w of None \<Rightarrow> [] | Some v \<Rightarrow> [(n, v)])"
    "case w of None \<Rightarrow> True | Some v \<Rightarrow> v \<noteq> [] \<and> list_all (cmatch cl) v"
proof (cases "g = [] \<and> s = t")
  case True
  then show ?thesis using that [of None] by simp
next
  case False
  then obtain v where "s = c # v @ t" "g = [(n, v)]" "v \<noteq> []" "list_all (cmatch cl) v"
    using opt_part_split [OF assms] by blast
  then show ?thesis using that [of "Some v"] by simp
qed

theorem ref_parse_print:
  assumes "ref_from_str s = Some r"
  shows "ref_ok r \<and> (s = ref_to_str r \<or> s = ref_to_str r @ [CHR 0x0A])"
proof -
  obtain g where g: "re_match digest_regex s = Some g"
    and r: "r = \<lparr>ref_registry = the (map_of g ''registry''), ref_repository = the (map_of g ''repository''),
                  ref_tag = map_of g ''tag'', ref_digest = map_of g ''digest''\<rparr>"
    using assms by (auto simp: ref_from_str_def split: option.splits)
  obtain t where m: "(g, t) \<in> set (rmatch digest_regex s)"
    using g by (auto simp: re_match_first dest: re_first_in)
  obtain g1 u1 g2 where p1: "(g1, u1) \<in> set (rmatch registry_rx s)"
    "(g2, t) \<in> set (rmatch (repository_rx (Seq tag_rx (Seq digest_rx Eos))) u1)" "g = g1 @ g2"
    using m unfolding digest_regex_def by (rule seq_split)
  obtain u2 where u2: "u1 = CHR ''/'' # u2"
    "(g2, t) \<in> set (rmatch (Seq (Group ''repository'' (Plus (NoneOf '':@''))) (Seq tag_rx (Seq digest_rx Eos))) u2)"
    using p1(2) lit1_split unfolding repository_rx_def by blast
  obtain g3 u3 g4 where p2: "(g3, u3) \<in> set (rmatch (Group ''repository'' (Plus (NoneOf '':@''))) u2)"
    "(g4, t) \<in> set (rmatch (Seq tag_rx (Seq digest_rx Eos)) u3)" "g2 = g3 @ g4"
    using u2(2) by (rule seq_split)
  obtain g5 u4 g6 where p3: "(g5, u4) \<in> set (rmatch tag_rx u3)"
    "(g6, t) \<in> set (rmatch (Seq digest_rx Eos) u4)" "g4 = g5 @ g6"
    using p2(2) by (rule seq_split)
  obtain g7 u5 g8 where p4: "(g7, u5) \<in> set (rmatch digest_rx u4)" "(g8, t) \<in> set (rmatch Eos u5)" "g6 = g7 @ g8"
    using p3(2) by (rule seq_split)
  have eos: "g8 = []" "u5 = t" "t = [] \<or> t = [CHR 0x0A]" using p4(2) by (auto split: if_splits)
  obtain v1 where v1: "s = v1 @ u1" "g1 = [(''registry'', v1)]" "v1 \<noteq> []" "list_all (cmatch (NoneOf ''/'')) v1"
    using group_plus_split p1(1) unfolding registry_rx_def by blast
  obtain v2 where v2: "u2 = v2 @ u3" "g3 = [(''repository'', v2)]" "v2 \<noteq> []" "list_all (cmatch (NoneOf '':@'')) v2"
    using group_plus_split p2(1) by blast
  obtain tg where tg: "u3 = (case tg of None \<Rightarrow> [] | Some v \<Rightarrow> CHR '':'' # v) @ u4"
    "g5 = (case tg of None \<Rightarrow> [] | Some v \<Rightarrow> [(''tag'', v)])"
    "case tg of None \<Rightarrow> True | Some v \<Rightarrow> v \<noteq> [] \<and> list_all (cmatch (NoneOf ''@'')) v"
    by (rule opt_part_option [OF p3(1) [unfolded tag_rx_def]])
  obtain dg where dg: "u4 = (case dg of None \<Rightarrow> [] | Some v \<Rightarrow> CHR ''@'' # v) @ u5"
    "g7 = (case dg of None \<Rightarrow> [] | Some v \<Rightarrow> [(''digest'', v)])"
    "case dg of None \<Rightarrow> True | Some v \<Rightarrow> v \<noteq> [] \<and> list_all (cmatch Dot) v"
    by (rule opt_part_option [OF p4(1) [unfolded digest_rx_def]])
  have g_eq: "g = (''registry'', v1) # (''repository'', v2) # g5 @ g7"
    using p1(3) p2(3) p3(3) p4(3) v1(2) v2(2) eos(1) by simp
  have r_eq: "r = \<lparr>ref_registry = v1, ref_repository = v2, ref_tag = tg, ref_digest = dg\<rparr>"
    unfolding r g_eq tg(2) dg(2) by (cases tg; cases dg) simp_all
  have "ref_ok r"
    using v1(3,4) v2(3,4) tg(3) dg(3) by (cases tg; cases dg) (auto simp: r_eq ref_ok_def part_ok_def list_all_iff)
  moreover have "s = ref_to_str r @ t"
    unfolding v1(1) u2(1) v2(1) tg(1) dg(1) eos(2) r_eq ref_to_str_def by (cases tg; cases dg) simp_all
  ultimately show ?thesis using eos(3) by auto
qed

section \<open>Base64\<close>

text \<open>
  \<open>base64.b64encode\<close> and the lenient \<open>base64.b64decode\<close>, which skips characters outside the
  alphabet, stops at complete padding and rejects an incomplete group.
\<close>

definition b64_char :: "nat \<Rightarrow> char" where
  "b64_char n = (if n < 26 then char_of (n + 65) else if n < 52 then char_of (n + 71)
     else if n < 62 then char_of (n - 4) else if n = 62 then CHR ''+'' else CHR ''/'')"

definition b64_val :: "char \<Rightarrow> nat option" where
  "b64_val c =
     (if is_upper c then Some (of_char c - 65) else if is_lower c then Some (of_char c - 71)
      else if is_digit c then Some (of_char c + 4) else if c = CHR ''+'' then Some 62
      else if c = CHR ''/'' then Some 63 else None)"

fun b64_groups :: "nat list \<Rightarrow> string" where
  "b64_groups [] = []"
| "b64_groups [a] = [b64_char (a div 4), b64_char (a mod 4 * 16), CHR ''='', CHR ''='']"
| "b64_groups [a, b] = [b64_char (a div 4), b64_char (a mod 4 * 16 + b div 16), b64_char (b mod 16 * 4), CHR ''='']"
| "b64_groups (a # b # c # r) =
     b64_char (a div 4) # b64_char (a mod 4 * 16 + b div 16) # b64_char (b mod 16 * 4 + c div 64)
       # b64_char (c mod 64) # b64_groups r"

definition b64encode :: "string \<Rightarrow> string" where
  "b64encode s = b64_groups (map of_char s)"

fun b64_loop :: "nat \<Rightarrow> nat \<Rightarrow> nat \<Rightarrow> string \<Rightarrow> nat list option" where
  "b64_loop quad left pads [] = (if quad = 0 then Some [] else None)"
| "b64_loop quad left pads (c # cs) =
     (if c = CHR ''='' then
        (if 2 \<le> quad then (if 4 \<le> quad + (pads + 1) then Some [] else b64_loop quad left (pads + 1) cs)
         else b64_loop quad left pads cs)
      else case b64_val c of
        None \<Rightarrow> b64_loop quad left pads cs
      | Some v \<Rightarrow>
          (if quad = 0 then b64_loop 1 v 0 cs
           else if quad = 1 then map_option ((#) (left * 4 + v div 16)) (b64_loop 2 (v mod 16) 0 cs)
           else if quad = 2 then map_option ((#) (left * 16 + v div 4)) (b64_loop 3 (v mod 4) 0 cs)
           else map_option ((#) (left * 64 + v)) (b64_loop 0 0 0 cs)))"

definition b64decode :: "string \<Rightarrow> string option" where
  "b64decode s = map_option (map char_of) (b64_loop 0 0 0 s)"

lemma b64_val_char:
  assumes "n < 64"
  shows "b64_val (b64_char n) = Some n" and "b64_char n \<noteq> CHR ''=''"
proof -
  consider "n < 26" | "26 \<le> n" "n < 52" | "52 \<le> n" "n < 62" | "n = 62" | "n = 63"
    using assms by linarith
  then have "b64_val (b64_char n) = Some n \<and> b64_char n \<noteq> CHR ''=''"
  proof cases
    case 1
    then have "of_char (b64_char n) = n + 65" by (simp add: b64_char_def)
    then show ?thesis using 1 by (auto simp: b64_val_def is_upper_iff)
  next
    case 2
    then have "of_char (b64_char n) = n + 71" by (simp add: b64_char_def)
    then show ?thesis using 2 by (auto simp: b64_val_def is_upper_iff is_lower_iff)
  next
    case 3
    then have "of_char (b64_char n) = n - 4" by (simp add: b64_char_def)
    then show ?thesis using 3 by (auto simp: b64_val_def is_upper_iff is_lower_iff is_digit_iff)
  next
    case 4
    then show ?thesis by (simp add: b64_char_def b64_val_def is_upper_iff is_lower_iff is_digit_iff)
  next
    case 5
    then show ?thesis by (simp add: b64_char_def b64_val_def is_upper_iff is_lower_iff is_digit_iff)
  qed
  then show "b64_val (b64_char n) = Some n" and "b64_char n \<noteq> CHR ''=''" by simp_all
qed

lemma b64_loop_val:
  "v < 64 \<Longrightarrow> b64_loop quad left pads (b64_char v # cs) =
     (if quad = 0 then b64_loop 1 v 0 cs
      else if quad = 1 then map_option ((#) (left * 4 + v div 16)) (b64_loop 2 (v mod 16) 0 cs)
      else if quad = 2 then map_option ((#) (left * 16 + v div 4)) (b64_loop 3 (v mod 4) 0 cs)
      else map_option ((#) (left * 64 + v)) (b64_loop 0 0 0 cs))"
  using b64_val_char [of v] by simp

lemma b64_groups_loop: "\<forall>n \<in> set xs. n < 256 \<Longrightarrow> b64_loop 0 0 0 (b64_groups xs) = Some xs"
proof (induction xs rule: b64_groups.induct)
  case 1
  then show ?case by simp
next
  case (2 a)
  then have "a div 4 < 64" "a mod 4 * 16 < 64" by auto
  then show ?case by (simp add: b64_loop_val del: b64_loop.simps(2)) simp
next
  case (3 a b)
  then have "a div 4 < 64" "a mod 4 * 16 + b div 16 < 64" "b mod 16 * 4 < 64" by auto
  moreover have "(a mod 4 * 16 + b div 16) div 16 = a mod 4" "(a mod 4 * 16 + b div 16) mod 16 = b div 16"
    using 3 by auto
  ultimately show ?case by (simp add: b64_loop_val del: b64_loop.simps(2)) simp
next
  case (4 a b c r)
  then have lt: "a div 4 < 64" "a mod 4 * 16 + b div 16 < 64" "b mod 16 * 4 + c div 64 < 64" "c mod 64 < 64" by auto
  have "(a mod 4 * 16 + b div 16) div 16 = a mod 4" "(a mod 4 * 16 + b div 16) mod 16 = b div 16"
    "(b mod 16 * 4 + c div 64) div 4 = b mod 16" "(b mod 16 * 4 + c div 64) mod 4 = c div 64"
    using 4 by auto
  with 4 lt show ?case by (simp add: b64_loop_val del: b64_loop.simps(2))
qed

lemma b64_roundtrip: "b64decode (b64encode s) = Some s"
proof -
  have "b64_loop 0 0 0 (b64_groups (map of_char s)) = Some (map of_char s)"
    by (rule b64_groups_loop) auto
  then show ?thesis by (simp add: b64decode_def b64encode_def comp_def)
qed

section \<open>Credentials\<close>

record docker_credentials =
  cred_username :: string
  cred_password :: string

datatype credential_error = NoAuth | BadBase64 | NoColon

definition credentials_str :: "docker_credentials \<Rightarrow> string" where
  "credentials_str c = b64encode (cred_username c @ '':'' @ cred_password c)"

definition authorization :: "docker_credentials \<Rightarrow> string" where
  "authorization c = ''Basic '' @ credentials_str c"

text \<open>\<open>s.split(sep, 1)\<close> at a separator character that must occur.\<close>

fun split_first :: "char \<Rightarrow> string \<Rightarrow> (string \<times> string) option" where
  "split_first sep [] = None"
| "split_first sep (c # cs) =
     (if c = sep then Some ([], cs) else map_option (\<lambda>(a, b). (c # a, b)) (split_first sep cs))"

lemma split_first_append: "sep \<notin> set a \<Longrightarrow> split_first sep (a @ sep # b) = Some (a, b)"
  by (induction a) auto

definition credentials_from_config :: "(string, string) dict \<Rightarrow> (credential_error, docker_credentials) result" where
  "credentials_from_config config =
     (case map_of config ''auth'' of
        None \<Rightarrow> Inl NoAuth
      | Some auth \<Rightarrow>
          (case b64decode auth of
             None \<Rightarrow> Inl BadBase64
           | Some basic \<Rightarrow>
               (case split_first (CHR '':'') basic of
                  None \<Rightarrow> Inl NoColon
                | Some (u, p) \<Rightarrow> Inr \<lparr>cred_username = u, cred_password = p\<rparr>)))"

definition credentials_to_config :: "docker_credentials \<Rightarrow> (string, string) dict" where
  "credentials_to_config c =
     [(''username'', cred_username c), (''password'', cred_password c), (''auth'', credentials_str c)]"

theorem credentials_roundtrip:
  assumes "CHR '':'' \<notin> set (cred_username c)"
  shows "credentials_from_config (credentials_to_config c) = Inr c"
  using split_first_append [OF assms, of "cred_password c"]
  by (simp add: credentials_from_config_def credentials_to_config_def credentials_str_def b64_roundtrip)

section \<open>The credential store\<close>

type_synonym credential_store = "(string, docker_credentials) dict"

definition store_from_auths :: "(string, (string, string) dict) dict \<Rightarrow> (credential_error, credential_store) result" where
  "store_from_auths auths =
     rmap (\<lambda>(h, config). rbind (credentials_from_config config) (\<lambda>c. Inr (h, c))) auths"

definition store_get :: "string \<Rightarrow> credential_store \<Rightarrow> docker_credentials option" where
  "store_get host st =
     (case map_of st host of
        Some c \<Rightarrow> Some c
      | None \<Rightarrow> map_option snd (find (\<lambda>(domain, _). suffix (''.'' @ domain) host) st))"

definition store_set :: "string \<Rightarrow> docker_credentials \<Rightarrow> credential_store \<Rightarrow> credential_store" where
  "store_set host c st = dset host c st"

definition store_save :: "credential_store \<Rightarrow> (string, (string, string) dict) dict" where
  "store_save st = map (\<lambda>(h, c). (h, credentials_to_config c)) st"

theorem store_roundtrip:
  assumes "\<forall>(h, c) \<in> set st. CHR '':'' \<notin> set (cred_username c)"
  shows "store_from_auths (store_save st) = Inr st"
proof -
  have one: "credentials_from_config (credentials_to_config c) = Inr c" if "(h, c) \<in> set st" for h c
    using that assms split_first_append [of "CHR '':''" "cred_username c" "cred_password c"]
    by (auto simp: credentials_from_config_def credentials_to_config_def credentials_str_def b64_roundtrip)
  have "rmap (\<lambda>(h, config). rbind (credentials_from_config config) (\<lambda>c. Inr (h, c)))
      (map (\<lambda>(h, c). (h, credentials_to_config c)) xs) = Inr xs" if "set xs \<subseteq> set st" for xs
    using that by (induction xs) (auto simp: one)
  then show ?thesis by (simp add: store_from_auths_def store_save_def)
qed

theorem store_get_sound:
  assumes "store_get host st = Some c"
  shows "\<exists>domain. (domain, c) \<in> set st \<and> (host = domain \<or> suffix (''.'' @ domain) host)"
proof (cases "map_of st host")
  case None
  then obtain domain where "find (\<lambda>(domain, _). suffix (''.'' @ domain) host) st = Some (domain, c)"
    using assms by (auto simp: store_get_def)
  from find_SomeD [OF this] show ?thesis by auto
next
  case (Some d)
  then show ?thesis using assms map_of_SomeD [OF Some] by (auto simp: store_get_def)
qed

theorem store_set_get: "store_get host (store_set host c st) = Some c"
  by (simp add: store_get_def store_set_def)

section \<open>Examples\<close>

lemma ref_roundtrip_witness:
  "ref_from_str ''lsst.io/sciplat-lab:w_2021_22'' =
     Some \<lparr>ref_registry = ''lsst.io'', ref_repository = ''sciplat-lab'', ref_tag = Some ''w_2021_22'',
           ref_digest = None\<rparr>"
proof -
  have "ref_ok \<lparr>ref_registry = ''lsst.io'', ref_repository = ''sciplat-lab'', ref_tag = Some ''w_2021_22'',
      ref_digest = None\<rparr>"
    by code_simp
  from ref_roundtrip [OF this] show ?thesis by (simp add: ref_to_str_def)
qed

lemma ref_parse_print_witness:
  "ref_ok (the (ref_from_str ''lsst.io/lab@sha256:01''))"
proof -
  have "ref_from_str ''lsst.io/lab@sha256:01'' =
      Some \<lparr>ref_registry = ''lsst.io'', ref_repository = ''lab'', ref_tag = None,
            ref_digest = Some ''sha256:01''\<rparr>"
    by code_simp
  from ref_parse_print [OF this] this show ?thesis by simp
qed

definition example_credentials :: docker_credentials where
  "example_credentials = \<lparr>cred_username = ''user'', cred_password = ''pass:word''\<rparr>"

lemma credentials_roundtrip_witness:
  "credentials_from_config (credentials_to_config example_credentials) = Inr example_credentials"
  by (rule credentials_roundtrip) (simp add: example_credentials_def)

lemma store_roundtrip_witness:
  "store_from_auths (store_save [(''lsst.io'', example_credentials)]) = Inr [(''lsst.io'', example_credentials)]"
  by (rule store_roundtrip) (simp add: example_credentials_def)

lemma store_get_sound_witness:
  "\<exists>domain. (domain, example_credentials) \<in> set [(''lsst.io'', example_credentials)] \<and>
     (''hub.lsst.io'' = domain \<or> suffix (''.'' @ domain) ''hub.lsst.io'')"
proof -
  have "store_get ''hub.lsst.io'' [(''lsst.io'', example_credentials)] = Some example_credentials"
    by code_simp
  from store_get_sound [OF this] show ?thesis .
qed

end
