(* ===== verification/Async.thy ===== *)
theory Async
  imports Prelude
begin

text \<open>
  Coroutines, as Python's \<open>async\<close> functions are. A coroutine reads and writes the shared state, and
  suspends at every \<open>await\<close>; what it awaits is described by a value of type \<open>'w\<close>, and it goes on
  with an answer, which is a result of type \<open>'v\<close> or an exception. Between two suspensions it runs
  without interruption. The meaning of the awaited things belongs to the program that is modelled.
\<close>

section \<open>Coroutines\<close>

datatype ('s, 'w, 'v, 'e, 'a) proc =
    Ret 'a
  | Raise 'e
  | Get "'s \<Rightarrow> ('s, 'w, 'v, 'e, 'a) proc"
  | Upd "'s \<Rightarrow> 's" "('s, 'w, 'v, 'e, 'a) proc"
  | Await 'w "('e + 'v) \<Rightarrow> ('s, 'w, 'v, 'e, 'a) proc"

primrec bind :: "('s, 'w, 'v, 'e, 'a) proc \<Rightarrow> ('a \<Rightarrow> ('s, 'w, 'v, 'e, 'b) proc) \<Rightarrow> ('s, 'w, 'v, 'e, 'b) proc" where
  "bind (Ret a) f = f a"
| "bind (Raise e) f = Raise e"
| "bind (Get k) f = Get (\<lambda>s. bind (k s) f)"
| "bind (Upd g p) f = Upd g (bind p f)"
| "bind (Await w k) f = Await w (\<lambda>r. bind (k r) f)"

definition seq :: "('s, 'w, 'v, 'e, 'a) proc \<Rightarrow> ('s, 'w, 'v, 'e, 'b) proc \<Rightarrow> ('s, 'w, 'v, 'e, 'b) proc" where
  "seq p q = bind p (\<lambda>_. q)"

text \<open>\<open>try\<close> with a handler for every exception; the handler raises again what it does not handle.\<close>

primrec catch :: "('s, 'w, 'v, 'e, 'a) proc \<Rightarrow> ('e \<Rightarrow> ('s, 'w, 'v, 'e, 'a) proc) \<Rightarrow> ('s, 'w, 'v, 'e, 'a) proc" where
  "catch (Ret a) h = Ret a"
| "catch (Raise e) h = h e"
| "catch (Get k) h = Get (\<lambda>s. catch (k s) h)"
| "catch (Upd g p) h = Upd g (catch p h)"
| "catch (Await w k) h = Await w (\<lambda>r. catch (k r) h)"

text \<open>\<open>try p; except h; else q\<close>: the \<open>else\<close> part runs outside the handler.\<close>

primrec try_else :: "('s, 'w, 'v, 'e, 'a) proc \<Rightarrow> ('e \<Rightarrow> ('s, 'w, 'v, 'e, 'b) proc) \<Rightarrow>
    ('a \<Rightarrow> ('s, 'w, 'v, 'e, 'b) proc) \<Rightarrow> ('s, 'w, 'v, 'e, 'b) proc" where
  "try_else (Ret a) h f = f a"
| "try_else (Raise e) h f = h e"
| "try_else (Get k) h f = Get (\<lambda>s. try_else (k s) h f)"
| "try_else (Upd g p) h f = Upd g (try_else p h f)"
| "try_else (Await w k) h f = Await w (\<lambda>r. try_else (k r) h f)"

definition finally_do :: "('s, 'w, 'v, 'e, 'a) proc \<Rightarrow> ('s, 'w, 'v, 'e, unit) proc \<Rightarrow> ('s, 'w, 'v, 'e, 'a) proc" where
  "finally_do p q = try_else p (\<lambda>e. seq q (Raise e)) (\<lambda>a. seq q (Ret a))"

text \<open>The state as it is now, an assignment, and an \<open>await\<close> that raises what it is answered with.\<close>

definition act :: "('s \<Rightarrow> 's) \<Rightarrow> ('s, 'w, 'v, 'e, unit) proc" where
  "act f = Upd f (Ret ())"

definition reading :: "('s \<Rightarrow> 'a) \<Rightarrow> ('s, 'w, 'v, 'e, 'a) proc" where
  "reading f = Get (\<lambda>s. Ret (f s))"

definition await :: "'w \<Rightarrow> ('s, 'w, 'v, 'e, 'v) proc" where
  "await w = Await w (\<lambda>r. case r of Inl e \<Rightarrow> Raise e | Inr v \<Rightarrow> Ret v)"

definition do_if :: "bool \<Rightarrow> ('s, 'w, 'v, 'e, unit) proc \<Rightarrow> ('s, 'w, 'v, 'e, unit) proc" where
  "do_if b p = (if b then p else Ret ())"

fun for_each :: "'x list \<Rightarrow> ('x \<Rightarrow> ('s, 'w, 'v, 'e, unit) proc) \<Rightarrow> ('s, 'w, 'v, 'e, unit) proc" where
  "for_each [] f = Ret ()"
| "for_each (x # xs) f = seq (f x) (for_each xs f)"

fun collect :: "'x list \<Rightarrow> ('x \<Rightarrow> ('s, 'w, 'v, 'e, 'a) proc) \<Rightarrow> ('s, 'w, 'v, 'e, 'a list) proc" where
  "collect [] f = Ret []"
| "collect (x # xs) f = bind (f x) (\<lambda>a. bind (collect xs f) (\<lambda>as. Ret (a # as)))"

text \<open>\<open>p\<close> with every awaited thing relabelled, as a block that is run under a time limit is.\<close>

primrec relabel :: "('w \<Rightarrow> 'w) \<Rightarrow> ('s, 'w, 'v, 'e, 'a) proc \<Rightarrow> ('s, 'w, 'v, 'e, 'a) proc" where
  "relabel g (Ret a) = Ret a"
| "relabel g (Raise e) = Raise e"
| "relabel g (Get k) = Get (\<lambda>s. relabel g (k s))"
| "relabel g (Upd f p) = Upd f (relabel g p)"
| "relabel g (Await w k) = Await (g w) (\<lambda>r. relabel g (k r))"

section \<open>Execution\<close>

text \<open>Up to the next suspension.\<close>

primrec advance :: "('s, 'w, 'v, 'e, 'a) proc \<Rightarrow> 's \<Rightarrow> 's \<times> ('s, 'w, 'v, 'e, 'a) proc" where
  "advance (Ret a) s = (s, Ret a)"
| "advance (Raise e) s = (s, Raise e)"
| "advance (Get k) s = advance (k s) s"
| "advance (Upd f p) s = advance p (f s)"
| "advance (Await w k) s = (s, Await w k)"

text \<open>
  To the end, with an environment that answers what is awaited and may change the state meanwhile.
\<close>

type_synonym ('s, 'w, 'v, 'e) env = "'w \<Rightarrow> 's \<Rightarrow> 's \<times> ('e + 'v)"

primrec run :: "('s, 'w, 'v, 'e, 'a) proc \<Rightarrow> ('s, 'w, 'v, 'e) env \<Rightarrow> 's \<Rightarrow> 's \<times> ('e + 'a)" where
  "run (Ret a) env s = (s, Inr a)"
| "run (Raise e) env s = (s, Inl e)"
| "run (Get k) env s = run (k s) env s"
| "run (Upd f p) env s = run p env (f s)"
| "run (Await w k) env s = run (k (snd (env w s))) env (fst (env w s))"

named_theorems run_simps \<open>what the combinators of coroutines do\<close>

lemma run_bind [run_simps]:
  "run (bind p f) env s =
     (case run p env s of (s', Inl e) \<Rightarrow> (s', Inl e) | (s', Inr a) \<Rightarrow> run (f a) env s')"
  by (induction p arbitrary: s) simp_all

lemma run_seq [run_simps]:
  "run (seq p q) env s =
     (case run p env s of (s', Inl e) \<Rightarrow> (s', Inl e) | (s', Inr a) \<Rightarrow> run q env s')"
  by (simp add: seq_def run_bind)

lemma run_catch [run_simps]:
  "run (catch p h) env s =
     (case run p env s of (s', Inl e) \<Rightarrow> run (h e) env s' | (s', Inr a) \<Rightarrow> (s', Inr a))"
  by (induction p arbitrary: s) simp_all

lemma run_try_else [run_simps]:
  "run (try_else p h f) env s =
     (case run p env s of (s', Inl e) \<Rightarrow> run (h e) env s' | (s', Inr a) \<Rightarrow> run (f a) env s')"
  by (induction p arbitrary: s) simp_all

lemma run_finally [run_simps]:
  "run (finally_do p q) env s =
     (case run p env s of (s', r) \<Rightarrow>
        (case run q env s' of (s'', Inl e) \<Rightarrow> (s'', Inl e) | (s'', Inr _) \<Rightarrow> (s'', r)))"
  by (simp add: finally_do_def run_try_else run_seq split: prod.split sum.split)

lemma run_act [run_simps]: "run (act f) env s = (f s, Inr ())"
  by (simp add: act_def)

lemma run_reading [run_simps]: "run (reading f) env s = (s, Inr (f s))"
  by (simp add: reading_def)

lemma run_await [run_simps]: "run (await w) env s = env w s"
  by (simp add: await_def split: sum.split prod.split) (metis prod.collapse)

lemma run_do_if [run_simps]: "run (do_if b p) env s = (if b then run p env s else (s, Inr ()))"
  by (simp add: do_if_def)

lemma run_relabel [run_simps]: "run (relabel g p) env s = run p (\<lambda>w. env (g w)) s"
  by (induction p arbitrary: s) simp_all

text \<open>Running is advancing to the suspension and going on from there.\<close>

lemma run_advance: "run p env s = (case advance p s of (s', q) \<Rightarrow> run q env s')"
  by (induction p arbitrary: s) simp_all

section \<open>What a coroutine asks for\<close>

text \<open>
  \<open>asks P A Q p\<close>: whatever the state is and whatever the answers are (exceptions among them satisfy
  \<open>A\<close>), \<open>p\<close> awaits only what satisfies \<open>P\<close> and ends with a result that satisfies \<open>Q\<close>.
\<close>

primrec asks :: "('w \<Rightarrow> bool) \<Rightarrow> ('e \<Rightarrow> bool) \<Rightarrow> ('e + 'a \<Rightarrow> bool) \<Rightarrow> ('s, 'w, 'v, 'e, 'a) proc \<Rightarrow> bool" where
  "asks P A Q (Ret a) = Q (Inr a)"
| "asks P A Q (Raise e) = Q (Inl e)"
| "asks P A Q (Get k) = (\<forall>s. asks P A Q (k s))"
| "asks P A Q (Upd f p) = asks P A Q p"
| "asks P A Q (Await w k) = (P w \<and> (\<forall>r. (\<forall>e. r = Inl e \<longrightarrow> A e) \<longrightarrow> asks P A Q (k r)))"

lemma asks_bind:
  "asks P A M p \<Longrightarrow> (\<And>e. M (Inl e) \<Longrightarrow> Q (Inl e)) \<Longrightarrow> (\<And>a. M (Inr a) \<Longrightarrow> asks P A Q (f a)) \<Longrightarrow> asks P A Q (bind p f)"
  by (induction p) auto

lemma asks_seq:
  "asks P A M p \<Longrightarrow> (\<And>e. M (Inl e) \<Longrightarrow> Q (Inl e)) \<Longrightarrow> (\<And>a. M (Inr a) \<Longrightarrow> asks P A Q q) \<Longrightarrow> asks P A Q (seq p q)"
  unfolding seq_def by (rule asks_bind)

lemma asks_catch:
  "asks P A M p \<Longrightarrow> (\<And>e. M (Inl e) \<Longrightarrow> asks P A Q (h e)) \<Longrightarrow> (\<And>a. M (Inr a) \<Longrightarrow> Q (Inr a)) \<Longrightarrow> asks P A Q (catch p h)"
  by (induction p) auto

lemma asks_try_else:
  "asks P A M p \<Longrightarrow> (\<And>e. M (Inl e) \<Longrightarrow> asks P A Q (h e)) \<Longrightarrow> (\<And>a. M (Inr a) \<Longrightarrow> asks P A Q (f a)) \<Longrightarrow> asks P A Q (try_else p h f)"
  by (induction p) auto

lemma asks_await:
  "P w \<Longrightarrow> (\<And>e. A e \<Longrightarrow> Q (Inl e)) \<Longrightarrow> (\<And>v. Q (Inr v)) \<Longrightarrow> asks P A Q (await w)"
  by (auto simp: await_def split: sum.split)

lemma asks_mono: "asks P A M p \<Longrightarrow> (\<And>r. M r \<Longrightarrow> Q r) \<Longrightarrow> asks P A Q p"
  by (induction p) auto

lemma asks_reading: "(\<And>s. Q (Inr (f s))) \<Longrightarrow> asks P A Q (reading f)"
  by (simp add: reading_def)

lemma asks_act: "Q (Inr ()) \<Longrightarrow> asks P A Q (act f)"
  by (simp add: act_def)

lemma asks_for_each:
  "(\<And>x. x \<in> set xs \<Longrightarrow> asks P A Q (f x)) \<Longrightarrow> Q (Inr ()) \<Longrightarrow> asks P A Q (for_each xs f)"
  by (induction xs) (auto intro: asks_seq)

lemma asks_run:
  "asks P A Q p \<Longrightarrow> (\<And>w s e. snd (env w s) = Inl e \<Longrightarrow> A e) \<Longrightarrow> Q (snd (run p env s))"
  by (induction p arbitrary: s) auto

section \<open>Reasoning under interference\<close>

text \<open>
  \<open>wp\<close> is the weakest condition under which a coroutine, started in \<open>s\<close> in a slice that began in
  \<open>s0\<close>, keeps the invariant and its guarantee at every suspension, suspends only where it may, and
  ends in a state with the postcondition. At a suspension other tasks may change the state as the
  rely allows.
\<close>

locale interference =
  fixes inv :: "'s \<Rightarrow> bool"
    and rely :: "'s \<Rightarrow> 's \<Rightarrow> bool"
    and guar :: "'s \<Rightarrow> 's \<Rightarrow> bool"
    and resume :: "'w \<Rightarrow> 's \<Rightarrow> ('e + 'v) \<Rightarrow> 's \<Rightarrow> bool"
    and may_wait :: "'w \<Rightarrow> 's \<Rightarrow> bool"
  assumes rely_refl: "rely s s"
    and rely_trans: "rely s s1 \<Longrightarrow> rely s1 s2 \<Longrightarrow> rely s s2"
    and guar_refl: "guar s s"
    and may_wait_rely: "may_wait w s \<Longrightarrow> rely s s1 \<Longrightarrow> may_wait w s1"
begin

primrec wp :: "('s, 'w, 'v, 'e, 'a) proc \<Rightarrow> ('e + 'a \<Rightarrow> 's \<Rightarrow> 's \<Rightarrow> bool) \<Rightarrow> 's \<Rightarrow> 's \<Rightarrow> bool" where
  "wp (Ret a) Q s0 s = Q (Inr a) s0 s"
| "wp (Raise e) Q s0 s = Q (Inl e) s0 s"
| "wp (Get k) Q s0 s = wp (k s) Q s0 s"
| "wp (Upd f p) Q s0 s = wp p Q s0 (f s)"
| "wp (Await w k) Q s0 s =
     (inv s \<and> guar s0 s \<and> may_wait w s \<and>
      (\<forall>s1 r s2. rely s s1 \<longrightarrow> inv s1 \<longrightarrow> resume w s1 r s2 \<longrightarrow> wp (k r) Q s2 s2))"

lemma wp_bind:
  "wp (bind p f) Q s0 s = wp p (\<lambda>r s0 s. case r of Inl e \<Rightarrow> Q (Inl e) s0 s | Inr a \<Rightarrow> wp (f a) Q s0 s) s0 s"
  by (induction p arbitrary: s0 s) simp_all

lemma wp_try_else:
  "wp (try_else p h f) Q s0 s =
     wp p (\<lambda>r s0 s. case r of Inl e \<Rightarrow> wp (h e) Q s0 s | Inr a \<Rightarrow> wp (f a) Q s0 s) s0 s"
  by (induction p arbitrary: s0 s) simp_all

lemma wp_catch:
  "wp (catch p h) Q s0 s =
     wp p (\<lambda>r s0 s. case r of Inl e \<Rightarrow> wp (h e) Q s0 s | Inr a \<Rightarrow> Q (Inr a) s0 s) s0 s"
  by (induction p arbitrary: s0 s) simp_all

lemma wp_mono:
  "wp p Q s0 s \<Longrightarrow> (\<And>r s0 s. Q r s0 s \<Longrightarrow> Q' r s0 s) \<Longrightarrow> wp p Q' s0 s"
proof (induction p arbitrary: s0 s)
  case (Get k)
  then show ?case by simp
next
  case (Await w k)
  have "wp (k r) Q' s2 s2" if "rely s s1" "inv s1" "resume w s1 r s2" for s1 r s2
  proof -
    have "wp (k r) Q s2 s2" using Await.prems(1) that by simp
    with Await.prems(2) show ?thesis by (intro Await.IH) auto
  qed
  with Await.prems(1) show ?case by simp
qed simp_all

lemma wp_relabel:
  assumes "\<And>w s r s'. resume (g w) s r s' \<Longrightarrow> resume w s r s'" and "\<And>w s. may_wait w s \<Longrightarrow> may_wait (g w) s"
  shows "wp p Q s0 s \<Longrightarrow> wp (relabel g p) Q s0 s"
proof (induction p arbitrary: s0 s)
  case (Await w k)
  have "wp (relabel g (k r)) Q s2 s2" if "rely s s1" "inv s1" "resume (g w) s1 r s2" for s1 r s2
    using Await.prems that assms(1) [of w s1 r s2] by (intro Await.IH) auto
  with Await.prems assms(2) show ?case by simp
qed simp_all

text \<open>A task that is suspended stays safe while others run.\<close>

definition suspended :: "('s, 'w, 'v, 'e, 'a) proc \<Rightarrow> ('e + 'a \<Rightarrow> 's \<Rightarrow> 's \<Rightarrow> bool) \<Rightarrow> 's \<Rightarrow> bool" where
  "suspended p Q s \<longleftrightarrow>
     (case p of
        Await w k \<Rightarrow> may_wait w s \<and>
          (\<forall>s1 r s2. rely s s1 \<longrightarrow> inv s1 \<longrightarrow> resume w s1 r s2 \<longrightarrow> wp (k r) Q s2 s2)
      | _ \<Rightarrow> True)"

lemma suspended_rely:
  assumes "suspended p Q s" and "rely s s1"
  shows "suspended p Q s1"
proof (cases p)
  case (Await w k)
  then have "may_wait w s" and k: "wp (k r) Q s2 s2" if "rely s s1'" "inv s1'" "resume w s1' r s2" for s1' r s2
    using assms(1) that by (auto simp: suspended_def)
  then show ?thesis
    using Await assms may_wait_rely rely_trans [OF assms(2)] unfolding suspended_def by force
qed (simp_all add: suspended_def)

lemma suspended_wp: "wp p Q s0 s \<Longrightarrow> suspended p Q s"
  by (cases p) (simp_all add: suspended_def)

text \<open>Resuming a task runs it to its next suspension or its end.\<close>

lemma wp_advance: "wp p Q s0 s \<Longrightarrow> wp (snd (advance p s)) Q s0 (fst (advance p s))"
  by (induction p arbitrary: s) simp_all

lemma suspended_resume:
  assumes "suspended (Await w k) Q s" and "inv s" and "resume w s r s1"
  shows "wp (snd (advance (k r) s1)) Q s1 (fst (advance (k r) s1))"
  using assms rely_refl [of s] by (intro wp_advance) (auto simp: suspended_def)

text \<open>
  A triple: from a state with \<open>J\<close> anywhere in a slice, the coroutine is safe and ends with \<open>K\<close>.
\<close>

definition triple ::
  "('s \<Rightarrow> bool) \<Rightarrow> ('s, 'w, 'v, 'e, 'a) proc \<Rightarrow> ('e + 'a \<Rightarrow> 's \<Rightarrow> bool) \<Rightarrow> bool" where
  "triple J p K \<longleftrightarrow>
     (\<forall>s0 s. inv s \<longrightarrow> guar s0 s \<longrightarrow> J s \<longrightarrow> wp p (\<lambda>r s0 s. inv s \<and> guar s0 s \<and> K r s) s0 s)"

lemma tripleI:
  "(\<And>s0 s. inv s \<Longrightarrow> guar s0 s \<Longrightarrow> J s \<Longrightarrow> wp p (\<lambda>r s0 s. inv s \<and> guar s0 s \<and> K r s) s0 s) \<Longrightarrow> triple J p K"
  by (simp add: triple_def)

lemma tripleD:
  "triple J p K \<Longrightarrow> inv s \<Longrightarrow> guar s0 s \<Longrightarrow> J s \<Longrightarrow> wp p (\<lambda>r s0 s. inv s \<and> guar s0 s \<and> K r s) s0 s"
  by (simp add: triple_def)

lemma triple_mono:
  assumes "triple J p K" and "\<And>s. inv s \<Longrightarrow> J' s \<Longrightarrow> J s" and "\<And>r s. inv s \<Longrightarrow> K r s \<Longrightarrow> K' r s"
  shows "triple J' p K'"
  using assms by (intro tripleI wp_mono [OF tripleD [OF assms(1)]]) auto

lemma triple_ex: "(\<And>x. triple (J x) p K) \<Longrightarrow> triple (\<lambda>s. \<exists>x. J x s) p K"
  unfolding triple_def by blast

lemma triple_Ret: "(\<And>s. J s \<Longrightarrow> K (Inr a) s) \<Longrightarrow> triple J (Ret a) K"
  by (simp add: triple_def)

lemma triple_Raise: "(\<And>s. J s \<Longrightarrow> K (Inl e) s) \<Longrightarrow> triple J (Raise e) K"
  by (simp add: triple_def)

lemma triple_bind:
  assumes "triple J p M" and "\<And>a. triple (M (Inr a)) (f a) K" and "\<And>e s. M (Inl e) s \<Longrightarrow> K (Inl e) s"
  shows "triple J (bind p f) K"
  unfolding triple_def wp_bind
  using assms(2,3) by (intro allI impI wp_mono [OF tripleD [OF assms(1)]])
    (auto split: sum.split intro: tripleD)

lemma triple_seq:
  assumes "triple J p M" and "\<And>a. triple (M (Inr a)) q K" and "\<And>e s. M (Inl e) s \<Longrightarrow> K (Inl e) s"
  shows "triple J (seq p q) K"
  unfolding seq_def using assms by (rule triple_bind)

lemma triple_try_else:
  assumes "triple J p M" and "\<And>e. triple (M (Inl e)) (h e) K" and "\<And>a. triple (M (Inr a)) (f a) K"
  shows "triple J (try_else p h f) K"
  unfolding triple_def wp_try_else
  using assms(2,3) by (intro allI impI wp_mono [OF tripleD [OF assms(1)]])
    (auto split: sum.split intro: tripleD)

lemma triple_catch:
  assumes "triple J p M" and "\<And>e. triple (M (Inl e)) (h e) K" and "\<And>a s. M (Inr a) s \<Longrightarrow> K (Inr a) s"
  shows "triple J (catch p h) K"
  unfolding triple_def wp_catch
  using assms(2,3) by (intro allI impI wp_mono [OF tripleD [OF assms(1)]])
    (auto split: sum.split intro: tripleD)

lemma triple_finally:
  assumes "triple J p M" and "\<And>r. triple (M r) q (\<lambda>x s. case x of Inl e \<Rightarrow> K (Inl e) s | Inr _ \<Rightarrow> K r s)"
  shows "triple J (finally_do p q) K"
  unfolding finally_do_def
  by (intro triple_try_else [OF assms(1)] triple_seq [OF assms(2)] triple_Raise triple_Ret) simp_all

lemma triple_reading: "(\<And>s. J s \<Longrightarrow> K (Inr (f s)) s) \<Longrightarrow> triple J (reading f) K"
  by (simp add: triple_def reading_def)

lemma triple_Get:
  assumes "\<And>x. triple (\<lambda>s. J s \<and> f s = x) (g x) K"
  shows "triple J (bind (reading f) g) K"
  unfolding triple_def
proof (intro allI impI)
  fix s0 s
  assume "inv s" "guar s0 s" "J s"
  with tripleD [OF assms [of "f s"], of s s0]
  show "wp (bind (reading f) g) (\<lambda>r s0 s. inv s \<and> guar s0 s \<and> K r s) s0 s" by (simp add: reading_def)
qed

lemma triple_act:
  assumes "\<And>s0 s. inv s \<Longrightarrow> guar s0 s \<Longrightarrow> J s \<Longrightarrow> inv (f s) \<and> guar s0 (f s) \<and> K (Inr ()) (f s)"
  shows "triple J (act f) K"
  using assms by (simp add: triple_def act_def)

lemma triple_await:
  assumes "\<And>s. inv s \<Longrightarrow> J s \<Longrightarrow> may_wait w s"
    and "\<And>s s1 r s2. inv s \<Longrightarrow> J s \<Longrightarrow> rely s s1 \<Longrightarrow> inv s1 \<Longrightarrow> resume w s1 r s2 \<Longrightarrow> inv s2 \<and> K r s2"
  shows "triple J (await w) K"
  unfolding triple_def
proof (intro allI impI)
  fix s0 s
  assume s: "inv s" "guar s0 s" "J s"
  have "wp (case r of Inl e \<Rightarrow> Raise e | Inr v \<Rightarrow> Ret v) (\<lambda>r s0 s. inv s \<and> guar s0 s \<and> K r s) s2 s2"
    if "rely s s1" "inv s1" "resume w s1 r s2" for s1 r s2
    using assms(2) [OF s(1,3) that] guar_refl by (cases r) simp_all
  then show "wp (await w) (\<lambda>r s0 s. inv s \<and> guar s0 s \<and> K r s) s0 s"
    using s assms(1) by (simp add: await_def)
qed

lemma triple_do_if: "triple J p K \<Longrightarrow> (\<And>s. J s \<Longrightarrow> K (Inr ()) s) \<Longrightarrow> triple J (do_if b p) K"
  by (simp add: do_if_def triple_Ret)

lemma triple_relabel:
  assumes "triple J p K"
    and "\<And>w s r s'. resume (g w) s r s' \<Longrightarrow> resume w s r s'" and "\<And>w s. may_wait w s \<Longrightarrow> may_wait (g w) s"
  shows "triple J (relabel g p) K"
  by (rule tripleI, rule wp_relabel [OF assms(2,3)], assumption, assumption, rule tripleD [OF assms(1)])

text \<open>Coroutines that keep a condition, however they end.\<close>

definition keeps :: "('s \<Rightarrow> bool) \<Rightarrow> ('s, 'w, 'v, 'e, 'a) proc \<Rightarrow> bool" where
  "keeps J p \<longleftrightarrow> triple J p (\<lambda>_. J)"

lemma keeps_Ret: "keeps J (Ret a)" and keeps_Raise: "keeps J (Raise e)" and keeps_reading: "keeps J (reading f)"
  by (auto simp: keeps_def intro: triple_Ret triple_Raise triple_reading)

lemma keeps_bind: "keeps J p \<Longrightarrow> (\<And>a. keeps J (f a)) \<Longrightarrow> keeps J (bind p f)"
  unfolding keeps_def by (rule triple_bind)

lemma keeps_seq: "keeps J p \<Longrightarrow> keeps J q \<Longrightarrow> keeps J (seq p q)"
  unfolding keeps_def by (rule triple_seq)

lemma keeps_catch: "keeps J p \<Longrightarrow> (\<And>e. keeps J (h e)) \<Longrightarrow> keeps J (catch p h)"
  unfolding keeps_def by (rule triple_catch)

lemma keeps_try_else: "keeps J p \<Longrightarrow> (\<And>e. keeps J (h e)) \<Longrightarrow> (\<And>a. keeps J (f a)) \<Longrightarrow> keeps J (try_else p h f)"
  unfolding keeps_def by (rule triple_try_else)

lemma keeps_finally: "keeps J p \<Longrightarrow> keeps J q \<Longrightarrow> keeps J (finally_do p q)"
  unfolding finally_do_def by (intro keeps_try_else keeps_seq keeps_Ret keeps_Raise)

lemma keeps_do_if: "keeps J p \<Longrightarrow> keeps J (do_if b p)"
  by (simp add: do_if_def keeps_Ret)

lemma keeps_for_each: "(\<And>x. x \<in> set xs \<Longrightarrow> keeps J (f x)) \<Longrightarrow> keeps J (for_each xs f)"
  by (induction xs) (simp_all add: keeps_Ret keeps_seq)

lemma keeps_collect: "(\<And>x. keeps J (f x)) \<Longrightarrow> keeps J (collect xs f)"
  by (induction xs) (simp_all add: keeps_Ret keeps_bind)

lemma keeps_if: "(b \<Longrightarrow> keeps J p) \<Longrightarrow> (\<not> b \<Longrightarrow> keeps J q) \<Longrightarrow> keeps J (if b then p else q)"
  by simp

lemma keeps_option:
  "keeps J p \<Longrightarrow> (\<And>x. keeps J (f x)) \<Longrightarrow> keeps J (case v of None \<Rightarrow> p | Some x \<Rightarrow> f x)"
  by (cases v) simp_all

lemmas keeps_intros = keeps_Ret keeps_Raise keeps_reading keeps_bind keeps_seq keeps_catch keeps_try_else
  keeps_finally keeps_do_if keeps_for_each keeps_collect keeps_if keeps_option

lemma wp_conj: "wp p Q s0 s \<Longrightarrow> wp p R s0 s \<Longrightarrow> wp p (\<lambda>r s0 s. Q r s0 s \<and> R r s0 s) s0 s"
  by (induction p arbitrary: s0 s) simp_all

lemma triple_conj:
  assumes "triple J p K" and "triple J' p K'"
  shows "triple (\<lambda>s. J s \<and> J' s) p (\<lambda>r s. K r s \<and> K' r s)"
  by (rule tripleI, rule wp_mono [OF wp_conj [OF tripleD [OF assms(1)] tripleD [OF assms(2)]]]) auto

text \<open>A coroutine that runs alone, with answers that the relation allows.\<close>

lemma wp_run:
  assumes "\<And>w s. resume w s (snd (env w s)) (fst (env w s))"
  shows "wp p Q s0 s \<Longrightarrow> \<exists>s0'. Q (snd (run p env s)) s0' (fst (run p env s))"
proof (induction p arbitrary: s0 s)
  case (Await w k)
  then have "wp (k (snd (env w s))) Q (fst (env w s)) (fst (env w s))"
    using assms [of w s] rely_refl [of s] by auto
  from Await.IH [OF _ this] show ?case by simp
qed auto

lemma triple_run:
  assumes "triple J p K" and "\<And>w s. resume w s (snd (env w s)) (fst (env w s))"
    and "inv s" and "J s" and "run p env s = (s', r)"
  shows "inv s' \<and> K r s'"
  using wp_run [OF assms(2) tripleD [OF assms(1,3) guar_refl assms(4)]] assms(5) by simp

end

end
