(* ===== verification/Timeouts.thy ===== *)
theory Timeouts
  imports Async Py_Datetime
begin

text \<open>
  \<open>src/src/nublado/controller/timeout.py\<close>: a limit on the total time of a series of operations. The
  operations are functions of the current time; \<open>None\<close> stands for \<open>ControllerTimeoutError\<close>. A block
  that is run under a time limit waits for everything with the deadline of the limit.
\<close>

record timeout =
  t_start :: datetime
  t_limit :: timedelta

definition new_timeout_at :: "timedelta \<Rightarrow> datetime \<Rightarrow> timeout" where
  "new_timeout_at d n = \<lparr>t_start = n, t_limit = d\<rparr>"

definition deadline :: "timeout \<Rightarrow> datetime" where
  "deadline t = t_start t + t_limit t"

definition elapsed :: "timeout \<Rightarrow> datetime \<Rightarrow> timedelta" where
  "elapsed t n = n - t_start t"

definition left :: "timeout \<Rightarrow> datetime \<Rightarrow> timedelta option" where
  "left t n = (let l = t_limit t - (n - t_start t) in if l \<le> 0 then None else Some l)"

text \<open>
  \<open>partial\<close> looks at the clock twice: for what is left of the parent, and when it makes the child.
\<close>

definition partial :: "timeout \<Rightarrow> timedelta \<Rightarrow> datetime \<Rightarrow> datetime \<Rightarrow> timeout option" where
  "partial t d n n' =
     (if d < 0 then None
      else Some (new_timeout_at (min (t_limit t - (n - t_start t)) d) n'))"

text \<open>
  \<open>Timeout.enforce\<close>, over the clock and the exceptions of a program: the block is woken with an
  exception of its own when the deadline has passed, and time-outs leave it as one exception.
\<close>

definition enforce_in ::
  "('s \<Rightarrow> datetime) \<Rightarrow> (datetime \<Rightarrow> 'w \<Rightarrow> 'w) \<Rightarrow> ('e \<Rightarrow> bool) \<Rightarrow> 'e \<Rightarrow> timeout
     \<Rightarrow> ('s, 'w, 'v, 'e, 'a) proc \<Rightarrow> ('s, 'w, 'v, 'e, 'a) proc" where
  "enforce_in clk timed timed_out failure t p =
     bind (reading clk) (\<lambda>n.
       if left t n = None then Raise failure
       else catch (relabel (timed (deadline t)) p)
         (\<lambda>e. if timed_out e then Raise failure else Raise e))"

text \<open>C38: A partial time limit ends at the earlier of the end of its parent and the time
  asked for, plus the time between the two readings of the clock by which it is made; without time
  between them it ends no later than its parent. What is left of it at any later time is positive,
  at most the time asked for, and in the same sense left of the parent too.\<close>

theorem partial_within:
  assumes "partial t d n n' = Some t'" and "n \<le> n'"
  shows "deadline t' = min (deadline t) (n + d) + (n' - n) \<and>
    (n' \<le> m \<longrightarrow> (case left t' m of
       None \<Rightarrow> min (deadline t) (n + d) + (n' - n) \<le> m
     | Some x \<Rightarrow> 0 < x \<and> x \<le> d \<and> x \<le> deadline t - m + (n' - n) \<and>
         (n' = n \<longrightarrow> (\<exists>y. left t m = Some y \<and> x \<le> y))))"
  using assms
  by (auto simp: partial_def left_def deadline_def new_timeout_at_def Let_def split: if_splits)

text \<open>The child of a limit of ten, made after four with a second look after five, ends at eleven.\<close>

lemma partial_within_witness:
  "deadline (the (partial (new_timeout_at 10 0) 30 4 5)) = 11 \<and> \<not> 11 \<le> deadline (new_timeout_at 10 0)"
  using partial_within [of "new_timeout_at 10 0" 30 4 5 "new_timeout_at 6 5"]
  by (simp add: partial_def new_timeout_at_def deadline_def)

end
