(* ===== verification/Lab_Model.thy ===== *)
theory Lab_Model
  imports Complex_Main Image_Collection
begin

text \<open>
  The models that the lab service works on: \<open>src/src/nublado/controller/models/v1/lab.py\<close>, the
  pod phases of \<open>models/domain/kubernetes.py\<close>, the events of \<open>models/domain/lab.py\<close>, and from
  \<open>config.py\<close> the lab sizes and the validators of the lab configuration. A number of CPUs is a
  \<open>float\<close> in the code, which only compares them; it is a rational here.
\<close>

section \<open>Sizes, phases and statuses\<close>

datatype lab_size = FINE | DIMINUTIVE | TINY | SMALL | MEDIUM | LARGE | HUGE | GARGANTUAN | COLOSSAL | CUSTOM

datatype pod_phase = Pod_PENDING | Pod_RUNNING | Pod_SUCCEEDED | Pod_FAILED | Pod_UNKNOWN

datatype lab_status = PENDING | RUNNING | TERMINATING | TERMINATED | FAILED

fun from_phase :: "pod_phase \<Rightarrow> lab_status" where
  "from_phase Pod_PENDING = PENDING"
| "from_phase Pod_RUNNING = RUNNING"
| "from_phase Pod_SUCCEEDED = TERMINATED"
| "from_phase Pod_FAILED = TERMINATED"
| "from_phase Pod_UNKNOWN = FAILED"

datatype image_class = RECOMMENDED | LATEST_RELEASE | LATEST_WEEKLY | LATEST_DAILY

section \<open>Requests\<close>

text \<open>
  The raw form data: values as JSON gives them. \<open>_validate_lists\<close> drops missing values and takes
  single values out of their lists.
\<close>

datatype json = JNull | JBool bool | JStr string | JList "json list"

datatype value_error =
    TooManyValues string
  | InvalidBoolean
  | NoImage
  | MultipleImages "string list"
  | BadResources
  | MissingPrefix
  | BadConfig string

fun unwrap_value :: "string \<Rightarrow> json \<Rightarrow> (value_error, json option) result" where
  "unwrap_value key JNull = Inr None"
| "unwrap_value key (JList []) = Inr None"
| "unwrap_value key (JList [v]) = Inr (Some v)"
| "unwrap_value key (JList vs) = Inl (TooManyValues key)"
| "unwrap_value key v = Inr (Some v)"

fun validate_lists :: "(string, json) dict \<Rightarrow> (value_error, (string, json) dict) result" where
  "validate_lists [] = Inr []"
| "validate_lists ((k, v) # d) =
     rbind (unwrap_value k v) (\<lambda>w. rbind (validate_lists d) (\<lambda>d'.
       Inr (case w of None \<Rightarrow> d' | Some x \<Rightarrow> (k, x) # d')))"

fun validate_boolean :: "json \<Rightarrow> (value_error, bool) result" where
  "validate_boolean (JBool b) = Inr b"
| "validate_boolean (JStr s) =
     (if s = ''true'' then Inr True else if s = ''false'' then Inr False else Inl InvalidBoolean)"
| "validate_boolean _ = Inl InvalidBoolean"

fun validate_size :: "json \<Rightarrow> json" where
  "validate_size (JStr s) = JStr (map to_lower s)"
| "validate_size v = v"

record lab_request_options =
  req_size :: lab_size
  req_enable_debug :: bool
  req_reset_user_env :: bool
  image_list :: "string option"
  image_dropdown :: "string option"
  req_image_class :: "image_class option"
  image_tag :: "string option"

definition dropdown_sentinel_value :: string where
  "dropdown_sentinel_value = ''use_image_from_dropdown''"

definition image_attribute :: "lab_request_options \<Rightarrow> string" where
  "image_attribute o' =
     (if nonempty (image_list o') then ''image_list''
      else if nonempty (image_dropdown o') then ''image_dropdown''
      else if req_image_class o' \<noteq> None then ''image_class'' else ''image_tag'')"

definition images_set :: "lab_request_options \<Rightarrow> string list" where
  "images_set o' =
     (if req_image_class o' \<noteq> None then [''image_class''] else [])
     @ (if nonempty (image_dropdown o') then [''image_dropdown''] else [])
     @ (if nonempty (image_list o') then [''image_list''] else [])
     @ (if nonempty (image_tag o') then [''image_tag''] else [])"

definition validate_one_image :: "lab_request_options \<Rightarrow> (value_error, lab_request_options) result" where
  "validate_one_image o' =
     (let o1 = (if image_list o' = Some dropdown_sentinel_value then o'\<lparr>image_list := None\<rparr> else o');
          o2 = (if nonempty (image_list o1) then o1\<lparr>image_dropdown := None\<rparr> else o1);
          given = images_set o2
      in if length given < 1 then Inl NoImage
         else if 1 < length given then Inl (MultipleImages given) else Inr o2)"

record lab_specification =
  spec_options :: lab_request_options
  env :: "(string, string) dict"

definition hub_prefix :: string where
  "hub_prefix = ''JUPYTERHUB_SERVICE_PREFIX''"

definition validate_env :: "(string, string) dict \<Rightarrow> (value_error, (string, string) dict) result" where
  "validate_env v = (if hub_prefix \<in> set (dkeys v) then Inr v else Inl MissingPrefix)"

theorem validated_image_unique:
  assumes "validate_one_image o' = Inr r"
  shows "images_set r = [image_attribute r] \<and> image_list r \<noteq> Some dropdown_sentinel_value \<and>
    validate_one_image r = Inr r"
proof -
  have eq: "r = (let o1 = (if image_list o' = Some dropdown_sentinel_value then o'\<lparr>image_list := None\<rparr> else o')
             in if nonempty (image_list o1) then o1\<lparr>image_dropdown := None\<rparr> else o1)"
    and some: "\<not> length (images_set r) < 1" and few: "\<not> 1 < length (images_set r)"
    using assms by (auto simp: validate_one_image_def Let_def split: if_splits)
  have one: "length (images_set r) = 1" using some few by linarith
  from eq have r: "image_list r \<noteq> Some dropdown_sentinel_value" "nonempty (image_list r) \<longrightarrow> image_dropdown r = None"
    by (auto simp: Let_def nonempty_def split: if_splits)
  then have "images_set r = [image_attribute r]"
    using one by (auto simp: images_set_def image_attribute_def nonempty_def split: if_splits)
  moreover have "validate_one_image r = Inr r"
  proof (cases "nonempty (image_list r)")
    case True
    then have "r\<lparr>image_dropdown := None\<rparr> = r" using r(2) by (cases r) simp
    with r(1) some few True show ?thesis by (simp add: validate_one_image_def Let_def)
  next
    case False
    with r(1) some few show ?thesis by (simp add: validate_one_image_def Let_def)
  qed
  ultimately show ?thesis using r(1) by simp
qed

section \<open>Users, resources and lab states\<close>

record user_group =
  group_name :: string
  group_id :: int

record user_info =
  username :: string
  display_name_of :: "string option"
  uid :: int
  gid :: int
  groups :: "user_group list"

text \<open>
  The user as Gafaelfawr reports it, with the notebook part of the quota and the token. What the
  client library computes of these data is a field too: \<open>memory_bytes\<close> of the quota and
  \<open>supplemental_groups\<close> of the user.
\<close>

record notebook_quota =
  quota_cpu :: rat
  quota_memory_gib :: rat
  quota_memory :: int
  quota_spawn :: bool

record gafaelfawr_user =
  g_username :: string
  g_name :: "string option"
  g_uid :: "int option"
  g_gid :: "int option"
  g_groups :: "user_group list"
  g_supplemental_groups :: "int list"
  g_quota :: "notebook_quota option"
  g_token :: string

record resource_quantity =
  cpu :: rat
  memory :: int

record lab_resources =
  limits :: resource_quantity
  requests :: resource_quantity

definition validate_resources :: "lab_resources \<Rightarrow> (value_error, lab_resources) result" where
  "validate_resources r =
     (if cpu (limits r) < cpu (requests r) then Inl BadResources
      else if memory (limits r) < memory (requests r) then Inl BadResources
      else Inr r)"

record lab_size_definition =
  def_size :: lab_size
  def_resources :: lab_resources

record lab_options =
  opt_size :: lab_size
  opt_enable_debug :: bool
  opt_reset_user_env :: bool
  opt_image :: string

record lab_state =
  user :: user_info
  options :: lab_options
  status :: lab_status
  internal_url :: "string option"
  resources :: lab_resources
  quota :: "resource_quantity option"

definition from_request ::
  "user_info \<Rightarrow> notebook_quota option \<Rightarrow> lab_specification \<Rightarrow> rsp_image \<Rightarrow> lab_resources \<Rightarrow> lab_state" where
  "from_request u nq spec img res =
     \<lparr>user = u,
      options = \<lparr>opt_size = req_size (spec_options spec),
                 opt_enable_debug = req_enable_debug (spec_options spec),
                 opt_reset_user_env = req_reset_user_env (spec_options spec),
                 opt_image = reference_with_digest img\<rparr>,
      status = PENDING, internal_url = None, resources = res,
      quota = map_option (\<lambda>q. \<lparr>cpu = quota_cpu q, memory = quota_memory q\<rparr>) nq\<rparr>"

definition is_running :: "lab_state \<Rightarrow> bool" where
  "is_running s \<longleftrightarrow> status s \<noteq> TERMINATED \<and> status s \<noteq> FAILED"

section \<open>Events\<close>

datatype event_type = COMPLETE | ERROR | EV_FAILED | INFO

record event =
  ev_type :: event_type
  message :: string
  progress :: "int option"

definition event_done :: "event \<Rightarrow> bool" where
  "event_done e \<longleftrightarrow> ev_type e = COMPLETE \<or> ev_type e = EV_FAILED"

text \<open>The constraint on the field: a progress is more than 0 and at most 100.\<close>

definition event_ok :: "event \<Rightarrow> bool" where
  "event_ok e \<longleftrightarrow> (case progress e of None \<Rightarrow> True | Some p \<Rightarrow> 0 < p \<and> p \<le> 100)"

section \<open>Configuration\<close>

record lab_secret =
  secret_name :: string
  secret_key :: string
  secret_env :: "string option"
  secret_path :: "string option"

fun validate_secret_keys :: "string list \<Rightarrow> lab_secret list \<Rightarrow> (value_error, unit) result" where
  "validate_secret_keys keys [] = Inr ()"
| "validate_secret_keys keys (s # ss) =
     (if secret_key s = ''token'' then Inl (BadConfig ''token'')
      else if secret_key s \<in> set keys then Inl (BadConfig (secret_key s))
      else validate_secret_keys (secret_key s # keys) ss)"

definition validate_secrets :: "lab_secret list \<Rightarrow> (value_error, lab_secret list) result" where
  "validate_secrets v = rbind (validate_secret_keys [] v) (\<lambda>_. Inr v)"

fun validate_size_names :: "lab_size list \<Rightarrow> lab_size_definition list \<Rightarrow> (value_error, unit) result" where
  "validate_size_names seen [] = Inr ()"
| "validate_size_names seen (d # ds) =
     (if def_size d \<in> set seen then Inl (BadConfig ''size'')
      else validate_size_names (def_size d # seen) ds)"

definition validate_sizes :: "lab_size_definition list \<Rightarrow> (value_error, lab_size_definition list) result" where
  "validate_sizes v =
     (if v = [] then Inl (BadConfig ''sizes'') else rbind (validate_size_names [] v) (\<lambda>_. Inr v))"

definition validate_default_size ::
  "lab_size option \<Rightarrow> lab_size_definition list \<Rightarrow> (value_error, lab_size option) result" where
  "validate_default_size dflt sizes =
     (case dflt of None \<Rightarrow> Inr None
      | Some d \<Rightarrow> if list_ex (\<lambda>s. def_size s = d) sizes then Inr dflt else Inl (BadConfig ''default''))"

definition validate_homedir_prefix :: "string \<Rightarrow> (value_error, string) result" where
  "validate_homedir_prefix v =
     (if \<not> prefix ''/'' v \<or> length v < 2 then Inl (BadConfig ''homedir'') else Inr v)"

definition get_size_definition :: "lab_size_definition list \<Rightarrow> lab_size \<Rightarrow> lab_size_definition option" where
  "get_size_definition sizes s = find (\<lambda>d. def_size d = s) sizes"

lemma validate_secret_keys_ok:
  "validate_secret_keys keys ss = Inr u \<Longrightarrow>
   distinct (map secret_key ss) \<and> (\<forall>s \<in> set ss. secret_key s \<noteq> ''token'' \<and> secret_key s \<notin> set keys)"
proof (induction ss arbitrary: keys)
  case Nil
  then show ?case by simp
next
  case (Cons s ss)
  from Cons.prems have s: "secret_key s \<noteq> ''token''" "secret_key s \<notin> set keys"
    and rest: "validate_secret_keys (secret_key s # keys) ss = Inr u"
    by (auto split: if_splits)
  from Cons.IH [OF rest] s show ?case by auto
qed

lemma validate_secrets_ok:
  "validate_secrets ss = Inr r \<Longrightarrow>
   r = ss \<and> distinct (map secret_key ss) \<and> (\<forall>s \<in> set ss. secret_key s \<noteq> ''token'')"
  using validate_secret_keys_ok [of "[]" ss] by (auto simp: validate_secrets_def rbind_eq_Inr)

lemma validate_size_names_ok:
  "validate_size_names seen ds = Inr u \<Longrightarrow> distinct (map def_size ds) \<and> (\<forall>d \<in> set ds. def_size d \<notin> set seen)"
proof (induction ds arbitrary: seen)
  case Nil
  then show ?case by simp
next
  case (Cons d ds)
  then have "def_size d \<notin> set seen" "validate_size_names (def_size d # seen) ds = Inr u"
    by (auto split: if_splits)
  with Cons.IH [of "def_size d # seen"] show ?case by auto
qed

theorem validated_sizes_lookup:
  assumes "validate_sizes ds = Inr r"
  shows "r = ds \<and> ds \<noteq> [] \<and> (\<forall>d \<in> set ds. get_size_definition ds (def_size d) = Some d)"
proof -
  have ds: "r = ds" "ds \<noteq> []" and names: "distinct (map def_size ds)"
    using assms validate_size_names_ok [of "[]" ds]
    by (auto simp: validate_sizes_def rbind_eq_Inr split: if_splits)
  have "get_size_definition ds (def_size d) = Some d" if "d \<in> set ds" for d
  proof -
    have "find (\<lambda>e. def_size e = def_size d) ds \<noteq> None" using that by (auto simp: find_None)
    then obtain e where e: "find (\<lambda>e. def_size e = def_size d) ds = Some e" by blast
    with find_SomeD [OF e] that names have "e = d" by (auto simp: distinct_map inj_on_def)
    with e show ?thesis by (simp add: get_size_definition_def)
  qed
  with ds show ?thesis by blast
qed

section \<open>Examples\<close>

definition example_options :: lab_request_options where
  "example_options = \<lparr>req_size = SMALL, req_enable_debug = False, req_reset_user_env = False,
     image_list = Some dropdown_sentinel_value, image_dropdown = Some ''lsst.io/lab:w_2021_22'',
     req_image_class = None, image_tag = None\<rparr>"

lemma validated_image_unique_witness:
  "images_set (example_options\<lparr>image_list := None\<rparr>) = [''image_dropdown'']"
proof -
  have "validate_one_image example_options = Inr (example_options\<lparr>image_list := None\<rparr>)" by code_simp
  from validated_image_unique [OF this] show ?thesis
    by (simp add: image_attribute_def example_options_def nonempty_def)
qed

definition example_resources :: "int \<Rightarrow> lab_resources" where
  "example_resources m = \<lparr>limits = \<lparr>cpu = 2, memory = m\<rparr>, requests = \<lparr>cpu = 1, memory = m div 2\<rparr>\<rparr>"

definition example_sizes :: "lab_size_definition list" where
  "example_sizes = [\<lparr>def_size = SMALL, def_resources = example_resources 4096\<rparr>,
     \<lparr>def_size = LARGE, def_resources = example_resources 8192\<rparr>]"

lemma validated_sizes_lookup_witness:
  "get_size_definition example_sizes LARGE = Some \<lparr>def_size = LARGE, def_resources = example_resources 8192\<rparr>"
proof -
  have "validate_sizes example_sizes = Inr example_sizes" by code_simp
  from validated_sizes_lookup [OF this] show ?thesis by (simp add: example_sizes_def)
qed

end
