(* ===== verification/Kube_Models.thy ===== *)
theory Kube_Models
  imports Lab_Model Docker_Model
begin

text \<open>
  \<open>src/src/nublado/controller/models/domain/kubernetes.py\<close>: the rules that place pods on nodes, with
  their validators and their conversion to the classes of the Kubernetes client, and
  \<open>src/src/nublado/controller/storage/kubernetes/node.py\<close>: the cached images of the nodes, and
  which nodes tolerate a pod. The classes of the Kubernetes client are records with the fields that
  the code sets, with the texts of the enumerations.
\<close>

section \<open>Integers as text\<close>

definition dec_int :: "int \<Rightarrow> string" where
  "dec_int i = (if i < 0 then ''-'' @ dec (nat (- i)) else dec (nat i))"

definition show_opt_int :: "int option \<Rightarrow> string" where
  "show_opt_int i = (case i of None \<Rightarrow> ''None'' | Some n \<Rightarrow> dec_int n)"

text \<open>\<open>int(s)\<close>: white space around, a sign, digits with single underscores between them.\<close>

definition is_space :: "char \<Rightarrow> bool" where
  "is_space c \<longleftrightarrow> (of_char c :: nat) \<in> {9, 10, 11, 12, 13, 28, 29, 30, 31, 32}"

definition strip :: "string \<Rightarrow> string" where
  "strip s = rev (dropWhile is_space (rev (dropWhile is_space s)))"

fun underscored :: "bool \<Rightarrow> string \<Rightarrow> bool" where
  "underscored after_digit [] \<longleftrightarrow> after_digit"
| "underscored after_digit (c # cs) \<longleftrightarrow>
     (if is_digit c then underscored True cs else c = CHR ''_'' \<and> after_digit \<and> underscored False cs)"

definition read_digits :: "string \<Rightarrow> nat option" where
  "read_digits s =
     (if underscored False s \<and> length (filter is_digit s) \<le> 4300 then Some (digits_val (filter is_digit s))
      else None)"

definition read_int :: "string \<Rightarrow> int option" where
  "read_int s =
     (case strip s of
        [] \<Rightarrow> None
      | c # r \<Rightarrow>
          if c = CHR ''-'' then map_option (\<lambda>n. - int n) (read_digits r)
          else if c = CHR ''+'' then map_option int (read_digits r)
          else map_option int (read_digits (c # r)))"

section \<open>Selectors\<close>

datatype selector_operator = IN | NOT_IN | EXISTS | DOES_NOT_EXIST | GT | LT

definition selector_operator_value :: "selector_operator \<Rightarrow> string" where
  "selector_operator_value p = (case p of IN \<Rightarrow> ''In'' | NOT_IN \<Rightarrow> ''NotIn'' | EXISTS \<Rightarrow> ''Exists''
     | DOES_NOT_EXIST \<Rightarrow> ''DoesNotExist'' | GT \<Rightarrow> ''Gt'' | LT \<Rightarrow> ''Lt'')"

text \<open>The operators of label selectors are the first four.\<close>

record selector_requirement =
  sr_key :: string
  sr_operator :: selector_operator
  sr_values :: "string list"

definition validate_node_requirement ::
  "selector_requirement \<Rightarrow> (value_error, selector_requirement) result" where
  "validate_node_requirement r =
     (case sr_operator r of
        IN \<Rightarrow> if length (sr_values r) < 1 then Inl (BadConfig ''In'') else Inr r
      | NOT_IN \<Rightarrow> if length (sr_values r) < 1 then Inl (BadConfig ''NotIn'') else Inr r
      | GT \<Rightarrow> if length (sr_values r) \<noteq> 1 then Inl (BadConfig ''Gt'')
              else if read_int (sr_values r ! 0) = None then Inl (BadConfig ''Gt'') else Inr r
      | LT \<Rightarrow> if length (sr_values r) \<noteq> 1 then Inl (BadConfig ''Lt'')
              else if read_int (sr_values r ! 0) = None then Inl (BadConfig ''Lt'') else Inr r
      | EXISTS \<Rightarrow> if sr_values r \<noteq> [] then Inl (BadConfig ''Exists'') else Inr r
      | DOES_NOT_EXIST \<Rightarrow> if sr_values r \<noteq> [] then Inl (BadConfig ''DoesNotExist'') else Inr r)"

definition validate_label_requirement ::
  "selector_requirement \<Rightarrow> (value_error, selector_requirement) result" where
  "validate_label_requirement r =
     (if sr_operator r = GT \<or> sr_operator r = LT then Inl (BadConfig ''operator'')
      else if sr_operator r = IN \<or> sr_operator r = NOT_IN then
        (if length (sr_values r) < 1 then Inl (BadConfig ''In'') else Inr r)
      else if sr_values r \<noteq> [] then Inl (BadConfig ''Exists'') else Inr r)"

record v1_requirement =
  v1_key :: string
  v1_operator :: string
  v1_values :: "string list"

definition requirement_to_kubernetes :: "selector_requirement \<Rightarrow> v1_requirement" where
  "requirement_to_kubernetes r =
     \<lparr>v1_key = sr_key r, v1_operator = selector_operator_value (sr_operator r), v1_values = sr_values r\<rparr>"

text \<open>\<open>xs or None\<close>\<close>

definition or_none :: "'a list \<Rightarrow> 'a list option" where
  "or_none xs = (if xs = [] then None else Some xs)"

record node_selector_term =
  match_expressions :: "selector_requirement list"
  match_fields :: "selector_requirement list"

record v1_node_selector_term =
  v1_match_expressions :: "v1_requirement list option"
  v1_match_fields :: "v1_requirement list option"

definition term_to_kubernetes :: "node_selector_term \<Rightarrow> v1_node_selector_term" where
  "term_to_kubernetes t =
     \<lparr>v1_match_expressions = or_none (map requirement_to_kubernetes (match_expressions t)),
      v1_match_fields = or_none (map requirement_to_kubernetes (match_fields t))\<rparr>"

text \<open>A scheduling term is a node selector term with a weight.\<close>

record node_affinity =
  na_preferred :: "(node_selector_term \<times> int) list"
  na_required :: "node_selector_term list option"

record v1_node_affinity =
  v1_na_preferred :: "(v1_node_selector_term \<times> int) list option"
  v1_na_required :: "v1_node_selector_term list option"

definition preferred_term_to_kubernetes :: "node_selector_term \<times> int \<Rightarrow> v1_node_selector_term \<times> int" where
  "preferred_term_to_kubernetes = (\<lambda>(t, w). (term_to_kubernetes t, w))"

definition node_affinity_to_kubernetes :: "node_affinity \<Rightarrow> v1_node_affinity" where
  "node_affinity_to_kubernetes a =
     \<lparr>v1_na_preferred = or_none (map preferred_term_to_kubernetes (na_preferred a)),
      v1_na_required = map_option (map term_to_kubernetes) (na_required a)\<rparr>"

record label_selector =
  ls_expressions :: "selector_requirement list"
  ls_labels :: "(string, string) dict"

record v1_label_selector =
  v1_ls_expressions :: "v1_requirement list option"
  v1_ls_labels :: "(string, string) dict option"

definition label_selector_to_kubernetes :: "label_selector \<Rightarrow> v1_label_selector" where
  "label_selector_to_kubernetes s =
     \<lparr>v1_ls_expressions = or_none (map requirement_to_kubernetes (ls_expressions s)),
      v1_ls_labels = or_none (ls_labels s)\<rparr>"

record pod_affinity_term =
  pt_label_selector :: "label_selector option"
  pt_namespace_selector :: "label_selector option"
  pt_namespaces :: "string list"
  pt_topology_key :: string

record v1_pod_affinity_term =
  v1_pt_label_selector :: "v1_label_selector option"
  v1_pt_namespace_selector :: "v1_label_selector option"
  v1_pt_namespaces :: "string list option"
  v1_pt_topology_key :: string

definition pod_term_to_kubernetes :: "pod_affinity_term \<Rightarrow> v1_pod_affinity_term" where
  "pod_term_to_kubernetes t =
     \<lparr>v1_pt_label_selector = map_option label_selector_to_kubernetes (pt_label_selector t),
      v1_pt_namespace_selector = map_option label_selector_to_kubernetes (pt_namespace_selector t),
      v1_pt_namespaces = or_none (pt_namespaces t), v1_pt_topology_key = pt_topology_key t\<rparr>"

definition validate_weight :: "int \<Rightarrow> (value_error, int) result" where
  "validate_weight w = (if w < 1 \<or> 100 < w then Inl (BadConfig ''weight'') else Inr w)"

definition weighted_term_to_kubernetes :: "pod_affinity_term \<times> int \<Rightarrow> v1_pod_affinity_term \<times> int" where
  "weighted_term_to_kubernetes = (\<lambda>(t, w). (pod_term_to_kubernetes t, w))"

record pod_affinity =
  pa_preferred :: "(pod_affinity_term \<times> int) list"
  pa_required :: "pod_affinity_term list"

record v1_pod_affinity =
  v1_pa_preferred :: "(v1_pod_affinity_term \<times> int) list option"
  v1_pa_required :: "v1_pod_affinity_term list option"

definition pod_affinity_to_kubernetes :: "pod_affinity \<Rightarrow> v1_pod_affinity" where
  "pod_affinity_to_kubernetes a =
     \<lparr>v1_pa_preferred = or_none (map weighted_term_to_kubernetes (pa_preferred a)),
      v1_pa_required = or_none (map pod_term_to_kubernetes (pa_required a))\<rparr>"

record affinity =
  af_node :: "node_affinity option"
  af_pod :: "pod_affinity option"
  af_anti :: "pod_affinity option"

record v1_affinity =
  v1_af_node :: "v1_node_affinity option"
  v1_af_pod :: "v1_pod_affinity option"
  v1_af_anti :: "v1_pod_affinity option"

definition affinity_to_kubernetes :: "affinity \<Rightarrow> v1_affinity" where
  "affinity_to_kubernetes a =
     \<lparr>v1_af_node = map_option node_affinity_to_kubernetes (af_node a),
      v1_af_pod = map_option pod_affinity_to_kubernetes (af_pod a),
      v1_af_anti = map_option pod_affinity_to_kubernetes (af_anti a)\<rparr>"

section \<open>Tolerations\<close>

datatype taint_effect = NO_SCHEDULE | PREFER_NO_SCHEDULE | NO_EXECUTE

definition taint_effect_value :: "taint_effect \<Rightarrow> string" where
  "taint_effect_value e = (case e of NO_SCHEDULE \<Rightarrow> ''NoSchedule''
     | PREFER_NO_SCHEDULE \<Rightarrow> ''PreferNoSchedule'' | NO_EXECUTE \<Rightarrow> ''NoExecute'')"

datatype toleration_operator = EQUAL | TOL_EXISTS

record toleration =
  tol_effect :: "taint_effect option"
  tol_key :: "string option"
  tol_operator :: toleration_operator
  tol_seconds :: "int option"
  tol_value :: "string option"

definition validate_toleration :: "toleration \<Rightarrow> (value_error, toleration) result" where
  "validate_toleration t =
     (if tol_operator t = TOL_EXISTS then
        (if nonempty (tol_value t) then Inl (BadConfig ''value'') else Inr t)
      else if \<not> nonempty (tol_key t) then Inl (BadConfig ''key'')
      else if \<not> nonempty (tol_value t) then Inl (BadConfig ''value'')
      else Inr t)"

record v1_toleration =
  v1_tol_effect :: "string option"
  v1_tol_key :: "string option"
  v1_tol_operator :: string
  v1_tol_seconds :: "int option"
  v1_tol_value :: "string option"

definition toleration_to_kubernetes :: "toleration \<Rightarrow> v1_toleration" where
  "toleration_to_kubernetes t =
     \<lparr>v1_tol_effect = map_option taint_effect_value (tol_effect t), v1_tol_key = tol_key t,
      v1_tol_operator = (case tol_operator t of EQUAL \<Rightarrow> ''Equal'' | TOL_EXISTS \<Rightarrow> ''Exists''),
      v1_tol_seconds = tol_seconds t, v1_tol_value = tol_value t\<rparr>"

text \<open>What the builders copy into a pod: affinity, node selector and tolerations.\<close>

record scheduling =
  sch_affinity :: "affinity option"
  sch_node_selector :: "(string, string) dict"
  sch_tolerations :: "toleration list"

record v1_scheduling =
  v1_affinity_of :: "v1_affinity option"
  v1_node_selector :: "(string, string) dict option"
  v1_tolerations :: "v1_toleration list"

definition scheduling_to_kubernetes :: "scheduling \<Rightarrow> v1_scheduling" where
  "scheduling_to_kubernetes s =
     \<lparr>v1_affinity_of = map_option affinity_to_kubernetes (sch_affinity s),
      v1_node_selector = or_none (sch_node_selector s),
      v1_tolerations = map toleration_to_kubernetes (sch_tolerations s)\<rparr>"

section \<open>Nodes\<close>

record taint =
  taint_effect_of :: string
  taint_key :: string
  taint_value :: "string option"

record container_status_image =
  image_names :: "string list option"
  size_bytes :: int

record node =
  node_name :: string
  node_taints :: "taint list option"
  node_images :: "container_status_image list option"

record node_image =
  references :: "string list"
  node_image_size :: int

record node_toleration =
  eligible :: bool
  comment :: "string option"

definition from_container_image :: "container_status_image \<Rightarrow> node_image" where
  "from_container_image i = \<lparr>references = the (image_names i), node_image_size = size_bytes i\<rparr>"

fun first_digest :: "string list \<Rightarrow> string option" where
  "first_digest [] = None"
| "first_digest (r # rs) =
     (case ref_from_str r of
        None \<Rightarrow> first_digest rs
      | Some p \<Rightarrow> (case ref_digest p of Some d \<Rightarrow> Some d | None \<Rightarrow> first_digest rs))"

definition node_image_digest :: "node_image \<Rightarrow> string option" where
  "node_image_digest i = first_digest (references i)"

definition get_cached_images :: "node list \<Rightarrow> (string, node_image list) dict" where
  "get_cached_images all_nodes =
     fold (\<lambda>n. dset (node_name n)
       (case node_images n of
          None \<Rightarrow> []
        | Some is \<Rightarrow> map from_container_image
            (filter (\<lambda>i. case image_names i of None \<Rightarrow> False | Some ns \<Rightarrow> ns \<noteq> []) is))) all_nodes []"

definition toleration_matches :: "taint \<Rightarrow> toleration \<Rightarrow> bool" where
  "toleration_matches tn tol =
     (if (case tol_effect tol of None \<Rightarrow> False | Some e \<Rightarrow> taint_effect_value e \<noteq> taint_effect_of tn) then False
      else if tol_seconds tol \<noteq> None \<and> taint_effect_of tn = ''NoExecute'' then False
      else case tol_operator tol of
          TOL_EXISTS \<Rightarrow> if nonempty (tol_key tol) then tol_key tol = Some (taint_key tn) else True
        | EQUAL \<Rightarrow> tol_key tol = Some (taint_key tn) \<and> taint_value tn = tol_value tol)"

definition taint_comment :: "taint \<Rightarrow> string" where
  "taint_comment tn =
     ''Node is tainted ('' @ taint_effect_of tn @ '', '' @
     (if nonempty (taint_value tn) then taint_key tn @ '' = '' @ the (taint_value tn) @ '')''
      else taint_key tn @ '')'')"

fun check_taints :: "toleration list \<Rightarrow> taint list \<Rightarrow> node_toleration" where
  "check_taints tols [] = \<lparr>eligible = True, comment = None\<rparr>"
| "check_taints tols (tn # tns) =
     (if taint_effect_of tn = ''PreferNoSchedule'' then check_taints tols tns
      else if \<not> list_ex (toleration_matches tn) tols then \<lparr>eligible = False, comment = Some (taint_comment tn)\<rparr>
      else check_taints tols tns)"

definition is_tolerated :: "node \<Rightarrow> toleration list \<Rightarrow> node_toleration" where
  "is_tolerated n tols =
     (case node_taints n of
        None \<Rightarrow> \<lparr>eligible = True, comment = None\<rparr>
      | Some tns \<Rightarrow> check_taints tols tns)"

definition node_label_selector :: "(string, string) dict \<Rightarrow> string option" where
  "node_label_selector d =
     (if d = [] then None else Some (str_join '','' (map (\<lambda>(k, v). k @ ''='' @ v) d)))"

section \<open>Eligible nodes\<close>

text \<open>
  The rule of Kubernetes, \<open>ToleratesTaint\<close> of its API: an effect or key of the toleration that is not
  empty is that of the taint, and the values agree, where an absent value is the empty one, unless the
  operator is \<open>Exists\<close>. The rule is about the toleration that the pod is given, and it has no time: a
  toleration for some seconds lets the pod on the node, to be evicted later. A toleration is \<open>lasting\<close> for
  a taint that does not evict, and for one that does when it has no end.
\<close>

definition v1_tolerates :: "v1_toleration \<Rightarrow> taint \<Rightarrow> bool" where
  "v1_tolerates t tn \<longleftrightarrow>
     (let field = (\<lambda>x. case x of None \<Rightarrow> [] | Some s \<Rightarrow> s)
      in field (v1_tol_effect t) \<in> {[], taint_effect_of tn} \<and>
         field (v1_tol_key t) \<in> {[], taint_key tn} \<and>
         (v1_tol_operator t = ''Exists'' \<or>
          v1_tol_operator t \<in> {[], ''Equal''} \<and> field (v1_tol_value t) = field (taint_value tn)))"

definition lasting :: "v1_toleration \<Rightarrow> taint \<Rightarrow> bool" where
  "lasting t tn \<longleftrightarrow> (taint_effect_of tn = ''NoExecute'' \<longrightarrow> v1_tol_seconds t = None)"

text \<open>The taints that keep a pod off the node: all but those that only make the node less preferred.\<close>

definition hard_taints :: "node \<Rightarrow> taint list" where
  "hard_taints n =
     filter (\<lambda>tn. taint_effect_of tn \<noteq> ''PreferNoSchedule'') (case node_taints n of None \<Rightarrow> [] | Some ts \<Rightarrow> ts)"

definition tolerated_by :: "toleration list \<Rightarrow> taint \<Rightarrow> bool" where
  "tolerated_by tols tn \<longleftrightarrow>
     (\<exists>t \<in> set (map toleration_to_kubernetes tols). v1_tolerates t tn \<and> lasting t tn)"

lemma toleration_matches_iff:
  assumes "validate_toleration tol = Inr tol"
  shows "toleration_matches tn tol \<longleftrightarrow>
    v1_tolerates (toleration_to_kubernetes tol) tn \<and> lasting (toleration_to_kubernetes tol) tn"
  using assms
  by (cases "tol_operator tol"; cases "tol_key tol"; cases "tol_effect tol"; cases "tol_value tol")
    (auto simp: toleration_matches_def v1_tolerates_def lasting_def toleration_to_kubernetes_def Let_def taint_effect_value_def
      validate_toleration_def nonempty_def split: taint_effect.splits if_splits option.splits)

lemma matches_tolerated:
  assumes "list_all (\<lambda>tol. validate_toleration tol = Inr tol) tols"
  shows "list_ex (toleration_matches tn) tols \<longleftrightarrow> tolerated_by tols tn"
  using assms by (auto simp: list_ex_iff list_all_iff tolerated_by_def toleration_matches_iff)

lemma check_taints_result:
  assumes "list_all (\<lambda>tol. validate_toleration tol = Inr tol) tols"
  shows "check_taints tols tns =
     (case find (\<lambda>tn. \<not> tolerated_by tols tn) (filter (\<lambda>tn. taint_effect_of tn \<noteq> ''PreferNoSchedule'') tns) of
        None \<Rightarrow> \<lparr>eligible = True, comment = None\<rparr>
      | Some tn \<Rightarrow> \<lparr>eligible = False, comment = Some (taint_comment tn)\<rparr>)"
  by (induction tns) (auto simp: matches_tolerated [OF assms] split: option.split)

text \<open>C37: For tolerations that their validator accepts, a node is eligible exactly when
  each of its taints that keep pods off is tolerated, without an end when the taint evicts, by one
  of the tolerations that the pods are given, where tolerating is the rule of Kubernetes (an empty
  key or effect matches all, an absent value is the empty one); the comment names the first taint
  that is not. A toleration of an evicting taint for some time does not make a node eligible,
  although Kubernetes would place a pod there.\<close>

theorem node_eligible:
  assumes "list_all (\<lambda>tol. validate_toleration tol = Inr tol) tols"
  shows "is_tolerated n tols =
     (case find (\<lambda>tn. \<not> tolerated_by tols tn) (hard_taints n) of
        None \<Rightarrow> \<lparr>eligible = True, comment = None\<rparr>
      | Some tn \<Rightarrow> \<lparr>eligible = False, comment = Some (taint_comment tn)\<rparr>)"
  by (cases "node_taints n") (simp_all add: is_tolerated_def hard_taints_def check_taints_result [OF assms])

text \<open>A toleration that ends does not make a node eligible, although Kubernetes would place the pod there.\<close>

definition example_taint :: taint where
  "example_taint = \<lparr>taint_effect_of = ''NoExecute'', taint_key = ''gpu'', taint_value = Some ''yes''\<rparr>"

definition example_toleration :: toleration where
  "example_toleration = \<lparr>tol_effect = None, tol_key = Some ''gpu'', tol_operator = EQUAL, tol_seconds = Some 60, tol_value = Some ''yes''\<rparr>"

lemma node_eligible_witness:
  "is_tolerated \<lparr>node_name = ''n1'', node_taints = Some [example_taint], node_images = None\<rparr> [example_toleration] =
     \<lparr>eligible = False, comment = Some ''Node is tainted (NoExecute, gpu = yes)''\<rparr> \<and>
   v1_tolerates (toleration_to_kubernetes example_toleration) example_taint"
  using node_eligible [of "[example_toleration]" "\<lparr>node_name = ''n1'', node_taints = Some [example_taint], node_images = None\<rparr>"]
  by (simp add: validate_toleration_def example_toleration_def example_taint_def nonempty_def hard_taints_def tolerated_by_def
      v1_tolerates_def lasting_def toleration_to_kubernetes_def taint_comment_def)

lemma node_image_digest_known:
  "node_image_digest i = Some d \<Longrightarrow> \<exists>r \<in> set (references i). \<exists>p. ref_from_str r = Some p \<and> ref_digest p = Some d"
proof -
  have "first_digest rs = Some d \<Longrightarrow> \<exists>r \<in> set rs. \<exists>p. ref_from_str r = Some p \<and> ref_digest p = Some d" for rs
    by (induction rs rule: first_digest.induct) (auto split: option.splits)
  then show "node_image_digest i = Some d \<Longrightarrow> ?thesis" by (simp add: node_image_digest_def)
qed

end
