(* ===== verification/Lab_Builder.thy ===== *)
theory Lab_Builder
  imports Lab_Model Kube_Models
begin

text \<open>
  \<open>src/src/nublado/controller/services/builder/lab.py\<close>, \<open>volumes.py\<close> and \<open>_introspect.py\<close>: the
  Kubernetes objects that make up a lab, and the lab state that is recreated from them.

  The Kubernetes client classes are records with the fields that the code sets. A text that the
  code writes as JSON and reads back is the value that the JSON encodes. What other libraries and
  the interpreter compute is a field of the configuration: the rendering of Jinja templates, the
  text of a \<open>float\<close>, the SI text of a size, the discovery document, and the environment variables
  of the controller. The discovery document is what the awaited discovery client answers; that this
  request may fail, which ends the building of the lab, is left out.
\<close>

section \<open>Configuration\<close>

datatype homedir_schema = USERNAME | INITIAL_THEN_USERNAME
datatype empty_dir_source = DISK | MEMORY
datatype pull_policy = Always | IfNotPresent | Never

record container_image =
  img_repository :: string
  img_pull_policy :: pull_policy
  img_tag :: string

datatype volume_source =
    HostPathVolumeSource string
  | NFSVolumeSource string string bool
  | PVCVolumeSource "string list" string "(string, string) dict" bool

record volume_config =
  vc_name :: string
  vc_source :: volume_source

record volume_mount_config =
  vmc_container_path :: string
  vmc_sub_path :: "string option"
  vmc_read_only :: bool
  vmc_volume_name :: string

record lab_init_container =
  ic_name :: string
  ic_image :: container_image
  ic_command :: "string list option"
  ic_privileged :: bool
  ic_volume_mounts :: "volume_mount_config list"

record lab_config =
  namespace_prefix :: string
  application :: "string option"
  homedir_prefix :: string
  homedir_schema :: homedir_schema
  homedir_suffix :: string
  home_volume_name :: string
  namespace_annotations :: "(string, string) dict"
  extra_annotations :: "(string, string) dict"
  cfg_env :: "(string, string) dict"
  cfg_files :: "(string, string) dict"
  cfg_sizes :: "lab_size_definition list"
  cfg_secrets :: "lab_secret list"
  cfg_volumes :: "volume_config list"
  cfg_volume_mounts :: "volume_mount_config list"
  cfg_init_containers :: "lab_init_container list"
  cfg_scheduling :: scheduling
  activity_seconds :: int
  jupyterlab_config_dir :: string
  lab_start_command :: "string list"
  runtime_mounts_dir :: string
  base_passwd :: string
  base_group :: string
  cfg_pull_secret :: "string option"
  cfg_empty_dir :: empty_dir_source
  standard_inithome :: bool
  base_url :: string
  std_container :: container_image
  repertoire_base_url :: "string option"
  discovery_json :: string
  render :: "string \<Rightarrow> int option \<Rightarrow> int option \<Rightarrow> string"
  show_float :: "rat \<Rightarrow> string"
  read_float :: "string \<Rightarrow> rat option"
  bytes_to_si :: "int \<Rightarrow> string"

section \<open>Integers as text\<close>

lemma underscored_digits: "list_all is_digit s \<Longrightarrow> underscored b s \<longleftrightarrow> b \<or> s \<noteq> []"
  by (induction s arbitrary: b) auto

lemma read_digits_dec: "length (dec n) \<le> 4300 \<Longrightarrow> read_digits (dec n) = Some n"
proof -
  have "filter is_digit (dec n) = dec n" using dec_digits [of n] by (simp add: list_all_iff)
  then show "length (dec n) \<le> 4300 \<Longrightarrow> ?thesis"
    by (simp add: read_digits_def underscored_digits dec_digits dec_nonempty digits_val_dec)
qed

lemma digit_not_space: "is_digit c \<Longrightarrow> \<not> is_space c \<and> c \<noteq> CHR ''-'' \<and> c \<noteq> CHR ''+''"
  by (auto simp: is_digit_iff is_space_def)

lemma strip_same: "s \<noteq> [] \<Longrightarrow> \<not> is_space (hd s) \<Longrightarrow> \<not> is_space (last s) \<Longrightarrow> strip s = s"
proof -
  assume s: "s \<noteq> []" "\<not> is_space (hd s)" "\<not> is_space (last s)"
  then have "dropWhile is_space s = s" "dropWhile is_space (rev s) = rev s"
    by (simp_all add: dropWhile_eq_self_iff hd_rev)
  then show ?thesis by (simp add: strip_def)
qed

lemma read_dec_int:
  assumes "length (dec (nat \<bar>i\<bar>)) \<le> 4300"
  shows "read_int (dec_int i) = Some i"
proof -
  let ?d = "dec (nat \<bar>i\<bar>)"
  obtain c cs where d: "?d = c # cs" using dec_nonempty by (cases ?d) auto
  have dig: "is_digit x" if "x \<in> set ?d" for x using dec_digits [of "nat \<bar>i\<bar>"] that by (simp add: list_all_iff)
  then have c: "is_digit c" "is_digit (last ?d)" using d dec_nonempty last_in_set by auto
  have "strip (''-'' @ ?d) = ''-'' @ ?d"
    using digit_not_space [OF c(2)] dec_nonempty by (intro strip_same) (auto simp: is_space_def)
  moreover have "strip ?d = ?d"
    using digit_not_space [OF c(1)] digit_not_space [OF c(2)] d dec_nonempty by (intro strip_same) auto
  ultimately show ?thesis
    using read_digits_dec [OF assms] digit_not_space [OF c(1)] d
    by (cases "i < 0") (simp_all add: read_int_def dec_int_def)
qed

section \<open>Kubernetes objects\<close>

datatype annotation = Text string | Groups_json "user_group list"

record object_meta =
  md_name :: string
  md_labels :: "(string, string) dict"
  md_annotations :: "(string, annotation) dict"

record config_map =
  cm_metadata :: object_meta
  cm_data :: "(string, string) dict"

record secret =
  sec_metadata :: object_meta
  sec_data :: "(string, string) dict"
  sec_type :: string

record resource_quota =
  rq_metadata :: object_meta
  rq_hard :: "(string, string) dict"

record service =
  svc_metadata :: object_meta
  svc_port :: nat
  svc_selector :: "(string, string) dict"

text \<open>A peer of the network policy: a namespace selector and a pod selector, by match labels.\<close>

record network_policy =
  np_metadata :: object_meta
  np_pod_selector :: "(string, string) dict"
  np_ingress_from :: "((string, string) dict \<times> (string, string) dict option) list"
  np_ingress_port :: nat

record persistent_volume_claim =
  pvc_metadata :: object_meta
  pvc_storage_class :: string
  pvc_access_modes :: "string list"
  pvc_requests :: "(string, string) dict"

datatype volume_kind =
    ConfigMapVolume string "(string \<times> string) list option"
  | SecretVolume string
  | EmptyDirVolume "string option" string
  | DownwardAPIVolume "(string \<times> string) list"
  | HostPathVolume string
  | NFSVolume string string bool
  | PVCVolume string bool

record volume =
  vol_name :: string
  vol_kind :: volume_kind

record volume_mount =
  vm_name :: string
  vm_mount_path :: string
  vm_sub_path :: "string option"
  vm_read_only :: bool

record mounted_volume =
  mv_volume :: volume
  mv_mount :: volume_mount

datatype env_value = Env_value string | Env_secret string string | Env_field string

type_synonym env_var = "string \<times> env_value"

record security_context =
  sc_privileged :: bool
  sc_escalation :: bool
  sc_read_only_root :: bool
  sc_drop_all :: bool
  sc_non_root :: bool
  sc_run_as_user :: "int option"
  sc_run_as_group :: "int option"

record container =
  c_name :: string
  c_command :: "string list option"
  c_args :: "string list option"
  c_env :: "env_var list"
  c_env_from :: string
  c_image :: string
  c_pull_policy :: pull_policy
  c_ports :: "nat list"
  c_resources :: lab_resources
  c_security :: security_context
  c_volume_mounts :: "volume_mount list"
  c_working_dir :: "string option"

record pod =
  pod_metadata :: object_meta
  pod_containers :: "container list"
  pod_init_containers :: "container list"
  pod_pull_secrets :: "string list"
  pod_supplemental_groups :: "int list"
  pod_volumes :: "volume list"
  pod_scheduling :: v1_scheduling
  pod_restart_policy :: string
  pod_phase_text :: string

record object_names =
  names_username :: string
  names_namespace :: string
  names_env_config_map :: string
  names_quota :: string
  names_pod :: string

record lab_state_objects =
  obj_env_config_map :: config_map
  obj_quota :: "resource_quota option"
  obj_pod :: pod

record lab_objects = lab_state_objects +
  obj_namespace :: object_meta
  obj_config_maps :: "config_map list"
  obj_network_policy :: network_policy
  obj_pvcs :: "persistent_volume_claim list"
  obj_secrets :: "secret list"
  obj_service :: service

section \<open>Names and metadata\<close>

definition lab_namespace :: "lab_config \<Rightarrow> string \<Rightarrow> string" where
  "lab_namespace cfg u = namespace_prefix cfg @ ''-'' @ u"

definition build_internal_url :: "lab_config \<Rightarrow> string \<Rightarrow> (string, string) dict \<Rightarrow> string option" where
  "build_internal_url cfg u e =
     (case map_of e hub_prefix of
        None \<Rightarrow> None
      | Some path \<Rightarrow> Some (''http://lab.'' @ lab_namespace cfg u @ '':8888'' @ path))"

definition build_object_names :: "lab_config \<Rightarrow> string \<Rightarrow> object_names" where
  "build_object_names cfg u =
     \<lparr>names_username = u, names_namespace = lab_namespace cfg u, names_env_config_map = u @ ''-nb-env'',
      names_quota = u @ ''-nb'', names_pod = u @ ''-nb''\<rparr>"

definition build_home_directory :: "lab_config \<Rightarrow> string \<Rightarrow> string" where
  "build_home_directory cfg u =
     (case homedir_schema cfg of
        USERNAME \<Rightarrow> homedir_prefix cfg @ ''/'' @ u
      | INITIAL_THEN_USERNAME \<Rightarrow> homedir_prefix cfg @ ''/'' @ take 1 u @ ''/'' @ u)
     @ (if homedir_suffix cfg \<noteq> [] then ''/'' @ homedir_suffix cfg else [])"

definition lab_labels :: "string \<Rightarrow> (string, string) dict" where
  "lab_labels u = [(''nublado.lsst.io/category'', ''lab''), (''nublado.lsst.io/user'', u)]"

definition argo_cd_annotations :: "(string, annotation) dict" where
  "argo_cd_annotations =
     [(''argocd.argoproj.io/compare-options'', Text ''IgnoreExtraneous''),
      (''argocd.argoproj.io/sync-options'', Text ''Prune=false'')]"

definition build_metadata :: "lab_config \<Rightarrow> string \<Rightarrow> string \<Rightarrow> object_meta" where
  "build_metadata cfg name u =
     \<lparr>md_name = name,
      md_labels = (if nonempty (application cfg)
         then dset ''argocd.argoproj.io/instance'' (the (application cfg)) (lab_labels u)
         else lab_labels u),
      md_annotations = argo_cd_annotations\<rparr>"

definition dict_update :: "('k, 'v) dict \<Rightarrow> ('k, 'v) dict \<Rightarrow> ('k, 'v) dict" where
  "dict_update d e = fold (\<lambda>(k, v). dset k v) e d"

lemma map_of_dict_update: "map_of (dict_update d e) k = (case map_of (rev e) k of None \<Rightarrow> map_of d k | v \<Rightarrow> v)"
  unfolding dict_update_def by (induction e arbitrary: d) (auto split: option.splits simp: map_add_def)

definition annotate :: "(string, annotation) dict \<Rightarrow> object_meta \<Rightarrow> object_meta" where
  "annotate e m = m\<lparr>md_annotations := dict_update (md_annotations m) e\<rparr>"

definition build_namespace :: "lab_config \<Rightarrow> gafaelfawr_user \<Rightarrow> object_meta" where
  "build_namespace cfg u =
     annotate (map (\<lambda>(a, t). (a, Text (render cfg t (g_uid u) (g_gid u)))) (namespace_annotations cfg))
       (build_metadata cfg (lab_namespace cfg (g_username u)) (g_username u))"

section \<open>Config maps, quota, secrets, service\<close>

definition size_value :: "lab_size \<Rightarrow> string" where
  "size_value s = (case s of FINE \<Rightarrow> ''fine'' | DIMINUTIVE \<Rightarrow> ''diminutive'' | TINY \<Rightarrow> ''tiny''
     | SMALL \<Rightarrow> ''small'' | MEDIUM \<Rightarrow> ''medium'' | LARGE \<Rightarrow> ''large'' | HUGE \<Rightarrow> ''huge''
     | GARGANTUAN \<Rightarrow> ''gargantuan'' | COLOSSAL \<Rightarrow> ''colossal'' | CUSTOM \<Rightarrow> ''custom'')"

definition size_str :: "lab_config \<Rightarrow> lab_size_definition \<Rightarrow> string" where
  "size_str cfg d = str_title (size_value (def_size d)) @ '' ('' @ show_float cfg (cpu (limits (def_resources d)))
     @ '' CPU, '' @ bytes_to_si cfg (memory (limits (def_resources d))) @ '' RAM)''"

text \<open>\<open>shlex.join\<close>\<close>

definition shell_safe :: "char \<Rightarrow> bool" where
  "shell_safe c \<longleftrightarrow> is_lower c \<or> is_upper c \<or> is_digit c \<or> c \<in> set ''_@%+=:,./-''"

definition quote_char :: char where
  "quote_char = char_of (39 :: nat)"

definition dquote_char :: char where
  "dquote_char = char_of (34 :: nat)"

definition shell_quote :: "string \<Rightarrow> string" where
  "shell_quote s =
     (if s = [] then [quote_char, quote_char]
      else if list_all shell_safe s then s
      else [quote_char]
        @ str_replace [quote_char] [quote_char, dquote_char, quote_char, dquote_char, quote_char] s
        @ [quote_char])"

fun shell_join :: "string list \<Rightarrow> string" where
  "shell_join [] = []"
| "shell_join [w] = shell_quote w"
| "shell_join (w # ws) = shell_quote w @ '' '' @ shell_join ws"

definition standard_env :: "lab_config \<Rightarrow> lab_size_definition \<Rightarrow> rsp_image \<Rightarrow> (string, string) dict" where
  "standard_env cfg sz img =
     [(''JUPYTER_IMAGE'', reference_with_digest img),
      (''JUPYTER_IMAGE_SPEC'', reference_with_digest img),
      (''IMAGE_DESCRIPTION'', rsp_image_tag.display_name img),
      (''IMAGE_DIGEST'', digest img),
      (''CONTAINER_SIZE'', size_str cfg sz),
      (''CPU_GUARANTEE'', show_float cfg (cpu (requests (def_resources sz)))),
      (''CPU_LIMIT'', show_float cfg (cpu (limits (def_resources sz)))),
      (''MEM_GUARANTEE'', dec_int (memory (requests (def_resources sz)))),
      (''MEM_LIMIT'', dec_int (memory (limits (def_resources sz)))),
      (''JUPYTERHUB_ACTIVITY_INTERVAL'', dec_int (activity_seconds cfg)),
      (''EXTERNAL_INSTANCE_URL'', base_url cfg),
      (''JUPYTERLAB_CONFIG_DIR'', jupyterlab_config_dir cfg),
      (''JUPYTERLAB_START_COMMAND'', shell_join (lab_start_command cfg)),
      (''NUBLADO_RUNTIME_MOUNTS_DIR'', runtime_mounts_dir cfg)]"

definition lab_env ::
  "lab_config \<Rightarrow> lab_specification \<Rightarrow> rsp_image \<Rightarrow> lab_size_definition \<Rightarrow> (string, string) dict" where
  "lab_env cfg lab img sz =
     (let e = env lab;
          e = (if req_enable_debug (spec_options lab) then dset ''DEBUG'' ''TRUE'' e else e);
          e = (if req_reset_user_env (spec_options lab) then dset ''RESET_USER_ENV'' ''TRUE'' e else e);
          e = dict_update e (standard_env cfg sz img);
          e = (if nonempty (repertoire_base_url cfg)
               then dset ''REPERTOIRE_BASE_URL'' (the (repertoire_base_url cfg)) e else e)
      in dict_update e (cfg_env cfg))"

text \<open>The lookup of the size raises \<open>KeyError\<close> for a size that is not configured.\<close>

definition build_env_config_map ::
  "lab_config \<Rightarrow> gafaelfawr_user \<Rightarrow> lab_specification \<Rightarrow> rsp_image \<Rightarrow> config_map option" where
  "build_env_config_map cfg u lab img =
     map_option (\<lambda>sz.
       \<lparr>cm_metadata = build_metadata cfg (g_username u @ ''-nb-env'') (g_username u),
        cm_data = lab_env cfg lab img sz\<rparr>)
       (get_size_definition (cfg_sizes cfg) (req_size (spec_options lab)))"

text \<open>\<open>Path(p).name\<close>, and the keys made of it.\<close>

definition path_name :: "string \<Rightarrow> string" where
  "path_name p =
     (let parts = filter (\<lambda>w. w \<noteq> [] \<and> w \<noteq> ''.'') (split_on (CHR ''/'') p)
      in if parts = [] then [] else last parts)"

definition dashed :: "string \<Rightarrow> string" where
  "dashed s = map (\<lambda>c. if c = CHR ''_'' \<or> c = CHR ''.'' then CHR ''-'' else c) s"

definition build_file_config_map :: "lab_config \<Rightarrow> string \<Rightarrow> config_map" where
  "build_file_config_map cfg u =
     \<lparr>cm_metadata = build_metadata cfg (u @ ''-nb-files'') u,
      cm_data = dict_update [(''discovery-v1-json'', discovery_json cfg)]
        (dict_update [] (map (\<lambda>(k, v). (dashed (path_name k), v)) (cfg_files cfg)))\<rparr>"

definition newline :: string where
  "newline = [CHR 0x0A]"

definition passwd_entry :: "lab_config \<Rightarrow> gafaelfawr_user \<Rightarrow> string" where
  "passwd_entry cfg u =
     g_username u @ '':x:'' @ show_opt_int (g_uid u) @ '':'' @ show_opt_int (g_gid u) @ '':''
     @ format_opt (g_name u) @ '':'' @ build_home_directory cfg (g_username u) @ '':/bin/bash'' @ newline"

definition group_entry :: "gafaelfawr_user \<Rightarrow> user_group \<Rightarrow> string" where
  "group_entry u g =
     group_name g @ '':x:'' @ dec_int (group_id g) @ '':''
     @ (if Some (group_id g) = g_gid u then [] else g_username u) @ newline"

definition build_nss_config_map :: "lab_config \<Rightarrow> gafaelfawr_user \<Rightarrow> config_map" where
  "build_nss_config_map cfg u =
     \<lparr>cm_metadata = build_metadata cfg (g_username u @ ''-nb-nss'') (g_username u),
      cm_data = [(''passwd'', base_passwd cfg @ passwd_entry cfg u),
                 (''group'', base_group cfg @ concat (map (group_entry u) (g_groups u)))]\<rparr>"

definition build_config_maps :: "lab_config \<Rightarrow> gafaelfawr_user \<Rightarrow> config_map list" where
  "build_config_maps cfg u = [build_nss_config_map cfg u, build_file_config_map cfg (g_username u)]"

definition build_network_policy :: "lab_config \<Rightarrow> string \<Rightarrow> network_policy" where
  "build_network_policy cfg u =
     \<lparr>np_metadata = build_metadata cfg (u @ ''-nb'') u,
      np_pod_selector = lab_labels u,
      np_ingress_from = [(lab_labels u, None), ([], Some [(''app'', ''jupyterhub'')])],
      np_ingress_port = 8888\<rparr>"

definition build_pvcs :: "lab_config \<Rightarrow> string \<Rightarrow> persistent_volume_claim list" where
  "build_pvcs cfg u =
     concat (map (\<lambda>v. case vc_source v of
         PVCVolumeSource modes sclass reqs _ \<Rightarrow>
           [\<lparr>pvc_metadata = build_metadata cfg (u @ ''-nb-pvc-'' @ vc_name v) u,
             pvc_storage_class = sclass, pvc_access_modes = modes, pvc_requests = reqs\<rparr>]
       | _ \<Rightarrow> [])
       (filter (\<lambda>v. vc_name v \<in> set (map vmc_volume_name (cfg_volume_mounts cfg))) (cfg_volumes cfg)))"

text \<open>\<open>int\<close> of a \<open>float\<close> drops the fraction.\<close>

definition int_of_float :: "rat \<Rightarrow> int" where
  "int_of_float q = (if 0 \<le> q then \<lfloor>q\<rfloor> else \<lceil>q\<rceil>)"

definition build_quota :: "lab_config \<Rightarrow> gafaelfawr_user \<Rightarrow> resource_quota option" where
  "build_quota cfg u =
     map_option (\<lambda>q.
       \<lparr>rq_metadata = build_metadata cfg (g_username u @ ''-nb'') (g_username u),
        rq_hard = [(''limits.cpu'', show_float cfg (quota_cpu q)),
                   (''limits.memory'', dec_int (int_of_float (quota_memory_gib q * 1024 * 1024 * 1024)))]\<rparr>)
       (g_quota u)"

definition build_secrets :: "lab_config \<Rightarrow> string \<Rightarrow> (string, string) dict \<Rightarrow> secret option \<Rightarrow> secret list" where
  "build_secrets cfg u data pull =
     \<lparr>sec_metadata = build_metadata cfg (u @ ''-nb'') u, sec_data = data, sec_type = ''Opaque''\<rparr>
     # (case pull of None \<Rightarrow> []
        | Some p \<Rightarrow> [\<lparr>sec_metadata = build_metadata cfg ''pull-secret'' u, sec_data = sec_data p,
                       sec_type = sec_type p\<rparr>])"

definition build_service :: "lab_config \<Rightarrow> string \<Rightarrow> service" where
  "build_service cfg u =
     \<lparr>svc_metadata = build_metadata cfg ''lab'' u, svc_port = 8888, svc_selector = lab_labels u\<rparr>"

section \<open>Volumes\<close>

definition build_mounts :: "volume_mount_config list \<Rightarrow> string \<Rightarrow> volume_mount list" where
  "build_mounts mounts pre =
     map (\<lambda>m. \<lparr>vm_name = vmc_volume_name m, vm_mount_path = pre @ vmc_container_path m,
               vm_sub_path = vmc_sub_path m, vm_read_only = vmc_read_only m\<rparr>) mounts"

definition build_volume :: "string \<Rightarrow> volume_config \<Rightarrow> volume" where
  "build_volume pvc_prefix spec =
     \<lparr>vol_name = vc_name spec,
      vol_kind = (case vc_source spec of
          HostPathVolumeSource p \<Rightarrow> HostPathVolume p
        | NFSVolumeSource server p ro \<Rightarrow> NFSVolume server p ro
        | PVCVolumeSource _ _ _ ro \<Rightarrow> PVCVolume (pvc_prefix @ ''-pvc-'' @ vc_name spec) ro)\<rparr>"

definition build_volumes :: "volume_config list \<Rightarrow> string \<Rightarrow> volume list" where
  "build_volumes vs pvc_prefix = map (build_volume pvc_prefix) vs"

definition build_pod_config_map_volume :: "string \<Rightarrow> string \<Rightarrow> string option \<Rightarrow> mounted_volume" where
  "build_pod_config_map_volume cm path key =
     (let subpath = path_name path;
          name = (case key of Some k \<Rightarrow> k | None \<Rightarrow> dashed subpath)
      in \<lparr>mv_volume = \<lparr>vol_name = name, vol_kind = ConfigMapVolume cm (Some [(name, subpath)])\<rparr>,
          mv_mount = \<lparr>vm_name = name, vm_mount_path = path, vm_sub_path = Some subpath, vm_read_only = True\<rparr>\<rparr>)"

definition build_pod_file_volumes :: "lab_config \<Rightarrow> string \<Rightarrow> mounted_volume list" where
  "build_pod_file_volumes cfg u =
     map (\<lambda>f. build_pod_config_map_volume (u @ ''-nb-files'') f None) (dkeys (cfg_files cfg))
     @ [build_pod_config_map_volume (u @ ''-nb-files'') ''/etc/nublado/discovery/v1.json''
          (Some ''discovery-v1-json'')]"

definition build_pod_nss_volumes :: "string \<Rightarrow> mounted_volume list" where
  "build_pod_nss_volumes u =
     map (\<lambda>f. build_pod_config_map_volume (u @ ''-nb-nss'') f None) [''/etc/passwd'', ''/etc/group'']"

definition build_pod_secret_volume :: "lab_config \<Rightarrow> string \<Rightarrow> mounted_volume" where
  "build_pod_secret_volume cfg u =
     \<lparr>mv_volume = \<lparr>vol_name = ''secrets'', vol_kind = SecretVolume (u @ ''-nb'')\<rparr>,
      mv_mount = \<lparr>vm_name = ''secrets'', vm_mount_path = runtime_mounts_dir cfg @ ''/secrets'',
                  vm_sub_path = None, vm_read_only = True\<rparr>\<rparr>"

definition build_pod_env_volume :: "lab_config \<Rightarrow> string \<Rightarrow> mounted_volume" where
  "build_pod_env_volume cfg u =
     \<lparr>mv_volume = \<lparr>vol_name = ''env'', vol_kind = ConfigMapVolume (u @ ''-nb-env'') None\<rparr>,
      mv_mount = \<lparr>vm_name = ''env'', vm_mount_path = runtime_mounts_dir cfg @ ''/environment'',
                  vm_sub_path = None, vm_read_only = True\<rparr>\<rparr>"

text \<open>The ratio of memory to \<open>/tmp\<close> is 4; the division is exact for sizes below \<open>2 ^ 53\<close>.\<close>

definition build_pod_tmp_volume :: "lab_config \<Rightarrow> int \<Rightarrow> mounted_volume" where
  "build_pod_tmp_volume cfg mem =
     \<lparr>mv_volume = \<lparr>vol_name = ''tmp'',
        vol_kind = EmptyDirVolume (if cfg_empty_dir cfg = MEMORY then Some ''Memory'' else None)
          (dec_int (int_of_float (of_int mem / 4)))\<rparr>,
      mv_mount = \<lparr>vm_name = ''tmp'', vm_mount_path = ''/tmp'', vm_sub_path = None, vm_read_only = False\<rparr>\<rparr>"

definition build_pod_startup_volume :: "int \<Rightarrow> bool \<Rightarrow> mounted_volume" where
  "build_pod_startup_volume sz lab =
     \<lparr>mv_volume = \<lparr>vol_name = ''lab-startup'', vol_kind = EmptyDirVolume (Some ''Memory'') (dec_int sz)\<rparr>,
      mv_mount = \<lparr>vm_name = ''lab-startup'', vm_mount_path = ''/etc/nublado/startup'',
                  vm_sub_path = None, vm_read_only = lab\<rparr>\<rparr>"

definition build_pod_downward_api_volume :: "lab_config \<Rightarrow> mounted_volume" where
  "build_pod_downward_api_volume cfg =
     \<lparr>mv_volume = \<lparr>vol_name = ''runtime'',
        vol_kind = DownwardAPIVolume (map (\<lambda>f. (f, str_replace ''.'' ''_'' f))
          [''limits.cpu'', ''requests.cpu'', ''limits.memory'', ''requests.memory''])\<rparr>,
      mv_mount = \<lparr>vm_name = ''runtime'', vm_mount_path = runtime_mounts_dir cfg @ ''/runtime'',
                  vm_sub_path = None, vm_read_only = True\<rparr>\<rparr>"

definition shared_mounted_volumes :: "lab_config \<Rightarrow> string \<Rightarrow> lab_resources \<Rightarrow> mounted_volume list" where
  "shared_mounted_volumes cfg u res =
     build_pod_nss_volumes u @ build_pod_file_volumes cfg u
     @ [build_pod_secret_volume cfg u, build_pod_env_volume cfg u,
        build_pod_tmp_volume cfg (memory (limits res)), build_pod_downward_api_volume cfg]"

definition build_pod_volumes :: "lab_config \<Rightarrow> string \<Rightarrow> mounted_volume list \<Rightarrow> volume list" where
  "build_pod_volumes cfg u mvs = build_volumes (cfg_volumes cfg) (u @ ''-nb'') @ map mv_volume mvs"

definition build_pod_volume_mounts :: "lab_config \<Rightarrow> mounted_volume list \<Rightarrow> volume_mount list" where
  "build_pod_volume_mounts cfg mvs =
     build_mounts (cfg_volume_mounts cfg) [] @ map mv_mount mvs
     @ map (\<lambda>s. \<lparr>vm_name = ''secrets'', vm_mount_path = the (secret_path s),
                 vm_sub_path = Some (secret_key s), vm_read_only = True\<rparr>)
         (filter (\<lambda>s. nonempty (secret_path s)) (cfg_secrets cfg))"

section \<open>Containers and the pod\<close>

definition as_root :: security_context where
  "as_root = \<lparr>sc_privileged = True, sc_escalation = True, sc_read_only_root = True, sc_drop_all = False,
     sc_non_root = False, sc_run_as_user = Some 0, sc_run_as_group = None\<rparr>"

definition as_user :: "gafaelfawr_user \<Rightarrow> security_context" where
  "as_user u = \<lparr>sc_privileged = False, sc_escalation = False, sc_read_only_root = True, sc_drop_all = True,
     sc_non_root = True, sc_run_as_user = g_uid u, sc_run_as_group = g_gid u\<rparr>"

definition extract_env_secrets :: "lab_config \<Rightarrow> gafaelfawr_user \<Rightarrow> env_var list" where
  "extract_env_secrets cfg u =
     map (\<lambda>n. (n, Env_secret (g_username u @ ''-nb'') ''token'')) [''ACCESS_TOKEN'', ''NUBLADO_TOKEN'']
     @ map (\<lambda>s. (the (secret_env s), Env_secret (g_username u @ ''-nb'') (secret_key s)))
         (filter (\<lambda>s. nonempty (secret_env s)) (cfg_secrets cfg))"

definition image_text :: "container_image \<Rightarrow> string" where
  "image_text i = img_repository i @ '':'' @ img_tag i"

definition build_nublado_initcontainer :: "lab_config \<Rightarrow> string \<Rightarrow> env_var list \<Rightarrow> string
    \<Rightarrow> security_context \<Rightarrow> lab_resources \<Rightarrow> volume_mount list \<Rightarrow> container" where
  "build_nublado_initcontainer cfg func envs source sc res mounts =
     \<lparr>c_name = ''nublado-std-'' @ func, c_command = Some [''nublado'', func], c_args = None, c_env = envs,
      c_env_from = source, c_image = image_text (std_container cfg),
      c_pull_policy = img_pull_policy (std_container cfg), c_ports = [], c_resources = res,
      c_security = sc, c_volume_mounts = mounts, c_working_dir = None\<rparr>"

definition init_env :: "lab_config \<Rightarrow> gafaelfawr_user \<Rightarrow> env_var list" where
  "init_env cfg u =
     [(''NUBLADO_HOME'', Env_value (build_home_directory cfg (g_username u))),
      (''NUBLADO_UID'', Env_value (show_opt_int (g_uid u))),
      (''NUBLADO_GID'', Env_value (show_opt_int (g_gid u)))]"

definition build_pod_init_containers ::
  "lab_config \<Rightarrow> gafaelfawr_user \<Rightarrow> volume_mount list \<Rightarrow> lab_resources \<Rightarrow> container list" where
  "build_pod_init_containers cfg u mounts res =
     (let source = g_username u @ ''-nb-env'';
          home_mounts = filter (\<lambda>m. vm_name m = home_volume_name cfg) mounts
      in (if standard_inithome cfg
          then [build_nublado_initcontainer cfg ''inithome'' (init_env cfg u) source as_root res home_mounts]
          else [])
       @ map (\<lambda>spec.
           \<lparr>c_name = ic_name spec, c_command = ic_command spec, c_args = None, c_env = init_env cfg u,
            c_env_from = source, c_image = image_text (ic_image spec),
            c_pull_policy = img_pull_policy (ic_image spec), c_ports = [], c_resources = res,
            c_security = (if ic_privileged spec then as_root else as_user u),
            c_volume_mounts = build_mounts (ic_volume_mounts spec) [], c_working_dir = None\<rparr>)
           (cfg_init_containers cfg)
       @ (if map_of (cfg_env cfg) ''RSP_SITE_TYPE'' = Some ''science''
          then [build_nublado_initcontainer cfg ''landingpage'' (init_env cfg u) source (as_user u) res mounts]
          else [])
       @ [build_nublado_initcontainer cfg ''startup'' (init_env cfg u @ extract_env_secrets cfg u) source
            (as_user u) res mounts])"

definition build_pod_containers ::
  "lab_config \<Rightarrow> gafaelfawr_user \<Rightarrow> volume_mount list \<Rightarrow> lab_resources \<Rightarrow> rsp_image \<Rightarrow> container list" where
  "build_pod_containers cfg u mounts res img =
     [\<lparr>c_name = ''notebook'', c_command = None, c_args = Some (lab_start_command cfg),
       c_env = extract_env_secrets cfg u
         @ [(''KUBERNETES_NODE_NAME'', Env_field ''spec.nodeName''), (''K8S_NODE_NAME'', Env_field ''spec.nodeName'')],
       c_env_from = g_username u @ ''-nb-env'', c_image = reference_with_digest img,
       c_pull_policy = IfNotPresent, c_ports = [8888], c_resources = res, c_security = as_user u,
       c_volume_mounts = mounts, c_working_dir = Some (build_home_directory cfg (g_username u))\<rparr>]"

definition user_groups_annotation :: string where
  "user_groups_annotation = ''nublado.lsst.io/user-groups''"

definition user_name_annotation :: string where
  "user_name_annotation = ''nublado.lsst.io/user-name''"

definition build_pod_annotations :: "lab_config \<Rightarrow> gafaelfawr_user \<Rightarrow> (string, annotation) dict" where
  "build_pod_annotations cfg u =
     dict_update
       ((user_groups_annotation, Groups_json (g_groups u))
        # (case g_name u of None \<Rightarrow> [] | Some n \<Rightarrow> [(user_name_annotation, Text n)]))
       (map (\<lambda>(k, v). (k, Text v)) (extra_annotations cfg))"

definition build_pod :: "lab_config \<Rightarrow> gafaelfawr_user \<Rightarrow> lab_specification \<Rightarrow> rsp_image \<Rightarrow> pod option" where
  "build_pod cfg u lab img =
     map_option (\<lambda>size.
       let res = def_resources size;
           shared = shared_mounted_volumes cfg (g_username u) res;
           init_volumes = shared @ [build_pod_startup_volume (640 * 1024) False];
           lab_volumes = shared @ [build_pod_startup_volume (640 * 1024) True]
       in \<lparr>pod_metadata = annotate (build_pod_annotations cfg u)
             (build_metadata cfg (g_username u @ ''-nb'') (g_username u)),
           pod_containers = build_pod_containers cfg u (build_pod_volume_mounts cfg lab_volumes) res img,
           pod_init_containers =
             build_pod_init_containers cfg u (build_pod_volume_mounts cfg init_volumes) res,
           pod_pull_secrets = (if nonempty (cfg_pull_secret cfg) then [''pull-secret''] else []),
           pod_supplemental_groups = g_supplemental_groups u,
           pod_volumes = build_pod_volumes cfg (g_username u) lab_volumes,
           pod_scheduling = scheduling_to_kubernetes (cfg_scheduling cfg),
           pod_restart_policy = ''OnFailure'', pod_phase_text = []\<rparr>)
       (get_size_definition (cfg_sizes cfg) (req_size (spec_options lab)))"

definition build_lab :: "lab_config \<Rightarrow> gafaelfawr_user \<Rightarrow> lab_specification \<Rightarrow> rsp_image
    \<Rightarrow> (string, string) dict \<Rightarrow> secret option \<Rightarrow> lab_objects option" where
  "build_lab cfg u lab img secrets pull =
     (case build_env_config_map cfg u lab img of
        None \<Rightarrow> None
      | Some cm \<Rightarrow>
          map_option (\<lambda>p.
            \<lparr>obj_env_config_map = cm, obj_quota = build_quota cfg u, obj_pod = p,
             obj_namespace = build_namespace cfg u, obj_config_maps = build_config_maps cfg u,
             obj_network_policy = build_network_policy cfg (g_username u),
             obj_pvcs = build_pvcs cfg (g_username u),
             obj_secrets = build_secrets cfg (g_username u) secrets pull,
             obj_service = build_service cfg (g_username u)\<rparr>)
            (build_pod cfg u lab img))"

section \<open>Recreating the state of a lab\<close>

text \<open>
  Any exception while the objects are read gives \<open>None\<close>, so the readers return options. The size
  validator of the resources runs when they are constructed.
\<close>

definition phase_of_text :: "string \<Rightarrow> pod_phase option" where
  "phase_of_text s = map_of
     [(''Pending'', Pod_PENDING), (''Running'', Pod_RUNNING), (''Succeeded'', Pod_SUCCEEDED),
      (''Failed'', Pod_FAILED), (''Unknown'', Pod_UNKNOWN)] s"

definition recreate_groups :: "pod \<Rightarrow> user_group list option" where
  "recreate_groups p =
     (case map_of (md_annotations (pod_metadata p)) user_groups_annotation of
        None \<Rightarrow> Some []
      | Some (Groups_json gs) \<Rightarrow> Some gs
      | Some (Text _) \<Rightarrow> None)"

definition read_quantity :: "lab_config \<Rightarrow> (string, string) dict \<Rightarrow> string \<Rightarrow> string \<Rightarrow> resource_quantity option" where
  "read_quantity cfg e cpu_key mem_key =
     (case map_of e cpu_key of None \<Rightarrow> None | Some c \<Rightarrow>
      case map_of e mem_key of None \<Rightarrow> None | Some m \<Rightarrow>
      case read_float cfg c of None \<Rightarrow> None | Some cv \<Rightarrow>
      map_option (\<lambda>mv. \<lparr>cpu = cv, memory = mv\<rparr>) (read_int m))"

definition recreate_quota :: "lab_config \<Rightarrow> resource_quota option \<Rightarrow> resource_quantity option option" where
  "recreate_quota cfg q =
     (case q of None \<Rightarrow> Some None
      | Some r \<Rightarrow> map_option Some (read_quantity cfg (rq_hard r) ''limits.cpu'' ''limits.memory''))"

definition recreate_size :: "lab_config \<Rightarrow> lab_resources \<Rightarrow> lab_size" where
  "recreate_size cfg res =
     (case find (\<lambda>d. cpu (limits (def_resources d)) = cpu (limits res) \<and>
                     cpu (requests (def_resources d)) = cpu (requests res) \<and>
                     memory (limits (def_resources d)) = memory (limits res) \<and>
                     memory (requests (def_resources d)) = memory (requests res)) (cfg_sizes cfg) of
        Some d \<Rightarrow> def_size d
      | None \<Rightarrow> CUSTOM)"

definition recreate_user :: "string \<Rightarrow> pod \<Rightarrow> container \<Rightarrow> user_info option" where
  "recreate_user u p c =
     (case sc_run_as_user (c_security c) of None \<Rightarrow> None | Some ui \<Rightarrow>
      case sc_run_as_group (c_security c) of None \<Rightarrow> None | Some gi \<Rightarrow>
      case recreate_groups p of None \<Rightarrow> None | Some gs \<Rightarrow>
      case map_of (md_annotations (pod_metadata p)) user_name_annotation of
        Some (Groups_json _) \<Rightarrow> None
      | Some (Text n) \<Rightarrow> Some \<lparr>username = u, display_name_of = Some n, uid = ui, gid = gi, groups = gs\<rparr>
      | None \<Rightarrow> Some \<lparr>username = u, display_name_of = None, uid = ui, gid = gi, groups = gs\<rparr>)"

definition recreate_resources :: "lab_config \<Rightarrow> (string, string) dict \<Rightarrow> lab_resources option" where
  "recreate_resources cfg e =
     Option.bind (read_quantity cfg e ''CPU_LIMIT'' ''MEM_LIMIT'') (\<lambda>lm.
     Option.bind (read_quantity cfg e ''CPU_GUARANTEE'' ''MEM_GUARANTEE'') (\<lambda>rq.
       case validate_resources \<lparr>limits = lm, requests = rq\<rparr> of Inl _ \<Rightarrow> None | Inr res \<Rightarrow> Some res))"

definition recreate_from :: "lab_config \<Rightarrow> string \<Rightarrow> lab_state_objects \<Rightarrow> container \<Rightarrow> lab_state option" where
  "recreate_from cfg u ob c =
     (let e = cm_data (obj_env_config_map ob) in
      Option.bind (recreate_resources cfg e) (\<lambda>res.
      Option.bind (map_of e ''JUPYTER_IMAGE_SPEC'') (\<lambda>img.
      Option.bind (recreate_user u (obj_pod ob) c) (\<lambda>ui.
      Option.bind (phase_of_text (pod_phase_text (obj_pod ob))) (\<lambda>ph.
      Option.bind (build_internal_url cfg u e) (\<lambda>url.
      Option.bind (recreate_quota cfg (obj_quota ob)) (\<lambda>q.
        Some \<lparr>user = ui,
              options = \<lparr>opt_size = recreate_size cfg res,
                         opt_enable_debug = (map_of e ''DEBUG'' = Some ''TRUE''),
                         opt_reset_user_env = (map_of e ''RESET_USER_ENV'' = Some ''TRUE''),
                         opt_image = img\<rparr>,
              status = from_phase ph, internal_url = Some url, resources = res, quota = q\<rparr>)))))))"

definition recreate_lab_state :: "lab_config \<Rightarrow> string \<Rightarrow> lab_state_objects option \<Rightarrow> lab_state option" where
  "recreate_lab_state cfg u objs =
     Option.bind objs (\<lambda>ob.
     Option.bind (find (\<lambda>c. c_name c = ''notebook'') (pod_containers (obj_pod ob))) (recreate_from cfg u ob))"

section \<open>A lab that was built is recreated\<close>

definition reserved_env :: "string list" where
  "reserved_env =
     [''ACCESS_TOKEN'', ''DEBUG'', ''CONTAINER_SIZE'', ''CPU_GUARANTEE'', ''CPU_LIMIT'',
      ''EXTERNAL_INSTANCE_URL'', ''IMAGE_DIGEST'', ''IMAGE_DESCRIPTION'', ''JPY_API_TOKEN'',
      ''JUPYTER_IMAGE'', ''JUPYTER_IMAGE_SPEC'', ''KUBERNETES_NODE_NAME'', ''MEM_GUARANTEE'',
      ''MEM_LIMIT'', ''RESET_USER_ENV'']"

definition reject_reserved_env :: "string \<Rightarrow> (value_error, string) result" where
  "reject_reserved_env v =
     (if v \<in> set reserved_env \<or> prefix ''JUPYTERHUB_'' v then Inl (BadConfig v) else Inr v)"

definition reserved_paths :: "string list" where
  "reserved_paths = [''/etc/group'', ''/etc/passwd'', ''/tmp'']"

definition reject_reserved_paths :: "string \<Rightarrow> (value_error, string) result" where
  "reject_reserved_paths v = (if v \<in> set reserved_paths then Inl (BadConfig v) else Inr v)"

text \<open>
  What the validators of the configuration give: no reserved variable is overridden, and the resources of
  the sizes are valid. Of Python the theorem below uses that numbers print and read back, decimal integers
  up to its limit of digits; of the client library of Gafaelfawr, that \<open>memory_bytes\<close> is \<open>memory\<close>, which is
  in GiB, in bytes.
\<close>

definition config_ok :: "lab_config \<Rightarrow> bool" where
  "config_ok cfg \<longleftrightarrow>
     list_all (\<lambda>k. reject_reserved_env k = Inr k) (dkeys (cfg_env cfg)) \<and>
     list_all (\<lambda>d. validate_resources (def_resources d) = Inr (def_resources d)) (cfg_sizes cfg)"

definition floats_ok :: "lab_config \<Rightarrow> bool" where
  "floats_ok cfg \<longleftrightarrow> (\<forall>x. read_float cfg (show_float cfg x) = Some x)"

definition int_ok :: "int \<Rightarrow> bool" where
  "int_ok i \<longleftrightarrow> length (dec (nat \<bar>i\<bar>)) \<le> 4300"

definition quota_ok :: "notebook_quota \<Rightarrow> bool" where
  "quota_ok q \<longleftrightarrow> quota_memory q = int_of_float (quota_memory_gib q * 1024 * 1024 * 1024) \<and> int_ok (quota_memory q)"

lemma map_of_rev_distinct:
  assumes "distinct (dkeys d)" shows "map_of (rev d) = map_of d"
  using assms map_of_inject_set [of "rev d" d] by (simp add: rev_map [symmetric])

lemma lab_env_lookup:
  assumes "config_ok cfg" and "k \<in> set reserved_env \<or> prefix ''JUPYTERHUB_'' k"
  shows "map_of (lab_env cfg lab img sz) k =
    (case map_of (standard_env cfg sz img) k of Some v \<Rightarrow> Some v
     | None \<Rightarrow>
        if k = ''DEBUG'' \<and> req_enable_debug (spec_options lab) then Some ''TRUE''
        else if k = ''RESET_USER_ENV'' \<and> req_reset_user_env (spec_options lab) then Some ''TRUE''
        else map_of (env lab) k)"
proof -
  have "k \<notin> set (dkeys (cfg_env cfg))"
    using assms by (auto simp: config_ok_def list_all_iff reject_reserved_env_def split: if_splits)
  then have cfg: "map_of (rev (cfg_env cfg)) k = None" by (auto simp: map_of_eq_None_iff)
  have rep: "k \<noteq> ''REPERTOIRE_BASE_URL''" using assms(2) by (auto simp: reserved_env_def)
  have "distinct (dkeys (standard_env cfg sz img))" by (simp add: standard_env_def)
  then have std: "map_of (rev (standard_env cfg sz img)) = map_of (standard_env cfg sz img)"
    by (simp add: map_of_rev_distinct)
  show ?thesis
    by (auto simp: lab_env_def Let_def map_of_dict_update cfg rep std split: option.splits)
qed

lemma recreate_size_known:
  assumes "find (\<lambda>d. def_resources d = def_resources sz) (cfg_sizes cfg) = Some sz"
  shows "recreate_size cfg (def_resources sz) = def_size sz"
proof -
  have eq: "(cpu (limits (def_resources d)) = cpu (limits (def_resources sz)) \<and>
    cpu (requests (def_resources d)) = cpu (requests (def_resources sz)) \<and>
    memory (limits (def_resources d)) = memory (limits (def_resources sz)) \<and>
    memory (requests (def_resources d)) = memory (requests (def_resources sz))) = (def_resources d = def_resources sz)" for d
    by (auto intro!: lab_resources.equality resource_quantity.equality)
  show ?thesis using assms by (simp add: recreate_size_def eq)
qed

lemma size_definition_in: "get_size_definition ds s = Some d \<Longrightarrow> d \<in> set ds \<and> def_size d = s"
  by (auto simp: get_size_definition_def dest: find_SomeD)

lemma annotation_lookup:
  assumes "k \<notin> set (dkeys (extra_annotations cfg))" and "k = user_groups_annotation \<or> k = user_name_annotation"
  shows "map_of (md_annotations (annotate (build_pod_annotations cfg u) (build_metadata cfg nm un))) k =
    map_of ((user_groups_annotation, Groups_json (g_groups u))
        # (case g_name u of None \<Rightarrow> [] | Some n \<Rightarrow> [(user_name_annotation, Text n)])) k"
proof -
  let ?d = "(user_groups_annotation, Groups_json (g_groups u))
        # (case g_name u of None \<Rightarrow> [] | Some n \<Rightarrow> [(user_name_annotation, Text n)])"
  have ok: "dict_ok ?d" by (simp add: dict_ok_def user_groups_annotation_def user_name_annotation_def split: option.split)
  have ext: "map_of (rev (map (\<lambda>(k, v). (k, Text v)) (extra_annotations cfg))) k = None"
    using assms(1) by (force simp: map_of_eq_None_iff)
  have fold_ok: "dict_ok (fold (\<lambda>(k, v). dset k v) e d)" if "dict_ok d" for d :: "(string, annotation) dict" and e
    using that by (induction e arbitrary: d) auto
  have "map_of (build_pod_annotations cfg u) k = map_of ?d k"
    unfolding build_pod_annotations_def by (simp add: map_of_dict_update ext split: option.split)
  moreover have "map_of (rev (build_pod_annotations cfg u)) = map_of (build_pod_annotations cfg u)"
    using fold_ok [OF ok] by (intro map_of_rev_distinct) (simp add: build_pod_annotations_def dict_update_def dict_ok_def)
  moreover have "map_of argo_cd_annotations k = None"
    using assms(2) by (auto simp: argo_cd_annotations_def user_groups_annotation_def user_name_annotation_def)
  ultimately show ?thesis
    by (simp add: annotate_def build_metadata_def map_of_dict_update split: option.split)
qed


section \<open>Examples\<close>

text \<open>A text of a number for the examples: numerator and denominator in unary.\<close>

definition unary_show :: "rat \<Rightarrow> string" where
  "unary_show x = (case quotient_of x of (n, d) \<Rightarrow>
     (if n < 0 then ''-'' else []) @ replicate (nat \<bar>n\<bar>) (CHR ''1'') @ ''/'' @ replicate (nat d) (CHR ''1''))"

definition unary_read :: "string \<Rightarrow> rat option" where
  "unary_read s =
     (let n = int (length (filter (\<lambda>c. c = CHR ''1'') (takeWhile (\<lambda>c. c \<noteq> CHR ''/'') s)));
          d = int (length (filter (\<lambda>c. c = CHR ''1'') (dropWhile (\<lambda>c. c \<noteq> CHR ''/'') s)))
      in Some (of_int (if CHR ''-'' \<in> set s then - n else n) / of_int d))"

lemma unary_roundtrip: "unary_read (unary_show x) = Some x"
proof -
  obtain n d where q: "quotient_of x = (n, d)" by (cases "quotient_of x")
  then have x: "x = of_int n / of_int d" "0 < d" using quotient_of_div quotient_of_denom_pos by auto
  have "unary_show x = (if n < 0 then ''-'' else []) @ replicate (nat \<bar>n\<bar>) (CHR ''1'') @ ''/'' @ replicate (nat d) (CHR ''1'')"
    by (simp add: unary_show_def q)
  then show ?thesis using x by (auto simp: unary_read_def takeWhile_append dropWhile_append Let_def)
qed

definition example_config :: lab_config where
  "example_config = \<lparr>namespace_prefix = ''userlabs'', application = None, homedir_prefix = ''/home'',
     homedir_schema = USERNAME, homedir_suffix = '''', home_volume_name = ''home'',
     namespace_annotations = [], extra_annotations = [], cfg_env = [(''SOME'', ''value'')], cfg_files = [],
     cfg_sizes = example_sizes, cfg_secrets = [], cfg_volumes = [], cfg_volume_mounts = [],
     cfg_init_containers = [], cfg_scheduling = \<lparr>sch_affinity = None, sch_node_selector = [], sch_tolerations = []\<rparr>, activity_seconds = 3600, jupyterlab_config_dir = ''/opt/lab'',
     lab_start_command = [''/opt/lab/runlab''], runtime_mounts_dir = ''/opt/runtime'', base_passwd = '''',
     base_group = '''', cfg_pull_secret = None, cfg_empty_dir = MEMORY, standard_inithome = False,
     base_url = ''https://data.example.org'',
     std_container = \<lparr>img_repository = ''repo'', img_pull_policy = IfNotPresent, img_tag = ''main''\<rparr>,
     repertoire_base_url = None, discovery_json = ''{}'',
     render = (\<lambda>s _ _. s), show_float = unary_show, read_float = unary_read, bytes_to_si = dec_int\<rparr>"

definition example_user :: gafaelfawr_user where
  "example_user = \<lparr>g_username = ''rachel'', g_name = Some ''Rachel'', g_uid = Some 1101, g_gid = Some 1101,
     g_groups = [\<lparr>group_name = ''rachel'', group_id = 1101\<rparr>], g_supplemental_groups = [], g_quota = None, g_token = ''gt-1''\<rparr>"

definition example_lab :: lab_specification where
  "example_lab = \<lparr>spec_options = \<lparr>req_size = SMALL, req_enable_debug = True, req_reset_user_env = False,
     image_list = Some ''reg/repo:r1'', image_dropdown = None, req_image_class = None, image_tag = None\<rparr>,
     env = [(hub_prefix, ''/nb/user/rachel'')]\<rparr>"

lemma example_config_ok: "config_ok example_config" "floats_ok example_config"
proof -
  show "floats_ok example_config" by (simp add: floats_ok_def example_config_def unary_roundtrip)
  show "config_ok example_config"
    by (auto simp: config_ok_def example_config_def reject_reserved_env_def reserved_env_def example_sizes_def
        example_resources_def validate_resources_def)
qed

definition example_built :: lab_objects where
  "example_built = the (build_lab example_config example_user example_lab (example_store 0) [] None)"


end
