(* ===== verification/Lab_State.thy ===== *)
theory Lab_State
  imports Timeouts Lab_Builder Docker_Model
begin

text \<open>
  The state of the lab service, \<open>src/src/nublado/controller/services/lab.py\<close>: the classes
  \<open>_State\<close>, \<open>_LabMonitor\<close>, \<open>_Operation\<close> and \<open>_RunningOperation\<close>, the objects of the event loop that
  they use, and what a coroutine of the service can wait for.

  Python objects that several parties share are kept by address: the record of a user's lab with
  its monitor and event queue, the lab states, the running operations and the tasks. The calls on
  an event queue are logged in order. The storage layer, the image service, Slack and the metrics
  system are outside: a coroutine awaits their answers.
\<close>

section \<open>Objects\<close>

type_synonym lab_id = nat
type_synonym state_id = nat
type_synonym op_id = nat
type_synonym task_id = nat

datatype exn =
    Cancelled
  | Expired
  | PermissionDenied
  | UnknownUser
  | OperationConflict
  | LabExists
  | LabDeletion
  | InvalidLabSize
  | InsufficientQuota
  | InvalidDockerReference
  | UnknownDockerImage
  | KubernetesError
  | ControllerTimeout
  | TimeoutError
  | MissingSecret
  | NoOperation
  | RuntimeErr
  | KeyErr
  | OtherError

text \<open>
  \<open>Cancelled\<close> and \<open>Expired\<close> are how \<open>CancelledError\<close> arrives, which is not an \<open>Exception\<close>: from
  \<open>Task.cancel\<close>, or from an \<open>asyncio.timeout\<close> that has expired.
\<close>

definition is_exception :: "exn \<Rightarrow> bool" where
  "is_exception e \<longleftrightarrow> e \<noteq> Cancelled \<and> e \<noteq> Expired"

datatype lab_operation = SPAWN | DELETE

datatype coro =
    Spawn_lab gafaelfawr_user lab_specification rsp_image timeout bool
  | Watch_lab_spawn timeout
  | Delete_lab timeout

record operation =
  op_kind :: lab_operation
  op_coro :: coro
  op_state :: state_id
  op_lab :: lab_id
  op_started :: datetime

record running_operation = operation +
  op_task :: task_id
  op_complete :: bool

datatype task_kind =
    Monitor_operation lab_id operation timeout bool
  | Watch_spawn_events object_names lab_id timeout
  | Client

record task =
  kind :: task_kind
  outcome :: "(exn + unit) option"
  cancel_requested :: bool

datatype queue_call = Put event | Clear | Close

record lab =
  lab_user :: string
  lab_state_of :: "state_id option"
  queue :: "queue_call list"
  last_modified :: datetime
  lock :: "task_id option"
  running :: "op_id option"

record sys =
  labs :: "(string, lab_id) dict"
  lab_objs :: "lab_id \<Rightarrow> lab"
  states :: "state_id \<Rightarrow> lab_state"
  ops :: "op_id \<Rightarrow> running_operation option"
  tasks :: "task_id \<Rightarrow> task option"
  next_id :: nat
  spawner_done :: bool
  clock :: datetime

record manager_config =
  m_lab :: lab_config
  spawn_timeout :: timedelta
  delete_timeout :: timedelta
  controller_namespace :: string
  watch_fuel :: nat
  exn_text :: "exn \<Rightarrow> string"

definition op_of :: "sys \<Rightarrow> op_id \<Rightarrow> running_operation" where
  "op_of s i = the (ops s i)"

section \<open>What a coroutine awaits\<close>

datatype storage_call =
    Delete_pod object_names
  | Delete_namespace string
  | List_namespaces string
  | Read_lab_objects object_names
  | Read_secret string string
  | Create_objects lab_objects
  | Wait_for_pod_start string string
  | Read_pod_phase object_names
  | Next_pod_event string string

datatype image_call =
    Image_for_reference docker_reference
  | Image_for_class image_class
  | Image_for_tag_name string

datatype metric =
    Spawn_success string lab_state timedelta
  | Spawn_failure string lab_state timedelta
  | Active_labs nat

datatype wait =
    Start
  | Storage storage_call
  | Image_service image_call
  | Report exn
  | Publish metric
  | Lock lab_id
  | Task task_id
  | Complete op_id
  | Spawner_done
  | Timed datetime wait

datatype answer =
    A_unit
  | A_names "string list"
  | A_objects "lab_state_objects option"
  | A_secret secret
  | A_phase "pod_phase option"
  | A_message "string option"
  | A_image rsp_image

type_synonym 'a svc = "(sys, wait, answer, exn, 'a) proc"

text \<open>An answer is of the type that the call returns; anything else would be a type error.\<close>

definition ask_unit :: "wait \<Rightarrow> unit svc" where
  "ask_unit w = bind (await w) (\<lambda>_. Ret ())"

definition ask_names :: "storage_call \<Rightarrow> string list svc" where
  "ask_names q = bind (await (Storage q)) (\<lambda>a. case a of A_names ns \<Rightarrow> Ret ns | _ \<Rightarrow> Raise OtherError)"

definition ask_objects :: "storage_call \<Rightarrow> lab_state_objects option svc" where
  "ask_objects q = bind (await (Storage q)) (\<lambda>a. case a of A_objects x \<Rightarrow> Ret x | _ \<Rightarrow> Raise OtherError)"

definition ask_secret :: "storage_call \<Rightarrow> secret svc" where
  "ask_secret q = bind (await (Storage q)) (\<lambda>a. case a of A_secret x \<Rightarrow> Ret x | _ \<Rightarrow> Raise OtherError)"

definition ask_phase :: "storage_call \<Rightarrow> pod_phase option svc" where
  "ask_phase q = bind (await (Storage q)) (\<lambda>a. case a of A_phase x \<Rightarrow> Ret x | _ \<Rightarrow> Raise OtherError)"

definition ask_message :: "storage_call \<Rightarrow> string option svc" where
  "ask_message q = bind (await (Storage q)) (\<lambda>a. case a of A_message x \<Rightarrow> Ret x | _ \<Rightarrow> Raise OtherError)"

definition ask_image :: "image_call \<Rightarrow> rsp_image svc" where
  "ask_image q = bind (await (Image_service q)) (\<lambda>a. case a of A_image x \<Rightarrow> Ret x | _ \<Rightarrow> Raise OtherError)"

section \<open>Assignments\<close>

definition upd_lab :: "lab_id \<Rightarrow> (lab \<Rightarrow> lab) \<Rightarrow> sys \<Rightarrow> sys" where
  "upd_lab l f s = s\<lparr>lab_objs := (lab_objs s)(l := f (lab_objs s l))\<rparr>"

definition upd_state :: "state_id \<Rightarrow> (lab_state \<Rightarrow> lab_state) \<Rightarrow> sys \<Rightarrow> sys" where
  "upd_state i f s = s\<lparr>states := (states s)(i := f (states s i))\<rparr>"

definition enqueue :: "lab_id \<Rightarrow> queue_call \<Rightarrow> sys \<Rightarrow> sys" where
  "enqueue l c = upd_lab l (\<lambda>r. r\<lparr>queue := queue r @ [c]\<rparr>)"

definition put_event :: "lab_id \<Rightarrow> event_type \<Rightarrow> string \<Rightarrow> int option \<Rightarrow> unit svc" where
  "put_event l ty msg p = act (enqueue l (Put \<lparr>ev_type = ty, message = msg, progress = p\<rparr>))"

definition clear_events :: "lab_id \<Rightarrow> unit svc" where
  "clear_events l = act (enqueue l Clear)"

definition close_events :: "lab_id \<Rightarrow> unit svc" where
  "close_events l = act (enqueue l Close)"

definition set_status :: "state_id \<Rightarrow> lab_status \<Rightarrow> unit svc" where
  "set_status i st = act (upd_state i (\<lambda>r. r\<lparr>status := st\<rparr>))"

definition set_internal_url :: "state_id \<Rightarrow> string option \<Rightarrow> unit svc" where
  "set_internal_url i u = act (upd_state i (\<lambda>r. r\<lparr>internal_url := u\<rparr>))"

definition set_lab_state :: "lab_id \<Rightarrow> state_id option \<Rightarrow> unit svc" where
  "set_lab_state l i = act (upd_lab l (\<lambda>r. r\<lparr>lab_state_of := i\<rparr>))"

text \<open>\<open>datetime.now\<close>, and setting the time of the last change to it.\<close>

definition now :: "datetime svc" where
  "now = reading clock"

definition touch :: "lab_id \<Rightarrow> unit svc" where
  "touch l = act (\<lambda>s. upd_lab l (\<lambda>r. r\<lparr>last_modified := clock s\<rparr>) s)"

definition new_timeout :: "timedelta \<Rightarrow> timeout svc" where
  "new_timeout d = bind now (\<lambda>t. Ret (new_timeout_at d t))"

text \<open>New objects: a lab record with its monitor, a lab state, a task.\<close>

definition alloc_lab :: "string \<Rightarrow> state_id option \<Rightarrow> sys \<Rightarrow> sys" where
  "alloc_lab u st s =
     s\<lparr>lab_objs := (lab_objs s)(next_id s := \<lparr>lab_user = u, lab_state_of = st, queue = [],
          last_modified = clock s, lock = None, running = None\<rparr>),
       labs := dset u (next_id s) (labs s), next_id := next_id s + 1\<rparr>"

definition new_state :: "lab_state \<Rightarrow> state_id svc" where
  "new_state st =
     bind (reading next_id) (\<lambda>i.
     seq (act (\<lambda>s. s\<lparr>states := (states s)(i := st), next_id := next_id s + 1\<rparr>)) (Ret i))"

definition new_task :: "task_kind \<Rightarrow> task_id svc" where
  "new_task k =
     bind (reading next_id) (\<lambda>i.
     seq (act (\<lambda>s. s\<lparr>tasks := (tasks s)(i \<mapsto> \<lparr>kind = k, outcome = None, cancel_requested = False\<rparr>),
                     next_id := next_id s + 1\<rparr>)) (Ret i))"

definition task_done :: "sys \<Rightarrow> task_id \<Rightarrow> bool" where
  "task_done s t \<longleftrightarrow> (case tasks s t of None \<Rightarrow> False | Some r \<Rightarrow> outcome r \<noteq> None)"

definition cancel_task :: "task_id \<Rightarrow> sys \<Rightarrow> sys" where
  "cancel_task t s =
     (case tasks s t of
        None \<Rightarrow> s
      | Some r \<Rightarrow> if outcome r = None then s\<lparr>tasks := (tasks s)(t \<mapsto> r\<lparr>cancel_requested := True\<rparr>)\<rparr> else s)"

text \<open>\<open>async with self._lock\<close>\<close>

definition with_lock :: "lab_id \<Rightarrow> 'a svc \<Rightarrow> 'a svc" where
  "with_lock l p = seq (ask_unit (Lock l)) (finally_do p (act (upd_lab l (\<lambda>r. r\<lparr>lock := None\<rparr>))))"

text \<open>
  \<open>Timeout.enforce\<close>. The block under the limit waits for everything with the deadline; when the
  deadline has passed it is woken with \<open>Expired\<close>. Time-outs leave the block as
  \<open>ControllerTimeoutError\<close>.
\<close>

definition enforce :: "timeout \<Rightarrow> 'a svc \<Rightarrow> 'a svc" where
  "enforce = enforce_in clock Timed (\<lambda>e. e = Expired \<or> e = ControllerTimeout \<or> e = TimeoutError) ControllerTimeout"

text \<open>\<open>_State.modified_since\<close>, \<open>_LabMonitor.in_progress\<close> and \<open>is_done\<close>\<close>

definition in_progress :: "sys \<Rightarrow> lab_id \<Rightarrow> lab_operation option" where
  "in_progress s l = map_option (\<lambda>o'. op_kind (op_of s o')) (running (lab_objs s l))"

definition modified_since :: "sys \<Rightarrow> lab_id \<Rightarrow> datetime \<Rightarrow> bool" where
  "modified_since s l d \<longleftrightarrow> in_progress s l \<noteq> None \<or> d < last_modified (lab_objs s l)"

definition is_done :: "sys \<Rightarrow> lab_id \<Rightarrow> (exn, bool) result" where
  "is_done s l =
     (case running (lab_objs s l) of
        None \<Rightarrow> Inl RuntimeErr
      | Some o' \<Rightarrow> Inr (task_done s (op_task (op_of s o'))))"

end
