(* ===== verification/Lab_Service.thy ===== *)
theory Lab_Service
  imports Lab_State
begin

text \<open>
  The operations of \<open>src/src/nublado/controller/services/lab.py\<close>: the monitor of a lab operation
  (\<open>_LabMonitor\<close>), the operations themselves, and the methods of \<open>LabManager\<close> that start and watch
  them. Logging is left out. Each method is a coroutine with the awaits of the source.
\<close>

section \<open>The monitor\<close>

definition maybe_post_exception :: "exn \<Rightarrow> unit svc" where
  "maybe_post_exception e = ask_unit (Report e)"

text \<open>\<open>except Exception\<close>: report it and go on; anything else is raised again.\<close>

definition report_exceptions :: "unit svc \<Rightarrow> unit svc" where
  "report_exceptions p =
     catch p (\<lambda>e. if is_exception e then maybe_post_exception e else Raise e)"

definition monitor_cancel :: "lab_id \<Rightarrow> unit svc" where
  "monitor_cancel l = with_lock l
     (bind (reading (\<lambda>s. running (lab_objs s l))) (\<lambda>r.
        case r of
          None \<Rightarrow> Ret ()
        | Some o' \<Rightarrow>
            bind (reading (\<lambda>s. op_of s o')) (\<lambda>op.
            bind (reading (\<lambda>s. task_done s (op_task op))) (\<lambda>finished.
            seq (do_if (\<not> finished)
                  (seq (put_event (op_lab op) EV_FAILED ''Operation cancelled'' None)
                       (act (cancel_task (op_task op)))))
           (seq (catch (ask_unit (Task (op_task op)))
                  (\<lambda>e. if e = Cancelled then Ret ()
                       else if is_exception e then maybe_post_exception e else Raise e))
                (act (upd_lab l (\<lambda>r. r\<lparr>running := None\<rparr>))))))))"

definition monitor :: "lab_id \<Rightarrow> operation \<Rightarrow> timeout \<Rightarrow> bool \<Rightarrow> unit svc" where
  "monitor l op t done_event = with_lock l
     (bind (reading (\<lambda>s. running (lab_objs s l))) (\<lambda>r.
        if r \<noteq> None then Raise OperationConflict
        else
          bind now (\<lambda>n.
          let op = op\<lparr>op_started := n\<rparr>
          in bind (new_task (Monitor_operation l op t done_event)) (\<lambda>k.
             bind (reading next_id) (\<lambda>i.
               act (\<lambda>s. upd_lab l (\<lambda>r. r\<lparr>running := Some i\<rparr>)
                  (s\<lparr>ops := (ops s)(i \<mapsto> operation.extend op \<lparr>op_task = k, op_complete = False\<rparr>),
                     next_id := next_id s + 1\<rparr>)))))))"

definition monitor_wait :: "lab_id \<Rightarrow> unit svc" where
  "monitor_wait l =
     bind (with_lock l
       (bind (reading (\<lambda>s. running (lab_objs s l))) (\<lambda>r.
          case r of None \<Rightarrow> Raise NoOperation | Some o' \<Rightarrow> Ret o'))) (\<lambda>o'.
     seq (ask_unit (Complete o'))
       (with_lock l
         (seq (report_exceptions
                (bind (reading (\<lambda>s. op_task (op_of s o'))) (\<lambda>k. ask_unit (Task k))))
           (act (upd_lab l (\<lambda>r. if running r = Some o' then r\<lparr>running := None\<rparr> else r))))))"

section \<open>The operations\<close>

definition delete_lab_objects ::
  "manager_config \<Rightarrow> string \<Rightarrow> state_id \<Rightarrow> lab_id \<Rightarrow> int \<Rightarrow> int \<Rightarrow> unit svc" where
  "delete_lab_objects cfg u i l start_progress end_progress =
     (let names = build_object_names (m_lab cfg) u in
      seq (put_event l INFO ''Shutting down Kubernetes pod'' (Some start_progress))
     (seq (ask_unit (Storage (Delete_pod names)))
     (seq (put_event l INFO ''Deleting user namespace''
            (Some (start_progress + (end_progress - start_progress) div 2)))
     (seq (ask_unit (Storage (Delete_namespace (names_namespace names))))
     (seq (put_event l INFO (''Lab for '' @ u @ '' deleted'') (Some end_progress))
          (set_status i TERMINATED))))))"

fun secret_values ::
  "(string \<Rightarrow> secret option) \<Rightarrow> (string, string) dict \<Rightarrow> lab_secret list
     \<Rightarrow> (exn, (string, string) dict) result" where
  "secret_values read data [] = Inr data"
| "secret_values read data (spec # specs) =
     (case read (secret_name spec) of
        None \<Rightarrow> Inl KeyErr
      | Some sec \<Rightarrow>
          (case map_of (sec_data sec) (secret_key spec) of
             None \<Rightarrow> Inl MissingSecret
           | Some v \<Rightarrow>
               if secret_key spec \<in> set (dkeys data) then Inl RuntimeErr
               else secret_values read (dset (secret_key spec) v data) specs))"

definition of_result :: "(exn, 'a) result \<Rightarrow> 'a svc" where
  "of_result r = (case r of Inl e \<Rightarrow> Raise e | Inr a \<Rightarrow> Ret a)"

definition gather_secret_data :: "manager_config \<Rightarrow> gafaelfawr_user \<Rightarrow> (string, string) dict svc" where
  "gather_secret_data cfg u =
     (let names = sort (remdups (map secret_name (cfg_secrets (m_lab cfg)))) in
      bind (collect names (\<lambda>n. bind (ask_secret (Read_secret n (controller_namespace cfg))) (\<lambda>x. Ret (n, x))))
        (\<lambda>secrets. bind (of_result (secret_values (map_of secrets) [] (cfg_secrets (m_lab cfg))))
        (\<lambda>data. Ret (dset ''token'' (b64encode (g_token u)) data))))"

text \<open>
  \<open>_watch_spawn_events\<close> reports events as long as there are any. The bound is the number of events
  it reads before it only waits; every run of the loop is a run with a large enough bound.
\<close>

fun watch_events :: "nat \<Rightarrow> lab_id \<Rightarrow> string \<Rightarrow> string \<Rightarrow> int \<Rightarrow> unit svc" where
  "watch_events 0 l pod ns p = ask_unit (Storage (Wait_for_pod_start pod ns))"
| "watch_events (Suc n) l pod ns p =
     bind (ask_message (Next_pod_event pod ns)) (\<lambda>m.
       case m of
         None \<Rightarrow> Ret ()
       | Some msg \<Rightarrow> seq (put_event l INFO msg (Some p)) (watch_events n l pod ns (p + (75 - p) div 3)))"

definition watch_spawn_events :: "manager_config \<Rightarrow> object_names \<Rightarrow> lab_id \<Rightarrow> unit svc" where
  "watch_spawn_events cfg names l =
     catch (watch_events (watch_fuel cfg) l (names_pod names) (names_namespace names) 35)
       (\<lambda>e. if e = KubernetesError then maybe_post_exception e else Raise e)"

definition watch_lab_spawn :: "manager_config \<Rightarrow> state_id \<Rightarrow> lab_id \<Rightarrow> timeout \<Rightarrow> unit svc" where
  "watch_lab_spawn cfg i l t =
     bind (reading (\<lambda>s. username (user (states s i)))) (\<lambda>u.
     let names = build_object_names (m_lab cfg) u in
     bind (new_task (Watch_spawn_events names l t)) (\<lambda>k.
     seq (finally_do
           (ask_unit (Storage (Wait_for_pod_start (names_pod names) (names_namespace names))))
           (seq (act (cancel_task k))
                (catch (ask_unit (Task k))
                  (\<lambda>e. if e = Cancelled \<or> e = Expired then Ret () else Raise e))))
    (seq (set_status i RUNNING)
         (put_event l COMPLETE (''Lab Kubernetes pod started for '' @ u) None))))"

definition spawn_lab :: "manager_config \<Rightarrow> gafaelfawr_user \<Rightarrow> state_id \<Rightarrow> lab_specification \<Rightarrow> rsp_image
    \<Rightarrow> lab_id \<Rightarrow> timeout \<Rightarrow> bool \<Rightarrow> unit svc" where
  "spawn_lab cfg g i spec img l t delete_first =
     bind (reading (\<lambda>s. username (user (states s i)))) (\<lambda>u.
     seq (put_event l INFO (''Starting lab creation for '' @ u) (Some 1))
    (seq (do_if delete_first
           (seq (put_event l INFO (''Deleting existing failed lab for '' @ u) (Some 2))
                (delete_lab_objects cfg u i l 5 20)))
    (bind (gather_secret_data cfg g) (\<lambda>secret_data.
     bind (if nonempty (cfg_pull_secret (m_lab cfg))
           then bind (ask_secret (Read_secret (the (cfg_pull_secret (m_lab cfg))) (controller_namespace cfg)))
                  (\<lambda>x. Ret (Some x))
           else Ret None) (\<lambda>pull_secret.
     seq (set_status i PENDING)
    (bind (case build_lab (m_lab cfg) g spec img secret_data pull_secret of
             None \<Rightarrow> Raise KeyErr | Some objs \<Rightarrow> Ret objs) (\<lambda>objs.
     bind (case build_internal_url (m_lab cfg) u (env spec) of
             None \<Rightarrow> Raise KeyErr | Some url \<Rightarrow> Ret url) (\<lambda>url.
     seq (ask_unit (Storage (Create_objects objs)))
    (seq (put_event l INFO ''Created Kubernetes objects for user lab'' (Some 30))
    (seq (set_internal_url i (Some url))
         (watch_lab_spawn cfg i l t)))))))))))"

definition coro_code :: "manager_config \<Rightarrow> operation \<Rightarrow> unit svc" where
  "coro_code cfg op =
     (case op_coro op of
        Spawn_lab g spec img t delete_first \<Rightarrow> spawn_lab cfg g (op_state op) spec img (op_lab op) t delete_first
      | Watch_lab_spawn t \<Rightarrow> watch_lab_spawn cfg (op_state op) (op_lab op) t
      | Delete_lab t \<Rightarrow>
          bind (reading (\<lambda>s. lab_user (lab_objs s (op_lab op)))) (\<lambda>u.
            delete_lab_objects cfg u (op_state op) (op_lab op) 25 100))"

definition kind_value :: "lab_operation \<Rightarrow> string" where
  "kind_value k = (case k of SPAWN \<Rightarrow> ''spawn'' | DELETE \<Rightarrow> ''delete'')"

definition publish_result ::
  "lab_id \<Rightarrow> operation \<Rightarrow> (string \<Rightarrow> lab_state \<Rightarrow> timedelta \<Rightarrow> metric) \<Rightarrow> unit svc" where
  "publish_result l op ev =
     do_if (op_kind op = SPAWN)
       (bind now (\<lambda>n.
        bind (reading (\<lambda>s. states s (op_state op))) (\<lambda>st.
        bind (reading (\<lambda>s. lab_user (lab_objs s l))) (\<lambda>u.
          ask_unit (Publish (ev u st (n - op_started op)))))))"

definition operation_failed :: "manager_config \<Rightarrow> lab_id \<Rightarrow> operation \<Rightarrow> exn \<Rightarrow> unit svc" where
  "operation_failed cfg l op e =
     (if is_exception e then
        seq (maybe_post_exception e)
       (seq (put_event (op_lab op) ERROR (exn_text cfg e) None)
       (seq (put_event (op_lab op) EV_FAILED (''Lab '' @ kind_value (op_kind op) @ '' failed'') None)
       (seq (set_status (op_state op) FAILED)
            (publish_result l op Spawn_failure))))
      else Raise e)"

definition operation_over :: "lab_id \<Rightarrow> operation \<Rightarrow> bool \<Rightarrow> unit svc" where
  "operation_over l op done_event =
     seq (close_events (op_lab op))
    (seq (act (\<lambda>s. case running (lab_objs s l) of
                     None \<Rightarrow> s
                   | Some o' \<Rightarrow> s\<lparr>ops := (ops s)(o' \<mapsto> (op_of s o')\<lparr>op_complete := True\<rparr>)\<rparr>))
         (do_if done_event (act (\<lambda>s. s\<lparr>spawner_done := True\<rparr>))))"

definition monitor_operation :: "manager_config \<Rightarrow> lab_id \<Rightarrow> operation \<Rightarrow> timeout \<Rightarrow> bool \<Rightarrow> unit svc" where
  "monitor_operation cfg l op t done_event =
     finally_do
       (try_else (enforce t (coro_code cfg op)) (operation_failed cfg l op) (\<lambda>_. publish_result l op Spawn_success))
       (operation_over l op done_event)"

section \<open>Creating and deleting labs\<close>

definition check_quota :: "gafaelfawr_user \<Rightarrow> (exn, unit) result" where
  "check_quota g =
     (case g_quota g of None \<Rightarrow> Inr ()
      | Some q \<Rightarrow> if quota_spawn q then Inr () else Inl PermissionDenied)"

definition zero_or_none :: "int option \<Rightarrow> bool" where
  "zero_or_none i \<longleftrightarrow> i = None \<or> i = Some 0"

definition select_image :: "lab_request_options \<Rightarrow> rsp_image svc" where
  "select_image o' =
     (if nonempty (image_list o') \<or> nonempty (image_dropdown o') then
        (case ref_from_str (the (if nonempty (image_list o') then image_list o' else image_dropdown o')) of
           None \<Rightarrow> Raise InvalidDockerReference
         | Some r \<Rightarrow> ask_image (Image_for_reference r))
      else if req_image_class o' \<noteq> None then ask_image (Image_for_class (the (req_image_class o')))
      else if nonempty (image_tag o') then ask_image (Image_for_tag_name (the (image_tag o')))
      else Raise RuntimeErr)"

definition lab_of_user :: "string \<Rightarrow> lab_id svc" where
  "lab_of_user u =
     bind (reading (\<lambda>s. map_of (labs s) u)) (\<lambda>x. case x of None \<Rightarrow> Raise KeyErr | Some l \<Rightarrow> Ret l)"

definition get_lab_state_from_kubernetes :: "manager_config \<Rightarrow> string \<Rightarrow> state_id option svc" where
  "get_lab_state_from_kubernetes cfg u =
     bind (reading (\<lambda>s. Option.bind (map_of (labs s) u) (\<lambda>l. lab_state_of (lab_objs s l)))) (\<lambda>st.
       case st of
         None \<Rightarrow> Ret None
       | Some i \<Rightarrow>
           try_else (ask_phase (Read_pod_phase (build_object_names (m_lab cfg) u)))
             (\<lambda>e. if e = KubernetesError \<or> e = ControllerTimeout
                  then seq (maybe_post_exception e) (Ret (Some i)) else Raise e)
             (\<lambda>ph. seq (act (upd_state i (\<lambda>st.
                        case ph of
                          None \<Rightarrow> st\<lparr>status := FAILED\<rparr>
                        | Some p \<Rightarrow> if status st = RUNNING then st\<lparr>status := from_phase p\<rparr> else st)))
                      (Ret (Some i))))"

definition user_info_of :: "gafaelfawr_user \<Rightarrow> user_info" where
  "user_info_of g = \<lparr>username = g_username g, display_name_of = g_name g, uid = the (g_uid g),
     gid = the (g_gid g), groups = g_groups g\<rparr>"

definition over_quota :: "notebook_quota option \<Rightarrow> lab_resources \<Rightarrow> bool" where
  "over_quota q res \<longleftrightarrow>
     (case q of None \<Rightarrow> False
      | Some q \<Rightarrow> quota_memory q < memory (limits res) \<or> quota_cpu q < cpu (limits res))"

definition start_spawn :: "manager_config \<Rightarrow> gafaelfawr_user \<Rightarrow> lab_specification \<Rightarrow> rsp_image
    \<Rightarrow> lab_resources \<Rightarrow> lab_id \<Rightarrow> bool \<Rightarrow> unit svc" where
  "start_spawn cfg g spec img res l delete_first =
     seq (clear_events l)
    (bind (new_state (from_request (user_info_of g) (g_quota g) spec img res)) (\<lambda>i.
     bind (new_timeout (spawn_timeout cfg)) (\<lambda>t.
     bind now (\<lambda>n.
     seq (monitor l \<lparr>op_kind = SPAWN, op_coro = Spawn_lab g spec img t delete_first, op_state = i,
                     op_lab = l, op_started = n\<rparr> t True)
         (set_lab_state l (Some i))))))"

definition create_lab :: "manager_config \<Rightarrow> gafaelfawr_user \<Rightarrow> lab_specification \<Rightarrow> unit svc" where
  "create_lab cfg g spec =
     bind (of_result (check_quota g)) (\<lambda>_.
     if zero_or_none (g_uid g) then Raise PermissionDenied
     else if zero_or_none (g_gid g) then Raise PermissionDenied
     else
       seq (act (\<lambda>s. if map_of (labs s) (g_username g) = None then alloc_lab (g_username g) None s else s))
      (bind (select_image (spec_options spec)) (\<lambda>img.
       bind (case get_size_definition (cfg_sizes (m_lab cfg)) (req_size (spec_options spec)) of
               None \<Rightarrow> Raise InvalidLabSize | Some d \<Rightarrow> Ret d) (\<lambda>sz.
       if over_quota (g_quota g) (def_resources sz) then Raise InsufficientQuota
       else
         bind (get_lab_state_from_kubernetes cfg (g_username g)) (\<lambda>st.
         bind (reading (\<lambda>s. case st of None \<Rightarrow> False | Some i \<Rightarrow> \<not> is_running (states s i))) (\<lambda>delete_first.
         bind (lab_of_user (g_username g)) (\<lambda>l.
         bind (reading (\<lambda>s. in_progress s l)) (\<lambda>p.
         bind (reading (\<lambda>s. lab_state_of (lab_objs s l))) (\<lambda>cur.
           if p \<noteq> None then Raise OperationConflict
           else if cur \<noteq> None \<and> \<not> delete_first then Raise LabExists
           else start_spawn cfg g spec img (def_resources sz) l delete_first)))))))))"

text \<open>The second half of \<open>delete_lab\<close>: nothing, or a cancelled spawn, is in progress.\<close>

definition start_delete :: "manager_config \<Rightarrow> string \<Rightarrow> lab_id \<Rightarrow> unit svc" where
  "start_delete cfg u l =
     seq (clear_events l)
    (bind (reading (\<lambda>s. lab_state_of (lab_objs s l))) (\<lambda>st.
       case st of
         None \<Rightarrow> Raise UnknownUser
       | Some i \<Rightarrow>
           seq (set_status i TERMINATING)
          (seq (set_internal_url i None)
          (bind (new_timeout (delete_timeout cfg)) (\<lambda>t.
           bind now (\<lambda>n.
           seq (monitor l \<lparr>op_kind = DELETE, op_coro = Delete_lab t, op_state = i, op_lab = l, op_started = n\<rparr>
                  t False)
          (seq (monitor_wait l)
          (seq (touch l)
          (bind (reading (\<lambda>s. map_option (\<lambda>j. status (states s j)) (lab_state_of (lab_objs s l)))) (\<lambda>x.
             case x of
               None \<Rightarrow> Raise OtherError
             | Some st \<Rightarrow> do_if (st = TERMINATED) (set_lab_state l None)))))))))))"

definition delete_lab :: "manager_config \<Rightarrow> string \<Rightarrow> unit svc" where
  "delete_lab cfg u =
     bind (reading (\<lambda>s. map_of (labs s) u)) (\<lambda>x.
     case x of None \<Rightarrow> Raise UnknownUser | Some l \<Rightarrow>
     bind (reading (\<lambda>s. lab_state_of (lab_objs s l))) (\<lambda>st.
     if st = None then Raise UnknownUser
     else
       bind (reading (\<lambda>s. in_progress s l)) (\<lambda>p.
       seq (if p = Some DELETE then monitor_wait l
            else seq (do_if (p = Some SPAWN) (monitor_cancel l)) (start_delete cfg u l))
      (bind (reading (\<lambda>s. map_option (\<lambda>j. status (states s j)) (lab_state_of (lab_objs s l)))) (\<lambda>x.
         do_if (x \<noteq> None \<and> x \<noteq> Some TERMINATED) (Raise LabDeletion))))))"

section \<open>Queries\<close>

definition get_lab_state :: "string \<Rightarrow> sys \<Rightarrow> state_id option" where
  "get_lab_state u s = Option.bind (map_of (labs s) u) (\<lambda>l. lab_state_of (lab_objs s l))"

definition has_status :: "sys \<Rightarrow> lab_id \<Rightarrow> lab_status \<Rightarrow> bool" where
  "has_status s l st \<longleftrightarrow>
     (case lab_state_of (lab_objs s l) of None \<Rightarrow> False | Some i \<Rightarrow> status (states s i) = st)"

definition list_lab_users :: "bool \<Rightarrow> sys \<Rightarrow> string list" where
  "list_lab_users only_running s =
     map fst (filter (\<lambda>(u, l). if only_running then has_status s l RUNNING else lab_state_of (lab_objs s l) \<noteq> None)
       (labs s))"

definition events_for_user :: "string \<Rightarrow> sys \<Rightarrow> (exn, lab_id) result" where
  "events_for_user u s = (case map_of (labs s) u of None \<Rightarrow> Inl UnknownUser | Some l \<Rightarrow> Inr l)"

section \<open>Reconciliation\<close>

definition observed_state ::
  "manager_config \<Rightarrow> datetime \<Rightarrow> string \<Rightarrow> (string, lab_state) dict \<Rightarrow> (string, lab_state) dict svc" where
  "observed_state cfg cutoff ns observed =
     (let u = removeprefix (namespace_prefix (m_lab cfg) @ ''-'') ns;
          names = build_object_names (m_lab cfg) u
      in bind (ask_objects (Read_lab_objects names)) (\<lambda>objs.
         case recreate_lab_state (m_lab cfg) u objs of
           Some st \<Rightarrow> Ret (dset u st observed)
         | None \<Rightarrow>
             bind (reading (\<lambda>s. case map_of (labs s) u of None \<Rightarrow> True | Some l \<Rightarrow> \<not> modified_since s l cutoff))
               (\<lambda>stale. seq (do_if stale (ask_unit (Storage (Delete_namespace ns)))) (Ret observed))))"

fun observe_all ::
  "manager_config \<Rightarrow> datetime \<Rightarrow> string list \<Rightarrow> (string, lab_state) dict \<Rightarrow> (string, lab_state) dict svc" where
  "observe_all cfg cutoff [] observed = Ret observed"
| "observe_all cfg cutoff (ns # nss) observed =
     bind (observed_state cfg cutoff ns observed) (observe_all cfg cutoff nss)"

definition gather_current_state :: "manager_config \<Rightarrow> datetime \<Rightarrow> (string, lab_state) dict svc" where
  "gather_current_state cfg cutoff =
     bind (ask_names (List_namespaces (namespace_prefix (m_lab cfg) @ ''-''))) (\<lambda>nss.
       observe_all cfg cutoff nss [])"

text \<open>\<open>_reconcile_known_users\<close> is not a coroutine: it runs without interruption.\<close>

definition reconcile_user ::
  "(string, lab_state) dict \<Rightarrow> datetime \<Rightarrow> string \<Rightarrow> lab_id \<Rightarrow> sys \<Rightarrow> sys \<times> bool" where
  "reconcile_user observed cutoff u l s =
     (case lab_state_of (lab_objs s l) of
        None \<Rightarrow> (s, False)
      | Some i \<Rightarrow>
          if modified_since s l cutoff then (s, False)
          else if status (states s i) = FAILED then (s, False)
          else case map_of observed u of
              None \<Rightarrow> (upd_state i (\<lambda>r. r\<lparr>status := FAILED\<rparr>) s, False)
            | Some ob \<Rightarrow>
                if status ob = status (states s i) then (s, False)
                else (upd_state i (\<lambda>r. r\<lparr>status := status ob\<rparr>) s, status ob = PENDING))"

fun reconcile_known_users ::
  "(string, lab_state) dict \<Rightarrow> datetime \<Rightarrow> (string \<times> lab_id) list \<Rightarrow> sys \<Rightarrow> sys \<times> string list" where
  "reconcile_known_users observed cutoff [] s = (s, [])"
| "reconcile_known_users observed cutoff ((u, l) # rest) s =
     (let (s1, b) = reconcile_user observed cutoff u l s;
          (s2, us) = reconcile_known_users observed cutoff rest s1
      in (s2, if b then u # us else us))"

fun add_observed_users :: "(string, lab_state) dict \<Rightarrow> string list \<Rightarrow> sys \<Rightarrow> sys \<times> string list" where
  "add_observed_users observed [] s = (s, [])"
| "add_observed_users observed (u # us) s =
     (let st = the (map_of observed u);
          i = next_id s;
          s1 = s\<lparr>states := (states s)(i := st), next_id := i + 1\<rparr>;
          (s2, more) = add_observed_users observed us (alloc_lab u (Some i) s1)
      in (s2, if status st = PENDING then u # more else more))"

definition monitor_pending_spawn :: "manager_config \<Rightarrow> string \<Rightarrow> unit svc" where
  "monitor_pending_spawn cfg u =
     bind (lab_of_user u) (\<lambda>l.
     bind (reading (\<lambda>s. in_progress s l)) (\<lambda>p.
     bind (reading (\<lambda>s. lab_state_of (lab_objs s l))) (\<lambda>st.
       if p \<noteq> None then Ret ()
       else case st of
         None \<Rightarrow> Ret ()
       | Some i \<Rightarrow>
           seq (clear_events l)
          (seq (put_event l INFO (''Monitoring in-progress lab creation for '' @ u) (Some 1))
          (bind (new_timeout (spawn_timeout cfg)) (\<lambda>t.
           bind now (\<lambda>n.
           catch (monitor l \<lparr>op_kind = SPAWN, op_coro = Watch_lab_spawn t, op_state = i, op_lab = l,
                             op_started = n\<rparr> t True)
             (\<lambda>e. if e = OperationConflict then Ret () else Raise e))))))))"

definition delete_completed_labs :: "manager_config \<Rightarrow> unit svc" where
  "delete_completed_labs cfg =
     bind (reading labs) (\<lambda>all_labs. for_each all_labs (\<lambda>(u, l).
       bind (reading (\<lambda>s. (case lab_state_of (lab_objs s l) of None \<Rightarrow> False | Some i \<Rightarrow> \<not> is_running (states s i))
                         \<and> in_progress s l = None)) (\<lambda>b.
         do_if b (catch (delete_lab cfg u) (\<lambda>e. if e = UnknownUser then Ret () else Raise e)))))"

text \<open>The order in which a set of names is iterated over is the parameter \<open>it\<close>.\<close>

definition reconcile :: "manager_config \<Rightarrow> set_iter \<Rightarrow> unit svc" where
  "reconcile cfg it =
     bind now (\<lambda>start.
     bind (gather_current_state cfg start) (\<lambda>observed.
     bind (reading (\<lambda>s. reconcile_known_users observed start (labs s) s)) (\<lambda>(s1, first).
     seq (act (\<lambda>_. s1))
    (bind (reading (\<lambda>s. add_observed_users observed
             (it (filter (\<lambda>u. u \<notin> set (dkeys (labs s))) (dkeys observed))) s)) (\<lambda>(s2, second).
     seq (act (\<lambda>_. s2))
    (seq (for_each (sort (remdups (first @ second))) (monitor_pending_spawn cfg))
    (seq (delete_completed_labs cfg)
    (bind (reading (\<lambda>s. length (filter (\<lambda>(u, l). has_status s l RUNNING) (labs s)))) (\<lambda>n.
       ask_unit (Publish (Active_labs n)))))))))))"

section \<open>Background tasks\<close>

text \<open>
  One pass of \<open>reap_spawners\<close>. The loop runs over the dictionary itself, which raises an exception
  when its size has changed at the next step; \<open>k\<close> is the number of entries already visited.
\<close>

definition reap_lab :: "lab_id \<Rightarrow> unit svc" where
  "reap_lab l =
     bind (reading (\<lambda>s. in_progress s l \<noteq> None \<and> is_done s l = Inr True)) (\<lambda>b.
       do_if b
         (catch (seq (monitor_wait l) (touch l))
           (\<lambda>e. if e = NoOperation then Ret ()
                else if is_exception e then
                  seq (touch l)
                 (seq (maybe_post_exception e)
                 (bind (reading (\<lambda>s. lab_state_of (lab_objs s l))) (\<lambda>st.
                    case st of None \<Rightarrow> Ret () | Some i \<Rightarrow> set_status i FAILED)))
                else Raise e)))"

fun reap_from :: "nat \<Rightarrow> nat \<Rightarrow> nat \<Rightarrow> unit svc" where
  "reap_from 0 n k = Ret ()"
| "reap_from (Suc f) n k =
     bind (reading labs) (\<lambda>d.
       if length d \<noteq> n then Raise RuntimeErr
       else if n \<le> k then Ret ()
       else seq (reap_lab (snd (d ! k))) (reap_from f n (k + 1)))"

definition reap_pass :: "unit svc" where
  "reap_pass =
     seq (ask_unit Spawner_done)
    (seq (act (\<lambda>s. s\<lparr>spawner_done := False\<rparr>))
    (bind (reading (\<lambda>s. length (labs s))) (\<lambda>n. reap_from (n + 1) n 0)))"

definition stop_monitor_tasks :: "unit svc" where
  "stop_monitor_tasks =
     bind (reading labs) (\<lambda>d.
     seq (act (\<lambda>s. s\<lparr>labs := []\<rparr>))
         (for_each d (\<lambda>(u, l). monitor_cancel l)))"

end
