(* ===== verification/Lab_Pool.thy ===== *)
theory Lab_Pool
  imports Lab_Service
begin

text \<open>
  The event loop with the tasks of the lab service: \<open>asyncio\<close> as far as
  \<open>src/src/nublado/controller/services/lab.py\<close> uses it. A task runs until it suspends; then any
  task that can go on may be next. A task that is cancelled gets \<open>CancelledError\<close> at its suspension,
  unless it waits for another task: then that task is cancelled in its place. An expired
  \<open>asyncio.timeout\<close> works in the same way, and here it may strike again at later suspensions of its
  block, which only adds behaviour.
\<close>

section \<open>The pool\<close>

abbreviation lock_of :: "sys \<Rightarrow> lab_id \<Rightarrow> task_id option" where
  "lock_of s l \<equiv> lock (lab_objs s l)"

abbreviation running_of :: "sys \<Rightarrow> lab_id \<Rightarrow> op_id option" where
  "running_of s l \<equiv> running (lab_objs s l)"

definition kind_of :: "sys \<Rightarrow> task_id \<Rightarrow> task_kind option" where
  "kind_of s t = map_option kind (tasks s t)"

definition outcome_of :: "sys \<Rightarrow> task_id \<Rightarrow> (exn + unit) option" where
  "outcome_of s t = Option.bind (tasks s t) outcome"

definition live :: "sys \<Rightarrow> task_id \<Rightarrow> bool" where
  "live s t \<longleftrightarrow> tasks s t \<noteq> None \<and> outcome_of s t = None"

fun untimed :: "wait \<Rightarrow> wait" where
  "untimed (Timed d w) = untimed w"
| "untimed w = w"

text \<open>What the world outside answers, in its own time and as it likes.\<close>

fun external :: "wait \<Rightarrow> bool" where
  "external (Storage q) = True"
| "external (Image_service q) = True"
| "external (Report e) = True"
| "external (Publish m) = True"
| "external _ = False"

definition waits_for_task :: "wait \<Rightarrow> sys \<Rightarrow> bool" where
  "waits_for_task w s \<longleftrightarrow> (case untimed w of Task k \<Rightarrow> outcome_of s k = None | _ \<Rightarrow> False)"

fun expired :: "wait \<Rightarrow> sys \<Rightarrow> bool" where
  "expired (Timed d w) s \<longleftrightarrow> d \<le> clock s \<or> expired w s"
| "expired _ s \<longleftrightarrow> False"

definition clear_cancel :: "task_id \<Rightarrow> sys \<Rightarrow> sys" where
  "clear_cancel t s =
     (case tasks s t of None \<Rightarrow> s | Some r \<Rightarrow> s\<lparr>tasks := (tasks s)(t \<mapsto> r\<lparr>cancel_requested := False\<rparr>)\<rparr>)"

definition cancel_pending :: "sys \<Rightarrow> task_id \<Rightarrow> bool" where
  "cancel_pending s t \<longleftrightarrow> (case tasks s t of None \<Rightarrow> False | Some r \<Rightarrow> cancel_requested r)"

text \<open>\<open>resume t w s a s'\<close>: task \<open>t\<close>, which waits for \<open>w\<close>, goes on in \<open>s'\<close> with the answer \<open>a\<close>.\<close>

inductive resume :: "task_id \<Rightarrow> wait \<Rightarrow> sys \<Rightarrow> (exn + answer) \<Rightarrow> sys \<Rightarrow> bool" for t where
  Started: "resume t Start s (Inr A_unit) s"
| External: "external w \<Longrightarrow> resume t w s a s"
| Locked: "lock_of s l = None \<Longrightarrow> resume t (Lock l) s (Inr A_unit) (upd_lab l (\<lambda>r. r\<lparr>lock := Some t\<rparr>) s)"
| Returned: "outcome_of s k = Some (Inr ()) \<Longrightarrow> resume t (Task k) s (Inr A_unit) s"
| Raised: "outcome_of s k = Some (Inl e) \<Longrightarrow> resume t (Task k) s (Inl e) s"
| Completed: "ops s i = Some op \<Longrightarrow> op_complete op \<Longrightarrow> resume t (Complete i) s (Inr A_unit) s"
| Spawned: "spawner_done s \<Longrightarrow> resume t Spawner_done s (Inr A_unit) s"
| In_time: "resume t w s a s' \<Longrightarrow> resume t (Timed d w) s a s'"
| Expires: "d \<le> clock s \<Longrightarrow> untimed w \<noteq> Start \<Longrightarrow> \<not> waits_for_task w s \<Longrightarrow> resume t (Timed d w) s (Inl Expired) s"
| Cancels: "cancel_pending s t \<Longrightarrow> \<not> waits_for_task w s \<Longrightarrow> resume t w s (Inl Cancelled) (clear_cancel t s)"

inductive_cases resume_LockE: "resume t (Lock l) s a s'"
inductive_cases resume_TaskE: "resume t (Task k) s a s'"
inductive_cases resume_TimedE: "resume t (Timed d w) s a s'"

text \<open>
  A task is its record in the state and the coroutine it is suspended in. A monitor or watch task
  that has not run yet is at the start of its coroutine; the other tasks are the calls of the
  interface of \<open>LabManager\<close>.
\<close>

definition task_code :: "manager_config \<Rightarrow> task_kind \<Rightarrow> unit svc" where
  "task_code cfg k =
     seq (ask_unit Start)
       (case k of
          Monitor_operation l op t b \<Rightarrow> monitor_operation cfg l op t b
        | Watch_spawn_events names l t \<Rightarrow> watch_spawn_events cfg names l
        | Client \<Rightarrow> Ret ())"

inductive client_code :: "manager_config \<Rightarrow> unit svc \<Rightarrow> bool" for cfg where
  "client_code cfg (create_lab cfg g spec)"
| "client_code cfg (delete_lab cfg u)"
| "client_code cfg (reconcile cfg it)"
| "client_code cfg reap_pass"
| "client_code cfg stop_monitor_tasks"

record pool =
  st :: sys
  procs :: "task_id \<Rightarrow> unit svc option"

definition proc_of :: "manager_config \<Rightarrow> pool \<Rightarrow> task_id \<Rightarrow> unit svc" where
  "proc_of cfg c t =
     (case procs c t of
        Some p \<Rightarrow> p
      | None \<Rightarrow> (case kind_of (st c) t of None \<Rightarrow> Ret () | Some k \<Rightarrow> task_code cfg k))"

definition result_of :: "unit svc \<Rightarrow> (exn + unit) option" where
  "result_of p = (case p of Ret a \<Rightarrow> Some (Inr a) | Raise e \<Rightarrow> Some (Inl e) | _ \<Rightarrow> None)"

definition finish :: "task_id \<Rightarrow> (exn + unit) option \<Rightarrow> sys \<Rightarrow> sys" where
  "finish t x s =
     (case tasks s t of None \<Rightarrow> s | Some r \<Rightarrow> s\<lparr>tasks := (tasks s)(t \<mapsto> r\<lparr>outcome := x\<rparr>)\<rparr>)"

definition settle :: "task_id \<Rightarrow> sys \<times> unit svc \<Rightarrow> pool \<Rightarrow> pool" where
  "settle t = (\<lambda>(s, p) c. c\<lparr>st := finish t (result_of p) s, procs := (procs c)(t \<mapsto> p)\<rparr>)"

inductive step :: "manager_config \<Rightarrow> pool \<Rightarrow> pool \<Rightarrow> bool" for cfg where
  Tick: "0 \<le> d \<Longrightarrow> step cfg c (c\<lparr>st := (st c)\<lparr>clock := clock (st c) + d\<rparr>\<rparr>)"
| Call: "client_code cfg p \<Longrightarrow> t = next_id (st c) \<Longrightarrow>
    step cfg c (c\<lparr>st := (st c)\<lparr>tasks := (tasks (st c))
                     (t \<mapsto> \<lparr>kind = Client, outcome = None, cancel_requested = False\<rparr>),
                   next_id := t + 1\<rparr>,
                  procs := (procs c)(t \<mapsto> seq (ask_unit Start) p)\<rparr>)"
| Disconnect: "kind_of (st c) t = Some Client \<Longrightarrow> step cfg c (c\<lparr>st := cancel_task t (st c)\<rparr>)"
| Forward: "live (st c) t \<Longrightarrow> proc_of cfg c t = Await w k \<Longrightarrow> untimed w = Task i \<Longrightarrow>
    cancel_pending (st c) t \<or> expired w (st c) \<Longrightarrow>
    step cfg c (c\<lparr>st := clear_cancel t (cancel_task i (st c))\<rparr>)"
| Run: "live (st c) t \<Longrightarrow> proc_of cfg c t = Await w k \<Longrightarrow> resume t w (st c) a s \<Longrightarrow>
    step cfg c (settle t (advance (k a) s) c)"

definition no_lab :: lab where
  "no_lab = \<lparr>lab_user = [], lab_state_of = None, queue = [], last_modified = 0, lock = None, running = None\<rparr>"

definition initial :: "datetime \<Rightarrow> (state_id \<Rightarrow> lab_state) \<Rightarrow> pool" where
  "initial d z =
     \<lparr>st = \<lparr>labs = [], lab_objs = (\<lambda>_. no_lab), states = z, ops = (\<lambda>_. None),
            tasks = (\<lambda>_. None), next_id = 0, spawner_done = False, clock = d\<rparr>,
      procs = (\<lambda>_. None)\<rparr>"

inductive reachable :: "manager_config \<Rightarrow> pool \<Rightarrow> bool" for cfg where
  Initial: "reachable cfg (initial d z)"
| Step: "reachable cfg c \<Longrightarrow> step cfg c c' \<Longrightarrow> reachable cfg c'"

end
