(* ===== verification/Lab_Safety.thy ===== *)
theory Lab_Safety
  imports Lab_Pool
begin

text \<open>
  Safety of the lab service under every interleaving of its tasks.
\<close>

section \<open>The invariant\<close>

definition kind_level :: "task_kind \<Rightarrow> nat" where
  "kind_level k = (case k of Client \<Rightarrow> 2 | Monitor_operation l op t b \<Rightarrow> 1 | Watch_spawn_events n l t \<Rightarrow> 0)"

definition monitors :: "sys \<Rightarrow> task_id \<Rightarrow> lab_id \<Rightarrow> bool" where
  "monitors s t l \<longleftrightarrow> (\<exists>op d b. kind_of s t = Some (Monitor_operation l op d b))"

definition fresh_ok :: "sys \<Rightarrow> bool" where
  "fresh_ok s \<longleftrightarrow> (\<forall>i \<ge> next_id s. tasks s i = None \<and> ops s i = None \<and> lock_of s i = None \<and> running_of s i = None)"

definition lock_ok :: "sys \<Rightarrow> bool" where
  "lock_ok s \<longleftrightarrow> (\<forall>l t. lock_of s l = Some t \<longrightarrow> live s t \<and> kind_of s t = Some Client)"

definition ops_ok :: "sys \<Rightarrow> bool" where
  "ops_ok s \<longleftrightarrow>
     (\<forall>i op. ops s i = Some op \<longrightarrow> (\<exists>l. monitors s (op_task op) l) \<and>
        (\<forall>x. outcome_of s (op_task op) = Some x \<longrightarrow> x \<noteq> Inl Cancelled \<longrightarrow> op_complete op)) \<and>
     (\<forall>i j a b. ops s i = Some a \<longrightarrow> ops s j = Some b \<longrightarrow> op_task a = op_task b \<longrightarrow> i = j)"

definition running_ok :: "sys \<Rightarrow> bool" where
  "running_ok s \<longleftrightarrow>
     (\<forall>l i. running_of s l = Some i \<longrightarrow> (\<exists>op. ops s i = Some op \<and> monitors s (op_task op) l)) \<and>
     (\<forall>t l. live s t \<longrightarrow> monitors s t l \<longrightarrow>
        (\<exists>i op. running_of s l = Some i \<and> ops s i = Some op \<and> op_task op = t))"

definition labs_ok :: "sys \<Rightarrow> bool" where
  "labs_ok s \<longleftrightarrow> (\<forall>l \<in> snd ` set (labs s). l < next_id s)"

definition safe :: "sys \<Rightarrow> bool" where
  "safe s \<longleftrightarrow> fresh_ok s \<and> labs_ok s \<and> lock_ok s \<and> ops_ok s \<and> running_ok s"

section \<open>Rely and guarantee\<close>

definition holds_none :: "task_id \<Rightarrow> sys \<Rightarrow> bool" where
  "holds_none t s \<longleftrightarrow> (\<forall>l. lock_of s l \<noteq> Some t)"

definition keep_tasks :: "sys \<Rightarrow> sys \<Rightarrow> bool" where
  "keep_tasks s s' \<longleftrightarrow> next_id s \<le> next_id s' \<and>
     (\<forall>i k. kind_of s i = Some k \<longrightarrow> kind_of s' i = Some k) \<and>
     (\<forall>i x. outcome_of s i = Some x \<longrightarrow> outcome_of s' i = Some x)"

definition keep_ops :: "sys \<Rightarrow> sys \<Rightarrow> bool" where
  "keep_ops s s' \<longleftrightarrow>
     (\<forall>i op. ops s i = Some op \<longrightarrow>
        (\<exists>op'. ops s' i = Some op' \<and> op_task op' = op_task op \<and> (op_complete op \<longrightarrow> op_complete op')))"

definition rely :: "task_id \<Rightarrow> sys \<Rightarrow> sys \<Rightarrow> bool" where
  "rely t s s' \<longleftrightarrow> keep_tasks s s' \<and> keep_ops s s' \<and> outcome_of s' t = outcome_of s t \<and>
     (\<forall>l. lock_of s l = Some t \<longrightarrow> running_of s' l = running_of s l) \<and>
     (\<forall>l. lock_of s' l = Some t \<longleftrightarrow> lock_of s l = Some t)"

definition guar :: "task_id \<Rightarrow> sys \<Rightarrow> sys \<Rightarrow> bool" where
  "guar t s s' \<longleftrightarrow> keep_tasks s s' \<and> keep_ops s s' \<and>
     (\<forall>i. kind_of s i \<noteq> None \<longrightarrow> outcome_of s' i = outcome_of s i) \<and>
     (\<forall>i. kind_of s i = None \<longrightarrow> kind_of s' i \<noteq> Some Client) \<and>
     (\<forall>l. lock_of s l \<noteq> Some t \<longrightarrow> lock_of s' l = lock_of s l \<and> running_of s' l = running_of s l) \<and>
     (\<forall>l. lock_of s l = Some t \<longrightarrow> lock_of s' l = Some t \<or> lock_of s' l = None)"

text \<open>
  A task that holds a lock, and a monitor task at any time, waits only for the world outside or
  for a task of a lower level.
\<close>

definition may_wait :: "task_id \<Rightarrow> wait \<Rightarrow> sys \<Rightarrow> bool" where
  "may_wait t w s \<longleftrightarrow>
     (case untimed w of
        Start \<Rightarrow> holds_none t s
      | Lock l \<Rightarrow> holds_none t s \<and> kind_of s t = Some Client \<and> l < next_id s
      | Complete i \<Rightarrow> holds_none t s \<and> kind_of s t = Some Client \<and> ops s i \<noteq> None
      | Spawner_done \<Rightarrow> holds_none t s \<and> kind_of s t = Some Client
      | Task i \<Rightarrow> (\<exists>k k'. kind_of s t = Some k \<and> kind_of s i = Some k' \<and> kind_level k' < kind_level k)
      | _ \<Rightarrow> True)"

text \<open>The answers of the pool, and a time-out at any suspension: inside \<open>enforce\<close> it may come.\<close>

definition answered :: "task_id \<Rightarrow> wait \<Rightarrow> sys \<Rightarrow> (exn + answer) \<Rightarrow> sys \<Rightarrow> bool" where
  "answered t w s a s' \<longleftrightarrow> resume t w s a s' \<or> (a = Inl Expired \<and> s' = s \<and> untimed w \<noteq> Start \<and> \<not> waits_for_task w s)"

lemma rely_refl: "rely t s s"
  by (simp add: rely_def keep_tasks_def keep_ops_def)

lemma guar_refl: "guar t s s"
  by (simp add: guar_def keep_tasks_def keep_ops_def)

lemma keep_tasks_trans: "keep_tasks s s1 \<Longrightarrow> keep_tasks s1 s2 \<Longrightarrow> keep_tasks s s2"
  by (auto simp: keep_tasks_def)

lemma keep_ops_trans: "keep_ops s s1 \<Longrightarrow> keep_ops s1 s2 \<Longrightarrow> keep_ops s s2"
  unfolding keep_ops_def by metis

lemma relyD:
  assumes "rely t s s'"
  shows "keep_tasks s s'" "keep_ops s s'" "outcome_of s' t = outcome_of s t"
    "lock_of s l = Some t \<longrightarrow> running_of s' l = running_of s l" "lock_of s' l = Some t \<longleftrightarrow> lock_of s l = Some t"
proof -
  note g = assms [unfolded rely_def]
  show "keep_tasks s s'" using g by (elim conjE)
  show "keep_ops s s'" using g by (elim conjE)
  show "outcome_of s' t = outcome_of s t" using g by (elim conjE)
  show "lock_of s l = Some t \<longrightarrow> running_of s' l = running_of s l"
    using g by (elim conjE allE [where x = l])
  show "lock_of s' l = Some t \<longleftrightarrow> lock_of s l = Some t"
    using g by (elim conjE allE [where x = l])
qed

lemma rely_trans:
  assumes "rely t s s1" and "rely t s1 s2"
  shows "rely t s s2"
  unfolding rely_def
proof (intro conjI allI)
  note a = relyD [OF assms(1)] and b = relyD [OF assms(2)]
  show "keep_tasks s s2" by (rule keep_tasks_trans [OF a(1) b(1)])
  show "keep_ops s s2" by (rule keep_ops_trans [OF a(2) b(2)])
  show "outcome_of s2 t = outcome_of s t" using a(3) b(3) by simp
  show "lock_of s l = Some t \<longrightarrow> running_of s2 l = running_of s l" for l using a(4,5) [of l] b(4) [of l] by simp
  show "lock_of s2 l = Some t \<longleftrightarrow> lock_of s l = Some t" for l using a(5) [of l] b(5) [of l] by simp
qed

lemma may_wait_rely: "may_wait t w s \<Longrightarrow> rely t s s1 \<Longrightarrow> may_wait t w s1"
  unfolding may_wait_def rely_def keep_tasks_def keep_ops_def holds_none_def
  by (cases "untimed w") (auto, blast+)

interpretation lab: interference safe "rely t" "guar t" "answered t" "may_wait t" for t
  by unfold_locales (rule rely_refl, rule rely_trans, assumption+, rule guar_refl, rule may_wait_rely)

section \<open>Calm changes\<close>

text \<open>A change that leaves locks, operations and the known tasks alone.\<close>

definition calm :: "sys \<Rightarrow> sys \<Rightarrow> bool" where
  "calm s s' \<longleftrightarrow> next_id s \<le> next_id s' \<and> ops s' = ops s \<and>
     (\<forall>l \<in> snd ` set (labs s'). l \<in> snd ` set (labs s) \<or> l < next_id s') \<and>
     (\<forall>l. lock_of s' l = lock_of s l \<and> running_of s' l = running_of s l) \<and>
     (\<forall>i. outcome_of s' i = outcome_of s i) \<and>
     (\<forall>i. kind_of s' i = kind_of s i \<or>
        kind_of s i = None \<and> i < next_id s' \<and> (\<exists>k. kind_of s' i = Some k \<and> kind_level k = 0))"

lemma kind_of_None: "kind_of s t = None \<longleftrightarrow> tasks s t = None"
  by (simp add: kind_of_def)

lemma live_kind: "live s t \<longleftrightarrow> kind_of s t \<noteq> None \<and> outcome_of s t = None"
  by (simp add: live_def kind_of_def)

lemma calm_refl: "calm s s"
  by (simp add: calm_def)

lemma calmD:
  assumes "calm s s'"
  shows "next_id s \<le> next_id s'" "ops s' = ops s" "lock_of s' l = lock_of s l"
    "running_of s' l = running_of s l" "outcome_of s' i = outcome_of s i"
    "kind_of s i = Some k \<Longrightarrow> kind_of s' i = Some k"
    "kind_of s' i = Some k \<Longrightarrow> kind_of s i = Some k \<or> kind_of s i = None \<and> i < next_id s' \<and> kind_level k = 0"
    "x \<in> snd ` set (labs s') \<Longrightarrow> x \<in> snd ` set (labs s) \<or> x < next_id s'"
  using assms unfolding calm_def
  by (blast, blast, blast, blast, blast, metis option.distinct(1), metis option.inject, blast)

lemma calm_monitors:
  assumes "calm s s'" shows "monitors s' t l = monitors s t l"
proof
  assume "monitors s' t l"
  then obtain op d b where k: "kind_of s' t = Some (Monitor_operation l op d b)" by (auto simp: monitors_def)
  from calmD(7) [OF assms k] show "monitors s t l" by (auto simp: monitors_def kind_level_def)
next
  assume "monitors s t l"
  then show "monitors s' t l" using calmD(6) [OF assms] unfolding monitors_def by blast
qed

lemma calm_live_monitors: "calm s s' \<Longrightarrow> live s' t \<Longrightarrow> monitors s' t l \<Longrightarrow> live s t \<and> monitors s t l"
  using calm_monitors [of s s' t l] calmD(5) [of s s' t] by (auto simp: live_kind monitors_def)

lemma safeD:
  assumes "safe s"
  shows "next_id s \<le> i \<Longrightarrow> tasks s i = None \<and> ops s i = None \<and> lock_of s i = None \<and> running_of s i = None"
    "lock_of s l = Some t \<Longrightarrow> live s t \<and> kind_of s t = Some Client"
    "ops s i = Some op \<Longrightarrow> \<exists>l. monitors s (op_task op) l"
    "ops s i = Some op \<Longrightarrow> outcome_of s (op_task op) = Some x \<Longrightarrow> x \<noteq> Inl Cancelled \<Longrightarrow> op_complete op"
    "ops s i = Some a \<Longrightarrow> ops s j = Some b \<Longrightarrow> op_task a = op_task b \<Longrightarrow> i = j"
    "running_of s l = Some i \<Longrightarrow> \<exists>op. ops s i = Some op \<and> monitors s (op_task op) l"
    "live s t \<Longrightarrow> monitors s t l \<Longrightarrow> \<exists>i op. running_of s l = Some i \<and> ops s i = Some op \<and> op_task op = t"
    "l \<in> snd ` set (labs s) \<Longrightarrow> l < next_id s"
  using assms unfolding safe_def fresh_ok_def lock_ok_def ops_ok_def running_ok_def labs_ok_def by blast+

lemma calm_safe:
  assumes "safe s" and "calm s s'"
  shows "safe s'"
proof -
  note c = calmD [OF assms(2)] and m = calm_monitors [OF assms(2)] and d = safeD [OF assms(1)]
  have "tasks s' i = None \<and> ops s' i = None \<and> lock_of s' i = None \<and> running_of s' i = None"
    if "next_id s' \<le> i" for i
  proof -
    have old: "tasks s i = None \<and> ops s i = None \<and> lock_of s i = None \<and> running_of s i = None"
      using d(1) [of i] c(1) that by simp
    then have "kind_of s' i = None" using c(7) [of i] that by (cases "kind_of s' i") (auto simp: kind_of_def)
    with old c(2-4) show ?thesis by (simp add: kind_of_def)
  qed
  then have "fresh_ok s'" by (simp add: fresh_ok_def)
  moreover have "labs_ok s'"
    unfolding labs_ok_def using c(8) d(8) c(1) by (metis order.strict_trans2)
  moreover have "lock_ok s'"
    using d(2) c(3,5) c(6) unfolding lock_ok_def live_kind by (metis option.distinct(1))
  moreover have "ops_ok s'"
    using d(3-5) unfolding ops_ok_def c(2) m c(5) by blast
  moreover have "running_ok s'"
    using d(6,7) calm_live_monitors [OF assms(2)] unfolding running_ok_def c(2) c(4) m by blast
  ultimately show ?thesis by (simp add: safe_def)
qed

lemma calm_keep: "calm s s' \<Longrightarrow> keep_tasks s s' \<and> keep_ops s s'"
  using calmD [of s s'] unfolding keep_tasks_def keep_ops_def by metis

lemma calm_rely: "calm s s' \<Longrightarrow> rely t s s'"
  using calm_keep [of s s'] calmD [of s s'] unfolding rely_def by metis

lemma guarD:
  assumes "guar t s s'"
  shows "keep_tasks s s'" "keep_ops s s'" "kind_of s i \<noteq> None \<longrightarrow> outcome_of s' i = outcome_of s i"
    "kind_of s i = None \<longrightarrow> kind_of s' i \<noteq> Some Client"
    "lock_of s l \<noteq> Some t \<longrightarrow> lock_of s' l = lock_of s l \<and> running_of s' l = running_of s l"
    "lock_of s l = Some t \<longrightarrow> lock_of s' l = Some t \<or> lock_of s' l = None"
proof -
  note g = assms [unfolded guar_def]
  show "keep_tasks s s'" using g by (elim conjE)
  show "keep_ops s s'" using g by (elim conjE)
  show "kind_of s i \<noteq> None \<longrightarrow> outcome_of s' i = outcome_of s i"
    using g by (elim conjE allE [where x = i])
  show "kind_of s i = None \<longrightarrow> kind_of s' i \<noteq> Some Client"
    using g by (elim conjE allE [where x = i])
  show "lock_of s l \<noteq> Some t \<longrightarrow> lock_of s' l = lock_of s l \<and> running_of s' l = running_of s l"
    using g by (elim conjE allE [where x = l])
  show "lock_of s l = Some t \<longrightarrow> lock_of s' l = Some t \<or> lock_of s' l = None"
    using g by (elim conjE allE [where x = l])
qed

lemma calm_guar:
  assumes "guar t s0 s" and "calm s s'"
  shows "guar t s0 s'"
proof -
  note c = calmD [OF assms(2)] and g = guarD [OF assms(1)]
  show ?thesis
    unfolding guar_def
  proof (intro conjI allI)
    show "keep_tasks s0 s'" "keep_ops s0 s'"
      using calm_keep [OF assms(2)] keep_tasks_trans keep_ops_trans g(1,2) by (blast, blast)
    show "kind_of s0 i \<noteq> None \<longrightarrow> outcome_of s' i = outcome_of s0 i" for i
      using g(3) [of i] c(5) [of i] by simp
    show "kind_of s0 i = None \<longrightarrow> kind_of s' i \<noteq> Some Client" for i
      using c(7) [of i Client] g(4) [of i] by (auto simp: kind_level_def)
    show "lock_of s0 l \<noteq> Some t \<longrightarrow> lock_of s' l = lock_of s0 l \<and> running_of s' l = running_of s0 l" for l
      using g(5) [of l] c(3,4) [of l] by simp
    show "lock_of s0 l = Some t \<longrightarrow> lock_of s' l = Some t \<or> lock_of s' l = None" for l
      using g(6) [of l] c(3) [of l] by simp
  qed
qed

section \<open>What keeps a condition\<close>

definition stable :: "task_id \<Rightarrow> (sys \<Rightarrow> bool) \<Rightarrow> bool" where
  "stable t J \<longleftrightarrow> (\<forall>s s'. J s \<longrightarrow> rely t s s' \<longrightarrow> J s')"

lemma stableD: "stable t J \<Longrightarrow> J s \<Longrightarrow> rely t s s' \<Longrightarrow> J s'"
  by (simp add: stable_def)

lemma stable_calm: "stable t J \<Longrightarrow> J s \<Longrightarrow> calm s s' \<Longrightarrow> J s'"
  by (blast intro: stableD calm_rely)

lemma resume_calm: "resume t w s a s' \<Longrightarrow> (\<forall>l. untimed w \<noteq> Lock l) \<Longrightarrow> calm s s'"
proof (induction rule: resume.induct)
  case (Cancels s w)
  then show ?case
    by (auto simp: calm_def clear_cancel_def kind_of_def outcome_of_def split: option.split)
qed (auto simp: calm_refl)

lemma answered_calm: "answered t w s a s' \<Longrightarrow> (\<forall>l. untimed w \<noteq> Lock l) \<Longrightarrow> calm s s'"
  using resume_calm calm_refl by (auto simp: answered_def)

lemma keeps_act:
  assumes "stable t J" and "\<And>s. safe s \<Longrightarrow> calm s (f s)"
  shows "lab.keeps t J (act f)"
  unfolding lab.keeps_def
  using assms calm_safe calm_guar stable_calm by (intro lab.triple_act) blast

lemma keeps_await:
  assumes "stable t J" and "\<And>l. untimed w \<noteq> Lock l" and "\<And>s. safe s \<Longrightarrow> J s \<Longrightarrow> may_wait t w s"
  shows "lab.keeps t J (await w)"
  unfolding lab.keeps_def
proof (rule lab.triple_await)
  fix s s1 r s2
  assume "J s" "rely t s s1" "safe s1" "answered t w s1 r s2"
  then show "safe s2 \<and> J s2"
    using answered_calm assms(1,2) calm_safe stableD stable_calm by metis
qed (rule assms(3))

lemma may_wait_external: "external w \<Longrightarrow> may_wait t w s"
  by (cases w) (simp_all add: may_wait_def)

lemma external_no_lock: "external w \<Longrightarrow> untimed w \<noteq> Lock l"
  by (cases w) simp_all

lemma keeps_external: "stable t J \<Longrightarrow> external w \<Longrightarrow> lab.keeps t J (await w)"
  by (rule keeps_await) (simp_all add: may_wait_external external_no_lock)

section \<open>The assignments of the service\<close>

lemma calm_upd_lab: "(\<And>r. lock (f r) = lock r \<and> running (f r) = running r) \<Longrightarrow> calm s (upd_lab l f s)"
  by (simp add: calm_def upd_lab_def kind_of_def outcome_of_def)

lemma calm_states: "calm s (s\<lparr>states := z\<rparr>)" and calm_labs: "calm s (s\<lparr>labs := []\<rparr>)"
  and calm_spawner: "calm s (s\<lparr>spawner_done := b\<rparr>)" and calm_clock: "calm s (s\<lparr>clock := x\<rparr>)"
  by (simp_all add: calm_def kind_of_def outcome_of_def)

lemma calm_upd_state: "calm s (upd_state i f s)"
  by (simp add: upd_state_def calm_states)

lemma calm_enqueue: "calm s (enqueue l c s)"
  by (simp add: enqueue_def calm_upd_lab)

lemma calm_task_flag:
  "tasks s t = Some r \<Longrightarrow> kind r' = kind r \<Longrightarrow> outcome r' = outcome r \<Longrightarrow> calm s (s\<lparr>tasks := (tasks s)(t \<mapsto> r')\<rparr>)"
  by (simp add: calm_def kind_of_def outcome_of_def)

lemma calm_cancel_task: "calm s (cancel_task t s)"
  by (auto simp: cancel_task_def intro: calm_task_flag calm_refl split: option.split)

lemma calm_clear_cancel: "calm s (clear_cancel t s)"
  by (auto simp: clear_cancel_def intro: calm_task_flag calm_refl split: option.split)

lemma calm_trans:
  assumes "calm s s1" and "calm s1 s2"
  shows "calm s s2"
proof -
  note a = calmD [OF assms(1)] and b = calmD [OF assms(2)]
  have "kind_of s2 i = kind_of s i \<or>
      kind_of s i = None \<and> i < next_id s2 \<and> (\<exists>k. kind_of s2 i = Some k \<and> kind_level k = 0)" for i
  proof (cases "kind_of s i")
    case None
    then show ?thesis
      using a(7) [of i] b(1) b(6) [of i] b(7) [of i] by (cases "kind_of s2 i"; cases "kind_of s1 i") auto
  next
    case (Some k)
    then show ?thesis using a(6) b(6) by simp
  qed
  moreover have "x \<in> snd ` set (labs s) \<or> x < next_id s2" if "x \<in> snd ` set (labs s2)" for x
    using b(8) [OF that] a(8) [of x] b(1) by (metis order.strict_trans2)
  ultimately show ?thesis using a(1-5) b(1-5) by (simp add: calm_def)
qed

lemma calm_alloc_state: "calm s (s\<lparr>states := z, next_id := next_id s + 1\<rparr>)"
  by (simp add: calm_def kind_of_def outcome_of_def)

lemma calm_alloc_lab:
  assumes "safe s" shows "calm s (alloc_lab u i s)"
proof -
  have "l \<in> snd ` set (labs s) \<or> l < next_id s + 1"
    if "l \<in> snd ` set (dset u (next_id s) (labs s))" for l
    using dset_values [of l u "next_id s" "labs s"] that by auto
  then show ?thesis
    using safeD(1) [OF assms, of "next_id s"] by (simp add: calm_def alloc_lab_def kind_of_def outcome_of_def)
qed

lemma calm_watch: 
  assumes "safe s" and "kind_level k = 0"
  shows "calm s (s\<lparr>tasks := (tasks s)(next_id s \<mapsto> \<lparr>kind = k, outcome = None, cancel_requested = False\<rparr>),
    next_id := next_id s + 1\<rparr>)"
  using safeD(1) [OF assms(1), of "next_id s"] assms(2) by (auto simp: calm_def kind_of_def outcome_of_def)

lemmas calm_intros = calm_refl calm_upd_lab calm_states calm_labs calm_spawner calm_upd_state calm_enqueue
  calm_cancel_task calm_alloc_state calm_alloc_lab

section \<open>Stable conditions\<close>

definition idle :: "task_id \<Rightarrow> task_kind \<Rightarrow> sys \<Rightarrow> bool" where
  "idle t k s \<longleftrightarrow> kind_of s t = Some k \<and> outcome_of s t = None \<and> holds_none t s"

definition holding :: "task_id \<Rightarrow> lab_id \<Rightarrow> sys \<Rightarrow> bool" where
  "holding t l s \<longleftrightarrow> kind_of s t = Some Client \<and> outcome_of s t = None \<and> (\<forall>l'. lock_of s l' = Some t \<longleftrightarrow> l' = l)"

text \<open>\<open>i\<close> is an operation whose monitor task is \<open>k\<close>.\<close>

definition known_op :: "op_id \<Rightarrow> task_id \<Rightarrow> lab_id \<Rightarrow> sys \<Rightarrow> bool" where
  "known_op i k l s \<longleftrightarrow> (\<exists>op. ops s i = Some op \<and> op_task op = k) \<and> monitors s k l"

definition ended :: "task_id \<Rightarrow> sys \<Rightarrow> bool" where
  "ended k s \<longleftrightarrow> outcome_of s k \<noteq> None"

lemma stable_conj: "stable t J \<Longrightarrow> stable t K \<Longrightarrow> stable t (\<lambda>s. J s \<and> K s)"
  unfolding stable_def by blast

lemma stable_const: "stable t (\<lambda>s. b)"
  by (simp add: stable_def)

lemma stable_idle: "stable t (idle t k)"
  unfolding stable_def idle_def holds_none_def
proof (intro allI impI)
  fix s s' assume s: "kind_of s t = Some k \<and> outcome_of s t = None \<and> (\<forall>l. lock_of s l \<noteq> Some t)" and r: "rely t s s'"
  note g = relyD [OF r]
  show "kind_of s' t = Some k \<and> outcome_of s' t = None \<and> (\<forall>l. lock_of s' l \<noteq> Some t)"
    using g(1,3,5) s by (simp add: keep_tasks_def)
qed

lemma stable_holding: "stable t (holding t l)"
  unfolding stable_def holding_def
proof (intro allI impI)
  fix s s' assume s: "kind_of s t = Some Client \<and> outcome_of s t = None \<and> (\<forall>l'. lock_of s l' = Some t \<longleftrightarrow> l' = l)"
    and r: "rely t s s'"
  note g = relyD [OF r]
  show "kind_of s' t = Some Client \<and> outcome_of s' t = None \<and> (\<forall>l'. lock_of s' l' = Some t \<longleftrightarrow> l' = l)"
    using g(1,3,5) s by (simp add: keep_tasks_def)
qed

lemma stable_known_op: "stable t (known_op i k l)"
  unfolding stable_def known_op_def
proof (intro allI impI)
  fix s s' assume s: "(\<exists>op. ops s i = Some op \<and> op_task op = k) \<and> monitors s k l" and r: "rely t s s'"
  note g = relyD [OF r]
  have "monitors s' k l" using s g(1) unfolding monitors_def keep_tasks_def by blast
  moreover have "\<exists>op. ops s' i = Some op \<and> op_task op = k" using s g(2) unfolding keep_ops_def by blast
  ultimately show "(\<exists>op. ops s' i = Some op \<and> op_task op = k) \<and> monitors s' k l" by blast
qed

lemma stable_ended: "stable t (ended k)"
proof -
  have "ended k s'" if "ended k s" "rely t s s'" for s s'
    using relyD(1) [OF that(2)] that(1) by (auto simp: ended_def keep_tasks_def)
  then show ?thesis by (simp add: stable_def)
qed

lemma stable_running: "stable t (\<lambda>s. holding t l s \<and> running_of s l = x)"
proof -
  have "running_of s' l = running_of s l" if "holding t l s" "rely t s s'" for s s'
    using relyD(4) [OF that(2), of l] that(1) by (simp add: holding_def)
  then show ?thesis using stable_holding [of t l] by (auto simp: stable_def)
qed

lemma stable_kind: "stable t (\<lambda>s. kind_of s i = Some k)"
proof -
  have "kind_of s' i = Some k" if "kind_of s i = Some k" "rely t s s'" for s s'
    using relyD(1) [OF that(2)] that(1) by (simp add: keep_tasks_def)
  then show ?thesis by (simp add: stable_def)
qed

lemmas stable_intros = stable_conj stable_const stable_idle stable_holding stable_known_op stable_ended
  stable_running stable_kind

section \<open>Answers that are awaited\<close>

lemma keeps_ask [intro]:
  assumes "stable t J" and "\<And>q. external (Storage q)"
  shows "lab.keeps t J (ask_names q)" "lab.keeps t J (ask_objects q)" "lab.keeps t J (ask_secret q)"
    "lab.keeps t J (ask_phase q)" "lab.keeps t J (ask_message q)"
  unfolding ask_names_def ask_objects_def ask_secret_def ask_phase_def ask_message_def
  by (rule lab.keeps_bind [OF keeps_external [OF assms]]; auto intro: lab.keeps_intros split: answer.split)+

lemma keeps_ask_image: "stable t J \<Longrightarrow> lab.keeps t J (ask_image q)"
  unfolding ask_image_def
  by (rule lab.keeps_bind [OF keeps_external]) (auto intro: lab.keeps_intros split: answer.split)

lemma keeps_ask_unit: "lab.keeps t J (await w) \<Longrightarrow> lab.keeps t J (ask_unit w)"
  unfolding ask_unit_def by (intro lab.keeps_bind lab.keeps_Ret)

lemma keeps_ask_external: "stable t J \<Longrightarrow> external w \<Longrightarrow> lab.keeps t J (ask_unit w)"
  by (intro keeps_ask_unit keeps_external)

section \<open>Locks\<close>

lemma lock_upd [simp]:
  "lock_of (upd_lab l f s) l' = (if l' = l then lock (f (lab_objs s l)) else lock_of s l')"
  "running_of (upd_lab l f s) l' = (if l' = l then running (f (lab_objs s l)) else running_of s l')"
  "ops (upd_lab l f s) = ops s" "tasks (upd_lab l f s) = tasks s" "next_id (upd_lab l f s) = next_id s"
  "kind_of (upd_lab l f s) = kind_of s" "outcome_of (upd_lab l f s) = outcome_of s"
  by (simp_all add: upd_lab_def kind_of_def outcome_of_def fun_eq_iff)

lemma holding_iff: "holding t l s \<Longrightarrow> lock_of s l' = Some t \<longleftrightarrow> l' = l"
  by (simp add: holding_def)

text \<open>What happens to the record of a lab under its lock.\<close>

definition lab_change :: "task_id \<Rightarrow> lab_id \<Rightarrow> sys \<Rightarrow> sys \<Rightarrow> bool" where
  "lab_change t l s s' \<longleftrightarrow> ops s' = ops s \<and> tasks s' = tasks s \<and> next_id s' = next_id s \<and>
     (\<forall>l'. l' \<noteq> l \<longrightarrow> lock_of s' l' = lock_of s l' \<and> running_of s' l' = running_of s l') \<and>
     lock_of s l = Some t \<and> (lock_of s' l = Some t \<or> lock_of s' l = None)"

lemma lab_change_guar:
  assumes "lab_change t l s s'" and "guar t s0 s"
  shows "guar t s0 s'"
proof -
  have same: "kind_of s' = kind_of s" "outcome_of s' = outcome_of s" "ops s' = ops s" "next_id s' = next_id s"
    and other: "\<And>l'. l' \<noteq> l \<Longrightarrow> lock_of s' l' = lock_of s l' \<and> running_of s' l' = running_of s l'"
    and here: "lock_of s l = Some t" "lock_of s' l = Some t \<or> lock_of s' l = None"
    using assms(1) by (auto simp: lab_change_def kind_of_def outcome_of_def fun_eq_iff)
  note g = guarD [OF assms(2)]
  have l0: "lock_of s0 l = Some t" using g(5) [of l] here(1) by auto
  show ?thesis
    unfolding guar_def
  proof (intro conjI allI)
    show "keep_tasks s0 s'" "keep_ops s0 s'" using g(1,2) by (simp_all add: keep_tasks_def keep_ops_def same)
    show "kind_of s0 i \<noteq> None \<longrightarrow> outcome_of s' i = outcome_of s0 i"
      "kind_of s0 i = None \<longrightarrow> kind_of s' i \<noteq> Some Client" for i
      using g(3,4) [of i] by (simp_all add: same)
    show "lock_of s0 l' \<noteq> Some t \<longrightarrow> lock_of s' l' = lock_of s0 l' \<and> running_of s' l' = running_of s0 l'" for l'
      using g(5) [of l'] other [of l'] l0 by (cases "l' = l") auto
    show "lock_of s0 l' = Some t \<longrightarrow> lock_of s' l' = Some t \<or> lock_of s' l' = None" for l'
      using g(6) [of l'] other [of l'] here(2) by (cases "l' = l") auto
  qed
qed

lemma release_safe:
  assumes "safe s" and "holding t l s"
  shows "safe (upd_lab l (\<lambda>r. r\<lparr>lock := None\<rparr>) s)"
proof -
  note d = safeD [OF assms(1)]
  let ?s = "upd_lab l (\<lambda>r. r\<lparr>lock := None\<rparr>) s"
  have same: "monitors ?s = monitors s" "live ?s = live s"
    by (auto simp: monitors_def live_def fun_eq_iff outcome_of_def)
  have "fresh_ok ?s" using d(1) by (simp add: fresh_ok_def)
  moreover have "labs_ok ?s" using d(8) by (simp add: labs_ok_def upd_lab_def)
  moreover have "lock_ok ?s" using d(2) by (simp add: lock_ok_def same)
  moreover have "ops_ok ?s" using d(3-5) unfolding ops_ok_def same by simp
  moreover have "running_ok ?s" using d(6,7) unfolding running_ok_def same by simp
  ultimately show ?thesis by (simp add: safe_def)
qed

lemma release_idle: "holding t l s \<Longrightarrow> idle t Client (upd_lab l (\<lambda>r. r\<lparr>lock := None\<rparr>) s)"
  by (auto simp: holding_def idle_def holds_none_def)

definition ready :: "task_id \<Rightarrow> lab_id set \<Rightarrow> sys \<Rightarrow> bool" where
  "ready t L s \<longleftrightarrow> idle t Client s \<and> (\<forall>l \<in> L. l < next_id s)"

lemma stable_ready: "stable t (ready t L)"
proof -
  have "next_id s \<le> next_id s'" if "rely t s s'" for s s'
    using relyD(1) [OF that] by (simp add: keep_tasks_def)
  then show ?thesis using stable_idle [of t Client] unfolding stable_def ready_def by (meson order.strict_trans2)
qed

lemma acquire_safe:
  assumes "safe s" and "idle t Client s" and "l < next_id s" and "lock_of s l = None"
  shows "safe (upd_lab l (\<lambda>r. r\<lparr>lock := Some t\<rparr>) s)"
proof -
  note d = safeD [OF assms(1)]
  let ?s = "upd_lab l (\<lambda>r. r\<lparr>lock := Some t\<rparr>) s"
  have same: "monitors ?s = monitors s" "live ?s = live s"
    by (auto simp: monitors_def live_def fun_eq_iff outcome_of_def)
  have "fresh_ok ?s" using d(1) assms(3) by (auto simp: fresh_ok_def)
  moreover have "labs_ok ?s" using d(8) by (simp add: labs_ok_def upd_lab_def)
  moreover have "lock_ok ?s" using d(2) assms(2) by (simp add: lock_ok_def same live_kind idle_def)
  moreover have "ops_ok ?s" using d(3-5) unfolding ops_ok_def same by simp
  moreover have "running_ok ?s" using d(6,7) unfolding running_ok_def same by simp
  ultimately show ?thesis by (simp add: safe_def)
qed

lemma answered_Lock:
  assumes "answered t (Lock l) s a s'"
  shows "(lock_of s l = None \<and> a = Inr A_unit \<and> s' = upd_lab l (\<lambda>r. r\<lparr>lock := Some t\<rparr>) s) \<or>
    (\<exists>e. a = Inl e) \<and> calm s s'"
  using assms calm_clear_cancel calm_refl
  by (auto simp: answered_def elim!: resume_LockE)

text \<open>A further condition that other tasks and changes of the record of the lab leave alone.\<close>

definition unlocked :: "task_id \<Rightarrow> lab_id \<Rightarrow> (sys \<Rightarrow> bool) \<Rightarrow> bool" where
  "unlocked t l F \<longleftrightarrow> stable t F \<and> (\<forall>s f. F s \<longrightarrow> F (upd_lab l f s))"

definition held :: "task_id \<Rightarrow> lab_id \<Rightarrow> lab_id set \<Rightarrow> sys \<Rightarrow> bool" where
  "held t l L s \<longleftrightarrow> holding t l s \<and> (\<forall>l \<in> L. l < next_id s)"

lemma triple_lock:
  assumes "l \<in> L" and "unlocked t l F"
  shows "lab.triple t (\<lambda>s. ready t L s \<and> F s) (ask_unit (Lock l))
    (\<lambda>r s. case r of Inl e \<Rightarrow> ready t L s | Inr _ \<Rightarrow> held t l L s \<and> F s)"
  unfolding ask_unit_def
proof (rule lab.triple_bind [OF lab.triple_await])
  fix s assume "ready t L s \<and> F s"
  then show "may_wait t (Lock l) s" using assms(1) by (simp add: may_wait_def ready_def idle_def)
next
  fix s s1 r s2
  assume s: "safe s" "ready t L s \<and> F s" "rely t s s1" "safe s1" "answered t (Lock l) s1 r s2"
  then have r1: "ready t L s1" "F s1"
    using stableD [OF stable_ready] assms(2) stableD unfolding unlocked_def by blast+
  from answered_Lock [OF s(5)]
  show "safe s2 \<and> (case r of Inl e \<Rightarrow> ready t L s2 | Inr _ \<Rightarrow> held t l L s2 \<and> F s2)"
  proof (elim disjE conjE exE)
    assume "lock_of s1 l = None" "r = Inr A_unit" and s2: "s2 = upd_lab l (\<lambda>r. r\<lparr>lock := Some t\<rparr>) s1"
    then show ?thesis
      using acquire_safe [OF s(4), of t l] r1 assms
      by (auto simp: ready_def held_def holding_def idle_def holds_none_def unlocked_def)
  next
    fix e assume "r = Inl e" "calm s1 s2"
    then show ?thesis using calm_safe s(4) stable_calm [OF stable_ready] r1 by simp
  qed
qed (auto intro: lab.triple_Ret)

lemma triple_with_lock:
  assumes "l \<in> L" and "unlocked t l F"
    and "lab.triple t (\<lambda>s. held t l L s \<and> F s) p (\<lambda>r s. held t l L s \<and> K r s)"
    and "\<And>e s. K (Inl e) s" and "\<And>r s. K r s \<Longrightarrow> K r (upd_lab l (\<lambda>r. r\<lparr>lock := None\<rparr>) s)"
  shows "lab.triple t (\<lambda>s. ready t L s \<and> F s) (with_lock l p) (\<lambda>r s. ready t L s \<and> K r s)"
  unfolding with_lock_def
proof (rule lab.triple_seq [OF triple_lock [OF assms(1,2)]])
  show "lab.triple t (\<lambda>s. case Inr a of Inl e \<Rightarrow> ready t L s | Inr _ \<Rightarrow> held t l L s \<and> F s)
     (finally_do p (act (upd_lab l (\<lambda>r. r\<lparr>lock := None\<rparr>)))) (\<lambda>r s. ready t L s \<and> K r s)" for a
    unfolding sum.case
  proof (rule lab.triple_finally [OF assms(3)], rule lab.triple_act)
    fix r s0 s
    assume s: "safe s" "guar t s0 s" "held t l L s \<and> K r s"
    let ?s = "upd_lab l (\<lambda>r. r\<lparr>lock := None\<rparr>) s"
    have "lab_change t l s ?s" using s(3) by (simp add: lab_change_def held_def holding_def)
    then show "safe ?s \<and> guar t s0 ?s \<and>
       (case Inr () of Inl e \<Rightarrow> ready t L ?s \<and> K (Inl e) ?s | Inr _ \<Rightarrow> ready t L ?s \<and> K r ?s)"
      using release_safe release_idle [of t l s] lab_change_guar s assms(5) by (auto simp: ready_def held_def)
  qed
qed (simp add: assms(4))

lemma unlocked_True: "unlocked t l (\<lambda>_. True)"
  by (simp add: unlocked_def stable_def)

lemma unlocked_known_op: "unlocked t l' (known_op i k l)"
  using stable_known_op by (auto simp: unlocked_def known_op_def monitors_def)

section \<open>The monitor\<close>

lemma stable_held: "stable t (held t l L)"
proof -
  have "next_id s \<le> next_id s'" if "rely t s s'" for s s'
    using relyD(1) [OF that] by (simp add: keep_tasks_def)
  then show ?thesis using stable_holding [of t l] unfolding stable_def held_def by (meson order.strict_trans2)
qed

lemma stable_held_running: "stable t (\<lambda>s. held t l L s \<and> running_of s l = x)"
proof -
  have "held t l L s' \<and> running_of s' l = running_of s l" if "held t l L s" "rely t s s'" for s s'
    using stableD [OF stable_held that] relyD(4) [OF that(2), of l] that(1) by (simp add: held_def holding_def)
  then show ?thesis by (auto simp: stable_def)
qed

lemma keeps_with_lock:
  assumes "l \<in> L" and "lab.triple t (held t l L) p (\<lambda>r. held t l L)"
  shows "lab.keeps t (ready t L) (with_lock l p)"
  unfolding lab.keeps_def
  using triple_with_lock [OF assms(1) unlocked_True, of t p "\<lambda>_ _. True"] assms(2) by simp

definition launch :: "lab_id \<Rightarrow> task_kind \<Rightarrow> running_operation \<Rightarrow> sys \<Rightarrow> sys" where
  "launch l k op s = upd_lab l (\<lambda>r. r\<lparr>running := Some (next_id s + 1)\<rparr>)
     (s\<lparr>tasks := (tasks s)(next_id s \<mapsto> \<lparr>kind = k, outcome = None, cancel_requested = False\<rparr>),
        ops := (ops s)(next_id s + 1 \<mapsto> op), next_id := next_id s + 2\<rparr>)"

lemma launch_simps:
  assumes "safe s"
  shows "lock_of (launch l k op s) l' = lock_of s l'"
    "running_of (launch l k op s) l' = (if l' = l then Some (next_id s + 1) else running_of s l')"
    "kind_of (launch l k op s) i = (if i = next_id s then Some k else kind_of s i)"
    "outcome_of (launch l k op s) i = outcome_of s i"
    "ops (launch l k op s) i = (if i = next_id s + 1 then Some op else ops s i)"
    "next_id (launch l k op s) = next_id s + 2" "labs (launch l k op s) = labs s"
    "tasks (launch l k op s) i =
       (if i = next_id s then Some \<lparr>kind = k, outcome = None, cancel_requested = False\<rparr> else tasks s i)"
proof -
  have "tasks s (next_id s) = None" using safeD(1) [OF assms order.refl] by blast
  then show "lock_of (launch l k op s) l' = lock_of s l'"
    "running_of (launch l k op s) l' = (if l' = l then Some (next_id s + 1) else running_of s l')"
    "kind_of (launch l k op s) i = (if i = next_id s then Some k else kind_of s i)"
    "outcome_of (launch l k op s) i = outcome_of s i"
    "ops (launch l k op s) i = (if i = next_id s + 1 then Some op else ops s i)"
    "next_id (launch l k op s) = next_id s + 2" "labs (launch l k op s) = labs s"
    "tasks (launch l k op s) i =
       (if i = next_id s then Some \<lparr>kind = k, outcome = None, cancel_requested = False\<rparr> else tasks s i)"
    by (simp_all add: launch_def upd_lab_def kind_of_def outcome_of_def)
qed

lemma launch_safe:
  assumes "safe s" and "held t l L s" and "running_of s l = None"
    and k: "k = Monitor_operation l q d b" and op: "op_task op = next_id s"
  shows "safe (launch l k op s)"
proof -
  note d = safeD [OF assms(1)] and u = launch_simps [OF assms(1)]
  have lock: "lock_of s l = Some t" using assms(2) by (simp add: held_def holding_def)
  have l: "l < next_id s" using lock d(1) [of l] by (cases "l < next_id s") auto
  have new: "kind_of s (next_id s) = None" "outcome_of s (next_id s) = None"
    using d(1) [of "next_id s"] by (auto simp: kind_of_def outcome_of_def)
  have m: "monitors (launch l k op s) t' l' \<longleftrightarrow> (if t' = next_id s then l' = l else monitors s t' l')" for t' l'
    by (auto simp: monitors_def u k)
  have old: "t' \<noteq> next_id s" if "monitors s t' l'" for t' l' using that new by (auto simp: monitors_def)
  have "fresh_ok (launch l k op s)" using d(1) l by (simp add: fresh_ok_def u)
  moreover have "labs_ok (launch l k op s)" using d(8) by (force simp: labs_ok_def u)
  moreover have "lock_ok (launch l k op s)"
  proof -
    have "t' \<noteq> next_id s" if "lock_of s l' = Some t'" for l' t' using d(2) [OF that] new by auto
    then show ?thesis using d(2) by (simp add: lock_ok_def live_kind u)
  qed
  moreover have "ops_ok (launch l k op s)"
  proof -
    have one: "(\<exists>l'. monitors (launch l k op s) (op_task a) l') \<and>
        (\<forall>x. outcome_of s (op_task a) = Some x \<longrightarrow> x \<noteq> Inl Cancelled \<longrightarrow> op_complete a)"
      if "ops (launch l k op s) i = Some a" for i a
    proof (cases "i = next_id s + 1")
      case True
      then have "a = op" using that by (simp add: u)
      then show ?thesis using m op new(2) by auto
    next
      case False
      then have a: "ops s i = Some a" using that by (simp add: u)
      then show ?thesis using d(3) [OF a] d(4) [OF a] m old by metis
    qed
    have two: "i = j"
      if "ops (launch l k op s) i = Some a" "ops (launch l k op s) j = Some c" "op_task a = op_task c" for i j a c
    proof -
      have fresh: "op_task a' \<noteq> next_id s" if "ops s i' = Some a'" for i' a' using d(3) [OF that] old by blast
      show ?thesis
        using that fresh [of i a] fresh [of j c] d(5) [of i a j c] op
        by (cases "i = next_id s + 1"; cases "j = next_id s + 1") (auto simp: u)
    qed
    show ?thesis
      unfolding ops_ok_def u(4)
    proof (intro conjI allI impI)
      fix i a assume a: "ops (launch l k op s) i = Some a"
      show "\<exists>l'. monitors (launch l k op s) (op_task a) l'" using one [OF a] by blast
      show "op_complete a" if "outcome_of s (op_task a) = Some x" "x \<noteq> Inl Cancelled" for x
        using one [OF a] that by blast
    next
      fix i j a c
      assume "ops (launch l k op s) i = Some a" "ops (launch l k op s) j = Some c" "op_task a = op_task c"
      then show "i = j" by (rule two)
    qed
  qed
  moreover have "running_ok (launch l k op s)"
  proof -
    have "\<exists>a. ops (launch l k op s) i = Some a \<and> monitors (launch l k op s) (op_task a) l'"
      if r: "running_of (launch l k op s) l' = Some i" for l' i
    proof (cases "l' = l")
      case True
      then show ?thesis using r op by (simp add: u m)
    next
      case False
      then obtain a where a: "ops s i = Some a" "monitors s (op_task a) l'" using r d(6) [of l' i] by (auto simp: u)
      moreover have "i \<noteq> next_id s + 1" using a(1) d(1) [of i] by auto
      ultimately show ?thesis using old by (auto simp: u m)
    qed
    moreover have "\<exists>i a. running_of (launch l k op s) l' = Some i \<and> ops (launch l k op s) i = Some a \<and> op_task a = t'"
      if "live (launch l k op s) t'" "monitors (launch l k op s) t' l'" for t' l'
    proof (cases "t' = next_id s")
      case True
      then show ?thesis using that(2) op by (simp add: u m)
    next
      case False
      then have "live s t'" "monitors s t' l'" using that by (auto simp: live_kind u m)
      then obtain i a where a: "running_of s l' = Some i" "ops s i = Some a" "op_task a = t'" using d(7) by blast
      moreover have "l' \<noteq> l" using a(1) assms(3) by auto
      moreover have "i \<noteq> next_id s + 1" using a(2) d(1) [of i] by auto
      ultimately show ?thesis by (simp add: u)
    qed
    ultimately show ?thesis by (simp add: running_ok_def)
  qed
  ultimately show ?thesis by (simp add: safe_def)
qed

lemma launch_guar:
  assumes "safe s" and "guar t s0 s" and "held t l L s" and "k \<noteq> Client"
  shows "guar t s0 (launch l k op s) \<and> held t l L (launch l k op s)"
proof
  note u = launch_simps [OF assms(1)] and g = guarD [OF assms(2)]
  have lock: "lock_of s l = Some t" using assms(3) by (simp add: held_def holding_def)
  then have l0: "lock_of s0 l = Some t" using g(5) [of l] by auto
  have new: "kind_of s (next_id s) = None" "outcome_of s (next_id s) = None" "ops s (next_id s + 1) = None"
    using safeD(1) [OF assms(1), of "next_id s"] safeD(1) [OF assms(1), of "next_id s + 1"]
    by (auto simp: kind_of_def outcome_of_def)
  show "guar t s0 (launch l k op s)"
    unfolding guar_def
  proof (intro conjI allI)
    show "keep_tasks s0 (launch l k op s)"
      using g(1) new(1) by (auto simp: keep_tasks_def u)
    show "keep_ops s0 (launch l k op s)"
      using g(2) new(3) by (force simp: keep_ops_def u)
    show "kind_of s0 i \<noteq> None \<longrightarrow> outcome_of (launch l k op s) i = outcome_of s0 i"
      "kind_of s0 i = None \<longrightarrow> kind_of (launch l k op s) i \<noteq> Some Client" for i
      using g(3,4) [of i] assms(4) by (auto simp: u)
    show "lock_of s0 l' \<noteq> Some t \<longrightarrow> lock_of (launch l k op s) l' = lock_of s0 l' \<and>
        running_of (launch l k op s) l' = running_of s0 l'"
      "lock_of s0 l' = Some t \<longrightarrow> lock_of (launch l k op s) l' = Some t \<or> lock_of (launch l k op s) l' = None" for l'
      using g(5,6) [of l'] l0 by (auto simp: u)
  qed
  show "held t l L (launch l k op s)"
    using assms(3) new by (auto simp: held_def holding_def u)
qed

lemma triple_monitor:
  assumes "l \<in> L"
  shows "lab.keeps t (ready t L) (monitor l op d b)"
  unfolding monitor_def
proof (rule keeps_with_lock [OF assms], rule lab.triple_Get)
  fix r
  show "lab.triple t (\<lambda>s. held t l L s \<and> running_of s l = r)
     (if r \<noteq> None then Raise OperationConflict
      else bind now (\<lambda>n. let op = op\<lparr>op_started := n\<rparr>
        in bind (new_task (Monitor_operation l op d b)) (\<lambda>k. bind (reading next_id) (\<lambda>i.
             act (\<lambda>s. upd_lab l (\<lambda>r. r\<lparr>running := Some i\<rparr>)
               (s\<lparr>ops := (ops s)(i \<mapsto> operation.extend op \<lparr>op_task = k, op_complete = False\<rparr>),
                  next_id := next_id s + 1\<rparr>))))))
     (\<lambda>r. held t l L)"
  proof (cases "r = None")
    case False
    then show ?thesis by (auto intro: lab.triple_Raise)
  next
    case True
    show ?thesis
    proof (rule lab.tripleI)
      fix s0 s assume s: "safe s" "guar t s0 s" "held t l L s \<and> running_of s l = r"
      let ?op = "op\<lparr>op_started := clock s\<rparr>"
      let ?rop = "operation.extend ?op \<lparr>op_task = next_id s, op_complete = False\<rparr>"
      let ?s = "launch l (Monitor_operation l ?op d b) ?rop s"
      have "safe ?s \<and> guar t s0 ?s \<and> held t l L ?s"
        using s True launch_safe [of s t l L _ ?op d b ?rop] launch_guar [of s t s0 l L _ ?rop]
        by (auto simp: operation.defs)
      then show "lab.wp t
        (if r \<noteq> None then Raise OperationConflict
         else bind now (\<lambda>n. let op = op\<lparr>op_started := n\<rparr>
           in bind (new_task (Monitor_operation l op d b)) (\<lambda>k. bind (reading next_id) (\<lambda>i.
                act (\<lambda>s. upd_lab l (\<lambda>r. r\<lparr>running := Some i\<rparr>)
                  (s\<lparr>ops := (ops s)(i \<mapsto> operation.extend op \<lparr>op_task = k, op_complete = False\<rparr>),
                     next_id := next_id s + 1\<rparr>))))))
        (\<lambda>r s0 s. safe s \<and> guar t s0 s \<and> held t l L s) s0 s"
        using True by (simp add: now_def new_task_def reading_def act_def seq_def launch_def Let_def)
    qed
  qed
qed

text \<open>Waiting for a task ends when the task has ended, also when the waiting is cancelled.\<close>

lemma answered_Task:
  assumes "answered t (Task k) s a s'"
  shows "calm s s' \<and> ended k s"
  using assms calm_refl calm_clear_cancel
  by (auto simp: answered_def waits_for_task_def ended_def elim!: resume_TaskE)

lemma triple_Task:
  assumes "stable t J" and "\<And>s. safe s \<Longrightarrow> J s \<Longrightarrow> may_wait t (Task k) s"
  shows "lab.triple t J (ask_unit (Task k)) (\<lambda>r s. J s \<and> ended k s)"
  unfolding ask_unit_def
proof (rule lab.triple_bind [OF lab.triple_await])
  fix s s1 r s2
  assume s: "safe s" "J s" "rely t s s1" "safe s1" "answered t (Task k) s1 r s2"
  have c: "calm s1 s2" "ended k s1" using answered_Task [OF s(5)] by simp_all
  have "J s2" using stableD [OF assms(1) s(2,3)] stable_calm [OF assms(1)] c(1) by blast
  moreover have "ended k s2" using stable_calm [OF stable_ended c(2,1)] by simp
  moreover have "safe s2" by (rule calm_safe [OF s(4) c(1)])
  ultimately show "safe s2 \<and> J s2 \<and> ended k s2" by simp
qed (simp_all add: assms(2) lab.triple_Ret)

lemma monitors_kind: "monitors s k l \<Longrightarrow> \<exists>k'. kind_of s k = Some k' \<and> kind_level k' = 1"
  by (auto simp: monitors_def kind_level_def)

lemma client_may_wait:
  assumes "kind_of s t = Some Client" and "monitors s k l"
  shows "may_wait t (Task k) s"
  using assms monitors_kind [OF assms(2)] by (auto simp: may_wait_def kind_level_def)

lemma held_kind: "held t l L s \<Longrightarrow> kind_of s t = Some Client"
  by (simp add: held_def holding_def)

definition idle_op :: "lab_id \<Rightarrow> sys \<Rightarrow> sys" where
  "idle_op l = upd_lab l (\<lambda>r. r\<lparr>running := None\<rparr>)"

lemma clear_safe:
  assumes "safe s" and "held t l L s" and "running_of s l = Some i" and "known_op i k l s" and "ended k s"
  shows "safe (idle_op l s)"
proof -
  note d = safeD [OF assms(1)]
  let ?s = "idle_op l s"
  have same: "monitors ?s = monitors s" "live ?s = live s" "ops ?s = ops s" "tasks ?s = tasks s"
      "labs ?s = labs s" "next_id ?s = next_id s" "outcome_of ?s = outcome_of s" "kind_of ?s = kind_of s"
    and lock: "lock_of ?s l' = lock_of s l'"
    and run: "running_of ?s l' = (if l' = l then None else running_of s l')" for l'
    by (auto simp: idle_op_def monitors_def live_def fun_eq_iff outcome_of_def upd_lab_def kind_of_def)
  have "fresh_ok ?s" using d(1) by (simp add: fresh_ok_def same lock run)
  moreover have "labs_ok ?s" using d(8) by (simp add: labs_ok_def same)
  moreover have "lock_ok ?s" using d(2) by (simp add: lock_ok_def same lock)
  moreover have "ops_ok ?s" using d(3-5) unfolding ops_ok_def same by blast
  moreover have "running_ok ?s"
  proof -
    have "\<exists>i op. running_of ?s l' = Some i \<and> ops ?s i = Some op \<and> op_task op = t'"
      if t': "live s t'" "monitors s t' l'" for t' l'
    proof -
      obtain j op where j: "running_of s l' = Some j" "ops s j = Some op" "op_task op = t'"
        using d(7) [OF t'] by blast
      have "l' \<noteq> l"
      proof
        assume "l' = l"
        then have "op_task op = k" using j assms(3,4) by (auto simp: known_op_def)
        then show False using t'(1) j(3) assms(5) by (simp add: live_kind ended_def)
      qed
      then show ?thesis using j by (simp add: run same)
    qed
    moreover have "\<exists>op. ops s i = Some op \<and> monitors s (op_task op) l'" if "running_of ?s l' = Some i" for l' i
      using d(6) [of l' i] that by (simp add: run split: if_splits)
    ultimately show ?thesis unfolding running_ok_def same by blast
  qed
  ultimately show ?thesis by (simp add: safe_def)
qed

lemma clear_guar:
  assumes "guar t s0 s" and "held t l L s"
  shows "guar t s0 (idle_op l s) \<and> held t l L (idle_op l s)"
proof
  have "lab_change t l s (idle_op l s)"
    using assms(2) by (auto simp: lab_change_def held_def holding_def idle_op_def)
  then show "guar t s0 (idle_op l s)" by (rule lab_change_guar [OF _ assms(1)])
  show "held t l L (idle_op l s)" using assms(2) by (auto simp: held_def holding_def idle_op_def)
qed

lemma triple_clear:
  "lab.triple t (\<lambda>s. held t l L s \<and> running_of s l = Some i \<and> known_op i k l s \<and> ended k s)
     (act (upd_lab l (\<lambda>r. r\<lparr>running := None\<rparr>))) (\<lambda>r. held t l L)"
  using clear_safe clear_guar unfolding idle_op_def by (intro lab.triple_act) blast

lemma keeps_put_event: "stable t J \<Longrightarrow> lab.keeps t J (put_event l ty m p)"
  unfolding put_event_def by (intro keeps_act calm_intros)

lemma keeps_report: "stable t J \<Longrightarrow> lab.keeps t J (maybe_post_exception e)"
  unfolding maybe_post_exception_def by (rule keeps_ask_external) simp_all

lemma running_known:
  assumes "safe s" and "running_of s l = Some i"
  shows "known_op i (op_task (op_of s i)) l s"
  using safeD(6) [OF assms] by (auto simp: known_op_def op_of_def)

lemma triple_bind_reading:
  "(\<And>x. lab.triple t J (f x) K) \<Longrightarrow> lab.triple t J (bind (reading h) f) K"
  by (rule lab.triple_Get) (auto intro: lab.triple_mono)

text \<open>After waiting for the task of the current operation, the monitor has no operation.\<close>

lemma triple_wait_clear:
  assumes "\<And>J e. stable t J \<Longrightarrow> lab.keeps t J (h e)"
  shows "lab.triple t (\<lambda>s. (held t l L s \<and> running_of s l = Some i) \<and> known_op i k l s)
    (seq (catch (ask_unit (Task k)) h) (act (upd_lab l (\<lambda>r. r\<lparr>running := None\<rparr>)))) (\<lambda>r. held t l L)"
proof -
  let ?J = "\<lambda>s. (held t l L s \<and> running_of s l = Some i) \<and> known_op i k l s"
  have J: "stable t ?J" and JE: "stable t (\<lambda>s. ?J s \<and> ended k s)"
    by (intro stable_conj stable_held_running stable_known_op stable_ended)+
  have may: "may_wait t (Task k) s" if "?J s" for s
    using that client_may_wait held_kind by (auto simp: known_op_def)
  have "lab.triple t ?J (catch (ask_unit (Task k)) h) (\<lambda>r s. ?J s \<and> ended k s)"
    by (rule lab.triple_catch [OF triple_Task [OF J may]])
      (use assms [OF JE] in \<open>simp_all add: lab.keeps_def\<close>)
  then show ?thesis
    by (rule lab.triple_seq [OF _ lab.triple_mono [OF triple_clear [of t l L i k]]]) auto
qed

lemma keeps_monitor_cancel:
  assumes "l \<in> L"
  shows "lab.keeps t (ready t L) (monitor_cancel l)"
  unfolding monitor_cancel_def
proof (rule keeps_with_lock [OF assms], rule lab.triple_Get)
  fix r
  let ?wait = "\<lambda>op. seq (catch (ask_unit (Task (op_task op)))
      (\<lambda>e. if e = Cancelled then Ret () else if is_exception e then maybe_post_exception e else Raise e))
      (act (upd_lab l (\<lambda>r. r\<lparr>running := None\<rparr>)))"
  let ?cancel = "\<lambda>op finished. do_if (\<not> finished)
      (seq (put_event (op_lab op) EV_FAILED ''Operation cancelled'' None) (act (cancel_task (op_task op))))"
  let ?body = "\<lambda>i. bind (reading (\<lambda>s. op_of s i)) (\<lambda>op.
      bind (reading (\<lambda>s. task_done s (op_task op))) (\<lambda>finished. seq (?cancel op finished) (?wait op)))"
  show "lab.triple t (\<lambda>s. held t l L s \<and> running_of s l = r)
     (case r of None \<Rightarrow> Ret () | Some i \<Rightarrow> ?body i) (\<lambda>r. held t l L)"
  proof (cases r)
    case None
    then show ?thesis by (auto intro: lab.triple_Ret)
  next
    case (Some i)
    have "lab.triple t (\<lambda>s. held t l L s \<and> running_of s l = r) (?body i) (\<lambda>r. held t l L)"
    proof (rule lab.triple_Get)
      fix op :: running_operation
      let ?J = "\<lambda>s. (held t l L s \<and> running_of s l = Some i) \<and> known_op i (op_task op) l s"
      have J: "stable t ?J" by (intro stable_conj stable_held_running stable_known_op)
      have "lab.triple t ?J (seq (?cancel op b) (?wait op)) (\<lambda>r. held t l L)" for b
      proof (rule lab.triple_seq)
        show "lab.triple t ?J (?cancel op b) (\<lambda>r. ?J)"
          unfolding lab.keeps_def [symmetric]
          by (intro lab.keeps_intros keeps_put_event keeps_act calm_intros J)
        show "lab.triple t ?J (?wait op) (\<lambda>r. held t l L)"
          by (rule triple_wait_clear) (intro lab.keeps_intros keeps_report)
      qed simp
      then have "lab.triple t ?J (bind (reading (\<lambda>s. task_done s (op_task op)))
          (\<lambda>b. seq (?cancel op b) (?wait op))) (\<lambda>r. held t l L)"
        by (rule triple_bind_reading)
      then show "lab.triple t (\<lambda>s. (held t l L s \<and> running_of s l = r) \<and> op_of s i = op)
         (bind (reading (\<lambda>s. task_done s (op_task op))) (\<lambda>b. seq (?cancel op b) (?wait op))) (\<lambda>r. held t l L)"
        using running_known Some by (elim lab.triple_mono) auto
    qed
    then show ?thesis using Some by simp
  qed
qed

lemma keeps_report_exceptions: "stable t J \<Longrightarrow> lab.keeps t J p \<Longrightarrow> lab.keeps t J (report_exceptions p)"
  unfolding report_exceptions_def by (intro lab.keeps_intros keeps_report)

lemma known_op_upd_lab: "known_op i k l (upd_lab l' f s) = known_op i k l s"
  by (simp add: known_op_def monitors_def)

text \<open>The first half of \<open>wait\<close> finds the operation, the second clears it when its task has ended.\<close>

lemma triple_current_operation:
  assumes "l \<in> L"
  shows "lab.triple t (ready t L)
     (with_lock l (bind (reading (\<lambda>s. running (lab_objs s l)))
        (\<lambda>r. case r of None \<Rightarrow> Raise NoOperation | Some i \<Rightarrow> Ret i)))
     (\<lambda>r s. ready t L s \<and> (case r of Inl e \<Rightarrow> True | Inr i \<Rightarrow> \<exists>k. known_op i k l s))"
proof -
  have "lab.triple t (\<lambda>s. held t l L s \<and> True) (bind (reading (\<lambda>s. running (lab_objs s l)))
      (\<lambda>r. case r of None \<Rightarrow> Raise NoOperation | Some i \<Rightarrow> Ret i))
      (\<lambda>r s. held t l L s \<and> (case r of Inl e \<Rightarrow> True | Inr i \<Rightarrow> \<exists>k. known_op i k l s))"
  proof (rule lab.triple_Get)
    fix r
    show "lab.triple t (\<lambda>s. (held t l L s \<and> True) \<and> running_of s l = r)
       (case r of None \<Rightarrow> Raise NoOperation | Some i \<Rightarrow> Ret i)
       (\<lambda>r s. held t l L s \<and> (case r of Inl e \<Rightarrow> True | Inr i \<Rightarrow> \<exists>k. known_op i k l s))"
      by (cases r) (auto simp: lab.triple_def dest: running_known)
  qed
  then have "lab.triple t (\<lambda>s. ready t L s \<and> True)
     (with_lock l (bind (reading (\<lambda>s. running (lab_objs s l)))
        (\<lambda>r. case r of None \<Rightarrow> Raise NoOperation | Some i \<Rightarrow> Ret i)))
     (\<lambda>r s. ready t L s \<and> (case r of Inl e \<Rightarrow> True | Inr i \<Rightarrow> \<exists>k. known_op i k l s))"
  proof (rule triple_with_lock [OF assms unlocked_True])
    fix r :: "exn + op_id" and s
    assume "case r of Inl e \<Rightarrow> True | Inr i \<Rightarrow> \<exists>k. known_op i k l s"
    then show "case r of Inl e \<Rightarrow> True | Inr i \<Rightarrow> \<exists>k. known_op i k l (upd_lab l (\<lambda>r. r\<lparr>lock := None\<rparr>) s)"
      by (cases r) (auto simp: known_op_upd_lab)
  qed simp
  then show ?thesis by simp
qed

lemma triple_reap:
  "lab.triple t (\<lambda>s. held t l L s \<and> known_op i k l s)
     (seq (report_exceptions (bind (reading (\<lambda>s. op_task (op_of s i))) (\<lambda>k. ask_unit (Task k))))
          (act (upd_lab l (\<lambda>r. if running r = Some i then r\<lparr>running := None\<rparr> else r))))
     (\<lambda>r. held t l L)"
proof -
  let ?J = "\<lambda>s. held t l L s \<and> known_op i k l s"
  let ?JE = "\<lambda>s. ?J s \<and> ended k s"
  have J: "stable t ?J" and JE: "stable t ?JE" by (intro stable_conj stable_held stable_known_op stable_ended)+
  have "lab.triple t ?J (bind (reading (\<lambda>s. op_task (op_of s i))) (\<lambda>k. ask_unit (Task k))) (\<lambda>r. ?JE)"
  proof (rule lab.triple_Get)
    fix k'
    show "lab.triple t (\<lambda>s. ?J s \<and> op_task (op_of s i) = k') (ask_unit (Task k')) (\<lambda>r. ?JE)"
    proof (cases "k' = k")
      case True
      have "lab.triple t ?J (ask_unit (Task k)) (\<lambda>r. ?JE)"
        by (rule triple_Task [OF J]) (auto simp: known_op_def intro: client_may_wait held_kind)
      then show ?thesis unfolding True by (rule lab.triple_mono) auto
    next
      case False
      then show ?thesis by (auto simp: lab.triple_def known_op_def op_of_def)
    qed
  qed
  then have "lab.triple t ?J (report_exceptions (bind (reading (\<lambda>s. op_task (op_of s i))) (\<lambda>k. ask_unit (Task k))))
      (\<lambda>r. ?JE)"
    unfolding report_exceptions_def
    by (rule lab.triple_catch) (use keeps_report [OF JE] in \<open>simp_all add: lab.keeps_def lab.triple_Raise\<close>)
  moreover have "lab.triple t ?JE (act (upd_lab l (\<lambda>r. if running r = Some i then r\<lparr>running := None\<rparr> else r)))
      (\<lambda>r. held t l L)"
  proof (rule lab.triple_act)
    fix s0 s assume s: "safe s" "guar t s0 s" "?JE s"
    let ?f = "upd_lab l (\<lambda>r. if running r = Some i then r\<lparr>running := None\<rparr> else r)"
    show "safe (?f s) \<and> guar t s0 (?f s) \<and> held t l L (?f s)"
    proof (cases "running_of s l = Some i")
      case True
      then have "?f s = idle_op l s" by (simp add: upd_lab_def idle_op_def)
      then show ?thesis using clear_safe [OF s(1) _ True] clear_guar [OF s(2)] s(3) by auto
    next
      case False
      then have "?f s = s" by (simp add: upd_lab_def)
      then show ?thesis using s by simp
    qed
  qed
  ultimately show ?thesis by (rule lab.triple_seq) simp
qed

lemma keeps_monitor_wait:
  assumes "l \<in> L"
  shows "lab.keeps t (ready t L) (monitor_wait l)"
  unfolding monitor_wait_def lab.keeps_def
proof (rule lab.triple_bind [OF triple_current_operation [OF assms]], unfold sum.case)
  fix i
  let ?reap = "with_lock l (seq (report_exceptions (bind (reading (\<lambda>s. op_task (op_of s i))) (\<lambda>k. ask_unit (Task k))))
      (act (upd_lab l (\<lambda>r. if running r = Some i then r\<lparr>running := None\<rparr> else r))))"
  have "lab.triple t (\<lambda>s. ready t L s \<and> known_op i k l s) (seq (ask_unit (Complete i)) ?reap) (\<lambda>r. ready t L)" for k
  proof (rule lab.triple_seq)
    show "lab.triple t (\<lambda>s. ready t L s \<and> known_op i k l s) (ask_unit (Complete i)) (\<lambda>r s. ready t L s \<and> known_op i k l s)"
      unfolding lab.keeps_def [symmetric]
      by (intro keeps_ask_unit keeps_await stable_conj stable_ready stable_known_op)
        (auto simp: may_wait_def ready_def idle_def known_op_def)
    show "lab.triple t (\<lambda>s. ready t L s \<and> known_op i k l s) ?reap (\<lambda>r. ready t L)"
      using triple_with_lock [OF assms unlocked_known_op [of t l i k l] _, where K = "\<lambda>_ _. True"]
        triple_reap [of t l L i k] by simp
  qed simp
  then have "lab.triple t (\<lambda>s. \<exists>k. ready t L s \<and> known_op i k l s) (seq (ask_unit (Complete i)) ?reap) (\<lambda>r. ready t L)"
    by (rule lab.triple_ex)
  then show "lab.triple t (\<lambda>s. ready t L s \<and> (\<exists>k. known_op i k l s)) (seq (ask_unit (Complete i)) ?reap)
      (\<lambda>r. ready t L)"
    by (rule lab.triple_mono) auto
qed simp

section \<open>The calls of the interface\<close>

lemma ready_mono: "ready t L s \<Longrightarrow> L' \<subseteq> L \<Longrightarrow> ready t L' s"
  by (auto simp: ready_def)

text \<open>A lab that is in the dictionary is an object.\<close>

lemma keeps_reading_more:
  assumes "\<And>s. safe s \<Longrightarrow> V (f s) \<subseteq> snd ` set (labs s)"
    and "\<And>x. lab.keeps t (ready t (L \<union> V x)) (g x)"
  shows "lab.keeps t (ready t L) (bind (reading f) g)"
  unfolding lab.keeps_def
proof (rule lab.triple_Get)
  fix x
  have "ready t (L \<union> V x) s" if "safe s" "ready t L s" "f s = x" for s
  proof -
    have "l < next_id s" if "l \<in> V x" for l
      using that \<open>f s = x\<close> assms(1) [OF \<open>safe s\<close>] safeD(8) [OF \<open>safe s\<close>, of l] by blast
    then show ?thesis using that(2) by (auto simp: ready_def)
  qed
  then show "lab.triple t (\<lambda>s. ready t L s \<and> f s = x) (g x) (\<lambda>_. ready t L)"
    using assms(2) [of x] unfolding lab.keeps_def by (elim lab.triple_mono) (auto simp: ready_def)
qed

lemma keeps_reading_labs:
  assumes "\<And>s. safe s \<Longrightarrow> V (f s) \<subseteq> snd ` set (labs s)"
    and "\<And>x. lab.keeps t (ready t (V x)) (g x)"
  shows "lab.keeps t (ready t {}) (bind (reading f) g)"
  using keeps_reading_more [of V f t "{}" g] assms by simp

text \<open>A part of the state is computed and assigned without a suspension in between.\<close>

lemma keeps_transform:
  assumes "stable t J" and "\<And>s. safe s \<Longrightarrow> calm s (fst (f s))" and "\<And>x. lab.keeps t J (g x)"
  shows "lab.keeps t J (bind (reading f) (\<lambda>(s1, x). seq (act (\<lambda>_. s1)) (g x)))"
  unfolding lab.keeps_def lab.triple_def
proof (intro allI impI)
  fix s0 s assume s: "safe s" "guar t s0 s" "J s"
  have c: "calm s (fst (f s))" by (rule assms(2) [OF s(1)])
  have "lab.wp t (g (snd (f s))) (\<lambda>r s0 s. safe s \<and> guar t s0 s \<and> J s) s0 (fst (f s))"
    using assms(3) [of "snd (f s)"] calm_safe [OF s(1) c] calm_guar [OF s(2) c] stable_calm [OF assms(1) s(3) c]
    unfolding lab.keeps_def lab.triple_def by blast
  then show "lab.wp t (bind (reading f) (\<lambda>(s1, x). seq (act (\<lambda>_. s1)) (g x)))
      (\<lambda>r s0 s. safe s \<and> guar t s0 s \<and> J s) s0 s"
    by (simp add: reading_def act_def seq_def split_beta)
qed

lemma calm_reconcile_user: "calm s (fst (reconcile_user obs c u l s))"
  by (auto simp: reconcile_user_def calm_refl calm_upd_state split: option.split)

lemma calm_reconcile_known_users: "calm s (fst (reconcile_known_users obs c ls s))"
proof (induction obs c ls s rule: reconcile_known_users.induct)
  case (2 obs c u l rest s)
  have "calm s (fst (reconcile_known_users obs c rest (fst (reconcile_user obs c u l s))))"
    using calm_trans [OF calm_reconcile_user "2.IH"] by (metis prod.collapse)
  then show ?case by (simp add: split_beta Let_def)
qed (simp add: calm_refl)

lemma calm_add_observed_users: "safe s \<Longrightarrow> calm s (fst (add_observed_users obs us s))"
proof (induction us arbitrary: s)
  case (Cons u us)
  let ?s = "s\<lparr>states := (states s)(next_id s := the (map_of obs u)), next_id := next_id s + 1\<rparr>"
  let ?s' = "alloc_lab u (Some (next_id s)) ?s"
  have 1: "calm s ?s" by (rule calm_alloc_state)
  then have 2: "calm s ?s'" using calm_trans calm_alloc_lab calm_safe [OF Cons.prems 1] by blast
  have "calm s (fst (add_observed_users obs us ?s'))"
    using calm_trans [OF 2 Cons.IH] calm_safe [OF Cons.prems 2] by blast
  then show ?case by (simp add: split_beta Let_def)
qed (simp add: calm_refl)

named_theorems keeps_rules \<open>what the steps of the service keep\<close>

lemma keeps_assignments [keeps_rules]:
  assumes "stable t J"
  shows "lab.keeps t J (set_status i x)" "lab.keeps t J (set_internal_url i y)" "lab.keeps t J (set_lab_state l z)"
    "lab.keeps t J (clear_events l)" "lab.keeps t J (close_events l)" "lab.keeps t J (touch l)"
    "lab.keeps t J (put_event l ty m p)" "lab.keeps t J (maybe_post_exception e)"
  using assms unfolding set_status_def set_internal_url_def set_lab_state_def clear_events_def close_events_def touch_def
  by (intro keeps_act calm_intros keeps_put_event keeps_report; simp)+

lemma keeps_now [keeps_rules]: "lab.keeps t J now"
  unfolding now_def by (rule lab.keeps_reading)

lemma keeps_of_result [keeps_rules]: "lab.keeps t J (of_result r)"
  by (cases r) (simp_all add: of_result_def lab.keeps_Ret lab.keeps_Raise)

lemma keeps_new_timeout [keeps_rules]: "lab.keeps t J (new_timeout d)"
  unfolding new_timeout_def by (intro lab.keeps_intros keeps_now)

lemma keeps_new_state [keeps_rules]: "stable t J \<Longrightarrow> lab.keeps t J (new_state x)"
  unfolding new_state_def
proof (rule lab.keeps_bind [OF lab.keeps_reading])
  fix i assume J: "stable t J"
  have "lab.keeps t J (act (\<lambda>s. s\<lparr>states := (states s)(i := x), next_id := next_id s + 1\<rparr>))"
    by (rule keeps_act [OF J calm_alloc_state])
  then show "lab.keeps t J (seq (act (\<lambda>s. s\<lparr>states := (states s)(i := x), next_id := next_id s + 1\<rparr>)) (Ret i))"
    by (intro lab.keeps_seq lab.keeps_Ret)
qed

lemma keeps_select_image [keeps_rules]: "stable t J \<Longrightarrow> lab.keeps t J (select_image p)"
  unfolding select_image_def by (intro lab.keeps_intros keeps_ask_image)

lemma keeps_get_lab_state [keeps_rules]: "stable t J \<Longrightarrow> lab.keeps t J (get_lab_state_from_kubernetes cfg u)"
  unfolding get_lab_state_from_kubernetes_def
  by (intro lab.keeps_intros keeps_ask keeps_rules keeps_act calm_intros) simp_all

lemma stable_ready_all [intro]: "stable t (ready t L)"
  by (rule stable_ready)

lemma keeps_start_spawn: "l \<in> L \<Longrightarrow> lab.keeps t (ready t L) (start_spawn cfg g spec img res l f)"
  unfolding start_spawn_def
  by (intro lab.keeps_intros keeps_rules triple_monitor stable_ready)

lemma keeps_start_delete: "l \<in> L \<Longrightarrow> lab.keeps t (ready t L) (start_delete cfg u l)"
  unfolding start_delete_def
  by (intro lab.keeps_intros keeps_rules triple_monitor keeps_monitor_wait stable_ready)

lemma lab_of_user_bind:
  "bind (lab_of_user u) f =
     bind (reading (\<lambda>s. map_of (labs s) u)) (\<lambda>x. case x of None \<Rightarrow> Raise KeyErr | Some l \<Rightarrow> f l)"
  by (auto simp: lab_of_user_def reading_def fun_eq_iff split: option.split)

lemma map_of_labs: "set_option (map_of (labs s) u) \<subseteq> snd ` set (labs s)"
  using map_of_SomeD [of "labs s" u] by (cases "map_of (labs s) u") force+

lemma keeps_known_lab:
  assumes "\<And>l. lab.keeps t (ready t {l}) (f l)" and "lab.keeps t (ready t {}) p"
  shows "lab.keeps t (ready t {})
    (bind (reading (\<lambda>s. map_of (labs s) u)) (\<lambda>x. case x of None \<Rightarrow> p | Some l \<Rightarrow> f l))"
  by (rule keeps_reading_labs [where V = set_option, OF map_of_labs])
    (use assms in \<open>auto split: option.split\<close>)

lemma keeps_create_lab: "lab.keeps t (ready t {}) (create_lab cfg g spec)"
  unfolding create_lab_def lab_of_user_bind
  by (intro lab.keeps_intros keeps_rules keeps_known_lab keeps_start_spawn stable_ready keeps_act)
    (simp_all add: calm_refl calm_alloc_lab)

lemma keeps_delete_lab: "lab.keeps t (ready t {}) (delete_lab cfg u)"
  unfolding delete_lab_def
  by (intro lab.keeps_intros keeps_rules keeps_known_lab keeps_start_delete keeps_monitor_wait keeps_monitor_cancel
      stable_ready) simp_all

lemma keeps_gather: "lab.keeps t (ready t {}) (gather_current_state cfg c)"
proof -
  have "lab.keeps t (ready t {}) (observe_all cfg c nss ob)" for nss ob
    by (induction nss arbitrary: ob)
      (auto simp: observed_state_def Let_def intro!: lab.keeps_intros keeps_ask keeps_ask_external stable_ready)
  then show ?thesis
    unfolding gather_current_state_def by (intro lab.keeps_bind keeps_ask stable_ready) simp_all
qed

lemma keeps_monitor_pending: "lab.keeps t (ready t {}) (monitor_pending_spawn cfg u)"
  unfolding monitor_pending_spawn_def lab_of_user_bind
  by (intro lab.keeps_intros keeps_rules keeps_known_lab triple_monitor stable_ready) simp_all

lemma keeps_delete_completed: "lab.keeps t (ready t {}) (delete_completed_labs cfg)"
  unfolding delete_completed_labs_def split_beta
  by (intro lab.keeps_intros keeps_delete_lab)

lemma keeps_reconcile: "lab.keeps t (ready t {}) (reconcile cfg it)"
  unfolding reconcile_def
  by (intro lab.keeps_intros keeps_rules keeps_gather keeps_monitor_pending keeps_delete_completed stable_ready
      keeps_transform calm_reconcile_known_users calm_add_observed_users keeps_ask_external) simp_all

lemma keeps_reap_lab: "l \<in> L \<Longrightarrow> lab.keeps t (ready t L) (reap_lab l)"
  unfolding reap_lab_def by (intro lab.keeps_intros keeps_rules keeps_monitor_wait stable_ready)

lemma keeps_reap_from: "lab.keeps t (ready t L) (reap_from f n k)"
proof (induction f arbitrary: n k L)
  case (Suc f)
  show ?case
    unfolding reap_from.simps
    by (rule keeps_reading_more [where V = "\<lambda>d. snd ` set d"])
      (auto intro!: lab.keeps_intros keeps_reap_lab Suc.IH [simplified])
qed (simp add: lab.keeps_Ret)

lemma keeps_reap_pass: "lab.keeps t (ready t {}) reap_pass"
  unfolding reap_pass_def
  by (intro lab.keeps_intros keeps_ask_unit keeps_await keeps_act keeps_reap_from stable_ready calm_intros)
    (simp_all add: may_wait_def ready_def idle_def)

lemma keeps_stop_monitor_tasks: "lab.keeps t (ready t {}) stop_monitor_tasks"
  unfolding stop_monitor_tasks_def
  by (rule keeps_reading_labs [where V = "\<lambda>d. snd ` set d"])
    (auto intro!: lab.keeps_intros keeps_monitor_cancel keeps_act stable_ready calm_intros
      rev_image_eqI)

lemma keeps_client: "client_code cfg p \<Longrightarrow> lab.keeps t (ready t {}) p"
  by (induction rule: client_code.induct)
    (rule keeps_create_lab keeps_delete_lab keeps_reconcile keeps_reap_pass keeps_stop_monitor_tasks)+

section \<open>The monitored operations\<close>

lemma monitor_may_wait:
  assumes "idle t (Monitor_operation l op d b) s" and "kind_of s k = Some (Watch_spawn_events ns l' d')"
  shows "may_wait t (Task k) s"
  using assms by (auto simp: may_wait_def idle_def kind_level_def)

lemma triple_watch:
  assumes "stable t J"
  shows "lab.triple t J (new_task (Watch_spawn_events ns l d))
    (\<lambda>r s. case r of Inl e \<Rightarrow> J s | Inr k \<Rightarrow> J s \<and> kind_of s k = Some (Watch_spawn_events ns l d))"
  unfolding lab.triple_def
proof (intro allI impI)
  fix s0 s assume s: "safe s" "guar t s0 s" "J s"
  let ?s = "s\<lparr>tasks := (tasks s)(next_id s \<mapsto> \<lparr>kind = Watch_spawn_events ns l d, outcome = None, cancel_requested = False\<rparr>),
    next_id := next_id s + 1\<rparr>"
  have c: "calm s ?s" by (rule calm_watch [OF s(1)]) (simp add: kind_level_def)
  show "lab.wp t (new_task (Watch_spawn_events ns l d)) (\<lambda>r s0 s. safe s \<and> guar t s0 s \<and>
      (case r of Inl e \<Rightarrow> J s | Inr k \<Rightarrow> J s \<and> kind_of s k = Some (Watch_spawn_events ns l d))) s0 s"
    using calm_safe [OF s(1) c] calm_guar [OF s(2) c] stable_calm [OF assms s(3) c]
    by (simp add: new_task_def reading_def act_def seq_def kind_of_def)
qed

lemma keeps_watch_lab_spawn:
  "lab.keeps t (idle t (Monitor_operation l op d b)) (watch_lab_spawn cfg i l' d')"
  (is "lab.keeps t ?J _")
  unfolding watch_lab_spawn_def Let_def
proof (rule lab.keeps_bind [OF lab.keeps_reading])
  fix u
  let ?ns = "build_object_names (m_lab cfg) u"
  let ?K = "\<lambda>k s. ?J s \<and> kind_of s k = Some (Watch_spawn_events ?ns l' d')"
  have K: "stable t (?K k)" for k by (intro stable_conj stable_idle stable_kind)
  let ?p = "\<lambda>k. seq (finally_do (ask_unit (Storage (Wait_for_pod_start (names_pod ?ns) (names_namespace ?ns))))
       (seq (act (cancel_task k))
         (catch (ask_unit (Task k)) (\<lambda>e. if e = Cancelled \<or> e = Expired then Ret () else Raise e))))
    (seq (set_status i RUNNING) (put_event l' COMPLETE (''Lab Kubernetes pod started for '' @ u) None))"
  have "lab.keeps t (?K k) (?p k)" for k
    by (intro lab.keeps_intros keeps_rules keeps_ask_external keeps_act calm_intros K
        keeps_ask_unit keeps_await)
      (auto intro: monitor_may_wait)
  then have "lab.triple t (?K k) (?p k) (\<lambda>_. ?J)" for k
    unfolding lab.keeps_def by (rule lab.triple_mono) simp_all
  then show "lab.keeps t ?J (bind (new_task (Watch_spawn_events ?ns l' d')) ?p)"
    unfolding lab.keeps_def by (rule lab.triple_bind [OF triple_watch [OF stable_idle], unfolded sum.case])
qed

lemma keeps_delete_lab_objects: "stable t J \<Longrightarrow> lab.keeps t J (delete_lab_objects cfg u i l p q)"
  unfolding delete_lab_objects_def Let_def by (intro lab.keeps_intros keeps_rules keeps_ask_external) simp_all

lemma keeps_gather_secret_data: "stable t J \<Longrightarrow> lab.keeps t J (gather_secret_data cfg u)"
  unfolding gather_secret_data_def Let_def by (intro lab.keeps_intros keeps_rules keeps_ask) simp_all

lemma keeps_spawn_lab: "lab.keeps t (idle t (Monitor_operation l op d b)) (spawn_lab cfg g i spec img l' d' f)"
  unfolding spawn_lab_def
  by (intro lab.keeps_intros keeps_rules keeps_delete_lab_objects keeps_gather_secret_data keeps_ask
      keeps_ask_external keeps_watch_lab_spawn stable_idle) simp_all

lemma keeps_coro_code: "lab.keeps t (idle t (Monitor_operation l op d b)) (coro_code cfg op)"
  unfolding coro_code_def
  by (cases "op_coro op")
    (simp_all add: keeps_spawn_lab keeps_watch_lab_spawn lab.keeps_bind [OF lab.keeps_reading]
       keeps_delete_lab_objects stable_idle)

lemma answered_Timed: "answered t (Timed d w) s a s' \<Longrightarrow> answered t w s a s'"
  unfolding answered_def by (auto elim!: resume_TimedE intro: resume.Cancels simp: waits_for_task_def)

lemma keeps_enforce: "lab.keeps t J p \<Longrightarrow> lab.keeps t J (enforce d p)"
  unfolding enforce_def enforce_in_def
  by (intro lab.keeps_intros)
    (auto simp: lab.keeps_def may_wait_def intro!: lab.triple_relabel dest: answered_Timed)

lemma keeps_publish_result: "stable t J \<Longrightarrow> lab.keeps t J (publish_result l op ev)"
  unfolding publish_result_def by (intro lab.keeps_intros keeps_rules keeps_ask_external) simp_all

lemma keeps_operation_failed: "stable t J \<Longrightarrow> lab.keeps t J (operation_failed cfg l op e)"
  unfolding operation_failed_def by (intro lab.keeps_intros keeps_rules keeps_publish_result)

text \<open>A monitor task that ends by itself has set the \<open>complete\<close> event of its operation.\<close>

definition told :: "task_id \<Rightarrow> sys \<Rightarrow> bool" where
  "told t s \<longleftrightarrow> (\<forall>i op. ops s i = Some op \<longrightarrow> op_task op = t \<longrightarrow> op_complete op)"

definition mark_complete :: "op_id \<Rightarrow> sys \<Rightarrow> sys" where
  "mark_complete i s = s\<lparr>ops := (ops s)(i \<mapsto> (op_of s i)\<lparr>op_complete := True\<rparr>)\<rparr>"

lemma mark_simps [simp]:
  "lock_of (mark_complete i s) l = lock_of s l" "running_of (mark_complete i s) l = running_of s l"
  "tasks (mark_complete i s) = tasks s" "next_id (mark_complete i s) = next_id s" "labs (mark_complete i s) = labs s"
  "kind_of (mark_complete i s) = kind_of s" "outcome_of (mark_complete i s) = outcome_of s"
  by (simp_all add: mark_complete_def kind_of_def outcome_of_def fun_eq_iff)

lemma mark_ops:
  "ops s i = Some op \<Longrightarrow> ops (mark_complete i s) j = (if j = i then Some (op\<lparr>op_complete := True\<rparr>) else ops s j)"
  by (simp add: mark_complete_def op_of_def)

lemma mark_safe:
  assumes "safe s" and i: "ops s i = Some op"
  shows "safe (mark_complete i s)"
proof -
  note d = safeD [OF assms(1)]
  let ?s = "mark_complete i s"
  have same: "monitors ?s = monitors s" "live ?s = live s"
    by (auto simp: monitors_def live_def fun_eq_iff)
  have old: "\<exists>a. ops s j = Some a \<and> op_task a = op_task a' \<and> (op_complete a \<longrightarrow> op_complete a')"
    if "ops ?s j = Some a'" for j a'
    using that i by (auto simp: mark_ops split: if_splits)
  have new: "\<exists>a'. ops ?s j = Some a' \<and> op_task a' = op_task a" if "ops s j = Some a" for j a
    using that i by (auto simp: mark_ops)
  have "ops s j = None \<Longrightarrow> ops ?s j = None" for j using i by (auto simp: mark_ops)
  then have "fresh_ok ?s" using d(1) by (simp add: fresh_ok_def)
  moreover have "labs_ok ?s" using d(8) by (simp add: labs_ok_def)
  moreover have "lock_ok ?s" using d(2) by (simp add: lock_ok_def same)
  moreover have "ops_ok ?s"
    unfolding ops_ok_def same mark_simps
  proof (intro conjI allI impI)
    fix j a assume "ops ?s j = Some a"
    then obtain a0 where a0: "ops s j = Some a0" "op_task a0 = op_task a" "op_complete a0 \<longrightarrow> op_complete a"
      using old by blast
    show "\<exists>l. monitors s (op_task a) l" using d(3) [OF a0(1)] a0(2) by simp
    show "op_complete a" if "outcome_of s (op_task a) = Some x" "x \<noteq> Inl Cancelled" for x
      using d(4) [OF a0(1)] that a0(2,3) by simp
  next
    fix j j' a a' assume "ops ?s j = Some a" "ops ?s j' = Some a'" "op_task a = op_task a'"
    then show "j = j'" using old [of j a] old [of j' a'] d(5) by metis
  qed
  moreover have "running_ok ?s"
    unfolding running_ok_def same mark_simps using d(6,7) new by metis
  ultimately show ?thesis by (simp add: safe_def)
qed

lemma mark_guar:
  assumes "guar t s0 s" and "ops s i = Some op"
  shows "guar t s0 (mark_complete i s)"
proof -
  note g = guarD [OF assms(1)]
  have "keep_ops s (mark_complete i s)" using assms(2) by (auto simp: keep_ops_def mark_ops)
  then have k: "keep_ops s0 (mark_complete i s)" by (rule keep_ops_trans [OF g(2)])
  have "keep_tasks s0 (mark_complete i s)" using g(1) by (simp add: keep_tasks_def)
  with k show ?thesis
    unfolding guar_def mark_simps by (intro conjI allI g(3-6))
qed

lemma triple_act_calm:
  assumes "stable t J" and "\<And>s. safe s \<Longrightarrow> calm s (f s)"
  shows "lab.triple t J (act f) (\<lambda>r s. case r of Inl e \<Rightarrow> False | Inr _ \<Rightarrow> J s)"
  using assms calm_safe calm_guar stable_calm by (intro lab.triple_act) (simp, blast)

lemma triple_operation_over:
  "lab.triple t (idle t (Monitor_operation l op d b)) (operation_over l op' b')
     (\<lambda>r s. idle t (Monitor_operation l op d b) s \<and> told t s)"
  (is "lab.triple t ?J _ ?K")
  unfolding operation_over_def
proof (rule lab.triple_seq)
  show "lab.triple t ?J (close_events (op_lab op')) (\<lambda>r s. case r of Inl e \<Rightarrow> False | Inr _ \<Rightarrow> ?J s)"
    unfolding close_events_def by (intro triple_act_calm stable_idle calm_enqueue)
  let ?f = "\<lambda>s. case running_of s l of None \<Rightarrow> s
                   | Some i \<Rightarrow> s\<lparr>ops := (ops s)(i \<mapsto> (op_of s i)\<lparr>op_complete := True\<rparr>)\<rparr>"
  have "lab.triple t ?J (act ?f) ?K"
  proof (rule lab.triple_act)
    fix s0 s assume s: "safe s" "guar t s0 s" "?J s"
    then have "live s t" "monitors s t l" by (auto simp: idle_def live_kind monitors_def)
    from safeD(7) [OF s(1) this] obtain i a where i: "running_of s l = Some i" "ops s i = Some a" "op_task a = t"
      by blast
    then have f: "?f s = mark_complete i s" by (simp add: mark_complete_def)
    have "told t (mark_complete i s)"
      unfolding told_def mark_ops [OF i(2)]
    proof (intro allI impI)
      fix j c assume j: "(if j = i then Some (a\<lparr>op_complete := True\<rparr>) else ops s j) = Some c" "op_task c = t"
      show "op_complete c"
      proof (cases "j = i")
        case False
        then have "ops s j = Some c" using j(1) by simp
        with False safeD(5) [OF s(1) i(2), of j c] i(3) j(2) show ?thesis by simp
      qed (use j(1) in auto)
    qed
    moreover have "?J (mark_complete i s)" using s(3) by (simp add: idle_def holds_none_def)
    ultimately show "safe (?f s) \<and> guar t s0 (?f s) \<and> ?J (?f s) \<and> told t (?f s)"
      unfolding f using mark_safe [OF s(1) i(2)] mark_guar [OF s(2) i(2)] by blast
  qed
  moreover have "lab.triple t (\<lambda>s. ?J s \<and> told t s) (do_if b' (act (\<lambda>s. s\<lparr>spawner_done := True\<rparr>))) ?K"
  proof (rule lab.triple_do_if [OF lab.triple_act])
    fix s0 s assume s: "safe s" "guar t s0 s" "?J s \<and> told t s"
    have c: "calm s (s\<lparr>spawner_done := True\<rparr>)" by (rule calm_spawner)
    show "safe (s\<lparr>spawner_done := True\<rparr>) \<and> guar t s0 (s\<lparr>spawner_done := True\<rparr>) \<and>
        ?J (s\<lparr>spawner_done := True\<rparr>) \<and> told t (s\<lparr>spawner_done := True\<rparr>)"
      using calm_safe [OF s(1) c] calm_guar [OF s(2) c] stable_calm [OF stable_idle _ c] s(3) calmD(2) [OF c]
      by (simp add: told_def)
  qed simp
  ultimately show "lab.triple t (\<lambda>s. case Inr a of Inl e \<Rightarrow> False | Inr _ \<Rightarrow> ?J s) (seq (act ?f) (do_if b' (act (\<lambda>s. s\<lparr>spawner_done := True\<rparr>)))) ?K"
    for a unfolding sum.case by (rule lab.triple_seq) simp
qed simp

lemma triple_monitor_operation:
  "lab.triple t (idle t (Monitor_operation l op d b)) (monitor_operation cfg l op d b)
     (\<lambda>r s. idle t (Monitor_operation l op d b) s \<and> told t s)"
  unfolding monitor_operation_def
proof (rule lab.triple_finally)
  show "lab.triple t (idle t (Monitor_operation l op d b))
    (try_else (enforce d (coro_code cfg op)) (operation_failed cfg l op) (\<lambda>_. publish_result l op Spawn_success))
    (\<lambda>r. idle t (Monitor_operation l op d b))"
    unfolding lab.keeps_def [symmetric]
    by (intro lab.keeps_try_else keeps_enforce keeps_coro_code keeps_operation_failed keeps_publish_result stable_idle)
  show "lab.triple t (idle t (Monitor_operation l op d b)) (operation_over l op b)
      (\<lambda>x s. case x of Inl e \<Rightarrow> idle t (Monitor_operation l op d b) s \<and> told t s
               | Inr _ \<Rightarrow> idle t (Monitor_operation l op d b) s \<and> told t s)" for r
    using triple_operation_over [of t l op d b op b] by (elim lab.triple_mono) (auto split: sum.split)
qed

lemma keeps_watch_spawn_events:
  assumes J: "stable t J"
  shows "lab.keeps t J (watch_spawn_events cfg ns l)"
proof -
  have "lab.keeps t J (watch_events n l pod ns p)" for n pod ns p
    by (induction n arbitrary: p) (auto intro!: lab.keeps_intros keeps_rules keeps_ask keeps_ask_external J)
  then show ?thesis unfolding watch_spawn_events_def by (intro lab.keeps_intros keeps_rules J)
qed

end
