(* ===== verification/Lab_Progress.thy ===== *)
theory Lab_Progress
  imports Lab_Safety
begin

text \<open>
  What holds of the pool of tasks at every moment, whatever runs in which order: the invariant of
  \<open>Lab_Safety\<close> is kept by every step, no two operations on one lab are live, and every task waits
  for one that can go on, but for those at rest, \<open>rests\<close>.
\<close>

section \<open>The event loop\<close>

definition over :: "task_id \<Rightarrow> task_kind \<Rightarrow> exn + unit \<Rightarrow> sys \<Rightarrow> bool" where
  "over t k r s \<longleftrightarrow> idle t k s \<and> (r \<noteq> Inl Cancelled \<longrightarrow> told t s)"

abbreviation at_end :: "task_id \<Rightarrow> task_kind \<Rightarrow> exn + unit \<Rightarrow> sys \<Rightarrow> sys \<Rightarrow> bool" where
  "at_end t k r s0 s \<equiv> safe s \<and> guar t s0 s \<and> over t k r s"

definition pool_ok :: "manager_config \<Rightarrow> pool \<Rightarrow> bool" where
  "pool_ok cfg c \<longleftrightarrow> safe (st c) \<and>
     (\<forall>t k. kind_of (st c) t = Some k \<longrightarrow> outcome_of (st c) t = None \<longrightarrow>
        (\<exists>w f. proc_of cfg c t = Await w f) \<and> lab.suspended t (proc_of cfg c t) (at_end t k) (st c)) \<and>
     (\<forall>t. kind_of (st c) t = None \<longrightarrow> procs c t = None)"

lemma pool_okI:
  assumes "safe (st c)"
    and "\<And>t k. kind_of (st c) t = Some k \<Longrightarrow> outcome_of (st c) t = None \<Longrightarrow>
      (\<exists>w f. proc_of cfg c t = Await w f) \<and> lab.suspended t (proc_of cfg c t) (at_end t k) (st c)"
    and "\<And>t. kind_of (st c) t = None \<Longrightarrow> procs c t = None"
  shows "pool_ok cfg c"
  using assms by (simp add: pool_ok_def)

lemma pool_okD:
  assumes "pool_ok cfg c"
  shows "safe (st c)"
    "kind_of (st c) t = Some k \<Longrightarrow> outcome_of (st c) t = None \<Longrightarrow>
      (\<exists>w f. proc_of cfg c t = Await w f) \<and> lab.suspended t (proc_of cfg c t) (at_end t k) (st c)"
    "kind_of (st c) t = None \<Longrightarrow> procs c t = None"
  using assms by (simp_all add: pool_ok_def)

lemma answered_Start: "answered t Start s a s' \<Longrightarrow> calm s s' \<and> (\<forall>e. a = Inl e \<longrightarrow> e = Cancelled)"
  unfolding answered_def by (auto elim: resume.cases simp: calm_refl calm_clear_cancel)

lemma triple_Start:
  "lab.triple t (idle t k) (ask_unit Start) (\<lambda>r s. idle t k s \<and> (\<forall>e. r = Inl e \<longrightarrow> e = Cancelled))"
  unfolding ask_unit_def
proof (rule lab.triple_bind [OF lab.triple_await])
  fix s s1 r s2
  assume s: "safe s" "idle t k s" "rely t s s1" "safe s1" "answered t Start s1 r s2"
  note a = answered_Start [OF s(5)]
  have "idle t k s2" using stable_calm [OF stable_idle stableD [OF stable_idle s(2,3)]] a by blast
  with a show "safe s2 \<and> idle t k s2 \<and> (\<forall>e. r = Inl e \<longrightarrow> e = Cancelled)" using calm_safe [OF s(4)] by blast
qed (auto intro: lab.triple_Ret simp: may_wait_def idle_def)

lemma told_other: "safe s \<Longrightarrow> kind_of s t = Some k \<Longrightarrow> kind_level k \<noteq> 1 \<Longrightarrow> told t s"
  unfolding told_def using safeD(3) by (fastforce simp: monitors_def kind_level_def)

lemma triple_after_Start:
  assumes "lab.triple t (idle t k) p (over t k)"
  shows "lab.triple t (idle t k) (seq (ask_unit Start) p) (over t k)"
  by (rule lab.triple_seq [OF triple_Start]) (auto simp: over_def intro: lab.triple_mono [OF assms])

lemma keeps_over: "lab.keeps t (idle t k) p \<Longrightarrow> kind_level k \<noteq> 1 \<Longrightarrow> lab.triple t (idle t k) p (over t k)"
  unfolding lab.keeps_def by (erule lab.triple_mono) (auto simp: over_def idle_def intro: told_other)

lemma triple_task_code: "lab.triple t (idle t k) (task_code cfg k) (over t k)"
  unfolding task_code_def
proof (rule triple_after_Start, cases k)
  case (Monitor_operation l op d b)
  then show "lab.triple t (idle t k) (case k of
      Monitor_operation l op d b \<Rightarrow> monitor_operation cfg l op d b
    | Watch_spawn_events names l d \<Rightarrow> watch_spawn_events cfg names l | Client \<Rightarrow> Ret ()) (over t k)"
    using triple_monitor_operation [of t l op d b cfg] by (auto simp: over_def elim: lab.triple_mono)
next
  case (Watch_spawn_events ns l d)
  then show "lab.triple t (idle t k) (case k of
      Monitor_operation l op d b \<Rightarrow> monitor_operation cfg l op d b
    | Watch_spawn_events names l d \<Rightarrow> watch_spawn_events cfg names l | Client \<Rightarrow> Ret ()) (over t k)"
    using keeps_over [OF keeps_watch_spawn_events [OF stable_idle]] by (simp add: kind_level_def)
next
  case Client
  then show "lab.triple t (idle t k) (case k of
      Monitor_operation l op d b \<Rightarrow> monitor_operation cfg l op d b
    | Watch_spawn_events names l d \<Rightarrow> watch_spawn_events cfg names l | Client \<Rightarrow> Ret ()) (over t k)"
    using keeps_over [OF lab.keeps_Ret] by (simp add: kind_level_def)
qed

lemma triple_client_code:
  assumes "client_code cfg p"
  shows "lab.triple t (idle t Client) (seq (ask_unit Start) p) (over t Client)"
proof -
  have "lab.keeps t (idle t Client) p" using keeps_client [OF assms] by (simp add: ready_def [abs_def])
  then show ?thesis by (intro triple_after_Start keeps_over) (simp_all add: kind_level_def)
qed

lemma triple_suspended:
  assumes "lab.triple t (idle t k) p (over t k)" and "safe s" and "idle t k s"
  shows "lab.suspended t p (at_end t k) s"
  using lab.tripleD [OF assms(1,2) guar_refl assms(3)] by (rule lab.suspended_wp)

lemma start_await: "\<exists>w f. seq (ask_unit Start) p = Await w f"
  by (simp add: ask_unit_def await_def seq_def)

subsection \<open>Other tasks\<close>

lemma guar_rely:
  assumes "guar t s s'" and "t' \<noteq> t" and "kind_of s t' \<noteq> None"
  shows "rely t' s s'"
proof -
  note g = guarD [OF assms(1)]
  show ?thesis
    unfolding rely_def
  proof (intro conjI allI)
    show "keep_tasks s s'" "keep_ops s s'" by (fact g)+
    show "outcome_of s' t' = outcome_of s t'" using g(3) assms(3) by blast
    show "lock_of s l = Some t' \<longrightarrow> running_of s' l = running_of s l" for l
      using g(5) [of l] assms(2) by auto
    show "lock_of s' l = Some t' \<longleftrightarrow> lock_of s l = Some t'" for l
      using g(5,6) [of l] assms(2) by (cases "lock_of s l = Some t") auto
  qed
qed

lemma resume_cases:
  "resume t w s a s' \<Longrightarrow>
     calm s s' \<and> kind_of s' = kind_of s \<or>
     (\<exists>l. lock_of s l = None \<and> s' = upd_lab l (\<lambda>r. r\<lparr>lock := Some t\<rparr>) s)"
proof (induction rule: resume.induct)
  case (Cancels s w)
  have "kind_of (clear_cancel t s) = kind_of s"
    by (auto simp: clear_cancel_def kind_of_def fun_eq_iff split: option.split)
  then show ?case using calm_clear_cancel by blast
qed (auto simp: calm_refl)

lemma lock_rely:
  assumes "lock_of s l = None" and "t' \<noteq> t"
  shows "rely t' s (upd_lab l (\<lambda>r. r\<lparr>lock := Some t\<rparr>) s)"
  using assms by (auto simp: rely_def keep_tasks_def keep_ops_def)

lemma resume_rely:
  assumes "resume t w s a s'"
  shows "kind_of s' = kind_of s" "t' \<noteq> t \<Longrightarrow> rely t' s s'"
  using resume_cases [OF assms] calm_rely lock_rely by auto

lemma outcome_finish:
  "outcome_of (finish t x s) i = (if i = t \<and> tasks s t \<noteq> None then x else outcome_of s i)"
  "kind_of (finish t x s) = kind_of s" "lock_of (finish t x s) l = lock_of s l"
  "running_of (finish t x s) l = running_of s l" "ops (finish t x s) = ops s" "labs (finish t x s) = labs s"
  "next_id (finish t x s) = next_id s" "tasks s i = None \<Longrightarrow> tasks (finish t x s) i = None"
  by (auto simp: finish_def outcome_of_def kind_of_def fun_eq_iff split: option.split)

lemma finish_None:
  assumes "outcome_of s t = None"
  shows "finish t None s = s"
proof (cases "tasks s t")
  case (Some r)
  then have "r\<lparr>outcome := None\<rparr> = r" using assms by (cases r) (simp add: outcome_of_def)
  then have "(tasks s)(t \<mapsto> r\<lparr>outcome := None\<rparr>) = tasks s" using Some by (simp add: fun_eq_iff)
  then show ?thesis using Some by (simp add: finish_def)
qed (simp add: finish_def)

lemma finish_safe:
  assumes "safe s" and "over t k x s"
  shows "safe (finish t (Some x) s)"
proof -
  note d = safeD [OF assms(1)]
  let ?s = "finish t (Some x) s"
  have t: "tasks s t \<noteq> None" "holds_none t s" "x \<noteq> Inl Cancelled \<longrightarrow> told t s"
    using assms(2) by (auto simp: over_def idle_def kind_of_def)
  have same: "monitors ?s = monitors s" by (simp add: monitors_def fun_eq_iff outcome_finish)
  have live: "live ?s i \<longleftrightarrow> live s i \<and> i \<noteq> t" for i using t(1) by (auto simp: live_kind outcome_finish)
  have "fresh_ok ?s" using d(1) by (simp add: fresh_ok_def outcome_finish)
  moreover have "labs_ok ?s" using d(8) by (simp add: labs_ok_def outcome_finish)
  moreover have "lock_ok ?s" using d(2) t(2) by (auto simp: lock_ok_def live holds_none_def outcome_finish)
  moreover have "ops_ok ?s"
    unfolding ops_ok_def same outcome_finish(5)
  proof (intro conjI allI impI)
    fix i a assume a: "ops s i = Some a"
    show "\<exists>l. monitors s (op_task a) l" by (rule d(3) [OF a])
    show "op_complete a" if "outcome_of ?s (op_task a) = Some y" "y \<noteq> Inl Cancelled" for y
      using that t(1,3) a d(4) [OF a] by (auto simp: outcome_finish told_def split: if_splits)
  qed (rule d(5))
  moreover have "running_ok ?s"
    unfolding running_ok_def same live outcome_finish using d(6,7) by blast
  ultimately show ?thesis by (simp add: safe_def)
qed

lemma finish_rely: "t' \<noteq> t \<Longrightarrow> outcome_of s t = None \<Longrightarrow> rely t' s (finish t x s)"
  by (auto simp: rely_def keep_tasks_def keep_ops_def outcome_finish)

subsection \<open>Every step\<close>

lemma pool_ok_calm:
  assumes "pool_ok cfg c" and "calm (st c) s" and "kind_of s = kind_of (st c)"
  shows "pool_ok cfg (c\<lparr>st := s\<rparr>)"
proof (rule pool_okI, goal_cases)
  case 1
  show ?case using calm_safe [OF pool_okD(1) [OF assms(1)] assms(2)] by simp
next
  case (2 t k)
  then have k: "kind_of (st c) t = Some k" "outcome_of (st c) t = None"
    using assms(3) calmD(5) [OF assms(2)] by simp_all
  have same: "proc_of cfg (c\<lparr>st := s\<rparr>) t = proc_of cfg c t" by (simp add: proc_of_def assms(3) split: option.split)
  show ?case
    unfolding same using pool_okD(2) [OF assms(1) k]
    by (auto intro: lab.suspended_rely [OF _ calm_rely [OF assms(2)]])
next
  case (3 t)
  then show ?case using pool_okD(3) [OF assms(1)] assms(3) by simp
qed

lemma advance_result:
  "(\<exists>a. snd (advance p s) = Ret a) \<or> (\<exists>e. snd (advance p s) = Raise e) \<or> (\<exists>w k. snd (advance p s) = Await w k)"
  by (induction p arbitrary: s) auto

lemma ran_to:
  assumes "lab.wp t q (at_end t k) s0 s"
    and "(\<exists>a. q = Ret a) \<or> (\<exists>e. q = Raise e) \<or> (\<exists>w f. q = Await w f)"
  shows "safe s \<and> guar t s0 s \<and>
    (case result_of q of None \<Rightarrow> \<exists>w f. q = Await w f | Some x \<Rightarrow> over t k x s)"
  using assms by (auto simp: result_of_def)

lemma pool_ok_spawned:
  assumes "safe s" and "kind_of s t = Some k" and "k \<noteq> Client" and "outcome_of s t = None"
  shows "(\<exists>w f. task_code cfg k = Await w f) \<and> lab.suspended t (task_code cfg k) (at_end t k) s"
proof
  have "holds_none t s" using safeD(2) [OF assms(1)] assms(2,3) by (auto simp: holds_none_def)
  then have "idle t k s" using assms by (simp add: idle_def)
  then show "lab.suspended t (task_code cfg k) (at_end t k) s"
    by (rule triple_suspended [OF triple_task_code assms(1)])
  show "\<exists>w f. task_code cfg k = Await w f" unfolding task_code_def by (rule start_await)
qed

lemma pool_ok_run:
  assumes ok: "pool_ok cfg c" and live: "live (st c) t" and p: "proc_of cfg c t = Await w f"
    and r: "resume t w (st c) a s"
  shows "pool_ok cfg (settle t (advance (f a) s) c)"
proof -
  obtain k where k: "kind_of (st c) t = Some k" "outcome_of (st c) t = None" using live by (auto simp: live_kind)
  let ?q = "snd (advance (f a) s)" and ?s = "fst (advance (f a) s)"
  let ?over = "finish t (result_of ?q) ?s"
  note d = pool_okD [OF ok] and rr = resume_rely [OF r]
  have out: "outcome_of s t = None"
    using resume_cases [OF r] k(2) calmD(5) by auto
  have wp: "lab.wp t ?q (at_end t k) s ?s"
    using d(2) [OF k] r by (intro lab.suspended_resume [OF _ d(1)]) (auto simp: p answered_def)
  note ran = ran_to [OF wp advance_result]
  have g: "guar t s ?s" and safe: "safe ?s" using ran by simp_all
  have t: "kind_of ?s t = Some k" "outcome_of ?s t = None"
    using guarD(1,3) [OF g] k(1) out rr(1) by (auto simp: keep_tasks_def)
  have others: "rely t' (st c) ?over" if "t' \<noteq> t" "kind_of (st c) t' \<noteq> None" for t'
    using rely_trans [OF rr(2) [OF that(1)] rely_trans [OF guar_rely [OF g that(1)] finish_rely [OF that(1) t(2)]]]
      that(2) rr(1) by simp
  have ending: "safe ?over"
  proof (cases "result_of ?q")
    case (Some x)
    then show ?thesis using ran finish_safe [OF safe, of t k x] by simp
  qed (simp add: finish_None [OF t(2)] safe)
  have pool: "settle t (advance (f a) s) c = c\<lparr>st := ?over, procs := (procs c)(t \<mapsto> ?q)\<rparr>"
    by (simp add: settle_def split_beta)
  show ?thesis
    unfolding pool
  proof (rule pool_okI, goal_cases)
    case 1
    show ?case using ending by simp
  next
    case (2 t' k')
    then have k': "kind_of ?over t' = Some k'" "outcome_of ?over t' = None" by simp_all
    consider "t' = t" | "t' \<noteq> t" "kind_of (st c) t' = None" | k0 where "t' \<noteq> t" "kind_of (st c) t' = Some k0" by auto
    then show ?case
    proof cases
      case 1
      have "tasks ?s t \<noteq> None" using t(1) kind_of_None [of ?s t] by simp
      then have none: "result_of ?q = None" using k'(2) by (simp add: 1 outcome_finish)
      moreover have "k' = k" using k'(1) t(1) by (simp add: 1 outcome_finish)
      ultimately show ?thesis
        using ran lab.suspended_wp [OF wp] finish_None [OF t(2)] by (simp add: 1 proc_of_def)
    next
      case 2
      have "k' \<noteq> Client" using guarD(4) [OF g, of t'] 2 rr(1) k'(1) by (simp add: outcome_finish)
      then show ?thesis
        using pool_ok_spawned [OF ending k'(1) _ k'(2)] d(3) [OF 2(2)] k'(1) 2(1) by (simp add: proc_of_def)
    next
      case 3
      have "k' = k0" using relyD(1) [OF others [OF 3(1)]] 3 k'(1) by (simp add: keep_tasks_def)
      moreover have "outcome_of (st c) t' = None"
        using relyD(3) [OF others [OF 3(1)]] 3 k'(2) by simp
      moreover have "proc_of cfg (c\<lparr>st := ?over, procs := (procs c)(t \<mapsto> ?q)\<rparr>) t' = proc_of cfg c t'"
        using 3 k'(1) \<open>k' = k0\<close> by (simp add: proc_of_def split: option.split)
      ultimately show ?thesis
        using d(2) [OF 3(2)] lab.suspended_rely [OF _ others [OF 3(1)]] 3(2) by auto
    qed
  next
    case (3 t')
    then have none: "kind_of ?s t' = None" by (simp add: outcome_finish)
    have "kind_of (st c) t' = None"
      using guarD(1) [OF g] none rr(1) by (cases "kind_of (st c) t'") (auto simp: keep_tasks_def)
    moreover have "t' \<noteq> t" using none t(1) by auto
    ultimately show ?case using d(3) by simp
  qed
qed

lemma pool_ok_call:
  assumes ok: "pool_ok cfg c" and p: "client_code cfg p" and t: "t = next_id (st c)"
  shows "pool_ok cfg (c\<lparr>st := (st c)\<lparr>tasks := (tasks (st c))
                     (t \<mapsto> \<lparr>kind = Client, outcome = None, cancel_requested = False\<rparr>),
                   next_id := t + 1\<rparr>,
                  procs := (procs c)(t \<mapsto> seq (ask_unit Start) p)\<rparr>)"
proof -
  define s where "s = (st c)\<lparr>tasks := (tasks (st c))
    (t \<mapsto> \<lparr>kind = Client, outcome = None, cancel_requested = False\<rparr>), next_id := t + 1\<rparr>"
  note d = pool_okD [OF ok] and f = safeD [OF pool_okD(1) [OF ok]]
  have new: "tasks (st c) t = None" "lock_of (st c) l \<noteq> Some t" for l
    using f(1) [of t] f(2) [of l t] t by (auto simp: live_def)
  have kind: "kind_of s i = (if i = t then Some Client else kind_of (st c) i)"
    and out: "outcome_of s i = outcome_of (st c) i"
    and same: "lock_of s l = lock_of (st c) l" "running_of s l = running_of (st c) l" "ops s = ops (st c)"
      "labs s = labs (st c)" "next_id s = t + 1" "i \<noteq> t \<Longrightarrow> tasks s i = tasks (st c) i" for i l
    using new(1) by (simp_all add: s_def kind_of_def outcome_of_def)
  have none: "kind_of (st c) t = None" using new(1) by (simp add: kind_of_def)
  then have mon: "monitors s i l \<longleftrightarrow> monitors (st c) i l" for i l
    unfolding monitors_def kind by auto
  have live: "live s i \<longleftrightarrow> live (st c) i \<or> i = t \<and> outcome_of (st c) t = None" for i
    by (auto simp: live_kind kind out)
  have safe: "safe s"
    unfolding safe_def
  proof (intro conjI)
    show "fresh_ok s" using f(1) t by (simp add: fresh_ok_def same)
    show "labs_ok s" using f(8) t by (force simp: labs_ok_def same)
    show "lock_ok s" using f(2) none by (auto simp: lock_ok_def live same kind)
    show "ops_ok s" using f(3-5) unfolding ops_ok_def mon out same by simp
    show "running_ok s"
      using f(6,7) none unfolding running_ok_def mon live same by (auto simp: monitors_def)
  qed
  have rely: "rely t' (st c) s" if "t' \<noteq> t" for t'
    using none t by (auto simp: rely_def keep_tasks_def keep_ops_def kind out same)
  show ?thesis
    unfolding s_def [symmetric]
  proof (rule pool_okI, goal_cases)
    case 1
    show ?case using safe by simp
  next
    case (2 t' k')
    then have k': "kind_of s t' = Some k'" "outcome_of s t' = None" by simp_all
    show ?case
    proof (cases "t' = t")
      case True
      then have "k' = Client" "idle t Client s" using k' new by (auto simp: idle_def holds_none_def kind same)
      then show ?thesis
        using triple_suspended [OF triple_client_code [OF p] safe] start_await True by (simp add: proc_of_def)
    next
      case False
      then have k: "kind_of (st c) t' = Some k'" "outcome_of (st c) t' = None" using k' by (simp_all add: kind out)
      have "proc_of cfg (c\<lparr>st := s, procs := (procs c)(t \<mapsto> seq (ask_unit Start) p)\<rparr>) t' = proc_of cfg c t'"
        using False k(1) k'(1) by (simp add: proc_of_def split: option.split)
      then show ?thesis using d(2) [OF k] lab.suspended_rely [OF _ rely [OF False]] by auto
    qed
  next
    case (3 t')
    then show ?case using d(3) [of t'] by (auto simp: kind split: if_splits)
  qed
qed

lemma kind_of_same:
  "kind_of (clear_cancel t s) = kind_of s" "kind_of (cancel_task t s) = kind_of s" "kind_of (s\<lparr>clock := x\<rparr>) = kind_of s"
  by (auto simp: clear_cancel_def cancel_task_def kind_of_def fun_eq_iff split: option.split)

lemma pool_ok_step: "step cfg c c' \<Longrightarrow> pool_ok cfg c \<Longrightarrow> pool_ok cfg c'"
proof (induction rule: step.induct)
  case (Run c t w k a s)
  then show ?case by (intro pool_ok_run)
next
  case (Call p t c)
  then show ?case by (intro pool_ok_call)
next
  case (Forward c t w k i)
  show ?case
    by (rule pool_ok_calm [OF Forward.prems calm_trans [OF calm_cancel_task calm_clear_cancel]])
      (simp add: kind_of_same)
qed (intro pool_ok_calm; simp add: kind_of_same calm_cancel_task calm_clock)+

lemma pool_ok_initial: "pool_ok cfg (initial d z)"
  by (rule pool_okI)
    (auto simp: initial_def no_lab_def safe_def fresh_ok_def labs_ok_def lock_ok_def ops_ok_def running_ok_def
      live_def kind_of_def)

lemma reachable_ok: "reachable cfg c \<Longrightarrow> pool_ok cfg c"
  by (induction rule: reachable.induct) (auto intro: pool_ok_initial pool_ok_step)

section \<open>What waits for what\<close>

definition waits_on :: "manager_config \<Rightarrow> pool \<Rightarrow> task_id \<Rightarrow> task_id \<Rightarrow> bool" where
  "waits_on cfg c t t' \<longleftrightarrow> live (st c) t \<and> live (st c) t' \<and>
     (\<exists>w f. proc_of cfg c t = Await w f \<and>
        (case untimed w of
           Lock l \<Rightarrow> lock_of (st c) l = Some t'
         | Task k \<Rightarrow> k = t'
         | Complete i \<Rightarrow> (\<exists>op. ops (st c) i = Some op \<and> \<not> op_complete op \<and> op_task op = t')
         | _ \<Rightarrow> False))"

definition can_go :: "manager_config \<Rightarrow> pool \<Rightarrow> task_id \<Rightarrow> bool" where
  "can_go cfg c t \<longleftrightarrow> (\<exists>w f a s. proc_of cfg c t = Await w f \<and> resume t w (st c) a s)"

definition awaits :: "manager_config \<Rightarrow> pool \<Rightarrow> task_id \<Rightarrow> wait \<Rightarrow> bool" where
  "awaits cfg c t w \<longleftrightarrow> (\<exists>w' f. proc_of cfg c t = Await w' f \<and> untimed w' = w)"

text \<open>
  Two waits may have nothing that they wait for: the reaper's, for the next spawn to be over, and the one
  for an operation whose task was cancelled before its first step. The event of such an operation is set
  only by its task, which never runs; a task that waits for it hangs.
\<close>

definition abandoned :: "sys \<Rightarrow> op_id \<Rightarrow> bool" where
  "abandoned s i \<longleftrightarrow>
     (\<exists>op. ops s i = Some op \<and> \<not> op_complete op \<and> outcome_of s (op_task op) = Some (Inl Cancelled))"

definition rests :: "manager_config \<Rightarrow> pool \<Rightarrow> task_id \<Rightarrow> bool" where
  "rests cfg c t \<longleftrightarrow> holds_none t (st c) \<and>
     (awaits cfg c t Spawner_done \<and> \<not> spawner_done (st c) \<or> (\<exists>i. awaits cfg c t (Complete i) \<and> abandoned (st c) i))"

definition rank :: "sys \<Rightarrow> task_id \<Rightarrow> nat" where
  "rank s t =
     (case kind_of s t of
        None \<Rightarrow> 0
      | Some k \<Rightarrow> if k = Client \<and> holds_none t s then 3 else kind_level k)"

lemma waiting:
  assumes "reachable cfg c" and "live (st c) t"
  shows "\<exists>w f. proc_of cfg c t = Await w f \<and> may_wait t w (st c)"
proof -
  obtain k where "kind_of (st c) t = Some k" "outcome_of (st c) t = None" using assms(2) by (auto simp: live_kind)
  from pool_okD(2) [OF reachable_ok [OF assms(1)] this] show ?thesis by (auto simp: lab.suspended_def)
qed

lemma waits_on_rank:
  assumes "reachable cfg c" and "waits_on cfg c t t'"
  shows "rank (st c) t' < rank (st c) t"
proof -
  note d = safeD [OF pool_okD(1) [OF reachable_ok [OF assms(1)]]]
  have l: "live (st c) t" using assms(2) by (simp add: waits_on_def)
  obtain w f where w: "proc_of cfg c t = Await w f" "may_wait t w (st c)" using waiting [OF assms(1) l] by blast
  have u: "case untimed w of
           Lock l \<Rightarrow> lock_of (st c) l = Some t'
         | Task k \<Rightarrow> k = t'
         | Complete i \<Rightarrow> (\<exists>op. ops (st c) i = Some op \<and> \<not> op_complete op \<and> op_task op = t')
         | _ \<Rightarrow> False"
    using assms(2) w(1) by (auto simp: waits_on_def)
  show ?thesis
  proof (cases "untimed w")
    case (Lock l)
    then have "lock_of (st c) l = Some t'" using u by simp
    then have "kind_of (st c) t' = Some Client" "\<not> holds_none t' (st c)" using d(2) by (auto simp: holds_none_def)
    then show ?thesis using w(2) Lock by (simp add: rank_def may_wait_def kind_level_def)
  next
    case (Task k)
    then obtain a b where "kind_of (st c) t = Some a" "kind_of (st c) t' = Some b" "kind_level b < kind_level a"
      using u w(2) by (auto simp: may_wait_def)
    then show ?thesis by (auto simp: rank_def kind_level_def split: task_kind.splits)
  next
    case (Complete i)
    then obtain op where "ops (st c) i = Some op" "op_task op = t'" using u by auto
    then obtain l where "monitors (st c) t' l" using d(3) by blast
    then have "rank (st c) t' = 1" by (auto simp: monitors_def rank_def kind_level_def)
    then show ?thesis using w(2) Complete by (simp add: rank_def may_wait_def)
  qed (use u in simp_all)
qed

lemma untimed_not_Timed: "untimed w \<noteq> Timed d w'"
  by (induction w) simp_all

lemma kind_level_client: "kind_level k < kind_level Client \<longleftrightarrow> k \<noteq> Client"
  by (cases k) (simp_all add: kind_level_def)

lemma untimed_resume: "resume t (untimed w) s a s' \<Longrightarrow> \<exists>s''. resume t w s a s''"
  by (induction w) (auto intro: resume.intros)

lemma go_or_wait:
  assumes "reachable cfg c" and "live (st c) t"
  shows "can_go cfg c t \<or> rests cfg c t \<or> (\<exists>t'. waits_on cfg c t t')"
proof -
  note d = safeD [OF pool_okD(1) [OF reachable_ok [OF assms(1)]]]
  obtain w f where w: "proc_of cfg c t = Await w f" "may_wait t w (st c)" using waiting [OF assms] by blast
  have go: "can_go cfg c t" if "resume t (untimed w) (st c) a s" for a s
    using untimed_resume [OF that] w(1) unfolding can_go_def by blast
  show ?thesis
  proof (cases "untimed w")
    case (Lock l)
    show ?thesis
    proof (cases "lock_of (st c) l")
      case None
      then show ?thesis using go Lock by (metis resume.Locked)
    next
      case (Some t')
      then have "waits_on cfg c t t'" using d(2) [OF Some] w(1) Lock assms(2) by (simp add: waits_on_def)
      then show ?thesis by blast
    qed
  next
    case (Task k)
    then obtain b where b: "kind_of (st c) k = Some b" using w(2) by (auto simp: may_wait_def)
    show ?thesis
    proof (cases "outcome_of (st c) k")
      case None
      then have "waits_on cfg c t k" using b w(1) Task assms(2) by (simp add: waits_on_def live_kind)
      then show ?thesis by blast
    next
      case (Some x)
      then show ?thesis using go Task by (cases x) (auto intro: resume.Returned resume.Raised)
    qed
  next
    case (Complete i)
    then obtain op where op: "ops (st c) i = Some op" using w(2) by (auto simp: may_wait_def)
    consider "op_complete op" | "\<not> op_complete op" "outcome_of (st c) (op_task op) = Some (Inl Cancelled)"
      | "\<not> op_complete op" "outcome_of (st c) (op_task op) = None"
      using d(4) [OF op] by (cases "outcome_of (st c) (op_task op)") auto
    then show ?thesis
    proof cases
      case 1
      then show ?thesis using go Complete op by (auto intro: resume.Completed)
    next
      case 2
      then show ?thesis using op w Complete by (auto simp: rests_def awaits_def abandoned_def may_wait_def)
    next
      case 3
      have "live (st c) (op_task op)" using d(3) [OF op] 3 by (auto simp: live_kind monitors_def)
      then have "waits_on cfg c t (op_task op)" using op w(1) Complete assms(2) 3 by (auto simp: waits_on_def)
      then show ?thesis by blast
    qed
  next
    case Spawner_done
    then show ?thesis using w go [of _ "st c"] by (auto simp: rests_def awaits_def may_wait_def intro: resume.Spawned)
  next
    case Start
    then show ?thesis using go by (metis resume.Started)
  next
    case (Timed d w')
    then show ?thesis using untimed_not_Timed by simp
  qed (use go [OF resume.External] in simp_all)
qed

text \<open>Nobody waits for a task at rest: it is a client that holds no lock.\<close>

lemma rests_not_awaited:
  assumes "reachable cfg c" and "waits_on cfg c t t'"
  shows "\<not> rests cfg c t'"
proof
  assume rests: "rests cfg c t'"
  obtain w f where w: "proc_of cfg c t' = Await w f" "may_wait t' w (st c)"
    using waiting [OF assms(1), of t'] assms(2) by (auto simp: waits_on_def)
  then have "kind_of (st c) t' = Some Client \<and> holds_none t' (st c)"
    using rests by (auto simp: rests_def awaits_def may_wait_def)
  then have "rank (st c) t' = 3" by (simp add: rank_def)
  moreover have "rank (st c) t \<le> 3" by (auto simp: rank_def kind_level_def split: option.split task_kind.split)
  ultimately show False using waits_on_rank [OF assms] by simp
qed

text \<open>C2: In every reachable state of the lab service, whatever requests came in and however
  they were interleaved, every unfinished task can go on, or waits through a chain of tasks that
  wait for each other for one that can. There are two exceptions, tasks that hold no lock: the
  idle reaper, which waits for the next spawn to be over, and a task that waits for an operation
  whose task was cancelled before its first step, and so for an event that nobody will set; that
  task hangs.\<close>

theorem no_deadlock:
  assumes "reachable cfg c" and "live (st c) t"
  shows "(\<exists>t'. (waits_on cfg c)\<^sup>*\<^sup>* t t' \<and> live (st c) t' \<and> can_go cfg c t') \<or>
    holds_none t (st c) \<and>
      (awaits cfg c t Spawner_done \<and> \<not> spawner_done (st c) \<or> (\<exists>i. awaits cfg c t (Complete i) \<and> abandoned (st c) i))"
  using assms(2)
proof (induction "rank (st c) t" arbitrary: t rule: less_induct)
  case less
  consider "can_go cfg c t" | "rests cfg c t" | t' where "waits_on cfg c t t'"
    using go_or_wait [OF assms(1) less.prems] by blast
  then show ?case
  proof cases
    case (3 t')
    then have "live (st c) t'" by (simp add: waits_on_def)
    from less.hyps [OF waits_on_rank [OF assms(1) 3] this] rests_not_awaited [OF assms(1) 3] 3 show ?thesis
      unfolding rests_def by (meson converse_rtranclp_into_rtranclp)
  qed (use less.prems in \<open>auto simp: rests_def\<close>)
qed

text \<open>C3: In every reachable state at most one unfinished task runs an operation on a lab,
  and it is the one that the monitor of the lab records.\<close>

theorem one_operation_per_lab:
  assumes "reachable cfg c" and "live (st c) t" and "kind_of (st c) t = Some (Monitor_operation l op d b)"
    and "live (st c) t'" and "kind_of (st c) t' = Some (Monitor_operation l op' d' b')"
  shows "t' = t \<and> (\<exists>i. running_of (st c) l = Some i \<and> op_task (op_of (st c) i) = t)"
proof -
  have s: "safe (st c)" by (rule pool_okD(1) [OF reachable_ok [OF assms(1)]])
  have "monitors (st c) t l" "monitors (st c) t' l" using assms(3,5) by (auto simp: monitors_def)
  then show ?thesis using safeD(7) [OF s assms(2)] safeD(7) [OF s assms(4)] by (force simp: op_of_def)
qed

theorem lock_holder_waits:
  assumes "reachable cfg c" and "lock_of (st c) l = Some t"
  shows "live (st c) t \<and> kind_of (st c) t = Some Client \<and>
    (\<exists>w f. proc_of cfg c t = Await w f \<and>
       (external (untimed w) \<or>
        (\<exists>k. untimed w = Task k \<and> kind_of (st c) k \<noteq> None \<and> kind_of (st c) k \<noteq> Some Client)))"
proof -
  note h = safeD(2) [OF pool_okD(1) [OF reachable_ok [OF assms(1)]] assms(2)]
  obtain w f where w: "proc_of cfg c t = Await w f" "may_wait t w (st c)"
    using waiting [OF assms(1)] h by blast
  have "\<not> holds_none t (st c)" using assms(2) by (auto simp: holds_none_def)
  moreover have "external (untimed w) \<or> untimed w = Start \<or> (\<exists>l. untimed w = Lock l) \<or> (\<exists>k. untimed w = Task k) \<or>
      (\<exists>i. untimed w = Complete i) \<or> untimed w = Spawner_done"
    by (induction w) simp_all
  ultimately have "external (untimed w) \<or>
      (\<exists>k. untimed w = Task k \<and> kind_of (st c) k \<noteq> None \<and> kind_of (st c) k \<noteq> Some Client)"
    using w(2) h by (auto simp: may_wait_def kind_level_client)
  then show ?thesis using h w(1) by blast
qed

section \<open>An example\<close>

text \<open>A task is resumed with an answer; the pool of the example: a user creates a lab.\<close>

definition go_on :: "manager_config \<Rightarrow> task_id \<Rightarrow> answer \<Rightarrow> pool \<Rightarrow> pool" where
  "go_on cfg t a c =
     (case proc_of cfg c t of
        Await w f \<Rightarrow>
          (case w of
             Lock l \<Rightarrow> settle t (advance (f (Inr A_unit)) (upd_lab l (\<lambda>r. r\<lparr>lock := Some t\<rparr>) (st c))) c
           | _ \<Rightarrow> settle t (advance (f (Inr a)) (st c)) c)
      | _ \<Rightarrow> c)"

fun resumable :: "wait \<Rightarrow> answer \<Rightarrow> sys \<Rightarrow> bool" where
  "resumable (Lock l) a s \<longleftrightarrow> lock_of s l = None"
| "resumable Start a s \<longleftrightarrow> a = A_unit"
| "resumable w a s \<longleftrightarrow> external w"

definition goes_on :: "manager_config \<Rightarrow> task_id \<Rightarrow> answer \<Rightarrow> pool \<Rightarrow> bool" where
  "goes_on cfg t a c \<longleftrightarrow> live (st c) t \<and>
     (case proc_of cfg c t of Await w f \<Rightarrow> resumable w a (st c) | _ \<Rightarrow> False)"

lemma go_on_step: "goes_on cfg t a c \<Longrightarrow> step cfg c (go_on cfg t a c)"
  by (auto simp: goes_on_def go_on_def split: proc.splits wait.splits intro!: step.Run intro: resume.intros)

definition example_manager :: manager_config where
  "example_manager = \<lparr>m_lab = example_config, spawn_timeout = 600, delete_timeout = 60,
     controller_namespace = ''nublado'', watch_fuel = 10, exn_text = (\<lambda>_. ''error'')\<rparr>"

definition call :: "unit svc \<Rightarrow> pool \<Rightarrow> pool" where
  "call p c = c\<lparr>st := (st c)\<lparr>tasks := (tasks (st c))
       (next_id (st c) \<mapsto> \<lparr>kind = Client, outcome = None, cancel_requested = False\<rparr>), next_id := next_id (st c) + 1\<rparr>,
     procs := (procs c)(next_id (st c) \<mapsto> seq (ask_unit Start) p)\<rparr>"

lemma call_step: "client_code cfg p \<Longrightarrow> step cfg c (call p c)"
  unfolding call_def by (intro step.Call) simp_all

definition example_request :: lab_specification where
  "example_request = \<lparr>spec_options = \<lparr>req_size = SMALL, req_enable_debug = False, req_reset_user_env = False,
     image_list = None, image_dropdown = None, req_image_class = Some RECOMMENDED, image_tag = None\<rparr>, env = []\<rparr>"

definition example_call :: pool where
  "example_call = call (create_lab example_manager example_user example_request)
     (initial 1000 (\<lambda>_. from_request (user_info_of example_user) None example_request (example_store 0) (example_resources 4096)))"

fun example_run :: "(task_id \<times> answer) list \<Rightarrow> pool \<Rightarrow> pool" where
  "example_run [] c = c"
| "example_run ((t, a) # xs) c = example_run xs (go_on example_manager t a c)"

fun example_runs :: "(task_id \<times> answer) list \<Rightarrow> (pool \<Rightarrow> bool) \<Rightarrow> pool \<Rightarrow> bool" where
  "example_runs [] P c \<longleftrightarrow> P c"
| "example_runs ((t, a) # xs) P c \<longleftrightarrow> goes_on example_manager t a c \<and> example_runs xs P (go_on example_manager t a c)"

lemma example_runs_reachable:
  "example_runs xs P c \<Longrightarrow> reachable example_manager c \<Longrightarrow>
    reachable example_manager (example_run xs c) \<and> P (example_run xs c)"
  by (induction xs P c rule: example_runs.induct) (auto intro: reachable.Step go_on_step)

definition example_spawn :: pool where
  "example_spawn = example_run [(0, A_unit), (0, A_image (example_store 0)), (0, A_unit)] example_call"

text \<open>Before the operation has taken its first step, the user deletes the lab.\<close>

definition example_delete :: pool where
  "example_delete = example_run [(5, A_unit), (5, A_unit)] (call (delete_lab example_manager ''rachel'') example_spawn)"

definition spawn_begun :: "pool \<Rightarrow> bool" where
  "spawn_begun c \<longleftrightarrow> live (st c) 3 \<and>
     (case kind_of (st c) 3 of Some (Monitor_operation l op d b) \<Rightarrow> l = 1 | _ \<Rightarrow> False)"

definition delete_begun :: "pool \<Rightarrow> bool" where
  "delete_begun c \<longleftrightarrow> live (st c) 5 \<and> lock_of (st c) 1 = Some 5"

definition example_facts :: "pool \<Rightarrow> bool" where
  "example_facts c \<longleftrightarrow> spawn_begun c \<and>
     example_runs [(5, A_unit), (5, A_unit)] delete_begun (call (delete_lab example_manager ''rachel'') c)"

lemma example_spawn_facts: "reachable example_manager example_spawn \<and> example_facts example_spawn"
proof -
  have "example_runs [(0, A_unit), (0, A_image (example_store 0)), (0, A_unit)] example_facts example_call" by code_simp
  moreover have "reachable example_manager example_call"
    unfolding example_call_def
    by (rule reachable.Step [OF reachable.Initial call_step]) (rule client_code.intros)
  ultimately show ?thesis unfolding example_spawn_def by (rule example_runs_reachable)
qed

lemma example_delete_facts: "reachable example_manager example_delete \<and> delete_begun example_delete"
proof -
  have "reachable example_manager (call (delete_lab example_manager ''rachel'') example_spawn)"
    by (rule reachable.Step [OF conjunct1 [OF example_spawn_facts] call_step]) (rule client_code.intros)
  then show ?thesis
    unfolding example_delete_def using example_spawn_facts
    by (intro example_runs_reachable) (simp_all only: example_facts_def)
qed

lemma example_delete_waits: "awaits example_manager example_delete 5 w \<Longrightarrow> external w \<or> (\<exists>k. w = Task k)"
  using lock_holder_waits [of example_manager example_delete 1 5] example_delete_facts
  unfolding delete_begun_def awaits_def by fastforce

lemma no_deadlock_witness:
  "\<exists>t'. (waits_on example_manager example_delete)\<^sup>*\<^sup>* 5 t' \<and> live (st example_delete) t' \<and>
     can_go example_manager example_delete t'"
proof -
  have "live (st example_delete) 5" "reachable example_manager example_delete"
    using example_delete_facts unfolding delete_begun_def by blast+
  with no_deadlock [of example_manager example_delete 5] show ?thesis by (auto dest!: example_delete_waits)
qed

lemma lock_holder_waits_witness:
  "\<exists>w f. proc_of example_manager example_delete 5 = Await w f \<and>
     (external (untimed w) \<or>
      (\<exists>k. untimed w = Task k \<and> kind_of (st example_delete) k \<noteq> None \<and> kind_of (st example_delete) k \<noteq> Some Client))"
  using lock_holder_waits [of example_manager example_delete 1 5] example_delete_facts unfolding delete_begun_def by blast

lemma one_operation_per_lab_witness:
  "\<exists>i. running_of (st example_spawn) 1 = Some i \<and> op_task (op_of (st example_spawn) i) = 3"
proof -
  have r: "reachable example_manager example_spawn" and live: "live (st example_spawn) 3"
    and k: "case kind_of (st example_spawn) 3 of Some (Monitor_operation l op d b) \<Rightarrow> l = 1 | _ \<Rightarrow> False"
    using example_spawn_facts unfolding example_facts_def spawn_begun_def by blast+
  from k obtain op d b where "kind_of (st example_spawn) 3 = Some (Monitor_operation 1 op d b)"
    by (auto split: option.splits task_kind.splits)
  from one_operation_per_lab [OF r live this live this] show ?thesis by blast
qed

end
