(* ===== verification/Pod_Builders.thy ===== *)
theory Pod_Builders
  imports Lab_Builder Py_Regex
begin

text \<open>
  The other builders of Kubernetes objects under \<open>src/src/nublado/controller/services/builder\<close>:
  \<open>fileserver.py\<close>, \<open>fsadmin.py\<close>, \<open>prepuller.py\<close> and \<open>_introspect.py\<close>, and what makes the built
  objects fit together: a container mounts volumes of its pod, and a pod refers to claims, secrets
  and config maps that are created with it. The host name that \<open>urlparse\<close> finds in the base URL
  and the environment of the controller are arguments.
\<close>

section \<open>Volumes in the configuration\<close>

text \<open>\<open>LabConfig._validate_volumes\<close> and \<open>Config._validate_fileserver_volume_mounts\<close>\<close>

definition mounts_known :: "volume_config list \<Rightarrow> volume_mount_config list \<Rightarrow> bool" where
  "mounts_known vs ms \<longleftrightarrow> list_all (\<lambda>m. vmc_volume_name m \<in> set (map vc_name vs)) ms"

definition validate_volumes :: "lab_config \<Rightarrow> (value_error, lab_config) result" where
  "validate_volumes cfg =
     (if \<not> mounts_known (cfg_volumes cfg) (cfg_volume_mounts cfg) then Inl (BadConfig ''volume'')
      else if \<not> list_all (\<lambda>c. mounts_known (cfg_volumes cfg) (ic_volume_mounts c)) (cfg_init_containers cfg)
        then Inl (BadConfig ''volume'')
      else if home_volume_name cfg \<notin> set (map vc_name (cfg_volumes cfg)) then Inl (BadConfig ''home'')
      else Inr cfg)"

definition wanted_volumes :: "volume_config list \<Rightarrow> volume_mount_config list \<Rightarrow> volume_config list" where
  "wanted_volumes vs ms = filter (\<lambda>v. vc_name v \<in> set (map vmc_volume_name ms)) vs"

definition volume_claims ::
  "(string \<Rightarrow> object_meta) \<Rightarrow> volume_config list \<Rightarrow> persistent_volume_claim list" where
  "volume_claims meta vs =
     concat (map (\<lambda>v. case vc_source v of
         PVCVolumeSource modes sclass reqs _ \<Rightarrow>
           [\<lparr>pvc_metadata = meta (''-pvc-'' @ vc_name v),
             pvc_storage_class = sclass, pvc_access_modes = modes, pvc_requests = reqs\<rparr>]
       | _ \<Rightarrow> []) vs)"

section \<open>Containers and pods\<close>

record plain_container =
  pc_name :: string
  pc_command :: "string list"
  pc_env :: "(string \<times> string) list"
  pc_image :: string
  pc_pull_policy :: "pull_policy option"
  pc_ports :: "nat list"
  pc_resources :: "((string, string) dict \<times> (string, string) dict) option"
  pc_security :: "security_context option"
  pc_mounts :: "volume_mount list"
  pc_working_dir :: "string option"

record plain_pod =
  pp_metadata :: object_meta
  pp_owner :: "string option"
  pp_containers :: "plain_container list"
  pp_node :: "string option"
  pp_pull_secrets :: "string list option"
  pp_non_root :: "bool option"
  pp_run_as :: "(int option \<times> int option) option"
  pp_supplemental_groups :: "int list"
  pp_scheduling :: v1_scheduling
  pp_volumes :: "volume list"
  pp_restart_policy :: string

definition resources_to_kubernetes ::
  "(rat \<Rightarrow> string) \<Rightarrow> lab_resources \<Rightarrow> (string, string) dict \<times> (string, string) dict" where
  "resources_to_kubernetes show r =
     ([(''cpu'', show (cpu (limits r))), (''memory'', dec_int (memory (limits r)))],
      [(''cpu'', show (cpu (requests r))), (''memory'', dec_int (memory (requests r)))])"

text \<open>\<open>_introspect_container\<close>\<close>

definition introspect_container :: "(string \<Rightarrow> string option) \<Rightarrow> container_image" where
  "introspect_container environ =
     (let repository = environ ''NUBLADO_CONTROLLER_REPOSITORY'';
          tag = environ ''NUBLADO_CONTROLLER_TAG'';
          policy = map to_lower (case environ ''NUBLADO_CONTROLLER_PULL_POLICY'' of
                     None \<Rightarrow> ''IfNotPresent'' | Some p \<Rightarrow> p)
      in \<lparr>img_repository = (if nonempty repository then the repository else ''ghcr.io/lsst-sqre/nublado''),
          img_pull_policy = (if policy = ''always'' then Always else if policy = ''never'' then Never else IfNotPresent),
          img_tag = (if nonempty tag then the tag else ''11.0.0'')\<rparr>)"

section \<open>File servers\<close>

record fileserver_config =
  fs_scheduling :: scheduling
  fs_application :: "string option"
  fs_creation_timeout :: timedelta
  fs_delete_timeout :: timedelta
  fs_extra_annotations :: "(string, string) dict"
  fs_idle_timeout :: timedelta
  fs_namespace :: string
  fs_path_prefix :: string
  fs_resources :: "lab_resources option"
  fs_volume_mounts :: "volume_mount_config list"
  fs_base_url :: string
  fs_base_host :: "string option"
  fs_volumes :: "volume_config list"
  fs_container :: container_image
  fs_show_float :: "rat \<Rightarrow> string"

record gafaelfawr_ingress =
  gi_metadata :: object_meta
  gi_base_url :: string
  gi_auth_type :: string
  gi_scopes :: "string list"
  gi_service :: string
  gi_username :: string
  gi_template_name :: string
  gi_template_labels :: "(string, string) dict"
  gi_host :: "string option"
  gi_path :: string
  gi_backend :: "string \<times> nat"

record job =
  job_metadata :: object_meta
  job_template :: plain_pod

record fileserver_objects =
  fso_pvcs :: "persistent_volume_claim list"
  fso_ingress :: gafaelfawr_ingress
  fso_service :: service
  fso_job :: job

definition build_name :: "string \<Rightarrow> string" where
  "build_name u = u @ ''-fs''"

definition fs_labels :: "string \<Rightarrow> (string, string) dict" where
  "fs_labels u = [(''nublado.lsst.io/category'', ''fileserver''), (''nublado.lsst.io/user'', u)]"

definition fs_metadata :: "fileserver_config \<Rightarrow> string \<Rightarrow> string \<Rightarrow> object_meta" where
  "fs_metadata cfg u suf =
     \<lparr>md_name = build_name u @ suf,
      md_labels = (if nonempty (fs_application cfg)
         then dset ''argocd.argoproj.io/instance'' (the (fs_application cfg)) (fs_labels u) else fs_labels u),
      md_annotations = argo_cd_annotations\<rparr>"

definition build_ingress :: "fileserver_config \<Rightarrow> string \<Rightarrow> gafaelfawr_ingress" where
  "build_ingress cfg u =
     \<lparr>gi_metadata = fs_metadata cfg u [], gi_base_url = fs_base_url cfg, gi_auth_type = ''basic'',
      gi_scopes = [''write:files''], gi_service = ''nublado-files'', gi_username = u,
      gi_template_name = md_name (fs_metadata cfg u []), gi_template_labels = fs_labels u,
      gi_host = fs_base_host cfg, gi_path = fs_path_prefix cfg @ ''/'' @ u, gi_backend = (build_name u, 8000)\<rparr>"

definition texts :: "(string, string) dict \<Rightarrow> (string, annotation) dict" where
  "texts = map (\<lambda>(k, v). (k, Text v))"

definition restricted :: security_context where
  "restricted = \<lparr>sc_privileged = False, sc_escalation = False, sc_read_only_root = True, sc_drop_all = True,
     sc_non_root = False, sc_run_as_user = None, sc_run_as_group = None\<rparr>"

definition seconds_text :: "timedelta \<Rightarrow> string" where
  "seconds_text d = dec_int (int_of_float (of_int d / 1000000))"

definition fs_container_spec :: "fileserver_config \<Rightarrow> string \<Rightarrow> plain_container" where
  "fs_container_spec cfg u =
     \<lparr>pc_name = ''fileserver'', pc_command = [''/usr/local/bin/worblehat''],
      pc_env = [(''WORBLEHAT_BASE_HREF'', fs_path_prefix cfg @ ''/'' @ u),
                (''WORBLEHAT_TIMEOUT'', seconds_text (fs_idle_timeout cfg)), (''WORBLEHAT_DIR'', ''/mnt'')],
      pc_image = image_text (fs_container cfg), pc_pull_policy = Some (img_pull_policy (fs_container cfg)),
      pc_ports = [8000], pc_resources = map_option (resources_to_kubernetes (fs_show_float cfg)) (fs_resources cfg),
      pc_security = Some restricted, pc_mounts = build_mounts (fs_volume_mounts cfg) ''/mnt'',
      pc_working_dir = None\<rparr>"

definition build_job :: "fileserver_config \<Rightarrow> gafaelfawr_user \<Rightarrow> job" where
  "build_job cfg g =
     (let u = g_username g;
          meta = annotate (texts (fs_extra_annotations cfg)) (fs_metadata cfg u [])
      in \<lparr>job_metadata = meta,
          job_template =
            \<lparr>pp_metadata = \<lparr>md_name = md_name meta, md_labels = fs_labels u,
               md_annotations = texts (fs_extra_annotations cfg)\<rparr>,
             pp_owner = None, pp_containers = [fs_container_spec cfg u], pp_node = None, pp_pull_secrets = None,
             pp_non_root = Some True, pp_run_as = Some (g_uid g, g_gid g),
             pp_supplemental_groups = g_supplemental_groups g,
             pp_scheduling = scheduling_to_kubernetes (fs_scheduling cfg),
             pp_volumes = build_volumes (wanted_volumes (fs_volumes cfg) (fs_volume_mounts cfg)) (build_name u),
             pp_restart_policy = ''Never''\<rparr>\<rparr>)"

definition fs_build_pvcs :: "fileserver_config \<Rightarrow> string \<Rightarrow> persistent_volume_claim list" where
  "fs_build_pvcs cfg u = volume_claims (fs_metadata cfg u) (wanted_volumes (fs_volumes cfg) (fs_volume_mounts cfg))"

definition fs_build_service :: "fileserver_config \<Rightarrow> string \<Rightarrow> service" where
  "fs_build_service cfg u =
     \<lparr>svc_metadata = fs_metadata cfg u [], svc_port = 8000, svc_selector = fs_labels u\<rparr>"

definition build_fileserver :: "fileserver_config \<Rightarrow> gafaelfawr_user \<Rightarrow> fileserver_objects" where
  "build_fileserver cfg g =
     \<lparr>fso_pvcs = fs_build_pvcs cfg (g_username g), fso_ingress = build_ingress cfg (g_username g),
      fso_service = fs_build_service cfg (g_username g), fso_job = build_job cfg g\<rparr>"

text \<open>The file server of a user as Kubernetes shows it.\<close>

record fs_pod =
  fsp_name :: string
  fsp_labels :: "(string, string) dict option"
  fsp_phase :: "string option"

record ingress_status =
  ing_name :: string
  ing_rv :: string
  ing_load_balancer :: "string option list option"

record fileserver_state_objects =
  fss_pod :: "fs_pod option"
  fss_ingress :: "ingress_status option"

definition pod_name_rx :: regex where
  "pod_name_rx = Seq (Group ''1'' (Opt (Plus Dot))) (lit ''-fs'' Eos)"

definition get_username_for_pod :: "fs_pod \<Rightarrow> string option" where
  "get_username_for_pod p =
     (case Option.bind (fsp_labels p) (\<lambda>d. map_of d ''nublado.lsst.io/user'') of
        Some u \<Rightarrow> Some u
      | None \<Rightarrow> Option.bind (re_match pod_name_rx (fsp_name p)) (\<lambda>m. map_of m ''1''))"

definition ingress_has_ip_address :: "ingress_status \<Rightarrow> bool" where
  "ingress_has_ip_address i =
     (case ing_load_balancer i of None \<Rightarrow> False | Some [] \<Rightarrow> False | Some (ip # _) \<Rightarrow> nonempty ip)"

definition is_valid :: "fileserver_state_objects \<Rightarrow> bool" where
  "is_valid s =
     (case fss_pod s of None \<Rightarrow> False
      | Some p \<Rightarrow> (case fsp_phase p of None \<Rightarrow> False
          | Some ph \<Rightarrow> ph = ''Running'' \<and>
              (case fss_ingress s of None \<Rightarrow> False | Some i \<Rightarrow> ingress_has_ip_address i)))"

section \<open>The administration pod\<close>

record fsadmin_config =
  adm_scheduling :: scheduling
  adm_extra_annotations :: "(string, string) dict"
  adm_extra_volumes :: "volume_config list"
  adm_extra_volume_mounts :: "volume_mount_config list"
  adm_mount_prefix :: "string option"
  adm_pod_name :: string
  adm_resources :: "lab_resources option"
  adm_timeout :: timedelta
  adm_container :: container_image
  adm_show_float :: "rat \<Rightarrow> string"

record fsadmin_objects =
  adm_pod :: plain_pod
  adm_pvcs :: "persistent_volume_claim list"

definition adm_metadata :: "string \<Rightarrow> string \<Rightarrow> object_meta" where
  "adm_metadata name suf =
     \<lparr>md_name = name @ suf, md_labels = [(''nublado.lsst.io/category'', ''fsadmin'')],
      md_annotations = argo_cd_annotations\<rparr>"

definition writable :: "volume_mount_config \<Rightarrow> volume_mount_config" where
  "writable m = m\<lparr>vmc_read_only := False\<rparr>"

definition privileged_root :: security_context where
  "privileged_root = \<lparr>sc_privileged = True, sc_escalation = True, sc_read_only_root = False, sc_drop_all = False,
     sc_non_root = False, sc_run_as_user = Some 0, sc_run_as_group = Some 0\<rparr>"

definition adm_build_pod ::
  "fsadmin_config \<Rightarrow> volume_config list \<Rightarrow> volume_mount_config list \<Rightarrow> plain_pod" where
  "adm_build_pod cfg vs ms =
     (let volumes = vs @ adm_extra_volumes cfg;
          volume_mounts = map writable (ms @ adm_extra_volume_mounts cfg);
          mount_prefix = (case adm_mount_prefix cfg of None \<Rightarrow> [] | Some p \<Rightarrow> p)
      in \<lparr>pp_metadata = annotate (texts (adm_extra_annotations cfg)) (adm_metadata (adm_pod_name cfg) []),
          pp_owner = None,
          pp_containers = [\<lparr>pc_name = adm_pod_name cfg, pc_command = [''tail'', ''-f'', ''/dev/null''], pc_env = [],
             pc_image = image_text (adm_container cfg), pc_pull_policy = Some (img_pull_policy (adm_container cfg)),
             pc_ports = [], pc_resources = map_option (resources_to_kubernetes (adm_show_float cfg)) (adm_resources cfg),
             pc_security = Some privileged_root, pc_mounts = build_mounts volume_mounts mount_prefix,
             pc_working_dir = None\<rparr>],
          pp_node = None, pp_pull_secrets = None, pp_non_root = Some False, pp_run_as = None,
          pp_supplemental_groups = [],
          pp_scheduling = scheduling_to_kubernetes (adm_scheduling cfg),
          pp_volumes = build_volumes (wanted_volumes volumes volume_mounts) (adm_pod_name cfg),
          pp_restart_policy = ''Never''\<rparr>)"

definition adm_build_pvcs ::
  "fsadmin_config \<Rightarrow> volume_config list \<Rightarrow> volume_mount_config list \<Rightarrow> persistent_volume_claim list" where
  "adm_build_pvcs cfg vs ms = volume_claims (adm_metadata (adm_pod_name cfg)) (wanted_volumes vs ms)"

text \<open>
  The mounts that are made writable are the objects of the two configurations: after a build, the
  configuration of the labs has them so. The result is the objects with both configurations.
\<close>

definition build_fsadmin ::
  "fsadmin_config \<Rightarrow> lab_config \<Rightarrow> fsadmin_objects \<times> fsadmin_config \<times> lab_config" where
  "build_fsadmin cfg lab =
     (\<lparr>adm_pod = adm_build_pod cfg (cfg_volumes lab) (cfg_volume_mounts lab),
       adm_pvcs = adm_build_pvcs cfg (cfg_volumes lab) (cfg_volume_mounts lab)\<rparr>,
      cfg\<lparr>adm_extra_volume_mounts := map writable (adm_extra_volume_mounts cfg)\<rparr>,
      lab\<lparr>cfg_volume_mounts := map writable (cfg_volume_mounts lab)\<rparr>)"

section \<open>Prepuller pods\<close>

definition name_char :: "char \<Rightarrow> bool" where
  "name_char c \<longleftrightarrow> is_lower c \<or> is_upper c \<or> is_digit c \<or> c \<in> set ''_.-''"

definition prepull_pod_name :: "rsp_image \<Rightarrow> string \<Rightarrow> string" where
  "prepull_pod_name img n =
     take 253 (''prepull-'' @ filter name_char (str_replace ''_'' ''-'' (tag_name img)) @ ''-'' @ n)"

definition build_prepull_pod ::
  "lab_config \<Rightarrow> string option \<Rightarrow> string \<Rightarrow> rsp_image \<Rightarrow> string \<Rightarrow> plain_pod" where
  "build_prepull_pod cfg pull_secret owner img n =
     (let tiny = [(''cpu'', ''1m''), (''memory'', ''16Mi'')]
      in \<lparr>pp_metadata = \<lparr>md_name = prepull_pod_name img n,
            md_labels = [(''nublado.lsst.io/category'', ''prepuller'')], md_annotations = []\<rparr>,
          pp_owner = Some owner,
          pp_containers = [\<lparr>pc_name = ''prepull'', pc_command = [''/bin/true''], pc_env = [],
             pc_image = reference_with_digest img, pc_pull_policy = None, pc_ports = [],
             pc_resources = Some (tiny, tiny), pc_security = None, pc_mounts = [], pc_working_dir = Some ''/tmp''\<rparr>],
          pp_node = Some n,
          pp_pull_secrets = (if nonempty pull_secret then Some [the pull_secret] else None),
          pp_non_root = None, pp_run_as = None, pp_supplemental_groups = [],
          pp_scheduling = \<lparr>v1_affinity_of = None, v1_node_selector = None,
            v1_tolerations = map toleration_to_kubernetes (sch_tolerations (cfg_scheduling cfg))\<rparr>,
          pp_volumes = [], pp_restart_policy = ''Never''\<rparr>)"

section \<open>Objects that fit together\<close>

definition mounts_declared :: "volume_mount list \<Rightarrow> volume list \<Rightarrow> bool" where
  "mounts_declared ms vs \<longleftrightarrow> set (map vm_name ms) \<subseteq> set (map vol_name vs)"

definition claims_created :: "volume list \<Rightarrow> persistent_volume_claim list \<Rightarrow> bool" where
  "claims_created vs ps \<longleftrightarrow>
     (\<forall>v \<in> set vs. case vol_kind v of PVCVolume c r \<Rightarrow> c \<in> set (map (md_name \<circ> pvc_metadata) ps) | _ \<Rightarrow> True)"

lemma volume_claims_names:
  assumes "v \<in> set vs" and "vc_source v = PVCVolumeSource a b c d"
  shows "md_name (meta (''-pvc-'' @ vc_name v)) \<in> (md_name \<circ> pvc_metadata) ` set (volume_claims meta vs)"
proof (rule rev_image_eqI)
  show "\<lparr>pvc_metadata = meta (''-pvc-'' @ vc_name v), pvc_storage_class = b, pvc_access_modes = a, pvc_requests = c\<rparr>
      \<in> set (volume_claims meta vs)"
    using assms unfolding volume_claims_def by (auto intro!: bexI [of _ v])
qed simp

lemma wanted_claims_created:
  assumes "\<And>v :: volume_config. md_name (meta (''-pvc-'' @ vc_name v)) = pre @ ''-pvc-'' @ vc_name v"
  shows "claims_created (build_volumes vs pre) (volume_claims meta vs)"
proof -
  have "case vol_kind (build_volume pre v) of
      PVCVolume c r \<Rightarrow> c \<in> (md_name \<circ> pvc_metadata) ` set (volume_claims meta vs) | _ \<Rightarrow> True"
    if "v \<in> set vs" for v
  proof (cases "vc_source v")
    case (PVCVolumeSource a b c d)
    from volume_claims_names [OF that this, of meta]
    have "pre @ ''-pvc-'' @ vc_name v \<in> (md_name \<circ> pvc_metadata) ` set (volume_claims meta vs)" unfolding assms .
    then show ?thesis by (simp add: build_volume_def PVCVolumeSource)
  qed (simp_all add: build_volume_def)
  then show ?thesis unfolding claims_created_def build_volumes_def set_map by simp
qed

lemma wanted_mounts_declared:
  assumes "mounts_known vs ms"
  shows "mounts_declared (build_mounts ms p) (build_volumes (wanted_volumes vs ms) q)"
  using assms by (force simp: mounts_known_def list_all_iff mounts_declared_def build_mounts_def
      build_volumes_def build_volume_def wanted_volumes_def)

theorem fileserver_fits:
  assumes "mounts_known (fs_volumes cfg) (fs_volume_mounts cfg)"
  shows "mounts_declared (pc_mounts (fs_container_spec cfg (g_username g)))
      (pp_volumes (job_template (fso_job (build_fileserver cfg g)))) \<and>
    claims_created (pp_volumes (job_template (fso_job (build_fileserver cfg g)))) (fso_pvcs (build_fileserver cfg g))"
  using wanted_mounts_declared [OF assms]
  by (auto simp: build_fileserver_def build_job_def Let_def fs_container_spec_def fs_build_pvcs_def
      fs_metadata_def intro!: wanted_claims_created)

section \<open>Labs\<close>

definition claims_mounted :: "lab_config \<Rightarrow> bool" where
  "claims_mounted cfg \<longleftrightarrow>
     list_all (\<lambda>v. case vc_source v of
         PVCVolumeSource a b c d \<Rightarrow> vc_name v \<in> set (map vmc_volume_name (cfg_volume_mounts cfg))
       | _ \<Rightarrow> True) (cfg_volumes cfg)"

definition config_maps_of :: "lab_objects \<Rightarrow> config_map list" where
  "config_maps_of objs = obj_env_config_map objs # obj_config_maps objs"

definition secret_names :: "lab_objects \<Rightarrow> string list" where
  "secret_names objs = map (md_name \<circ> sec_metadata) (obj_secrets objs)"

definition volume_fits :: "lab_objects \<Rightarrow> volume \<Rightarrow> bool" where
  "volume_fits objs v \<longleftrightarrow>
     (case vol_kind v of
        SecretVolume n \<Rightarrow> n \<in> set (secret_names objs)
      | ConfigMapVolume n items \<Rightarrow>
          list_ex (\<lambda>m. md_name (cm_metadata m) = n \<and>
            (case items of None \<Rightarrow> True | Some ks \<Rightarrow> list_all (\<lambda>(k, p). k \<in> set (dkeys (cm_data m))) ks))
            (config_maps_of objs)
      | _ \<Rightarrow> True)"

definition container_fits :: "lab_objects \<Rightarrow> container \<Rightarrow> bool" where
  "container_fits objs c \<longleftrightarrow>
     mounts_declared (c_volume_mounts c) (pod_volumes (obj_pod objs)) \<and>
     c_env_from c \<in> set (map (md_name \<circ> cm_metadata) (config_maps_of objs)) \<and>
     list_all (\<lambda>(n, v). case v of Env_secret m k \<Rightarrow> m \<in> set (secret_names objs) | _ \<Rightarrow> True) (c_env c)"

definition objects_fit :: "lab_objects \<Rightarrow> bool" where
  "objects_fit objs \<longleftrightarrow>
     list_all (container_fits objs) (pod_containers (obj_pod objs) @ pod_init_containers (obj_pod objs)) \<and>
     list_all (volume_fits objs) (pod_volumes (obj_pod objs)) \<and>
     claims_created (pod_volumes (obj_pod objs)) (obj_pvcs objs) \<and>
     set (pod_pull_secrets (obj_pod objs)) \<subseteq> set (secret_names objs)"

text \<open>
  The names of the volumes of a lab: those that the configuration gives to volumes and files, and those that
  the builder uses itself.
\<close>

definition own_volume_names :: "string list" where
  "own_volume_names =
     [''passwd'', ''group'', ''discovery-v1-json'', ''secrets'', ''env'', ''tmp'', ''runtime'', ''lab-startup'']"

definition volume_names_apart :: "lab_config \<Rightarrow> bool" where
  "volume_names_apart cfg \<longleftrightarrow>
     distinct (map vc_name (cfg_volumes cfg) @ map (dashed \<circ> path_name) (dkeys (cfg_files cfg)) @ own_volume_names)"

lemma lab_volume_names:
  "mset (map vol_name (build_pod_volumes cfg u (shared_mounted_volumes cfg u' res @ [build_pod_startup_volume sz b]))) =
   mset (map vc_name (cfg_volumes cfg) @ map (dashed \<circ> path_name) (dkeys (cfg_files cfg)) @ own_volume_names)"
proof -
  have "dashed (path_name ''/etc/passwd'') = ''passwd''" "dashed (path_name ''/etc/group'') = ''group''" by code_simp+
  moreover have "map vol_name (build_volumes vs pre) = map vc_name vs" for vs pre
    by (simp add: build_volumes_def build_volume_def)
  ultimately show ?thesis
    by (simp add: build_pod_volumes_def shared_mounted_volumes_def build_pod_nss_volumes_def build_pod_file_volumes_def
        build_pod_config_map_volume_def build_pod_secret_volume_def build_pod_env_volume_def build_pod_tmp_volume_def
        build_pod_downward_api_volume_def build_pod_startup_volume_def own_volume_names_def Let_def comp_def)
qed

lemma build_lab_parts:
  assumes "build_lab cfg g lab img data pull = Some objs"
  obtains sz where "get_size_definition (cfg_sizes cfg) (req_size (spec_options lab)) = Some sz"
    and "obj_pod objs = the (build_pod cfg g lab img)" and "build_pod cfg g lab img \<noteq> None"
    and "obj_env_config_map objs = the (build_env_config_map cfg g lab img)"
    and "obj_config_maps objs = build_config_maps cfg g" and "obj_pvcs objs = build_pvcs cfg (g_username g)"
    and "obj_secrets objs = build_secrets cfg (g_username g) data pull"
  using assms by (auto simp: build_lab_def build_env_config_map_def build_pod_def split: option.splits)

lemma build_pvcs_claims:
  "build_pvcs cfg u = volume_claims (\<lambda>x. build_metadata cfg (u @ ''-nb'' @ x) u)
     (wanted_volumes (cfg_volumes cfg) (cfg_volume_mounts cfg))"
  unfolding build_pvcs_def volume_claims_def wanted_volumes_def
  by (intro arg_cong [where f = concat] map_cong refl) (auto split: volume_source.split)

lemma mounted_names:
  assumes "mounts_known (cfg_volumes cfg) (cfg_volume_mounts cfg)"
    and "''secrets'' \<in> set (map (vol_name \<circ> mv_volume) mvs)"
    and "\<And>m. m \<in> set mvs \<Longrightarrow> vm_name (mv_mount m) \<in> set (map (vol_name \<circ> mv_volume) mvs')"
    and "set (map (vol_name \<circ> mv_volume) mvs) \<subseteq> set (map (vol_name \<circ> mv_volume) mvs')"
  shows "mounts_declared (build_pod_volume_mounts cfg mvs) (build_pod_volumes cfg u mvs')"
  using assms
  by (auto simp: mounts_declared_def build_pod_volume_mounts_def build_pod_volumes_def build_mounts_def
      build_volumes_def build_volume_def mounts_known_def list_all_iff image_iff)

lemma dict_update_keys: "fst ` set (dict_update d e) = fst ` set d \<union> fst ` set e"
  unfolding dict_update_def by (induction e arbitrary: d) (simp_all add: split_beta)

lemma config_map_volume_fits:
  assumes "cm \<in> set (config_maps_of objs)" and "md_name (cm_metadata cm) = n" and "k \<in> set (dkeys (cm_data cm))"
    and "vol_kind v = ConfigMapVolume n (Some [(k, q)])"
  shows "volume_fits objs v"
  using assms by (auto simp: volume_fits_def list_ex_iff)

lemma shared_names:
  assumes "m \<in> set (shared_mounted_volumes cfg u res @ [build_pod_startup_volume sz b])"
  shows "vm_name (mv_mount m) = vol_name (mv_volume m)"
  using assms
  by (auto simp: shared_mounted_volumes_def build_pod_nss_volumes_def build_pod_file_volumes_def
      build_pod_config_map_volume_def build_pod_secret_volume_def build_pod_env_volume_def build_pod_tmp_volume_def
      build_pod_downward_api_volume_def build_pod_startup_volume_def Let_def)

lemma shared_secrets:
  "''secrets'' \<in> set (map (vol_name \<circ> mv_volume) (shared_mounted_volumes cfg u res @ [x]))"
  by (simp add: shared_mounted_volumes_def build_pod_secret_volume_def)

lemma shared_mounts:
  assumes "mounts_known (cfg_volumes cfg) (cfg_volume_mounts cfg)"
  shows "mounts_declared (build_pod_volume_mounts cfg (shared_mounted_volumes cfg u res @ [build_pod_startup_volume sz b]))
    (build_pod_volumes cfg v (shared_mounted_volumes cfg u res @ [build_pod_startup_volume sz b']))"
proof (rule mounted_names [OF assms shared_secrets])
  show same: "set (map (vol_name \<circ> mv_volume) (shared_mounted_volumes cfg u res @ [build_pod_startup_volume sz b]))
      \<subseteq> set (map (vol_name \<circ> mv_volume) (shared_mounted_volumes cfg u res @ [build_pod_startup_volume sz b']))"
    by (simp add: build_pod_startup_volume_def)
  fix m assume m: "m \<in> set (shared_mounted_volumes cfg u res @ [build_pod_startup_volume sz b])"
  then have "vm_name (mv_mount m) = vol_name (mv_volume m)" by (rule shared_names)
  with m same show "vm_name (mv_mount m) \<in>
      set (map (vol_name \<circ> mv_volume) (shared_mounted_volumes cfg u res @ [build_pod_startup_volume sz b']))"
    by auto
qed

lemma mounts_declared_subset: "set ms \<subseteq> set ms' \<Longrightarrow> mounts_declared ms' vs \<Longrightarrow> mounts_declared ms vs"
  by (auto simp: mounts_declared_def)

lemma init_container_fits:
  assumes "c \<in> set (build_pod_init_containers cfg g mounts res)"
  shows "c_env_from c = g_username g @ ''-nb-env'' \<and>
    (\<forall>n m k. (n, Env_secret m k) \<in> set (c_env c) \<longrightarrow> m = g_username g @ ''-nb'') \<and>
    (set (c_volume_mounts c) \<subseteq> set mounts \<or>
     (\<exists>i \<in> set (cfg_init_containers cfg). c_volume_mounts c = build_mounts (ic_volume_mounts i) []))"
  using assms
  by (auto simp: build_pod_init_containers_def Let_def build_nublado_initcontainer_def init_env_def
      extract_env_secrets_def split: if_splits)

lemma shared_volume_fits:
  assumes "m \<in> set (shared_mounted_volumes cfg (g_username g) res @ [build_pod_startup_volume sz b])"
    and "md_name (cm_metadata (obj_env_config_map objs)) = g_username g @ ''-nb-env''"
    and "obj_config_maps objs = build_config_maps cfg g"
    and "obj_secrets objs = build_secrets cfg (g_username g) data pull"
  shows "volume_fits objs (mv_volume m)"
proof -
  let ?u = "g_username g"
  have nss: "volume_fits objs (mv_volume m)" if "m \<in> set (build_pod_nss_volumes ?u)" for m
    using that assms(3)
    by (auto simp: volume_fits_def build_pod_nss_volumes_def build_pod_config_map_volume_def Let_def
        config_maps_of_def build_config_maps_def build_nss_config_map_def build_metadata_def)
      (simp_all add: path_name_def dashed_def)
  let ?cm = "build_file_config_map cfg ?u"
  have cm: "?cm \<in> set (config_maps_of objs)" "md_name (cm_metadata ?cm) = ?u @ ''-nb-files''"
    using assms(3) by (simp_all add: config_maps_of_def build_config_maps_def build_file_config_map_def build_metadata_def)
  have key: "''discovery-v1-json'' \<in> set (dkeys (cm_data ?cm))"
    by (simp add: build_file_config_map_def dict_update_keys)
  have keys: "dashed (path_name f) \<in> set (dkeys (cm_data ?cm))" if "f \<in> set (dkeys (cfg_files cfg))" for f
    using that by (force simp: build_file_config_map_def dict_update_keys)
  have files: "volume_fits objs (mv_volume m)" if "m \<in> set (build_pod_file_volumes cfg ?u)" for m
  proof -
    have "(\<exists>f \<in> set (dkeys (cfg_files cfg)). m = build_pod_config_map_volume (?u @ ''-nb-files'') f None) \<or>
        m = build_pod_config_map_volume (?u @ ''-nb-files'') ''/etc/nublado/discovery/v1.json'' (Some ''discovery-v1-json'')"
      using that by (auto simp: build_pod_file_volumes_def)
    then have "\<exists>k \<in> set (dkeys (cm_data ?cm)). \<exists>q.
        vol_kind (mv_volume m) = ConfigMapVolume (?u @ ''-nb-files'') (Some [(k, q)])"
    proof (elim disjE bexE)
      fix f assume "f \<in> set (dkeys (cfg_files cfg))" and m: "m = build_pod_config_map_volume (?u @ ''-nb-files'') f None"
      from keys [OF this(1)] show ?thesis
        by (rule bexI [rotated]) (simp add: m build_pod_config_map_volume_def Let_def)
    next
      assume m: "m = build_pod_config_map_volume (?u @ ''-nb-files'') ''/etc/nublado/discovery/v1.json''
        (Some ''discovery-v1-json'')"
      from key show ?thesis
        by (rule bexI [rotated]) (simp add: m build_pod_config_map_volume_def Let_def)
    qed
    then show ?thesis using config_map_volume_fits [OF cm] by blast
  qed
  show ?thesis
    using assms nss files
    by (auto simp: shared_mounted_volumes_def volume_fits_def build_pod_secret_volume_def build_pod_env_volume_def
        build_pod_tmp_volume_def build_pod_downward_api_volume_def build_pod_startup_volume_def secret_names_def
        build_secrets_def build_metadata_def config_maps_of_def)
qed

lemma lab_claims_created:
  assumes "claims_mounted cfg"
  shows "claims_created (build_pod_volumes cfg u (shared_mounted_volumes cfg u' res @ [build_pod_startup_volume sz b]))
    (build_pvcs cfg u)"
proof -
  let ?W = "wanted_volumes (cfg_volumes cfg) (cfg_volume_mounts cfg)" and ?p = "u @ ''-nb''"
  have w: "claims_created (build_volumes ?W ?p) (build_pvcs cfg u)"
    unfolding build_pvcs_claims by (rule wanted_claims_created) (simp add: build_metadata_def)
  have "c \<in> set (map (md_name \<circ> pvc_metadata) (build_pvcs cfg u))"
    if v: "v \<in> set (build_volumes (cfg_volumes cfg) ?p)" and k: "vol_kind v = PVCVolume c r" for v c r
  proof -
    obtain x where x: "x \<in> set (cfg_volumes cfg)" "v = build_volume ?p x" using v by (auto simp: build_volumes_def)
    then have "x \<in> set ?W"
      using assms k by (cases "vc_source x")
        (auto simp: claims_mounted_def list_all_iff wanted_volumes_def build_volume_def)
    then have "v \<in> set (build_volumes ?W ?p)" using x(2) by (simp add: build_volumes_def)
    then show ?thesis using w k by (fastforce simp: claims_created_def)
  qed
  moreover have "\<not> (\<exists>c r. vol_kind (mv_volume m) = PVCVolume c r)"
    if "m \<in> set (shared_mounted_volumes cfg u' res @ [build_pod_startup_volume sz b])" for m
    using that
    by (auto simp: shared_mounted_volumes_def build_pod_nss_volumes_def build_pod_file_volumes_def
        build_pod_config_map_volume_def build_pod_secret_volume_def build_pod_env_volume_def build_pod_tmp_volume_def
        build_pod_downward_api_volume_def build_pod_startup_volume_def Let_def)
  ultimately show ?thesis
    unfolding claims_created_def build_pod_volumes_def by (fastforce split: volume_kind.split)
qed

text \<open>C36: The Kubernetes objects of a lab fit together: every volume mount of every
  container names a volume of the pod, and the config maps, secrets and claims that the volumes
  and variables refer to are among the objects, for volumes that the validators accept, claims
  that are all mounted, and a pull secret that was found if one is configured. No two volumes of
  the pod share a name if and only if the names of the volumes and files of the configuration
  differ from each other and from those of the builder, which no validator demands.\<close>

theorem lab_objects_fit:
  assumes "build_lab cfg g lab img data pull = Some objs" and "validate_volumes cfg = Inr cfg'"
    and "claims_mounted cfg" and "nonempty (cfg_pull_secret cfg) \<longrightarrow> pull \<noteq> None"
  shows "objects_fit objs \<and>
    (distinct (map vol_name (pod_volumes (obj_pod objs))) \<longleftrightarrow> volume_names_apart cfg)"
proof -
  let ?u = "g_username g"
  obtain sz where sz: "get_size_definition (cfg_sizes cfg) (req_size (spec_options lab)) = Some sz"
    and pod: "obj_pod objs = the (build_pod cfg g lab img)" "build_pod cfg g lab img \<noteq> None"
    and env: "obj_env_config_map objs = the (build_env_config_map cfg g lab img)"
    and rest: "obj_config_maps objs = build_config_maps cfg g" "obj_pvcs objs = build_pvcs cfg ?u"
      "obj_secrets objs = build_secrets cfg ?u data pull"
    using assms(1) by (rule build_lab_parts)
  let ?shared = "shared_mounted_volumes cfg ?u (def_resources sz)"
  let ?mvs = "\<lambda>b. ?shared @ [build_pod_startup_volume (640 * 1024) b]"
  have p: "pod_volumes (obj_pod objs) = build_pod_volumes cfg ?u (?mvs True)"
    "pod_containers (obj_pod objs) =
      build_pod_containers cfg g (build_pod_volume_mounts cfg (?mvs True)) (def_resources sz) img"
    "pod_init_containers (obj_pod objs) =
      build_pod_init_containers cfg g (build_pod_volume_mounts cfg (?mvs False)) (def_resources sz)"
    "pod_pull_secrets (obj_pod objs) = (if nonempty (cfg_pull_secret cfg) then [''pull-secret''] else [])"
    using sz by (simp_all add: pod(1) build_pod_def Let_def)
  have envname: "md_name (cm_metadata (obj_env_config_map objs)) = ?u @ ''-nb-env''"
    using sz by (simp add: env build_env_config_map_def build_metadata_def)
  have secret: "?u @ ''-nb'' \<in> set (secret_names objs)"
    by (simp add: secret_names_def rest build_secrets_def build_metadata_def)
  have known: "mounts_known (cfg_volumes cfg) (cfg_volume_mounts cfg)"
    "\<And>i. i \<in> set (cfg_init_containers cfg) \<Longrightarrow> mounts_known (cfg_volumes cfg) (ic_volume_mounts i)"
    using assms(2) by (auto simp: validate_volumes_def list_all_iff split: if_splits)
  have mounts: "mounts_declared (build_pod_volume_mounts cfg (?mvs b)) (pod_volumes (obj_pod objs))" for b
    unfolding p by (rule shared_mounts [OF known(1)])
  have init: "mounts_declared (build_mounts (ic_volume_mounts i) []) (pod_volumes (obj_pod objs))"
    if "i \<in> set (cfg_init_containers cfg)" for i
    using known(2) [OF that] by (force simp: mounts_declared_def p build_pod_volumes_def build_volumes_def
        build_volume_def build_mounts_def mounts_known_def list_all_iff)
  have fits: "container_fits objs c" if "c \<in> set (pod_containers (obj_pod objs) @ pod_init_containers (obj_pod objs))" for c
  proof (cases "c \<in> set (pod_containers (obj_pod objs))")
    case True
    then show ?thesis
      using mounts secret envname by (auto simp: p build_pod_containers_def container_fits_def config_maps_of_def
          extract_env_secrets_def list_all_iff)
  next
    case False
    then have "c \<in> set (build_pod_init_containers cfg g (build_pod_volume_mounts cfg (?mvs False)) (def_resources sz))"
      using that p by simp
    note i = init_container_fits [OF this]
    have "mounts_declared (c_volume_mounts c) (pod_volumes (obj_pod objs))"
      using i mounts_declared_subset [OF _ mounts] init by (elim conjE disjE bexE) simp_all
    moreover have "m \<in> set (secret_names objs)" if "(n, Env_secret m k) \<in> set (c_env c)" for n m k
    proof -
      have "m = ?u @ ''-nb''" using i that by blast
      then show ?thesis using secret by simp
    qed
    ultimately show ?thesis
      using i envname by (auto simp: container_fits_def config_maps_of_def list_all_iff split: env_value.split)
  qed
  have "volume_fits objs v" if "v \<in> set (pod_volumes (obj_pod objs))" for v
  proof (cases "v \<in> set (build_volumes (cfg_volumes cfg) (?u @ ''-nb''))")
    case True
    then show ?thesis
      by (auto simp: build_volumes_def build_volume_def volume_fits_def split: volume_source.splits)
  next
    case False
    then show ?thesis
      using that shared_volume_fits [OF _ envname rest(1,3)] by (auto simp: p build_pod_volumes_def)
  qed
  moreover have "claims_created (pod_volumes (obj_pod objs)) (obj_pvcs objs)"
    unfolding p rest by (rule lab_claims_created [OF assms(3)])
  moreover have "set (pod_pull_secrets (obj_pod objs)) \<subseteq> set (secret_names objs)"
    using assms(4) by (auto simp: p secret_names_def rest build_secrets_def build_metadata_def)
  ultimately have "objects_fit objs" using fits by (simp add: objects_fit_def list_all_iff)
  moreover have "distinct (map vol_name (pod_volumes (obj_pod objs))) \<longleftrightarrow> volume_names_apart cfg"
    unfolding p volume_names_apart_def by (rule mset_eq_imp_distinct_iff [OF lab_volume_names])
  ultimately show ?thesis by blast
qed

section \<open>Objects that do not fit together\<close>

text \<open>The pod of a lab has every configured volume, but only claims of mounted volumes are created.\<close>

theorem unmounted_claim_missing:
  assumes "build_lab cfg g lab img data pull = Some objs" and "v \<in> set (cfg_volumes cfg)"
    and "vc_source v = PVCVolumeSource modes sclass reqs ro" and "vc_name v \<notin> set (map vmc_volume_name (cfg_volume_mounts cfg))"
  shows "\<not> claims_created (pod_volumes (obj_pod objs)) (obj_pvcs objs)"
proof -
  let ?c = "g_username g @ ''-nb-pvc-'' @ vc_name v"
  obtain sz where sz: "get_size_definition (cfg_sizes cfg) (req_size (spec_options lab)) = Some sz"
    and pod: "obj_pod objs = the (build_pod cfg g lab img)" and pvcs: "obj_pvcs objs = build_pvcs cfg (g_username g)"
    using assms(1) by (rule build_lab_parts)
  have "build_volume (g_username g @ ''-nb'') v \<in> set (pod_volumes (obj_pod objs))"
    using assms(2) sz by (simp add: pod build_pod_def Let_def build_pod_volumes_def build_volumes_def)
  moreover have "vol_kind (build_volume (g_username g @ ''-nb'') v) = PVCVolume ?c ro"
    using assms(3) by (simp add: build_volume_def)
  moreover have "?c \<notin> set (map (md_name \<circ> pvc_metadata) (obj_pvcs objs))"
    using assms(4) by (auto simp: pvcs build_pvcs_def build_metadata_def split: volume_source.splits)
  ultimately show ?thesis by (force simp: claims_created_def)
qed

definition example_volumes :: "volume_config list" where
  "example_volumes =
     [\<lparr>vc_name = ''home'', vc_source = NFSVolumeSource ''nfs.example.org'' ''/home'' False\<rparr>,
      \<lparr>vc_name = ''data'', vc_source = NFSVolumeSource ''nfs.example.org'' ''/data'' False\<rparr>,
      \<lparr>vc_name = ''scratch'', vc_source = PVCVolumeSource [''ReadWriteMany''] ''standard'' [(''storage'', ''1Gi'')] False\<rparr>]"

definition example_mount :: "string \<Rightarrow> bool \<Rightarrow> volume_mount_config" where
  "example_mount n ro = \<lparr>vmc_container_path = ''/'' @ n, vmc_sub_path = None, vmc_read_only = ro, vmc_volume_name = n\<rparr>"

definition example_mounted :: "volume_mount_config list \<Rightarrow> lab_config" where
  "example_mounted ms = example_config\<lparr>cfg_volumes := example_volumes, cfg_volume_mounts := ms\<rparr>"

lemma example_mounted_builds:
  "build_lab (example_mounted ms) example_user example_lab (example_store 0) [] None =
     Some (the (build_lab (example_mounted ms) example_user example_lab (example_store 0) [] None))"
proof -
  have "get_size_definition (cfg_sizes (example_mounted ms)) (req_size (spec_options example_lab)) =
      Some \<lparr>def_size = SMALL, def_resources = example_resources 4096\<rparr>"
    by (simp add: get_size_definition_def example_mounted_def example_config_def example_lab_def example_sizes_def)
  then show ?thesis by (simp add: build_lab_def build_env_config_map_def build_pod_def Let_def)
qed

lemma lab_objects_fit_witness:
  "(let objs = the (build_lab (example_mounted [example_mount ''home'' False, example_mount ''scratch'' False])
       example_user example_lab (example_store 0) [] None)
    in objects_fit objs \<and> distinct (map vol_name (pod_volumes (obj_pod objs))))"
proof -
  let ?c = "example_mounted [example_mount ''home'' False, example_mount ''scratch'' False]"
  have "validate_volumes ?c = Inr ?c"
    by (simp add: validate_volumes_def example_mounted_def example_config_def example_volumes_def example_mount_def
        mounts_known_def)
  moreover have "claims_mounted ?c"
    by (simp add: claims_mounted_def example_mounted_def example_config_def example_volumes_def example_mount_def)
  moreover have "\<not> nonempty (cfg_pull_secret ?c)" by (simp add: example_mounted_def example_config_def nonempty_def)
  moreover have "volume_names_apart ?c"
    by (simp add: volume_names_apart_def own_volume_names_def example_mounted_def example_config_def example_volumes_def)
  ultimately show ?thesis
    unfolding Let_def using lab_objects_fit [OF example_mounted_builds] by blast
qed

lemma unmounted_claim_missing_witness:
  "\<not> claims_created (pod_volumes (obj_pod (the (build_lab (example_mounted [example_mount ''home'' False])
       example_user example_lab (example_store 0) [] None))))
     (obj_pvcs (the (build_lab (example_mounted [example_mount ''home'' False])
       example_user example_lab (example_store 0) [] None)))"
  by (rule unmounted_claim_missing [OF example_mounted_builds, where
        modes = "[''ReadWriteMany'']" and sclass = "''standard''" and reqs = "[(''storage'', ''1Gi'')]" and ro = False and
        v = "\<lparr>vc_name = ''scratch'', vc_source = PVCVolumeSource [''ReadWriteMany''] ''standard'' [(''storage'', ''1Gi'')] False\<rparr>"])
    (simp_all add: example_mounted_def example_config_def example_volumes_def example_mount_def)

text \<open>The administration pod has the extra volumes, but their claims are not created.\<close>

theorem extra_claim_missing:
  assumes "v \<in> set (adm_extra_volumes cfg)" and "vc_source v = PVCVolumeSource modes sclass reqs ro"
    and "vc_name v \<in> set (map vmc_volume_name (adm_extra_volume_mounts cfg))"
    and "vc_name v \<notin> set (map vc_name (cfg_volumes lab))"
  shows "\<not> claims_created (pp_volumes (adm_pod (fst (build_fsadmin cfg lab)))) (adm_pvcs (fst (build_fsadmin cfg lab)))"
proof -
  let ?c = "adm_pod_name cfg @ ''-pvc-'' @ vc_name v"
  have "build_volume (adm_pod_name cfg) v \<in> set (pp_volumes (adm_pod (fst (build_fsadmin cfg lab))))"
  proof -
    have "vc_name v \<in> set (map vmc_volume_name (map writable (cfg_volume_mounts lab @ adm_extra_volume_mounts cfg)))"
      using assms(3) by (auto simp: writable_def image_iff)
    then have "v \<in> set (wanted_volumes (cfg_volumes lab @ adm_extra_volumes cfg)
        (map writable (cfg_volume_mounts lab @ adm_extra_volume_mounts cfg)))"
      using assms(1) by (simp add: wanted_volumes_def)
    then show ?thesis by (auto simp: build_fsadmin_def adm_build_pod_def Let_def build_volumes_def)
  qed
  moreover have "vol_kind (build_volume (adm_pod_name cfg) v) = PVCVolume ?c ro"
    using assms(2) by (simp add: build_volume_def)
  moreover have "?c \<notin> set (map (md_name \<circ> pvc_metadata) (adm_pvcs (fst (build_fsadmin cfg lab))))"
    using assms(4) by (auto simp: build_fsadmin_def adm_build_pvcs_def volume_claims_def wanted_volumes_def
        adm_metadata_def image_iff split: volume_source.splits)
  ultimately show ?thesis by (force simp: claims_created_def)
qed

text \<open>Building the objects of the administration pod makes the read-only mounts of all labs writable.\<close>

text \<open>C39: After the administration pod is built, every lab that is built from the same
  configuration mounts the volumes of the configuration read-write, also those configured as
  read-only.\<close>

theorem fsadmin_unlocks_labs:
  assumes "build_lab (snd (snd (build_fsadmin adm cfg))) g lab img data pull = Some objs"
    and "c \<in> set (pod_containers (obj_pod objs))"
  shows "take (length (cfg_volume_mounts cfg)) (c_volume_mounts c) =
    map (\<lambda>m. m\<lparr>vm_read_only := False\<rparr>) (build_mounts (cfg_volume_mounts cfg) [])"
proof -
  let ?cfg = "snd (snd (build_fsadmin adm cfg))"
  obtain sz where sz: "get_size_definition (cfg_sizes ?cfg) (req_size (spec_options lab)) = Some sz"
    and pod: "obj_pod objs = the (build_pod ?cfg g lab img)"
    using assms(1) by (rule build_lab_parts)
  have ms: "build_mounts (cfg_volume_mounts ?cfg) [] =
      map (\<lambda>m. m\<lparr>vm_read_only := False\<rparr>) (build_mounts (cfg_volume_mounts cfg) [])"
    by (simp add: build_fsadmin_def build_mounts_def writable_def)
  have "\<exists>mvs. c_volume_mounts c = build_pod_volume_mounts ?cfg mvs"
    using assms(2) sz by (auto simp: pod build_pod_def Let_def build_pod_containers_def)
  then show ?thesis by (auto simp: build_pod_volume_mounts_def ms) (simp add: build_mounts_def)
qed

definition example_fsadmin :: fsadmin_config where
  "example_fsadmin = \<lparr>adm_scheduling = \<lparr>sch_affinity = None, sch_node_selector = [], sch_tolerations = []\<rparr>,
     adm_extra_annotations = [],
     adm_extra_volumes = [\<lparr>vc_name = ''extra'', vc_source = PVCVolumeSource [''ReadWriteMany''] ''standard'' [(''storage'', ''1Gi'')] False\<rparr>],
     adm_extra_volume_mounts = [example_mount ''extra'' False], adm_mount_prefix = None, adm_pod_name = ''fsadmin'',
     adm_resources = None, adm_timeout = 120000000,
     adm_container = \<lparr>img_repository = ''repo'', img_pull_policy = IfNotPresent, img_tag = ''main''\<rparr>,
     adm_show_float = unary_show\<rparr>"

lemma extra_claim_missing_witness:
  "\<not> claims_created (pp_volumes (adm_pod (fst (build_fsadmin example_fsadmin example_config))))
     (adm_pvcs (fst (build_fsadmin example_fsadmin example_config)))"
  by (rule extra_claim_missing [where v = "hd (adm_extra_volumes example_fsadmin)" and modes = "[''ReadWriteMany'']"
      and sclass = "''standard''" and reqs = "[(''storage'', ''1Gi'')]" and ro = False])
    (simp_all add: example_fsadmin_def example_mount_def example_config_def)

lemma fsadmin_unlocks_labs_witness:
  "map vm_read_only (take 2 (c_volume_mounts (hd (pod_containers (obj_pod (the
     (build_lab (snd (snd (build_fsadmin example_fsadmin
        (example_mounted [example_mount ''home'' False, example_mount ''data'' True]))))
       example_user example_lab (example_store 0) [] None))))))) = [False, False]"
proof -
  let ?cfg = "example_mounted [example_mount ''home'' False, example_mount ''data'' True]"
  let ?lab = "build_lab (snd (snd (build_fsadmin example_fsadmin ?cfg))) example_user example_lab (example_store 0) [] None"
  have "snd (snd (build_fsadmin example_fsadmin ?cfg)) =
      example_mounted [example_mount ''home'' False, example_mount ''data'' False]"
    by (simp add: build_fsadmin_def example_mounted_def writable_def example_mount_def)
  then have lab: "?lab = Some (the ?lab)" using example_mounted_builds by simp
  obtain sz where "obj_pod (the ?lab) = the (build_pod (snd (snd (build_fsadmin example_fsadmin ?cfg))) example_user example_lab (example_store 0))"
    and "build_pod (snd (snd (build_fsadmin example_fsadmin ?cfg))) example_user example_lab (example_store 0) \<noteq> None"
    using lab by (rule build_lab_parts) blast
  then have "hd (pod_containers (obj_pod (the ?lab))) \<in> set (pod_containers (obj_pod (the ?lab)))"
    by (auto simp: build_pod_def Let_def build_pod_containers_def)
  note unlocked = fsadmin_unlocks_labs [OF lab this]
  have two: "length (cfg_volume_mounts ?cfg) = 2" by (simp add: example_mounted_def)
  show ?thesis
    unfolding unlocked [unfolded two] by (simp add: example_mounted_def example_mount_def build_mounts_def)
qed

end
