(* ===== verification/Registry_Types.thy ===== *)
theory Registry_Types
  imports Image_Collection Docker_Model
begin

text \<open>
  What the registry clients exchange with the registries: HTTP requests and responses of the Docker
  registry, and the images of the Google Artifact Registry. Header names are in lower case, as the
  HTTP client compares them without case. Of the body of a response the model keeps what the code
  reads from it; \<open>None\<close> stands for a body in which the code does not find it.
\<close>

record http_request =
  hq_method :: string
  hq_url :: string
  hq_headers :: "(string, string) dict"
  hq_auth :: "(string \<times> string) option"
  hq_params :: "(string, string) dict"

datatype tags_body = Null_tags | Tags "string list"

record http_response =
  hr_status :: nat
  hr_headers :: "(string, string) dict"
  hr_tags :: "tags_body option"
  hr_token :: "string option"

record gar_image =
  ga_uri :: string
  ga_tags :: "string list"
  ga_size :: int

text \<open>The ways in which the Docker client fails, and the other exceptions of the image sources.\<close>

datatype docker_problem = Rejected | No_credentials | No_challenge | Unknown_challenge | Http_failed
  | Cannot_get_digest | Cannot_parse_response | Cannot_parse_login | Repeated_page | Foreign_page

datatype image_exn =
    Docker_error docker_problem
  | Http_error
  | Google_error bool
  | Unknown_image
  | Invalid_reference
  | Collection_error image_error
  | Tag_error tag_error

end
