(* ===== verification/Kube_Storage.thy ===== *)
theory Kube_Storage
  imports Timeouts Pod_Builders Registry_Types
begin

text \<open>
  The Kubernetes storage layer, \<open>src/src/nublado/controller/storage/kubernetes\<close>: \<open>creator.py\<close>,
  \<open>deleter.py\<close>, \<open>namespace.py\<close>, \<open>custom.py\<close>, \<open>pod.py\<close>, \<open>ingress.py\<close>, \<open>watcher.py\<close>, \<open>lab.py\<close>,
  \<open>fileserver.py\<close> and \<open>fsadmin.py\<close>. Every method is a coroutine that awaits the answers of the
  Kubernetes API; a call carries its arguments and its request timeout. A storage class for one kind
  of object is the generic one for that kind. Logging is left out.
\<close>

section \<open>Calls and answers\<close>

datatype k_kind = K_Namespace | K_PVC | K_ConfigMap | K_Secret | K_Quota | K_NetworkPolicy | K_Service
  | K_ServiceAccount | K_Pod | K_Job | K_Ingress | K_GafaelfawrIngress | K_Event | K_Node

datatype k_object =
    O_namespace object_meta
  | O_pvc persistent_volume_claim
  | O_config_map config_map
  | O_secret secret
  | O_quota resource_quota
  | O_network_policy network_policy
  | O_service service
  | O_pod pod
  | O_plain_pod plain_pod
  | O_job job
  | O_gafaelfawr gafaelfawr_ingress
  | O_node node
  | O_other

primrec object_name :: "k_object \<Rightarrow> string" where
  "object_name (O_namespace m) = md_name m"
| "object_name (O_pvc x) = md_name (pvc_metadata x)"
| "object_name (O_config_map x) = md_name (cm_metadata x)"
| "object_name (O_secret x) = md_name (sec_metadata x)"
| "object_name (O_quota x) = md_name (rq_metadata x)"
| "object_name (O_network_policy x) = md_name (np_metadata x)"
| "object_name (O_service x) = md_name (svc_metadata x)"
| "object_name (O_pod x) = md_name (pod_metadata x)"
| "object_name (O_plain_pod x) = md_name (pp_metadata x)"
| "object_name (O_job x) = md_name (job_metadata x)"
| "object_name (O_gafaelfawr x) = md_name (gi_metadata x)"
| "object_name (O_node x) = node_name x"
| "object_name O_other = []"

text \<open>An object as the API returns it, with the parts of its metadata and status that the code reads.\<close>

record stored =
  so_name :: string
  so_labels :: "(string, string) dict option"
  so_version :: "string option"
  so_phase :: "string option"
  so_start_time :: "datetime option"
  so_load_balancer :: "string option list option"
  so_message :: string
  so_body :: k_object

datatype watch_action = ADDED | MODIFIED | DELETED

datatype watch_item = Not_a_dict | Event_item string bool stored

record watch_args =
  wa_kind :: k_kind
  wa_namespace :: string
  wa_selector :: "string option"
  wa_version :: "string option"
  wa_request :: timedelta
  wa_seconds :: int

datatype k_call =
    Create k_kind string k_object
  | Delete k_kind string string "string option" "int option"
  | List k_kind string "string option"
  | Read k_kind string string
  | Watch_open watch_args
  | Watch_next
  | Watch_close

datatype k_answer = K_none | K_object stored | K_objects "stored list" | K_item "watch_item option"
  | K_http http_response | K_gar "gar_image list" | K_digests "string list"

datatype k_exn =
    K_api nat
  | K_kubernetes nat
  | K_timeout
  | K_controller_timeout
  | K_expired
  | K_cancelled
  | K_value
  | K_attribute
  | K_missing_secret
  | K_duplicate
  | K_pod_not_found
  | K_invalid_phase "string option"
  | K_unbound
  | K_unknown_user
  | K_type
  | K_key
  | K_images image_exn
  | Out_of_fuel

text \<open>
  What is waited for: an answer to a call, a pause, the lock of a file server, of the administration
  pod or of the image service, the report of an exception, an answer of an image registry, the digests
  of several tags that are asked for at the same time, news of a refresh of the images, the end of a
  group of prepuller tasks, or another wait under a time limit.
\<close>

datatype k_wait =
    Request k_call "timedelta option"
  | Sleep timedelta
  | Acquire nat
  | Acquire_admin
  | Acquire_images
  | Post_exception k_exn
  | Http http_request
  | Gar_list string
  | Gar_delete string "string list"
  | Docker_digests "string list"
  | Wait_refreshed
  | Prepull_tasks "(string \<times> addr list) list"
  | Timed_k datetime k_wait

text \<open>
  \<open>K_api\<close> is the exception of the client library with its status and \<open>K_kubernetes\<close> is
  \<open>KubernetesError\<close>; \<open>K_expired\<close> is how an expired time limit reaches the block inside it.
  \<open>Out_of_fuel\<close> is not an exception of the code: it marks runs of a loop longer than the bound.
\<close>

record kube =
  k_clock :: datetime

type_synonym ('x, 'a) k_proc = "('x kube_scheme, k_wait, k_answer, k_exn, 'a) proc"

definition enforce_k :: "timeout \<Rightarrow> ('x, 'a) k_proc \<Rightarrow> ('x, 'a) k_proc" where
  "enforce_k = enforce_in k_clock Timed_k (\<lambda>e. e = K_expired \<or> e = K_controller_timeout \<or> e = K_timeout)
     K_controller_timeout"

definition or_raise :: "'e \<Rightarrow> 'a option \<Rightarrow> ('s, 'w, 'v, 'e, 'a) proc" where
  "or_raise e x = (case x of None \<Rightarrow> Raise e | Some a \<Rightarrow> Ret a)"

definition time_left :: "timeout \<Rightarrow> ('x, timedelta) k_proc" where
  "time_left t = bind (reading k_clock) (\<lambda>n. or_raise K_controller_timeout (left t n))"

definition partial_timeout :: "timeout \<Rightarrow> timedelta \<Rightarrow> ('x, timeout) k_proc" where
  "partial_timeout t d =
     bind (reading k_clock) (\<lambda>n. bind (reading k_clock) (\<lambda>n'. or_raise K_controller_timeout (partial t d n n')))"

definition start_timeout :: "timedelta \<Rightarrow> ('x, timeout) k_proc" where
  "start_timeout d = bind (reading k_clock) (\<lambda>n. Ret (new_timeout_at d n))"

definition seconds :: "int \<Rightarrow> timedelta" where
  "seconds n = n * 1000000"

definition request :: "k_call \<Rightarrow> timeout \<Rightarrow> ('x, k_answer) k_proc" where
  "request q t = bind (time_left t) (\<lambda>l. await (Request q (Some l)))"

text \<open>\<open>except ApiException\<close>: converted, or a missing object taken for a result.\<close>

definition api_errors :: "('x, 'a) k_proc \<Rightarrow> ('x, 'a) k_proc" where
  "api_errors p = catch p (\<lambda>e. case e of K_api st \<Rightarrow> Raise (K_kubernetes st) | _ \<Rightarrow> Raise e)"

definition api_missing :: "'a \<Rightarrow> ('x, 'a) k_proc \<Rightarrow> ('x, 'a) k_proc" where
  "api_missing x p =
     catch p (\<lambda>e. case e of K_api st \<Rightarrow> if st = 404 then Ret x else Raise (K_kubernetes st) | _ \<Rightarrow> Raise e)"

text \<open>An exception that \<open>except Exception\<close> catches: not the cancellation of the task.\<close>

definition is_exn :: "k_exn \<Rightarrow> bool" where
  "is_exn e \<longleftrightarrow> e \<noteq> K_cancelled \<and> e \<noteq> K_expired \<and> e \<noteq> Out_of_fuel"

section \<open>Watches\<close>

definition action_of :: "string \<Rightarrow> watch_action option" where
  "action_of s = map_of [(''ADDED'', ADDED), (''MODIFIED'', MODIFIED), (''DELETED'', DELETED)] s"

definition parse_item :: "watch_item \<Rightarrow> (watch_action \<times> stored) option" where
  "parse_item i =
     (case i of Not_a_dict \<Rightarrow> None
      | Event_item ty ok obj \<Rightarrow>
          (case action_of ty of None \<Rightarrow> None | Some a \<Rightarrow> if ok then Some (a, obj) else None))"

definition ceil_seconds :: "timedelta \<Rightarrow> int" where
  "ceil_seconds d = - ((- d) div 1000000)"

definition watch_start :: "k_kind \<Rightarrow> string \<Rightarrow> string option \<Rightarrow> string option \<Rightarrow> timedelta \<Rightarrow> watch_args" where
  "watch_start kd ns selector rv reconnect =
     \<lparr>wa_kind = kd, wa_namespace = ns, wa_selector = selector, wa_version = rv, wa_request = reconnect,
      wa_seconds = ceil_seconds reconnect\<rparr>"

definition named :: "string \<Rightarrow> string option" where
  "named n = (if n = [] then None else Some (''metadata.name='' @ n))"

definition involved :: "string \<Rightarrow> string option" where
  "involved n = (if n = [] then None else Some (''involvedObject.name='' @ n))"

definition limit_args :: "timedelta \<Rightarrow> timeout option \<Rightarrow> watch_args \<Rightarrow> ('x, watch_args) k_proc" where
  "limit_args reconnect t a =
     (case t of None \<Rightarrow> Ret a
      | Some t \<Rightarrow> bind (time_left t) (\<lambda>l.
          Ret (if l \<le> reconnect then a\<lparr>wa_request := l, wa_seconds := ceil_seconds l\<rparr> else a)))"

text \<open>
  \<open>KubernetesWatcher.watch\<close> with the body of the caller's \<open>async for\<close> as an argument: the body ends
  the loop with a result or goes on. \<open>opened\<close> says whether the stream is open. The body runs outside
  of the exception handlers. Nothing calls \<open>stop\<close>, so the loop has no other normal end.
\<close>

fun watch_loop :: "nat \<Rightarrow> timedelta \<Rightarrow> timeout option \<Rightarrow> (watch_action \<times> stored \<Rightarrow> ('x, 'a option) k_proc)
    \<Rightarrow> bool \<Rightarrow> watch_args \<Rightarrow> ('x, 'a) k_proc" where
  "watch_loop 0 reconnect t body opened args = Raise Out_of_fuel"
| "watch_loop (Suc n) reconnect t body opened args =
     bind (if opened then Ret args else limit_args reconnect t args) (\<lambda>args.
     try_else (await (Request (if opened then Watch_next else Watch_open args) (Some (wa_request args))))
       (\<lambda>e. case e of
            K_timeout \<Rightarrow> watch_loop n reconnect t body False args
          | K_api st \<Rightarrow>
              if st = 410 then watch_loop n reconnect t body False (args\<lparr>wa_version := None\<rparr>)
              else Raise (K_kubernetes st)
          | _ \<Rightarrow> Raise e)
       (\<lambda>v. case v of
            K_item None \<Rightarrow> watch_loop n reconnect t body False args
          | K_item (Some i) \<Rightarrow>
              (case parse_item i of
                 None \<Rightarrow> watch_loop n reconnect t body False args
               | Some ev \<Rightarrow> bind (body ev) (\<lambda>r. case r of
                     Some x \<Rightarrow> Ret x | None \<Rightarrow> watch_loop n reconnect t body True args))
          | _ \<Rightarrow> Raise K_type))"

text \<open>The parameters of the storage layer: the reconnect timeout and the bound on its loops.\<close>

record k_config =
  reconnect_timeout :: timedelta
  loop_bound :: nat

definition close_watch :: "('x, unit) k_proc" where
  "close_watch = bind (await (Request Watch_close None)) (\<lambda>_. Ret ())"

definition watching :: "k_config \<Rightarrow> timeout option \<Rightarrow> (watch_action \<times> stored \<Rightarrow> ('x, 'a option) k_proc)
    \<Rightarrow> watch_args \<Rightarrow> ('x, 'a) k_proc" where
  "watching kc t body args = watch_loop (loop_bound kc) (reconnect_timeout kc) t body False args"

definition stop_if :: "(watch_action \<times> stored \<Rightarrow> 'a option) \<Rightarrow> watch_action \<times> stored \<Rightarrow> ('x, 'a option) k_proc" where
  "stop_if f ev = Ret (f ev)"

section \<open>Objects\<close>

definition k_create :: "k_kind \<Rightarrow> string \<Rightarrow> k_object \<Rightarrow> timeout \<Rightarrow> ('x, unit) k_proc" where
  "k_create kd ns ob t =
     api_errors (enforce_k t (bind (request (Create kd ns ob) t) (\<lambda>_. Ret ())))"

definition k_read :: "k_kind \<Rightarrow> string \<Rightarrow> string \<Rightarrow> timeout \<Rightarrow> ('x, stored option) k_proc" where
  "k_read kd name ns t =
     api_missing None (enforce_k t (bind (request (Read kd ns name) t) (\<lambda>a.
       case a of K_object x \<Rightarrow> Ret (Some x) | _ \<Rightarrow> Raise K_type)))"

definition k_list :: "k_kind \<Rightarrow> string \<Rightarrow> string option \<Rightarrow> timeout \<Rightarrow> ('x, stored list) k_proc" where
  "k_list kd ns selector t =
     bind (time_left t) (\<lambda>l.
     api_errors (enforce_k t (bind (await (Request (List kd ns selector) (Some l))) (\<lambda>a.
       case a of K_objects xs \<Rightarrow> Ret xs | _ \<Rightarrow> Raise K_type))))"

text \<open>
  Waiting for an event, with a last look at the object when the time is up: the shape that waiting
  for creation and for deletion share. \<open>good\<close> judges the object that is read, \<open>act\<close> the event.
\<close>

definition wait_for :: "k_config \<Rightarrow> k_kind \<Rightarrow> string \<Rightarrow> string \<Rightarrow> timeout \<Rightarrow> (stored option \<Rightarrow> bool)
    \<Rightarrow> watch_action \<Rightarrow> string option \<Rightarrow> ('x, unit) k_proc" where
  "wait_for kc kd name ns t good wanted rv =
     bind (time_left t) (\<lambda>l.
     bind (partial_timeout t (l - seconds 2)) (\<lambda>wt.
     finally_do
       (catch
         (enforce_k wt (watching kc (Some wt) (stop_if (\<lambda>(a, x). if a = wanted then Some () else None))
            (watch_start kd ns (named name) rv (reconnect_timeout kc))))
         (\<lambda>e. if e = K_controller_timeout then
                bind (partial_timeout t (seconds 2)) (\<lambda>rt.
                bind (k_read kd name ns rt) (\<lambda>x. if good x then Ret () else Raise e))
              else Raise e))
       close_watch))"

definition wait_for_creation :: "k_config \<Rightarrow> k_kind \<Rightarrow> string \<Rightarrow> string \<Rightarrow> timeout \<Rightarrow> ('x, unit) k_proc" where
  "wait_for_creation kc kd name ns t =
     bind (k_read kd name ns t) (\<lambda>x.
       if x \<noteq> None then Ret () else wait_for kc kd name ns t (\<lambda>x. x \<noteq> None) ADDED None)"

definition wait_for_deletion :: "k_config \<Rightarrow> k_kind \<Rightarrow> string \<Rightarrow> string \<Rightarrow> timeout \<Rightarrow> ('x, unit) k_proc" where
  "wait_for_deletion kc kd name ns t =
     bind (k_read kd name ns t) (\<lambda>x. case x of
         None \<Rightarrow> Ret ()
       | Some ob \<Rightarrow> wait_for kc kd name ns t (\<lambda>x. x = None) DELETED (so_version ob))"

definition k_delete :: "k_config \<Rightarrow> k_kind \<Rightarrow> string \<Rightarrow> string \<Rightarrow> timeout \<Rightarrow> bool \<Rightarrow> string option
    \<Rightarrow> timedelta option \<Rightarrow> ('x, unit) k_proc" where
  "k_delete kc kd name ns t wait policy grace =
     bind (time_left t) (\<lambda>l.
     bind (catch (bind (enforce_k t (await (Request
             (Delete kd ns name policy (case grace of None \<Rightarrow> None
                | Some g \<Rightarrow> if g = 0 then None else Some (g div 1000000))) (Some l)))) (\<lambda>_. Ret True))
             (\<lambda>e. case e of K_api st \<Rightarrow> if st = 404 then Ret False else Raise (K_kubernetes st) | _ \<Rightarrow> Raise e))
       (\<lambda>found. do_if (found \<and> wait) (wait_for_deletion kc kd name ns t)))"

definition k_create_or_replace :: "k_config \<Rightarrow> k_kind \<Rightarrow> string \<Rightarrow> k_object \<Rightarrow> timeout \<Rightarrow> bool
    \<Rightarrow> string option \<Rightarrow> ('x, unit) k_proc" where
  "k_create_or_replace kc kd ns ob t replace policy =
     catch (k_create kd ns ob t)
       (\<lambda>e. if replace \<and> e = K_kubernetes 409
            then seq (k_delete kc kd (object_name ob) ns t True policy None) (k_create kd ns ob t)
            else Raise e)"

section \<open>Namespaces and custom objects\<close>

text \<open>Deleting a namespace waits inside the exception handler.\<close>

definition delete_namespace_k :: "k_config \<Rightarrow> string \<Rightarrow> timeout \<Rightarrow> bool \<Rightarrow> ('x, unit) k_proc" where
  "delete_namespace_k kc name t wait =
     api_missing ()
       (seq (enforce_k t (bind (request (Delete K_Namespace [] name None None) t) (\<lambda>_. Ret ())))
            (do_if wait (wait_for_deletion kc K_Namespace name [] t)))"

definition create_namespace_k :: "k_config \<Rightarrow> object_meta \<Rightarrow> timeout \<Rightarrow> bool \<Rightarrow> ('x, unit) k_proc" where
  "create_namespace_k kc m t replace =
     catch (k_create K_Namespace [] (O_namespace m) t)
       (\<lambda>e. if replace \<and> e = K_kubernetes 409
            then seq (delete_namespace_k kc (md_name m) t True) (k_create K_Namespace [] (O_namespace m) t)
            else Raise e)"

definition list_namespaces_k :: "timeout \<Rightarrow> ('x, stored list) k_proc" where
  "list_namespaces_k t =
     api_errors (enforce_k t (bind (request (List K_Namespace [] None) t) (\<lambda>a.
       case a of K_objects xs \<Rightarrow> Ret xs | _ \<Rightarrow> Raise K_type)))"

text \<open>
  Custom objects: the policy is dropped, and since the objects are dictionaries with the field
  \<open>resourceVersion\<close>, the version that is looked up as \<open>resource_version\<close> is never there.
\<close>

definition custom_wait_for_deletion :: "k_config \<Rightarrow> k_kind \<Rightarrow> string \<Rightarrow> string \<Rightarrow> timeout \<Rightarrow> ('x, unit) k_proc" where
  "custom_wait_for_deletion kc kd name ns t =
     bind (k_read kd name ns t) (\<lambda>x.
       if x = None then Ret () else wait_for kc kd name ns t (\<lambda>x. x = None) DELETED None)"

definition custom_delete :: "k_config \<Rightarrow> k_kind \<Rightarrow> string \<Rightarrow> string \<Rightarrow> timeout \<Rightarrow> bool \<Rightarrow> ('x, unit) k_proc" where
  "custom_delete kc kd name ns t wait =
     bind (catch (bind (enforce_k t (request (Delete kd ns name None None) t)) (\<lambda>_. Ret True))
             (\<lambda>e. case e of K_api st \<Rightarrow> if st = 404 then Ret False else Raise (K_kubernetes st) | _ \<Rightarrow> Raise e))
       (\<lambda>found. do_if (found \<and> wait) (custom_wait_for_deletion kc kd name ns t))"

definition custom_create :: "k_config \<Rightarrow> k_kind \<Rightarrow> string \<Rightarrow> k_object \<Rightarrow> timeout \<Rightarrow> bool \<Rightarrow> ('x, unit) k_proc" where
  "custom_create kc kd ns ob t replace =
     catch (k_create kd ns ob t)
       (\<lambda>e. if replace \<and> e = K_kubernetes 409
            then seq (custom_delete kc kd (object_name ob) ns t True) (k_create kd ns ob t)
            else Raise e)"

section \<open>Pods and ingresses\<close>

definition phase_of :: "stored \<Rightarrow> ('x, pod_phase) k_proc" where
  "phase_of x = or_raise K_value (Option.bind (so_phase x) phase_of_text)"

definition wait_for_phase :: "k_config \<Rightarrow> string \<Rightarrow> string \<Rightarrow> timeout \<Rightarrow> pod_phase list
    \<Rightarrow> ('x, pod_phase option) k_proc" where
  "wait_for_phase kc name ns t until_not =
     bind (k_read K_Pod name ns t) (\<lambda>x. case x of
         None \<Rightarrow> Ret None
       | Some p \<Rightarrow> bind (phase_of p) (\<lambda>ph.
           if ph \<notin> set until_not then Ret (Some ph)
           else finally_do
             (enforce_k t (watching kc (Some t)
               (\<lambda>(a, x). if a = DELETED then Ret (Some None)
                  else bind (phase_of x) (\<lambda>ph. Ret (if ph \<notin> set until_not then Some (Some ph) else None)))
               (watch_start K_Pod ns (named (so_name p)) (so_version p) (reconnect_timeout kc))))
             close_watch))"

definition delete_after_completion :: "k_config \<Rightarrow> string \<Rightarrow> string \<Rightarrow> timeout \<Rightarrow> ('x, unit) k_proc" where
  "delete_after_completion kc name ns t =
     bind (wait_for_phase kc name ns t [Pod_UNKNOWN, Pod_PENDING, Pod_RUNNING]) (\<lambda>ph.
       if ph = None then Ret () else k_delete kc K_Pod name ns t False None None)"

text \<open>The generators run the step of their consumer for every value that they yield.\<close>

definition events_for_pod :: "k_config \<Rightarrow> string \<Rightarrow> string \<Rightarrow> timeout
    \<Rightarrow> (string \<Rightarrow> 'x kube_scheme \<Rightarrow> 'x kube_scheme) \<Rightarrow> ('x, unit) k_proc" where
  "events_for_pod kc name ns t consume =
     finally_do
       (catch
         (enforce_k t (watching kc (Some t) (\<lambda>(a, x). seq (act (consume (so_message x))) (Ret None))
            (watch_start K_Event ns (involved name) None (reconnect_timeout kc))))
         (\<lambda>e. if e = K_controller_timeout then Ret () else Raise e))
       close_watch"

definition watch_pod_changes :: "k_config \<Rightarrow> string \<Rightarrow> (stored \<Rightarrow> pod_phase \<Rightarrow> ('x, unit) k_proc)
    \<Rightarrow> ('x, unit) k_proc" where
  "watch_pod_changes kc ns consume =
     finally_do
       (watching kc None
         (\<lambda>(a, x). if a \<noteq> MODIFIED then Ret None
            else bind (phase_of x) (\<lambda>ph. seq (consume x ph) (Ret None)))
         (watch_start K_Pod ns None None (reconnect_timeout kc)))
       close_watch"

definition has_ip_address :: "stored \<Rightarrow> bool" where
  "has_ip_address x = (case so_load_balancer x of None \<Rightarrow> False | Some [] \<Rightarrow> False | Some (ip # _) \<Rightarrow> nonempty ip)"

definition wait_for_ip_address :: "k_config \<Rightarrow> string \<Rightarrow> string \<Rightarrow> timeout \<Rightarrow> ('x, unit) k_proc" where
  "wait_for_ip_address kc name ns t =
     bind (k_read K_Ingress name ns t) (\<lambda>x.
       if (case x of None \<Rightarrow> False | Some i \<Rightarrow> has_ip_address i) then Ret ()
       else finally_do
         (enforce_k t (watching kc (Some t)
            (stop_if (\<lambda>(a, x). if a \<noteq> DELETED \<and> has_ip_address x then Some () else None))
            (watch_start K_Ingress ns (named name) (Option.bind x so_version) (reconnect_timeout kc))))
         close_watch)"

section \<open>Labs\<close>

definition lab_create :: "k_config \<Rightarrow> lab_objects \<Rightarrow> timeout \<Rightarrow> ('x, unit) k_proc" where
  "lab_create kc objs t =
     (let ns = md_name (obj_namespace objs) in
      seq (create_namespace_k kc (obj_namespace objs) t False)
     (seq (for_each (obj_pvcs objs) (\<lambda>x. k_create_or_replace kc K_PVC ns (O_pvc x) t False None))
     (seq (k_create K_ConfigMap ns (O_config_map (obj_env_config_map objs)) t)
     (seq (for_each (obj_config_maps objs) (\<lambda>x. k_create K_ConfigMap ns (O_config_map x) t))
     (seq (for_each (obj_secrets objs) (\<lambda>x. k_create K_Secret ns (O_secret x) t))
     (seq (case obj_quota objs of None \<Rightarrow> Ret () | Some q \<Rightarrow> k_create K_Quota ns (O_quota q) t)
     (seq (k_create K_NetworkPolicy ns (O_network_policy (obj_network_policy objs)) t)
     (seq (k_create_or_replace kc K_Service ns (O_service (obj_service objs)) t False None)
     (seq (wait_for_creation kc K_ServiceAccount ''default'' ns t)
          (k_create_or_replace kc K_Pod ns (O_pod (obj_pod objs)) t False None))))))))))"

definition lab_delete_namespace :: "k_config \<Rightarrow> string \<Rightarrow> timeout \<Rightarrow> ('x, unit) k_proc" where
  "lab_delete_namespace kc name t = delete_namespace_k kc name t True"

definition lab_stop_grace_period :: timedelta where
  "lab_stop_grace_period = seconds 1"

definition lab_delete_pod :: "k_config \<Rightarrow> object_names \<Rightarrow> timeout \<Rightarrow> ('x, unit) k_proc" where
  "lab_delete_pod kc names t =
     k_delete kc K_Pod (names_pod names) (names_namespace names) t True None (Some lab_stop_grace_period)"

definition lab_list_namespaces :: "string \<Rightarrow> timeout \<Rightarrow> ('x, string list) k_proc" where
  "lab_list_namespaces start t =
     bind (list_namespaces_k t) (\<lambda>xs. Ret (filter (\<lambda>n. prefix start n) (map so_name xs)))"

definition read_config_map :: "string \<Rightarrow> string \<Rightarrow> timeout \<Rightarrow> ('x, config_map option) k_proc" where
  "read_config_map name ns t =
     bind (k_read K_ConfigMap name ns t) (\<lambda>x. case x of None \<Rightarrow> Ret None
       | Some s \<Rightarrow> (case so_body s of O_config_map m \<Rightarrow> Ret (Some m) | _ \<Rightarrow> Raise K_type))"

definition read_pod :: "string \<Rightarrow> string \<Rightarrow> timeout \<Rightarrow> ('x, pod option) k_proc" where
  "read_pod name ns t =
     bind (k_read K_Pod name ns t) (\<lambda>x. case x of None \<Rightarrow> Ret None
       | Some s \<Rightarrow> (case so_body s of O_pod p \<Rightarrow> Ret (Some p) | _ \<Rightarrow> Raise K_type))"

definition read_quota :: "string \<Rightarrow> string \<Rightarrow> timeout \<Rightarrow> ('x, resource_quota option) k_proc" where
  "read_quota name ns t =
     bind (k_read K_Quota name ns t) (\<lambda>x. case x of None \<Rightarrow> Ret None
       | Some s \<Rightarrow> (case so_body s of O_quota q \<Rightarrow> Ret (Some q) | _ \<Rightarrow> Raise K_type))"

definition read_lab_objects :: "object_names \<Rightarrow> timeout \<Rightarrow> ('x, lab_state_objects option) k_proc" where
  "read_lab_objects names t =
     (let ns = names_namespace names in
      bind (read_config_map (names_env_config_map names) ns t) (\<lambda>m. case m of None \<Rightarrow> Ret None | Some m \<Rightarrow>
      bind (read_pod (names_pod names) ns t) (\<lambda>p. case p of None \<Rightarrow> Ret None | Some p \<Rightarrow>
      bind (read_quota (names_quota names) ns t) (\<lambda>q.
        Ret (Some \<lparr>obj_env_config_map = m, obj_quota = q, obj_pod = p\<rparr>)))))"

definition read_pod_phase :: "object_names \<Rightarrow> timeout \<Rightarrow> ('x, pod_phase option) k_proc" where
  "read_pod_phase names t =
     bind (k_read K_Pod (names_pod names) (names_namespace names) t) (\<lambda>x. case x of
         None \<Rightarrow> Ret None | Some p \<Rightarrow> bind (phase_of p) (\<lambda>ph. Ret (Some ph)))"

definition read_secret :: "string \<Rightarrow> string \<Rightarrow> timeout \<Rightarrow> ('x, secret) k_proc" where
  "read_secret name ns t =
     bind (k_read K_Secret name ns t) (\<lambda>x. case x of None \<Rightarrow> Raise K_missing_secret
       | Some s \<Rightarrow> (case so_body s of O_secret q \<Rightarrow> Ret q | _ \<Rightarrow> Raise K_type))"

definition wait_for_pod_start :: "k_config \<Rightarrow> string \<Rightarrow> string \<Rightarrow> timeout \<Rightarrow> ('x, pod_phase option) k_proc" where
  "wait_for_pod_start kc name ns t = wait_for_phase kc name ns t [Pod_UNKNOWN, Pod_PENDING]"

definition watch_pod_events :: "k_config \<Rightarrow> string \<Rightarrow> string \<Rightarrow> timeout
    \<Rightarrow> (string \<Rightarrow> 'x kube_scheme \<Rightarrow> 'x kube_scheme) \<Rightarrow> ('x, unit) k_proc" where
  "watch_pod_events kc name ns t consume = events_for_pod kc name ns t consume"

section \<open>File servers and the administration pod\<close>

definition user_label :: string where
  "user_label = ''nublado.lsst.io/user''"

definition get_pod_for_job :: "string \<Rightarrow> string \<Rightarrow> timeout \<Rightarrow> ('x, stored option) k_proc" where
  "get_pod_for_job name ns t =
     bind (k_list K_Pod ns (Some (''job-name='' @ name)) t) (\<lambda>pods.
       case pods of [] \<Rightarrow> Ret None | [p] \<Rightarrow> Ret (Some p) | _ \<Rightarrow> Raise K_duplicate)"

fun wait_for_pod_creation :: "nat \<Rightarrow> string \<Rightarrow> string \<Rightarrow> timeout \<Rightarrow> ('x, stored) k_proc" where
  "wait_for_pod_creation 0 name ns t = Raise Out_of_fuel"
| "wait_for_pod_creation (Suc n) name ns t =
     bind (get_pod_for_job name ns t) (\<lambda>p. case p of
         Some p \<Rightarrow> Ret p
       | None \<Rightarrow> bind (await (Sleep (seconds 1))) (\<lambda>_. wait_for_pod_creation n name ns t))"

definition fileserver_create :: "k_config \<Rightarrow> string \<Rightarrow> fileserver_objects \<Rightarrow> timeout \<Rightarrow> ('x, unit) k_proc" where
  "fileserver_create kc ns objs t =
     seq (for_each (fso_pvcs objs) (\<lambda>x. k_create_or_replace kc K_PVC ns (O_pvc x) t True None))
    (seq (custom_create kc K_GafaelfawrIngress ns (O_gafaelfawr (fso_ingress objs)) t True)
    (seq (k_create_or_replace kc K_Service ns (O_service (fso_service objs)) t True None)
    (seq (k_create_or_replace kc K_Job ns (O_job (fso_job objs)) t True (Some ''Foreground''))
    (seq (wait_for_ip_address kc (md_name (gi_metadata (fso_ingress objs))) ns t)
    (bind (wait_for_pod_creation (loop_bound kc) (md_name (job_metadata (fso_job objs))) ns t) (\<lambda>p.
     bind (wait_for_phase kc (so_name p) ns t [Pod_UNKNOWN, Pod_PENDING]) (\<lambda>_. Ret ())))))))"

definition fileserver_delete :: "k_config \<Rightarrow> string \<Rightarrow> string \<Rightarrow> string \<Rightarrow> timeout \<Rightarrow> ('x, unit) k_proc" where
  "fileserver_delete kc name ns u t =
     seq (custom_delete kc K_GafaelfawrIngress name ns t True)
    (seq (wait_for_deletion kc K_Ingress name ns t)
    (seq (k_delete kc K_Service name ns t True None None)
    (seq (k_delete kc K_Job name ns t True (Some ''Foreground'') None)
    (bind (k_list K_PVC ns (Some (user_label @ ''='' @ u)) t) (\<lambda>pvcs.
       for_each pvcs (\<lambda>p. k_delete kc K_PVC (so_name p) ns t False None None))))))"

text \<open>
  The state of all file servers. The variable \<open>pod\<close> outlives an iteration: when the pods of a job
  are ambiguous, the value of the previous job is used, and before any, reading it raises an
  exception. \<open>prev\<close> is the variable.
\<close>

record fs_seen =
  seen_job :: string
  seen_pod :: "stored option"
  seen_ingress :: "stored option"

fun read_fileservers :: "string \<Rightarrow> timeout \<Rightarrow> stored list \<Rightarrow> stored option option \<Rightarrow> (string, fs_seen) dict
    \<Rightarrow> ('x, (string, fs_seen) dict) k_proc" where
  "read_fileservers ns t [] prev state = Ret state"
| "read_fileservers ns t (job # jobs) prev state =
     bind (or_raise K_attribute (so_labels job)) (\<lambda>labels.
       let u = map_of labels user_label in
       if \<not> nonempty u then read_fileservers ns t jobs prev state
       else if the u \<in> set (dkeys state) then read_fileservers ns t jobs prev state
       else
         bind (catch (bind (get_pod_for_job (so_name job) ns t) (\<lambda>p. Ret (Some p)))
                 (\<lambda>e. if e = K_duplicate then Ret prev else Raise e)) (\<lambda>pod.
         bind (k_read K_Ingress (so_name job) ns t) (\<lambda>ing.
         bind (or_raise K_unbound pod) (\<lambda>p.
           read_fileservers ns t jobs pod
             (dset (the u) \<lparr>seen_job = so_name job, seen_pod = p, seen_ingress = ing\<rparr> state)))))"

definition read_fileserver_state :: "string \<Rightarrow> timeout \<Rightarrow> ('x, (string, fs_seen) dict) k_proc" where
  "read_fileserver_state ns t =
     bind (k_list K_Job ns (Some ''nublado.lsst.io/category=fileserver'') t) (\<lambda>jobs.
       read_fileservers ns t jobs None [])"

definition fsadmin_status :: "string \<Rightarrow> string \<Rightarrow> timeout \<Rightarrow> ('x, datetime option) k_proc" where
  "fsadmin_status ns pod t =
     bind (k_read K_Pod pod ns t) (\<lambda>x. case x of
         None \<Rightarrow> Raise K_pod_not_found
       | Some p \<Rightarrow> if so_phase p \<noteq> Some ''Running'' then Raise (K_invalid_phase (so_phase p))
           else Ret (so_start_time p))"

definition fsadmin_create :: "k_config \<Rightarrow> string \<Rightarrow> string \<Rightarrow> fsadmin_objects \<Rightarrow> timeout
    \<Rightarrow> ('x, datetime option) k_proc" where
  "fsadmin_create kc ns pod objs t =
     seq (for_each (adm_pvcs objs) (\<lambda>x. k_create_or_replace kc K_PVC ns (O_pvc x) t True None))
    (seq (k_create_or_replace kc K_Pod ns (O_plain_pod (adm_pod objs)) t True None)
    (bind (wait_for_phase kc (md_name (pp_metadata (adm_pod objs))) ns t [Pod_UNKNOWN, Pod_PENDING]) (\<lambda>_.
       fsadmin_status ns pod t)))"

definition fsadmin_delete :: "k_config \<Rightarrow> string \<Rightarrow> fsadmin_objects \<Rightarrow> timeout \<Rightarrow> ('x, unit) k_proc" where
  "fsadmin_delete kc ns objs t =
     seq (k_delete kc K_Pod (md_name (pp_metadata (adm_pod objs))) ns t True None None)
         (for_each (adm_pvcs objs) (\<lambda>x. k_delete kc K_PVC (md_name (pvc_metadata x)) ns t True None None))"

definition node_list :: "(string, string) dict \<Rightarrow> timeout \<Rightarrow> ('x, stored list) k_proc" where
  "node_list selector t =
     api_errors (enforce_k t (bind (request (List K_Node [] (node_label_selector selector)) t) (\<lambda>a.
       case a of K_objects xs \<Rightarrow> Ret xs | _ \<Rightarrow> Raise K_type)))"

end
