(* ===== verification/Kube_Laws.thy ===== *)
theory Kube_Laws
  imports Kube_Storage
begin

text \<open>
  What the Kubernetes storage layer guarantees over an API that keeps its own promises: its loops end
  by the time limit that they are given, and after a deletion that waits, the object is gone.
\<close>

section \<open>Loops end\<close>

text \<open>
  Every wait takes time, and a wait that is begun when one of its time limits has passed is answered
  with the exception of the limit.
\<close>

fun limits :: "k_wait \<Rightarrow> datetime set" where
  "limits (Timed_k d w) = insert d (limits w)"
| "limits w = {}"

definition k_timely :: "('x kube_scheme, k_wait, k_answer, k_exn) env \<Rightarrow> bool" where
  "k_timely api \<longleftrightarrow>
     (\<forall>w s. k_clock s < k_clock (fst (api w s)) \<and> snd (api w s) \<noteq> Inl Out_of_fuel \<and>
        (\<forall>d \<in> limits w. d \<le> k_clock s \<longrightarrow> snd (api w s) = Inl K_expired))"

definition ends_from :: "datetime \<Rightarrow> ('x kube_scheme, k_wait, k_answer, k_exn) env \<Rightarrow> ('x, 'a) k_proc \<Rightarrow> bool" where
  "ends_from m api p \<longleftrightarrow>
     (\<forall>s. m \<le> k_clock s \<longrightarrow>
        k_clock s \<le> k_clock (fst (run p api s)) \<and> snd (run p api s) \<noteq> Inl Out_of_fuel)"

lemma ends_Ret: "ends_from m api (Ret a)"
  by (simp add: ends_from_def)

lemma ends_Raise: "e \<noteq> Out_of_fuel \<Longrightarrow> ends_from m api (Raise e)"
  by (simp add: ends_from_def)

lemma ends_reading: "ends_from m api (reading f)"
  by (simp add: ends_from_def run_simps)

lemma ends_fromI:
  assumes "\<And>s s' r. m \<le> k_clock s \<Longrightarrow> run p api s = (s', r) \<Longrightarrow> k_clock s \<le> k_clock s' \<and> r \<noteq> Inl Out_of_fuel"
  shows "ends_from m api p"
  unfolding ends_from_def using assms by (metis prod.collapse)

lemma ends_fromD:
  "ends_from m api p \<Longrightarrow> run p api s = (s', r) \<Longrightarrow> m \<le> k_clock s \<Longrightarrow> k_clock s \<le> k_clock s' \<and> r \<noteq> Inl Out_of_fuel"
  unfolding ends_from_def by (metis fst_conv snd_conv)

lemma ends_try_else:
  assumes p: "ends_from m api p" and h: "\<And>e. e \<noteq> Out_of_fuel \<Longrightarrow> ends_from m api (h e)" and f: "\<And>a. ends_from m api (f a)"
  shows "ends_from m api (try_else p h f)"
proof (rule ends_fromI)
  fix s s' r
  assume m: "m \<le> k_clock s" and run: "run (try_else p h f) api s = (s', r)"
  obtain s1 r1 where p1: "run p api s = (s1, r1)" by fastforce
  from ends_fromD [OF p this m] have s1: "k_clock s \<le> k_clock s1" "m \<le> k_clock s1" "r1 \<noteq> Inl Out_of_fuel"
    using m by auto
  show "k_clock s \<le> k_clock s' \<and> r \<noteq> Inl Out_of_fuel"
  proof (cases r1)
    case (Inl e)
    with run p1 have "run (h e) api s1 = (s', r)" by (simp add: run_try_else)
    from ends_fromD [OF h this s1(2)] s1 Inl show ?thesis by auto
  next
    case (Inr x)
    with run p1 have "run (f x) api s1 = (s', r)" by (simp add: run_try_else)
    from ends_fromD [OF f this s1(2)] s1 show ?thesis by auto
  qed
qed

lemma bind_try_else: "bind p f = try_else p Raise f"
  by (induction p) simp_all

lemma catch_try_else: "catch p h = try_else p h Ret"
  by (induction p) simp_all

lemma ends_bind: "ends_from m api p \<Longrightarrow> (\<And>a. ends_from m api (f a)) \<Longrightarrow> ends_from m api (bind p f)"
  unfolding bind_try_else by (rule ends_try_else) (simp_all add: ends_Raise)

lemma ends_seq: "ends_from m api p \<Longrightarrow> ends_from m api q \<Longrightarrow> ends_from m api (seq p q)"
  unfolding seq_def by (rule ends_bind)

lemma ends_catch:
  "ends_from m api p \<Longrightarrow> (\<And>e. e \<noteq> Out_of_fuel \<Longrightarrow> ends_from m api (h e)) \<Longrightarrow> ends_from m api (catch p h)"
  unfolding catch_try_else by (rule ends_try_else) (simp_all add: ends_Ret)

lemma ends_finally: "ends_from m api p \<Longrightarrow> ends_from m api q \<Longrightarrow> ends_from m api (finally_do p q)"
  unfolding finally_do_def by (intro ends_try_else ends_seq ends_Ret ends_Raise)

lemma ends_do_if: "ends_from m api p \<Longrightarrow> ends_from m api (do_if b p)"
  by (simp add: do_if_def ends_Ret)

lemma ends_for_each: "(\<And>x. ends_from m api (f x)) \<Longrightarrow> ends_from m api (for_each xs f)"
  by (induction xs) (simp_all add: ends_Ret ends_seq)

lemma ends_if: "(b \<Longrightarrow> ends_from m api p) \<Longrightarrow> (\<not> b \<Longrightarrow> ends_from m api q) \<Longrightarrow> ends_from m api (if b then p else q)"
  by simp

lemma ends_option:
  "ends_from m api p \<Longrightarrow> (\<And>x. ends_from m api (f x)) \<Longrightarrow> ends_from m api (case v of None \<Rightarrow> p | Some x \<Rightarrow> f x)"
  by (cases v) simp_all

lemma ends_await: "k_timely api \<Longrightarrow> ends_from m api (await w)"
  by (simp add: ends_from_def run_simps k_timely_def less_imp_le)

lemma ends_or_raise: "e \<noteq> Out_of_fuel \<Longrightarrow> ends_from m api (or_raise e x)"
  by (cases x) (simp_all add: or_raise_def ends_Ret ends_Raise)

lemmas ends_intros = ends_Ret ends_Raise ends_reading ends_bind ends_try_else ends_seq ends_catch ends_finally
  ends_do_if ends_for_each ends_if ends_option ends_await ends_or_raise

lemma timely_relabel: "k_timely api \<Longrightarrow> k_timely (\<lambda>w. api (Timed_k d w))"
  unfolding k_timely_def by simp

lemma ends_enforce:
  assumes api: "k_timely api" and p: "ends_from m (\<lambda>w. api (Timed_k (deadline t) w)) p"
  shows "ends_from m api (enforce_k t p)"
  unfolding enforce_k_def enforce_in_def
proof (intro ends_bind ends_reading ends_if ends_Raise ends_catch)
  show "ends_from m api (relabel (Timed_k (deadline t)) p)"
    using p by (simp add: ends_from_def run_relabel)
qed simp_all

lemma ends_limit_args: "ends_from m api (limit_args reconnect t a)"
  by (auto simp: limit_args_def time_left_def intro!: ends_intros split: option.split)

text \<open>
  A watch under a time limit: every turn waits, so the clock passes the limit before the bound on the
  number of turns is reached, and the turn after that ends the loop.
\<close>

lemma ends_later: "ends_from m api p \<Longrightarrow> m \<le> m' \<Longrightarrow> ends_from m' api p"
  by (auto simp: ends_from_def)

lemma ends_await_turn:
  assumes api: "k_timely api" and late: "\<And>s. D \<le> k_clock s \<Longrightarrow> snd (api w s) = Inl K_expired"
    and expired: "ends_from m api (h K_expired)"
    and h: "\<And>e. m < D \<Longrightarrow> e \<noteq> Out_of_fuel \<Longrightarrow> ends_from (m + 1) api (h e)"
    and f: "\<And>v. m < D \<Longrightarrow> ends_from (m + 1) api (f v)"
  shows "ends_from m api (try_else (await w) h f)"
proof (rule ends_fromI)
  fix s s' r
  assume m: "m \<le> k_clock s" and run: "run (try_else (await w) h f) api s = (s', r)"
  obtain s1 x where w: "api w s = (s1, x)" by fastforce
  with api have s1: "k_clock s < k_clock s1" "x \<noteq> Inl Out_of_fuel"
    by (metis k_timely_def fst_conv snd_conv)+
  show "k_clock s \<le> k_clock s' \<and> r \<noteq> Inl Out_of_fuel"
  proof (cases "x = Inl K_expired")
    case True
    with run w have "run (h K_expired) api s1 = (s', r)" by (simp add: run_simps)
    from ends_fromD [OF expired this] s1 m show ?thesis by simp
  next
    case False
    with late [of s] w m have "m < D" by force
    show ?thesis
    proof (cases x)
      case (Inl e)
      with run w have "run (h e) api s1 = (s', r)" by (simp add: run_simps)
      from ends_fromD [OF h this] s1 m Inl \<open>m < D\<close> show ?thesis by simp
    next
      case (Inr v)
      with run w have "run (f v) api s1 = (s', r)" by (simp add: run_simps)
      from ends_fromD [OF f this] s1 m \<open>m < D\<close> show ?thesis by simp
    qed
  qed
qed

lemma ends_watch_loop:
  fixes api :: "('x kube_scheme, k_wait, k_answer, k_exn) env"
  assumes api: "k_timely api" and late: "\<And>w s. D \<le> k_clock s \<Longrightarrow> snd (api w s) = Inl K_expired"
    and body: "\<And>ev. ends_from m api (body ev)"
  shows "m \<le> m' \<Longrightarrow> D < m' + int n \<Longrightarrow> 0 < n \<Longrightarrow> ends_from m' api (watch_loop n r t body opened args)"
proof (induction n arbitrary: m' opened args)
  case 0
  then show ?case by simp
next
  case (Suc n)
  have again: "ends_from (m' + 1) api (watch_loop n r t body opened args)" if "m' < D" for opened args
    using Suc.prems that by (intro Suc.IH) auto
  have next_turn: "ends_from (m' + 1) api
      (bind (body ev) (\<lambda>x. case x of Some a \<Rightarrow> Ret a | None \<Rightarrow> watch_loop n r t body True args))"
    if "m' < D" for ev args
    using again [OF that] ends_later [OF body, of "m' + 1"] Suc.prems(1)
    by (intro ends_bind ends_option ends_Ret) auto
  show ?case
    unfolding watch_loop.simps
  proof (intro ends_bind ends_if ends_Ret ends_limit_args ends_await_turn [OF api, where D = D] late)
    show "ends_from (m' + 1) api
        (case e of K_timeout \<Rightarrow> watch_loop n r t body False a
         | K_api st \<Rightarrow> if st = 410 then watch_loop n r t body False (a\<lparr>wa_version := None\<rparr>) else Raise (K_kubernetes st)
         | _ \<Rightarrow> Raise e)" if "m' < D" "e \<noteq> Out_of_fuel" for a e
      using that again [OF that(1)] by (auto split: k_exn.split intro: ends_Raise)
    show "ends_from (m' + 1) api
        (case v of K_item None \<Rightarrow> watch_loop n r t body False a
         | K_item (Some i) \<Rightarrow>
             (case parse_item i of None \<Rightarrow> watch_loop n r t body False a
              | Some ev \<Rightarrow> bind (body ev) (\<lambda>x. case x of Some y \<Rightarrow> Ret y | None \<Rightarrow> watch_loop n r t body True a))
         | _ \<Rightarrow> Raise K_type)" if "m' < D" for a v
      using again [OF that] next_turn [OF that]
      by (auto split: k_answer.split option.split intro: ends_Raise)
  qed (simp_all add: ends_Raise)
qed

lemma ends_watching:
  assumes "k_timely api" and "\<And>ev. ends_from m (\<lambda>w. api (Timed_k (deadline t) w)) (body ev)"
    and "deadline t < m + int (loop_bound kc)" and "0 < loop_bound kc"
  shows "ends_from m api (enforce_k t (watching kc t' body args))"
  unfolding watching_def using assms(1)
  by (intro ends_enforce ends_watch_loop [where m = m and D = "deadline t"] timely_relabel)
     (use assms in \<open>auto simp: k_timely_def\<close>)

lemma ends_time_left: "ends_from m api (time_left t)"
  unfolding time_left_def by (intro ends_intros) simp

lemma ends_request: "k_timely api \<Longrightarrow> ends_from m api (request q t)"
  unfolding request_def by (intro ends_bind ends_time_left ends_await)

lemma ends_api_errors: "ends_from m api p \<Longrightarrow> ends_from m api (api_errors p)"
  unfolding api_errors_def by (rule ends_catch) (auto split: k_exn.split intro: ends_Raise)

lemma ends_api_missing: "ends_from m api p \<Longrightarrow> ends_from m api (api_missing x p)"
  unfolding api_missing_def by (rule ends_catch) (auto split: k_exn.split intro: ends_Raise ends_Ret)

lemma ends_answer:
  assumes "ends_from m api a" and "\<And>x. ends_from m api (f x)" and "\<And>xs. ends_from m api (g xs)"
    and "\<And>i. ends_from m api (h i)" and "\<And>r. ends_from m api (p r)" and "\<And>r. ends_from m api (q r)"
    and "\<And>r. ends_from m api (z r)"
  shows "ends_from m api (case v of K_none \<Rightarrow> a | K_object x \<Rightarrow> f x | K_objects xs \<Rightarrow> g xs | K_item i \<Rightarrow> h i
    | K_http r \<Rightarrow> p r | K_gar r \<Rightarrow> q r | K_digests r \<Rightarrow> z r)"
  using assms by (cases v) simp_all

lemma ends_create: "k_timely api \<Longrightarrow> ends_from m api (k_create kd ns ob t)"
  unfolding k_create_def by (intro ends_api_errors ends_enforce ends_bind ends_request ends_Ret timely_relabel)

lemma ends_read: "k_timely api \<Longrightarrow> ends_from m api (k_read kd name ns t)"
  unfolding k_read_def
  by (intro ends_api_missing ends_enforce ends_bind ends_request ends_answer ends_Ret ends_Raise timely_relabel) simp_all

lemma ends_list: "k_timely api \<Longrightarrow> ends_from m api (k_list kd ns selector t)"
  unfolding k_list_def
  by (intro ends_api_errors ends_enforce ends_bind ends_time_left ends_await ends_answer ends_Ret ends_Raise timely_relabel) simp_all

text \<open>The partial time limits that are used inside a wait end no later than the limit of the wait, since the
  clock of the model goes on only while something is awaited.\<close>

lemma ends_partial_timeout:
  assumes "\<And>wt. deadline wt \<le> deadline t \<Longrightarrow> ends_from m api (f wt)"
  shows "ends_from m api (bind (partial_timeout t d) f)"
proof (rule ends_fromI)
  fix s s' r
  assume m: "m \<le> k_clock s" and run: "run (bind (partial_timeout t d) f) api s = (s', r)"
  show "k_clock s \<le> k_clock s' \<and> r \<noteq> Inl Out_of_fuel"
  proof (cases "partial t d (k_clock s) (k_clock s)")
    case None
    with run show ?thesis by (auto simp: partial_timeout_def or_raise_def run_simps)
  next
    case (Some wt)
    have "deadline wt \<le> deadline t"
      using Some by (auto simp: partial_def deadline_def new_timeout_at_def split: if_splits)
    moreover from Some run have "run (f wt) api s = (s', r)"
      by (simp add: partial_timeout_def or_raise_def run_simps)
    ultimately show ?thesis using ends_fromD [OF assms] m by blast
  qed
qed

lemma ends_wait_for:
  assumes "k_timely api" and "deadline t < m + int (loop_bound kc)" and "0 < loop_bound kc"
  shows "ends_from m api (wait_for kc kd name ns t good wanted rv)"
  unfolding wait_for_def
proof (intro ends_partial_timeout ends_bind ends_time_left ends_finally ends_catch)
  fix l :: timedelta and wt
  assume "deadline wt \<le> deadline t"
  with assms show "ends_from m api (enforce_k wt (watching kc (Some wt)
      (stop_if (\<lambda>(a, x). if a = wanted then Some () else None))
      (watch_start kd ns (named name) rv (reconnect_timeout kc))))"
    by (intro ends_watching) (auto simp: stop_if_def ends_Ret)
next
  fix e
  assume "e \<noteq> Out_of_fuel"
  then show "ends_from m api (if e = K_controller_timeout
      then bind (partial_timeout t (seconds 2)) (\<lambda>rt. bind (k_read kd name ns rt) (\<lambda>x. if good x then Ret () else Raise e))
      else Raise e)"
    using ends_read [OF assms(1)] by (intro ends_partial_timeout ends_if ends_bind ends_Ret ends_Raise)
next
  show "ends_from m api close_watch"
    unfolding close_watch_def by (intro ends_bind ends_await ends_Ret assms)
qed

lemma ends_wait_for_deletion:
  assumes "k_timely api" and "deadline t < m + int (loop_bound kc)" and "0 < loop_bound kc"
  shows "ends_from m api (wait_for_deletion kc kd name ns t)"
  unfolding wait_for_deletion_def by (intro ends_bind ends_read ends_option ends_Ret ends_wait_for assms)

lemma ends_delete:
  assumes "k_timely api" and "deadline t < m + int (loop_bound kc)" and "0 < loop_bound kc"
  shows "ends_from m api (k_delete kc kd name ns t wait policy grace)"
  unfolding k_delete_def
proof (intro ends_bind ends_time_left ends_catch ends_enforce ends_await ends_do_if ends_wait_for_deletion timely_relabel
    ends_Ret assms)
  show "ends_from m api (case e of K_api st \<Rightarrow> if st = 404 then Ret False else Raise (K_kubernetes st) | _ \<Rightarrow> Raise e)"
    if "e \<noteq> Out_of_fuel" for e
    using that by (auto split: k_exn.split intro: ends_Ret ends_Raise)
qed

lemma ends_custom_delete:
  assumes "k_timely api" and "deadline t < m + int (loop_bound kc)" and "0 < loop_bound kc"
  shows "ends_from m api (custom_delete kc kd name ns t wait)"
  unfolding custom_delete_def custom_wait_for_deletion_def
proof (intro ends_bind ends_request ends_catch ends_enforce ends_do_if ends_if ends_read ends_wait_for timely_relabel
    ends_Ret assms)
  show "ends_from m api (case e of K_api st \<Rightarrow> if st = 404 then Ret False else Raise (K_kubernetes st) | _ \<Rightarrow> Raise e)"
    if "e \<noteq> Out_of_fuel" for e
    using that by (auto split: k_exn.split intro: ends_Ret ends_Raise)
qed

lemma ends_create_or_replace:
  assumes "k_timely api" and "deadline t < m + int (loop_bound kc)" and "0 < loop_bound kc"
  shows "ends_from m api (k_create_or_replace kc kd ns ob t replace policy)"
    and "ends_from m api (custom_create kc kd ns ob t replace)"
  unfolding k_create_or_replace_def custom_create_def
  by (intro ends_catch ends_create ends_if ends_seq ends_delete ends_custom_delete ends_Raise assms, assumption)+

lemma ends_phase_of: "ends_from m api (phase_of x)"
  unfolding phase_of_def by (rule ends_or_raise) simp

lemma ends_wait_for_phase:
  assumes "k_timely api" and "deadline t < m + int (loop_bound kc)" and "0 < loop_bound kc"
  shows "ends_from m api (wait_for_phase kc name ns t until_not)"
  unfolding wait_for_phase_def
  by (intro ends_bind ends_read ends_option ends_Ret ends_phase_of ends_if ends_finally ends_watching)
     (auto simp: close_watch_def assms split: prod.split intro!: ends_intros ends_phase_of)

lemma ends_wait_for_ip_address:
  assumes "k_timely api" and "deadline t < m + int (loop_bound kc)" and "0 < loop_bound kc"
  shows "ends_from m api (wait_for_ip_address kc name ns t)"
  unfolding wait_for_ip_address_def
  by (intro ends_bind ends_read ends_if ends_Ret ends_finally ends_watching)
     (auto simp: close_watch_def stop_if_def assms split: prod.split intro!: ends_intros)

text \<open>The wait for the pod of a job looks again every second, and looking fails after the limit.\<close>

lemma bind_assoc: "bind (bind p f) g = bind p (\<lambda>x. bind (f x) g)"
  by (induction p) simp_all

lemma ends_too_late: "deadline t \<le> m \<Longrightarrow> ends_from m api (bind (time_left t) f)"
  by (auto simp: ends_from_def time_left_def or_raise_def left_def deadline_def run_simps)

lemma ends_await_later:
  assumes "k_timely api" and "\<And>v. ends_from (m + 1) api (f v)"
  shows "ends_from m api (bind (await w) f)"
proof (rule ends_fromI)
  fix s s' r
  assume m: "m \<le> k_clock s" and run: "run (bind (await w) f) api s = (s', r)"
  obtain s1 x where w: "api w s = (s1, x)" by fastforce
  with assms(1) have s1: "k_clock s < k_clock s1" "x \<noteq> Inl Out_of_fuel"
    by (metis k_timely_def fst_conv snd_conv)+
  show "k_clock s \<le> k_clock s' \<and> r \<noteq> Inl Out_of_fuel"
  proof (cases x)
    case (Inl e)
    with run w s1 show ?thesis by (auto simp: run_simps)
  next
    case (Inr v)
    with run w have "run (f v) api s1 = (s', r)" by (simp add: run_simps)
    from ends_fromD [OF assms(2) this] s1 m show ?thesis by simp
  qed
qed

lemma ends_wait_for_pod_creation:
  assumes api: "k_timely api"
  shows "deadline t < m + int n \<Longrightarrow> 0 < n \<Longrightarrow> ends_from m api (wait_for_pod_creation n name ns t)"
proof (induction n arbitrary: m)
  case 0
  then show ?case by simp
next
  case (Suc n)
  show ?case
  proof (cases "deadline t \<le> m")
    case True
    then show ?thesis by (simp add: get_pod_for_job_def k_list_def bind_assoc ends_too_late)
  next
    case False
    with Suc have "ends_from (m + 1) api (wait_for_pod_creation n name ns t)" by simp
    then show ?thesis
      by (auto simp: get_pod_for_job_def intro!: ends_bind ends_option ends_Ret ends_await_later api ends_list ends_Raise
          split: list.split)
  qed
qed

text \<open>C5: The creation of a file server ends: over an API whose answers take time and whose
  waits end at their time limit, none of the loops of the creation (watches that are restarted,
  deletions that are awaited, the polling for the pod) runs longer than the time limit
  allows.\<close>

theorem fileserver_create_ends:
  assumes "k_timely api" and "deadline t < k_clock s + int (loop_bound kc)" and "0 < loop_bound kc"
  shows "snd (run (fileserver_create kc ns objs t) api s) \<noteq> Inl Out_of_fuel"
proof -
  note e = ends_create_or_replace [OF assms] ends_wait_for_ip_address [OF assms] ends_wait_for_phase [OF assms]
    ends_wait_for_pod_creation [OF assms]
  have "ends_from (k_clock s) api (fileserver_create kc ns objs t)"
    unfolding fileserver_create_def by (intro ends_seq ends_bind ends_for_each ends_Ret e)
  then show ?thesis by (simp add: ends_from_def)
qed

section \<open>Deletion\<close>

text \<open>
  The promises of the API that the deletions rely on, as a relation between a wait, the state before,
  the answer and the state after. \<open>gone\<close> says of a kind, a namespace and a name that there is no
  such object; nobody creates an object of that name in the meantime, so what is gone stays gone
  until the code creates it. A missing object is reported as missing only when it is gone, and a
  deletion is reported by a watch of the object only when it is gone. \<open>stream\<close> is the watch that is
  open; a watch with a name selects the object of that name.
\<close>

fun call_of :: "k_wait \<Rightarrow> k_call option" where
  "call_of (Request q l) = Some q"
| "call_of (Timed_k d w) = call_of w"
| "call_of w = None"

definition selects :: "watch_args \<Rightarrow> k_kind \<Rightarrow> string \<Rightarrow> string \<Rightarrow> bool" where
  "selects a kd ns name \<longleftrightarrow> wa_kind a = kd \<and> wa_namespace a = ns \<and> wa_selector a = Some (''metadata.name='' @ name)"

definition reports_deletion :: "k_exn + k_answer \<Rightarrow> bool" where
  "reports_deletion r \<longleftrightarrow> (\<exists>i x. r = Inr (K_item (Some i)) \<and> parse_item i = Some (DELETED, x))"

definition from_api :: "k_exn \<Rightarrow> bool" where
  "from_api e \<longleftrightarrow> (\<exists>st. e = K_api st)"

lemma from_api_simps [simp]:
  "from_api (K_api st)" "\<not> from_api (K_kubernetes st)" "\<not> from_api (K_invalid_phase p)"
  "\<not> from_api K_timeout"  "\<not> from_api K_controller_timeout"  "\<not> from_api K_expired"
  "\<not> from_api K_cancelled"  "\<not> from_api K_value"  "\<not> from_api K_attribute"
  "\<not> from_api K_missing_secret"  "\<not> from_api K_duplicate"  "\<not> from_api K_pod_not_found"
  "\<not> from_api K_unbound"  "\<not> from_api K_unknown_user"  "\<not> from_api K_type"  "\<not> from_api Out_of_fuel"
  "\<not> from_api K_key"  "\<not> from_api (K_images x)"
  by (simp_all add: from_api_def)

definition not_api :: "k_exn + 'a \<Rightarrow> bool" where
  "not_api r \<longleftrightarrow> (\<forall>e. r = Inl e \<longrightarrow> \<not> from_api e)"

lemma not_api_simps [simp]: "not_api (Inr a)" "not_api (Inl e) \<longleftrightarrow> \<not> from_api e"
  by (simp_all add: not_api_def)

type_synonym 's k_gone = "k_kind \<Rightarrow> string \<Rightarrow> string \<Rightarrow> 's \<Rightarrow> bool"

definition k_promise :: "'s k_gone \<Rightarrow> ('s \<Rightarrow> watch_args option) \<Rightarrow> k_call option \<Rightarrow> 's \<Rightarrow> k_exn + k_answer \<Rightarrow> 's \<Rightarrow> bool" where
  "k_promise gone stream q s r s' \<longleftrightarrow>
     (\<forall>kd ns name.
        (q = Some (Read kd ns name) \<longrightarrow> r = Inl (K_api 404) \<longrightarrow> gone kd ns name s') \<and>
        (\<forall>policy grace. q = Some (Delete kd ns name policy grace) \<longrightarrow> r = Inl (K_api 404) \<longrightarrow> gone kd ns name s') \<and>
        (\<forall>a. q = Some (Watch_open a) \<or> q = Some Watch_next \<and> stream s = Some a \<longrightarrow> selects a kd ns name \<longrightarrow>
           reports_deletion r \<longrightarrow> gone kd ns name s') \<and>
        (gone kd ns name s \<longrightarrow> gone kd ns name s' \<or> (\<exists>ob. q = Some (Create kd ns ob)))) \<and>
     (q = Some Watch_close \<longrightarrow> not_api r) \<and>
     (\<forall>a v. q = Some (Watch_open a) \<longrightarrow> r = Inr v \<longrightarrow> stream s' = Some a) \<and>
     (\<forall>v. q = Some Watch_next \<longrightarrow> r = Inr v \<longrightarrow> stream s' = stream s)"

definition k_keeps_promise :: "'s k_gone \<Rightarrow> ('s \<Rightarrow> watch_args option) \<Rightarrow> ('s, k_wait, k_answer, k_exn) env \<Rightarrow> bool" where
  "k_keeps_promise gone stream api \<longleftrightarrow>
     (\<forall>w s. k_promise gone stream (call_of w) s (snd (api w s)) (fst (api w s)))"

interpretation kube: interference "\<lambda>_. True" "(=)" "\<lambda>_ _. True"
    "\<lambda>w s r s'. k_promise gone stream (call_of w) s r s'" "\<lambda>_ _. True" for gone stream
  by unfold_locales simp_all

text \<open>What the end of a coroutine says, when it is not an exception.\<close>

definition then_gone :: "'s k_gone \<Rightarrow> k_kind \<Rightarrow> string \<Rightarrow> string \<Rightarrow> k_exn + unit \<Rightarrow> 's \<Rightarrow> bool" where
  "then_gone gone kd ns name r s \<longleftrightarrow> not_api r \<and> (r = Inr () \<longrightarrow> gone kd ns name s)"

lemma then_gone_Raise: "\<not> from_api e \<Longrightarrow> kube.triple gone stream J (Raise e) (then_gone gone kd ns name)"
  by (rule kube.triple_Raise) (simp add: then_gone_def)

lemma kube_relabel: "kube.triple gone stream J p K \<Longrightarrow> kube.triple gone stream J (relabel (Timed_k d) p) K"
  by (rule kube.triple_relabel) simp_all

lemma kube_enforce:
  assumes "kube.triple gone stream J p K" and "\<And>s. J s \<Longrightarrow> K (Inl K_controller_timeout) s"
    and "\<And>e s. K (Inl e) s \<Longrightarrow> e = K_expired \<or> e = K_controller_timeout \<or> e = K_timeout \<Longrightarrow> K (Inl K_controller_timeout) s"
  shows "kube.triple gone stream J (enforce_k t p) K"
  unfolding enforce_k_def enforce_in_def
proof (rule kube.triple_bind [where M = "\<lambda>r s. J s \<and> (\<exists>n. r = Inr n)"])
  show "kube.triple gone stream J (reading k_clock) (\<lambda>r s. J s \<and> (\<exists>n. r = Inr n))"
    by (rule kube.triple_reading) simp
  have "kube.triple gone stream J (catch (relabel (Timed_k (deadline t)) p)
      (\<lambda>e. if e = K_expired \<or> e = K_controller_timeout \<or> e = K_timeout then Raise K_controller_timeout else Raise e)) K"
    by (rule kube.triple_catch [OF kube_relabel [OF assms(1)]]) (auto intro: kube.triple_Raise assms(3))
  then show "kube.triple gone stream (\<lambda>s. J s \<and> (\<exists>n. Inr a = Inr n))
      (if left t a = None then Raise K_controller_timeout
       else catch (relabel (Timed_k (deadline t)) p)
         (\<lambda>e. if e = K_expired \<or> e = K_controller_timeout \<or> e = K_timeout then Raise K_controller_timeout else Raise e)) K"
    for a using assms(2) by (simp add: kube.triple_Raise)
qed simp

lemma kube_any: "(\<And>r s. K r s) \<Longrightarrow> kube.triple gone stream J p K"
proof (rule kube.tripleI)
  fix s0 s
  assume K: "\<And>r s. K r s"
  show "kube.wp gone stream p (\<lambda>r s0 s. True \<and> True \<and> K r s) s0 s"
    using K by (induction p arbitrary: s0 s) simp_all
qed

lemma kube_time:
  "kube.triple gone stream J (time_left t) (\<lambda>r s. not_api r)"
  "kube.triple gone stream J (partial_timeout t d) (\<lambda>r s. not_api r)"
  unfolding time_left_def partial_timeout_def or_raise_def
  by (intro kube.triple_Get, auto split: option.split intro: kube.triple_Ret kube.triple_Raise)+

lemma kube_if_ever: "(\<And>s. J s \<Longrightarrow> kube.triple gone stream J p K) \<Longrightarrow> kube.triple gone stream J p K"
  unfolding kube.triple_def by blast

lemma promise_kept:
  "k_promise gone stream q s r s' \<Longrightarrow> gone kd ns name s \<Longrightarrow> (\<And>ob. q \<noteq> Some (Create kd ns ob)) \<Longrightarrow> gone kd ns name s'"
  unfolding k_promise_def by blast

text \<open>A watch for the deletion of an object ends only when the object is gone.\<close>

lemma kube_watch_loop:
  "selects args kd ns name \<Longrightarrow>
   kube.triple gone stream (\<lambda>s. opened \<longrightarrow> stream s = Some args)
     (watch_loop n reconnect t (stop_if (\<lambda>(a, x). if a = DELETED then Some () else None)) opened args)
     (then_gone gone kd ns name)"
proof (induction n arbitrary: opened args)
  case 0
  show ?case by (simp add: kube.triple_Raise then_gone_def)
next
  case (Suc n)
  let ?body = "stop_if (\<lambda>(a, x). if a = DELETED then Some () else None)"
  let ?K = "then_gone gone kd ns name"
  have again: "kube.triple gone stream J (watch_loop n reconnect t ?body False a) ?K" if "selects a kd ns name" for J a
    by (rule kube.triple_mono [OF Suc.IH [OF that, of False]]) simp_all
  let ?arg = "\<lambda>r s. case r of Inl e \<Rightarrow> not_api r | Inr a \<Rightarrow> selects a kd ns name \<and> (opened \<longrightarrow> stream s = Some a)"
  show ?case
    unfolding watch_loop.simps
  proof (rule kube.triple_bind [where M = ?arg])
    show "kube.triple gone stream (\<lambda>s. opened \<longrightarrow> stream s = Some args)
        (if opened then Ret args else limit_args reconnect t args) ?arg"
    proof (cases opened)
      case True
      with Suc.prems show ?thesis by (simp add: kube.triple_Ret)
    next
      case False
      then show ?thesis
        using Suc.prems unfolding limit_args_def
        by (auto simp: selects_def split: option.split
            intro!: kube.triple_Ret kube.triple_bind [OF kube_time(1)])
    qed
  next
    fix a
    let ?ans = "\<lambda>r s. selects a kd ns name \<and> (\<forall>v. r = Inr v \<longrightarrow> stream s = Some a) \<and> (reports_deletion r \<longrightarrow> gone kd ns name s)"
    show "kube.triple gone stream (?arg (Inr a))
        (try_else (await (Request (if opened then Watch_next else Watch_open a) (Some (wa_request a))))
       (\<lambda>e. case e of
            K_timeout \<Rightarrow> watch_loop n reconnect t ?body False a
          | K_api st \<Rightarrow>
              if st = 410 then watch_loop n reconnect t ?body False (a\<lparr>wa_version := None\<rparr>)
              else Raise (K_kubernetes st)
          | _ \<Rightarrow> Raise e)
       (\<lambda>v. case v of
            K_item None \<Rightarrow> watch_loop n reconnect t ?body False a
          | K_item (Some i) \<Rightarrow>
              (case parse_item i of
                 None \<Rightarrow> watch_loop n reconnect t ?body False a
               | Some ev \<Rightarrow> bind (?body ev) (\<lambda>r. case r of
                     Some x \<Rightarrow> Ret x | None \<Rightarrow> watch_loop n reconnect t ?body True a))
          | _ \<Rightarrow> Raise K_type)) ?K"
    proof (rule kube.triple_try_else [where M = ?ans])
      show "kube.triple gone stream (?arg (Inr a))
          (await (Request (if opened then Watch_next else Watch_open a) (Some (wa_request a)))) ?ans"
        by (rule kube.triple_await) (auto simp: k_promise_def split: if_splits)
    next
      fix e
      show "kube.triple gone stream (?ans (Inl e))
         (case e of K_timeout \<Rightarrow> watch_loop n reconnect t ?body False a
          | K_api st \<Rightarrow>
              if st = 410 then watch_loop n reconnect t ?body False (a\<lparr>wa_version := None\<rparr>)
              else Raise (K_kubernetes st)
          | _ \<Rightarrow> Raise e) ?K"
      proof (rule kube_if_ever)
        fix s
        assume "?ans (Inl e) s"
        then have a: "selects a kd ns name" "selects (a\<lparr>wa_version := None\<rparr>) kd ns name" by (simp_all add: selects_def)
        show ?thesis
          using again [OF a(1)] again [OF a(2)]
          by (cases e) (auto simp: then_gone_def intro: kube.triple_Raise)
      qed
    next
      fix v
      show "kube.triple gone stream (?ans (Inr v)) (case v of
            K_item None \<Rightarrow> watch_loop n reconnect t ?body False a
          | K_item (Some i) \<Rightarrow>
              (case parse_item i of
                 None \<Rightarrow> watch_loop n reconnect t ?body False a
               | Some ev \<Rightarrow> bind (?body ev) (\<lambda>r. case r of
                     Some x \<Rightarrow> Ret x | None \<Rightarrow> watch_loop n reconnect t ?body True a))
          | _ \<Rightarrow> Raise K_type) ?K"
      proof (rule kube_if_ever)
        fix s
        assume "?ans (Inr v) s"
        then have a: "selects a kd ns name" by simp
        have on: "kube.triple gone stream (?ans (Inr v)) (watch_loop n reconnect t ?body True a) ?K"
          by (rule kube.triple_mono [OF Suc.IH [OF a, of True]]) simp_all
        have item: "kube.triple gone stream (?ans (Inr v)) (bind (?body ev) (\<lambda>r. case r of
            Some x \<Rightarrow> Ret x | None \<Rightarrow> watch_loop n reconnect t ?body True a)) ?K"
          if "v = K_item (Some i)" "parse_item i = Some ev" for i ev
        proof (cases "fst ev = DELETED")
          case True
          with that have "reports_deletion (Inr v)" by (cases ev) (auto simp: reports_deletion_def)
          with True show ?thesis
            by (cases ev) (auto simp: stop_if_def then_gone_def intro!: kube.triple_Ret)
        next
          case False
          with on show ?thesis by (cases ev) (simp add: stop_if_def)
        qed
        show ?thesis
          using again [OF a] item by (auto simp: then_gone_def intro: kube.triple_Raise split: k_answer.split option.split)
      qed
    qed
  qed (simp add: then_gone_def)
qed

lemma kube_request:
  assumes "\<And>s r s'. k_promise gone stream (Some q) s r s' \<Longrightarrow> K r s'" and "\<And>s. K (Inl K_controller_timeout) s"
  shows "kube.triple gone stream J (await (Request q l)) K" and "kube.triple gone stream J (request q t) K"
proof -
  show *: "kube.triple gone stream J (await (Request q l)) K" for J l
    by (rule kube.triple_await) (simp_all add: assms(1))
  have "kube.triple gone stream J (time_left t) (\<lambda>r s. r = Inl K_controller_timeout \<or> (\<exists>l. r = Inr l))"
    unfolding time_left_def or_raise_def
    by (rule kube.triple_bind [OF kube.triple_reading [where K = "\<lambda>r s. \<exists>x. r = Inr x"]])
      (auto split: option.split intro: kube.triple_Ret kube.triple_Raise)
  then show "kube.triple gone stream J (request q t) K"
    unfolding request_def by (rule kube.triple_bind) (use * assms(2) in auto)
qed

abbreviation (input) if_404 :: "('s \<Rightarrow> bool) \<Rightarrow> k_exn + 'a \<Rightarrow> 's \<Rightarrow> bool" where
  "if_404 P r s \<equiv> r = Inl (K_api 404) \<longrightarrow> P s"

lemma kube_read_missing:
  "kube.triple gone stream J (k_read kd name ns t) (\<lambda>r s. not_api r \<and> (r = Inr None \<longrightarrow> gone kd ns name s))"
proof -
  let ?M = "\<lambda>r s. if_404 (gone kd ns name) r s \<and> r \<noteq> Inr None"
  have answer: "kube.triple gone stream (if_404 (gone kd ns name) (Inr a))
      (case a of K_object x \<Rightarrow> Ret (Some x) | _ \<Rightarrow> Raise K_type) ?M" for a :: k_answer
    by (cases a) (simp_all add: kube.triple_Ret kube.triple_Raise)
  have "kube.triple gone stream J (request (Read kd ns name) t) (if_404 (gone kd ns name))"
    by (rule kube_request) (auto simp: k_promise_def)
  then have "kube.triple gone stream J
      (bind (request (Read kd ns name) t) (\<lambda>a. case a of K_object x \<Rightarrow> Ret (Some x) | _ \<Rightarrow> Raise K_type)) ?M"
    by (rule kube.triple_bind) (use answer in auto)
  then have "kube.triple gone stream J (enforce_k t
      (bind (request (Read kd ns name) t) (\<lambda>a. case a of K_object x \<Rightarrow> Ret (Some x) | _ \<Rightarrow> Raise K_type))) ?M"
    by (rule kube_enforce) auto
  then show ?thesis
    unfolding k_read_def api_missing_def
  proof (rule kube.triple_catch)
    show "kube.triple gone stream (?M (Inl e))
        (case e of K_api st \<Rightarrow> if st = 404 then Ret None else Raise (K_kubernetes st) | _ \<Rightarrow> Raise e)
        (\<lambda>r s. not_api r \<and> (r = Inr None \<longrightarrow> gone kd ns name s))" for e
      by (cases e) (auto intro!: kube.triple_Ret kube.triple_Raise)
  qed auto
qed

lemma kube_wait_for:
  assumes "name \<noteq> []"
  shows "kube.triple gone stream J (wait_for kc kd name ns t (\<lambda>x. x = None) DELETED rv) (then_gone gone kd ns name)"
proof -
  let ?args = "watch_start kd ns (named name) rv (reconnect_timeout kc)"
  let ?K = "then_gone gone kd ns name"
  have "selects ?args kd ns name"
    using assms by (simp add: selects_def watch_start_def named_def)
  from kube_watch_loop [OF this, where opened = False]
  have watch: "kube.triple gone stream J
      (watching kc t (stop_if (\<lambda>(a, x). if a = DELETED then Some () else None)) ?args) ?K" for J t
    unfolding watching_def by (rule kube.triple_mono) simp_all
  have look: "kube.triple gone stream J
      (bind (partial_timeout t (seconds 2)) (\<lambda>rt. bind (k_read kd name ns rt) (\<lambda>x. if x = None then Ret () else Raise e))) ?K"
    if "\<not> from_api e" for J e
    by (rule kube.triple_bind [OF kube_time(2)], rule kube.triple_bind [OF kube_read_missing])
      (use that in \<open>auto simp: then_gone_def intro!: kube.triple_Ret kube.triple_Raise\<close>)
  have close: "kube.triple gone stream (?K r) close_watch (\<lambda>x s. case x of Inl e \<Rightarrow> ?K (Inl e) s | Inr _ \<Rightarrow> ?K r s)" for r
    unfolding close_watch_def
  proof (rule kube.triple_bind [OF kube.triple_await [where K = "\<lambda>x s. not_api x \<and> ?K r s"]])
    fix s s1 x s2
    assume "?K r s" "s = s1" "k_promise gone stream (call_of (Request Watch_close None)) s1 x s2"
    moreover from this have "not_api x" by (simp add: k_promise_def)
    ultimately show "True \<and> not_api x \<and> ?K r s2" unfolding then_gone_def by (auto elim: promise_kept)
  qed (auto simp: then_gone_def intro!: kube.triple_Ret)
  have late: "kube.triple gone stream (?K (Inl e))
      (if e = K_controller_timeout then
         bind (partial_timeout t (seconds 2)) (\<lambda>rt. bind (k_read kd name ns rt) (\<lambda>x. if x = None then Ret () else Raise e))
       else Raise e) ?K" for e
    using look [of e] by (simp add: kube.triple_Raise)
  have "kube.triple gone stream J (finally_do
       (catch
         (enforce_k wt (watching kc (Some wt) (stop_if (\<lambda>(a, x). if a = DELETED then Some () else None)) ?args))
         (\<lambda>e. if e = K_controller_timeout then
                bind (partial_timeout t (seconds 2)) (\<lambda>rt. bind (k_read kd name ns rt) (\<lambda>x. if x = None then Ret () else Raise e))
              else Raise e))
       close_watch) ?K" for J wt
    by (rule kube.triple_finally [OF kube.triple_catch [OF kube_enforce [OF watch] late] close])
      (simp_all add: then_gone_def)
  then show ?thesis
    unfolding wait_for_def
    by (intro kube.triple_bind [OF kube_time(1)] kube.triple_bind [OF kube_time(2)]) (simp_all add: then_gone_def)
qed

lemma kube_wait_for_deletion:
  assumes "name \<noteq> []"
  shows "kube.triple gone stream J (wait_for_deletion kc kd name ns t) (then_gone gone kd ns name)"
    and "kube.triple gone stream J (custom_wait_for_deletion kc kd name ns t) (then_gone gone kd ns name)"
  unfolding wait_for_deletion_def custom_wait_for_deletion_def
  by (rule kube.triple_bind [OF kube_read_missing],
      auto simp: then_gone_def split: option.split intro!: kube.triple_Ret kube_wait_for [OF assms])+

text \<open>What is gone stays gone during deletions.\<close>

lemma kube_keeps_await:
  "(\<And>ob. call_of w \<noteq> Some (Create kd ns ob)) \<Longrightarrow> kube.keeps gone stream (gone kd ns name) (await w)"
  unfolding kube.keeps_def by (rule kube.triple_await, simp, metis promise_kept)

lemma kube_keeps_enforce:
  "kube.keeps gone stream J p \<Longrightarrow> kube.keeps gone stream J (enforce_k t p)"
  unfolding kube.keeps_def by (rule kube_enforce)

lemma kube_keeps_time:
  "kube.keeps gone stream J (time_left t)" "kube.keeps gone stream J (partial_timeout t d)"
  "kube.keeps gone stream J (or_raise e x)"
  by (auto simp: time_left_def partial_timeout_def or_raise_def intro!: kube.keeps_intros split: option.split)

lemma kube_keeps_api:
  assumes "kube.keeps gone stream J p"
  shows "kube.keeps gone stream J (api_errors p)" and "kube.keeps gone stream J (api_missing x p)"
  unfolding api_errors_def api_missing_def
  by (rule kube.keeps_catch [OF assms], auto split: k_exn.split intro: kube.keeps_intros)+

lemma kube_keeps_read: "kube.keeps gone stream (gone kd ns name) (k_read kd' n ns' t)"
  unfolding k_read_def request_def
  by (intro kube_keeps_api kube_keeps_enforce kube.keeps_bind kube_keeps_time kube_keeps_await)
    (auto split: k_answer.split intro: kube.keeps_intros)

lemma kube_keeps_watch_loop:
  "(\<And>ev. kube.keeps gone stream (gone kd ns name) (body ev)) \<Longrightarrow>
     kube.keeps gone stream (gone kd ns name) (watch_loop n r t body opened args)"
proof (induction n arbitrary: opened args)
  case 0
  show ?case by (simp add: kube.keeps_Raise)
next
  case (Suc n)
  note on = Suc.IH [OF Suc.prems]
  have "kube.keeps gone stream (gone kd ns name) (limit_args r t args)"
    unfolding limit_args_def by (auto split: option.split intro!: kube.keeps_intros kube_keeps_time)
  with on Suc.prems show ?case
    by (auto intro!: kube.keeps_bind kube.keeps_try_else kube_keeps_await kube.keeps_Ret kube.keeps_Raise
        split: k_exn.split k_answer.split option.split)
qed

lemma kube_keeps_wait_for: "kube.keeps gone stream (gone kd ns name) (wait_for kc kd' n ns' t good wanted rv)"
  unfolding wait_for_def watching_def close_watch_def stop_if_def
  by (intro kube.keeps_bind kube.keeps_finally kube.keeps_catch kube_keeps_enforce kube_keeps_watch_loop
      kube.keeps_if kube_keeps_time kube_keeps_read kube_keeps_await kube.keeps_Ret kube.keeps_Raise) simp_all

lemma kube_keeps_wait_for_deletion:
  "kube.keeps gone stream (gone kd ns name) (wait_for_deletion kc kd' n ns' t)"
  "kube.keeps gone stream (gone kd ns name) (custom_wait_for_deletion kc kd' n ns' t)"
  unfolding wait_for_deletion_def custom_wait_for_deletion_def
  by (intro kube.keeps_bind kube_keeps_read kube.keeps_if kube.keeps_option kube_keeps_wait_for kube.keeps_Ret)+

lemma kube_keeps_delete:
  "kube.keeps gone stream (gone kd ns name) (k_delete kc kd' n ns' t wait policy grace)"
  "kube.keeps gone stream (gone kd ns name) (custom_delete kc kd' n ns' t wait)"
  unfolding k_delete_def custom_delete_def request_def
  by (intro kube.keeps_bind kube_keeps_time kube.keeps_catch kube_keeps_enforce kube_keeps_await kube.keeps_do_if
      kube_keeps_wait_for_deletion kube.keeps_Ret; auto split: k_exn.split intro: kube.keeps_intros)+

lemma kube_keeps_list: "kube.keeps gone stream (gone kd ns name) (k_list kd' ns' sel t)"
  unfolding k_list_def
  by (intro kube.keeps_bind kube_keeps_time kube_keeps_api kube_keeps_enforce kube_keeps_await)
    (auto split: k_answer.split intro: kube.keeps_intros)

lemma kube_delete_call:
  assumes "\<And>J t. kube.triple gone stream J p (if_404 (gone kd ns name))"
  shows "kube.triple gone stream J
     (catch (bind (enforce_k t p) (\<lambda>_. Ret True))
        (\<lambda>e. case e of K_api st \<Rightarrow> if st = 404 then Ret False else Raise (K_kubernetes st) | _ \<Rightarrow> Raise e))
     (\<lambda>r s. not_api r \<and> (r = Inr False \<longrightarrow> gone kd ns name s))"
proof (rule kube.triple_catch [where M = "\<lambda>r s. if_404 (gone kd ns name) r s \<and> r \<noteq> Inr False"])
  show "kube.triple gone stream J (bind (enforce_k t p) (\<lambda>_. Ret True))
      (\<lambda>r s. if_404 (gone kd ns name) r s \<and> r \<noteq> Inr False)"
    by (rule kube.triple_bind [OF kube_enforce [OF assms]]) (simp_all add: kube.triple_Ret)
  show "kube.triple gone stream (\<lambda>s. if_404 (gone kd ns name) (Inl e) s \<and> Inl e \<noteq> Inr False)
      (case e of K_api st \<Rightarrow> if st = 404 then Ret False else Raise (K_kubernetes st) | _ \<Rightarrow> Raise e)
      (\<lambda>r s. not_api r \<and> (r = Inr False \<longrightarrow> gone kd ns name s))" for e
    by (cases e) (auto intro!: kube.triple_Ret kube.triple_Raise)
qed auto

lemma kube_delete:
  assumes "name \<noteq> []"
  shows "kube.triple gone stream J (k_delete kc kd name ns t True policy grace) (then_gone gone kd ns name)"
    and "kube.triple gone stream J (custom_delete kc kd name ns t True) (then_gone gone kd ns name)"
proof -
  have then_wait: "kube.triple gone stream (\<lambda>s. not_api (Inr found) \<and> (Inr found = Inr False \<longrightarrow> gone kd ns name s)) (do_if (found \<and> True) w)
      (then_gone gone kd ns name)"
    if "\<And>J. kube.triple gone stream J w (then_gone gone kd ns name)" for found w
    using that by (cases found) (auto simp: do_if_def then_gone_def intro!: kube.triple_Ret)
  have call: "kube.triple gone stream J (await (Request (Delete kd ns name policy grace) l)) (if_404 (gone kd ns name))"
    "kube.triple gone stream J (request (Delete kd ns name policy grace) t) (if_404 (gone kd ns name))"
    for J policy grace l t by (rule kube_request; auto simp: k_promise_def)+
  show "kube.triple gone stream J (k_delete kc kd name ns t True policy grace) (then_gone gone kd ns name)"
    unfolding k_delete_def
    by (intro kube.triple_bind [OF kube_time(1)] kube.triple_bind [OF kube_delete_call [OF call(1)]]
        then_wait kube_wait_for_deletion assms) (auto simp: then_gone_def)
  show "kube.triple gone stream J (custom_delete kc kd name ns t True) (then_gone gone kd ns name)"
    unfolding custom_delete_def
    by (intro kube.triple_bind [OF kube_delete_call [OF call(2)]] then_wait kube_wait_for_deletion assms)
      (auto simp: then_gone_def)
qed

lemma kube_delete_namespace:
  assumes "name \<noteq> []"
  shows "kube.triple gone stream J (delete_namespace_k kc name t True) (then_gone gone K_Namespace [] name)"
  unfolding delete_namespace_k_def api_missing_def
proof (rule kube.triple_catch [where M = "\<lambda>r s. if_404 (gone K_Namespace [] name) r s \<and> (r = Inr () \<longrightarrow> gone K_Namespace [] name s)"])
  let ?M = "\<lambda>r s. if_404 (gone K_Namespace [] name) r s \<and> (r = Inr () \<longrightarrow> gone K_Namespace [] name s)"
  let ?q = "request (Delete K_Namespace [] name None None) t"
  have "kube.triple gone stream J ?q (if_404 (gone K_Namespace [] name))"
    by (rule kube_request) (auto simp: k_promise_def)
  then have "kube.triple gone stream J (bind ?q (\<lambda>_. Ret ())) (if_404 (gone K_Namespace [] name))"
    by (rule kube.triple_bind) (simp_all add: kube.triple_Ret)
  then have call: "kube.triple gone stream J (enforce_k t (bind ?q (\<lambda>_. Ret ()))) (if_404 (gone K_Namespace [] name))"
    by (rule kube_enforce) simp_all
  have "kube.triple gone stream J' (do_if True (wait_for_deletion kc K_Namespace name [] t)) ?M" for J'
    unfolding do_if_def
    by (simp, rule kube.triple_mono [OF kube_wait_for_deletion(1) [OF assms]]) (auto simp: then_gone_def)
  then show "kube.triple gone stream J (seq (enforce_k t (bind ?q (\<lambda>_. Ret ())))
      (do_if True (wait_for_deletion kc K_Namespace name [] t))) ?M"
    by (rule kube.triple_seq [OF call]) simp
  show "kube.triple gone stream (?M (Inl e))
      (case e of K_api st \<Rightarrow> if st = 404 then Ret () else Raise (K_kubernetes st) | _ \<Rightarrow> Raise e)
      (then_gone gone K_Namespace [] name)" for e
    by (cases e) (auto simp: then_gone_def intro!: kube.triple_Ret kube.triple_Raise)
qed (simp add: then_gone_def)

theorem lab_deleted_is_gone:
  assumes "k_keeps_promise gone stream api" and "name \<noteq> []"
    and "run (lab_delete_namespace kc name t) api s = (s', Inr ())"
  shows "gone K_Namespace [] name s'"
  using kube.triple_run [OF kube_delete_namespace [OF assms(2), of gone stream "\<lambda>_. True"] _ _ _ assms(3)[unfolded lab_delete_namespace_def]]
    assms(1) by (simp add: k_keeps_promise_def then_gone_def)

text \<open>A deletion after others.\<close>

definition all_gone :: "'s k_gone \<Rightarrow> string \<Rightarrow> string \<Rightarrow> k_kind list \<Rightarrow> 's \<Rightarrow> bool" where
  "all_gone gone ns name kds s \<longleftrightarrow> list_all (\<lambda>kd. gone kd ns name s) kds"

lemma kube_keeps_all:
  assumes "\<And>kd. kube.keeps gone stream (gone kd ns name) p"
  shows "kube.keeps gone stream (all_gone gone ns name kds) p"
proof (induction kds)
  case Nil
  then show ?case by (simp add: all_gone_def kube.keeps_def kube_any)
next
  case (Cons kd kds)
  from kube.triple_conj [OF assms [of kd, unfolded kube.keeps_def] Cons.IH [unfolded kube.keeps_def]]
  show ?case by (simp add: all_gone_def kube.keeps_def)
qed

lemma kube_next_gone:
  assumes "kube.triple gone stream (\<lambda>_. True) p (then_gone gone kd ns name)"
    and "\<And>kd. kube.keeps gone stream (gone kd ns name) p"
    and "kube.triple gone stream (all_gone gone ns name (kd # kds)) q K" and "\<And>e s. K (Inl e) s"
  shows "kube.triple gone stream (all_gone gone ns name kds) (seq p q) K"
proof (rule kube.triple_seq)
  from kube.triple_conj [OF assms(1) kube_keeps_all [OF assms(2), unfolded kube.keeps_def]]
  show "kube.triple gone stream (all_gone gone ns name kds) p
      (\<lambda>r s. then_gone gone kd ns name r s \<and> all_gone gone ns name kds s)" by simp
  show "kube.triple gone stream (\<lambda>s. then_gone gone kd ns name (Inr a) s \<and> all_gone gone ns name kds s) q K" for a
    by (rule kube.triple_mono [OF assms(3)]) (auto simp: then_gone_def all_gone_def)
qed (rule assms(4))

lemma kube_fileserver_delete:
  assumes "name \<noteq> []"
  shows "kube.triple gone stream (\<lambda>_. True) (fileserver_delete kc name ns u t)
     (\<lambda>r s. r = Inr () \<longrightarrow> all_gone gone ns name [K_Job, K_Service, K_Ingress, K_GafaelfawrIngress] s)"
proof -
  let ?kds = "[K_Job, K_Service, K_Ingress, K_GafaelfawrIngress]"
  let ?rest = "bind (k_list K_PVC ns (Some (user_label @ ''='' @ u)) t)
    (\<lambda>pvcs. for_each pvcs (\<lambda>p. k_delete kc K_PVC (so_name p) ns t False None None))"
  let ?K = "\<lambda>r s. r = Inr () \<longrightarrow> all_gone gone ns name ?kds s"
  have "kube.keeps gone stream (all_gone gone ns name ?kds) ?rest"
    by (intro kube_keeps_all kube.keeps_bind kube_keeps_list kube.keeps_for_each kube_keeps_delete)
  then have "kube.triple gone stream (all_gone gone ns name ?kds) ?rest ?K"
    unfolding kube.keeps_def by (rule kube.triple_mono) simp_all
  then have "kube.triple gone stream (all_gone gone ns name []) (fileserver_delete kc name ns u t) ?K"
    unfolding fileserver_delete_def
    by (intro kube_next_gone kube_keeps_delete kube_keeps_wait_for_deletion)
      (simp_all add: kube_delete kube_wait_for_deletion assms)

  then show ?thesis by (rule kube.triple_mono) (simp_all add: all_gone_def)
qed

text \<open>C4: When the deletion of a file server returns without an exception, its Gafaelfawr
  ingress, Kubernetes ingress, service and job are gone, given an API that reports objects as
  missing or deleted only when they are and given that nobody else creates them again.\<close>

theorem fileserver_deleted_is_gone:
  assumes "k_keeps_promise gone stream api" and "name \<noteq> []"
    and "run (fileserver_delete kc name ns u t) api s = (s', Inr ())"
  shows "gone K_GafaelfawrIngress ns name s' \<and> gone K_Ingress ns name s' \<and> gone K_Service ns name s' \<and> gone K_Job ns name s'"
  using kube.triple_run [OF kube_fileserver_delete [OF assms(2), of gone stream] _ _ _ assms(3)] assms(1)
  by (simp add: k_keeps_promise_def all_gone_def)

section \<open>An example cluster\<close>

text \<open>
  A cluster that keeps the promises: a deletion leaves the object there until its deletion is watched.
\<close>

record cluster = kube +
  objects :: "(k_kind \<times> string \<times> string) list"
  open_watch :: "watch_args option"

definition example_object :: "string \<Rightarrow> stored" where
  "example_object name =
     \<lparr>so_name = name, so_labels = None, so_version = Some ''1'', so_phase = Some ''Running'', so_start_time = None,
      so_load_balancer = None, so_message = [], so_body = O_other\<rparr>"

definition selected :: "watch_args \<Rightarrow> k_kind \<times> string \<times> string \<Rightarrow> bool" where
  "selected a = (\<lambda>(kd, ns, name). selects a kd ns name)"

fun cluster_call :: "k_call \<Rightarrow> cluster \<Rightarrow> cluster \<times> (k_exn + k_answer)" where
  "cluster_call (Create kd ns ob) s = (s\<lparr>objects := (kd, ns, object_name ob) # objects s\<rparr>, Inr K_none)"
| "cluster_call (Read kd ns name) s =
     (s, if (kd, ns, name) \<in> set (objects s) then Inr (K_object (example_object name)) else Inl (K_api 404))"
| "cluster_call (Delete kd ns name policy grace) s =
     (s, if (kd, ns, name) \<in> set (objects s) then Inr K_none else Inl (K_api 404))"
| "cluster_call (List kd ns selector) s = (s, Inr (K_objects []))"
| "cluster_call (Watch_open a) s =
     (case filter (selected a) (objects s) of
        [] \<Rightarrow> (s\<lparr>open_watch := Some a\<rparr>, Inr (K_item None))
      | (kd, ns, name) # _ \<Rightarrow>
          (s\<lparr>open_watch := Some a, objects := filter (\<lambda>x. \<not> selected a x) (objects s)\<rparr>,
           Inr (K_item (Some (Event_item ''DELETED'' True (example_object name))))))"
| "cluster_call Watch_next s = (s, Inl K_timeout)"
| "cluster_call Watch_close s = (s, Inr K_none)"

fun expired :: "k_wait \<Rightarrow> datetime \<Rightarrow> bool" where
  "expired (Timed_k d w) n = (d \<le> n \<or> expired w n)"
| "expired w n = False"

definition example_cluster :: "(cluster, k_wait, k_answer, k_exn) env" where
  "example_cluster w s =
     (let s1 = s\<lparr>k_clock := k_clock s + 1\<rparr> in
      if expired w (k_clock s) then (s1, Inl K_expired)
      else case call_of w of None \<Rightarrow> (s1, Inr K_none) | Some q \<Rightarrow> cluster_call q s1)"

definition missing :: "cluster k_gone" where
  "missing kd ns name s \<longleftrightarrow> (kd, ns, name) \<notin> set (objects s)"

lemma expired_limits: "expired w n \<longleftrightarrow> (\<exists>d \<in> limits w. d \<le> n)"
  by (induction w) auto

lemma cluster_call_clock: "k_clock (fst (cluster_call q s)) = k_clock s \<and> snd (cluster_call q s) \<noteq> Inl Out_of_fuel"
  by (cases "(q, s)" rule: cluster_call.cases) (auto split: list.split)

lemma example_timely: "k_timely example_cluster"
  unfolding k_timely_def example_cluster_def expired_limits [symmetric]
  using cluster_call_clock by (auto simp: Let_def expired_limits split: option.split)

lemma cluster_promise: "k_promise missing open_watch (Some q) s (snd (cluster_call q s)) (fst (cluster_call q s))"
proof (cases q)
  case (Watch_open a)
  show ?thesis
  proof (cases "filter (selected a) (objects s)")
    case Nil
    with Watch_open show ?thesis by (auto simp: k_promise_def reports_deletion_def missing_def)
  next
    case (Cons x xs)
    with Watch_open show ?thesis
      by (cases x) (auto simp: k_promise_def missing_def selected_def)
  qed
qed (auto simp: k_promise_def reports_deletion_def missing_def)

lemma example_promise: "k_keeps_promise missing open_watch example_cluster"
  unfolding k_keeps_promise_def
proof (intro allI)
  fix w and s :: cluster
  show "k_promise missing open_watch (call_of w) s (snd (example_cluster w s)) (fst (example_cluster w s))"
  proof (cases "expired w (k_clock s) \<or> call_of w = None")
    case True
    then show ?thesis
      by (auto simp: example_cluster_def Let_def k_promise_def reports_deletion_def missing_def split: option.split)
  next
    case False
    then obtain q where q: "call_of w = Some q" by auto
    have "k_promise missing open_watch (Some q) s r s'"
      if "k_promise missing open_watch (Some q) (s\<lparr>k_clock := k_clock s + 1\<rparr>) r s'" for r s'
      using that by (simp add: k_promise_def missing_def)
    with False q cluster_promise show ?thesis by (simp add: example_cluster_def Let_def)
  qed
qed

text \<open>A file server of which only the job and the Kubernetes ingress are left.\<close>

definition example_bounds :: k_config where
  "example_bounds = \<lparr>reconnect_timeout = seconds 60, loop_bound = 3\<rparr>"

definition example_cluster_start :: cluster where
  "example_cluster_start =
     \<lparr>k_clock = 0, objects = [(K_Job, ''files'', ''rachel-fs''), (K_Ingress, ''files'', ''rachel-fs''), (K_Namespace, [], ''lab-rachel'')],
      open_watch = None\<rparr>"

definition example_deletion :: "cluster \<times> (k_exn + unit)" where
  "example_deletion = run (fileserver_delete example_bounds ''rachel-fs'' ''files'' ''rachel'' (new_timeout_at (seconds 10) 0))
     example_cluster example_cluster_start"

lemma example_deletion_ends: "snd example_deletion = Inr () \<and> objects (fst example_deletion) = [(K_Namespace, [], ''lab-rachel'')]"
  by code_simp

definition example_lab_deletion :: "cluster \<times> (k_exn + unit)" where
  "example_lab_deletion = run (lab_delete_namespace example_bounds ''lab-rachel'' (new_timeout_at (seconds 10) 0))
     example_cluster example_cluster_start"

lemma example_lab_deletion_ends: "snd example_lab_deletion = Inr () \<and> length (objects (fst example_lab_deletion)) = 2"
  by code_simp

lemma run_result: "snd x = Inr a \<Longrightarrow> x = (fst x, Inr a)"
  by (cases x) simp

lemma lab_deleted_is_gone_witness: "missing K_Namespace [] ''lab-rachel'' (fst example_lab_deletion)"
proof (rule lab_deleted_is_gone [OF example_promise])
  show "run (lab_delete_namespace example_bounds ''lab-rachel'' (new_timeout_at (seconds 10) 0)) example_cluster
      example_cluster_start = (fst example_lab_deletion, Inr ())"
    using run_result [OF example_lab_deletion_ends [THEN conjunct1]] unfolding example_lab_deletion_def .
qed simp

lemma fileserver_deleted_is_gone_witness:
  "missing K_GafaelfawrIngress ''files'' ''rachel-fs'' (fst example_deletion) \<and>
   missing K_Ingress ''files'' ''rachel-fs'' (fst example_deletion) \<and>
   missing K_Service ''files'' ''rachel-fs'' (fst example_deletion) \<and>
   missing K_Job ''files'' ''rachel-fs'' (fst example_deletion)"
proof (rule fileserver_deleted_is_gone [OF example_promise])
  show "run (fileserver_delete example_bounds ''rachel-fs'' ''files'' ''rachel'' (new_timeout_at (seconds 10) 0))
      example_cluster example_cluster_start = (fst example_deletion, Inr ())"
    using run_result [OF example_deletion_ends [THEN conjunct1]] unfolding example_deletion_def .
qed simp

definition example_fileserver :: fileserver_config where
  "example_fileserver =
     \<lparr>fs_scheduling = \<lparr>sch_affinity = None, sch_node_selector = [], sch_tolerations = []\<rparr>, fs_application = None,
      fs_creation_timeout = seconds 120, fs_delete_timeout = seconds 60, fs_extra_annotations = [],
      fs_idle_timeout = seconds 3600, fs_namespace = ''files'', fs_path_prefix = ''/files'', fs_resources = None,
      fs_volume_mounts = [example_mount ''home'' False], fs_base_url = ''https://data.example.org'', fs_base_host = None,
      fs_volumes = example_volumes,
      fs_container = \<lparr>img_repository = ''worblehat'', img_pull_policy = IfNotPresent, img_tag = ''1.0''\<rparr>,
      fs_show_float = unary_show\<rparr>"

lemma fileserver_create_ends_witness:
  "snd (run (fileserver_create \<lparr>reconnect_timeout = seconds 60, loop_bound = 120000001\<rparr> ''files''
      (build_fileserver example_fileserver example_user) (new_timeout_at (seconds 120) 0))
     example_cluster example_cluster_start) \<noteq> Inl Out_of_fuel"
  by (rule fileserver_create_ends [OF example_timely])
    (simp_all add: example_cluster_start_def deadline_def new_timeout_at_def seconds_def)

end
