(* ===== verification/Fileserver_Service.thy ===== *)
theory Fileserver_Service
  imports Kube_Storage
begin

text \<open>
  The services for user file servers and for the administration pod: \<open>FileserverManager\<close> of
  \<open>src/src/nublado/controller/services/fileserver.py\<close> and \<open>FSAdminManager\<close> of
  \<open>services/fsadmin.py\<close>. The state of a user is an object of its own, with a lock, since a request
  goes on with the object that it found while others replace it in the map of the manager. What the
  code iterates over as a set is iterated over here in the order of the map it was made from.
\<close>

section \<open>State\<close>

record fs_server =
  fs_running :: bool
  fs_locked :: bool
  fs_in_progress :: bool
  fs_last_modified :: datetime

type_synonym server_id = nat

record manager = kube +
  servers :: "(string, server_id) dict"
  server_objs :: "server_id \<Rightarrow> fs_server"
  next_server :: server_id
  admin_locked :: bool
  admin_config :: fsadmin_config
  admin_lab :: lab_config

type_synonym 'a fsm = "(unit manager_ext, 'a) k_proc"

definition fs_modified_since :: "fs_server \<Rightarrow> datetime \<Rightarrow> bool" where
  "fs_modified_since x d \<longleftrightarrow> fs_in_progress x \<or> d < fs_last_modified x"

definition new_server :: "string \<Rightarrow> bool \<Rightarrow> manager \<Rightarrow> manager" where
  "new_server u up s =
     s\<lparr>servers := dset u (next_server s) (servers s),
       server_objs := (server_objs s)(next_server s :=
         \<lparr>fs_running = up, fs_locked = False, fs_in_progress = False, fs_last_modified = k_clock s\<rparr>),
       next_server := next_server s + 1\<rparr>"

definition upd_server :: "server_id \<Rightarrow> (fs_server \<Rightarrow> fs_server) \<Rightarrow> manager \<Rightarrow> manager" where
  "upd_server i f s = s\<lparr>server_objs := (server_objs s)(i := f (server_objs s i))\<rparr>"

definition mark_progress :: "server_id \<Rightarrow> bool \<Rightarrow> unit fsm" where
  "mark_progress i b = act (\<lambda>s. upd_server i (\<lambda>x. x\<lparr>fs_in_progress := b, fs_last_modified := k_clock s\<rparr>) s)"

definition holding :: "server_id \<Rightarrow> 'a fsm \<Rightarrow> 'a fsm" where
  "holding i p = seq (await (Acquire i)) (finally_do p (act (upd_server i (\<lambda>x. x\<lparr>fs_locked := False\<rparr>))))"

section \<open>File servers\<close>

definition post_exception :: "k_exn \<Rightarrow> unit fsm" where
  "post_exception e = bind (await (Post_exception e)) (\<lambda>_. Ret ())"

definition create_file_server :: "k_config \<Rightarrow> fileserver_config \<Rightarrow> gafaelfawr_user \<Rightarrow> timeout \<Rightarrow> unit fsm" where
  "create_file_server kc cfg g t = fileserver_create kc (fs_namespace cfg) (build_fileserver cfg g) t"

definition delete_file_server :: "k_config \<Rightarrow> fileserver_config \<Rightarrow> string \<Rightarrow> unit fsm" where
  "delete_file_server kc cfg u =
     bind (start_timeout (fs_delete_timeout cfg)) (\<lambda>t.
       catch (enforce_k t (fileserver_delete kc (build_name u) (fs_namespace cfg) u t))
         (\<lambda>e. if is_exn e then seq (post_exception e) (Raise e) else Raise e))"

definition server_of :: "string \<Rightarrow> manager \<Rightarrow> server_id" where
  "server_of u s = the (map_of (servers s) u)"

definition fs_create :: "k_config \<Rightarrow> fileserver_config \<Rightarrow> gafaelfawr_user \<Rightarrow> unit fsm" where
  "fs_create kc cfg g =
     seq (act (\<lambda>s. if map_of (servers s) (g_username g) = None then new_server (g_username g) False s else s))
    (bind (reading (server_of (g_username g))) (\<lambda>i.
     bind (start_timeout (fs_creation_timeout cfg)) (\<lambda>t.
     holding i
       (bind (reading (\<lambda>s. fs_running (server_objs s i))) (\<lambda>r.
        if r then Ret ()
        else finally_do
          (try_else (seq (mark_progress i True) (enforce_k t (create_file_server kc cfg g t)))
             (\<lambda>e. if is_exn e
                then seq (post_exception e) (seq (delete_file_server kc cfg (g_username g)) (Raise e))
                else Raise e)
             (\<lambda>_. act (upd_server i (\<lambda>x. x\<lparr>fs_running := True\<rparr>))))
          (mark_progress i False))))))"

definition fs_delete :: "k_config \<Rightarrow> fileserver_config \<Rightarrow> string \<Rightarrow> unit fsm" where
  "fs_delete kc cfg u =
     bind (reading (\<lambda>s. map_of (servers s) u)) (\<lambda>x. case x of
         None \<Rightarrow> Raise K_unknown_user
       | Some i \<Rightarrow> holding i
           (bind (reading (\<lambda>s. fs_running (server_objs s i))) (\<lambda>r.
            if \<not> r then Raise K_unknown_user
            else seq (mark_progress i True)
              (finally_do
                (seq (delete_file_server kc cfg u) (act (upd_server i (\<lambda>x. x\<lparr>fs_running := False\<rparr>))))
                (mark_progress i False)))))"

definition fs_is_running :: "string \<Rightarrow> manager \<Rightarrow> bool" where
  "fs_is_running u s = (case map_of (servers s) u of None \<Rightarrow> False | Some i \<Rightarrow> fs_running (server_objs s i))"

definition fs_get_status :: "string \<Rightarrow> bool fsm" where
  "fs_get_status u = reading (fs_is_running u)"

definition fs_list :: "string list fsm" where
  "fs_list = reading (\<lambda>s. map fst (filter (\<lambda>(u, i). fs_running (server_objs s i)) (servers s)))"

text \<open>\<open>with contextlib.suppress(UnknownUserError)\<close>\<close>

definition delete_if_known :: "k_config \<Rightarrow> fileserver_config \<Rightarrow> string \<Rightarrow> unit fsm" where
  "delete_if_known kc cfg u = catch (fs_delete kc cfg u) (\<lambda>e. if e = K_unknown_user then Ret () else Raise e)"

definition delete_invalid_servers :: "k_config \<Rightarrow> fileserver_config \<Rightarrow> string list \<Rightarrow> datetime \<Rightarrow> unit fsm" where
  "delete_invalid_servers kc cfg us start =
     for_each us (\<lambda>u.
       bind (reading (\<lambda>s. case map_of (servers s) u of None \<Rightarrow> False
              | Some i \<Rightarrow> fs_modified_since (server_objs s i) start)) (\<lambda>recent.
         do_if (\<not> recent) (delete_if_known kc cfg u)))"

definition request_timeout :: timedelta where
  "request_timeout = seconds 30"

definition delete_unexpected_servers :: "k_config \<Rightarrow> fileserver_config \<Rightarrow> string list \<Rightarrow> unit fsm" where
  "delete_unexpected_servers kc cfg us =
     for_each us (\<lambda>u.
       bind (reading (\<lambda>s. map_of (servers s) u)) (\<lambda>x.
         if x \<noteq> None then Ret ()
         else bind (start_timeout request_timeout) (\<lambda>t.
           fileserver_delete kc (build_name u) (fs_namespace cfg) u t)))"

definition fs_objects_of :: "fs_seen \<Rightarrow> fileserver_state_objects" where
  "fs_objects_of x =
     \<lparr>fss_pod = map_option (\<lambda>p. \<lparr>fsp_name = so_name p, fsp_labels = so_labels p, fsp_phase = so_phase p\<rparr>) (seen_pod x),
      fss_ingress = map_option (\<lambda>i. \<lparr>ing_name = so_name i, ing_rv = (case so_version i of None \<Rightarrow> [] | Some v \<Rightarrow> v),
        ing_load_balancer = so_load_balancer i\<rparr>) (seen_ingress x)\<rparr>"

text \<open>What a reconciliation does with what it saw: start, and the users to delete of either kind.\<close>

fun sort_seen :: "string list \<Rightarrow> (string, fs_seen) dict \<Rightarrow> string list \<Rightarrow> string list
    \<Rightarrow> (string list \<times> string list) fsm" where
  "sort_seen known [] invalid unexpected = Ret (invalid, unexpected)"
| "sort_seen known ((u, x) # seen) invalid unexpected =
     (if is_valid (fs_objects_of x) then
        seq (do_if (u \<notin> set known) (act (new_server u True))) (sort_seen known seen invalid unexpected)
      else bind (reading (\<lambda>s. map_of (servers s) u)) (\<lambda>o'.
        if o' \<noteq> None then sort_seen known seen (invalid @ [u]) unexpected
        else sort_seen known seen invalid (unexpected @ [u])))"

definition fs_reconcile :: "k_config \<Rightarrow> fileserver_config \<Rightarrow> unit fsm" where
  "fs_reconcile kc cfg =
     bind (start_timeout request_timeout) (\<lambda>t.
     bind (reading k_clock) (\<lambda>start.
     bind (read_fileserver_state (fs_namespace cfg) t) (\<lambda>seen.
     bind fs_list (\<lambda>known.
     bind (sort_seen known seen [] []) (\<lambda>(invalid, unexpected).
     seq (delete_invalid_servers kc cfg invalid start)
    (seq (delete_unexpected_servers kc cfg unexpected)
         (delete_invalid_servers kc cfg
           (filter (\<lambda>u. u \<notin> set (dkeys seen) \<or> u \<in> set invalid) known) start)))))))"

text \<open>One turn of the loop that watches the pods of file servers, and the loop, for a number of turns.\<close>

definition pod_exited :: "k_config \<Rightarrow> fileserver_config \<Rightarrow> stored \<Rightarrow> pod_phase \<Rightarrow> unit fsm" where
  "pod_exited kc cfg x ph =
     (if ph = Pod_FAILED \<or> ph = Pod_SUCCEEDED then
        (case get_username_for_pod \<lparr>fsp_name = so_name x, fsp_labels = so_labels x, fsp_phase = so_phase x\<rparr> of
           None \<Rightarrow> Ret ()
         | Some u \<Rightarrow> if u = [] then Ret () else delete_if_known kc cfg u)
      else Ret ())"

definition watch_servers_once :: "k_config \<Rightarrow> fileserver_config \<Rightarrow> unit fsm" where
  "watch_servers_once kc cfg =
     catch (watch_pod_changes kc (fs_namespace cfg) (pod_exited kc cfg))
       (\<lambda>e. if is_exn e then seq (post_exception e) (bind (await (Sleep (seconds 1))) (\<lambda>_. Ret ())) else Raise e)"

fun watch_servers :: "nat \<Rightarrow> k_config \<Rightarrow> fileserver_config \<Rightarrow> unit fsm" where
  "watch_servers 0 kc cfg = Raise Out_of_fuel"
| "watch_servers (Suc n) kc cfg = seq (watch_servers_once kc cfg) (watch_servers n kc cfg)"

section \<open>The administration pod\<close>

definition holding_admin :: "'a fsm \<Rightarrow> 'a fsm" where
  "holding_admin p = seq (await Acquire_admin) (finally_do p (act (\<lambda>s. s\<lparr>admin_locked := False\<rparr>)))"

text \<open>
  Building the objects changes the mounts of the configuration, which the manager shares with the
  lab builder. \<open>ns\<close> is the namespace of the controller.
\<close>

definition admin_build :: "fsadmin_objects fsm" where
  "admin_build =
     bind (reading (\<lambda>s. build_fsadmin (admin_config s) (admin_lab s))) (\<lambda>(objs, adm, cfg).
     seq (act (\<lambda>s. s\<lparr>admin_config := adm, admin_lab := cfg\<rparr>)) (Ret objs))"

definition admin_timeout :: "timeout fsm" where
  "admin_timeout = bind (reading (\<lambda>s. adm_timeout (admin_config s))) start_timeout"

definition admin_status :: "string \<Rightarrow> timeout \<Rightarrow> datetime option fsm" where
  "admin_status ns t = bind (reading (\<lambda>s. adm_pod_name (admin_config s))) (\<lambda>pod. fsadmin_status ns pod t)"

definition admin_create :: "k_config \<Rightarrow> string \<Rightarrow> datetime option fsm" where
  "admin_create kc ns =
     bind admin_timeout (\<lambda>t.
     holding_admin
       (catch (admin_status ns t)
         (\<lambda>e. if e = K_pod_not_found \<or> (case e of K_invalid_phase p \<Rightarrow> True | _ \<Rightarrow> False) then
                bind admin_build (\<lambda>objs.
                bind (reading (\<lambda>s. adm_pod_name (admin_config s))) (\<lambda>pod.
                  fsadmin_create kc ns pod objs t))
              else Raise e)))"

definition admin_delete :: "k_config \<Rightarrow> string \<Rightarrow> unit fsm" where
  "admin_delete kc ns =
     bind admin_timeout (\<lambda>t. holding_admin (bind admin_build (\<lambda>objs. fsadmin_delete kc ns objs t)))"

definition admin_get_status :: "string \<Rightarrow> datetime option fsm" where
  "admin_get_status ns = bind admin_timeout (\<lambda>t. holding_admin (admin_status ns t))"

end
