(* ===== verification/Fileserver_Laws.thy ===== *)
theory Fileserver_Laws
  imports Fileserver_Service
begin

text \<open>
  The manager of file servers refines a set of users: what its operations promise.
\<close>

section \<open>Coroutines that assign nothing\<close>

primrec reads_only :: "('s, 'w, 'v, 'e, 'a) proc \<Rightarrow> bool" where
  "reads_only (Ret a) = True"
| "reads_only (Raise e) = True"
| "reads_only (Get k) = (\<forall>s. reads_only (k s))"
| "reads_only (Upd f p) = False"
| "reads_only (Await w k) = (\<forall>r. reads_only (k r))"

lemma reads_only_bind: "reads_only p \<Longrightarrow> (\<And>a. reads_only (f a)) \<Longrightarrow> reads_only (bind p f)"
  by (induction p) simp_all

lemma reads_only_try_else:
  "reads_only p \<Longrightarrow> (\<And>e. reads_only (h e)) \<Longrightarrow> (\<And>a. reads_only (f a)) \<Longrightarrow> reads_only (try_else p h f)"
  by (induction p) simp_all

lemma reads_only_catch: "reads_only p \<Longrightarrow> (\<And>e. reads_only (h e)) \<Longrightarrow> reads_only (catch p h)"
  by (induction p) simp_all

lemma reads_only_relabel: "reads_only p \<Longrightarrow> reads_only (relabel g p)"
  by (induction p) simp_all

lemma reads_only_Ret: "reads_only (Ret a)" and reads_only_Raise: "reads_only (Raise e)"
  and reads_only_reading: "reads_only (reading f)" and reads_only_await: "reads_only (await w)"
  by (simp_all add: reading_def await_def split: sum.split)

lemma reads_only_seq: "reads_only p \<Longrightarrow> reads_only q \<Longrightarrow> reads_only (seq p q)"
  unfolding seq_def by (rule reads_only_bind)

lemma reads_only_finally: "reads_only p \<Longrightarrow> reads_only q \<Longrightarrow> reads_only (finally_do p q)"
  unfolding finally_do_def by (intro reads_only_try_else reads_only_seq reads_only_Ret reads_only_Raise)

lemma reads_only_do_if: "reads_only p \<Longrightarrow> reads_only (do_if b p)"
  by (simp add: do_if_def)

lemma reads_only_for_each: "(\<And>x. reads_only (f x)) \<Longrightarrow> reads_only (for_each xs f)"
  by (induction xs) (simp_all add: reads_only_seq)

lemma reads_only_if: "(b \<Longrightarrow> reads_only p) \<Longrightarrow> (\<not> b \<Longrightarrow> reads_only q) \<Longrightarrow> reads_only (if b then p else q)"
  by simp

lemma reads_only_option:
  "reads_only p \<Longrightarrow> (\<And>x. reads_only (f x)) \<Longrightarrow> reads_only (case v of None \<Rightarrow> p | Some x \<Rightarrow> f x)"
  by (cases v) simp_all

lemma reads_only_or_raise: "reads_only (or_raise e x)"
  by (simp add: or_raise_def split: option.split)

lemma reads_only_enforce: "reads_only p \<Longrightarrow> reads_only (enforce_k t p)"
  unfolding enforce_k_def enforce_in_def
  by (intro reads_only_bind reads_only_reading reads_only_if reads_only_Raise reads_only_catch reads_only_relabel)

lemmas reads_only_intros = reads_only_Ret reads_only_Raise reads_only_reading reads_only_await reads_only_bind
  reads_only_try_else reads_only_catch reads_only_relabel reads_only_seq reads_only_finally reads_only_do_if
  reads_only_for_each reads_only_if reads_only_option reads_only_or_raise reads_only_enforce

lemma run_reads_only:
  "reads_only p \<Longrightarrow> (\<And>w s. P s \<Longrightarrow> P (fst (api w s))) \<Longrightarrow> P s \<Longrightarrow> P (fst (run p api s))"
  by (induction p arbitrary: s) simp_all

text \<open>The storage layer assigns nothing.\<close>

lemma reads_only_time:
  "reads_only (time_left t)" "reads_only (partial_timeout t d)" "reads_only (start_timeout d)" "reads_only (request q t)"
  by (auto simp: time_left_def partial_timeout_def start_timeout_def request_def intro!: reads_only_intros)

lemma reads_only_api: "reads_only p \<Longrightarrow> reads_only (api_errors p)" "reads_only p \<Longrightarrow> reads_only (api_missing x p)"
  by (auto simp: api_errors_def api_missing_def intro!: reads_only_intros split: k_exn.split)

lemma reads_only_answer:
  assumes "reads_only a" and "\<And>x. reads_only (f x)" and "\<And>xs. reads_only (g xs)" and "\<And>i. reads_only (h i)"
    and "\<And>r. reads_only (p r)" and "\<And>r. reads_only (q r)" and "\<And>r. reads_only (z r)"
  shows "reads_only (case v of K_none \<Rightarrow> a | K_object x \<Rightarrow> f x | K_objects xs \<Rightarrow> g xs | K_item i \<Rightarrow> h i
    | K_http r \<Rightarrow> p r | K_gar r \<Rightarrow> q r | K_digests r \<Rightarrow> z r)"
  using assms by (cases v) simp_all

lemma reads_only_objects:
  "reads_only (k_create kd ns ob t)" "reads_only (k_read kd n ns t)" "reads_only (k_list kd ns sel t)"
  unfolding k_create_def k_read_def k_list_def
  by (intro reads_only_intros reads_only_time reads_only_api reads_only_answer)+

lemma reads_only_watch_loop:
  "(\<And>ev. reads_only (body ev)) \<Longrightarrow> reads_only (watch_loop n r t body opened args)"
proof (induction n arbitrary: opened args)
  case (Suc n)
  note again = Suc.IH [OF Suc.prems]
  have "reads_only (limit_args r t args)"
    unfolding limit_args_def by (auto split: option.split intro!: reads_only_intros reads_only_time)
  with again Suc.prems show ?case
    by (auto intro!: reads_only_bind reads_only_try_else reads_only_await split: k_exn.split k_answer.split option.split)
qed simp

lemma reads_only_waits:
  "reads_only (wait_for kc kd n ns t good wanted rv)" "reads_only (wait_for_deletion kc kd n ns t)"
  "reads_only (custom_wait_for_deletion kc kd n ns t)"
proof -
  show *: "reads_only (wait_for kc kd n ns t good wanted rv)" for good wanted rv
    unfolding wait_for_def watching_def close_watch_def stop_if_def
    by (intro reads_only_bind reads_only_time reads_only_finally reads_only_catch reads_only_enforce
        reads_only_watch_loop reads_only_if reads_only_objects reads_only_await reads_only_Ret reads_only_Raise)
  show "reads_only (wait_for_deletion kc kd n ns t)" "reads_only (custom_wait_for_deletion kc kd n ns t)"
    unfolding wait_for_deletion_def custom_wait_for_deletion_def
    by (intro reads_only_bind reads_only_objects reads_only_option reads_only_if reads_only_Ret *)+
qed

lemma reads_only_delete:
  "reads_only (k_delete kc kd n ns t w p g)" "reads_only (custom_delete kc kd n ns t w)"
  unfolding k_delete_def custom_delete_def
  by (intro reads_only_bind reads_only_time reads_only_catch reads_only_enforce reads_only_await reads_only_do_if
      reads_only_waits reads_only_Ret; auto split: k_exn.split intro: reads_only_intros)+

lemma reads_only_replace:
  "reads_only (k_create_or_replace kc kd ns ob t r p)" "reads_only (custom_create kc kd ns ob t r)"
  unfolding k_create_or_replace_def custom_create_def
  by (intro reads_only_intros reads_only_objects reads_only_delete)+

lemma reads_only_pod_creation: "reads_only (wait_for_pod_creation n name ns t)"
  by (induction n) (auto simp: get_pod_for_job_def intro!: reads_only_intros reads_only_objects split: list.split)

lemma reads_only_fileserver:
  "reads_only (fileserver_create kc ns objs t)" "reads_only (fileserver_delete kc n ns u t)"
proof -
  have phase: "reads_only (wait_for_phase kc n ns t un)" for n un
    unfolding wait_for_phase_def watching_def close_watch_def phase_of_def
    by (intro reads_only_bind reads_only_objects reads_only_option reads_only_or_raise reads_only_if reads_only_finally
        reads_only_enforce reads_only_watch_loop reads_only_await reads_only_Ret; auto intro: reads_only_intros split: prod.split)
  have ip: "reads_only (wait_for_ip_address kc n ns t)" for n
    unfolding wait_for_ip_address_def watching_def close_watch_def stop_if_def
    by (intro reads_only_bind reads_only_objects reads_only_if reads_only_finally
        reads_only_enforce reads_only_watch_loop reads_only_await reads_only_Ret)
  show "reads_only (fileserver_create kc ns objs t)" "reads_only (fileserver_delete kc n ns u t)"
    unfolding fileserver_create_def fileserver_delete_def
    by (intro reads_only_seq reads_only_bind reads_only_for_each reads_only_replace reads_only_delete reads_only_waits
        reads_only_objects reads_only_pod_creation reads_only_Ret phase ip)+
qed

section \<open>The manager as a set of users\<close>

text \<open>
  The abstract state is the set of users whose file server runs. The world outside leaves the
  objects of the manager alone, apart from locks.
\<close>

definition running_users :: "manager \<Rightarrow> string set" where
  "running_users s = {u. fs_is_running u s}"

definition idle_servers :: "manager \<Rightarrow> bool" where
  "idle_servers s \<longleftrightarrow> (\<forall>i. \<not> fs_in_progress (server_objs s i))"

definition servers_ok :: "manager \<Rightarrow> bool" where
  "servers_ok s \<longleftrightarrow> dict_ok (servers s) \<and> (\<forall>u i. map_of (servers s) u = Some i \<longrightarrow> i < next_server s) \<and>
     (\<forall>u v i. map_of (servers s) u = Some i \<longrightarrow> map_of (servers s) v = Some i \<longrightarrow> u = v)"

definition view :: "manager \<Rightarrow> (string, server_id) dict \<times> server_id \<times> (server_id \<Rightarrow> bool)" where
  "view s = (servers s, next_server s, \<lambda>i. fs_running (server_objs s i))"

definition progress :: "manager \<Rightarrow> server_id \<Rightarrow> bool" where
  "progress s = (\<lambda>i. fs_in_progress (server_objs s i))"

definition outside :: "(manager, k_wait, k_answer, k_exn) env \<Rightarrow> bool" where
  "outside api \<longleftrightarrow> (\<forall>w s. view (fst (api w s)) = view s \<and> progress (fst (api w s)) = progress s)"

lemma view_facts:
  assumes "view s' = view s"
  shows "running_users s' = running_users s" and "servers_ok s' = servers_ok s"
  using assms by (auto simp: view_def running_users_def fs_is_running_def servers_ok_def fun_eq_iff split: option.splits)

lemma quiet_view:
  assumes "outside api" and "reads_only p" and "run p api s = (s', r)"
  shows "view s' = view s \<and> progress s' = progress s"
  using run_reads_only [OF assms(2), of "\<lambda>x. view x = view s \<and> progress x = progress s" api s] assms(1,3)
  by (simp add: outside_def)

lemma view_upd:
  "view (upd_server i (\<lambda>x. x\<lparr>fs_locked := b\<rparr>) s) = view s"
  "view (upd_server i (\<lambda>x. x\<lparr>fs_in_progress := b, fs_last_modified := d\<rparr>) s) = view s"
  "progress (upd_server i (\<lambda>x. x\<lparr>fs_locked := b\<rparr>) s) = progress s"
  "progress (upd_server i (\<lambda>x. x\<lparr>fs_running := b\<rparr>) s) = progress s"
  "progress (upd_server i (\<lambda>x. x\<lparr>fs_in_progress := b, fs_last_modified := d\<rparr>) s) = (progress s)(i := b)"
  "view (upd_server i (\<lambda>x. x\<lparr>fs_running := b\<rparr>) s) = (case view s of (m, n, r) \<Rightarrow> (m, n, r(i := b)))"
  by (auto simp: view_def progress_def upd_server_def fun_eq_iff)

lemma run_mark: "run (mark_progress i b) api s =
    (upd_server i (\<lambda>x. x\<lparr>fs_in_progress := b, fs_last_modified := k_clock s\<rparr>) s, Inr ())"
  by (simp add: mark_progress_def run_simps)

text \<open>A block under the lock of a server runs between two states that differ from the outer ones in locks only.\<close>

lemma run_holding:
  assumes "outside api" and "run (holding i p) api s = (s', r)"
  obtains (failed) e where "r = Inl e" "view s' = view s" "progress s' = progress s"
    | (held) s1 s2 where "run p api s1 = (s2, r)" "view s1 = view s" "progress s1 = progress s"
        "view s' = view s2" "progress s' = progress s2"
proof -
  obtain s1 x where x: "api (Acquire i) s = (s1, x)" by fastforce
  with assms(1) have v: "view s1 = view s" "progress s1 = progress s"
    unfolding outside_def by (metis fst_conv)+
  show thesis
  proof (cases x)
    case (Inl e)
    with x assms(2) v show ?thesis by (intro failed [of e]) (auto simp: holding_def run_simps)
  next
    case (Inr a)
    obtain s2 r2 where p: "run p api s1 = (s2, r2)" by fastforce
    with x assms(2) Inr have "s' = upd_server i (\<lambda>x. x\<lparr>fs_locked := False\<rparr>) s2" "r = r2"
      by (auto simp: holding_def run_simps)
    with p v show ?thesis by (intro held [of s1 s2]) (simp_all add: view_upd)
  qed
qed

lemma reads_only_delete_file_server: "reads_only (delete_file_server kc cfg u)"
  unfolding delete_file_server_def post_exception_def
  by (intro reads_only_bind reads_only_time reads_only_catch reads_only_enforce reads_only_fileserver reads_only_if
      reads_only_seq reads_only_await reads_only_Ret reads_only_Raise)

lemma run_finally_mark:
  "run (finally_do p (mark_progress i b)) api s =
     (case run p api s of (s', r) \<Rightarrow> (upd_server i (\<lambda>x. x\<lparr>fs_in_progress := b, fs_last_modified := k_clock s'\<rparr>) s', r))"
  by (simp add: run_finally run_mark split: prod.split)

lemma server_running: "map_of (servers s) u = Some i \<Longrightarrow> u \<in> running_users s \<longleftrightarrow> fs_running (server_objs s i)"
  by (simp add: running_users_def fs_is_running_def)

lemma running_upd:
  assumes "view s' = (case view s of (m, n, r) \<Rightarrow> (m, n, r(i := b)))" and "servers_ok s" and "map_of (servers s) u = Some i"
  shows "running_users s' = (if b then insert u (running_users s) else running_users s - {u}) \<and> servers_ok s'"
proof -
  have s': "servers s' = servers s" "next_server s' = next_server s"
    "\<And>j. fs_running (server_objs s' j) = (if j = i then b else fs_running (server_objs s j))"
    using assms(1) by (auto simp: view_def fun_eq_iff)
  have "map_of (servers s) v = Some i \<Longrightarrow> v = u" for v using assms(2,3) by (auto simp: servers_ok_def)
  with s' assms show ?thesis
    by (auto simp: running_users_def fs_is_running_def servers_ok_def split: option.splits)
qed

lemma run_marked:
  assumes "run (seq (mark_progress i True) (finally_do p (mark_progress i False))) api s = (s', r)"
  obtains s1 s2 where "run p api s1 = (s2, r)" "view s1 = view s" "progress s1 = (progress s)(i := True)"
    "view s' = view s2" "progress s' = (progress s2)(i := False)"
proof -
  let ?s1 = "upd_server i (\<lambda>x. x\<lparr>fs_in_progress := True, fs_last_modified := k_clock s\<rparr>) s"
  obtain s2 r2 where p: "run p api ?s1 = (s2, r2)" by fastforce
  with assms have "s' = upd_server i (\<lambda>x. x\<lparr>fs_in_progress := False, fs_last_modified := k_clock s2\<rparr>) s2" "r2 = r"
    by (simp_all add: run_seq run_mark run_finally_mark)
  with p that [of ?s1 s2] show thesis by (simp add: view_upd)
qed

text \<open>What an operation does to one server: \<open>b\<close> when it succeeds, nothing when it fails.\<close>

definition sets_server :: "server_id \<Rightarrow> bool \<Rightarrow> manager \<Rightarrow> manager \<Rightarrow> k_exn + unit \<Rightarrow> bool" where
  "sets_server i b s s' r \<longleftrightarrow>
     view s' = (case r of Inl e \<Rightarrow> view s | Inr _ \<Rightarrow> (case view s of (m, n, ru) \<Rightarrow> (m, n, ru(i := b)))) \<and>
     progress s' = progress s"

lemma run_quiet_act:
  assumes "outside api" and "reads_only q"
    and "run (seq q (act (upd_server i (\<lambda>x. x\<lparr>fs_running := b\<rparr>)))) api s = (s', r)"
  shows "sets_server i b s s' r"
proof -
  obtain s2 r2 where q: "run q api s = (s2, r2)" by fastforce
  from quiet_view [OF assms(1,2) this] assms(3) q show ?thesis
    by (cases r2) (auto simp: sets_server_def run_seq run_act view_upd)
qed

lemma run_marked_sets:
  assumes "\<And>s s'. run p api s = (s', r) \<Longrightarrow> sets_server i b s s' r"
    and "run (seq (mark_progress i True) (finally_do p (mark_progress i False))) api s = (s', r)" and "progress s = (\<lambda>_. False)"
  shows "sets_server i b s s' r"
  using assms(2)
proof (rule run_marked)
  fix s1 s2
  assume "run p api s1 = (s2, r)" and v: "view s1 = view s" "progress s1 = (progress s)(i := True)"
    "view s' = view s2" "progress s' = (progress s2)(i := False)"
  from assms(1) [OF this(1)] v assms(3) show ?thesis
    by (auto simp: sets_server_def fun_eq_iff split: sum.splits)
qed

lemma sets_server_result:
  assumes "sets_server i b s s' r" and "servers_ok s" and "map_of (servers s) u = Some i"
  shows "servers_ok s' \<and> running_users s' = (case r of Inl e \<Rightarrow> running_users s
    | Inr _ \<Rightarrow> if b then insert u (running_users s) else running_users s - {u})"
proof (cases r)
  case (Inl e)
  with assms view_facts [of s' s] show ?thesis by (simp add: sets_server_def)
next
  case (Inr x)
  with assms(1) have "view s' = (case view s of (m, n, ru) \<Rightarrow> (m, n, ru(i := b)))" by (simp add: sets_server_def)
  from running_upd [OF this assms(2,3)] Inr show ?thesis by simp
qed

lemma idle_progress: "idle_servers s \<longleftrightarrow> progress s = (\<lambda>_. False)"
  by (auto simp: idle_servers_def progress_def fun_eq_iff)

lemma fs_delete_result:
  assumes api: "outside api" and ok: "servers_ok s" and idle: "idle_servers s" and run: "run (fs_delete kc cfg u) api s = (s', r)"
  shows "servers_ok s' \<and> idle_servers s' \<and> (case r of Inr _ \<Rightarrow> u \<in> running_users s \<and> running_users s' = running_users s - {u}
    | Inl e \<Rightarrow> running_users s' = running_users s)"
proof (cases "map_of (servers s) u")
  case None
  with run ok idle show ?thesis by (auto simp: fs_delete_def run_simps)
next
  case (Some i)
  let ?del = "seq (delete_file_server kc cfg u) (act (upd_server i (\<lambda>x. x\<lparr>fs_running := False\<rparr>)))"
  let ?p = "bind (reading (\<lambda>s. fs_running (server_objs s i))) (\<lambda>r.
      if \<not> r then Raise K_unknown_user
      else seq (mark_progress i True) (finally_do ?del (mark_progress i False)))"
  have "run (holding i ?p) api s = (s', r)" using run Some by (simp add: fs_delete_def run_bind run_reading)
  from api this show ?thesis
  proof (cases rule: run_holding)
    case (failed e)
    with view_facts [OF failed(2)] ok idle show ?thesis by (simp add: idle_progress)
  next
    case (held s1 s2)
    note v1 = view_facts [OF held(2)] and v' = view_facts [OF held(4)]
    have m1: "map_of (servers s1) u = Some i" using held(2) Some by (simp add: view_def)
    have idle1: "progress s1 = (\<lambda>_. False)" using held(3) idle by (simp add: idle_progress)
    show ?thesis
    proof (cases "fs_running (server_objs s1 i)")
      case False
      with held(1) have "s2 = s1" "r = Inl K_unknown_user" by (auto simp: run_bind run_reading)
      with v1 v' ok idle1 held(5) show ?thesis by (simp add: idle_progress)
    next
      case True
      with held(1) have "run (seq (mark_progress i True) (finally_do ?del (mark_progress i False))) api s1 = (s2, r)"
        by (simp add: run_bind run_reading)
      from run_marked_sets [OF run_quiet_act [OF api reads_only_delete_file_server] this idle1]
      have "sets_server i False s1 s2 r" .
      with sets_server_result [OF this _ m1] v1 v' ok idle1 held(5) server_running [OF m1] True show ?thesis
        by (auto simp: idle_progress sets_server_def split: sum.splits)
    qed
  qed
qed

lemma mark_first:
  "finally_do (try_else (seq (mark_progress i True) q) h f) r = seq (mark_progress i True) (finally_do (try_else q h f) r)"
  by (simp add: mark_progress_def act_def seq_def finally_do_def)

lemma run_then_raise: "run (seq p (seq q (Raise e))) api s = (s', r) \<Longrightarrow> \<exists>e. r = Inl e"
  by (auto simp: run_seq split: prod.splits sum.splits)

lemma run_create_block:
  assumes api: "outside api"
    and run: "run (try_else (enforce_k t (create_file_server kc cfg g t))
      (\<lambda>e. if is_exn e then seq (post_exception e) (seq (delete_file_server kc cfg u) (Raise e)) else Raise e)
      (\<lambda>_. act (upd_server i (\<lambda>x. x\<lparr>fs_running := True\<rparr>)))) api s = (s', r)"
  shows "sets_server i True s s' r"
proof -
  have "reads_only (enforce_k t (create_file_server kc cfg g t))"
    unfolding create_file_server_def by (intro reads_only_enforce reads_only_fileserver)
  note create = quiet_view [OF api this]
  obtain s2 r2 where q: "run (enforce_k t (create_file_server kc cfg g t)) api s = (s2, r2)" by fastforce
  show ?thesis
  proof (cases r2)
    case (Inr x)
    with run q create [OF q] show ?thesis by (auto simp: sets_server_def run_try_else run_act view_upd)
  next
    case (Inl e)
    let ?h = "seq (post_exception e) (seq (delete_file_server kc cfg u) (Raise e))"
    from run q Inl have h: "run (if is_exn e then ?h else Raise e) api s2 = (s', r)"
      by (simp add: run_try_else split: if_splits)
    have "reads_only (if is_exn e then ?h else Raise e)"
      unfolding post_exception_def
      by (intro reads_only_if reads_only_seq reads_only_bind reads_only_await reads_only_Ret reads_only_Raise
          reads_only_delete_file_server)
    from quiet_view [OF api this h] create [OF q] have "view s' = view s" "progress s' = progress s" by simp_all
    moreover have "\<exists>e. r = Inl e"
      using h run_then_raise by (cases "is_exn e") auto
    ultimately show ?thesis by (auto simp: sets_server_def)
  qed
qed

lemma new_server_ok:
  assumes "servers_ok s" and "map_of (servers s) u = None"
  shows "servers_ok (new_server u False s)" and "running_users (new_server u False s) = running_users s"
    and "progress s = (\<lambda>_. False) \<Longrightarrow> progress (new_server u False s) = (\<lambda>_. False)"
    and "map_of (servers (new_server u False s)) u = Some (next_server s)"
proof -
  have fresh: "map_of (servers s) v = Some i \<Longrightarrow> i \<noteq> next_server s" for v i
    using assms(1) by (auto simp: servers_ok_def)
  show "servers_ok (new_server u False s)"
    using assms by (auto simp: servers_ok_def new_server_def less_SucI split: if_splits)
  show "running_users (new_server u False s) = running_users s"
    using assms(2) fresh by (auto simp: running_users_def fs_is_running_def new_server_def split: option.splits if_splits)
qed (auto simp: progress_def new_server_def fun_eq_iff)

lemma fs_create_result:
  assumes api: "outside api" and ok: "servers_ok s" and idle: "idle_servers s" and run: "run (fs_create kc cfg g) api s = (s', r)"
  shows "servers_ok s' \<and> idle_servers s' \<and> (case r of Inr _ \<Rightarrow> running_users s' = insert (g_username g) (running_users s)
    | Inl e \<Rightarrow> running_users s' = running_users s)"
proof -
  let ?u = "g_username g"
  define s0 where "s0 = (if map_of (servers s) ?u = None then new_server ?u False s else s)"
  define i where "i = server_of ?u s0"
  let ?t = "new_timeout_at (fs_creation_timeout cfg) (k_clock s0)"
  let ?attempt = "try_else (enforce_k ?t (create_file_server kc cfg g ?t))
      (\<lambda>e. if is_exn e then seq (post_exception e) (seq (delete_file_server kc cfg ?u) (Raise e)) else Raise e)
      (\<lambda>_. act (upd_server i (\<lambda>x. x\<lparr>fs_running := True\<rparr>)))"
  let ?p = "bind (reading (\<lambda>s. fs_running (server_objs s i))) (\<lambda>r. if r then Ret ()
      else seq (mark_progress i True) (finally_do ?attempt (mark_progress i False)))"
  have s0: "servers_ok s0" "running_users s0 = running_users s" "progress s0 = (\<lambda>_. False)" "map_of (servers s0) ?u = Some i"
    using new_server_ok [OF ok] idle ok by (auto simp: s0_def i_def server_of_def idle_progress)
  have "run (holding i ?p) api s0 = (s', r)"
    using run unfolding fs_create_def mark_first
    by (simp add: run_seq run_act run_bind run_reading start_timeout_def s0_def [symmetric] i_def [symmetric])
  from api this show ?thesis
  proof (cases rule: run_holding)
    case (failed e)
    with view_facts [OF failed(2)] s0 show ?thesis by (simp add: idle_progress)
  next
    case (held s1 s2)
    note v1 = view_facts [OF held(2)] and v' = view_facts [OF held(4)]
    have m1: "map_of (servers s1) ?u = Some i" using held(2) s0 by (simp add: view_def)
    have idle1: "progress s1 = (\<lambda>_. False)" using held(3) s0 by simp
    show ?thesis
    proof (cases "fs_running (server_objs s1 i)")
      case True
      with held(1) have "s2 = s1" "r = Inr ()" by (auto simp: run_bind run_reading)
      with v1 v' s0 idle1 held(5) server_running [OF m1] True show ?thesis by (auto simp: idle_progress)
    next
      case False
      with held(1) have "run (seq (mark_progress i True) (finally_do ?attempt (mark_progress i False))) api s1 = (s2, r)"
        by (simp add: run_bind run_reading)
      from run_marked_sets [OF run_create_block [OF api] this idle1] have "sets_server i True s1 s2 r" .
      with sets_server_result [OF this _ m1] v1 v' s0 idle1 held(5) show ?thesis
        by (auto simp: idle_progress sets_server_def split: sum.splits)
    qed
  qed
qed

text \<open>
  Requests served one after the other, with their results; the abstract state after them is the set
  that the successful ones give.
\<close>

datatype fs_request = Create_server gafaelfawr_user | Delete_server string

definition fs_handle :: "k_config \<Rightarrow> fileserver_config \<Rightarrow> fs_request \<Rightarrow> unit fsm" where
  "fs_handle kc cfg q = (case q of Create_server g \<Rightarrow> fs_create kc cfg g | Delete_server u \<Rightarrow> fs_delete kc cfg u)"

fun fs_serve :: "k_config \<Rightarrow> fileserver_config \<Rightarrow> (manager, k_wait, k_answer, k_exn) env \<Rightarrow> fs_request list \<Rightarrow> manager
    \<Rightarrow> manager \<times> (fs_request \<times> (k_exn + unit)) list" where
  "fs_serve kc cfg api [] s = (s, [])"
| "fs_serve kc cfg api (q # qs) s =
     (case run (fs_handle kc cfg q) api s of (s1, r) \<Rightarrow>
      case fs_serve kc cfg api qs s1 of (s2, rs) \<Rightarrow> (s2, (q, r) # rs))"

fun abstract_fs :: "(fs_request \<times> (k_exn + unit)) list \<Rightarrow> string set \<Rightarrow> string set option" where
  "abstract_fs [] R = Some R"
| "abstract_fs ((q, Inl e) # rs) R = abstract_fs rs R"
| "abstract_fs ((Create_server g, Inr _) # rs) R = abstract_fs rs (insert (g_username g) R)"
| "abstract_fs ((Delete_server u, Inr _) # rs) R = (if u \<in> R then abstract_fs rs (R - {u}) else None)"

text \<open>C6: The manager of file servers refines a set of users: after any sequence of
  creations and deletions, whatever the Kubernetes API answers, the users whose file server runs
  are those that the successful requests give (a failed one changes nothing, a deletion succeeds
  only for a running file server), and no server is left with an operation in progress.\<close>

theorem fileservers_refine_set:
  assumes "outside api" and "servers_ok s" and "idle_servers s" and "fs_serve kc cfg api qs s = (s', rs)"
  shows "abstract_fs rs (running_users s) = Some (running_users s') \<and> servers_ok s' \<and> idle_servers s'"
  using assms(2-4)
proof (induction qs arbitrary: s rs)
  case Nil
  then show ?case by simp
next
  case (Cons q qs)
  obtain s1 r where r: "run (fs_handle kc cfg q) api s = (s1, r)" by fastforce
  from r Cons.prems(3) obtain rs2 where rest: "fs_serve kc cfg api qs s1 = (s', rs2)" and eq: "rs = (q, r) # rs2"
    by (auto split: prod.splits)
  show ?case
  proof (cases q)
    case (Create_server g)
    with fs_create_result [OF assms(1) Cons.prems(1,2)] r have "servers_ok s1" "idle_servers s1"
      and "case r of Inr _ \<Rightarrow> running_users s1 = insert (g_username g) (running_users s) | Inl e \<Rightarrow> running_users s1 = running_users s"
      by (simp_all add: fs_handle_def)
    with Cons.IH [OF this(1,2) rest] Create_server eq show ?thesis by (cases r) simp_all
  next
    case (Delete_server u)
    with fs_delete_result [OF assms(1) Cons.prems(1,2)] r have "servers_ok s1" "idle_servers s1"
      and "case r of Inr _ \<Rightarrow> u \<in> running_users s \<and> running_users s1 = running_users s - {u} | Inl e \<Rightarrow> running_users s1 = running_users s"
      by (simp_all add: fs_handle_def)
    with Cons.IH [OF this(1,2) rest] Delete_server eq show ?thesis by (cases r) simp_all
  qed
qed

lemma fs_list_users: "servers_ok s \<Longrightarrow> run fs_list api s = (s', r) \<Longrightarrow> \<exists>us. r = Inr us \<and> set us = running_users s \<and> s' = s"
  unfolding fs_list_def run_reading running_users_def fs_is_running_def servers_ok_def
  by (auto simp: dict_ok_in_iff split: option.splits) (force simp: dict_ok_in_iff)+

section \<open>Reconciliation during a creation\<close>

text \<open>
  A creation goes on with the object it found, but a reconciliation that sees its file server running
  enters a new object for the user: unlocked, with no operation in progress.
\<close>

lemma sort_seen_keeps:
  assumes "run (sort_seen known seen bad odd1) api s = (s', r)" and "u \<notin> set (dkeys seen)"
  shows "map_of (servers s') u = map_of (servers s) u \<and> next_server s \<le> next_server s' \<and>
    (\<forall>i < next_server s. server_objs s' i = server_objs s i)"
  using assms
proof (induction known seen bad odd1 arbitrary: s rule: sort_seen.induct)
  case (1 known bad odd1)
  then show ?case by simp
next
  case (2 known v x seen bad odd1)
  show ?case
  proof (cases "is_valid (fs_objects_of x)")
    case True
    let ?s = "if v \<in> set known then s else new_server v True s"
    have "run (sort_seen known seen bad odd1) api ?s = (s', r)"
      using 2(4) True by (simp add: run_seq run_do_if run_act split: if_splits)
    from 2(1) [OF True this] 2(5) show ?thesis by (auto simp: new_server_def split: if_splits)
  next
    case False
    with 2(2,3) [OF False] 2(4,5) show ?thesis
      by (auto simp: run_bind run_reading split: if_splits)
  qed
qed

text \<open>C40: A reconciliation that sees a valid file server of a user whose creation has not
  finished replaces the state of the user by a new one, which is not locked and has no operation
  in progress, although the creation goes on with the old one.\<close>

theorem reconcile_forgets_creation:
  assumes "run (sort_seen known seen [] []) api s = (s', r)" and "dict_ok seen" and "(u, x) \<in> set seen"
    and "is_valid (fs_objects_of x)" and "u \<notin> set known" and "map_of (servers s) u = Some i" and "servers_ok s"
  shows "\<exists>j. map_of (servers s') u = Some j \<and> j \<noteq> i \<and> \<not> fs_locked (server_objs s' j) \<and> \<not> fs_in_progress (server_objs s' j)"
proof -
  have "\<exists>j. map_of (servers s') u = Some j \<and> j \<noteq> i \<and> \<not> fs_locked (server_objs s' j) \<and> \<not> fs_in_progress (server_objs s' j)"
    if "run (sort_seen known seen bad odd1) api s = (s', r)" "dict_ok seen" "(u, x) \<in> set seen" "i < next_server s" "u \<notin> set known"
    for bad odd1
    using that
  proof (induction known seen bad odd1 arbitrary: s rule: sort_seen.induct)
    case (1 known bad odd1)
    then show ?case by simp
  next
    case (2 known v y seen bad odd1)
    show ?case
    proof (cases "v = u")
      case True
      with 2(5,6) have y: "y = x" "u \<notin> set (dkeys seen)" by (force simp: dict_ok_def)+
      from assms(4) 2(8) True y 2(4) have "run (sort_seen known seen bad odd1) api (new_server u True s) = (s', r)"
        by (simp add: run_seq run_do_if run_act split: if_splits)
      from sort_seen_keeps [OF this y(2)] 2(7) show ?thesis by (simp add: new_server_def)
    next
      case False
      with 2(5,6) have seen: "dict_ok seen" "(u, x) \<in> set seen" by (auto simp: dict_ok_def)
      show ?thesis
      proof (cases "is_valid (fs_objects_of y)")
        case valid: True
        let ?s = "if v \<in> set known then s else new_server v True s"
        have "run (sort_seen known seen bad odd1) api ?s = (s', r)"
          using 2(4) valid by (simp add: run_seq run_do_if run_act split: if_splits)
        from 2(1) [OF valid this seen] 2(7,8) show ?thesis by (simp add: new_server_def split: if_splits)
      next
        case invalid: False
        with 2(2,3) [OF invalid] 2(4) seen 2(7,8) show ?thesis by (auto simp: run_bind run_reading split: if_splits)
      qed
    qed
  qed
  with assms show ?thesis by (auto simp: servers_ok_def)
qed

section \<open>Examples\<close>

definition ready_object :: "string \<Rightarrow> stored" where
  "ready_object n =
     \<lparr>so_name = n, so_labels = None, so_version = None, so_phase = Some ''Running'', so_start_time = None,
      so_load_balancer = Some [Some ''192.0.2.1''], so_message = [], so_body = O_other\<rparr>"

fun example_answer :: "k_call option \<Rightarrow> k_exn + k_answer" where
  "example_answer (Some (Read kd ns n)) = Inr (K_object (ready_object n))"
| "example_answer (Some (List kd ns sel)) = Inr (K_objects [ready_object ''pod''])"
| "example_answer (Some (Watch_open a)) = Inr (K_item (Some (Event_item ''DELETED'' True (ready_object []))))"
| "example_answer q = Inr K_none"

primrec inner_call :: "k_wait \<Rightarrow> k_call option" where
  "inner_call (Request q l) = Some q"
| "inner_call (Sleep d) = None"
| "inner_call (Acquire i) = None"
| "inner_call Acquire_admin = None"
| "inner_call (Post_exception e) = None"
| "inner_call (Timed_k d w) = inner_call w"

definition example_world :: "(manager, k_wait, k_answer, k_exn) env" where
  "example_world w s =
     (case w of Acquire i \<Rightarrow> (upd_server i (\<lambda>x. x\<lparr>fs_locked := True\<rparr>) s, Inr K_none)
      | _ \<Rightarrow> (s\<lparr>k_clock := k_clock s + 1\<rparr>, example_answer (inner_call w)))"

definition example_servers :: "fsadmin_config \<Rightarrow> lab_config \<Rightarrow> (string \<times> server_id) list \<Rightarrow> fs_server \<Rightarrow> manager" where
  "example_servers adm cfg m x =
     \<lparr>k_clock = 0, servers = m, server_objs = (\<lambda>_. x), next_server = length m, admin_locked = False,
      admin_config = adm, admin_lab = cfg\<rparr>"

definition idle_server :: fs_server where
  "idle_server = \<lparr>fs_running = False, fs_locked = False, fs_in_progress = False, fs_last_modified = 0\<rparr>"

definition example_storage :: k_config where
  "example_storage = \<lparr>reconnect_timeout = seconds 60, loop_bound = 3\<rparr>"

definition example_files :: fileserver_config where
  "example_files =
     \<lparr>fs_scheduling = \<lparr>sch_affinity = None, sch_node_selector = [], sch_tolerations = []\<rparr>, fs_application = None,
      fs_creation_timeout = seconds 120, fs_delete_timeout = seconds 60, fs_extra_annotations = [],
      fs_idle_timeout = seconds 3600, fs_namespace = ''files'', fs_path_prefix = ''/files'', fs_resources = None,
      fs_volume_mounts = [], fs_base_url = ''https://data.example.org'', fs_base_host = None,
      fs_volumes = [],
      fs_container = \<lparr>img_repository = ''worblehat'', img_pull_policy = IfNotPresent, img_tag = ''1.0''\<rparr>,
      fs_show_float = unary_show\<rparr>"

definition example_history :: "fsadmin_config \<Rightarrow> lab_config \<Rightarrow> manager \<times> (fs_request \<times> (k_exn + unit)) list" where
  "example_history adm cfg = fs_serve example_storage example_files example_world
     [Delete_server ''rachel'', Delete_server ''rachel''] (example_servers adm cfg [(''rachel'', 0)] (idle_server\<lparr>fs_running := True\<rparr>))"

lemma example_history_results:
  "map snd (snd (example_history adm cfg)) = [Inr (), Inl K_unknown_user]"
  by code_simp

lemma example_outside: "outside example_world"
  by (auto simp: outside_def example_world_def view_upd view_def progress_def upd_server_def split: k_wait.split)

lemma fileservers_refine_set_witness:
  "abstract_fs (snd (example_history example_fsadmin example_config)) (running_users (example_servers example_fsadmin example_config [(''rachel'', 0)] (idle_server\<lparr>fs_running := True\<rparr>))) = Some (running_users (fst (example_history example_fsadmin example_config))) \<and>
   servers_ok (fst (example_history example_fsadmin example_config)) \<and> idle_servers (fst (example_history example_fsadmin example_config))"
proof (rule fileservers_refine_set [OF example_outside])
  show "fs_serve example_storage example_files example_world
      [Delete_server ''rachel'', Delete_server ''rachel'']
      (example_servers example_fsadmin example_config [(''rachel'', 0)] (idle_server\<lparr>fs_running := True\<rparr>)) = (fst (example_history example_fsadmin example_config), snd (example_history example_fsadmin example_config))"
    by (simp add: example_history_def)
qed (simp_all add: servers_ok_def idle_servers_def example_servers_def idle_server_def dict_ok_def)

definition creating :: fs_server where
  "creating = \<lparr>fs_running = False, fs_locked = True, fs_in_progress = True, fs_last_modified = 0\<rparr>"

definition example_sorted :: "manager \<times> (k_exn + string list \<times> string list)" where
  "example_sorted = run (sort_seen [] [(''rachel'', \<lparr>seen_job = ''rachel-fs'', seen_pod = Some (ready_object ''pod''),
     seen_ingress = Some (ready_object ''rachel-fs'')\<rparr>)] [] []) example_world (example_servers example_fsadmin example_config [(''rachel'', 0)] creating)"

lemma reconcile_forgets_creation_witness:
  "\<exists>j. map_of (servers (fst example_sorted)) ''rachel'' = Some j \<and> j \<noteq> 0 \<and>
     \<not> fs_locked (server_objs (fst example_sorted) j) \<and> \<not> fs_in_progress (server_objs (fst example_sorted) j)"
proof (rule reconcile_forgets_creation)
  show "run (sort_seen [] [(''rachel'', \<lparr>seen_job = ''rachel-fs'', seen_pod = Some (ready_object ''pod''),
     seen_ingress = Some (ready_object ''rachel-fs'')\<rparr>)] [] []) example_world (example_servers example_fsadmin example_config [(''rachel'', 0)] creating) =
     (fst example_sorted, snd example_sorted)"
    by (simp add: example_sorted_def)
  show "is_valid (fs_objects_of \<lparr>seen_job = ''rachel-fs'', seen_pod = Some (ready_object ''pod''),
     seen_ingress = Some (ready_object ''rachel-fs'')\<rparr>)"
    by (simp add: is_valid_def fs_objects_of_def ready_object_def ingress_has_ip_address_def nonempty_def)
  show "servers_ok (example_servers example_fsadmin example_config [(''rachel'', 0)] creating)"
    by (simp add: servers_ok_def example_servers_def dict_ok_def)
qed (simp_all add: dict_ok_def example_servers_def)

end
