(* ===== verification/Purger.thy ===== *)
theory Purger
  imports Py_Datetime Kube_Models
begin

text \<open>
  The scratch purger, \<open>src/src/nublado/purger\<close>: \<open>purger.py\<close> with the policy and the plan of
  \<open>models/v1/policy.py\<close> and \<open>models/plan.py\<close>. A path is the list of its components from the root.
  The file system is a tree; what its owner forbids (status, unlinking, reading a directory, removing
  one) is part of it or a parameter. A symbolic link is a leaf of the tree, which is how the walk and the
  removals take it; that a directory of the policy is itself a link, or lies below one, is not modelled:
  \<open>walk\<close> would follow it there, here nothing is found. Logging is left out.
\<close>

section \<open>The file system\<close>

type_synonym path = "string list"

record file_stat =
  st_size :: int
  st_atime :: datetime
  st_ctime :: datetime
  st_mtime :: datetime

text \<open>\<open>stat\<close> of a regular file gives a status, or fails because the file has vanished or access is denied.\<close>

datatype stat_answer = Stat file_stat | Vanished | Denied

datatype entry = File stat_answer | Link | Dir bool "(string \<times> entry) list"

primrec is_dir :: "entry \<Rightarrow> bool" where
  "is_dir (File a) = False"
| "is_dir Link = False"
| "is_dir (Dir readable es) = True"

fun lookup :: "entry \<Rightarrow> path \<Rightarrow> entry option" where
  "lookup t [] = Some t"
| "lookup (Dir readable es) (n # p) = (case map_of es n of None \<Rightarrow> None | Some t \<Rightarrow> lookup t p)"
| "lookup t (n # p) = None"

fun remove :: "path \<Rightarrow> entry \<Rightarrow> entry" where
  "remove [n] (Dir readable es) = Dir readable (filter (\<lambda>(m, t). m \<noteq> n) es)"
| "remove (n # p) (Dir readable es) = Dir readable (map (\<lambda>(m, t). (m, if m = n then remove p t else t)) es)"
| "remove p t = t"

text \<open>\<open>Path.walk\<close>, top down. An unreadable directory is passed over; links are not followed.\<close>

fun walk :: "path \<Rightarrow> entry \<Rightarrow> (path \<times> string list \<times> string list) list" where
  "walk p (Dir readable es) =
     (if readable then
        (p, map fst (filter (\<lambda>(n, t). is_dir t) es), map fst (filter (\<lambda>(n, t). \<not> is_dir t) es)) #
        concat (map (\<lambda>(n, t). walk (p @ [n]) t) es)
      else [])"
| "walk p t = []"

definition walk_from :: "entry \<Rightarrow> path \<Rightarrow> (path \<times> string list \<times> string list) list" where
  "walk_from fs p = (case lookup fs p of None \<Rightarrow> [] | Some t \<Rightarrow> walk p t)"

text \<open>\<open>str(path)\<close>\<close>

definition path_str :: "path \<Rightarrow> string" where
  "path_str p = (if p = [] then ''/'' else concat (map (\<lambda>n. ''/'' @ n) p))"

section \<open>Policies and plans\<close>

record intervals =
  access_interval :: "timedelta option"
  creation_interval :: "timedelta option"
  modification_interval :: "timedelta option"

record directory_policy =
  dp_path :: path
  dp_threshold :: int
  dp_large :: intervals
  dp_small :: intervals

type_synonym policy = "directory_policy list"

definition get_directories :: "policy \<Rightarrow> path list" where
  "get_directories pol = sort_by (\<lambda>a b. length (path_str a) < length (path_str b)) (map dp_path pol)"

datatype file_class = LARGE_FILE | SMALL_FILE

datatype file_reason = ATIME | CTIME | MTIME

record file_record =
  fr_path :: path
  fr_class :: file_class
  fr_reason :: file_reason
  fr_interval :: timedelta
  fr_criterion :: timedelta

record plan =
  pl_directories :: "path list"
  pl_files :: "file_record list"

datatype purge_error = Unbound_status | No_policy | Plan_not_ready | Is_a_directory | Purge_failed "path list"

definition get_directory_policy :: "path \<Rightarrow> policy \<Rightarrow> (purge_error, directory_policy) result" where
  "get_directory_policy p pol = (case find (\<lambda>d. dp_path d = p) pol of None \<Rightarrow> Inl No_policy | Some d \<Rightarrow> Inr d)"

definition check_visited :: "path \<Rightarrow> path list \<Rightarrow> bool" where
  "check_visited dir visited = list_ex (\<lambda>v. v = dir \<or> strict_prefix v dir) visited"

text \<open>An interval of zero counts as not given.\<close>

definition older :: "datetime \<Rightarrow> timedelta option \<Rightarrow> datetime \<Rightarrow> bool" where
  "older stamp limit when' = (case limit of None \<Rightarrow> False | Some d \<Rightarrow> d \<noteq> 0 \<and> stamp + d < when')"

definition check_status :: "path \<Rightarrow> directory_policy \<Rightarrow> datetime \<Rightarrow> file_stat \<Rightarrow> file_record option" where
  "check_status p pol when' st =
     (let (ivals, cl) = (if st_size st \<ge> dp_threshold pol then (dp_large pol, LARGE_FILE) else (dp_small pol, SMALL_FILE));
          rec = (\<lambda>reason stamp limit. Some \<lparr>fr_path = p, fr_class = cl, fr_reason = reason,
                   fr_interval = when' - stamp, fr_criterion = the limit\<rparr>)
      in if older (st_atime st) (access_interval ivals) when' then rec ATIME (st_atime st) (access_interval ivals)
         else if older (st_ctime st) (creation_interval ivals) when' then rec CTIME (st_ctime st) (creation_interval ivals)
         else if older (st_mtime st) (modification_interval ivals) when' then rec MTIME (st_mtime st) (modification_interval ivals)
         else None)"

text \<open>After \<open>PermissionError\<close> the code goes on with a status that was never assigned.\<close>

definition check_file :: "path \<Rightarrow> directory_policy \<Rightarrow> datetime \<Rightarrow> entry \<Rightarrow> (purge_error, file_record option) result" where
  "check_file p pol when' t =
     (case t of
        File (Stat st) \<Rightarrow> Inr (check_status p pol when' st)
      | File Vanished \<Rightarrow> Inr None
      | File Denied \<Rightarrow> Inl Unbound_status
      | _ \<Rightarrow> Inr None)"

fun check_files :: "entry \<Rightarrow> directory_policy \<Rightarrow> datetime \<Rightarrow> path list \<Rightarrow> (purge_error, file_record list) result" where
  "check_files fs pol when' [] = Inr []"
| "check_files fs pol when' (p # ps) =
     rbind (check_file p pol when' (case lookup fs p of None \<Rightarrow> File Vanished | Some t \<Rightarrow> t)) (\<lambda>r.
     rbind (check_files fs pol when' ps) (\<lambda>rs. Inr ((case r of None \<Rightarrow> [] | Some x \<Rightarrow> [x]) @ rs)))"

definition unvisited_files :: "path list \<Rightarrow> (path \<times> string list \<times> string list) list \<Rightarrow> path list" where
  "unvisited_files visited w =
     concat (map (\<lambda>(dir, _, files). if check_visited dir visited then [] else map (\<lambda>f. dir @ [f]) files) w)"

fun plan_loop :: "entry \<Rightarrow> policy \<Rightarrow> datetime \<Rightarrow> path list \<Rightarrow> path list \<Rightarrow> file_record list \<Rightarrow> (purge_error, plan) result" where
  "plan_loop fs pol when' [] visited purge = Inr \<lparr>pl_directories = visited, pl_files = purge\<rparr>"
| "plan_loop fs pol when' (d # ds) visited purge =
     rbind (get_directory_policy d pol) (\<lambda>dp.
     rbind (check_files fs dp when' (unvisited_files visited (walk_from fs d))) (\<lambda>rs.
       plan_loop fs pol when' ds (d # visited) (purge @ rs)))"

text \<open>The directories are taken from the end of the list.\<close>

definition make_plan :: "entry \<Rightarrow> policy \<Rightarrow> timedelta option \<Rightarrow> datetime \<Rightarrow> (purge_error, plan) result" where
  "make_plan fs pol future n =
     plan_loop fs pol (n + (case future of None \<Rightarrow> 0 | Some d \<Rightarrow> d)) (rev (get_directories pol)) [] []"

section \<open>Purging\<close>

text \<open>
  \<open>unlink\<close> and \<open>rmdir\<close>: \<open>forbidden\<close> says of which paths the removal is not permitted. Only the errors
  that the code expects are collected; unlinking what has become a directory is another error. The
  other errors of \<open>unlink\<close>, such as a file system that is read-only, would end the purge in the same way;
  they are left out.
\<close>

fun unlink_all :: "(path \<Rightarrow> bool) \<Rightarrow> path list \<Rightarrow> entry \<Rightarrow> path list \<Rightarrow> entry \<times> (purge_error, path list) result" where
  "unlink_all forbidden [] fs failed = (fs, Inr failed)"
| "unlink_all forbidden (p # ps) fs failed =
     (case lookup fs p of
        None \<Rightarrow> unlink_all forbidden ps fs (failed @ [p])
      | Some t \<Rightarrow>
          if is_dir t then (fs, Inl Is_a_directory)
          else if forbidden p then unlink_all forbidden ps fs (failed @ [p])
          else unlink_all forbidden ps (remove p fs) failed)"

definition victim_dirs :: "entry \<Rightarrow> path list \<Rightarrow> path list" where
  "victim_dirs fs plan_dirs =
     concat (map (\<lambda>d. concat (map (\<lambda>(dir, dirs, _). map (\<lambda>x. dir @ [x]) dirs) (walk_from fs d))) plan_dirs)"

text \<open>\<open>sorted\<close> by length, reversed: longest first, equal ones in their order.\<close>

definition longest_first :: "path list \<Rightarrow> path list" where
  "longest_first ds = sort_reverse (\<lambda>a b. length (path_str a) < length (path_str b)) ds"

definition filter_victim_dirs :: "path list \<Rightarrow> path list \<Rightarrow> path list" where
  "filter_victim_dirs candidates plan_dirs =
     remdups (filter (\<lambda>v. v \<notin> set plan_dirs \<and> \<not> list_ex (\<lambda>d. strict_prefix v d) plan_dirs) candidates)"

text \<open>
  \<open>glob('*')\<close> of an unreadable directory or of nothing gives nothing; removing a directory that is not
  empty or not there fails. That a victim has become something else since the walk cannot happen here.
\<close>

fun remove_dirs :: "(path \<Rightarrow> bool) \<Rightarrow> path list \<Rightarrow> entry \<Rightarrow> path list \<Rightarrow> entry \<times> path list" where
  "remove_dirs forbidden [] fs failed = (fs, failed)"
| "remove_dirs forbidden (v # vs) fs failed =
     (case lookup fs v of
        Some (Dir readable es) \<Rightarrow>
          if readable \<and> es \<noteq> [] then remove_dirs forbidden vs fs failed
          else if es \<noteq> [] \<or> forbidden v then remove_dirs forbidden vs fs (failed @ [v])
          else remove_dirs forbidden vs (remove v fs) failed
      | _ \<Rightarrow> remove_dirs forbidden vs fs (failed @ [v]))"

text \<open>The victims are a set: \<open>order\<close> is the order in which it is iterated over.\<close>

definition tidy_victim_dirs :: "(path list \<Rightarrow> path list) \<Rightarrow> (path \<Rightarrow> bool) \<Rightarrow> plan \<Rightarrow> path list \<Rightarrow> entry
    \<Rightarrow> entry \<times> (purge_error, unit) result" where
  "tidy_victim_dirs order forbidden pl failed fs =
     (let victims = filter_victim_dirs (longest_first (victim_dirs fs (pl_directories pl))) (pl_directories pl);
          (fs', failed') = remove_dirs forbidden (order victims) fs failed
      in (fs', if failed' \<noteq> [] then Inl (Purge_failed failed') else Inr ()))"

record purger_config =
  pc_policy :: policy
  pc_dry_run :: bool
  pc_future :: "timedelta option"

text \<open>A duration of zero counts as none.\<close>

definition future_given :: "purger_config \<Rightarrow> bool" where
  "future_given cfg = (case pc_future cfg of None \<Rightarrow> False | Some d \<Rightarrow> d \<noteq> 0)"

text \<open>Planning forgets the old plan first; a purge that succeeds forgets the plan.\<close>

definition purger_plan :: "purger_config \<Rightarrow> datetime \<Rightarrow> entry \<Rightarrow> plan option \<times> (purge_error, unit) result" where
  "purger_plan cfg n fs =
     (case make_plan fs (pc_policy cfg) (pc_future cfg) n of
        Inl e \<Rightarrow> (None, Inl e)
      | Inr pl \<Rightarrow> (Some pl, Inr ()))"

definition purger_report :: "plan option \<Rightarrow> (purge_error, unit) result" where
  "purger_report pl = (case pl of None \<Rightarrow> Inl Plan_not_ready | Some p \<Rightarrow> Inr ())"

definition purger_purge :: "(path list \<Rightarrow> path list) \<Rightarrow> (path \<Rightarrow> bool) \<Rightarrow> purger_config \<Rightarrow> plan option \<Rightarrow> entry
    \<Rightarrow> entry \<times> plan option \<times> (purge_error, unit) result" where
  "purger_purge order forbidden cfg pl fs =
     (case pl of
        None \<Rightarrow> (fs, None, Inl Plan_not_ready)
      | Some p \<Rightarrow>
          if pc_dry_run cfg then (fs, pl, purger_report pl)
          else if future_given cfg then (fs, pl, purger_report pl)
          else (case unlink_all forbidden (map fr_path (pl_files p)) fs [] of
              (fs1, Inl e) \<Rightarrow> (fs1, pl, Inl e)
            | (fs1, Inr failed) \<Rightarrow>
                (case tidy_victim_dirs order forbidden p failed fs1 of
                   (fs2, r) \<Rightarrow> (fs2, if r = Inr () then None else pl, r))))"

definition purger_execute :: "(path list \<Rightarrow> path list) \<Rightarrow> (path \<Rightarrow> bool) \<Rightarrow> purger_config \<Rightarrow> datetime \<Rightarrow> entry
    \<Rightarrow> entry \<times> plan option \<times> (purge_error, unit) result" where
  "purger_execute order forbidden cfg n fs =
     (case purger_plan cfg n fs of
        (pl, Inl e) \<Rightarrow> (fs, pl, Inl e)
      | (pl, Inr _) \<Rightarrow> purger_purge order forbidden cfg pl fs)"

text \<open>The text of a plan; \<open>int(interval.total_seconds())\<close> cuts the fraction off.\<close>

definition whole_seconds :: "timedelta \<Rightarrow> int" where
  "whole_seconds d = (if d < 0 then - ((- d) div 1000000) else d div 1000000)"

definition record_text :: "(int \<Rightarrow> string) \<Rightarrow> file_record \<Rightarrow> string" where
  "record_text show_int r =
     path_str (fr_path r) @ '': '' @
     (case fr_reason r of ATIME \<Rightarrow> ''ATIME'' | CTIME \<Rightarrow> ''CTIME'' | MTIME \<Rightarrow> ''MTIME'') @ '' '' @
     show_int (whole_seconds (fr_interval r)) @ ''s >= '' @ show_int (whole_seconds (fr_criterion r)) @ ''s''"

definition plan_text :: "plan \<Rightarrow> string" where
  "plan_text p =
     (if pl_directories p = [] then ''No directories considered.''
      else ''Directories considered:'' @ [CHR 0x0A] @
        concat (map (\<lambda>d. ''  '' @ path_str d @ [CHR 0x0A]) (pl_directories p)) @
        (if pl_files p = [] then ''No matching files found.'' @ [CHR 0x0A]
         else concat (map (\<lambda>f. ''  -> '' @ path_str (fr_path f) @ [CHR 0x0A]) (pl_files p))))"

text \<open>The policy as a dictionary of whole seconds; no interval is zero.\<close>

definition intervals_to_dict :: "intervals \<Rightarrow> (string \<times> int) list" where
  "intervals_to_dict v =
     (let seconds = (\<lambda>i. case i of None \<Rightarrow> 0 | Some d \<Rightarrow> whole_seconds d)
      in [(''access_interval'', seconds (access_interval v)), (''creation_interval'', seconds (creation_interval v)),
          (''modification_interval'', seconds (modification_interval v))])"

datatype policy_value = Policy_text string | Policy_number int | Policy_dict "(string \<times> policy_value) list"

definition sized_intervals_to_dict :: "intervals \<Rightarrow> intervals \<Rightarrow> policy_value" where
  "sized_intervals_to_dict large small =
     (let numbers = (\<lambda>v. Policy_dict (map (\<lambda>(k, n). (k, Policy_number n)) (intervals_to_dict v)))
      in Policy_dict [(''large'', numbers large), (''small'', numbers small)])"

definition directory_policy_to_dict :: "directory_policy \<Rightarrow> policy_value" where
  "directory_policy_to_dict dp =
     Policy_dict [(''path'', Policy_text (path_str (dp_path dp))), (''threshold'', Policy_number (dp_threshold dp)),
       (''intervals'', sized_intervals_to_dict (dp_large dp) (dp_small dp))]"

text \<open>
  A size as text: the first suffix of the table that fits is cut off, its multiplier counts. The
  mantissa is then read as a floating-point number, which is not modelled.
\<close>

definition mult_map :: "(string \<times> int) list" where
  "mult_map = [(''k'', 10 ^ 3), (''K'', 10 ^ 3), (''M'', 10 ^ 6), (''G'', 10 ^ 9), (''T'', 10 ^ 12), (''P'', 10 ^ 15), (''E'', 10 ^ 18),
     (''ki'', 2 ^ 10), (''Ki'', 2 ^ 10), (''Mi'', 2 ^ 20), (''Gi'', 2 ^ 30), (''Ti'', 2 ^ 40), (''Pi'', 2 ^ 50), (''Ei'', 2 ^ 60)]"

definition extract_base_and_mult_from_string :: "string \<Rightarrow> string \<times> int" where
  "extract_base_and_mult_from_string v =
     (case find (\<lambda>(s, m). suffix s v) mult_map of
        None \<Rightarrow> (strip v, 1)
      | Some (s, m) \<Rightarrow> (strip (take (length v - length s) v), m))"

section \<open>Entries of a tree\<close>

fun fs_ok :: "entry \<Rightarrow> bool" where
  "fs_ok (Dir readable es) = (distinct (map fst es) \<and> list_all (\<lambda>(n, t). fs_ok t) es)"
| "fs_ok t = True"

lemma lookup_append: "lookup t (p @ q) = (case lookup t p of None \<Rightarrow> None | Some u \<Rightarrow> lookup u q)"
proof (induction t p rule: lookup.induct)
  case (2 readable es n p)
  then show ?case by (auto split: option.split)
qed (auto split: option.split)

lemma fs_ok_lookup: "fs_ok t \<Longrightarrow> lookup t p = Some u \<Longrightarrow> fs_ok u"
proof (induction t p rule: lookup.induct)
  case (2 readable es n p)
  then show ?case by (auto simp: list_all_iff dest: map_of_SomeD split: option.splits)
qed auto

lemma map_of_filter_not: "map_of (filter (\<lambda>(m, t). m \<noteq> n) es) k = (if k = n then None else map_of es k)"
  by (induction es) auto

lemma map_of_map_at: "map_of (map (\<lambda>(m, t). (m, if m = n then f t else t)) es) k =
    (if k = n then map_option f (map_of es k) else map_of es k)"
  by (induction es) auto

lemma lookup_leaf: "lookup (File a) p = (if p = [] then Some (File a) else None)" "lookup Link p = (if p = [] then Some Link else None)"
  by (cases p; simp)+

lemma remove_leaf: "remove p (File a) = File a" "remove p Link = Link"
  by (cases p rule: list.exhaust [case_product list.exhaust]; simp)+

lemma lookup_remove:
  "p \<noteq> [] \<Longrightarrow> lookup (remove p t) q =
     (if prefix p q then None else if strict_prefix q p then map_option (remove (drop (length q) p)) (lookup t q) else lookup t q)"
proof (induction p t arbitrary: q rule: remove.induct)
  case (1 n readable es)
  show ?case
  proof (cases q)
    case (Cons m r)
    then show ?thesis by (auto simp: map_of_filter_not strict_prefix_def)
  qed simp
next
  case (2 n v va readable es)
  show ?case
  proof (cases q)
    case (Cons m r)
    show ?thesis
    proof (cases "m = n")
      case True
      show ?thesis
      proof (cases "map_of es n")
        case None
        with True Cons show ?thesis by (simp add: map_of_map_at strict_prefix_def)
      next
        case (Some t)
        then have "lookup (remove (v # va) t) r = (if prefix (v # va) r then None
            else if strict_prefix r (v # va) then map_option (remove (drop (length r) (v # va))) (lookup t r) else lookup t r)"
          by (intro 2(1) [of "(n, t)" n t]) (auto dest: map_of_SomeD)
        with True Cons Some show ?thesis by (auto simp: map_of_map_at strict_prefix_def)
      qed
    next
      case False
      with Cons show ?thesis by (auto simp: map_of_map_at strict_prefix_def split: option.split)
    qed
  qed simp
qed (auto simp: lookup_leaf remove_leaf split: if_splits)

end
