(* ===== verification/Purger_Laws.thy ===== *)
theory Purger_Laws
  imports Purger
begin

text \<open>What the purger plans and what it removes.\<close>

section \<open>Walks\<close>

text \<open>All directories from \<open>d\<close> to \<open>r\<close> can be read.\<close>

definition opened :: "entry \<Rightarrow> path \<Rightarrow> path \<Rightarrow> bool" where
  "opened fs d r \<longleftrightarrow> prefix d r \<and> (\<forall>q. prefix d q \<longrightarrow> prefix q r \<longrightarrow> (\<exists>es. lookup fs q = Some (Dir True es)))"

lemma opened_root: "opened t [] [] \<longleftrightarrow> (\<exists>es. t = Dir True es)"
  by (auto simp: opened_def)

lemma opened_top: "opened t [] q \<Longrightarrow> \<exists>es. t = Dir True es"
  unfolding opened_def by (metis Nil_prefix lookup.simps(1) option.inject)

lemma opened_Cons:
  "opened (Dir b es) [] (n # r) \<longleftrightarrow> b \<and> (\<exists>t. map_of es n = Some t \<and> opened t [] r)"
  unfolding opened_def
proof (intro iffI; elim conjE; intro conjI; (elim exE conjE)?)
  assume all: "\<forall>q. prefix [] q \<longrightarrow> prefix q (n # r) \<longrightarrow> (\<exists>fs. lookup (Dir b es) q = Some (Dir True fs))"
  from all[rule_format, of "[]"] show b by simp
  from all[rule_format, of "[n]"] obtain t where t: "map_of es n = Some t" by (auto split: option.splits)
  have "\<exists>fs. lookup t q = Some (Dir True fs)" if "prefix q r" for q
    using all[rule_format, of "n # q"] t that by simp
  with t show "\<exists>t. map_of es n = Some t \<and> prefix [] r \<and> (\<forall>q. prefix [] q \<longrightarrow> prefix q r \<longrightarrow> (\<exists>fs. lookup t q = Some (Dir True fs)))"
    by auto
next
  fix t
  assume b and t: "map_of es n = Some t" and all: "\<forall>q. prefix [] q \<longrightarrow> prefix q r \<longrightarrow> (\<exists>es. lookup t q = Some (Dir True es))"
  show "\<forall>q. prefix [] q \<longrightarrow> prefix q (n # r) \<longrightarrow> (\<exists>esa. lookup (Dir b es) q = Some (Dir True esa))"
  proof (intro allI impI)
    fix q
    assume "prefix q (n # r)"
    then show "\<exists>esa. lookup (Dir b es) q = Some (Dir True esa)"
      using \<open>b\<close> t all by (cases q) auto
  qed
qed simp_all

definition entry_names :: "bool \<Rightarrow> (string \<times> entry) list \<Rightarrow> string list" where
  "entry_names dirs es = map fst (filter (\<lambda>(n, t). is_dir t = dirs) es)"

lemma walk_roots:
  "fs_ok t \<Longrightarrow> (r, ds, fl) \<in> set (walk p t) \<longleftrightarrow>
     (\<exists>q es. r = p @ q \<and> opened t [] q \<and> lookup t q = Some (Dir True es) \<and> ds = entry_names True es \<and> fl = entry_names False es)"
proof (induction p t arbitrary: r rule: walk.induct)
  case (1 p b es)
  have names: "map fst (filter (\<lambda>(n, t). is_dir t) es) = entry_names True es"
    "map fst (filter (\<lambda>(n, t). \<not> is_dir t) es) = entry_names False es"
    by (simp_all add: entry_names_def)
  have sub: "(r, ds, fl) \<in> set (walk (p @ [n]) t) \<longleftrightarrow>
      (\<exists>q es. r = p @ n # q \<and> opened t [] q \<and> lookup t q = Some (Dir True es) \<and> ds = entry_names True es \<and> fl = entry_names False es)"
    if "(n, t) \<in> set es" b for n t r
    using 1 that by (fastforce simp: list_all_iff)
  have map_of: "(n, t) \<in> set es \<longleftrightarrow> map_of es n = Some t" for n t
    using 1(2) by (simp add: map_of_eq_Some_iff)
  show ?case
  proof (cases b)
    case True
    have "(r, ds, fl) \<in> set (walk p (Dir b es)) \<longleftrightarrow>
        (r, ds, fl) = (p, entry_names True es, entry_names False es) \<or>
        (\<exists>n t. (n, t) \<in> set es \<and> (r, ds, fl) \<in> set (walk (p @ [n]) t))"
      using True by (auto simp: names)
    also have "\<dots> \<longleftrightarrow> (\<exists>q fs. r = p @ q \<and> opened (Dir b es) [] q \<and> lookup (Dir b es) q = Some (Dir True fs) \<and>
        ds = entry_names True fs \<and> fl = entry_names False fs)" (is "_ \<longleftrightarrow> (\<exists>q fs. ?P q fs)")
    proof
      assume "(r, ds, fl) = (p, entry_names True es, entry_names False es) \<or>
        (\<exists>n t. (n, t) \<in> set es \<and> (r, ds, fl) \<in> set (walk (p @ [n]) t))"
      then show "\<exists>q fs. ?P q fs"
      proof
        assume "(r, ds, fl) = (p, entry_names True es, entry_names False es)"
        with True have "?P [] es" by (simp add: opened_root)
        then show ?thesis by blast
      next
        assume "\<exists>n t. (n, t) \<in> set es \<and> (r, ds, fl) \<in> set (walk (p @ [n]) t)"
        then obtain n t q fs where "(n, t) \<in> set es" "r = p @ n # q" "opened t [] q" "lookup t q = Some (Dir True fs)"
          "ds = entry_names True fs" "fl = entry_names False fs" using sub True by blast
        then have "?P (n # q) fs" using True map_of by (simp add: opened_Cons)
        then show ?thesis by blast
      qed
    next
      assume "\<exists>q fs. ?P q fs"
      then obtain q fs where q: "?P q fs" by blast
      show "(r, ds, fl) = (p, entry_names True es, entry_names False es) \<or>
        (\<exists>n t. (n, t) \<in> set es \<and> (r, ds, fl) \<in> set (walk (p @ [n]) t))"
      proof (cases q)
        case Nil
        with q True show ?thesis by simp
      next
        case (Cons n q')
        with q obtain t where t: "map_of es n = Some t" "opened t [] q'" by (auto simp: opened_Cons)
        with q Cons have "lookup t q' = Some (Dir True fs)" by simp
        with q Cons t have "(r, ds, fl) \<in> set (walk (p @ [n]) t)" using sub [of n t r] map_of True by simp
        with t map_of show ?thesis by blast
      qed
    qed
    finally show ?thesis .
  next
    case False
    then show ?thesis by (auto dest: opened_top)
  qed
qed (auto simp: opened_def lookup_leaf)

section \<open>What is planned\<close>

lemma opened_from: "opened fs d (d @ q) \<longleftrightarrow> (\<exists>t. lookup fs d = Some t \<and> opened t [] q)"
proof (cases "lookup fs d")
  case None
  then show ?thesis by (auto simp: opened_def dest: spec [of _ d])
next
  case (Some t)
  have below: "(\<forall>y. prefix d y \<longrightarrow> prefix y (d @ q) \<longrightarrow> P y) \<longleftrightarrow> (\<forall>x. prefix x q \<longrightarrow> P (d @ x))" for P
    by (auto elim!: prefixE [of d])
  have "lookup fs (d @ x) = lookup t x" for x using Some by (simp add: lookup_append)
  then show ?thesis using Some by (simp add: opened_def below)
qed

lemma walked_directories:
  assumes "fs_ok fs"
  shows "(r, ds, fl) \<in> set (walk_from fs d) \<longleftrightarrow>
    (\<exists>es. opened fs d r \<and> lookup fs r = Some (Dir True es) \<and> ds = entry_names True es \<and> fl = entry_names False es)"
proof (cases "lookup fs d")
  case None
  then show ?thesis by (auto simp: walk_from_def opened_def dest: spec [of _ d])
next
  case (Some t)
  have "(r, ds, fl) \<in> set (walk_from fs d) \<longleftrightarrow>
      (\<exists>q es. r = d @ q \<and> opened t [] q \<and> lookup t q = Some (Dir True es) \<and> ds = entry_names True es \<and> fl = entry_names False es)"
    using Some walk_roots [OF fs_ok_lookup [OF assms Some]] by (simp add: walk_from_def)
  also have "\<dots> \<longleftrightarrow> (\<exists>es. opened fs d r \<and> lookup fs r = Some (Dir True es) \<and> ds = entry_names True es \<and> fl = entry_names False es)"
  proof -
    have "opened fs d r \<longleftrightarrow> (\<exists>q. r = d @ q \<and> opened t [] q)" for r
      using opened_from [of fs d] Some by (auto simp: opened_def prefix_def)
    moreover have "lookup fs (d @ q) = lookup t q" for q using Some by (simp add: lookup_append)
    ultimately show ?thesis by auto
  qed
  finally show ?thesis .
qed

definition leaf_at :: "entry \<Rightarrow> path \<Rightarrow> string \<Rightarrow> bool" where
  "leaf_at fs r f \<longleftrightarrow> (\<exists>t. lookup fs (r @ [f]) = Some t \<and> \<not> is_dir t)"

lemma entry_names_iff:
  assumes "fs_ok fs" and "lookup fs r = Some (Dir b es)"
  shows "f \<in> set (entry_names False es) \<longleftrightarrow> leaf_at fs r f"
proof -
  have "distinct (map fst es)" using fs_ok_lookup [OF assms] by simp
  then have "(f, t) \<in> set es \<longleftrightarrow> map_of es f = Some t" for t by (simp add: map_of_eq_Some_iff)
  moreover have "lookup fs (r @ [f]) = map_of es f" using assms(2) by (simp add: lookup_append split: option.split)
  ultimately show ?thesis by (force simp: entry_names_def leaf_at_def)
qed

lemma visited_iff: "check_visited r visited \<longleftrightarrow> (\<exists>v \<in> set visited. prefix v r)"
  by (auto simp: check_visited_def list_ex_iff strict_prefix_def)

lemma unvisited_iff:
  assumes "fs_ok fs"
  shows "p \<in> set (unvisited_files visited (walk_from fs d)) \<longleftrightarrow>
    (\<exists>r f. p = r @ [f] \<and> opened fs d r \<and> leaf_at fs r f \<and> \<not> (\<exists>v \<in> set visited. prefix v r))"
proof -
  have "p \<in> set (unvisited_files visited (walk_from fs d)) \<longleftrightarrow>
      (\<exists>r ds fl f. (r, ds, fl) \<in> set (walk_from fs d) \<and> f \<in> set fl \<and> p = r @ [f] \<and> \<not> (\<exists>v \<in> set visited. prefix v r))"
    by (force simp: unvisited_files_def visited_iff)
  also have "\<dots> \<longleftrightarrow> (\<exists>r f. p = r @ [f] \<and> opened fs d r \<and> leaf_at fs r f \<and> \<not> (\<exists>v \<in> set visited. prefix v r))"
  proof -
    have dir: "\<exists>es. lookup fs r = Some (Dir True es)" if "opened fs d r" for r using that by (auto simp: opened_def)
    show ?thesis
      unfolding walked_directories [OF assms] using entry_names_iff [OF assms] dir by (metis (no_types, lifting))
  qed
  finally show ?thesis .
qed

lemma check_files_iff:
  "check_files fs dp w ps = Inr rs \<Longrightarrow> x \<in> set rs \<longleftrightarrow>
     (\<exists>p \<in> set ps. check_file p dp w (case lookup fs p of None \<Rightarrow> File Vanished | Some t \<Rightarrow> t) = Inr (Some x))"
proof (induction ps arbitrary: rs)
  case (Cons p ps)
  then obtain r rs' where "check_file p dp w (case lookup fs p of None \<Rightarrow> File Vanished | Some t \<Rightarrow> t) = Inr r"
    and rs': "check_files fs dp w ps = Inr rs'" and "rs = (case r of None \<Rightarrow> [] | Some x \<Rightarrow> [x]) @ rs'"
    by (auto simp: rbind_eq_Inr)
  with Cons.IH [OF rs'] show ?case by (cases r) auto
qed simp

text \<open>The first directory that holds \<open>r\<close>, when none of the visited ones does.\<close>

definition first_dir :: "path list \<Rightarrow> path list \<Rightarrow> path \<Rightarrow> path option" where
  "first_dir visited ds r = (if \<exists>v \<in> set visited. prefix v r then None else find (\<lambda>d. prefix d r) ds)"

definition planned_by :: "entry \<Rightarrow> policy \<Rightarrow> datetime \<Rightarrow> path \<Rightarrow> path \<Rightarrow> string \<Rightarrow> file_record \<Rightarrow> bool" where
  "planned_by fs pol w d r f x \<longleftrightarrow> opened fs d r \<and>
     (\<exists>t dp. lookup fs (r @ [f]) = Some t \<and> \<not> is_dir t \<and> get_directory_policy d pol = Inr dp \<and>
        check_file (r @ [f]) dp w t = Inr (Some x))"

lemma plan_loop_files:
  assumes "fs_ok fs"
  shows "plan_loop fs pol w ds visited purge = Inr pl \<Longrightarrow> x \<in> set (pl_files pl) \<longleftrightarrow>
    x \<in> set purge \<or> (\<exists>d r f. first_dir visited ds r = Some d \<and> planned_by fs pol w d r f x)"
proof (induction ds arbitrary: visited purge)
  case Nil
  then show ?case by (auto simp: first_dir_def)
next
  case (Cons d ds)
  from Cons.prems obtain dp rs where dp: "get_directory_policy d pol = Inr dp"
    and rs: "check_files fs dp w (unvisited_files visited (walk_from fs d)) = Inr rs"
    and rest: "plan_loop fs pol w ds (d # visited) (purge @ rs) = Inr pl"
    by (auto simp: rbind_eq_Inr)
  have leaf: "leaf_at fs r f \<and> check_file (r @ [f]) dp w (case lookup fs (r @ [f]) of None \<Rightarrow> File Vanished | Some t \<Rightarrow> t) = Inr (Some x)
      \<longleftrightarrow> (\<exists>t. lookup fs (r @ [f]) = Some t \<and> \<not> is_dir t \<and> check_file (r @ [f]) dp w t = Inr (Some x))" for r f
    by (auto simp: leaf_at_def)
  have "x \<in> set rs \<longleftrightarrow> (\<exists>r f. opened fs d r \<and> \<not> (\<exists>v \<in> set visited. prefix v r) \<and>
      leaf_at fs r f \<and> check_file (r @ [f]) dp w (case lookup fs (r @ [f]) of None \<Rightarrow> File Vanished | Some t \<Rightarrow> t) = Inr (Some x))"
    unfolding check_files_iff [OF rs] Bex_def unvisited_iff [OF assms] by blast
  also have "\<dots> \<longleftrightarrow> (\<exists>r f. \<not> (\<exists>v \<in> set visited. prefix v r) \<and> planned_by fs pol w d r f x)"
    unfolding leaf planned_by_def dp by auto
  finally have "x \<in> set rs \<longleftrightarrow> (\<exists>r f. \<not> (\<exists>v \<in> set visited. prefix v r) \<and> planned_by fs pol w d r f x)" .
  moreover have "first_dir (d # visited) ds r = Some d' \<or> d' = d \<and> prefix d r \<and> \<not> (\<exists>v \<in> set visited. prefix v r)
      \<longleftrightarrow> first_dir visited (d # ds) r = Some d'" for r d'
    by (auto simp: first_dir_def)
  moreover have "planned_by fs pol w d r f x \<Longrightarrow> prefix d r" for r f by (simp add: planned_by_def opened_def)
  ultimately show ?case
    unfolding Cons.IH [OF rest] set_append Un_iff by metis
qed

text \<open>
  The directory of a policy that governs a directory \<open>r\<close>: the deepest one that holds \<open>r\<close>; of entries
  with the same path the first counts.
\<close>

definition governs :: "policy \<Rightarrow> directory_policy \<Rightarrow> path \<Rightarrow> bool" where
  "governs pol dp r \<longleftrightarrow> find (\<lambda>d. dp_path d = dp_path dp) pol = Some dp \<and> prefix (dp_path dp) r \<and>
     (\<forall>d \<in> set pol. prefix (dp_path d) r \<longrightarrow> prefix (dp_path d) (dp_path dp))"

definition policy_ok :: "policy \<Rightarrow> bool" where
  "policy_ok pol \<longleftrightarrow> (\<forall>d \<in> set pol. [] \<notin> set (dp_path d))"

interpretation by_length: weak_order "\<lambda>a b. length (path_str a) < length (path_str b)" UNIV
  by unfold_locales auto

lemma path_str_longer:
  assumes "strict_prefix d e" and "[] \<notin> set e"
  shows "length (path_str d) < length (path_str e)"
proof -
  obtain n q where e: "e = d @ n # q" using assms(1) by (auto elim: strict_prefixE')
  with assms(2) have "n \<noteq> []" by auto
  with e show ?thesis by (cases d) (simp_all add: path_str_def)
qed

lemma find_sorted_max:
  assumes "sorted_wrt (\<lambda>a b. \<not> length (path_str a) < length (path_str b)) ds" and "find (\<lambda>d. prefix d r) ds = Some d"
    and "e \<in> set ds" and "prefix e r" and "\<And>e. e \<in> set ds \<Longrightarrow> [] \<notin> set e"
  shows "prefix e d"
  using assms
proof (induction ds)
  case (Cons c ds)
  show ?case
  proof (cases "prefix c r")
    case True
    with Cons.prems(2) have d: "d = c" by simp
    show ?thesis
    proof (rule ccontr)
      assume n: "\<not> prefix e d"
      with True d Cons.prems(4) have "strict_prefix d e" using prefix_same_cases [of e r d] by (auto simp: strict_prefix_def)
      from path_str_longer [OF this] Cons.prems(1,3,5) d n show False by auto
    qed
  next
    case False
    with Cons show ?thesis by auto
  qed
qed simp

lemma first_dir_governs:
  assumes "policy_ok pol"
  shows "first_dir [] (rev (get_directories pol)) r = Some d \<and> get_directory_policy d pol = Inr dp \<longleftrightarrow>
    d = dp_path dp \<and> governs pol dp r"
proof -
  have ok: "\<And>e. e \<in> set (rev (get_directories pol)) \<Longrightarrow> [] \<notin> set e"
    using assms by (auto simp: get_directories_def policy_ok_def)
  have sorted: "sorted_wrt (\<lambda>a b. \<not> length (path_str a) < length (path_str b)) (rev (get_directories pol))"
    using by_length.sort_by_sorted [of "map dp_path pol"] by (simp add: get_directories_def sorted_wrt_rev)
  have members: "e \<in> set (rev (get_directories pol)) \<longleftrightarrow> (\<exists>x \<in> set pol. e = dp_path x)" for e
    by (auto simp: get_directories_def)
  have policy: "get_directory_policy d pol = Inr dp \<longleftrightarrow> d = dp_path dp \<and> find (\<lambda>x. dp_path x = dp_path dp) pol = Some dp" for d
    by (auto simp: get_directory_policy_def split: option.splits dest: find_SomeD)
  show ?thesis
  proof
    assume l: "first_dir [] (rev (get_directories pol)) r = Some d \<and> get_directory_policy d pol = Inr dp"
    then have d: "find (\<lambda>d. prefix d r) (rev (get_directories pol)) = Some d" "d = dp_path dp"
      "find (\<lambda>x. dp_path x = dp_path dp) pol = Some dp" by (simp_all add: first_dir_def policy)
    have "prefix (dp_path x) d" if "x \<in> set pol" "prefix (dp_path x) r" for x
      using find_sorted_max [OF sorted d(1) _ that(2) ok] that(1) members by blast
    moreover have "prefix d r" using d(1) by (auto dest: find_SomeD)
    ultimately show "d = dp_path dp \<and> governs pol dp r" using d by (auto simp: governs_def)
  next
    assume r: "d = dp_path dp \<and> governs pol dp r"
    then have "prefix d r" and "dp \<in> set pol" by (auto simp: governs_def dest: find_SomeD)
    with r have d: "prefix d r" "d \<in> set (rev (get_directories pol))" by (auto simp only: members)
    then obtain e where e: "find (\<lambda>d. prefix d r) (rev (get_directories pol)) = Some e"
      by (cases "find (\<lambda>d. prefix d r) (rev (get_directories pol))") (auto simp: find_None_iff)
    have "prefix d e" by (rule find_sorted_max [OF sorted e d(2,1) ok])
    moreover have "prefix e d"
    proof -
      from find_SomeD [OF e] obtain x where "x \<in> set pol" "e = dp_path x" "prefix e r" by (auto simp only: members)
      with r show ?thesis by (simp add: governs_def)
    qed
    ultimately have "e = d" by (simp add: prefix_order.antisym)
    with e r show "first_dir [] (rev (get_directories pol)) r = Some d \<and> get_directory_policy d pol = Inr dp"
      by (simp add: first_dir_def policy governs_def)
  qed
qed

definition plan_time :: "timedelta option \<Rightarrow> datetime \<Rightarrow> datetime" where
  "plan_time future n = n + (case future of None \<Rightarrow> 0 | Some d \<Rightarrow> d)"

text \<open>C28: The plan of the purger holds exactly the files that the most specific directory
  of the policy above them (the first entry of it) calls for: regular files, reached from that
  directory through readable directories, whose access, creation or modification time is too old
  for their size, each with the reason and interval that come first.\<close>

theorem plan_exact:
  assumes "fs_ok fs" and "policy_ok pol" and "make_plan fs pol future n = Inr pl"
  shows "x \<in> set (pl_files pl) \<longleftrightarrow>
    (\<exists>r f st dp. lookup fs (r @ [f]) = Some (File (Stat st)) \<and> governs pol dp r \<and> opened fs (dp_path dp) r \<and>
       check_status (r @ [f]) dp (plan_time future n) st = Some x)"
proof -
  have loop: "plan_loop fs pol (plan_time future n) (rev (get_directories pol)) [] [] = Inr pl"
    using assms(3) by (simp add: make_plan_def plan_time_def)
  have "x \<in> set (pl_files pl) \<longleftrightarrow> (\<exists>d r f. first_dir [] (rev (get_directories pol)) r = Some d \<and>
      planned_by fs pol (plan_time future n) d r f x)"
    using plan_loop_files [OF assms(1) loop] by simp
  also have "\<dots> \<longleftrightarrow> (\<exists>d r f t dp. (first_dir [] (rev (get_directories pol)) r = Some d \<and> get_directory_policy d pol = Inr dp) \<and>
      opened fs d r \<and> lookup fs (r @ [f]) = Some t \<and> \<not> is_dir t \<and> check_file (r @ [f]) dp (plan_time future n) t = Inr (Some x))"
    unfolding planned_by_def by blast
  also have "\<dots> \<longleftrightarrow> (\<exists>r f t dp. governs pol dp r \<and> opened fs (dp_path dp) r \<and> lookup fs (r @ [f]) = Some t \<and>
      \<not> is_dir t \<and> check_file (r @ [f]) dp (plan_time future n) t = Inr (Some x))"
    unfolding first_dir_governs [OF assms(2)] by blast
  also have "\<dots> \<longleftrightarrow> (\<exists>r f st dp. lookup fs (r @ [f]) = Some (File (Stat st)) \<and> governs pol dp r \<and> opened fs (dp_path dp) r \<and>
      check_status (r @ [f]) dp (plan_time future n) st = Some x)"
  proof -
    have "\<not> is_dir t \<and> check_file p dp w t = Inr (Some x) \<longleftrightarrow> (\<exists>st. t = File (Stat st) \<and> check_status p dp w st = Some x)" for t p dp w
      by (auto simp: check_file_def split: entry.splits stat_answer.splits)
    then show ?thesis by (metis (no_types, lifting))
  qed
  finally show ?thesis .
qed

lemma check_files_denied: "check_files fs dp w ps = Inr rs \<Longrightarrow> p \<in> set ps \<Longrightarrow> lookup fs p \<noteq> Some (File Denied)"
  by (induction ps arbitrary: rs) (auto simp: rbind_eq_Inr check_file_def)

lemma check_files_error: "check_files fs dp w ps = Inl e \<Longrightarrow> e = Unbound_status"
  by (induction ps arbitrary: e) (auto simp: check_file_def rbind_def split: sum.splits entry.splits stat_answer.splits)

lemma plan_loop_denied:
  assumes "fs_ok fs"
  shows "plan_loop fs pol w ds visited purge = Inr pl \<Longrightarrow> first_dir visited ds r = Some d \<Longrightarrow> opened fs d r \<Longrightarrow>
    lookup fs (r @ [f]) \<noteq> Some (File Denied)"
proof (induction ds arbitrary: visited purge)
  case (Cons c ds)
  from Cons.prems(1) obtain dp rs where rs: "check_files fs dp w (unvisited_files visited (walk_from fs c)) = Inr rs"
    and rest: "plan_loop fs pol w ds (c # visited) (purge @ rs) = Inr pl"
    by (auto simp: rbind_eq_Inr)
  show ?case
  proof (cases "d = c")
    case True
    show ?thesis
    proof
      assume l: "lookup fs (r @ [f]) = Some (File Denied)"
      then have "r @ [f] \<in> set (unvisited_files visited (walk_from fs c))"
        using Cons.prems(2,3) True by (auto simp: unvisited_iff [OF assms] leaf_at_def first_dir_def split: if_splits)
      with check_files_denied [OF rs] l show False by blast
    qed
  next
    case False
    with Cons.prems(2) have "first_dir (c # visited) ds r = Some d" by (auto simp: first_dir_def split: if_splits)
    with Cons.IH [OF rest] Cons.prems(3) show ?thesis by blast
  qed
qed (auto simp: first_dir_def split: if_splits)

lemma plan_loop_error:
  "plan_loop fs pol w ds visited purge = Inl e \<Longrightarrow> set ds \<subseteq> dp_path ` set pol \<Longrightarrow> e = Unbound_status"
proof (induction ds arbitrary: visited purge)
  case (Cons d ds)
  then have "\<exists>x. find (\<lambda>x. dp_path x = d) pol = Some x" by (cases "find (\<lambda>x. dp_path x = d) pol") (auto simp: find_None_iff)
  then obtain dp where dp: "get_directory_policy d pol = Inr dp" by (auto simp: get_directory_policy_def)
  show ?case
  proof (cases "check_files fs dp w (unvisited_files visited (walk_from fs d))")
    case (Inl e')
    with dp Cons.prems check_files_error [OF Inl] show ?thesis by simp
  next
    case (Inr rs)
    with dp Cons show ?thesis by simp
  qed
qed simp

text \<open>C30: One file that the purger may not examine, in a directory it plans for, makes the
  whole planning fail with an unbound variable instead of being skipped.\<close>

theorem denied_file_stops_plan:
  assumes "fs_ok fs" and "policy_ok pol" and "governs pol dp r" and "opened fs (dp_path dp) r"
    and "lookup fs (r @ [f]) = Some (File Denied)"
  shows "make_plan fs pol future n = Inl Unbound_status"
proof (cases "make_plan fs pol future n")
  case (Inl e)
  then have "plan_loop fs pol (n + (case future of None \<Rightarrow> 0 | Some d \<Rightarrow> d)) (rev (get_directories pol)) [] [] = Inl e"
    by (simp add: make_plan_def)
  from plan_loop_error [OF this] Inl show ?thesis by (simp add: get_directories_def)
next
  case (Inr pl)
  have "first_dir [] (rev (get_directories pol)) r = Some (dp_path dp)"
    using first_dir_governs [OF assms(2), of r "dp_path dp" dp] assms(3) by simp
  from plan_loop_denied [OF assms(1) Inr [unfolded make_plan_def] this assms(4)] assms(5) show ?thesis by blast
qed

section \<open>What is removed\<close>

text \<open>
  From \<open>fs\<close> to \<open>fs'\<close> only entries that \<open>lost\<close> allows have gone (its second argument says whether the
  entry is a directory), no file has changed and nothing is new.
\<close>

definition only_lost :: "entry \<Rightarrow> entry \<Rightarrow> (path \<Rightarrow> bool \<Rightarrow> bool) \<Rightarrow> bool" where
  "only_lost fs fs' lost \<longleftrightarrow> (\<forall>p. case lookup fs p of None \<Rightarrow> lookup fs' p = None
     | Some t \<Rightarrow> (case lookup fs' p of None \<Rightarrow> lost p (is_dir t) | Some t' \<Rightarrow> if is_dir t then is_dir t' else t' = t))"

lemma only_lost_refl: "only_lost fs fs lost"
  by (auto simp: only_lost_def split: option.split)

lemma only_lost_gone: "only_lost fs fs' l \<Longrightarrow> lookup fs p = None \<Longrightarrow> lookup fs' p = None"
  unfolding only_lost_def by (drule spec [of _ p]) simp

lemma only_lost_trans: "only_lost a b l1 \<Longrightarrow> only_lost b c l2 \<Longrightarrow> (\<And>p d. l1 p d \<or> l2 p d \<Longrightarrow> l p d) \<Longrightarrow> only_lost a c l"
  unfolding only_lost_def
proof (intro allI)
  fix p
  assume a: "\<forall>p. case lookup a p of None \<Rightarrow> lookup b p = None
     | Some t \<Rightarrow> (case lookup b p of None \<Rightarrow> l1 p (is_dir t) | Some t' \<Rightarrow> if is_dir t then is_dir t' else t' = t)"
    and b: "\<forall>p. case lookup b p of None \<Rightarrow> lookup c p = None
     | Some t \<Rightarrow> (case lookup c p of None \<Rightarrow> l2 p (is_dir t) | Some t' \<Rightarrow> if is_dir t then is_dir t' else t' = t)"
    and l: "\<And>p d. l1 p d \<or> l2 p d \<Longrightarrow> l p d"
  from a[rule_format, of p] b[rule_format, of p] l[of p]
  show "case lookup a p of None \<Rightarrow> lookup c p = None
     | Some t \<Rightarrow> (case lookup c p of None \<Rightarrow> l p (is_dir t) | Some t' \<Rightarrow> if is_dir t then is_dir t' else t' = t)"
    by (auto split: option.splits if_splits)
qed

lemma only_lost_mono: "only_lost a b l1 \<Longrightarrow> (\<And>p d. l1 p d \<Longrightarrow> l p d) \<Longrightarrow> only_lost a b l"
  by (rule only_lost_trans [OF _ only_lost_refl [of _ l]]) auto

lemma is_dir_remove: "is_dir (remove p t) = is_dir t"
  by (induction p t rule: remove.induct) auto

lemma lookup_above: "lookup t (p @ q) = Some u \<Longrightarrow> q \<noteq> [] \<Longrightarrow> \<exists>v. lookup t p = Some v \<and> is_dir v"
proof -
  assume "lookup t (p @ q) = Some u" "q \<noteq> []"
  then obtain v where "lookup t p = Some v" "lookup v q = Some u" by (auto simp: lookup_append split: option.splits)
  with \<open>q \<noteq> []\<close> show ?thesis by (cases v) (auto simp: lookup_leaf)
qed

lemma remove_loses:
  assumes "lookup fs p = Some t" and "\<not> is_dir t \<or> (\<exists>b. t = Dir b [])"
  shows "only_lost fs (remove p fs) (\<lambda>q d. q = p \<and> d = is_dir t)"
proof (cases "p = []")
  case True
  have "remove [] fs = fs" by (cases fs) simp_all
  with True show ?thesis by (simp add: only_lost_refl)
next
  case False
  have below: "lookup fs (p @ q) = None" if "q \<noteq> []" for q
    using assms that by (cases t) (auto simp: lookup_append lookup_leaf neq_Nil_conv)
  show ?thesis
    unfolding only_lost_def
  proof (intro allI)
    fix q
    consider "q = p" | r where "q = p @ r" "r \<noteq> []" | "strict_prefix q p" | "\<not> prefix p q" "\<not> strict_prefix q p"
      by (metis prefix_def append_Nil2)
    then show "case lookup fs q of None \<Rightarrow> lookup (remove p fs) q = None
     | Some u \<Rightarrow> (case lookup (remove p fs) q of None \<Rightarrow> q = p \<and> is_dir u = is_dir t
          | Some t' \<Rightarrow> if is_dir u then is_dir t' else t' = u)"
    proof cases
      case 1
      with assms False show ?thesis by (simp add: lookup_remove)
    next
      case 2
      with below False show ?thesis by (simp add: lookup_remove)
    next
      case 3
      then obtain r where r: "p = q @ r" "r \<noteq> []" by (auto elim: strict_prefixE')
      with assms obtain v where "lookup fs q = Some v" "is_dir v" using lookup_above by blast
      moreover from 3 have "\<not> prefix p q" by (auto simp: strict_prefix_def prefix_order.antisym)
      ultimately show ?thesis using False 3 by (simp add: lookup_remove is_dir_remove)
    next
      case 4
      with False show ?thesis by (auto simp: lookup_remove split: option.split)
    qed
  qed
qed

lemma unlink_all_loses:
  "unlink_all forbidden ps fs failed = (fs', r) \<Longrightarrow> only_lost fs fs' (\<lambda>q d. \<not> d \<and> q \<in> set ps)"
proof (induction forbidden ps fs failed arbitrary: fs' r rule: unlink_all.induct)
  case (2 forbidden p ps fs failed)
  consider "lookup fs p = None" | t where "lookup fs p = Some t" "is_dir t" | t where "lookup fs p = Some t" "\<not> is_dir t" "forbidden p"
    | t where "lookup fs p = Some t" "\<not> is_dir t" "\<not> forbidden p" by blast
  then show ?case
  proof cases
    case 1
    with 2 show ?thesis by (auto intro: only_lost_mono)
  next
    case 2
    with "2.prems" show ?thesis by (auto simp: only_lost_refl)
  next
    case 3
    with 2 show ?thesis by (auto intro: only_lost_mono)
  next
    case 4
    with 2 have rest: "only_lost (remove p fs) fs' (\<lambda>q d. \<not> d \<and> q \<in> set ps)" by simp
    show ?thesis by (rule only_lost_trans [OF remove_loses [OF 4(1)] rest]) (use 4 in auto)
  qed
qed (simp add: only_lost_refl)

lemma remove_dirs_loses:
  "remove_dirs forbidden vs fs failed = (fs', r) \<Longrightarrow> only_lost fs fs' (\<lambda>q d. d \<and> q \<in> set vs)"
proof (induction forbidden vs fs failed arbitrary: fs' r rule: remove_dirs.induct)
  case (2 forbidden v vs fs failed)
  show ?case
  proof (cases "\<exists>b. lookup fs v = Some (Dir b []) \<and> \<not> forbidden v")
    case True
    then obtain b where b: "lookup fs v = Some (Dir b [])" "\<not> forbidden v" by blast
    with 2 have rest: "only_lost (remove v fs) fs' (\<lambda>q d. d \<and> q \<in> set vs)" by simp
    show ?thesis by (rule only_lost_trans [OF remove_loses [OF b(1)] rest]) auto
  next
    case False
    with 2 show ?thesis by (auto intro: only_lost_mono split: option.splits entry.splits if_splits)
  qed
qed (simp add: only_lost_refl)

lemma unlink_all_clears:
  "unlink_all forbidden ps fs failed = (fs', Inr failed') \<Longrightarrow> [] \<notin> set ps \<Longrightarrow>
     set failed \<subseteq> set failed' \<and> (\<forall>p \<in> set ps. lookup fs' p = None \<or> p \<in> set failed')"
proof (induction forbidden ps fs failed arbitrary: fs' rule: unlink_all.induct)
  case (2 forbidden p ps fs failed)
  have gone: "lookup g p = None \<Longrightarrow> unlink_all forbidden ps g f = (fs', r) \<Longrightarrow> lookup fs' p = None" for g f r
    using unlink_all_loses [of forbidden ps g f fs' r] only_lost_gone by blast
  from "2.prems"(2) have "p \<noteq> []" by auto
  then have "lookup (remove p fs) p = None" by (simp add: lookup_remove)
  with 2 gone show ?case by (auto split: option.splits if_splits)
qed simp

lemma remove_dirs_failed: "remove_dirs forbidden vs fs failed = (fs', failed') \<Longrightarrow> set failed \<subseteq> set failed'"
proof (induction vs arbitrary: fs failed)
  case (Cons v vs)
  then show ?case by (auto dest!: Cons.IH split: option.splits entry.splits if_splits)
qed simp

lemma walk_below: "(r, ds, fl) \<in> set (walk p t) \<Longrightarrow> prefix p r"
proof (induction p t arbitrary: r rule: walk.induct)
  case (1 p b es)
  show ?case
  proof (cases "r = p")
    case False
    with 1(2) obtain n t where "(n, t) \<in> set es" "b" "(r, ds, fl) \<in> set (walk (p @ [n]) t)" by (auto split: if_splits)
    with 1(1) have "prefix (p @ [n]) r" by blast
    then show ?thesis by (rule append_prefixD)
  qed simp
qed simp_all

lemma victims_below:
  assumes "v \<in> set (filter_victim_dirs (longest_first (victim_dirs fs ds)) ds)"
  shows "(\<exists>d \<in> set ds. strict_prefix d v) \<and> v \<notin> set ds \<and> \<not> (\<exists>d \<in> set ds. strict_prefix v d)"
proof -
  have "v \<in> set (victim_dirs fs ds)" and kept: "v \<notin> set ds \<and> \<not> (\<exists>d \<in> set ds. strict_prefix v d)"
    using assms by (auto simp: filter_victim_dirs_def longest_first_def list_ex_iff)
  then obtain d r x y z where d: "d \<in> set ds" "(r, y, z) \<in> set (walk_from fs d)" "v = r @ [x]"
    by (auto simp: victim_dirs_def)
  then have "prefix d r" by (auto simp: walk_from_def dest: walk_below split: option.splits)
  with d kept show ?thesis by (auto simp: strict_prefix_def)
qed

lemma plan_loop_directories: "plan_loop fs pol w ds visited purge = Inr pl \<Longrightarrow> pl_directories pl = rev ds @ visited"
  by (induction ds arbitrary: visited purge) (auto simp: rbind_eq_Inr)

lemma plan_directories: "make_plan fs pol future n = Inr pl \<Longrightarrow> set (pl_directories pl) = dp_path ` set pol"
  by (auto simp: make_plan_def get_directories_def dest!: plan_loop_directories)

text \<open>What a purge may take away.\<close>

definition purgeable :: "policy \<Rightarrow> plan \<Rightarrow> path \<Rightarrow> bool \<Rightarrow> bool" where
  "purgeable pol pl p d \<longleftrightarrow>
     (if d then (\<exists>x \<in> set pol. strict_prefix (dp_path x) p) \<and> \<not> (\<exists>x \<in> set pol. prefix p (dp_path x))
      else p \<in> fr_path ` set (pl_files pl))"

lemma purge_reports:
  assumes "pc_dry_run cfg \<or> future_given cfg"
  shows "purger_purge order forbidden cfg (Some pl) fs = (fs, Some pl, Inr ())"
  using assms by (auto simp: purger_purge_def purger_report_def)

lemma purge_loses:
  assumes "purger_purge order forbidden cfg (Some pl) fs = (fs', pl', r)" and "\<And>vs. set (order vs) \<subseteq> set vs"
    and "set (pl_directories pl) = dp_path ` set pol"
  shows "only_lost fs fs' (purgeable pol pl)"
proof (cases "pc_dry_run cfg \<or> future_given cfg")
  case True
  then have "fs' = fs" using assms(1) by (simp only: purge_reports prod.inject)
  then show ?thesis by (simp add: only_lost_refl)
next
  case False
  obtain fs1 u where u: "unlink_all forbidden (map fr_path (pl_files pl)) fs [] = (fs1, u)" by fastforce
  have first: "only_lost fs fs1 (purgeable pol pl)"
    by (rule only_lost_mono [OF unlink_all_loses [OF u]]) (auto simp: purgeable_def)
  show ?thesis
  proof (cases u)
    case (Inl e)
    with False u first assms(1) show ?thesis by (simp add: purger_purge_def)
  next
    case (Inr failed)
    define vs where "vs = order (filter_victim_dirs (longest_first (victim_dirs fs1 (pl_directories pl))) (pl_directories pl))"
    obtain fs2 failed' where d: "remove_dirs forbidden vs fs1 failed = (fs2, failed')" by fastforce
    have "fs' = fs2" using assms(1) False u Inr d by (simp add: purger_purge_def tidy_victim_dirs_def vs_def [symmetric])
    moreover have "purgeable pol pl q True" if "q \<in> set vs" for q
    proof -
      have "q \<in> set (filter_victim_dirs (longest_first (victim_dirs fs1 (pl_directories pl))) (pl_directories pl))"
        using that assms(2) by (auto simp: vs_def)
      from victims_below [OF this] show ?thesis by (auto simp: purgeable_def assms(3) strict_prefix_def)
    qed
    moreover have "only_lost fs fs2 (purgeable pol pl)"
      by (rule only_lost_trans [OF first remove_dirs_loses [OF d]]) (use calculation(2) in \<open>auto\<close>)
    ultimately show ?thesis by simp
  qed
qed

lemma check_file_path: "check_file p dp w t = Inr (Some x) \<Longrightarrow> fr_path x = p"
  by (auto simp: check_file_def check_status_def Let_def split: entry.splits stat_answer.splits if_splits)

lemma planned_path:
  assumes "fs_ok fs" and "make_plan fs pol future n = Inr pl" and "x \<in> set (pl_files pl)"
  shows "fr_path x \<noteq> []"
proof -
  obtain d r f where "planned_by fs pol (n + (case future of None \<Rightarrow> 0 | Some d \<Rightarrow> d)) d r f x"
    using plan_loop_files [OF assms(1) assms(2) [unfolded make_plan_def], of x] assms(3) by auto
  then show ?thesis
    by (auto simp: planned_by_def dest: check_file_path)
qed

lemma purge_clears:
  assumes "purger_purge order forbidden cfg (Some pl) fs = (fs', pl', Inr ())" and "[] \<notin> fr_path ` set (pl_files pl)"
    and "\<not> pc_dry_run cfg" and "\<not> future_given cfg"
  shows "pl' = None \<and> (\<forall>x \<in> set (pl_files pl). lookup fs' (fr_path x) = None)"
proof -
  obtain fs1 u where u: "unlink_all forbidden (map fr_path (pl_files pl)) fs [] = (fs1, u)" by fastforce
  obtain failed where failed: "u = Inr failed" using assms(1,3,4) u by (cases u) (auto simp: purger_purge_def)
  define vs where "vs = order (filter_victim_dirs (longest_first (victim_dirs fs1 (pl_directories pl))) (pl_directories pl))"
  obtain fs2 failed' where d: "remove_dirs forbidden vs fs1 failed = (fs2, failed')" by fastforce
  have "fs' = fs2 \<and> failed' = [] \<and> pl' = None"
    using assms(1,3,4) u failed d
    by (auto simp: purger_purge_def tidy_victim_dirs_def vs_def [symmetric] split: if_splits)
  moreover from this have "failed = []" using remove_dirs_failed [OF d] by simp
  ultimately show ?thesis
    using unlink_all_clears [OF u [unfolded failed]] assms(2) only_lost_gone [OF remove_dirs_loses [OF d]] by auto
qed

text \<open>C29: Running the purger, whatever errors occur, takes away only files that its plan
  holds and directories strictly below a directory of the policy that are neither named in the
  policy nor hold one that is; no other file changes and nothing is new.\<close>

theorem purge_safe:
  assumes "purger_execute order forbidden cfg n fs = (fs', pl', r)" and "\<And>vs. set (order vs) = set vs"
  shows "only_lost fs fs' (\<lambda>p d. \<exists>pl. make_plan fs (pc_policy cfg) (pc_future cfg) n = Inr pl \<and> purgeable (pc_policy cfg) pl p d)"
proof (cases "make_plan fs (pc_policy cfg) (pc_future cfg) n")
  case (Inl e)
  then show ?thesis using assms(1) by (simp add: purger_execute_def purger_plan_def only_lost_refl)
next
  case (Inr pl)
  then have "purger_purge order forbidden cfg (Some pl) fs = (fs', pl', r)"
    using assms(1) by (simp add: purger_execute_def purger_plan_def)
  from purge_loses [OF this _ plan_directories [OF Inr]] assms(2) Inr show ?thesis by (auto intro: only_lost_mono)
qed

theorem purge_complete:
  assumes "fs_ok fs" and "purger_execute order forbidden cfg n fs = (fs', pl', Inr ())"
    and "\<not> pc_dry_run cfg" and "\<not> future_given cfg"
  shows "pl' = None \<and> (\<exists>pl. make_plan fs (pc_policy cfg) (pc_future cfg) n = Inr pl \<and>
    (\<forall>x \<in> set (pl_files pl). lookup fs' (fr_path x) = None))"
proof (cases "make_plan fs (pc_policy cfg) (pc_future cfg) n")
  case (Inl e)
  then show ?thesis using assms(2) by (simp add: purger_execute_def purger_plan_def)
next
  case (Inr pl)
  then have "purger_purge order forbidden cfg (Some pl) fs = (fs', pl', Inr ())"
    using assms(2) by (simp add: purger_execute_def purger_plan_def)
  moreover have "[] \<notin> fr_path ` set (pl_files pl)" using planned_path [OF assms(1) Inr] by (metis imageE)
  ultimately show ?thesis using purge_clears Inr assms(3,4) by blast
qed

section \<open>An example\<close>

text \<open>
  A scratch area with an old large file in a subdirectory of its own, a new one, a small old file under
  the directory of a more lenient policy, and a link.
\<close>

definition example_stat :: "int \<Rightarrow> datetime \<Rightarrow> file_stat" where
  "example_stat n t = \<lparr>st_size = n, st_atime = t, st_ctime = t, st_mtime = t\<rparr>"

definition example_fs :: entry where
  "example_fs = Dir True [(''s'', Dir True
     [(''a'', Dir True [(''old'', File (Stat (example_stat 200 0)))]),
      (''new'', File (Stat (example_stat 200 90))),
      (''p'', Dir True [(''old'', File (Stat (example_stat 200 0))), (''gone'', File Vanished)]),
      (''link'', Link)])]"

definition no_intervals :: intervals where
  "no_intervals = \<lparr>access_interval = None, creation_interval = None, modification_interval = None\<rparr>"

definition example_dir :: directory_policy where
  "example_dir = \<lparr>dp_path = [''s''], dp_threshold = 100, dp_large = no_intervals\<lparr>access_interval := Some 50\<rparr>,
     dp_small = no_intervals\<rparr>"

definition example_policy :: policy where
  "example_policy = [example_dir, \<lparr>dp_path = [''s'', ''p''], dp_threshold = 100, dp_large = no_intervals,
     dp_small = no_intervals\<rparr>]"

definition example_record :: file_record where
  "example_record = \<lparr>fr_path = [''s'', ''a'', ''old''], fr_class = LARGE_FILE, fr_reason = ATIME, fr_interval = 100,
     fr_criterion = 50\<rparr>"

definition example_plan :: plan where
  "example_plan = \<lparr>pl_directories = [[''s''], [''s'', ''p'']], pl_files = [example_record]\<rparr>"

definition example_purger :: purger_config where
  "example_purger = \<lparr>pc_policy = example_policy, pc_dry_run = False, pc_future = None\<rparr>"

definition example_purged :: entry where
  "example_purged = Dir True [(''s'', Dir True
     [(''new'', File (Stat (example_stat 200 90))),
      (''p'', Dir True [(''old'', File (Stat (example_stat 200 0))), (''gone'', File Vanished)]),
      (''link'', Link)])]"

lemmas example_defs = example_fs_def example_policy_def example_dir_def no_intervals_def example_stat_def example_record_def
  example_plan_def example_purger_def example_purged_def

lemma example_directories: "get_directories example_policy = [[''s''], [''s'', ''p'']]"
  by code_simp

lemma example_make_plan: "make_plan example_fs example_policy None 100 = Inr example_plan"
  by code_simp

lemma example_execute:
  "purger_execute (\<lambda>vs. vs) (\<lambda>p. False) example_purger 100 example_fs = (example_purged, None, Inr ())"
  by code_simp

theorem plan_exact_witness:
  "\<exists>r f st dp. lookup example_fs (r @ [f]) = Some (File (Stat st)) \<and> governs example_policy dp r \<and> opened example_fs (dp_path dp) r \<and>
     check_status (r @ [f]) dp (plan_time None 100) st = Some example_record"
  by (rule plan_exact [of example_fs example_policy None 100 example_plan example_record, THEN iffD1, OF _ _ example_make_plan])
    (simp_all add: example_defs policy_ok_def)

theorem purge_safe_witness:
  "only_lost example_fs example_purged (\<lambda>p d. \<exists>pl. make_plan example_fs (pc_policy example_purger) (pc_future example_purger) 100 = Inr pl \<and>
     purgeable (pc_policy example_purger) pl p d)"
  by (rule purge_safe [OF example_execute]) simp

theorem purge_complete_witness:
  "lookup example_fs [''s'', ''a'', ''old''] \<noteq> None \<and> (\<exists>pl. make_plan example_fs example_policy None 100 = Inr pl \<and>
    (\<forall>x \<in> set (pl_files pl). lookup example_purged (fr_path x) = None))"
proof -
  have "\<exists>pl. make_plan example_fs (pc_policy example_purger) (pc_future example_purger) 100 = Inr pl \<and>
    (\<forall>x \<in> set (pl_files pl). lookup example_purged (fr_path x) = None)"
    using purge_complete [OF _ example_execute] by (simp add: example_defs future_given_def)
  then show ?thesis by (simp add: example_purger_def, simp add: example_fs_def)
qed

definition guarded_fs :: entry where
  "guarded_fs = Dir True [(''s'', Dir True [(''f'', File Denied)])]"

theorem denied_file_stops_plan_witness: "make_plan guarded_fs [example_dir] None 100 = Inl Unbound_status"
  by (rule denied_file_stops_plan [of _ _ example_dir "[''s'']" "''f''"])
    (auto simp: guarded_fs_def policy_ok_def governs_def opened_def example_dir_def prefix_Cons)

end
