(* ===== verification/Registry_Clients.thy ===== *)
theory Registry_Clients
  imports Kube_Storage
begin

text \<open>
  The clients of the image registries: \<open>storage/docker.py\<close>, \<open>storage/gar.py\<close>, the configuration of
  the sources in \<open>models/images/_sources.py\<close>, and the image managers of \<open>services/images\<close>, all under
  \<open>src/src/nublado\<close>. Third-party code is a parameter: the parser of the \<open>Link\<close> header, the joining
  of a relative URL to its base, and the comparison of versions; so is the order of a Python set.
\<close>

section \<open>Sources and state\<close>

record docker_source =
  ds_registry :: string
  ds_repository :: string

definition docker_url_for :: "docker_source \<Rightarrow> string \<Rightarrow> string" where
  "docker_url_for c route = ''https://'' @ ds_registry c @ ''/v2/'' @ ds_repository c @ ''/'' @ route"

record gar_source =
  gs_location :: string
  gs_project_id :: string
  gs_repository :: string
  gs_image :: string

definition gar_registry :: "gar_source \<Rightarrow> string" where
  "gar_registry c = gs_location c @ ''-docker.pkg.dev''"

definition gar_parent :: "gar_source \<Rightarrow> string" where
  "gar_parent c = ''projects/'' @ gs_project_id c @ ''/locations/'' @ gs_location c @ ''/repositories/'' @ gs_repository c"

definition gar_path :: "gar_source \<Rightarrow> string" where
  "gar_path c = gs_project_id c @ ''/'' @ gs_repository c @ ''/'' @ gs_image c"

record registry_params =
  rp_vcmp :: vcompare
  rp_it :: set_iter
  rp_credentials :: credential_store
  rp_next_url :: "string \<Rightarrow> string option"
  rp_join :: "string \<Rightarrow> string \<Rightarrow> string"
  rp_pages :: nat

text \<open>The authorization headers of the Docker client by host, and the store of image objects.\<close>

record image_world = kube +
  docker_auth :: "(string, string) dict"
  img_store :: store
  img_next :: addr

type_synonym ('x, 'a) r_proc = "('x image_world_scheme, k_wait, k_answer, k_exn, 'a) proc"

definition new_images :: "rsp_image list \<Rightarrow> ('x, addr list) r_proc" where
  "new_images is =
     bind (reading img_next) (\<lambda>n.
     seq (act (\<lambda>s. s\<lparr>img_store := (\<lambda>a. if n \<le> a \<and> a < n + length is then is ! (a - n) else img_store s a),
                   img_next := n + length is\<rparr>))
         (Ret [n ..< n + length is]))"

text \<open>An operation on collections, run on the store.\<close>

definition on_store :: "(store \<Rightarrow> (image_error, store \<times> 'a) result) \<Rightarrow> ('x, 'a) r_proc" where
  "on_store f =
     bind (reading (\<lambda>s. f (img_store s))) (\<lambda>r. case r of
         Inl e \<Rightarrow> Raise (K_images (Collection_error e))
       | Inr (h, x) \<Rightarrow> seq (act (\<lambda>s. s\<lparr>img_store := h\<rparr>)) (Ret x))"

definition make_images :: "registry_params \<Rightarrow> rsp_image list \<Rightarrow> nat option \<Rightarrow> ('x, image_collection) r_proc" where
  "make_images rp is cyc =
     bind (new_images is) (\<lambda>as. on_store (replace_contents (rp_vcmp rp) (rp_it rp) as cyc))"

definition or_tag_error :: "(tag_error, 'a) result \<Rightarrow> ('x, 'a) r_proc" where
  "or_tag_error r = (case r of Inl e \<Rightarrow> Raise (K_images (Tag_error e)) | Inr x \<Rightarrow> Ret x)"

section \<open>The Docker client\<close>

definition manifest_accept :: string where
  "manifest_accept = str_join '', ''
     [''application/vnd.docker.distribution.manifest.v2+json'',
      ''application/vnd.docker.distribution.manifest.list.v2+json'',
      ''application/vnd.oci.image.manifest.v1+json'',
      ''application/vnd.oci.image.index.v1+json'',
      ''application/json;q=0.5'']"

definition build_headers :: "string \<Rightarrow> bool \<Rightarrow> (string, string) dict \<Rightarrow> (string, string) dict" where
  "build_headers host manifest auths =
     (''accept'', if manifest then manifest_accept else ''application/json'') #
     (case map_of auths host of None \<Rightarrow> [] | Some a \<Rightarrow> [(''authorization'', a)])"

definition headers_for :: "string \<Rightarrow> bool \<Rightarrow> ('x, (string, string) dict) r_proc" where
  "headers_for host manifest = reading (\<lambda>s. build_headers host manifest (docker_auth s))"

definition http :: "http_request \<Rightarrow> ('x, http_response) r_proc" where
  "http q = bind (await (Http q)) (\<lambda>a. case a of K_http r \<Rightarrow> Ret r | _ \<Rightarrow> Raise K_type)"

definition plain_request :: "string \<Rightarrow> string \<Rightarrow> (string, string) dict \<Rightarrow> http_request" where
  "plain_request m url headers =
     \<lparr>hq_method = m, hq_url = url, hq_headers = headers, hq_auth = None, hq_params = []\<rparr>"

definition raise_for_status :: "http_response \<Rightarrow> ('x, unit) r_proc" where
  "raise_for_status r =
     (if 200 \<le> hr_status r \<and> hr_status r < 300 then Ret () else Raise (K_images Http_error))"

definition docker_raise :: "docker_problem \<Rightarrow> ('x, 'a) r_proc" where
  "docker_raise d = Raise (K_images (Docker_error d))"

text \<open>\<open>except HTTPError\<close>, and \<open>except Exception\<close> after it.\<close>

definition http_errors :: "('x, 'a) r_proc \<Rightarrow> ('x, 'a) r_proc" where
  "http_errors p = catch p (\<lambda>e. if e = K_images Http_error then docker_raise Http_failed else Raise e)"

definition all_errors :: "docker_problem \<Rightarrow> ('x, 'a) r_proc \<Rightarrow> ('x, 'a) r_proc" where
  "all_errors d p = catch p (\<lambda>e. if e = K_images Http_error then docker_raise Http_failed
     else if is_exn e then docker_raise d else Raise e)"

text \<open>\<open>s.split(None, 1)\<close> where two parts are expected.\<close>

definition split_word :: "string \<Rightarrow> (string \<times> string) option" where
  "split_word s =
     (let s = dropWhile is_space s; w = takeWhile (\<lambda>c. \<not> is_space c) s;
          rest = dropWhile is_space (dropWhile (\<lambda>c. \<not> is_space c) s)
      in if w = [] \<or> rest = [] then None else Some (w, rest))"

fun challenge_params :: "string list \<Rightarrow> (string, string) dict \<Rightarrow> (string, string) dict option" where
  "challenge_params [] params = Some params"
| "challenge_params (p # ps) params =
     (case split_first (CHR ''='') p of
        None \<Rightarrow> None
      | Some (k, v) \<Rightarrow> challenge_params ps (dset k (filter (\<lambda>c. c \<noteq> CHR 0x22) v) params))"

definition get_bearer_token :: "registry_params \<Rightarrow> string \<Rightarrow> string \<Rightarrow> ('x, string) r_proc" where
  "get_bearer_token rp host challenge =
     (case store_get host (rp_credentials rp) of
        None \<Rightarrow> docker_raise No_credentials
      | Some c \<Rightarrow>
          bind (or_raise K_value (challenge_params (split_on (CHR '','') challenge) [])) (\<lambda>params.
          bind (or_raise K_key (map_of params ''realm'')) (\<lambda>url.
          all_errors Cannot_parse_login
            (bind (http \<lparr>hq_method = ''GET'', hq_url = url, hq_headers = [],
                    hq_auth = Some (cred_username c, cred_password c), hq_params = params\<rparr>) (\<lambda>r.
             seq (raise_for_status r) (or_raise K_key (hr_token r)))))))"

definition authorize :: "string \<Rightarrow> string \<Rightarrow> ('x, unit) r_proc" where
  "authorize host a = act (\<lambda>s. s\<lparr>docker_auth := dset host a (docker_auth s)\<rparr>)"

definition authenticate :: "registry_params \<Rightarrow> string \<Rightarrow> http_response \<Rightarrow> ('x, (string, string) dict) r_proc" where
  "authenticate rp host r =
     bind (reading docker_auth) (\<lambda>auths.
     if map_of auths host \<noteq> None then docker_raise Rejected
     else case store_get host (rp_credentials rp) of
         None \<Rightarrow> docker_raise No_credentials
       | Some c \<Rightarrow>
           (case map_of (hr_headers r) ''www-authenticate'' of
              None \<Rightarrow> docker_raise No_challenge
            | Some challenge \<Rightarrow>
                if challenge = [] then docker_raise No_challenge
                else
                  bind (or_raise K_value (split_word challenge)) (\<lambda>(ty, params).
                  seq (if map to_lower ty = ''basic'' then authorize host (authorization c)
                       else if map to_lower ty = ''bearer''
                       then bind (get_bearer_token rp host params) (\<lambda>token. authorize host (''Bearer '' @ token))
                       else docker_raise Unknown_challenge)
                      (headers_for host False))))"

definition delete_image :: "registry_params \<Rightarrow> docker_source \<Rightarrow> string \<Rightarrow> ('x, unit) r_proc" where
  "delete_image rp c d =
     (let url = docker_url_for c (''manifests/'' @ d)
      in bind (headers_for (ds_registry c) False) (\<lambda>h.
         http_errors
          (bind (http (plain_request ''DELETE'' url h)) (\<lambda>r.
           bind (if hr_status r = 401
                 then bind (authenticate rp (ds_registry c) r) (\<lambda>h. http (plain_request ''DELETE'' url h))
                 else Ret r) raise_for_status))))"

definition get_image_digest :: "registry_params \<Rightarrow> docker_source \<Rightarrow> string \<Rightarrow> ('x, string) r_proc" where
  "get_image_digest rp c tag =
     (let url = docker_url_for c (''manifests/'' @ tag); host = ds_registry c
      in bind (headers_for host True) (\<lambda>h.
         all_errors Cannot_get_digest
          (bind (http (plain_request ''HEAD'' url h)) (\<lambda>r.
           bind (if hr_status r = 401
                 then seq (authenticate rp host r)
                        (bind (headers_for host True) (\<lambda>h. http (plain_request ''HEAD'' url h)))
                 else Ret r) (\<lambda>r.
           seq (raise_for_status r) (or_raise K_key (map_of (hr_headers r) ''docker-content-digest'')))))))"

definition parse_next_link_header :: "registry_params \<Rightarrow> string \<Rightarrow> http_response \<Rightarrow> string \<Rightarrow> ('x, string option) r_proc" where
  "parse_next_link_header rp host r url =
     (case map_of (hr_headers r) ''link'' of
        None \<Rightarrow> Ret None
      | Some link \<Rightarrow>
          if link = [] then Ret None
          else (case rp_next_url rp link of
              None \<Rightarrow> Ret None
            | Some next' \<Rightarrow>
                if next' = [] then Ret None
                else if prefix (''https://'' @ host @ ''/'') (rp_join rp url next') then Ret (Some (rp_join rp url next'))
                else docker_raise Foreign_page))"

definition fetch_tags :: "registry_params \<Rightarrow> string \<Rightarrow> string \<Rightarrow> (string, string) dict
    \<Rightarrow> ('x, (string, string) dict \<times> http_response \<times> tags_body) r_proc" where
  "fetch_tags rp host url h =
     all_errors Cannot_parse_response
      (bind (http (plain_request ''GET'' url h)) (\<lambda>r.
       bind (if hr_status r = 401
             then bind (authenticate rp host r) (\<lambda>h. bind (http (plain_request ''GET'' url h)) (\<lambda>r. Ret (h, r)))
             else Ret (h, r)) (\<lambda>(h, r).
       seq (raise_for_status r) (bind (or_raise K_key (hr_tags r)) (\<lambda>tags. Ret (h, r, tags))))))"

text \<open>The pages of the list of tags; a list that is null fails when it is counted.\<close>

fun tag_pages :: "nat \<Rightarrow> registry_params \<Rightarrow> string \<Rightarrow> string \<Rightarrow> (string, string) dict \<Rightarrow> string list \<Rightarrow> string list
    \<Rightarrow> ('x, string list) r_proc" where
  "tag_pages 0 rp host url h seen tags = Raise Out_of_fuel"
| "tag_pages (Suc n) rp host url h seen tags =
     bind (fetch_tags rp host url h) (\<lambda>(h, r, body).
     case body of
       Null_tags \<Rightarrow> Raise K_type
     | Tags ts \<Rightarrow>
         bind (parse_next_link_header rp host r url) (\<lambda>x. case x of
             None \<Rightarrow> Ret (fold set_add ts tags)
           | Some url' \<Rightarrow>
               if url' = [] then Ret (fold set_add ts tags)
               else if url' \<in> set (url # seen) then docker_raise Repeated_page
               else tag_pages n rp host url' h (url # seen) (fold set_add ts tags)))"

definition docker_list_tags :: "registry_params \<Rightarrow> docker_source \<Rightarrow> ('x, string list) r_proc" where
  "docker_list_tags rp c =
     bind (headers_for (ds_registry c) False) (\<lambda>h.
       tag_pages (rp_pages rp) rp (ds_registry c) (docker_url_for c ''tags/list'') h [] [])"

section \<open>The client of the Google Artifact Registry\<close>

definition gar_delete_batch_size :: nat where
  "gar_delete_batch_size = 50"

definition gar_retry_delay :: timedelta where
  "gar_retry_delay = seconds 10"

definition gar_retry_limit :: nat where
  "gar_retry_limit = 3"

fun batched :: "nat \<Rightarrow> 'a list \<Rightarrow> 'a list list" where
  "batched n [] = []"
| "batched n (x # xs) = (x # take (n - 1) xs) # batched n (drop (n - 1) xs)"

definition gar_delete_images :: "gar_source \<Rightarrow> string list \<Rightarrow> ('x, unit) r_proc" where
  "gar_delete_images c digests =
     (let parent = gar_parent c @ ''/packages/'' @ gs_image c;
          names = map (\<lambda>d. parent @ ''/versions/'' @ d) digests
      in for_each (batched gar_delete_batch_size names) (\<lambda>chunk. bind (await (Gar_delete parent chunk)) (\<lambda>_. Ret ())))"

fun gar_images :: "gar_source \<Rightarrow> gar_image list \<Rightarrow> rsp_image list option" where
  "gar_images c [] = Some []"
| "gar_images c (g # gs) =
     (case split_first (CHR ''@'') (last (split_on (CHR ''/'') (ga_uri g))) of
        None \<Rightarrow> None
      | Some (name, d) \<Rightarrow>
          map_option (\<lambda>is.
            (if name \<noteq> gs_image c then []
             else map (\<lambda>t. from_tag (from_str t) (gar_registry c) (gar_path c) d (Some (ga_size g))) (ga_tags g)) @ is)
            (gar_images c gs))"

definition fetch_image_list :: "gar_source \<Rightarrow> ('x, rsp_image list) r_proc" where
  "fetch_image_list c =
     bind (await (Gar_list (gar_parent c))) (\<lambda>a. case a of
         K_gar gs \<Rightarrow> or_raise K_value (gar_images c gs)
       | _ \<Rightarrow> Raise K_type)"

text \<open>Only the two errors of a server that is unavailable are retried, after a pause.\<close>

fun gar_attempts :: "nat \<Rightarrow> gar_source \<Rightarrow> ('x, rsp_image list option) r_proc" where
  "gar_attempts 0 c = Ret None"
| "gar_attempts (Suc n) c =
     try_else (fetch_image_list c)
       (\<lambda>e. if e = K_images (Google_error True)
            then bind (await (Sleep gar_retry_delay)) (\<lambda>_. gar_attempts n c) else Raise e)
       (\<lambda>is. Ret (Some is))"

definition gar_list_images :: "registry_params \<Rightarrow> gar_source \<Rightarrow> nat option \<Rightarrow> ('x, image_collection) r_proc" where
  "gar_list_images rp c cyc =
     bind (gar_attempts gar_retry_limit c) (\<lambda>x.
     bind (case x of Some (i # is) \<Rightarrow> Ret (i # is) | _ \<Rightarrow> fetch_image_list c) (\<lambda>is.
       make_images rp is cyc))"

section \<open>Image managers\<close>

definition docker_delete_tags :: "registry_params \<Rightarrow> docker_source \<Rightarrow> string list \<Rightarrow> ('x, unit) r_proc" where
  "docker_delete_tags rp c tags =
     for_each tags (\<lambda>t. bind (get_image_digest rp c t) (delete_image rp c))"

fun delete_each_digest :: "registry_params \<Rightarrow> docker_source \<Rightarrow> string list \<Rightarrow> string list \<Rightarrow> ('x, unit) r_proc" where
  "delete_each_digest rp c [] deleted = Ret ()"
| "delete_each_digest rp c (t # ts) deleted =
     bind (get_image_digest rp c t) (\<lambda>d.
       if d \<in> set deleted then delete_each_digest rp c ts deleted
       else seq (delete_image rp c d) (delete_each_digest rp c ts (d # deleted)))"

definition docker_prune_images :: "registry_params \<Rightarrow> docker_source \<Rightarrow> image_filter_policy \<Rightarrow> bool
    \<Rightarrow> ('x, string list) r_proc" where
  "docker_prune_images rp c policy dry_run =
     bind (docker_list_tags rp c) (\<lambda>names.
     bind (or_tag_error (from_tag_names (rp_vcmp rp) (rp_it rp names) {} None)) (\<lambda>tags.
     bind (reading k_clock) (\<lambda>n.
       let victims = map tag_name (filter_collection (rp_vcmp rp) id policy n True False tags)
       in seq (do_if (\<not> dry_run) (delete_each_digest rp c victims [])) (Ret victims))))"

definition gar_delete_tags :: "registry_params \<Rightarrow> gar_source \<Rightarrow> string list \<Rightarrow> ('x, unit) r_proc" where
  "gar_delete_tags rp c tags =
     bind (gar_list_images rp c None) (\<lambda>images.
     bind (reading img_store) (\<lambda>h.
       gar_delete_images c
         (concat (map (\<lambda>t. case image_for_tag_name t images of None \<Rightarrow> [] | Some a \<Rightarrow> [digest (h a)]) tags))))"

definition gar_list_tags :: "registry_params \<Rightarrow> gar_source \<Rightarrow> ('x, string list) r_proc" where
  "gar_list_tags rp c =
     bind (gar_list_images rp c None) (\<lambda>images.
     reading (\<lambda>s. fold set_add
       (map (\<lambda>a. tag_name (img_store s a)) (all_images False False False (img_store s) images)) []))"

definition gar_prune_images :: "registry_params \<Rightarrow> gar_source \<Rightarrow> image_filter_policy \<Rightarrow> bool
    \<Rightarrow> ('x, string list) r_proc" where
  "gar_prune_images rp c policy dry_run =
     bind (gar_list_images rp c None) (\<lambda>images.
     bind (reading (\<lambda>s. (k_clock s, img_store s))) (\<lambda>(n, h).
       let victims = filter_collection (rp_vcmp rp) h policy n True False (collection images)
       in seq (do_if (\<not> dry_run) (gar_delete_images c (map (\<lambda>a. digest (h a)) victims)))
              (Ret (map (\<lambda>a. tag_name (h a)) victims))))"

end
