(* ===== verification/Registry_Laws.thy ===== *)
theory Registry_Laws
  imports Registry_Clients
begin

text \<open>
  What the registry clients ask for: where the Docker client sends its requests, that it gets through
  the pages of a list of tags, and what pruning deletes.
\<close>

section \<open>Requests of the Docker client\<close>

text \<open>
  A request for \<open>host\<close>, or a request for a bearer token, which carries the user name and password
  but no header, in particular no authorization header.
\<close>

definition stays :: "string \<Rightarrow> k_wait \<Rightarrow> bool" where
  "stays host w \<longleftrightarrow> (\<forall>q. w = Http q \<longrightarrow>
     prefix (''https://'' @ host @ ''/'') (hq_url q) \<or> hq_auth q \<noteq> None \<and> hq_headers q = [])"

text \<open>Coroutines that stay with a host, and, unless \<open>any\<close> says otherwise, do not run out of fuel.\<close>

definition tame :: "bool \<Rightarrow> string \<Rightarrow> ('x, 'a) r_proc \<Rightarrow> bool" where
  "tame any host = asks (stays host) (\<lambda>e. any \<or> e \<noteq> Out_of_fuel) (\<lambda>r. any \<or> r \<noteq> Inl Out_of_fuel)"

lemma tame_Ret: "tame any host (Ret a)"
  by (simp add: tame_def)

lemma tame_Raise: "e \<noteq> Out_of_fuel \<Longrightarrow> tame any host (Raise e)"
  by (simp add: tame_def)

lemma tame_bind: "tame any host p \<Longrightarrow> (\<And>a. tame any host (f a)) \<Longrightarrow> tame any host (bind p f)"
  unfolding tame_def by (erule asks_bind) auto

lemma tame_seq: "tame any host p \<Longrightarrow> tame any host q \<Longrightarrow> tame any host (seq p q)"
  unfolding tame_def by (erule asks_seq) auto

lemma tame_catch:
  "tame any host p \<Longrightarrow> (\<And>e. any \<or> e \<noteq> Out_of_fuel \<Longrightarrow> tame any host (h e)) \<Longrightarrow> tame any host (catch p h)"
  unfolding tame_def by (erule asks_catch) auto

lemma tame_await: "stays host w \<Longrightarrow> tame any host (await w)"
  unfolding tame_def by (rule asks_await) auto

lemma tame_reading: "tame any host (reading f)" and tame_act: "tame any host (act g)"
  by (simp_all add: tame_def asks_reading asks_act)

lemma tame_if: "(b \<Longrightarrow> tame any host p) \<Longrightarrow> (\<not> b \<Longrightarrow> tame any host q) \<Longrightarrow> tame any host (if b then p else q)"
  by simp

lemma tame_option: "tame any host p \<Longrightarrow> (\<And>x. tame any host (f x)) \<Longrightarrow> tame any host (case v of None \<Rightarrow> p | Some x \<Rightarrow> f x)"
  by (cases v) simp_all

lemma tame_or_raise: "e \<noteq> Out_of_fuel \<Longrightarrow> tame any host (or_raise e x)"
  by (auto simp: or_raise_def intro: tame_option tame_Ret tame_Raise)

lemma tame_docker_raise: "tame any host (docker_raise d)"
  by (simp add: docker_raise_def tame_Raise)

lemma tame_http:
  "prefix (''https://'' @ host @ ''/'') (hq_url q) \<or> hq_auth q \<noteq> None \<and> hq_headers q = [] \<Longrightarrow> tame any host (http q)"
  unfolding http_def
  by (rule tame_bind [OF tame_await]) (auto simp: stays_def split: k_answer.split intro: tame_Ret tame_Raise)

lemma tame_errors: "tame any host p \<Longrightarrow> tame any host (http_errors p)" "tame any host p \<Longrightarrow> tame any host (all_errors d p)"
  unfolding http_errors_def all_errors_def
  by (erule tame_catch; auto simp: is_exn_def tame_def docker_raise_def)+

lemma tame_raise_for_status: "tame any host (raise_for_status r)"
  by (simp add: raise_for_status_def tame_Ret tame_Raise)

lemmas tame_intros = tame_Ret tame_bind tame_seq tame_reading tame_act tame_if tame_option tame_docker_raise
  tame_errors tame_raise_for_status

lemma url_stays: "prefix (''https://'' @ ds_registry c @ ''/'') (docker_url_for c r)"
  by (simp add: docker_url_for_def)

lemma tame_headers_for: "tame any host (headers_for host' m)"
  by (simp add: headers_for_def tame_reading)

lemma tame_plain: "prefix (''https://'' @ host @ ''/'') url \<Longrightarrow> tame any host (http (plain_request m url h))"
  by (rule tame_http) (simp add: plain_request_def)

lemma tame_get_bearer_token: "tame any host (get_bearer_token rp host' ch)"
  unfolding get_bearer_token_def
  by (intro tame_intros tame_or_raise tame_http) auto

lemma tame_authenticate: "tame any host (authenticate rp host' r)"
  unfolding authenticate_def authorize_def
  by (auto intro!: tame_intros tame_or_raise tame_get_bearer_token tame_headers_for)

lemma tame_fetch_tags: "prefix (''https://'' @ host @ ''/'') url \<Longrightarrow> tame any host (fetch_tags rp host url h)"
  unfolding fetch_tags_def
  by (intro tame_intros; (intro tame_plain tame_authenticate tame_or_raise)?; (auto intro!: tame_intros tame_or_raise split: prod.split)?)

text \<open>The next page is a page of the host.\<close>

lemma asks_next_link:
  "asks (stays host) (\<lambda>e. any \<or> e \<noteq> Out_of_fuel)
     (\<lambda>r. (any \<or> r \<noteq> Inl Out_of_fuel) \<and>
        (\<forall>u. r = Inr (Some u) \<longrightarrow> prefix (''https://'' @ host @ ''/'') u \<and> (\<exists>l. u = rp_join rp url l)))
     (parse_next_link_header rp host r url)"
  by (auto simp: parse_next_link_header_def docker_raise_def split: option.split)

lemma tame_tag_pages:
  assumes "any \<or> (finite V \<and> (\<forall>b l. rp_join rp b l \<in> V))"
  shows "prefix (''https://'' @ host @ ''/'') url \<Longrightarrow>
    any \<or> url \<in> V \<and> set seen \<subseteq> V \<and> distinct (url # seen) \<and> card V < n + length (url # seen) \<Longrightarrow>
    tame any host (tag_pages n rp host url h seen tags :: ('x, string list) r_proc)"
proof (induction n arbitrary: url h seen tags)
  case 0
  have "any"
  proof (rule ccontr)
    assume "\<not> any"
    with 0 assms have V: "finite V" "set (url # seen) \<subseteq> V" "distinct (url # seen)" "card V < length (url # seen)" by auto
    from card_mono [OF V(1,2)] distinct_card [OF V(3)] V(4) show False by simp
  qed
  then show ?case by (simp add: tame_def)
next
  case (Suc n)
  have page: "tame any host (case body of Null_tags \<Rightarrow> Raise K_type
      | Tags ts \<Rightarrow> bind (parse_next_link_header rp host r url) (\<lambda>x. case x of
             None \<Rightarrow> Ret (fold set_add ts tags)
           | Some url' \<Rightarrow>
               if url' = [] then Ret (fold set_add ts tags)
               else if url' \<in> set (url # seen) then docker_raise Repeated_page
               else (tag_pages n rp host url' h (url # seen) (fold set_add ts tags) :: ('x, string list) r_proc)))" for h r body
  proof (cases body)
    case (Tags ts)
    have next': "tame any host (case x of
             None \<Rightarrow> Ret (fold set_add ts tags)
           | Some url' \<Rightarrow>
               if url' = [] then Ret (fold set_add ts tags)
               else if url' \<in> set (url # seen) then docker_raise Repeated_page
               else (tag_pages n rp host url' h (url # seen) (fold set_add ts tags) :: ('x, string list) r_proc))"
      if x: "\<forall>u. x = Some u \<longrightarrow> prefix (''https://'' @ host @ ''/'') u \<and> (\<exists>l. u = rp_join rp url l)" for x
    proof (cases x)
      case (Some u)
      show ?thesis
      proof (cases "u = [] \<or> u \<in> set (url # seen)")
        case False
        have "tame any host (tag_pages n rp host u h (url # seen) (fold set_add ts tags) :: ('x, string list) r_proc)"
          by (rule Suc.IH) (use False x Some Suc.prems(2) assms in auto)
        with Some False show ?thesis by simp
      qed (use Some in \<open>auto intro: tame_Ret tame_docker_raise\<close>)
    qed (simp add: tame_Ret)
    show ?thesis
      unfolding Tags tags_body.case
      using next' by (auto simp: tame_def intro: asks_bind [OF asks_next_link])
  qed (simp add: tame_Raise)
  show ?case
    unfolding tag_pages.simps
    by (rule tame_bind [OF tame_fetch_tags [OF Suc.prems(1)]]) (auto split: prod.split intro: page)
qed

text \<open>C9: Whatever the registry answers, the Docker client sends its requests only to the
  registry over https, also when it follows links to further pages; the only other requests are
  those for a bearer token, which carry no cached authorization header.\<close>

theorem docker_requests_stay:
  "asks (stays (ds_registry c)) (\<lambda>_. True) (\<lambda>_. True) (docker_list_tags rp c) \<and>
   asks (stays (ds_registry c)) (\<lambda>_. True) (\<lambda>_. True) (get_image_digest rp c tag) \<and>
   asks (stays (ds_registry c)) (\<lambda>_. True) (\<lambda>_. True) (delete_image rp c d)"
proof (intro conjI)
  have tame: "asks (stays host) (\<lambda>_. True) (\<lambda>_. True) p = tame True host p" for host p by (simp add: tame_def)
  show "asks (stays (ds_registry c)) (\<lambda>_. True) (\<lambda>_. True) (docker_list_tags rp c)"
    unfolding tame docker_list_tags_def
    by (intro tame_bind tame_headers_for tame_tag_pages) (auto simp: docker_url_for_def)
  show "asks (stays (ds_registry c)) (\<lambda>_. True) (\<lambda>_. True) (get_image_digest rp c tag)"
    unfolding tame get_image_digest_def Let_def
    by (intro tame_intros tame_headers_for tame_plain tame_authenticate url_stays tame_or_raise) simp
  show "asks (stays (ds_registry c)) (\<lambda>_. True) (\<lambda>_. True) (delete_image rp c d)"
    unfolding tame delete_image_def Let_def
    by (intro tame_intros tame_headers_for tame_plain tame_authenticate url_stays)
qed

text \<open>
  The pages \<open>us\<close> of a listing: the links that the registry sends with them lead to pages of the list again.
\<close>

definition links_within :: "registry_params \<Rightarrow> string list \<Rightarrow> ('x image_world_scheme, k_wait, k_answer, k_exn) env \<Rightarrow> bool" where
  "links_within rp us api \<longleftrightarrow>
     (\<forall>q s r l n. hq_method q = ''GET'' \<and> hq_url q \<in> set us \<and> snd (api (Http q) s) = Inr (K_http r) \<and>
        map_of (hr_headers r) ''link'' = Some l \<and> rp_next_url rp l = Some n \<longrightarrow> rp_join rp (hq_url q) n \<in> set us)"

text \<open>What a page gives is the answer to a request for it.\<close>

definition answers_get :: "('x image_world_scheme, k_wait, k_answer, k_exn) env \<Rightarrow> string \<Rightarrow> http_response \<Rightarrow> bool" where
  "answers_get api url r \<longleftrightarrow>
     (\<exists>q s. hq_method q = ''GET'' \<and> hq_url q = url \<and> snd (api (Http q) s) = Inr (K_http r))"

lemma run_http_answers:
  "run (http (plain_request ''GET'' url g)) api s = (s', Inr r) \<Longrightarrow> answers_get api url r"
  unfolding answers_get_def
  by (intro exI [of _ "plain_request ''GET'' url g"] exI [of _ s])
    (auto simp: http_def run_simps plain_request_def split: prod.splits sum.splits k_answer.splits)

lemma fetched_page:
  assumes "run (fetch_tags rp host url h) api s = (s', Inr (h', r, body))"
  shows "answers_get api url r"
  using assms
  by (auto simp: fetch_tags_def all_errors_def docker_raise_def raise_for_status_def or_raise_def run_simps
      split: prod.splits sum.splits if_splits option.splits dest: run_http_answers)

lemma next_page:
  assumes "run (parse_next_link_header rp host r url) api s = (s', Inr (Some u))"
  shows "\<exists>l n. map_of (hr_headers r) ''link'' = Some l \<and> rp_next_url rp l = Some n \<and> u = rp_join rp url n"
  using assms by (auto simp: parse_next_link_header_def docker_raise_def split: option.splits if_splits)

lemma run_not_out_of_fuel:
  assumes "tame False host p" and "\<And>w s. snd (api w s) \<noteq> Inl Out_of_fuel" and "run p api s = (s', r)"
  shows "r \<noteq> Inl Out_of_fuel"
  using asks_run [OF assms(1) [unfolded tame_def], of api s] assms(2,3) by fastforce

lemma tag_pages_end:
  assumes "links_within rp us api" and "\<And>w s. snd (api w s) \<noteq> Inl Out_of_fuel"
  shows "prefix (''https://'' @ host @ ''/'') url \<Longrightarrow> set (url # seen) \<subseteq> set us \<Longrightarrow> distinct (url # seen) \<Longrightarrow>
    card (set us) < n + length (url # seen) \<Longrightarrow>
    snd (run (tag_pages n rp host url h seen tags) api s) \<noteq> Inl Out_of_fuel"
proof (induction n arbitrary: url h seen tags s)
  case 0
  from card_mono [OF _ 0(2)] distinct_card [OF 0(3)] 0(4) show ?case by simp
next
  case (Suc n)
  obtain s1 x where page: "run (fetch_tags rp host url h) api s = (s1, x)" by fastforce
  show ?case
  proof (cases x)
    case (Inl e)
    with run_not_out_of_fuel [OF tame_fetch_tags [OF Suc.prems(1)] assms(2) page] page show ?thesis by (simp add: run_simps)
  next
    case (Inr y)
    obtain h' r body where y: "y = (h', r, body)" by (cases y) auto
    show ?thesis
    proof (cases body)
      case Null_tags
      then show ?thesis using page Inr y by (simp add: run_simps)
    next
      case (Tags ts)
      obtain s2 z where link: "run (parse_next_link_header rp host r url) api s1 = (s2, z)" by fastforce
      have tame: "tame False host (parse_next_link_header rp host r url)"
        using asks_next_link [of host False rp url r] unfolding tame_def by (rule asks_mono) simp
      show ?thesis
      proof (cases z)
        case (Inl e)
        with run_not_out_of_fuel [OF tame assms(2) link] page link Inr y Tags show ?thesis by (simp add: run_simps)
      next
        case z: (Inr v)
        show ?thesis
        proof (cases "\<exists>u. v = Some u \<and> u \<noteq> [] \<and> u \<notin> set (url # seen)")
          case True
          then obtain u where u: "v = Some u" "u \<noteq> []" "u \<notin> set (url # seen)" by blast
          have "answers_get api url r" using fetched_page page Inr y by simp
          moreover obtain l n' where "map_of (hr_headers r) ''link'' = Some l" "rp_next_url rp l = Some n'" "u = rp_join rp url n'"
            using next_page link z u(1) by blast
          ultimately have "u \<in> set us"
            using assms(1) Suc.prems(2) unfolding links_within_def answers_get_def by force
          moreover have "prefix (''https://'' @ host @ ''/'') u"
            using link z u(1) by (auto simp: parse_next_link_header_def docker_raise_def split: option.splits if_splits)
          ultimately have "snd (run (tag_pages n rp host u h' (url # seen) (fold set_add ts tags)) api s2) \<noteq> Inl Out_of_fuel"
            using Suc.prems u by (intro Suc.IH) auto
          with page link Inr y z u Tags show ?thesis by (simp add: run_simps)
        qed (use page link Inr y z Tags in \<open>auto simp: run_simps docker_raise_def split: option.split\<close>)
      qed
    qed
  qed
qed

text \<open>C10: Listing the tags of a repository ends when the links that the registry sends with
  the pages lead, from the first page on, only to pages of a finite list: a page that repeats is
  an error, so the loop runs at most once for each page of the list.\<close>

theorem list_tags_ends:
  assumes "links_within rp us api" and "docker_url_for c ''tags/list'' \<in> set us" and "length us \<le> rp_pages rp"
    and "\<And>w s. snd (api w s) \<noteq> Inl Out_of_fuel"
  shows "snd (run (docker_list_tags rp c) api s) \<noteq> Inl Out_of_fuel"
proof -
  have "card (set us) < rp_pages rp + 1" using card_length [of us] assms(3) by simp
  then have "snd (run (tag_pages (rp_pages rp) rp (ds_registry c) (docker_url_for c ''tags/list'') h [] []) api s) \<noteq> Inl Out_of_fuel" for h s
    using assms(2) by (intro tag_pages_end [OF assms(1,4)]) (auto simp: docker_url_for_def)
  then show ?thesis by (simp add: docker_list_tags_def headers_for_def run_simps)
qed

section \<open>Pruning\<close>

text \<open>
  A world that records what is deleted. A registry \<open>keeps_books\<close> when only requests to delete delete: a
  request to delete a digest deletes nothing else, and does so when it is answered with success (when it
  fails, it may have or not); and when a tag is asked for with success, the digest in the answer is \<open>dig\<close>
  of the tag. It may refuse or fail to answer whatever it likes, ask for authentication and spread the tags
  over pages.
\<close>

record registry_log = image_world +
  deleted :: "string list"

type_synonym registry_api = "(registry_log, k_wait, k_answer, k_exn) env"

definition succeeded :: "k_exn + k_answer \<Rightarrow> bool" where
  "succeeded x \<longleftrightarrow> (\<exists>r. x = Inr (K_http r) \<and> 200 \<le> hr_status r \<and> hr_status r < 300)"

definition keeps_books :: "docker_source \<Rightarrow> (string \<Rightarrow> string) \<Rightarrow> registry_api \<Rightarrow> bool" where
  "keeps_books c dig api \<longleftrightarrow>
     (\<forall>w s. (\<forall>q. w = Http q \<longrightarrow> hq_method q \<noteq> ''DELETE'') \<longrightarrow> set (deleted (fst (api w s))) = set (deleted s)) \<and>
     (\<forall>h d s. let a = api (Http (plain_request ''DELETE'' (docker_url_for c (''manifests/'' @ d)) h)) s
        in set (deleted s) \<subseteq> set (deleted (fst a)) \<and> set (deleted (fst a)) \<subseteq> insert d (set (deleted s)) \<and>
           (succeeded (snd a) \<longrightarrow> d \<in> set (deleted (fst a)))) \<and>
     (\<forall>h t s r d. snd (api (Http (plain_request ''HEAD'' (docker_url_for c (''manifests/'' @ t)) h)) s) = Inr (K_http r) \<longrightarrow>
        succeeded (Inr (K_http r)) \<longrightarrow> map_of (hr_headers r) ''docker-content-digest'' = Some d \<longrightarrow> d = dig t)"

text \<open>A registry that answers every request for a digest and every request to delete with success.\<close>

definition serves :: "docker_source \<Rightarrow> (string \<Rightarrow> string) \<Rightarrow> registry_api \<Rightarrow> bool" where
  "serves c dig api \<longleftrightarrow>
     (\<forall>h d s. succeeded (snd (api (Http (plain_request ''DELETE'' (docker_url_for c (''manifests/'' @ d)) h)) s))) \<and>
     (\<forall>h t s. \<exists>r. snd (api (Http (plain_request ''HEAD'' (docker_url_for c (''manifests/'' @ t)) h)) s) = Inr (K_http r) \<and>
        succeeded (Inr (K_http r)) \<and> map_of (hr_headers r) ''docker-content-digest'' = Some (dig t))"

text \<open>Coroutines that send no request to delete, and leave the record alone.\<close>

primrec deletes_none :: "(registry_log, k_wait, k_answer, k_exn, 'a) proc \<Rightarrow> bool" where
  "deletes_none (Ret a) \<longleftrightarrow> True"
| "deletes_none (Raise e) \<longleftrightarrow> True"
| "deletes_none (Get k) \<longleftrightarrow> (\<forall>s. deletes_none (k s))"
| "deletes_none (Upd f p) \<longleftrightarrow> (\<forall>s. deleted (f s) = deleted s) \<and> deletes_none p"
| "deletes_none (Await w k) \<longleftrightarrow> (\<forall>q. w = Http q \<longrightarrow> hq_method q \<noteq> ''DELETE'') \<and> (\<forall>r. deletes_none (k r))"

lemma deletes_none_run:
  "deletes_none p \<Longrightarrow> keeps_books c dig api \<Longrightarrow> set (deleted (fst (run p api s))) = set (deleted s)"
  by (induction p arbitrary: s) (auto simp: keeps_books_def)

lemma deletes_none_bind: "deletes_none p \<Longrightarrow> (\<And>a. deletes_none (f a)) \<Longrightarrow> deletes_none (bind p f)"
  by (induction p) auto

lemma deletes_none_seq: "deletes_none p \<Longrightarrow> deletes_none q \<Longrightarrow> deletes_none (seq p q)"
  by (simp add: seq_def deletes_none_bind)

lemma deletes_none_catch: "deletes_none p \<Longrightarrow> (\<And>e. deletes_none (f e)) \<Longrightarrow> deletes_none (catch p f)"
  by (induction p) auto

lemma deletes_none_await: "(\<forall>q. w = Http q \<longrightarrow> hq_method q \<noteq> ''DELETE'') \<Longrightarrow> deletes_none (await w)"
  by (auto simp: await_def split: sum.split)

lemma deletes_none_simps [simp]:
  "deletes_none (reading g)" "deletes_none (act f) \<longleftrightarrow> (\<forall>s. deleted (f s) = deleted s)"
  "deletes_none (or_raise e x)" "deletes_none (docker_raise d)" "deletes_none (raise_for_status r)"
  by (auto simp: reading_def act_def or_raise_def docker_raise_def raise_for_status_def split: option.split)

lemma deletes_none_http: "hq_method q \<noteq> ''DELETE'' \<Longrightarrow> deletes_none (http q)"
  by (auto simp: http_def intro!: deletes_none_bind deletes_none_await split: k_answer.split)

lemma deletes_none_if: "(b \<Longrightarrow> deletes_none p) \<Longrightarrow> (\<not> b \<Longrightarrow> deletes_none q) \<Longrightarrow> deletes_none (if b then p else q)"
  by simp

lemma deletes_none_option:
  "deletes_none p \<Longrightarrow> (\<And>x. deletes_none (f x)) \<Longrightarrow> deletes_none (case v of None \<Rightarrow> p | Some x \<Rightarrow> f x)"
  by (cases v) simp_all

lemma deletes_none_errors: "deletes_none p \<Longrightarrow> deletes_none (all_errors d p)" "deletes_none p \<Longrightarrow> deletes_none (http_errors p)"
  by (auto simp: all_errors_def http_errors_def intro!: deletes_none_catch)

lemmas deletes_none_intros = deletes_none_bind deletes_none_seq deletes_none_if deletes_none_option
  deletes_none_errors deletes_none_http

lemma deletes_none_authenticate: "deletes_none (authenticate rp host r)"
  unfolding authenticate_def get_bearer_token_def authorize_def headers_for_def
  by (auto intro!: deletes_none_intros)

lemma deletes_none_get_image_digest: "deletes_none (get_image_digest rp c t)"
  unfolding get_image_digest_def headers_for_def Let_def
  by (auto intro!: deletes_none_intros deletes_none_authenticate simp: plain_request_def)

lemma deletes_none_fetch_tags: "deletes_none (fetch_tags rp host url h)"
  unfolding fetch_tags_def
  by (auto intro!: deletes_none_intros deletes_none_authenticate simp: plain_request_def)

lemma deletes_none_next_link: "deletes_none (parse_next_link_header rp host r url)"
  by (auto simp: parse_next_link_header_def split: option.split)

lemma deletes_none_tag_pages: "deletes_none (tag_pages n rp host url h seen tags)"
  by (induction n arbitrary: url h seen tags)
    (auto intro!: deletes_none_bind [OF deletes_none_fetch_tags] deletes_none_bind [OF deletes_none_next_link]
      split: tags_body.split option.split)

lemma deletes_none_list_tags: "deletes_none (docker_list_tags rp c)"
  unfolding docker_list_tags_def headers_for_def by (auto intro!: deletes_none_bind deletes_none_tag_pages)

text \<open>A request to delete, with or without authentication in between.\<close>

definition at_most :: "string set \<Rightarrow> registry_log \<Rightarrow> registry_log \<Rightarrow> bool" where
  "at_most D s s' \<longleftrightarrow> set (deleted s) \<subseteq> set (deleted s') \<and> set (deleted s') \<subseteq> D \<union> set (deleted s)"

lemma at_most_refl: "set (deleted s') = set (deleted s) \<Longrightarrow> at_most D s s'"
  by (simp add: at_most_def)

lemma at_most_trans: "at_most D s s' \<Longrightarrow> at_most D s' s'' \<Longrightarrow> at_most D s s''"
  by (auto simp: at_most_def)

lemma at_most_mono: "at_most D s s' \<Longrightarrow> D \<subseteq> D' \<Longrightarrow> at_most D' s s'"
  by (auto simp: at_most_def)

lemma run_delete_request:
  assumes "keeps_books c dig api"
    and "run (http (plain_request ''DELETE'' (docker_url_for c (''manifests/'' @ d)) h)) api s = (s', x)"
  shows "at_most {d} s s'" "x = Inr r \<Longrightarrow> 200 \<le> hr_status r \<Longrightarrow> hr_status r < 300 \<Longrightarrow> d \<in> set (deleted s')"
proof -
  let ?a = "api (Http (plain_request ''DELETE'' (docker_url_for c (''manifests/'' @ d)) h)) s"
  have books: "set (deleted s) \<subseteq> set (deleted (fst ?a))" "set (deleted (fst ?a)) \<subseteq> insert d (set (deleted s))"
    "succeeded (snd ?a) \<Longrightarrow> d \<in> set (deleted (fst ?a))"
    using assms(1) unfolding keeps_books_def Let_def by blast+
  have s': "s' = fst ?a" and x: "x = Inr r \<Longrightarrow> snd ?a = Inr (K_http r)"
    using assms(2) by (auto simp: http_def run_simps split: prod.splits sum.splits k_answer.splits)
  show "at_most {d} s s'" using books(1,2) by (simp add: at_most_def s')
  show "d \<in> set (deleted s')" if "x = Inr r" "200 \<le> hr_status r" "hr_status r < 300"
    using books(3) x [OF that(1)] that(2,3) by (simp add: s' succeeded_def)
qed

lemma run_delete_image:
  assumes "keeps_books c dig api" and "run (delete_image rp c d) api s = (s', r)"
  shows "at_most {d} s s'" "r = Inr () \<Longrightarrow> d \<in> set (deleted s')"
proof -
  define q :: "(string, string) dict \<Rightarrow> (registry_log, k_wait, k_answer, k_exn, http_response) proc"
    where "q = (\<lambda>h. http (plain_request ''DELETE'' (docker_url_for c (''manifests/'' @ d)) h))"
  define h where "h = build_headers (ds_registry c) False (docker_auth s)"
  have run: "run (http_errors (bind (q h) (\<lambda>r. bind (if hr_status r = 401
       then bind (authenticate rp (ds_registry c) r) q else Ret r) raise_for_status))) api s = (s', r)"
    using assms(2) unfolding q_def h_def by (simp add: delete_image_def Let_def headers_for_def run_simps cong: if_cong)
  obtain s1 x where first: "run (q h) api s = (s1, x)" by fastforce
  note one = run_delete_request [OF assms(1) first [unfolded q_def]]
  have "at_most {d} s s' \<and> (r = Inr () \<longrightarrow> d \<in> set (deleted s'))"
  proof (cases "\<exists>a. x = Inr a \<and> hr_status a = 401")
    case True
    then obtain a where a: "x = Inr a" "hr_status a = 401" by blast
    obtain s2 y where auth: "run (authenticate rp (ds_registry c) a) api s1 = (s2, y)" by fastforce
    have same: "at_most {d} s1 s2"
      using deletes_none_run [OF deletes_none_authenticate assms(1), of rp "ds_registry c" a s1] auth by (intro at_most_refl) simp
    show ?thesis
    proof (cases y)
      case (Inl e)
      with run first a auth same at_most_trans [OF one(1) same] show ?thesis
        by (auto simp: http_errors_def docker_raise_def run_simps split: if_splits)
    next
      case (Inr h')
      obtain s3 z where second: "run (q h') api s2 = (s3, z)" by fastforce
      note two = run_delete_request [OF assms(1) second [unfolded q_def]]
      from run first a auth Inr second at_most_trans [OF at_most_trans [OF one(1) same] two(1)] two(2) show ?thesis
        by (auto simp: http_errors_def docker_raise_def raise_for_status_def run_simps split: if_splits sum.splits)
    qed
  next
    case False
    with run first one show ?thesis
      by (auto simp: http_errors_def docker_raise_def raise_for_status_def run_simps split: if_splits sum.splits)
  qed
  then show "at_most {d} s s'" "r = Inr () \<Longrightarrow> d \<in> set (deleted s')" by blast+
qed

lemma run_get_image_digest:
  assumes "keeps_books c dig api" and "run (get_image_digest rp c t) api s = (s', r)"
  shows "set (deleted s') = set (deleted s)" "r = Inr d \<Longrightarrow> d = dig t"
proof -
  show "set (deleted s') = set (deleted s)"
    using deletes_none_run [OF deletes_none_get_image_digest assms(1), of rp c t s] assms(2) by simp
  have dig: "d = dig t" if "run (http (plain_request ''HEAD'' (docker_url_for c (''manifests/'' @ t)) h)) api s1 = (s2, Inr a)"
    "200 \<le> hr_status a" "hr_status a < 300" "map_of (hr_headers a) ''docker-content-digest'' = Some d" for h s1 s2 a
  proof -
    have "snd (api (Http (plain_request ''HEAD'' (docker_url_for c (''manifests/'' @ t)) h)) s1) = Inr (K_http a)"
      using that(1) by (auto simp: http_def run_simps split: prod.splits sum.splits k_answer.splits)
    with assms(1) that(2-4) show ?thesis unfolding keeps_books_def succeeded_def by blast
  qed
  assume "r = Inr d"
  then show "d = dig t"
    using assms(2)
    by (auto simp: get_image_digest_def Let_def all_errors_def docker_raise_def raise_for_status_def or_raise_def
        headers_for_def run_simps split: prod.splits sum.splits if_splits option.splits intro: dig)
qed

lemma run_http_snd: "snd (api (Http q) s) = Inr (K_http r) \<Longrightarrow> \<exists>s'. run (http q) api s = (s', Inr r)"
  by (cases "api (Http q) s") (simp add: http_def run_simps)

lemma served_digest:
  assumes "serves c dig api"
  shows "snd (run (get_image_digest rp c t) api s) = Inr (dig t)"
proof -
  let ?h = "build_headers (ds_registry c) True (docker_auth s)"
  obtain r where r: "snd (api (Http (plain_request ''HEAD'' (docker_url_for c (''manifests/'' @ t)) ?h)) s) = Inr (K_http r)"
    "200 \<le> hr_status r" "hr_status r < 300" "map_of (hr_headers r) ''docker-content-digest'' = Some (dig t)"
    using assms unfolding serves_def succeeded_def by blast
  from run_http_snd [where api = api, OF r(1)] r(2-4) show ?thesis
    by (auto simp: get_image_digest_def Let_def all_errors_def headers_for_def raise_for_status_def or_raise_def run_simps)
qed

lemma served_deletion:
  assumes "serves c dig api"
  shows "snd (run (delete_image rp c d) api s) = Inr ()"
proof -
  let ?h = "build_headers (ds_registry c) False (docker_auth s)"
  obtain r where r: "snd (api (Http (plain_request ''DELETE'' (docker_url_for c (''manifests/'' @ d)) ?h)) s) = Inr (K_http r)"
    "200 \<le> hr_status r" "hr_status r < 300"
    using assms unfolding serves_def succeeded_def by blast
  from run_http_snd [where api = api, OF r(1)] r(2,3) show ?thesis
    by (auto simp: delete_image_def Let_def http_errors_def headers_for_def raise_for_status_def run_simps)
qed

lemma served_deletions:
  assumes "serves c dig api"
  shows "snd (run (delete_each_digest rp c ts gone) api s) = Inr ()"
proof (induction ts arbitrary: gone s)
  case (Cons t ts)
  obtain s1 where "run (get_image_digest rp c t) api s = (s1, Inr (dig t))"
    using served_digest [OF assms, of rp t s] by (cases "run (get_image_digest rp c t) api s") auto
  moreover obtain s2 where "run (delete_image rp c (dig t)) api s1 = (s2, Inr ())"
    using served_deletion [OF assms, of rp "dig t" s1] by (cases "run (delete_image rp c (dig t)) api s1") auto
  ultimately show ?case using Cons.IH by (simp add: run_simps)
qed simp

lemma run_delete_each:
  assumes "keeps_books c dig api"
  shows "run (delete_each_digest rp c ts gone) api s = (s', r) \<Longrightarrow> set gone \<subseteq> set (deleted s) \<Longrightarrow>
    at_most (dig ` set ts) s s' \<and> (r = Inr () \<longrightarrow> set (deleted s') = dig ` set ts \<union> set (deleted s))"
proof (induction ts arbitrary: gone s)
  case Nil
  then show ?case by (simp add: at_most_def)
next
  case (Cons t ts)
  obtain s1 x where head: "run (get_image_digest rp c t) api s = (s1, x)" by fastforce
  note asked = run_get_image_digest [OF assms head]
  show ?case
  proof (cases x)
    case (Inl e)
    with Cons.prems(1) head asked(1) show ?thesis by (auto simp: run_simps intro: at_most_refl)
  next
    case (Inr d)
    then have d: "d = dig t" by (rule asked(2))
    show ?thesis
    proof (cases "d \<in> set gone")
      case True
      then have "run (delete_each_digest rp c ts gone) api s1 = (s', r)" using Cons.prems(1) head Inr by (simp add: run_simps)
      from Cons.IH [OF this] Cons.prems(2) True asked(1) d show ?thesis by (auto simp: at_most_def)
    next
      case False
      obtain s2 y where del: "run (delete_image rp c d) api s1 = (s2, y)" by fastforce
      note gone' = run_delete_image [OF assms del]
      show ?thesis
      proof (cases y)
        case (Inl e)
        with Cons.prems(1) head Inr False del gone'(1) asked(1) d show ?thesis by (auto simp: run_simps at_most_def)
      next
        case y: (Inr u)
        then have rest: "run (delete_each_digest rp c ts (d # gone)) api s2 = (s', r)"
          using Cons.prems(1) head Inr False del by (simp add: run_simps)
        have d2: "d \<in> set (deleted s2)" using gone'(2) y by simp
        then have "set (d # gone) \<subseteq> set (deleted s2)" using gone'(1) asked(1) Cons.prems(2) by (auto simp: at_most_def)
        from Cons.IH [OF rest this] gone'(1) d2 asked(1) d show ?thesis by (auto simp: at_most_def)
      qed
    qed
  qed
qed

text \<open>C11: Pruning a Docker repository whose tags can be listed and parsed, with any number
  of pages, challenges and failures: when it succeeds, it returns the tags that the policy does
  not keep and has deleted exactly their digests, nothing in a dry run; when it fails, this was no
  dry run, the registry did not serve all requests, and only digests of those tags were deleted. A
  kept tag that shares its digest with a pruned one loses its image. The registry deletes what it
  is asked to and nothing else, and reports one digest for each tag.\<close>

theorem prune_deletes_digests:
  assumes "keeps_books c dig api" and "run (docker_list_tags rp c) api s = (s1, Inr names)"
    and "from_tag_names (rp_vcmp rp) (rp_it rp names) {} None = Inr tags"
    and "victims = map tag_name (filter_collection (rp_vcmp rp) id policy (k_clock s1) True False tags)"
    and "run (docker_prune_images rp c policy dry_run) api s = (s', r)"
  shows "(case r of
      Inl e \<Rightarrow> \<not> dry_run \<and> \<not> serves c dig api \<and> set (deleted s) \<subseteq> set (deleted s') \<and> set (deleted s') \<subseteq> set (deleted s) \<union> dig ` set victims
    | Inr xs \<Rightarrow> xs = victims \<and> set (deleted s') = set (deleted s) \<union> (if dry_run then {} else dig ` set victims))"
proof -
  have listed: "set (deleted s1) = set (deleted s)"
    using deletes_none_run [OF deletes_none_list_tags assms(1), of rp c s] assms(2) by simp
  show ?thesis
  proof (cases dry_run)
    case True
    with assms(2-5) listed show ?thesis by (auto simp: docker_prune_images_def or_tag_error_def Let_def run_simps)
  next
    case False
    obtain s2 x where del: "run (delete_each_digest rp c victims []) api s1 = (s2, x)" by fastforce
    have "s' = s2 \<and> r = (case x of Inl e \<Rightarrow> Inl e | Inr _ \<Rightarrow> Inr victims)"
      using False assms(2-5) del
      by (auto simp: docker_prune_images_def or_tag_error_def Let_def run_simps split: sum.splits)
    moreover have "x = Inr ()" if "serves c dig api"
      using served_deletions [OF that, of rp victims "[]" s1] del by simp
    ultimately show ?thesis
      using run_delete_each [OF assms(1) del] listed False by (auto simp: at_most_def split: sum.splits)
  qed
qed

section \<open>Examples\<close>

definition experimental_policy :: image_filter_policy where
  "experimental_policy = \<lparr>release = default_filter, weekly = default_filter, daily = default_filter,
     release_candidate = default_filter, experimental = default_filter\<lparr>number := Some 1\<rparr>\<rparr>"

definition example_docker :: docker_source where
  "example_docker = \<lparr>ds_registry = ''reg'', ds_repository = ''lab''\<rparr>"

text \<open>The tags are on two pages; the two tags name the same image.\<close>

definition example_pages :: "string list" where
  "example_pages = [''https://reg/v2/lab/tags/list'', ''https://reg/v2/lab/tags/list?last=exp_a'']"

definition example_digest :: "string \<Rightarrow> string" where
  "example_digest t = ''d1''"

definition example_params :: registry_params where
  "example_params = \<lparr>rp_vcmp = precedence, rp_it = rev, rp_credentials = [], rp_next_url = (\<lambda>l. Some l),
     rp_join = (\<lambda>b l. ''https://reg'' @ l), rp_pages = 3\<rparr>"

definition ok_response :: "(string, string) dict \<Rightarrow> tags_body option \<Rightarrow> http_response" where
  "ok_response hs tags = \<lparr>hr_status = 200, hr_headers = hs, hr_tags = tags, hr_token = None\<rparr>"

definition example_registry :: registry_api where
  "example_registry w s =
     (case w of
        Http q \<Rightarrow>
          if hq_method q = ''GET'' then
            (s, Inr (K_http (if hq_url q = example_pages ! 0
               then ok_response [(''link'', ''/v2/lab/tags/list?last=exp_a'')] (Some (Tags [''exp_a'']))
               else ok_response [] (Some (Tags [''exp_b''])))))
          else if hq_method q = ''DELETE'' then
            (s\<lparr>deleted := drop (length (docker_url_for example_docker ''manifests/'')) (hq_url q) # deleted s\<rparr>,
             Inr (K_http (ok_response [] None)))
          else (s, Inr (K_http (ok_response [(''docker-content-digest'', ''d1'')] None)))
      | _ \<Rightarrow> (s, Inl K_type))"

definition example_log :: registry_log where
  "example_log = \<lparr>k_clock = 0, docker_auth = [], img_store = (\<lambda>a. undefined), img_next = 0, deleted = []\<rparr>"

lemma example_registry_books: "keeps_books example_docker example_digest example_registry"
  unfolding keeps_books_def
  by (auto simp: example_registry_def plain_request_def docker_url_for_def example_docker_def example_digest_def
      ok_response_def Let_def split: k_wait.split)

lemma example_registry_serves: "serves example_docker example_digest example_registry"
  by (simp add: serves_def succeeded_def example_registry_def plain_request_def ok_response_def example_digest_def)

lemma example_links: "links_within example_params example_pages example_registry"
  by (auto simp: links_within_def example_registry_def example_params_def example_pages_def ok_response_def split: if_splits)

lemma example_answers: "snd (example_registry w s) \<noteq> Inl Out_of_fuel"
  by (simp add: example_registry_def split: k_wait.split)

definition example_exp :: "char \<Rightarrow> rsp_image_tag" where
  "example_exp c = (plain_tag [c])\<lparr>tag_name := ''exp_'' @ [c], image_type := EXPERIMENTAL,
     display_name := ''Experimental '' @ [c], base := Some [c]\<rparr>"

lemma example_parsed: "from_str ''exp_a'' = example_exp CHR ''a''" "from_str ''exp_b'' = example_exp CHR ''b''"
  by code_simp+

lemma example_listed: "run (docker_list_tags example_params example_docker) example_registry example_log =
    (example_log, Inr [''exp_a'', ''exp_b''])"
  by (simp add: docker_list_tags_def headers_for_def fetch_tags_def all_errors_def http_def raise_for_status_def or_raise_def
      parse_next_link_header_def run_simps example_registry_def example_pages_def example_params_def plain_request_def
      docker_url_for_def example_docker_def ok_response_def set_add_def eval_nat_numeral)

theorem list_tags_ends_witness:
  "snd (run (docker_list_tags example_params example_docker) example_registry example_log) \<noteq> Inl Out_of_fuel"
  by (rule list_tags_ends [OF example_links _ _ example_answers])
    (simp_all add: example_pages_def example_params_def docker_url_for_def example_docker_def)

theorem prune_deletes_digests_witness:
  "\<exists>s'. run (docker_prune_images example_params example_docker experimental_policy False) example_registry example_log =
      (s', Inr [''exp_a'']) \<and> set (deleted s') = {''d1''} \<and> example_digest ''exp_b'' = ''d1''"
proof -
  let ?tags = "make_collection precedence id [example_exp CHR ''b'', example_exp CHR ''a'']"
  have tags: "from_tag_names (rp_vcmp example_params) (rp_it example_params [''exp_a'', ''exp_b'']) {} None = Inr ?tags"
    by (simp add: example_params_def from_tag_names_def example_parsed del: from_str.simps)
  have "filter_collection precedence id experimental_policy 0 True False ?tags = [example_exp CHR ''a'']"
    by code_simp
  then have victims: "[''exp_a''] = map tag_name (filter_collection (rp_vcmp example_params) id experimental_policy
      (k_clock example_log) True False ?tags)"
    by (simp add: example_params_def example_log_def example_exp_def)
  obtain s' r where run: "run (docker_prune_images example_params example_docker experimental_policy False)
      example_registry example_log = (s', r)" by fastforce
  from prune_deletes_digests [OF example_registry_books example_listed tags victims run] example_registry_serves
  have "r = Inr [''exp_a''] \<and> set (deleted s') = {''d1''}"
    by (simp add: example_log_def example_digest_def split: sum.splits)
  then show ?thesis using run by (simp add: example_digest_def)
qed

end
