(* ===== verification/Image_Service.thy ===== *)
theory Image_Service
  imports Registry_Clients
begin

text \<open>
  The image service of the controller: the image sources \<open>services/source/docker.py\<close> and
  \<open>services/source/gar.py\<close>, \<open>ImageService\<close> of \<open>services/image.py\<close>, the prepuller
  \<open>services/prepuller.py\<close>, and their models \<open>models/domain/image.py\<close> and \<open>models/v1/prepuller.py\<close>,
  all under \<open>src/src/nublado/controller\<close>. The set of names of the eligible nodes is a list, and so
  is the set of nodes of an image.
\<close>

section \<open>Models\<close>

datatype image_source = Docker_images docker_source | Gar_images gar_source

record prepuller_options =
  po_source :: image_source
  po_refresh_interval :: timedelta
  po_prepull_timeout :: timedelta
  po_recommended_tag :: string
  po_num_releases :: int
  po_num_weeklies :: int
  po_num_dailies :: int
  po_cycle :: "nat option"
  po_pin :: "string list"
  po_alias_tags :: "string list"

record prepulled_image =
  pi_reference :: string
  pi_tag :: string
  pi_name :: string
  pi_digest :: "string option"
  pi_aliases :: "string list"
  pi_prepulled :: bool

definition sort_strings :: "string list \<Rightarrow> string list" where
  "sort_strings = sort_by (\<lambda>a b. a < b)"

definition prepulled_from_rsp_image :: "rsp_image \<Rightarrow> string list \<Rightarrow> prepulled_image" where
  "prepulled_from_rsp_image i ns =
     \<lparr>pi_reference = reference i, pi_tag = tag_name i, pi_name = display_name i, pi_digest = Some (digest i),
      pi_aliases = sort_strings (aliases i @ (if nonempty (alias_target i) then [the (alias_target i)] else [])),
      pi_prepulled = (set ns \<subseteq> set (nodes i))\<rparr>"

record cached_image =
  ci_reference :: string
  ci_tag :: string
  ci_name :: string
  ci_digest :: string
  ci_size :: "int option"
  ci_nodes :: "string list"
  ci_missing :: "string list"

definition cached_from_rsp_image :: "rsp_image \<Rightarrow> cached_image" where
  "cached_from_rsp_image i =
     \<lparr>ci_reference = reference i, ci_tag = tag_name i, ci_name = display_name i, ci_digest = digest i,
      ci_size = img_size i, ci_nodes = sort_strings (nodes i), ci_missing = []\<rparr>"

record status_node =
  sn_name :: string
  sn_eligible :: bool
  sn_comment :: "string option"
  sn_cached :: "string list"

record spawner_images =
  si_recommended :: "prepulled_image option"
  si_latest_weekly :: "prepulled_image option"
  si_latest_daily :: "prepulled_image option"
  si_latest_release :: "prepulled_image option"
  si_all :: "prepulled_image list"

record prepuller_status =
  ps_config :: prepuller_options
  ps_prepulled :: "cached_image list"
  ps_pending :: "cached_image list"
  ps_nodes :: "status_node list"

record menu_image =
  mi_reference :: string
  mi_name :: string

definition menu_from_rsp_image :: "rsp_image \<Rightarrow> menu_image" where
  "menu_from_rsp_image i = \<lparr>mi_reference = reference_with_digest i, mi_name = display_name i\<rparr>"

record menu_images =
  mn_menu :: "menu_image list"
  mn_dropdown :: "menu_image list"

record node_data =
  nd_name :: string
  nd_images :: image_collection
  nd_eligible :: bool
  nd_comment :: "string option"

section \<open>State\<close>

record image_state = image_world +
  src_tags :: "rsp_image_tag tag_collection"
  src_images :: image_collection
  to_prepull :: image_collection
  node_dict :: "(string, node_data) dict"
  img_locked :: bool
  img_refreshed :: bool

type_synonym 'a ism = "(unit image_state_ext, 'a) r_proc"

definition unknown_image :: "'a ism" where
  "unknown_image = Raise (K_images Unknown_image)"

section \<open>The Docker source\<close>

definition docker_new_image :: "docker_source \<Rightarrow> rsp_image_tag \<Rightarrow> string \<Rightarrow> addr ism" where
  "docker_new_image c tag d =
     bind (new_images [from_tag tag (ds_registry c) (ds_repository c) d None]) (\<lambda>as. Ret (hd as))"

definition docker_image_for_reference :: "registry_params \<Rightarrow> docker_source \<Rightarrow> docker_reference \<Rightarrow> addr ism" where
  "docker_image_for_reference rp c ref =
     (if ref_registry ref \<noteq> ds_registry c \<or> ref_repository ref \<noteq> ds_repository c then unknown_image
      else bind (reading (\<lambda>s. if nonempty (ref_digest ref) then image_for_digest (the (ref_digest ref)) (src_images s) else None)) (\<lambda>x.
        case x of
          Some a \<Rightarrow> Ret a
        | None \<Rightarrow>
            (case ref_tag ref of
               None \<Rightarrow> Raise (K_images Invalid_reference)
             | Some n \<Rightarrow>
                 bind (reading (\<lambda>s. image_for_tag_name n (src_images s))) (\<lambda>x. case x of
                     Some a \<Rightarrow> Ret a
                   | None \<Rightarrow>
                       bind (reading (\<lambda>s. tag_for_tag_name n (src_tags s))) (\<lambda>x. case x of
                           None \<Rightarrow> unknown_image
                         | Some tag \<Rightarrow>
                             bind (if nonempty (ref_digest ref) then Ret (the (ref_digest ref)) else get_image_digest rp c n)
                               (docker_new_image c tag))))))"

definition docker_image_for_tag_name :: "registry_params \<Rightarrow> docker_source \<Rightarrow> string \<Rightarrow> addr ism" where
  "docker_image_for_tag_name rp c n =
     bind (reading (\<lambda>s. image_for_tag_name n (src_images s))) (\<lambda>x. case x of
         Some a \<Rightarrow> Ret a
       | None \<Rightarrow>
           bind (reading (\<lambda>s. tag_for_tag_name n (src_tags s))) (\<lambda>x. case x of
               None \<Rightarrow> unknown_image
             | Some tag \<Rightarrow> bind (get_image_digest rp c n) (docker_new_image c tag)))"

definition source_mark_prepulled :: "registry_params \<Rightarrow> addr \<Rightarrow> string \<Rightarrow> unit ism" where
  "source_mark_prepulled rp a node =
     act (\<lambda>s. s\<lparr>img_store := mark_image_seen_on_node (rp_it rp) (digest (img_store s a)) node None (src_images s) (img_store s)\<rparr>)"

definition docker_reference_of :: "docker_source \<Rightarrow> rsp_image_tag \<Rightarrow> string" where
  "docker_reference_of c tag = ds_registry c @ ''/'' @ ds_repository c @ '':'' @ tag_name tag"

definition docker_menu_images :: "registry_params \<Rightarrow> docker_source \<Rightarrow> image_filter_policy \<Rightarrow> menu_image list ism" where
  "docker_menu_images rp c policy =
     reading (\<lambda>s. map (\<lambda>tag. case image_for_tag_name (tag_name tag) (src_images s) of
          Some a \<Rightarrow> menu_from_rsp_image (img_store s a)
        | None \<Rightarrow> \<lparr>mi_reference = docker_reference_of c tag, mi_name = display_name tag\<rparr>)
       (filter_collection (rp_vcmp rp) id policy (k_clock s) False True (src_tags s)))"

definition docker_prepulled_images :: "docker_source \<Rightarrow> string list \<Rightarrow> image_state \<Rightarrow> prepulled_image list" where
  "docker_prepulled_images c ns s =
     map (\<lambda>tag. case image_for_tag_name (tag_name tag) (src_images s) of
          Some a \<Rightarrow> prepulled_from_rsp_image (img_store s a) ns
        | None \<Rightarrow> \<lparr>pi_reference = docker_reference_of c tag, pi_tag = tag_name tag, pi_name = display_name tag,
                   pi_digest = None, pi_aliases = [], pi_prepulled = False\<rparr>)
       (all_tags id True (src_tags s))"

definition include_tags :: "prepuller_options \<Rightarrow> string list" where
  "include_tags po = fold set_add (po_pin po) [po_recommended_tag po]"

definition subset_to_prepull :: "registry_params \<Rightarrow> prepuller_options \<Rightarrow> rsp_image_tag tag_collection
    \<Rightarrow> rsp_image_tag tag_collection" where
  "subset_to_prepull rp po tags =
     subset_collection (rp_vcmp rp) id (po_num_releases po) (po_num_weeklies po) (po_num_dailies po)
       (rp_it rp (include_tags po)) True tags"

text \<open>What the nodes have; only the Docker source takes the sizes that the nodes report.\<close>

definition cached_digests :: "(string, node_image list) dict \<Rightarrow> (string \<times> string \<times> int) list" where
  "cached_digests cache =
     concat (map (\<lambda>(node, is). concat (map (\<lambda>i. case node_image_digest i of
         None \<Rightarrow> [] | Some d \<Rightarrow> if d = [] then [] else [(d, node, node_image_size i)]) is)) cache)"

definition see_cached :: "registry_params \<Rightarrow> bool \<Rightarrow> image_collection \<Rightarrow> (string \<times> string \<times> int) list \<Rightarrow> unit ism" where
  "see_cached rp sizes c seen =
     for_each seen (\<lambda>(d, node, n). act (\<lambda>s. s\<lparr>img_store :=
       mark_image_seen_on_node (rp_it rp) d node (if sizes then Some n else None) c (img_store s)\<rparr>))"

text \<open>The digests of all tags to prepull are asked for at the same time.\<close>

definition docker_digests :: "string list \<Rightarrow> string list ism" where
  "docker_digests tags = bind (await (Docker_digests tags)) (\<lambda>a. case a of K_digests ds \<Rightarrow> Ret ds | _ \<Rightarrow> Raise K_type)"

definition docker_update_images :: "registry_params \<Rightarrow> docker_source \<Rightarrow> prepuller_options \<Rightarrow> (string, node_image list) dict
    \<Rightarrow> image_collection ism" where
  "docker_update_images rp c po cache =
     bind (docker_list_tags rp c) (\<lambda>names.
     bind (or_tag_error (from_tag_names (rp_vcmp rp) (rp_it rp names) (set (po_recommended_tag po # po_alias_tags po)) (po_cycle po))) (\<lambda>tags.
     seq (act (\<lambda>s. s\<lparr>src_tags := tags\<rparr>))
    (let wanted = all_tags id True (subset_to_prepull rp po tags)
     in bind (docker_digests (map tag_name wanted)) (\<lambda>ds.
        if length ds \<noteq> length wanted then Raise K_value
        else bind (make_images rp (map (\<lambda>(t, d). from_tag t (ds_registry c) (ds_repository c) d None) (zip wanted ds)) None) (\<lambda>images.
          seq (see_cached rp True images (cached_digests cache))
         (seq (act (\<lambda>s. s\<lparr>src_images := images\<rparr>)) (Ret images)))))))"

section \<open>The Google Artifact Registry source\<close>

definition gar_image_for_reference :: "gar_source \<Rightarrow> docker_reference \<Rightarrow> addr ism" where
  "gar_image_for_reference c ref =
     (if \<not> nonempty (ref_digest ref) \<and> ref_tag ref = None then Raise (K_images Invalid_reference)
      else bind (reading (\<lambda>s. if nonempty (ref_digest ref) then image_for_digest (the (ref_digest ref)) (src_images s)
                   else image_for_tag_name (the (ref_tag ref)) (src_images s))) (\<lambda>x. case x of
          None \<Rightarrow> unknown_image
        | Some a \<Rightarrow>
            if ref_registry ref \<noteq> gar_registry c \<or> ref_repository ref \<noteq> gar_path c then unknown_image else Ret a))"

definition gar_image_for_tag_name :: "string \<Rightarrow> addr ism" where
  "gar_image_for_tag_name n =
     bind (reading (\<lambda>s. image_for_tag_name n (src_images s))) (\<lambda>x. case x of None \<Rightarrow> unknown_image | Some a \<Rightarrow> Ret a)"

definition gar_menu_images :: "registry_params \<Rightarrow> image_filter_policy \<Rightarrow> menu_image list ism" where
  "gar_menu_images rp policy =
     reading (\<lambda>s. map (\<lambda>a. menu_from_rsp_image (img_store s a))
       (filter_collection (rp_vcmp rp) (img_store s) policy (k_clock s) False True (collection (src_images s))))"

definition gar_prepulled_images :: "string list \<Rightarrow> image_state \<Rightarrow> prepulled_image list" where
  "gar_prepulled_images ns s =
     map (\<lambda>a. prepulled_from_rsp_image (img_store s a) ns) (all_images False True False (img_store s) (src_images s))"

definition gar_update_images :: "registry_params \<Rightarrow> gar_source \<Rightarrow> prepuller_options \<Rightarrow> (string, node_image list) dict
    \<Rightarrow> image_collection ism" where
  "gar_update_images rp c po cache =
     bind (gar_list_images rp c (po_cycle po)) (\<lambda>images.
     seq (see_cached rp False images (cached_digests cache))
    (seq (act (\<lambda>s. s\<lparr>src_images := images\<rparr>))
         (on_store (\<lambda>h. subset_images (rp_vcmp rp) (rp_it rp) (po_num_releases po) (po_num_weeklies po) (po_num_dailies po)
            (rp_it rp (include_tags po)) True (h, images)))))"

section \<open>The image service\<close>

text \<open>The methods of the source that the configuration selects.\<close>

definition source_image_for_reference :: "registry_params \<Rightarrow> prepuller_options \<Rightarrow> docker_reference \<Rightarrow> addr ism" where
  "source_image_for_reference rp po ref =
     (case po_source po of
        Docker_images c \<Rightarrow> docker_image_for_reference rp c ref
      | Gar_images c \<Rightarrow> gar_image_for_reference c ref)"

definition source_image_for_tag_name :: "registry_params \<Rightarrow> prepuller_options \<Rightarrow> string \<Rightarrow> addr ism" where
  "source_image_for_tag_name rp po n =
     (case po_source po of
        Docker_images c \<Rightarrow> docker_image_for_tag_name rp c n
      | Gar_images c \<Rightarrow> gar_image_for_tag_name n)"

definition source_menu_images :: "registry_params \<Rightarrow> prepuller_options \<Rightarrow> image_filter_policy \<Rightarrow> menu_image list ism" where
  "source_menu_images rp po policy =
     (case po_source po of
        Docker_images c \<Rightarrow> docker_menu_images rp c policy
      | Gar_images c \<Rightarrow> gar_menu_images rp policy)"

definition source_prepulled_images :: "prepuller_options \<Rightarrow> string list \<Rightarrow> image_state \<Rightarrow> prepulled_image list" where
  "source_prepulled_images po ns s =
     (case po_source po of
        Docker_images c \<Rightarrow> docker_prepulled_images c ns s
      | Gar_images c \<Rightarrow> gar_prepulled_images ns s)"

definition source_update_images :: "registry_params \<Rightarrow> prepuller_options \<Rightarrow> (string, node_image list) dict
    \<Rightarrow> image_collection ism" where
  "source_update_images rp po cache =
     (case po_source po of
        Docker_images c \<Rightarrow> docker_update_images rp c po cache
      | Gar_images c \<Rightarrow> gar_update_images rp c po cache)"

definition image_for_class :: "prepuller_options \<Rightarrow> image_class \<Rightarrow> addr ism" where
  "image_for_class po cl =
     bind (reading (\<lambda>s. case cl of
         RECOMMENDED \<Rightarrow> image_for_tag_name (po_recommended_tag po) (to_prepull s)
       | LATEST_RELEASE \<Rightarrow> latest RELEASE (collection (to_prepull s))
       | LATEST_WEEKLY \<Rightarrow> latest WEEKLY (collection (to_prepull s))
       | LATEST_DAILY \<Rightarrow> latest DAILY (collection (to_prepull s)))) (\<lambda>x.
     case x of None \<Rightarrow> unknown_image | Some a \<Rightarrow> Ret a)"

definition eligible_nodes :: "image_state \<Rightarrow> string list" where
  "eligible_nodes s = fold set_add (map nd_name (filter nd_eligible (dvalues (node_dict s)))) []"

definition spawner_images_of :: "prepuller_options \<Rightarrow> spawner_images ism" where
  "spawner_images_of po =
     reading (\<lambda>s. let ns = eligible_nodes s;
         show = map_option (\<lambda>a. prepulled_from_rsp_image (img_store s a) ns);
         newest = (\<lambda>ty. show (latest ty (collection (to_prepull s))))
       in \<lparr>si_recommended = show (image_for_tag_name (po_recommended_tag po) (to_prepull s)),
           si_latest_weekly = newest WEEKLY, si_latest_daily = newest DAILY, si_latest_release = newest RELEASE,
           si_all = source_prepulled_images po ns s\<rparr>)"

text \<open>The loop keeps the last entry with the recommended tag.\<close>

fun menu_loop :: "string \<Rightarrow> string list \<Rightarrow> rsp_image list \<Rightarrow> menu_image option \<Rightarrow> menu_image list
    \<Rightarrow> menu_image option \<times> menu_image list" where
  "menu_loop tag ns [] recommended menu = (recommended, menu)"
| "menu_loop tag ns (i # is) recommended menu =
     (if tag_name i = tag then menu_loop tag ns is (Some (menu_from_rsp_image i)) menu
      else if set ns \<subseteq> set (nodes i) then menu_loop tag ns is recommended (menu @ [menu_from_rsp_image i])
      else menu_loop tag ns is recommended menu)"

definition main_menu :: "prepuller_options \<Rightarrow> image_state \<Rightarrow> menu_image list" where
  "main_menu po s =
     (case menu_loop (po_recommended_tag po) (eligible_nodes s)
         (map (img_store s) (all_images True True False (img_store s) (to_prepull s))) None [] of
        (None, menu) \<Rightarrow> menu
      | (Some i, menu) \<Rightarrow> i # menu)"

definition menu_images_of :: "registry_params \<Rightarrow> prepuller_options \<Rightarrow> image_filter_policy \<Rightarrow> menu_images ism" where
  "menu_images_of rp po policy =
     bind (reading (main_menu po)) (\<lambda>menu.
     bind (source_menu_images rp po policy) (\<lambda>dropdown. Ret \<lparr>mn_menu = menu, mn_dropdown = dropdown\<rparr>))"

definition mark_prepulled :: "registry_params \<Rightarrow> addr \<Rightarrow> string \<Rightarrow> unit ism" where
  "mark_prepulled rp a node =
     bind (reading (\<lambda>s. image_for_digest (digest (img_store s a)) (to_prepull s))) (\<lambda>x.
     if x = None then Ret ()
     else seq (source_mark_prepulled rp a node)
      (bind (reading (\<lambda>s. map_of (node_dict s) node)) (\<lambda>nd. case nd of
           None \<Rightarrow> Ret ()
         | Some nd \<Rightarrow>
             bind (on_store (\<lambda>h. add_image (rp_vcmp rp) (rp_it rp) a (h, nd_images nd))) (\<lambda>c.
               act (\<lambda>s. s\<lparr>node_dict := dset node (nd\<lparr>nd_images := c\<rparr>) (node_dict s)\<rparr>)))))"

definition missing_on_node :: "registry_params \<Rightarrow> node_data \<Rightarrow> addr list ism" where
  "missing_on_node rp nd =
     bind (reading to_prepull) (\<lambda>p.
     bind (on_store (\<lambda>h. subtract (rp_vcmp rp) (rp_it rp) (nd_images nd) (h, p))) (\<lambda>c.
       reading (\<lambda>s. all_images False True False (img_store s) c)))"

definition missing_images_by_node :: "registry_params \<Rightarrow> (string \<times> addr list) list ism" where
  "missing_images_by_node rp =
     bind (reading node_dict) (\<lambda>nds.
     bind (collect nds (\<lambda>(name, nd). bind (missing_on_node rp nd) (\<lambda>as. Ret (name, as)))) (\<lambda>found.
       Ret (filter (\<lambda>(name, as). as \<noteq> []) found)))"

definition cache_on_nodes :: "rsp_image \<Rightarrow> (string, status_node) dict \<Rightarrow> (string, status_node) dict" where
  "cache_on_nodes i ns =
     map (\<lambda>(n, x). (n, if n \<in> set (nodes i) then x\<lparr>sn_cached := sn_cached x @ [reference i]\<rparr> else x)) ns"

definition prepull_status :: "prepuller_options \<Rightarrow> prepuller_status ism" where
  "prepull_status po =
     reading (\<lambda>s. let all_nodes = eligible_nodes s;
         images = map (img_store s) (all_images False True True (img_store s) (to_prepull s));
         missing = (\<lambda>i. filter (\<lambda>n. n \<notin> set (nodes i)) all_nodes)
       in \<lparr>ps_config = po,
           ps_prepulled = map cached_from_rsp_image (filter (\<lambda>i. missing i = []) images),
           ps_pending = map (\<lambda>i. (cached_from_rsp_image i)\<lparr>ci_missing := sort_strings (missing i)\<rparr>)
             (filter (\<lambda>i. missing i \<noteq> []) images),
           ps_nodes = dvalues (fold cache_on_nodes images
             (map (\<lambda>(k, nd). (k, \<lparr>sn_name = k, sn_eligible = nd_eligible nd, sn_comment = nd_comment nd, sn_cached = []\<rparr>))
               (node_dict s)))\<rparr>)"

definition images_on_node :: "image_collection \<Rightarrow> node_image list \<Rightarrow> addr list" where
  "images_on_node to_pull is =
     concat (map (\<lambda>i. case node_image_digest i of
         None \<Rightarrow> []
       | Some d \<Rightarrow> if d = [] then [] else (case image_for_digest d to_pull of None \<Rightarrow> [] | Some a \<Rightarrow> [a])) is)"

definition build_nodes :: "registry_params \<Rightarrow> toleration list \<Rightarrow> image_collection \<Rightarrow> node list
    \<Rightarrow> (string, node_image list) dict \<Rightarrow> (string, node_data) dict ism" where
  "build_nodes rp tols to_pull ns cache =
     bind (collect ns (\<lambda>n.
       let cached = (case map_of cache (node_name n) of None \<Rightarrow> [] | Some is \<Rightarrow> is);
           tolerate = is_tolerated n tols
       in bind (on_store (replace_contents (rp_vcmp rp) (rp_it rp) (images_on_node to_pull cached) None)) (\<lambda>c.
            Ret \<lparr>nd_name = node_name n, nd_images = c, nd_eligible = eligible tolerate, nd_comment = comment tolerate\<rparr>)))
       (\<lambda>nds. Ret (fold (\<lambda>nd. dset (nd_name nd) nd) nds []))"

definition node_of_stored :: "stored \<Rightarrow> node" where
  "node_of_stored x =
     (case so_body x of O_node n \<Rightarrow> n | _ \<Rightarrow> \<lparr>node_name = so_name x, node_taints = None, node_images = None\<rparr>)"

definition kubernetes_request_timeout :: timedelta where
  "kubernetes_request_timeout = seconds 30"

definition refresh :: "registry_params \<Rightarrow> prepuller_options \<Rightarrow> scheduling \<Rightarrow> unit ism" where
  "refresh rp po sch =
     bind (start_timeout kubernetes_request_timeout) (\<lambda>t.
     seq (await Acquire_images)
         (finally_do
           (bind (node_list (sch_node_selector sch) t) (\<lambda>found.
            let ns = map node_of_stored found; cached = get_cached_images ns
            in bind (source_update_images rp po cached) (\<lambda>to_pull.
               bind (build_nodes rp (sch_tolerations sch) to_pull ns cached) (\<lambda>nds.
               act (\<lambda>s. s\<lparr>node_dict := nds, to_prepull := to_pull, img_refreshed := True\<rparr>)))))
           (act (\<lambda>s. s\<lparr>img_locked := False\<rparr>))))"

definition prepuller_wait :: "unit ism" where
  "prepuller_wait = seq (await Wait_refreshed) (act (\<lambda>s. s\<lparr>img_refreshed := False\<rparr>))"

section \<open>The prepuller\<close>

record prepuller =
  pp_lab :: lab_config
  pp_pull_secret :: "string option"
  pp_owner_reference :: string
  pp_namespace :: string
  pp_kube :: k_config

definition report_exn :: "k_exn \<Rightarrow> ('x, unit) k_proc" where
  "report_exn e = bind (await (Post_exception e)) (\<lambda>_. Ret ())"

definition prepull_image :: "prepuller \<Rightarrow> prepuller_options \<Rightarrow> addr \<Rightarrow> string \<Rightarrow> unit ism" where
  "prepull_image pp po a node =
     bind (start_timeout (po_prepull_timeout po)) (\<lambda>t.
     bind (reading (\<lambda>s. build_prepull_pod (pp_lab pp) (pp_pull_secret pp) (pp_owner_reference pp) (img_store s a) node)) (\<lambda>pod.
     catch
       (enforce_k t
         (seq (k_create_or_replace (pp_kube pp) K_Pod (pp_namespace pp) (O_plain_pod pod) t True None)
              (delete_after_completion (pp_kube pp) (md_name (pp_metadata pod)) (pp_namespace pp) t)))
       (\<lambda>e. if is_exn e then report_exn e else Raise e)))"

definition prepull_images_for_node :: "registry_params \<Rightarrow> prepuller \<Rightarrow> prepuller_options \<Rightarrow> string \<Rightarrow> addr list \<Rightarrow> unit ism" where
  "prepull_images_for_node rp pp po node as =
     for_each as (\<lambda>a. seq (prepull_image pp po a node) (mark_prepulled rp a node))"

text \<open>One task of a task group for each node; the wait is for the end of the group.\<close>

definition prepull_images :: "registry_params \<Rightarrow> unit ism" where
  "prepull_images rp =
     bind (missing_images_by_node rp) (\<lambda>missing. bind (await (Prepull_tasks missing)) (\<lambda>_. Ret ()))"

end
