(* ===== verification/Image_Laws.thy ===== *)
theory Image_Laws
  imports Image_Service
begin

text \<open>
  What the image service promises: which images are missing on a node, that an image that was
  prepulled is not missing, the main menu, and the image found for a reference.
\<close>

section \<open>Missing images\<close>

definition shown_digests :: "store \<Rightarrow> image_collection \<Rightarrow> string set" where
  "shown_digests h c = (\<lambda>a. digest (h a)) ` set (all_images False True False h c)"

lemma shown_iff: "a \<in> set (all_images False True False h c) \<longleftrightarrow> a \<in> set (all_tags h True (collection c))"
  by (simp add: all_images_def)

lemma in_all_tags_make:
  "a \<in> set (all_tags tg rm (make_collection vcmp tg ts)) \<longleftrightarrow> a \<in> set ts \<and> \<not> (rm \<and> arch_specific tg a)"
  by (auto simp: all_tags_def by_type_make)

lemma missing_on_node_run:
  assumes "digests_ok (img_store s) (to_prepull s)"
  shows "\<exists>as. run (missing_on_node rp nd) api s = (s, Inr as) \<and>
    (\<forall>a. a \<in> set as \<longleftrightarrow> a \<in> set (dvalues (by_digest (to_prepull s))) \<and> \<not> arch_specific (img_store s) a \<and>
       digest (img_store s a) \<notin> shown_digests (img_store s) (nd_images nd))"
proof -
  let ?h = "img_store s" and ?p = "to_prepull s"
  obtain c where c: "subtract (rp_vcmp rp) (rp_it rp) (nd_images nd) (?h, ?p) = Inr (?h, c)"
    "collection c = make_collection (rp_vcmp rp) ?h
       (dvalues (filter (\<lambda>(k, v). k \<notin> shown_digests ?h (nd_images nd)) (by_digest ?p)))"
    using subtract_contents [OF assms] unfolding shown_digests_def by blast
  have "a \<in> set (dvalues (filter (\<lambda>(k, v). k \<notin> shown_digests ?h (nd_images nd)) (by_digest ?p))) \<longleftrightarrow>
      a \<in> set (dvalues (by_digest ?p)) \<and> digest (?h a) \<notin> shown_digests ?h (nd_images nd)" for a
    using assms by (force simp: digests_ok_def)
  then have "a \<in> set (all_images False True False ?h c) \<longleftrightarrow> a \<in> set (dvalues (by_digest ?p)) \<and> \<not> arch_specific ?h a \<and>
       digest (?h a) \<notin> shown_digests ?h (nd_images nd)" for a
    unfolding shown_iff c(2) in_all_tags_make by blast
  then show ?thesis by (simp add: missing_on_node_def on_store_def c(1) run_simps)
qed

lemma run_collect_pure:
  "(\<And>x. x \<in> set xs \<Longrightarrow> run (f x) api s = (s, Inr (g x))) \<Longrightarrow> run (collect xs f) api s = (s, Inr (map g xs))"
  by (induction xs) (simp_all add: run_simps)

lemma missing_images_run:
  assumes "digests_ok (img_store s) (to_prepull s)"
  shows "\<exists>found. run (missing_images_by_node rp) api s = (s, Inr found) \<and>
    (\<forall>node as. (node, as) \<in> set found \<longrightarrow> as \<noteq> []) \<and>
    (\<forall>node a. (\<exists>as. (node, as) \<in> set found \<and> a \<in> set as) \<longleftrightarrow>
       (\<exists>nd. (node, nd) \<in> set (node_dict s) \<and> a \<in> set (dvalues (by_digest (to_prepull s))) \<and>
          \<not> arch_specific (img_store s) a \<and> digest (img_store s a) \<notin> shown_digests (img_store s) (nd_images nd)))"
proof -
  obtain g where g: "\<And>nd. run (missing_on_node rp nd) api s = (s, Inr (g nd))"
    "\<And>nd a. a \<in> set (g nd) \<longleftrightarrow> a \<in> set (dvalues (by_digest (to_prepull s))) \<and> \<not> arch_specific (img_store s) a \<and>
       digest (img_store s a) \<notin> shown_digests (img_store s) (nd_images nd)"
    using missing_on_node_run [OF assms, of rp _ api] by metis
  have "run (collect (node_dict s) (\<lambda>(name, nd). bind (missing_on_node rp nd) (\<lambda>as. Ret (name, as)))) api s =
      (s, Inr (map (\<lambda>(name, nd). (name, g nd)) (node_dict s)))"
    by (rule run_collect_pure) (auto simp: run_simps g(1))
  then have "run (missing_images_by_node rp) api s =
      (s, Inr (filter (\<lambda>(name, as). as \<noteq> []) (map (\<lambda>(name, nd). (name, g nd)) (node_dict s))))"
    by (simp add: missing_images_by_node_def run_simps)
  moreover have "(\<exists>as. (node, as) \<in> set (filter (\<lambda>(name, as). as \<noteq> []) (map (\<lambda>(name, nd). (name, g nd)) (node_dict s))) \<and> a \<in> set as) \<longleftrightarrow>
      (\<exists>nd. (node, nd) \<in> set (node_dict s) \<and> a \<in> set (g nd))" for node a
    by force
  ultimately show ?thesis using g(2) by auto
qed

text \<open>C7: For every node the missing images are exactly the images to prepull, one for each
  digest, that are for no single architecture and whose digest none of the images shown for the
  node has; nodes that miss nothing are left out, and asking changes nothing.\<close>

theorem missing_images_exact:
  assumes "digests_ok (img_store s) (to_prepull s)"
  shows "\<exists>found. run (missing_images_by_node rp) api s = (s, Inr found) \<and>
    (\<forall>node as. (node, as) \<in> set found \<longrightarrow> as \<noteq> []) \<and>
    (\<forall>node a. (\<exists>as. (node, as) \<in> set found \<and> a \<in> set as) \<longleftrightarrow>
       (\<exists>nd. (node, nd) \<in> set (node_dict s) \<and> a \<in> set (dvalues (by_digest (to_prepull s))) \<and>
          \<not> arch_specific (img_store s) a \<and> digest (img_store s a) \<notin> shown_digests (img_store s) (nd_images nd)))"
  by (rule missing_images_run [OF assms])

section \<open>What adding an image leaves alone\<close>

definition keeps_digests :: "store \<Rightarrow> store \<Rightarrow> bool" where
  "keeps_digests h h' \<longleftrightarrow> (\<forall>a. digest (h' a) = digest (h a))"

lemma keeps_digests_refl [simp]: "keeps_digests h h"
  by (simp add: keeps_digests_def)

lemma keeps_digests_trans: "keeps_digests h h1 \<Longrightarrow> keeps_digests h1 h2 \<Longrightarrow> keeps_digests h h2"
  by (simp add: keeps_digests_def)

lemma keeps_add_alias [simp]:
  "keeps_digests h (add_alias a n g) = keeps_digests h g" "keeps_digests (add_alias a n h) g = keeps_digests h g"
  by (auto simp: keeps_digests_def)

lemma keeps_resolve_alias: "resolve_alias it a t h = Inr h' \<Longrightarrow> keeps_digests h h'"
  by (auto simp: resolve_alias_def steps_def modify_def add_alias_def keeps_digests_def Let_def split: if_splits)

lemma keeps_over_set:
  "over_set size_now n body as h = Inr h' \<Longrightarrow> (\<And>a g g'. body a g = Inr g' \<Longrightarrow> keeps_digests g g') \<Longrightarrow> keeps_digests h h'"
proof (induction as arbitrary: h)
  case (Cons a as)
  then obtain g where g: "body a h = Inr g" "over_set size_now n body as g = Inr h'"
    by (auto simp: rbind_eq_Inr split: if_splits)
  from keeps_digests_trans [OF Cons.prems(2) [OF g(1)] Cons.IH [OF g(2) Cons.prems(2)]] show ?case .
qed simp

lemma keeps_for_aliases:
  "for_aliases it old body h = Inr h' \<Longrightarrow> (\<And>a g g'. body a g = Inr g' \<Longrightarrow> keeps_digests g g') \<Longrightarrow> keeps_digests h h'"
  unfolding for_aliases_def by (rule keeps_over_set)

lemma keeps_link_alias: "link_alias tags n a h = Inr h' \<Longrightarrow> keeps_digests h h'"
  by (auto simp: link_alias_def split: option.splits if_splits)

lemma keeps_move_alias: "move_alias it tags new old a h = Inr h' \<Longrightarrow> keeps_digests h h'"
  by (auto simp: move_alias_def Let_def rbind_eq_Inr split: option.splits if_splits
      dest!: keeps_resolve_alias)

lemma keeps_resolve_duplicate:
  assumes "resolve_duplicate it new old (h, c) = Inr (h', c')"
  shows "keeps_digests h h'"
proof (cases "is_possible_alias (h new)")
  case True
  with assms obtain g t n where g: "for_aliases it old (link_alias t n) g = Inr h'"
    and "g = add_alias old (tag_name (h new)) (add_alias new (tag_name (h old)) h) \<or> resolve_alias it new old h = Inr g"
    by (fastforce simp: resolve_duplicate_def Let_def rbind_eq_Inr split: if_splits)
  then have "keeps_digests h g" by (auto dest: keeps_resolve_alias)
  from keeps_digests_trans [OF this keeps_for_aliases [OF g keeps_link_alias]] show ?thesis .
next
  case False
  with assms obtain g where g: "for_aliases it old (move_alias it (collection c) new old) (add_alias new (tag_name (h old)) h) = Inr g"
    "h' = add_alias old (tag_name (g new)) g"
    by (auto simp: resolve_duplicate_def Let_def rbind_eq_Inr split: if_splits)
  from keeps_for_aliases [OF g(1) keeps_move_alias] show ?thesis
    unfolding g(2) by simp
qed

lemma keeps_index_targets: "index_targets it as (h, c) = Inr (h', c') \<Longrightarrow> keeps_digests h h'"
proof (induction as arbitrary: h c)
  case (Cons a as)
  from Cons.prems show ?case
    by (auto simp: rbind_eq_Inr split: if_splits option.splits
        dest!: Cons.IH keeps_resolve_duplicate intro: keeps_digests_trans)
qed simp

lemma keeps_index_aliases: "index_aliases it as (h, c) = Inr (h', c') \<Longrightarrow> keeps_digests h h'"
proof (induction as arbitrary: h c)
  case (Cons a as)
  from Cons.prems show ?case
    by (auto simp: rbind_eq_Inr split: if_splits option.splits
        dest!: Cons.IH keeps_resolve_duplicate intro: keeps_digests_trans)
qed simp

lemma keeps_replace_contents: "replace_contents vcmp it as cyc h = Inr (h', c) \<Longrightarrow> keeps_digests h h'"
  by (auto simp: replace_contents_def Let_def rbind_eq_Inr
      dest!: keeps_index_targets keeps_index_aliases intro: keeps_digests_trans)

lemma replace_contents_collection:
  "replace_contents vcmp it as None h = Inr (h', c) \<Longrightarrow> collection c = make_collection vcmp h' as"
  by (auto simp: replace_contents_def Let_def rbind_eq_Inr)

lemma add_image_shows:
  assumes "add_image vcmp it a (h, c) = Inr (h', c')"
  shows "keeps_digests h h' \<and> (\<not> arch_specific h' a \<longrightarrow> a \<in> set (all_images False True False h' c'))"
proof (cases "\<not> is_possible_alias (h a) \<and> map_of (unresolved_aliases c) (digest (h a)) \<noteq> None")
  case True
  then have r: "replace_contents vcmp it (all_images False True False h c @ [a]) None h = Inr (h', c')"
    using assms by (simp add: add_image_def)
  show ?thesis
    using keeps_replace_contents [OF r] replace_contents_collection [OF r] by (simp add: shown_iff in_all_tags_make)
next
  case False
  then have "keeps_digests h h' \<and> (\<exists>t. collection c' = add_tag vcmp h' a t)"
    using assms
    by (cases "map_of (by_digest c) (digest (h a))"; auto simp: add_image_def rbind_eq_Inr dest: keeps_resolve_duplicate; blast)
  moreover have "a \<in> set (by_type (add_tag vcmp h' a t) (image_type (h' a)))" for t
    by (simp add: add_tag_def index_tag_def Let_def)
  ultimately show ?thesis by (fastforce simp: shown_iff all_tags_def)
qed

lemma keeps_mark_seen: "keeps_digests h (mark_image_seen_on_node it d node sz c h)"
proof -
  have "keeps_digests h (fold (\<lambda>n h. case f n of None \<Rightarrow> h | Some b \<Rightarrow> modify b (see_image node sz) h) ns h)" for f ns h
    by (induction ns arbitrary: h)
      (auto simp: keeps_digests_def modify_def see_image_def split: option.split)
  note rest = this
  have "keeps_digests h (modify a (see_image node sz) h)" for a
    by (simp add: keeps_digests_def modify_def see_image_def)
  note all = keeps_digests_trans [OF this rest]
  show ?thesis
    by (cases "map_of (by_digest c) d") (auto simp only: mark_image_seen_on_node_def option.case all keeps_digests_refl)
qed

section \<open>Prepulled images\<close>

lemma on_store_Inr:
  assumes "run (on_store f) api s = (s', Inr x)"
  shows "\<exists>h. f (img_store s) = Inr (h, x) \<and> s' = s\<lparr>img_store := h\<rparr>"
  using assms by (auto simp: on_store_def run_simps split: sum.splits prod.splits)

lemma only_image_of_digest:
  assumes "digests_ok h c" and "b \<in> set (dvalues (by_digest c))"
  shows "image_for_digest (digest (h b)) c = Some b"
  using assms by (auto simp: digests_ok_def image_for_digest_def dict_ok_def list_all_iff)

text \<open>C8: An image of the collection to prepull that was prepulled on a node and marked so
  is no longer missing there: no image with its digest is in the list for that node afterwards,
  although adding it to the images of the node may rearrange aliases there, and may change the
  architecture that an image is for.\<close>

theorem prepulled_not_missing:
  assumes "digests_ok (img_store s) (to_prepull s)" and "dict_ok (node_dict s)" and "map_of (node_dict s) node = Some nd"
    and "image_for_digest (digest (img_store s a)) (to_prepull s) = Some a"
    and "run (mark_prepulled rp a node) api s = (s', Inr ())"
  shows "\<exists>found. run (missing_images_by_node rp) api s' = (s', Inr found) \<and>
    (\<forall>as b. (node, as) \<in> set found \<longrightarrow> b \<in> set as \<longrightarrow> digest (img_store s' b) \<noteq> digest (img_store s' a))"
proof -
  let ?h = "mark_image_seen_on_node (rp_it rp) (digest (img_store s a)) node None (src_images s) (img_store s)"
  obtain h' c where add: "add_image (rp_vcmp rp) (rp_it rp) a (?h, nd_images nd) = Inr (h', c)"
    and s': "s' = s\<lparr>img_store := h', node_dict := dset node (nd\<lparr>nd_images := c\<rparr>) (node_dict s)\<rparr>"
    using assms(3-5)
    by (auto simp: mark_prepulled_def source_mark_prepulled_def run_simps split: prod.splits sum.splits dest!: on_store_Inr)
  have digs: "keeps_digests (img_store s) h'" and shown: "\<not> arch_specific h' a \<Longrightarrow> a \<in> set (all_images False True False h' c)"
    using add_image_shows [OF add] keeps_digests_trans [OF keeps_mark_seen] by auto
  have ok: "digests_ok (img_store s') (to_prepull s')"
    using assms(1) digs by (simp add: s' digests_ok_def keeps_digests_def)
  obtain found where found: "run (missing_images_by_node rp) api s' = (s', Inr found)"
    "\<forall>n b. (\<exists>as. (n, as) \<in> set found \<and> b \<in> set as) \<longleftrightarrow> (\<exists>nd. (n, nd) \<in> set (node_dict s') \<and>
       b \<in> set (dvalues (by_digest (to_prepull s'))) \<and> \<not> arch_specific (img_store s') b \<and>
       digest (img_store s' b) \<notin> shown_digests (img_store s') (nd_images nd))"
    using missing_images_run [OF ok, of rp api] by blast
  have "digest (img_store s' b) \<noteq> digest (img_store s' a)" if "(node, as) \<in> set found" "b \<in> set as" for as b
  proof -
    from that found(2) obtain nd' where nd': "(node, nd') \<in> set (node_dict s')"
      "b \<in> set (dvalues (by_digest (to_prepull s')))" "\<not> arch_specific (img_store s') b"
      "digest (img_store s' b) \<notin> shown_digests (img_store s') (nd_images nd')" by blast
    have "dict_ok (node_dict s')" using assms(2) by (simp add: s')
    with nd'(1) have "map_of (node_dict s') node = Some nd'" by (simp add: dict_ok_def map_of_eq_Some_iff)
    then have c: "nd_images nd' = c" by (auto simp: s')
    show ?thesis
    proof (cases "arch_specific h' a")
      case False
      with c nd'(4) shown show ?thesis by (auto simp: s' shown_digests_def)
    next
      case True
      then have "b \<noteq> a" using nd'(3) by (auto simp: s')
      with only_image_of_digest [OF ok nd'(2)] assms(4) digs show ?thesis
        by (auto simp: s' keeps_digests_def image_for_digest_def)
    qed
  qed
  with found(1) show ?thesis by blast
qed

section \<open>References\<close>

text \<open>The indexes of the source know images and tags by their digest and name.\<close>

definition source_knows :: "image_state \<Rightarrow> bool" where
  "source_knows s \<longleftrightarrow>
     (\<forall>n a. image_for_tag_name n (src_images s) = Some a \<longrightarrow> tag_name (img_store s a) = n) \<and>
     (\<forall>d a. image_for_digest d (src_images s) = Some a \<longrightarrow> digest (img_store s a) = d) \<and>
     (\<forall>n t. tag_for_tag_name n (src_tags s) = Some t \<longrightarrow> tag_name t = n)"

definition source_place :: "prepuller_options \<Rightarrow> string \<times> string" where
  "source_place po =
     (case po_source po of
        Docker_images c \<Rightarrow> (ds_registry c, ds_repository c)
      | Gar_images c \<Rightarrow> (gar_registry c, gar_path c))"

lemma docker_new_image_run:
  "run (docker_new_image c t d) api s = (s', Inr a) \<Longrightarrow> tag_name (img_store s' a) = tag_name t \<and> digest (img_store s' a) = d"
  by (auto simp: docker_new_image_def new_images_def from_tag_def run_simps)

lemma docker_reference_found:
  assumes "run (docker_image_for_reference rp c ref) api s = (s', Inr a)" and "source_knows s"
  shows "(ref_registry ref, ref_repository ref) = (ds_registry c, ds_repository c) \<and>
    (nonempty (ref_digest ref) \<and> digest (img_store s' a) = the (ref_digest ref) \<or>
     (\<exists>n. ref_tag ref = Some n \<and> tag_name (img_store s' a) = n))"
proof -
  have place: "ref_registry ref = ds_registry c" "ref_repository ref = ds_repository c"
    using assms(1) by (auto simp: docker_image_for_reference_def unknown_image_def split: if_splits)
  let ?x = "if nonempty (ref_digest ref) then image_for_digest (the (ref_digest ref)) (src_images s) else None"
  show ?thesis
  proof (cases ?x)
    case (Some b)
    then have "nonempty (ref_digest ref)" "image_for_digest (the (ref_digest ref)) (src_images s) = Some b"
      by (auto split: if_splits)
    moreover from this place assms(1) have "a = b \<and> s' = s" by (auto simp: docker_image_for_reference_def run_simps)
    ultimately show ?thesis using place assms(2) by (auto simp: source_knows_def)
  next
    case None
    then obtain n where n: "ref_tag ref = Some n"
      using assms(1) place by (cases "ref_tag ref") (auto simp: docker_image_for_reference_def run_simps)
    show ?thesis
    proof (cases "image_for_tag_name n (src_images s)")
      case (Some b)
      with None n place assms(1) have "a = b \<and> s' = s" by (auto simp: docker_image_for_reference_def run_simps)
      with Some n place assms(2) show ?thesis by (auto simp: source_knows_def)
    next
      case none: None
      with None n place assms(1) obtain t where t: "tag_for_tag_name n (src_tags s) = Some t"
        by (cases "tag_for_tag_name n (src_tags s)")
          (auto simp: docker_image_for_reference_def unknown_image_def run_simps)
      with None none n place assms(1) obtain s1 d where "run (docker_new_image c t d) api s1 = (s', Inr a)"
        by (auto simp: docker_image_for_reference_def run_simps split: if_splits prod.splits sum.splits)
      from docker_new_image_run [OF this] t assms(2) n place show ?thesis by (auto simp: source_knows_def)
    qed
  qed
qed

lemma gar_reference_found:
  assumes "run (gar_image_for_reference c ref) api s = (s', Inr a)" and "source_knows s"
  shows "(ref_registry ref, ref_repository ref) = (gar_registry c, gar_path c) \<and>
    (if nonempty (ref_digest ref) then digest (img_store s' a) = the (ref_digest ref)
     else ref_tag ref = Some (tag_name (img_store s' a)))"
proof -
  let ?x = "if nonempty (ref_digest ref) then image_for_digest (the (ref_digest ref)) (src_images s)
    else image_for_tag_name (the (ref_tag ref)) (src_images s)"
  have "nonempty (ref_digest ref) \<or> ref_tag ref \<noteq> None" "s' = s" "?x = Some a"
    "ref_registry ref = gar_registry c" "ref_repository ref = gar_path c"
    using assms(1) by (auto simp: gar_image_for_reference_def unknown_image_def run_simps split: if_splits option.splits)
  with assms(2) show ?thesis by (auto simp: source_knows_def)
qed

theorem image_for_reference_sound:
  assumes "run (source_image_for_reference rp po ref) api s = (s', Inr a)" and "source_knows s"
  shows "(ref_registry ref, ref_repository ref) = source_place po \<and>
    (nonempty (ref_digest ref) \<and> digest (img_store s' a) = the (ref_digest ref) \<or>
     ref_tag ref = Some (tag_name (img_store s' a)))"
proof (cases "po_source po")
  case (Docker_images c)
  with assms docker_reference_found [of rp c ref api s s' a] show ?thesis
    by (auto simp: source_image_for_reference_def source_place_def)
next
  case (Gar_images c)
  with assms gar_reference_found [of c ref api s s' a] show ?thesis
    by (auto simp: source_image_for_reference_def source_place_def split: if_splits)
qed

section \<open>The menu\<close>

lemma find_snoc: "find P (xs @ [x]) = (case find P xs of None \<Rightarrow> if P x then Some x else None | Some y \<Rightarrow> Some y)"
  by (induction xs) auto

lemma menu_loop_eq:
  "menu_loop tag ns is r m =
     (case find (\<lambda>i. tag_name i = tag) (rev is) of None \<Rightarrow> r | Some i \<Rightarrow> Some (menu_from_rsp_image i),
      m @ map menu_from_rsp_image (filter (\<lambda>i. tag_name i \<noteq> tag \<and> set ns \<subseteq> set (nodes i)) is))"
  by (induction tag ns "is" r m rule: menu_loop.induct) (auto split: option.split simp: find_snoc)

theorem main_menu_entries:
  "main_menu po s =
     (let shown = map (img_store s) (all_images True True False (img_store s) (to_prepull s));
          recommended = (\<lambda>i. tag_name i = po_recommended_tag po)
      in (case find recommended (rev shown) of None \<Rightarrow> [] | Some i \<Rightarrow> [menu_from_rsp_image i]) @
         map menu_from_rsp_image (filter (\<lambda>i. \<not> recommended i \<and> set (eligible_nodes s) \<subseteq> set (nodes i)) shown))"
  by (simp add: main_menu_def menu_loop_eq Let_def split: option.split)

section \<open>Examples\<close>

text \<open>One node without images, and the images of the example collection to prepull.\<close>

definition no_images :: image_collection where
  "no_images = \<lparr>by_digest = [], collection = empty_collection, unresolved_aliases = []\<rparr>"

definition example_node :: node_data where
  "example_node = \<lparr>nd_name = ''n1'', nd_images = no_images, nd_eligible = True, nd_comment = None\<rparr>"

definition example_rp :: registry_params where
  "example_rp = \<lparr>rp_vcmp = precedence, rp_it = rev, rp_credentials = [], rp_next_url = (\<lambda>l. None),
     rp_join = (\<lambda>b l. l), rp_pages = 3\<rparr>"

definition example_images_state :: image_state where
  "example_images_state = \<lparr>k_clock = 0, docker_auth = [], img_store = example_store, img_next = 4, src_tags = empty_collection,
     src_images = example_images, to_prepull = example_images, node_dict = [(''n1'', example_node)],
     img_locked = False, img_refreshed = True\<rparr>"

definition no_answers :: "(image_state, k_wait, k_answer, k_exn) env" where
  "no_answers w s = (s, Inl K_cancelled)"

lemma example_digests: "digests_ok (img_store example_images_state) (to_prepull example_images_state)"
  by code_simp

lemma example_missing: "0 \<in> set (dvalues (by_digest example_images))" "\<not> arch_specific example_store 0"
  "image_for_digest ''d1'' example_images = Some 0" "digest (example_store 0) = ''d1''"
  by code_simp+

theorem missing_images_exact_witness:
  "\<exists>found. run (missing_images_by_node example_rp) no_answers example_images_state = (example_images_state, Inr found) \<and>
    (\<exists>as. (''n1'', as) \<in> set found \<and> 0 \<in> set as)"
proof -
  have "shown_digests example_store no_images = {}"
    by (simp add: shown_digests_def no_images_def all_images_def all_tags_def empty_collection_def)
  then show ?thesis
    using missing_images_exact [OF example_digests, of example_rp no_answers] example_missing
    by (fastforce simp: example_images_state_def example_node_def)
qed

theorem prepulled_not_missing_witness:
  "\<exists>s' found. run (missing_images_by_node example_rp) no_answers s' = (s', Inr found) \<and>
    run (mark_prepulled example_rp 0 ''n1'') no_answers example_images_state = (s', Inr ()) \<and>
    (\<forall>as b. (''n1'', as) \<in> set found \<longrightarrow> b \<in> set as \<longrightarrow> digest (img_store s' b) \<noteq> ''d1'')"
proof -
  let ?h = "mark_image_seen_on_node rev ''d1'' ''n1'' None example_images example_store"
  let ?c = "(set_digest ''d1'' 0 no_images)\<lparr>collection := add_tag precedence ?h 0 empty_collection\<rparr>"
  let ?s = "example_images_state\<lparr>img_store := ?h, node_dict := [(''n1'', example_node\<lparr>nd_images := ?c\<rparr>)]\<rparr>"
  have h: "digest (?h 0) = ''d1''" "architecture (?h 0) = None" by code_simp+
  have run: "run (mark_prepulled example_rp 0 ''n1'') no_answers example_images_state = (?s, Inr ())"
    using example_missing h
    by (simp add: mark_prepulled_def source_mark_prepulled_def on_store_def add_image_def run_simps example_images_state_def
        example_rp_def example_node_def no_images_def set_digest_def)
  have "\<exists>found. run (missing_images_by_node example_rp) no_answers ?s = (?s, Inr found) \<and>
    (\<forall>as b. (''n1'', as) \<in> set found \<longrightarrow> b \<in> set as \<longrightarrow> digest (img_store ?s b) \<noteq> digest (img_store ?s 0))"
    by (rule prepulled_not_missing [OF example_digests _ _ _ run])
      (use example_missing h in \<open>simp_all add: example_images_state_def dict_ok_def arch_specific_def nonempty_def\<close>)
  with run h show ?thesis by auto
qed

theorem image_for_reference_sound_witness:
  "run (source_image_for_reference example_rp \<lparr>po_source = Docker_images \<lparr>ds_registry = ''reg'', ds_repository = ''repo''\<rparr>,
       po_refresh_interval = 0, po_prepull_timeout = 0, po_recommended_tag = ''recommended'', po_num_releases = 1,
       po_num_weeklies = 0, po_num_dailies = 0, po_cycle = None, po_pin = [], po_alias_tags = []\<rparr>
     \<lparr>ref_registry = ''reg'', ref_repository = ''repo'', ref_tag = None, ref_digest = Some ''d1''\<rparr>)
     no_answers (example_images_state\<lparr>src_images := no_images\<lparr>by_digest := [(''d1'', 0)]\<rparr>\<rparr>) =
     (example_images_state\<lparr>src_images := no_images\<lparr>by_digest := [(''d1'', 0)]\<rparr>\<rparr>, Inr 0) \<and>
   digest (example_store 0) = ''d1''"
proof -
  let ?s = "example_images_state\<lparr>src_images := no_images\<lparr>by_digest := [(''d1'', 0)]\<rparr>\<rparr>"
  let ?po = "\<lparr>po_source = Docker_images \<lparr>ds_registry = ''reg'', ds_repository = ''repo''\<rparr>,
       po_refresh_interval = 0, po_prepull_timeout = 0, po_recommended_tag = ''recommended'', po_num_releases = 1,
       po_num_weeklies = 0, po_num_dailies = 0, po_cycle = None, po_pin = [], po_alias_tags = []\<rparr>"
  let ?ref = "\<lparr>ref_registry = ''reg'', ref_repository = ''repo'', ref_tag = None, ref_digest = Some ''d1''\<rparr>"
  have run: "run (source_image_for_reference example_rp ?po ?ref) no_answers ?s = (?s, Inr 0)"
    by (simp add: source_image_for_reference_def docker_image_for_reference_def image_for_digest_def run_simps nonempty_def)
  have "source_knows ?s"
    using example_missing by (simp add: source_knows_def example_images_state_def no_images_def image_for_digest_def
        image_for_tag_name_def tag_for_tag_name_def empty_collection_def)
  from image_for_reference_sound [OF run this] run show ?thesis by (simp add: example_images_state_def)
qed

end
