(* ===== verification/Background.thy ===== *)
theory Background
  imports Image_Laws
begin

text \<open>
  The background tasks of the controller, \<open>src/src/nublado/controller/background.py\<close>: the periodic
  loop, the loop of the prepuller, and starting and stopping all tasks. A periodic call is a coroutine
  of the state that it works on. The loops do not end; a run of one is bounded by fuel. Logging is
  left out.
\<close>

section \<open>Loops\<close>

definition pause :: "timedelta \<Rightarrow> ('x, unit) k_proc" where
  "pause d = bind (await (Sleep d)) (\<lambda>_. Ret ())"

definition guarded :: "('x, unit) k_proc \<Rightarrow> ('x, unit) k_proc \<Rightarrow> ('x, unit) k_proc" where
  "guarded p failed = catch p (\<lambda>e. if is_exn e then seq (report_exn e) failed else Raise e)"

fun periodic :: "nat \<Rightarrow> ('x, unit) k_proc \<Rightarrow> timedelta \<Rightarrow> ('x, unit) k_proc" where
  "periodic 0 call interval = Raise Out_of_fuel"
| "periodic (Suc n) call interval =
     bind (reading k_clock) (\<lambda>start.
     seq (guarded call (Ret ()))
    (bind (reading k_clock) (\<lambda>now.
     seq (do_if (0 < interval - (now - start)) (pause (interval - (now - start))))
         (periodic n call interval))))"

definition background_loop :: "nat \<Rightarrow> ('x, unit) k_proc \<Rightarrow> timedelta \<Rightarrow> ('x, unit) k_proc" where
  "background_loop n call interval = seq (pause interval) (periodic n call interval)"

fun prepull_loop :: "nat \<Rightarrow> registry_params \<Rightarrow> prepuller_options \<Rightarrow> unit ism" where
  "prepull_loop 0 rp po = Raise Out_of_fuel"
| "prepull_loop (Suc n) rp po =
     seq (guarded (seq prepuller_wait (prepull_images rp)) (pause (po_refresh_interval po)))
         (prepull_loop n rp po)"

section \<open>Starting and stopping\<close>

datatype background_task = Refresh_images | Prepull_images | Reconcile_labs | Reap_spawners | Reconcile_files | Watch_files

datatype background_wait = Run_together "background_task list" | Spawn background_task | Close_scheduler | Stop_monitors | Let_start

text \<open>
  The tasks of the scheduler, if there is one. A scheduler of \<open>aiojobs\<close> is a collection of its tasks, so the
  code's tests of \<open>self._scheduler\<close> are false both when there is no scheduler and when it has no task yet:
  \<open>start\<close> can then be called again.
\<close>

record background =
  bg_scheduler :: "background_task list option"

definition scheduler_true :: "background_task list option \<Rightarrow> bool" where
  "scheduler_true sch = (case sch of None \<Rightarrow> False | Some ts \<Rightarrow> ts \<noteq> [])"

type_synonym 'e background_proc = "(background, background_wait, unit, 'e, unit) proc"

definition background_start :: "bool \<Rightarrow> bool \<Rightarrow> 'e background_proc" where
  "background_start has_files files_enabled =
     bind (reading bg_scheduler) (\<lambda>sch.
     if scheduler_true sch then Ret ()
     else
       seq (act (\<lambda>s. s\<lparr>bg_scheduler := Some []\<rparr>))
      (seq (await (Run_together ([Refresh_images, Reconcile_labs] @ (if has_files then [Reconcile_files] else []))))
      (seq (for_each ([Refresh_images, Prepull_images, Reconcile_labs, Reap_spawners] @
                (if has_files \<and> files_enabled then [Reconcile_files, Watch_files] else []))
             (\<lambda>t. seq (await (Spawn t)) (act (\<lambda>s. s\<lparr>bg_scheduler := map_option (\<lambda>ts. ts @ [t]) (bg_scheduler s)\<rparr>))))
           (await Let_start))))"

definition background_stop :: "'e background_proc" where
  "background_stop =
     bind (reading bg_scheduler) (\<lambda>sch.
     if \<not> scheduler_true sch then Ret ()
     else
       seq (await Close_scheduler)
      (seq (act (\<lambda>s. s\<lparr>bg_scheduler := None\<rparr>)) (await Stop_monitors)))"

section \<open>The loops survive failures\<close>

text \<open>Pausing and reporting an exception raise nothing that \<open>except Exception\<close> catches.\<close>

definition reports_quietly :: "('x kube_scheme, k_wait, k_answer, k_exn) env \<Rightarrow> bool" where
  "reports_quietly api \<longleftrightarrow>
     (\<forall>w s e. (\<exists>d. w = Sleep d) \<or> (\<exists>x. w = Post_exception x) \<longrightarrow> snd (api w s) = Inl e \<longrightarrow> \<not> is_exn e)"

definition stopped_only :: "k_exn + 'a \<Rightarrow> bool" where
  "stopped_only r \<longleftrightarrow> (\<forall>e. r = Inl e \<longrightarrow> \<not> is_exn e)"

lemma pause_stopped: "reports_quietly api \<Longrightarrow> stopped_only (snd (run (pause d) api s))"
  by (auto simp: reports_quietly_def stopped_only_def pause_def run_simps split: prod.split sum.split)
    (metis snd_conv)+

lemma guarded_stopped:
  assumes "reports_quietly api" and "\<And>s. stopped_only (snd (run q api s))"
  shows "stopped_only (snd (run (guarded p q) api s))"
proof (cases "run p api s")
  case (Pair s1 r)
  show ?thesis
  proof (cases "\<exists>e. r = Inl e \<and> is_exn e")
    case True
    then obtain e where e: "r = Inl e" "is_exn e" by blast
    obtain s2 x where w: "api (Post_exception e) s1 = (s2, x)" by fastforce
    show ?thesis
    proof (cases x)
      case (Inl e')
      then have "\<not> is_exn e'" using assms(1) w unfolding reports_quietly_def by (metis snd_conv)
      with Pair e w Inl show ?thesis by (simp add: guarded_def report_exn_def run_simps stopped_only_def)
    next
      case (Inr v)
      with Pair e w assms(2) show ?thesis by (simp add: guarded_def report_exn_def run_simps)
    qed
  next
    case False
    with Pair show ?thesis by (auto simp: guarded_def run_simps stopped_only_def split: sum.split)
  qed
qed

text \<open>A run of two parts, of which the first ends quietly, raises only what the second may.\<close>

lemma seq_stopped:
  assumes "stopped_only (snd (run p api s))" and "\<And>s. \<exists>e. snd (run q api s) = Inl e \<and> \<not> is_exn e"
  shows "\<exists>e. snd (run (seq p q) api s) = Inl e \<and> \<not> is_exn e"
  using assms by (auto simp: run_simps stopped_only_def split: prod.split sum.split)

lemma do_if_stopped: "stopped_only (snd (run p api s)) \<Longrightarrow> stopped_only (snd (run (do_if b p) api s))"
  by (simp add: run_simps stopped_only_def)

lemma periodic_stopped:
  assumes "reports_quietly api"
  shows "\<exists>e. snd (run (periodic n call interval) api s) = Inl e \<and> \<not> is_exn e"
proof (induction n arbitrary: s)
  case 0
  then show ?case by (simp add: is_exn_def)
next
  case (Suc n)
  have rest: "\<exists>e. snd (run (bind (reading k_clock) (\<lambda>now.
       seq (do_if (0 < interval - (now - start)) (pause (interval - (now - start)))) (periodic n call interval))) api s) = Inl e \<and>
     \<not> is_exn e" for start s
    using seq_stopped [OF do_if_stopped [OF pause_stopped [OF assms]] Suc.IH] by (simp add: run_bind run_reading)
  have "stopped_only (snd (run (guarded call (Ret ())) api s))" for s
    by (rule guarded_stopped [OF assms]) (simp add: stopped_only_def)
  from seq_stopped [OF this rest] show ?case by (simp add: run_bind run_reading)
qed

text \<open>C27: The background loops go on whatever exceptions their work raises: a run of a loop
  ends only because the bound of the run is reached or the task is cancelled.\<close>

theorem loops_survive:
  assumes "reports_quietly api" and "reports_quietly api'"
  shows "(\<exists>e. snd (run (background_loop n call interval) api s) = Inl e \<and> \<not> is_exn e) \<and>
    (\<exists>e. snd (run (prepull_loop n rp po) api' t) = Inl e \<and> \<not> is_exn e)"
proof
  show "\<exists>e. snd (run (background_loop n call interval) api s) = Inl e \<and> \<not> is_exn e"
    unfolding background_loop_def by (rule seq_stopped [OF pause_stopped [OF assms(1)] periodic_stopped [OF assms(1)]])
  show "\<exists>e. snd (run (prepull_loop n rp po) api' t) = Inl e \<and> \<not> is_exn e"
  proof (induction n arbitrary: t)
    case 0
    then show ?case by (simp add: is_exn_def)
  next
    case (Suc n)
    show ?case
      unfolding prepull_loop.simps
      by (rule seq_stopped [OF guarded_stopped [OF assms(2) pause_stopped [OF assms(2)]] Suc.IH])
  qed
qed

definition failing_answers :: "('x kube_scheme, k_wait, k_answer, k_exn) env" where
  "failing_answers w s = (case w of Sleep d \<Rightarrow> (s, Inr K_none) | Post_exception e \<Rightarrow> (s, Inr K_none) | _ \<Rightarrow> (s, Inl K_value))"

theorem loops_survive_witness:
  "(\<exists>e. snd (run (background_loop 3 (Raise K_value) 60) failing_answers \<lparr>k_clock = 0\<rparr>) = Inl e \<and> \<not> is_exn e) \<and>
   (\<exists>e. snd (run (prepull_loop 3 example_rp \<lparr>po_source = Docker_images \<lparr>ds_registry = ''reg'', ds_repository = ''repo''\<rparr>, po_refresh_interval = 60, po_prepull_timeout = 0,
       po_recommended_tag = [], po_num_releases = 0, po_num_weeklies = 0, po_num_dailies = 0, po_cycle = None, po_pin = [],
       po_alias_tags = []\<rparr>) failing_answers example_images_state) = Inl e \<and> \<not> is_exn e)"
  by (rule loops_survive) (auto simp: reports_quietly_def failing_answers_def)

end
