(* ===== verification/Hub_Plugins.thy ===== *)
theory Hub_Plugins
  imports Async Kube_Models
begin

text \<open>
  The JupyterHub plugins: the spawner \<open>src/hub/plugins/spawner/src/rubin/nublado/spawner\<close>
  (\<open>_internals.py\<close>, \<open>_models.py\<close>, \<open>_exceptions.py\<close>) and the authenticator
  \<open>src/hub/plugins/authenticator/src/rubin/nublado/authenticator/_internals.py\<close>. What the spawner
  inherits from JupyterHub (the stored URL, the options of the form, the environment) is a parameter.
  Logging is left out.
\<close>

section \<open>Requests and exceptions\<close>

record hub_request =
  cq_method :: string
  cq_url :: string
  cq_headers :: "(string, string) dict"
  cq_body :: "((string, string list) dict \<times> (string, string) dict) option"
  cq_timeout :: "timedelta option"

text \<open>The fields of a JSON object in a response that are text or null, if it is one.\<close>

record hub_response =
  cr_status :: nat
  cr_json :: "(string, string option) dict option"
  cr_text :: string

datatype hub_exn =
    Hub_http "nat option"
  | Hub_repertoire
  | Controller_web_error "nat option"
  | Discovery_error
  | Invalid_auth_state
  | Missing_field
  | Spawn_failed
  | Hub_type
  | Hub_value
  | Hub_key
  | Hub_timeout
  | Hub_cancelled
  | Hub_fuel

datatype sse_value = V_text string | V_int int | V_other

text \<open>An event of the stream, with its data read as a JSON object, if it is one.\<close>

record server_sent_event =
  sse_event :: string
  sse_data :: string
  sse_json :: "(string, sse_value) dict option"

datatype hub_wait =
    Hub_request hub_request
  | Discover string
  | Auth_state
  | Read_text string
  | Sse_open hub_request
  | Sse_next
  | Wait_trigger nat timedelta
  | Yield

datatype hub_answer = A_none | A_response hub_response | A_url "string option" | A_state "(string, string) dict option"
  | A_text string | A_event "server_sent_event option"

section \<open>Spawn events\<close>

datatype lab_status = L_PENDING | L_RUNNING | L_TERMINATING | L_TERMINATED | L_FAILED

definition lab_status_value :: "lab_status \<Rightarrow> string" where
  "lab_status_value st = (case st of L_PENDING \<Rightarrow> ''pending'' | L_RUNNING \<Rightarrow> ''running'' | L_TERMINATING \<Rightarrow> ''terminating''
     | L_TERMINATED \<Rightarrow> ''terminated'' | L_FAILED \<Rightarrow> ''failed'')"

record spawn_event =
  se_progress :: int
  se_message :: sse_value
  se_severity :: string
  se_complete :: bool
  se_failed :: bool

definition int_of_value :: "sse_value \<Rightarrow> int option" where
  "int_of_value v = (case v of V_text t \<Rightarrow> read_int t | V_int n \<Rightarrow> Some n | V_other \<Rightarrow> None)"

text \<open>
  The \<open>try\<close> block: the message, if any, and the value of the variable \<open>progress\<close> afterwards. The
  variable is assigned before its value is checked, and the handler does not undo that.
\<close>

definition sse_fields :: "server_sent_event \<Rightarrow> int \<Rightarrow> sse_value option \<times> int" where
  "sse_fields e p =
     (let failed = (\<lambda>p. (Some (V_text (sse_data e)), p))
      in case sse_json e of
           None \<Rightarrow> failed p
         | Some d \<Rightarrow>
             if \<not> set (dkeys d) \<subseteq> {''message'', ''progress''} then failed p
             else (case map_of d ''progress'' of
                 None \<Rightarrow> (map_of d ''message'', p)
               | Some v \<Rightarrow>
                   (case int_of_value v of
                      None \<Rightarrow> failed p
                    | Some n \<Rightarrow> if n < 0 \<or> 100 < n then failed n else (map_of d ''message'', n))))"

text \<open>An event without a message cannot be constructed.\<close>

definition from_sse :: "server_sent_event \<Rightarrow> int \<Rightarrow> (hub_exn, spawn_event) result" where
  "from_sse e p =
     (case sse_fields e p of
        (None, p) \<Rightarrow> Inl Hub_type
      | (Some m, p) \<Rightarrow>
          let ev = \<lparr>se_progress = p, se_message = m, se_severity = ''unknown'', se_complete = False, se_failed = False\<rparr>
          in Inr (if sse_event e = ''complete'' then ev\<lparr>se_progress := 75, se_severity := ''info'', se_complete := True\<rparr>
             else if sse_event e = ''info'' \<or> sse_event e = ''error'' then ev\<lparr>se_severity := sse_event e\<rparr>
             else if sse_event e = ''failed'' then ev\<lparr>se_severity := ''error'', se_failed := True\<rparr>
             else ev))"

section \<open>The spawner\<close>

text \<open>
  Lists of events and triggers are objects that outlive their place in the spawner. \<open>sp_log\<close> has the
  events that each call of \<open>progress\<close> has yielded, \<open>sp_done\<close> which of the spawn tasks have ended.
\<close>

record spawner =
  sp_lists :: "nat \<Rightarrow> spawn_event list"
  sp_events :: nat
  sp_next_list :: nat
  sp_set :: "nat \<Rightarrow> bool"
  sp_triggers :: "nat list"
  sp_next_trigger :: nat
  sp_future :: "nat option"
  sp_next_future :: nat
  sp_done :: "nat \<Rightarrow> bool"
  sp_log :: "nat \<Rightarrow> spawn_event list"

record spawner_config =
  sc_user :: string
  sc_start_timeout :: timedelta
  sc_token_path :: string
  sc_options :: "(string, string list) dict"
  sc_env :: "(string, string) dict"
  sc_stored_url :: string
  sc_bound :: nat

type_synonym 'a hub_proc = "(spawner, hub_wait, hub_answer, hub_exn, 'a) proc"

definition convert_exception :: "'a hub_proc \<Rightarrow> 'a hub_proc" where
  "convert_exception p = catch p (\<lambda>e. case e of
       Hub_http st \<Rightarrow> Raise (Controller_web_error st) | Hub_repertoire \<Rightarrow> Raise Discovery_error | _ \<Rightarrow> Raise e)"

definition controller_url :: "string list \<Rightarrow> string hub_proc" where
  "controller_url components =
     bind (await (Discover ''nublado-controller'')) (\<lambda>a. case a of
         A_url (Some u) \<Rightarrow>
           if u = [] then Raise Discovery_error
           else Ret (rev (dropWhile (\<lambda>c. c = CHR ''/'') (rev u)) @ ''/spawner/v1/'' @ str_join ''/'' components)
       | _ \<Rightarrow> Raise Discovery_error)"

definition admin_authorization :: "spawner_config \<Rightarrow> (string, string) dict hub_proc" where
  "admin_authorization cfg =
     bind (await (Read_text (sc_token_path cfg))) (\<lambda>a. case a of
         A_text t \<Rightarrow> Ret [(''Authorization'', ''Bearer '' @ strip t)] | _ \<Rightarrow> Raise Hub_type)"

definition user_authorization :: "(string, string) dict hub_proc" where
  "user_authorization =
     bind (await Auth_state) (\<lambda>a. case a of
         A_state (Some st) \<Rightarrow>
           (case map_of st ''token'' of None \<Rightarrow> Raise Invalid_auth_state | Some t \<Rightarrow> Ret [(''Authorization'', ''Bearer '' @ t)])
       | _ \<Rightarrow> Raise Hub_type)"

definition hub_http :: "hub_request \<Rightarrow> hub_response hub_proc" where
  "hub_http q = bind (await (Hub_request q)) (\<lambda>a. case a of A_response r \<Rightarrow> Ret r | _ \<Rightarrow> Raise Hub_type)"

definition hub_raise_for_status :: "hub_response \<Rightarrow> unit hub_proc" where
  "hub_raise_for_status r =
     (if 200 \<le> cr_status r \<and> cr_status r < 300 then Ret () else Raise (Hub_http (Some (cr_status r))))"

definition hub_get :: "string \<Rightarrow> (string, string) dict \<Rightarrow> hub_request" where
  "hub_get url h = \<lparr>cq_method = ''GET'', cq_url = url, cq_headers = h, cq_body = None, cq_timeout = None\<rparr>"

definition hub_json :: "hub_response \<Rightarrow> (string, string option) dict hub_proc" where
  "hub_json r = (case cr_json r of None \<Rightarrow> Raise Hub_value | Some d \<Rightarrow> Ret d)"

definition get_internal_url :: "spawner_config \<Rightarrow> string hub_proc" where
  "get_internal_url cfg =
     bind (controller_url [''labs'', sc_user cfg]) (\<lambda>url.
     bind (admin_authorization cfg) (\<lambda>h.
     bind (hub_http (hub_get url h)) (\<lambda>r.
     seq (hub_raise_for_status r)
     (bind (hub_json r) (\<lambda>d. case map_of d ''internal_url'' of
         Some (Some u) \<Rightarrow> if u = [] then Raise Missing_field else Ret u
       | _ \<Rightarrow> Raise Missing_field)))))"

text \<open>Every exception but a cancellation makes JupyterHub use the stored URL.\<close>

definition get_url :: "spawner_config \<Rightarrow> string hub_proc" where
  "get_url cfg =
     catch (get_internal_url cfg)
       (\<lambda>e. if e = Hub_cancelled \<or> e = Hub_fuel then Raise e else Ret (sc_stored_url cfg))"

definition options_form :: "spawner_config \<Rightarrow> string hub_proc" where
  "options_form cfg = convert_exception
     (bind (controller_url [''lab-form'', sc_user cfg]) (\<lambda>url.
      bind user_authorization (\<lambda>h.
      bind (hub_http (hub_get url h)) (\<lambda>r.
      seq (hub_raise_for_status r) (Ret (cr_text r))))))"

text \<open>The exit status that JupyterHub is told: \<open>None\<close> while the lab runs.\<close>

definition poll_result :: "string \<Rightarrow> nat option" where
  "poll_result st =
     (if st = lab_status_value L_FAILED then Some 1
      else if st = lab_status_value L_TERMINATING \<or> st = lab_status_value L_TERMINATED then Some 0 else None)"

definition poll :: "spawner_config \<Rightarrow> nat option hub_proc" where
  "poll cfg = convert_exception
     (bind (controller_url [''labs'', sc_user cfg]) (\<lambda>url.
      bind (admin_authorization cfg) (\<lambda>h.
      bind (hub_http (hub_get url h)) (\<lambda>r.
      if cr_status r = 404 then Ret (Some 0)
      else seq (hub_raise_for_status r)
        (bind (hub_json r) (\<lambda>d. case map_of d ''status'' of
            None \<Rightarrow> Raise Hub_key
          | Some None \<Rightarrow> Ret None
          | Some (Some st) \<Rightarrow> Ret (poll_result st)))))))"

definition hub_stop :: "spawner_config \<Rightarrow> unit hub_proc" where
  "hub_stop cfg = convert_exception
     (bind (controller_url [''labs'', sc_user cfg]) (\<lambda>url.
      bind (admin_authorization cfg) (\<lambda>h.
      bind (hub_http \<lparr>cq_method = ''DELETE'', cq_url = url, cq_headers = h, cq_body = None,
              cq_timeout = Some (300 * 1000000)\<rparr>) (\<lambda>r.
      if cr_status r = 404 then Ret () else hub_raise_for_status r))))"

definition create_lab_request :: "spawner_config \<Rightarrow> hub_response hub_proc" where
  "create_lab_request cfg =
     bind (controller_url [''labs'', sc_user cfg, ''create'']) (\<lambda>url.
     bind user_authorization (\<lambda>h.
       hub_http \<lparr>cq_method = ''POST'', cq_url = url, cq_headers = h,
         cq_body = Some (sc_options cfg, sc_env cfg), cq_timeout = Some (sc_start_timeout cfg)\<rparr>))"

definition append_event :: "spawn_event \<Rightarrow> unit hub_proc" where
  "append_event ev = act (\<lambda>s. s\<lparr>sp_lists := (sp_lists s)(sp_events s := sp_lists s (sp_events s) @ [ev])\<rparr>)"

definition wake_listeners :: "spawner \<Rightarrow> spawner" where
  "wake_listeners s = s\<lparr>sp_set := (\<lambda>i. i \<in> set (sp_triggers s) \<or> sp_set s i)\<rparr>"

definition fresh_events :: "spawner \<Rightarrow> spawner" where
  "fresh_events s =
     (wake_listeners s)\<lparr>sp_events := sp_next_list s, sp_next_list := sp_next_list s + 1,
        sp_lists := (sp_lists s)(sp_next_list s := []), sp_triggers := []\<rparr>"

definition or_hub_error :: "(hub_exn, 'a) result \<Rightarrow> 'a hub_proc" where
  "or_hub_error r = (case r of Inl e \<Rightarrow> Raise e | Inr x \<Rightarrow> Ret x)"

text \<open>The events of the stream until one says that the spawn is complete or has failed.\<close>

fun follow_events :: "nat \<Rightarrow> int \<Rightarrow> unit hub_proc" where
  "follow_events 0 p = Raise Hub_fuel"
| "follow_events (Suc n) p =
     bind (await Sse_next) (\<lambda>a. case a of
         A_event (Some e) \<Rightarrow>
           if sse_event e = ''ping'' then follow_events n p
           else bind (or_hub_error (from_sse e p)) (\<lambda>ev.
             seq (append_event ev)
               (if se_complete ev then Ret ()
                else if se_failed ev then Raise Spawn_failed
                else follow_events n (if se_progress ev \<noteq> 0 then se_progress ev else p)))
       | A_event None \<Rightarrow> Ret ()
       | _ \<Rightarrow> Raise Hub_type)"

definition get_progress_events :: "spawner_config \<Rightarrow> unit hub_proc" where
  "get_progress_events cfg =
     bind (controller_url [''labs'', sc_user cfg, ''events'']) (\<lambda>url.
     bind user_authorization (\<lambda>h.
     bind (await (Sse_open ((hub_get url h)\<lparr>cq_timeout := Some (sc_start_timeout cfg)\<rparr>))) (\<lambda>_.
       follow_events (sc_bound cfg) 0)))"

definition spawn_body :: "spawner_config \<Rightarrow> string hub_proc" where
  "spawn_body cfg =
     bind (create_lab_request cfg) (\<lambda>r.
     bind (if cr_status r = 409
           then seq (append_event \<lparr>se_progress = 1, se_message = V_text ''Deleting existing orphaned lab'',
                       se_severity = ''warning'', se_complete = False, se_failed = False\<rparr>)
                  (seq (hub_stop cfg) (create_lab_request cfg))
           else Ret r) (\<lambda>r.
     seq (hub_raise_for_status r)
    (seq (get_progress_events cfg) (get_internal_url cfg))))"

definition start_inner :: "spawner_config \<Rightarrow> string hub_proc" where
  "start_inner cfg = convert_exception (seq (act fresh_events) (finally_do (spawn_body cfg) (act wake_listeners)))"

text \<open>\<open>start\<close> makes a task, which is done in the step in which it returns or raises.\<close>

definition start_task :: "spawner_config \<Rightarrow> nat \<Rightarrow> string hub_proc" where
  "start_task cfg f = finally_do (start_inner cfg) (act (\<lambda>s. s\<lparr>sp_done := (sp_done s)(f := True)\<rparr>))"

definition start :: "nat hub_proc" where
  "start =
     bind (reading sp_next_future) (\<lambda>f.
     seq (act (\<lambda>s. s\<lparr>sp_future := Some f, sp_next_future := f + 1\<rparr>)) (Ret f))"

definition yield_event :: "nat \<Rightarrow> spawn_event \<Rightarrow> unit hub_proc" where
  "yield_event i ev =
     seq (act (\<lambda>s. s\<lparr>sp_log := (sp_log s)(i := sp_log s i @ [ev])\<rparr>)) (bind (await Yield) (\<lambda>_. Ret ()))"

fun progress_loop :: "nat \<Rightarrow> timedelta \<Rightarrow> nat \<Rightarrow> nat \<Rightarrow> nat \<Rightarrow> nat \<Rightarrow> unit hub_proc" where
  "progress_loop 0 limit i f l next_event = Raise Hub_fuel"
| "progress_loop (Suc n) limit i f l next_event =
     seq (act (\<lambda>s. s\<lparr>sp_set := (sp_set s)(i := False)\<rparr>))
    (bind (reading (\<lambda>s. (sp_done s f, sp_lists s l))) (\<lambda>(complete, evs).
     seq (for_each (drop next_event evs) (yield_event i))
         (if complete then Ret ()
          else try_else (await (Wait_trigger i limit))
            (\<lambda>e. if e = Hub_timeout then Ret () else Raise e)
            (\<lambda>_. progress_loop n limit i f l (length evs)))))"

definition hub_progress :: "spawner_config \<Rightarrow> unit hub_proc" where
  "hub_progress cfg =
     bind (reading sp_next_trigger) (\<lambda>i.
     seq (act (\<lambda>s. s\<lparr>sp_triggers := sp_triggers s @ [i], sp_next_trigger := i + 1, sp_set := (sp_set s)(i := False)\<rparr>))
    (bind (reading (\<lambda>s. (sp_future s, sp_events s))) (\<lambda>(f, l). case f of
         None \<Rightarrow> Ret ()
       | Some f \<Rightarrow> progress_loop (sc_bound cfg) (sc_start_timeout cfg) i f l 0)))"

text \<open>What \<open>progress\<close> yields, as JupyterHub sees it. The text of a number is a parameter.\<close>

definition event_to_dict :: "(sse_value \<Rightarrow> string) \<Rightarrow> spawn_event \<Rightarrow> int \<times> string" where
  "event_to_dict show ev = (se_progress ev, ''['' @ se_severity ev @ ''] '' @ show (se_message ev))"

section \<open>The authenticator\<close>

text \<open>Header names are in lower case, as they are looked up without case.\<close>

datatype auth_error = Http_401

datatype refresh_result = Auth_valid | Auth_info string "(string, string) dict"

definition build_auth_info :: "(string, string) dict \<Rightarrow> (auth_error, refresh_result) result" where
  "build_auth_info hs =
     (case (map_of hs ''x-auth-request-user'', map_of hs ''x-auth-request-token'') of
        (Some u, Some t) \<Rightarrow> if u = [] \<or> t = [] then Inl Http_401 else Inr (Auth_info u [(''token'', t)])
      | _ \<Rightarrow> Inl Http_401)"

definition refresh_user :: "string \<Rightarrow> (string, string) dict \<Rightarrow> (string, string) dict option
    \<Rightarrow> (auth_error, refresh_result) result" where
  "refresh_user user_name auth_state handler =
     (case handler of
        None \<Rightarrow> Inr Auth_valid
      | Some hs \<Rightarrow>
          if \<not> nonempty (map_of hs ''x-auth-request-token'') then Inr Auth_valid
          else if \<not> nonempty (map_of hs ''x-auth-request-user'') \<or> map_of hs ''x-auth-request-user'' \<noteq> Some user_name
          then Inl Http_401
          else if map_of hs ''x-auth-request-token'' = map_of auth_state ''token'' then Inr Auth_valid
          else build_auth_info hs)"

definition get_logout_url :: "string option \<Rightarrow> string" where
  "get_logout_url discovered = (case discovered of None \<Rightarrow> ''/logout'' | Some u \<Rightarrow> u)"

section \<open>What listeners see\<close>

theorem invalid_progress_kept:
  assumes "sse_json e = Some [(''progress'', V_int n), (''message'', m)]" and "100 < n" and "sse_event e = ''info''"
  shows "\<exists>ev. from_sse e p = Inr ev \<and> se_progress ev = n"
  using assms by (simp add: from_sse_def sse_fields_def int_of_value_def Let_def)

lemma from_sse_message:
  assumes "from_sse e p = Inr ev" and "sse_json e = Some [(''message'', m)]" and "sse_event e = ''info''"
  shows "ev = \<lparr>se_progress = p, se_message = m, se_severity = ''info'', se_complete = False, se_failed = False\<rparr>"
  using assms by (simp add: from_sse_def sse_fields_def Let_def)

text \<open>A coroutine that, whatever the state and the answers are, sets no trigger.\<close>

primrec silent :: "'a hub_proc \<Rightarrow> bool" where
  "silent (Ret a) = True"
| "silent (Raise e) = True"
| "silent (Get k) = (\<forall>s. silent (k s))"
| "silent (Upd f p) = ((\<forall>s. sp_set (f s) = sp_set s) \<and> silent p)"
| "silent (Await w k) = (\<forall>r. silent (k r))"

lemma silent_bind: "silent p \<Longrightarrow> (\<And>a. silent (f a)) \<Longrightarrow> silent (bind p f)"
  by (induction p) auto

lemma silent_catch: "silent p \<Longrightarrow> (\<And>e. silent (h e)) \<Longrightarrow> silent (catch p h)"
  by (induction p) auto

lemma silent_seq: "silent p \<Longrightarrow> silent q \<Longrightarrow> silent (seq p q)"
  by (simp add: seq_def silent_bind)

lemma silent_basic: "silent (Ret a)" "silent (Raise e)" "silent (await w)" "silent (append_event ev)" "silent (or_hub_error r)"
  by (auto simp: await_def append_event_def act_def or_hub_error_def split: sum.split)

lemma silent_answer:
  "silent p \<Longrightarrow> (\<And>x. silent (f x)) \<Longrightarrow> (\<And>x. silent (g x)) \<Longrightarrow> (\<And>x. silent (h x)) \<Longrightarrow> (\<And>x. silent (j x)) \<Longrightarrow>
   (\<And>x. silent (k x)) \<Longrightarrow>
   silent (case a of A_none \<Rightarrow> p | A_response x \<Rightarrow> f x | A_url x \<Rightarrow> g x | A_state x \<Rightarrow> h x | A_text x \<Rightarrow> j x | A_event x \<Rightarrow> k x)"
  by (cases a) simp_all

lemma silent_option: "silent p \<Longrightarrow> (\<And>x. silent (f x)) \<Longrightarrow> silent (case v of None \<Rightarrow> p | Some x \<Rightarrow> f x)"
  by (cases v) simp_all

lemma silent_if: "silent p \<Longrightarrow> silent q \<Longrightarrow> silent (if b then p else q)"
  by simp

lemmas silent_intros = silent_basic silent_bind silent_seq silent_answer silent_option silent_if

lemma silent_requests:
  "silent (controller_url cs)" "silent (admin_authorization cfg)" "silent user_authorization" "silent (hub_http q)"
  "silent (hub_raise_for_status r)" "silent (hub_json r)"
  unfolding controller_url_def admin_authorization_def user_authorization_def hub_http_def hub_raise_for_status_def hub_json_def
  by (intro silent_intros)+

lemma silent_follow_events: "silent (follow_events n p)"
  by (induction n arbitrary: p) (simp_all add: silent_intros)

text \<open>C26: From its first step to its end a spawn never sets a trigger of a progress
  listener: listeners are not told of new events.\<close>

theorem events_wake_nobody: "silent (spawn_body cfg)"
proof -
  have convert: "silent (convert_exception p)" if "silent p" for p :: "'b hub_proc"
    unfolding convert_exception_def by (rule silent_catch [OF that]) (simp split: hub_exn.split)
  have "silent (hub_stop cfg)" "silent (create_lab_request cfg)" "silent (get_progress_events cfg)" "silent (get_internal_url cfg)"
    unfolding hub_stop_def create_lab_request_def get_progress_events_def get_internal_url_def
    by (intro convert silent_intros silent_requests silent_follow_events)+
  then show ?thesis
    unfolding spawn_body_def by (intro silent_intros silent_requests)
qed

text \<open>
  How the world goes on while \<open>progress\<close> is suspended: the log of the call is its own, the list of
  events of the spawn grows until its task is done, and no wait for a trigger times out.
\<close>

definition spawn_goes_on :: "nat \<Rightarrow> nat \<Rightarrow> (spawner, hub_wait, hub_answer, hub_exn) env \<Rightarrow> bool" where
  "spawn_goes_on f l api \<longleftrightarrow> (\<forall>w s s' r. api w s = (s', r) \<longrightarrow>
     sp_log s' = sp_log s \<and> prefix (sp_lists s l) (sp_lists s' l) \<and>
     (sp_done s f \<longrightarrow> sp_done s' f \<and> sp_lists s' l = sp_lists s l) \<and>
     (\<forall>i t. w = Wait_trigger i t \<longrightarrow> r \<noteq> Inl Hub_timeout))"

definition moved :: "nat \<Rightarrow> nat \<Rightarrow> spawner \<Rightarrow> spawner \<Rightarrow> bool" where
  "moved f l s s' \<longleftrightarrow> prefix (sp_lists s l) (sp_lists s' l) \<and> (sp_done s f \<longrightarrow> sp_done s' f \<and> sp_lists s' l = sp_lists s l)"

lemma moved_trans: "moved f l s s1 \<Longrightarrow> moved f l s1 s2 \<Longrightarrow> moved f l s s2"
  by (auto simp: moved_def)

lemma goes_onD:
  "spawn_goes_on f l api \<Longrightarrow> api w s = (s', r) \<Longrightarrow> sp_log s' = sp_log s \<and> moved f l s s'"
  by (auto simp: spawn_goes_on_def moved_def)

lemma yields_run:
  assumes "spawn_goes_on f l api"
  shows "run (for_each evs (yield_event i)) api s = (s', Inr ()) \<Longrightarrow> sp_log s' i = sp_log s i @ evs \<and> moved f l s s'"
proof (induction evs arbitrary: s)
  case Nil
  then show ?case by (simp add: moved_def)
next
  case (Cons ev evs)
  let ?s = "s\<lparr>sp_log := (sp_log s)(i := sp_log s i @ [ev])\<rparr>"
  obtain s1 r where y: "api Yield ?s = (s1, r)" by fastforce
  have step: "run (yield_event i ev) api s = (s1, case r of Inl e \<Rightarrow> Inl e | Inr _ \<Rightarrow> Inr ())"
    using y by (auto simp: yield_event_def run_simps split: sum.split)
  from Cons.prems have rest: "run (for_each evs (yield_event i)) api s1 = (s', Inr ())"
    by (auto simp: run_simps step split: sum.splits)
  have "moved f l s ?s" by (simp add: moved_def)
  with goes_onD [OF assms y] Cons.IH [OF rest] show ?case by (auto intro: moved_trans)
qed

lemma progress_loop_run:
  assumes "spawn_goes_on f l api"
  shows "run (progress_loop n t i f l k) api s = (s', Inr ()) \<Longrightarrow> k \<le> length (sp_lists s l) \<Longrightarrow>
    sp_log s i = seen @ take k (sp_lists s l) \<Longrightarrow> sp_log s' i = seen @ sp_lists s' l \<and> sp_done s' f"
proof (induction n arbitrary: k s)
  case (Suc n)
  let ?s = "s\<lparr>sp_set := (sp_set s)(i := False)\<rparr>"
  let ?evs = "sp_lists s l"
  obtain s1 where y: "run (for_each (drop k ?evs) (yield_event i)) api ?s = (s1, Inr ())"
    and rest: "run (if sp_done s f then Ret () else try_else (await (Wait_trigger i t))
            (\<lambda>e. if e = Hub_timeout then Ret () else Raise e) (\<lambda>_. progress_loop n t i f l (length ?evs))) api s1 = (s', Inr ())"
    using Suc.prems(1) by (auto simp: run_simps split: prod.splits sum.splits)
  from yields_run [OF assms y] Suc.prems(2,3) have log: "sp_log s1 i = seen @ ?evs" and moved: "moved f l s s1"
    by (simp_all add: moved_def)
  show ?case
  proof (cases "sp_done s f")
    case True
    with rest moved log show ?thesis by (auto simp: moved_def)
  next
    case False
    obtain s2 r where w: "api (Wait_trigger i t) s1 = (s2, r)" by fastforce
    have "r \<noteq> Inl Hub_timeout" using assms w unfolding spawn_goes_on_def by blast
    with rest False w have loop: "run (progress_loop n t i f l (length ?evs)) api s2 = (s', Inr ())"
      by (auto simp: run_simps split: sum.splits if_splits)
    from moved_trans [OF moved] goes_onD [OF assms w] have "moved f l s s2" "sp_log s2 i = seen @ ?evs"
      using log by auto
    then show ?thesis by (intro Suc.IH [OF loop]) (auto simp: moved_def prefix_def)
  qed
qed simp

text \<open>C25: A progress listener that ends has yielded every event of its spawn, each once and
  in order, and the spawn is done, as long as its waits do not time out, however events arrive
  meanwhile.\<close>

theorem progress_yields_all:
  assumes "sp_future s = Some f" and "spawn_goes_on f (sp_events s) api" and "sp_log s (sp_next_trigger s) = []"
    and "run (hub_progress cfg) api s = (s', Inr ())"
  shows "sp_log s' (sp_next_trigger s) = sp_lists s' (sp_events s) \<and> sp_done s' f"
proof -
  let ?i = "sp_next_trigger s"
  let ?s = "s\<lparr>sp_triggers := sp_triggers s @ [?i], sp_next_trigger := ?i + 1, sp_set := (sp_set s)(?i := False)\<rparr>"
  have "run (progress_loop (sc_bound cfg) (sc_start_timeout cfg) ?i f (sp_events s) 0) api ?s = (s', Inr ())"
    using assms(1,4) by (simp add: hub_progress_def run_simps)
  from progress_loop_run [OF assms(2) this, of "[]"] assms(3) show ?thesis by simp
qed

section \<open>Refreshing a user\<close>

theorem refresh_user_sound:
  "refresh_user u st handler =
     (if handler = None \<or> \<not> nonempty (map_of (the handler) ''x-auth-request-token'') then Inr Auth_valid
      else if u = [] \<or> map_of (the handler) ''x-auth-request-user'' \<noteq> Some u then Inl Http_401
      else if map_of (the handler) ''x-auth-request-token'' = map_of st ''token'' then Inr Auth_valid
      else Inr (Auth_info u [(''token'', the (map_of (the handler) ''x-auth-request-token''))]))"
  by (auto simp: refresh_user_def build_auth_info_def nonempty_def split: option.splits)

section \<open>Examples\<close>

theorem invalid_progress_kept_witness:
  "\<exists>ev. from_sse \<lparr>sse_event = ''info'', sse_data = [], sse_json = Some [(''progress'', V_int 150), (''message'', V_text ''x'')]\<rparr> 0 = Inr ev \<and>
     se_progress ev = 150"
  by (rule invalid_progress_kept [where m = "V_text ''x''"]) simp_all

definition example_event :: spawn_event where
  "example_event = \<lparr>se_progress = 10, se_message = V_text ''x'', se_severity = ''info'', se_complete = False, se_failed = False\<rparr>"

definition example_spawner :: spawner where
  "example_spawner = \<lparr>sp_lists = (\<lambda>l. []), sp_events = 0, sp_next_list = 1, sp_set = (\<lambda>i. False), sp_triggers = [],
     sp_next_trigger = 0, sp_future = Some 0, sp_next_future = 1, sp_done = (\<lambda>f. False), sp_log = (\<lambda>i. [])\<rparr>"

definition example_hub :: spawner_config where
  "example_hub = \<lparr>sc_user = ''rachel'', sc_start_timeout = 60, sc_token_path = ''/token'', sc_options = [], sc_env = [],
     sc_stored_url = ''http://lab'', sc_bound = 3\<rparr>"

text \<open>A spawn that reports one event and is done when the listener is woken.\<close>

definition example_spawn :: "(spawner, hub_wait, hub_answer, hub_exn) env" where
  "example_spawn w s =
     (if sp_done s 0 then (s, Inr A_none)
      else case w of
        Wait_trigger i t \<Rightarrow> (s\<lparr>sp_lists := (sp_lists s)(0 := sp_lists s 0 @ [example_event]), sp_done := (sp_done s)(0 := True)\<rparr>, Inr A_none)
      | _ \<Rightarrow> (s, Inr A_none))"

theorem progress_yields_all_witness:
  "\<exists>s'. run (hub_progress example_hub) example_spawn example_spawner = (s', Inr ()) \<and> sp_log s' 0 = [example_event] \<and> sp_done s' 0"
proof -
  have goes: "spawn_goes_on 0 (sp_events example_spawner) example_spawn"
    by (auto simp: spawn_goes_on_def example_spawn_def example_spawner_def split: if_splits hub_wait.splits)
  have three: "progress_loop 3 t i f l k = progress_loop (Suc (Suc (Suc 0))) t i f l k" for t i f l k by (simp add: numeral_3_eq_3)
  obtain s' where r: "run (hub_progress example_hub) example_spawn example_spawner = (s', Inr ())" "sp_lists s' 0 = [example_event]"
    by (simp add: hub_progress_def example_hub_def three example_spawn_def example_spawner_def run_simps yield_event_def)
  from progress_yields_all [OF _ goes _ r(1)] r show ?thesis by (auto simp: example_spawner_def)
qed

end
