(* ===== verification/Py_Url.thy ===== *)
theory Py_Url
  imports Prelude
begin

text \<open>
  The part of Python's \<open>urllib.parse\<close> that the client uses: splitting a URL into its parts, putting it
  together again, the host name, and joining a base with a reference. A URL with unbalanced brackets
  raises \<open>ValueError\<close>, which is \<open>None\<close> here; hosts in brackets are not checked further.
\<close>

section \<open>Splitting\<close>

text \<open>\<open>str.partition\<close> and \<open>str.rpartition\<close> at a character, without the separator, if it occurs.\<close>

definition partition_at :: "char \<Rightarrow> string \<Rightarrow> (string \<times> string) option" where
  "partition_at c s =
     (if c \<in> set s then Some (takeWhile (\<lambda>x. x \<noteq> c) s, tl (dropWhile (\<lambda>x. x \<noteq> c) s)) else None)"

definition before :: "char \<Rightarrow> string \<Rightarrow> string" where
  "before c s = takeWhile (\<lambda>x. x \<noteq> c) s"

definition after :: "char \<Rightarrow> string \<Rightarrow> string" where
  "after c s = tl (dropWhile (\<lambda>x. x \<noteq> c) s)"

definition after_last :: "char \<Rightarrow> string \<Rightarrow> string" where
  "after_last c s = rev (takeWhile (\<lambda>x. x \<noteq> c) (rev s))"

record url_parts =
  u_scheme :: string
  u_netloc :: string
  u_path :: string
  u_params :: string
  u_query :: string
  u_fragment :: string

definition is_alpha :: "char \<Rightarrow> bool" where
  "is_alpha c \<longleftrightarrow> is_lower c \<or> is_upper c"

definition scheme_char :: "char \<Rightarrow> bool" where
  "scheme_char c \<longleftrightarrow> is_alpha c \<or> is_digit c \<or> c \<in> set ''+-.''"

definition clean_url :: "string \<Rightarrow> string" where
  "clean_url s = filter (\<lambda>c. c \<notin> {CHR 0x09, CHR 0x0A, CHR 0x0D}) (dropWhile (\<lambda>c. c \<le> CHR '' '') s)"

definition split_scheme :: "string \<Rightarrow> string \<Rightarrow> string \<times> string" where
  "split_scheme scheme s =
     (case partition_at (CHR '':'') s of
        Some (p, r) \<Rightarrow>
          if p \<noteq> [] \<and> is_alpha (hd p) \<and> list_all scheme_char p then (map to_lower p, r) else (scheme, s)
      | None \<Rightarrow> (scheme, s))"

definition split_netloc :: "string \<Rightarrow> string \<times> string" where
  "split_netloc s =
     (if prefix ''//'' s
      then (takeWhile (\<lambda>c. c \<notin> set ''/?#'') (drop 2 s), dropWhile (\<lambda>c. c \<notin> set ''/?#'') (drop 2 s))
      else ([], s))"

definition uses_params :: "string list" where
  "uses_params = ['''', ''ftp'', ''hdl'', ''prospero'', ''http'', ''imap'', ''https'', ''shttp'', ''rtsp'', ''rtsps'',
     ''rtspu'', ''sip'', ''sips'', ''mms'', ''sftp'', ''tel'']"

definition uses_netloc :: "string list" where
  "uses_netloc = ['''', ''ftp'', ''http'', ''gopher'', ''nntp'', ''telnet'', ''imap'', ''wais'', ''file'', ''mms'', ''https'',
     ''shttp'', ''snews'', ''prospero'', ''rtsp'', ''rtsps'', ''rtspu'', ''rsync'', ''svn'', ''svn+ssh'', ''sftp'', ''nfs'',
     ''git'', ''git+ssh'', ''ws'', ''wss'']"

definition uses_relative :: "string list" where
  "uses_relative = ['''', ''ftp'', ''http'', ''gopher'', ''nntp'', ''imap'', ''wais'', ''file'', ''https'', ''shttp'', ''mms'',
     ''prospero'', ''rtsp'', ''rtsps'', ''rtspu'', ''sftp'', ''svn'', ''svn+ssh'', ''ws'', ''wss'']"

text \<open>The parameters of the last segment of a path.\<close>

definition split_params :: "string \<Rightarrow> string \<times> string" where
  "split_params s =
     (let name = after_last (CHR ''/'') s; dir = take (length s - length name) s
      in case partition_at (CHR '';'') name of Some (p, q) \<Rightarrow> (dir @ p, q) | None \<Rightarrow> (s, []))"

definition urlparse :: "string \<Rightarrow> string \<Rightarrow> url_parts option" where
  "urlparse s scheme =
     (let (scheme, s) = split_scheme scheme (clean_url s); (netloc, s) = split_netloc s;
          fragment = after (CHR ''#'') s; s = before (CHR ''#'') s;
          query = after (CHR ''?'') s; s = before (CHR ''?'') s;
          (path, params) = (if scheme \<in> set uses_params then split_params s else (s, []))
      in if (CHR ''['' \<in> set netloc) \<noteq> (CHR '']'' \<in> set netloc) then None
         else Some \<lparr>u_scheme = scheme, u_netloc = netloc, u_path = path, u_params = params,
                u_query = query, u_fragment = fragment\<rparr>)"

definition geturl :: "url_parts \<Rightarrow> string" where
  "geturl u =
     (let s = u_path u @ (if u_params u = [] then [] else CHR '';'' # u_params u);
          s = (if u_netloc u \<noteq> [] then ''//'' @ u_netloc u @ (if s \<noteq> [] \<and> hd s \<noteq> CHR ''/'' then CHR ''/'' # s else s)
               else if prefix ''//'' s then ''//'' @ s
               else if u_scheme u \<noteq> [] \<and> u_scheme u \<in> set uses_netloc \<and> (s = [] \<or> hd s = CHR ''/'') then ''//'' @ s
               else s)
      in (if u_scheme u = [] then [] else u_scheme u @ '':'') @ s
           @ (if u_query u = [] then [] else CHR ''?'' # u_query u)
           @ (if u_fragment u = [] then [] else CHR ''#'' # u_fragment u))"

text \<open>The host name, in lower case but for a zone of an address.\<close>

definition url_hostname :: "url_parts \<Rightarrow> string option" where
  "url_hostname u =
     (let h = after_last (CHR ''@'') (u_netloc u);
          name = (case partition_at (CHR ''['') h of
              Some (_, b) \<Rightarrow> before (CHR '']'') b | None \<Rightarrow> before (CHR '':'') h)
      in if name = [] then None
         else Some (map to_lower (before (CHR ''%'') name) @ dropWhile (\<lambda>c. c \<noteq> CHR ''%'') name))"

section \<open>Joining\<close>

fun resolve_segments :: "string list \<Rightarrow> string list \<Rightarrow> string list" where
  "resolve_segments done' [] = done'"
| "resolve_segments done' (s # ss) =
     (if s = ''..'' then resolve_segments (butlast done') ss
      else if s = ''.'' then resolve_segments done' ss
      else resolve_segments (done' @ [s]) ss)"

definition inner_nonempty :: "string list \<Rightarrow> string list" where
  "inner_nonempty ss = (if length ss < 2 then ss else [hd ss] @ filter (\<lambda>s. s \<noteq> []) (butlast (tl ss)) @ [last ss])"

definition join_paths :: "string \<Rightarrow> string \<Rightarrow> string" where
  "join_paths base_path path =
     (let parts = split_on (CHR ''/'') base_path;
          parts = (if last parts \<noteq> [] then butlast parts else parts);
          segments = (if prefix ''/'' path then split_on (CHR ''/'') path
                      else inner_nonempty (parts @ split_on (CHR ''/'') path));
          resolved = resolve_segments [] segments;
          resolved = (if last segments \<in> {''.'', ''..''} then resolved @ [[]] else resolved);
          p = str_join ''/'' resolved
      in if p = [] then ''/'' else p)"

definition urljoin :: "string \<Rightarrow> string \<Rightarrow> string option" where
  "urljoin base_url s =
     (if base_url = [] then Some s
      else if s = [] then Some base_url
      else case urlparse base_url [] of
        None \<Rightarrow> None
      | Some b \<Rightarrow>
          (case urlparse s (u_scheme b) of
             None \<Rightarrow> None
           | Some u \<Rightarrow>
               Some (if u_scheme u \<noteq> u_scheme b \<or> u_scheme u \<notin> set uses_relative then s
                 else if u_scheme u \<in> set uses_netloc \<and> u_netloc u \<noteq> [] then geturl u
                 else
                   (let u = (if u_scheme u \<in> set uses_netloc then u\<lparr>u_netloc := u_netloc b\<rparr> else u)
                    in geturl
                         (if u_path u = [] \<and> u_params u = []
                          then u\<lparr>u_path := u_path b, u_params := u_params b,
                                 u_query := (if u_query u = [] then u_query b else u_query u)\<rparr>
                          else u\<lparr>u_path := join_paths (u_path b) (u_path u)\<rparr>)))))"

text \<open>Some joins, as the library computes them.\<close>

lemma urljoin_examples:
  "urljoin ''https://nb.example.org/nb/hub/home'' ''/nb/hub/login?next=a'' = Some ''https://nb.example.org/nb/hub/login?next=a''"
  "urljoin ''https://nb.example.org/nb/hub/home'' ''../user/x/lab'' = Some ''https://nb.example.org/nb/user/x/lab''"
  "urljoin ''https://nb.example.org/nb/hub/home?a#b'' ''https://x.nb.example.org'' = Some ''https://x.nb.example.org''"
  "urljoin ''https://nb.example.org/nb/hub/home'' ''//x.org/a;b/c;d?e#f'' = Some ''https://x.org/a;b/c;d?e#f''"
  by code_simp+

end
