(* ===== verification/Client_Errors.thy ===== *)
theory Client_Errors
  imports Py_Url Py_Regex Py_Datetime
begin

text \<open>
  The exceptions of the client library, \<open>src/client/src/rubin/nublado/client/_exceptions.py\<close>, with
  what they show as text, in Slack and in Sentry. What the base classes of the Safir library do is a
  parameter: the texts of times, and the event that they make for Sentry. So is \<open>re.sub\<close> with a pattern
  that comes from a response.
\<close>

section \<open>Cleaning texts\<close>

definition ansi_regex :: regex where
  "ansi_regex = Seq (Alt (Seq (Cls (Lit (CHR 0x1B))) (Cls (Ranges [(CHR ''@'', CHR ''_'')])))
                         (Cls (Ranges [(CHR 0x80, CHR 0x9F)])))
     (Seq (star (Ranges [(CHR ''0'', CHR ''?'')]))
     (Seq (star (Ranges [(CHR '' '', CHR ''/'')]))
          (Cls (Ranges [(CHR ''@'', CHR 0x7E)]))))"

definition white_space :: cclass where
  "white_space = Ranges [(CHR 0x09, CHR 0x0D), (CHR 0x1C, CHR 0x20), (CHR 0x85, CHR 0x85), (CHR 0xA0, CHR 0xA0)]"

definition token_regex :: regex where
  "token_regex = lit_ignore_case ''xsrf_token:'' (Seq (star white_space) (Seq (Cls (Lit (CHR 0x22)))
     (Seq (Group ''1'' (star Dot)) (Cls (Lit (CHR 0x22))))))"

definition oauth_state_regex :: regex where
  "oauth_state_regex = lit_ignore_case ''response_type%3Dcode%26state%3D'' (Group ''1'' (star Dot))"

definition remove_ansi_escapes :: "string \<Rightarrow> string" where
  "remove_ansi_escapes s = re_remove ansi_regex s"

text \<open>What the exceptions take from the libraries.\<close>

record sentry_info =
  si_tags :: "(string, string) dict"
  si_contexts :: "(string, (string, string) dict) dict"
  si_attachments :: "(string, string) dict"

definition sanitize :: "(string \<Rightarrow> string \<Rightarrow> string \<Rightarrow> string) \<Rightarrow> regex \<Rightarrow> string \<Rightarrow> string" where
  "sanitize sub r s =
     (if s = [] then []
      else case re_search r s of
          None \<Rightarrow> s
        | Some g \<Rightarrow> (case map_of g ''1'' of None \<Rightarrow> s | Some t \<Rightarrow> sub t ''<redacted>'' s))"

definition or_empty :: "string option \<Rightarrow> string" where
  "or_empty s = (case s of None \<Rightarrow> [] | Some t \<Rightarrow> t)"

definition sanitize_body :: "(string \<Rightarrow> string \<Rightarrow> string \<Rightarrow> string) \<Rightarrow> string option \<Rightarrow> string" where
  "sanitize_body sub body = sanitize sub token_regex (or_empty body)"

definition sanitize_url :: "(string \<Rightarrow> string \<Rightarrow> string \<Rightarrow> string) \<Rightarrow> string option \<Rightarrow> string" where
  "sanitize_url sub url = sanitize sub oauth_state_regex (or_empty url)"

section \<open>Exceptions\<close>

record code_context =
  cx_node :: "string option"
  cx_image :: "string option"
  cx_notebook :: "string option"
  cx_cell :: "string option"
  cx_cell_number :: "string option"

definition no_context :: code_context where
  "no_context = \<lparr>cx_node = None, cx_image = None, cx_notebook = None, cx_cell = None, cx_cell_number = None\<rparr>"

text \<open>The classes, each with the fields that it adds.\<close>

datatype error_kind =
    Discovery_failed
  | Execution_failed "string option" "string option" "string option"
  | Execution_timed_out "string option"
  | Protocol_failed
  | Redirect_failed string
  | Lab_spawn_failed "string list"
  | Timed_out
  | Web_failed "string option" "string option" "nat option" "string option"
  | Websocket_failed "nat option" string

record nublado_error =
  ne_message :: string
  ne_user :: "string option"
  ne_context :: code_context
  ne_failed_at :: datetime
  ne_started_at :: "datetime option"
  ne_kind :: error_kind

definition new_error :: "datetime \<Rightarrow> string \<Rightarrow> string option \<Rightarrow> datetime option \<Rightarrow> error_kind \<Rightarrow> nublado_error" where
  "new_error now msg user started k =
     \<lparr>ne_message = msg, ne_user = user, ne_context = no_context, ne_failed_at = now, ne_started_at = started,
      ne_kind = k\<rparr>"

definition class_name :: "error_kind \<Rightarrow> string" where
  "class_name k = (case k of Discovery_failed \<Rightarrow> ''NubladoDiscoveryError'' | Execution_failed _ _ _ \<Rightarrow> ''NubladoExecutionError''
     | Execution_timed_out _ \<Rightarrow> ''NubladoExecutionTimeoutError'' | Protocol_failed \<Rightarrow> ''NubladoProtocolError''
     | Redirect_failed _ \<Rightarrow> ''NubladoRedirectError'' | Lab_spawn_failed _ \<Rightarrow> ''NubladoSpawnError''
     | Timed_out \<Rightarrow> ''NubladoTimeoutError'' | Web_failed _ _ _ _ \<Rightarrow> ''NubladoWebError''
     | Websocket_failed _ _ \<Rightarrow> ''NubladoWebSocketError'')"

text \<open>
  The parameters: the text of a time, of a duration with two decimals, \<open>re.sub\<close>, and the event for
  Sentry that the base class makes.
\<close>

record error_format =
  ef_time :: "datetime \<Rightarrow> string"
  ef_seconds :: "timedelta \<Rightarrow> string"
  ef_sub :: "string \<Rightarrow> string \<Rightarrow> string \<Rightarrow> string"
  ef_sentry :: "nublado_error \<Rightarrow> sentry_info"
  ef_web_sentry :: "nublado_error \<Rightarrow> sentry_info"

definition execution_error :: "datetime \<Rightarrow> string \<Rightarrow> string option \<Rightarrow> string option \<Rightarrow> nublado_error" where
  "execution_error now user err status = new_error now ''Code execution failed'' (Some user) None (Execution_failed None err status)"

definition execution_timeout_error ::
  "error_format \<Rightarrow> datetime \<Rightarrow> string \<Rightarrow> string option \<Rightarrow> code_context option \<Rightarrow> datetime option \<Rightarrow> nublado_error" where
  "execution_timeout_error ef now user code cx started =
     (new_error now
        (case started of None \<Rightarrow> ''Code execution timed out''
          | Some t \<Rightarrow> ''Code execution timed out after '' @ ef_seconds ef (now - t) @ ''s'')
        (Some user) started (Execution_timed_out code))
      \<lparr>ne_context := (case cx of None \<Rightarrow> no_context | Some c \<Rightarrow> c)\<rparr>"

definition redirect_error :: "error_format \<Rightarrow> datetime \<Rightarrow> string \<Rightarrow> string \<Rightarrow> nublado_error" where
  "redirect_error ef now msg url =
     new_error now (msg @ '': '' @ sanitize_url (ef_sub ef) (Some url)) None None
       (Redirect_failed (sanitize_url (ef_sub ef) (Some url)))"

text \<open>A failure of the HTTP client, with what the base class reads from it.\<close>

record http_failure =
  hf_message :: string
  hf_method :: "string option"
  hf_url :: "string option"
  hf_status :: "nat option"
  hf_body :: "string option"

definition clean_option :: "(string option \<Rightarrow> string) \<Rightarrow> string option \<Rightarrow> string option" where
  "clean_option f s = (case s of None \<Rightarrow> None | Some t \<Rightarrow> if t = [] then None else Some (f (Some t)))"

definition web_error :: "error_format \<Rightarrow> datetime \<Rightarrow> http_failure \<Rightarrow> string \<Rightarrow> nublado_error" where
  "web_error ef now f user =
     new_error now (hf_message f) (Some user) None
       (Web_failed (hf_method f) (clean_option (sanitize_url (ef_sub ef)) (hf_url f)) (hf_status f)
          (clean_option (sanitize_body (ef_sub ef)) (hf_body f)))"

text \<open>An exception of the WebSocket library, with the response if the status was invalid.\<close>

record websocket_failure =
  wf_class :: string
  wf_text :: string
  wf_invalid_status :: "(nat \<times> string option) option"

definition websocket_error :: "error_format \<Rightarrow> datetime \<Rightarrow> websocket_failure \<Rightarrow> string \<Rightarrow> nublado_error" where
  "websocket_error ef now f user =
     (let err = (if wf_text f = [] then wf_class f else wf_class f @ '': '' @ wf_text f)
      in case wf_invalid_status f of
           Some (code, body) \<Rightarrow>
             new_error now (''JupyterLab WebSocket unexpectedly closed: '' @ err) (Some user) None
               (Websocket_failed (Some code) (sanitize_body (ef_sub ef) body))
         | None \<Rightarrow>
             new_error now (''Error talking to lab WebSocket: '' @ err) (Some user) None
               (Websocket_failed None (sanitize_body (ef_sub ef) None)))"

text \<open>An optional text counts as absent when it is empty.\<close>

definition present :: "string option \<Rightarrow> string option" where
  "present s = (case s of None \<Rightarrow> None | Some t \<Rightarrow> if t = [] then None else Some t)"

section \<open>As text\<close>

definition user_text :: "nublado_error \<Rightarrow> string" where
  "user_text e = (case ne_user e of None \<Rightarrow> ''None'' | Some u \<Rightarrow> u)"

definition execution_text :: "nublado_error \<Rightarrow> string option \<Rightarrow> string option \<Rightarrow> string option \<Rightarrow> string" where
  "execution_text e code err status =
     (let u = user_text e;
          m = (case present (cx_notebook (ne_context e)) of
              Some nb \<Rightarrow>
                (case present (cx_cell (ne_context e)) of
                   Some cell \<Rightarrow> u @ '': cell '' @ cell @ '' of notebook '' @ nb @ '' failed''
                 | None \<Rightarrow> u @ '': cell of notebook '' @ nb @ '' failed'')
                @ (case present status of Some st \<Rightarrow> if st = ''error'' then [] else '' (status: '' @ st @ '')'' | None \<Rightarrow> [])
                @ (case present code of Some c \<Rightarrow> CHR 0x0A # ''Code: '' @ c | None \<Rightarrow> [])
            | None \<Rightarrow>
                (case present code of
                   Some c \<Rightarrow> u @ '': running code '' @ [CHR 0x27] @ c @ [CHR 0x27] @ '' failed''
                 | None \<Rightarrow> u @ '': running code failed''))
      in m @ (case present err of Some x \<Rightarrow> CHR 0x0A # ''Error: '' @ remove_ansi_escapes x | None \<Rightarrow> []))"

definition timeout_text :: "nublado_error \<Rightarrow> string" where
  "timeout_text e =
     user_text e @ '': '' @
     (case present (cx_notebook (ne_context e)) of
        Some nb \<Rightarrow>
          (case present (cx_cell (ne_context e)) of
             Some cell \<Rightarrow> ''cell '' @ cell @ '' of notebook '' @ nb @ '' timed out''
           | None \<Rightarrow> ''cell of notebook '' @ nb @ '' timed out'')
      | None \<Rightarrow> ''running code timed out'')"

definition error_text :: "nublado_error \<Rightarrow> string" where
  "error_text e = (case ne_kind e of
       Execution_failed code err status \<Rightarrow> execution_text e code err status
     | Execution_timed_out _ \<Rightarrow> timeout_text e
     | _ \<Rightarrow> ne_message e)"

section \<open>In Slack\<close>

datatype slack_block = Text_block string string | Code_block string string

record slack_message =
  sl_message :: string
  sl_blocks :: "slack_block list"
  sl_fields :: "(string \<times> string) list"
  sl_attachments :: "slack_block list"

text \<open>The number of a cell without a notebook is put in by a string that is not a format string.\<close>

definition slack_blocks :: "code_context \<Rightarrow> slack_block list" where
  "slack_blocks cx =
     (case present (cx_node cx) of Some n \<Rightarrow> [Text_block ''Node'' n] | None \<Rightarrow> []) @
     (case present (cx_notebook cx) of
        Some nb \<Rightarrow>
          (case present (cx_cell cx) of
             Some cell \<Rightarrow>
               [Text_block ''Cell'' (''`'' @ nb @ ''` cell `'' @ cell @ ''`'' @
                  (case present (cx_cell_number cx) of Some n \<Rightarrow> '' ('' @ n @ '')'' | None \<Rightarrow> []))]
           | None \<Rightarrow> [Text_block ''Notebook'' nb])
      | None \<Rightarrow>
          (case present (cx_cell cx) of
             Some cell \<Rightarrow>
               [Text_block ''Cell'' (cell @
                  (case present (cx_cell_number cx) of Some n \<Rightarrow> '' ({self.context.cell_number})'' | None \<Rightarrow> []))]
           | None \<Rightarrow> []))"

definition slack_fields :: "error_format \<Rightarrow> nublado_error \<Rightarrow> (string \<times> string) list" where
  "slack_fields ef e =
     (case ne_started_at e of Some t \<Rightarrow> [(''Started at'', ef_time ef t)] | None \<Rightarrow> []) @
     [(''Failed at'', ef_time ef (ne_failed_at e)), (''Exception type'', class_name (ne_kind e))] @
     (case present (ne_user e) of Some u \<Rightarrow> [(''User'', u)] | None \<Rightarrow> []) @
     (case present (cx_image (ne_context e)) of Some i \<Rightarrow> [(''Image'', i)] | None \<Rightarrow> [])"

definition base_to_slack :: "error_format \<Rightarrow> nublado_error \<Rightarrow> slack_message" where
  "base_to_slack ef e =
     \<lparr>sl_message = ne_message e, sl_blocks = slack_blocks (ne_context e), sl_fields = slack_fields ef e,
      sl_attachments = []\<rparr>"

definition code_attachment :: "string \<Rightarrow> string option \<Rightarrow> slack_block list" where
  "code_attachment heading s = (case present s of Some c \<Rightarrow> [Code_block heading c] | None \<Rightarrow> [])"

definition intro_text :: "string \<Rightarrow> code_context \<Rightarrow> string" where
  "intro_text what cx =
     (case present (cx_notebook cx) of
        Some nb \<Rightarrow> what @ '' while running `'' @ nb @ ''`'' @
          (case present (cx_cell cx) of Some c \<Rightarrow> '' cell `'' @ c @ ''`'' | None \<Rightarrow> [])
      | None \<Rightarrow> what @ '' while running code'')"

definition execution_to_slack ::
  "error_format \<Rightarrow> nublado_error \<Rightarrow> string option \<Rightarrow> string option \<Rightarrow> string option \<Rightarrow> slack_message" where
  "execution_to_slack ef e code err status =
     (base_to_slack ef e)
       \<lparr>sl_message := intro_text ''Error'' (ne_context e) @
          (case present status of Some st \<Rightarrow> if st = ''error'' then [] else '' (status: '' @ st @ '')'' | None \<Rightarrow> []),
        sl_attachments := code_attachment ''Error'' (map_option remove_ansi_escapes (present err)) @
          code_attachment ''Code executed'' code\<rparr>"

definition timeout_to_slack :: "error_format \<Rightarrow> nublado_error \<Rightarrow> string option \<Rightarrow> slack_message" where
  "timeout_to_slack ef e code =
     (base_to_slack ef e)
       \<lparr>sl_message := intro_text ''Timeout'' (ne_context e) @
          (case ne_started_at e of
             Some t \<Rightarrow> '' after '' @ ef_seconds ef (ne_failed_at e - t) @ ''s'' | None \<Rightarrow> []),
        sl_attachments := code_attachment ''Code executed'' code\<rparr>"

definition redirect_to_slack :: "error_format \<Rightarrow> nublado_error \<Rightarrow> string \<Rightarrow> slack_message" where
  "redirect_to_slack ef e url =
     (let m = base_to_slack ef e in m\<lparr>sl_blocks := sl_blocks m @ [Text_block ''URL'' (''GET '' @ url)]\<rparr>)"

definition spawn_log :: "string list \<Rightarrow> string" where
  "spawn_log log = str_join [CHR 0x0A] (map remove_ansi_escapes log)"

definition spawn_to_slack :: "error_format \<Rightarrow> nublado_error \<Rightarrow> string list \<Rightarrow> slack_message" where
  "spawn_to_slack ef e log = (base_to_slack ef e)\<lparr>sl_attachments := [Code_block ''Spawn log'' (spawn_log log)]\<rparr>"

definition web_to_slack ::
  "error_format \<Rightarrow> nublado_error \<Rightarrow> string option \<Rightarrow> string option \<Rightarrow> string option \<Rightarrow> slack_message" where
  "web_to_slack ef e meth url body =
     (let m = base_to_slack ef e
      in m\<lparr>sl_message := sanitize_url (ef_sub ef) (Some (ne_message e)),
           sl_blocks := sl_blocks m @ (case present url of
               Some u \<Rightarrow> [Text_block ''URL'' (case present meth of Some x \<Rightarrow> x @ '' '' @ u | None \<Rightarrow> u)] | None \<Rightarrow> []),
           sl_attachments := code_attachment ''Response'' body\<rparr>)"

definition websocket_to_slack :: "error_format \<Rightarrow> nublado_error \<Rightarrow> nat option \<Rightarrow> string \<Rightarrow> slack_message" where
  "websocket_to_slack ef e code body =
     (let m = base_to_slack ef e
      in m\<lparr>sl_fields := sl_fields m @ (case code of
               Some c \<Rightarrow> if c = 0 then [] else [(''Code'', dec c)] | None \<Rightarrow> []),
           sl_attachments := (if body = [] then [] else [Text_block ''Body'' body])\<rparr>)"

definition to_slack :: "error_format \<Rightarrow> nublado_error \<Rightarrow> slack_message" where
  "to_slack ef e = (case ne_kind e of
       Execution_failed code err status \<Rightarrow> execution_to_slack ef e code err status
     | Execution_timed_out code \<Rightarrow> timeout_to_slack ef e code
     | Redirect_failed url \<Rightarrow> redirect_to_slack ef e url
     | Lab_spawn_failed log \<Rightarrow> spawn_to_slack ef e log
     | Web_failed meth url _ body \<Rightarrow> web_to_slack ef e meth url body
     | Websocket_failed code body \<Rightarrow> websocket_to_slack ef e code body
     | _ \<Rightarrow> base_to_slack ef e)"

section \<open>In Sentry\<close>

definition set_tag :: "string \<Rightarrow> string option \<Rightarrow> sentry_info \<Rightarrow> sentry_info" where
  "set_tag k v i = (case present v of Some x \<Rightarrow> i\<lparr>si_tags := dset k x (si_tags i)\<rparr> | None \<Rightarrow> i)"

definition add_context :: "string \<Rightarrow> string \<Rightarrow> string \<Rightarrow> sentry_info \<Rightarrow> sentry_info" where
  "add_context c k v i =
     i\<lparr>si_contexts := dset c (dset k v (case map_of (si_contexts i) c of None \<Rightarrow> [] | Some d \<Rightarrow> d)) (si_contexts i)\<rparr>"

definition attach :: "string \<Rightarrow> string \<Rightarrow> sentry_info \<Rightarrow> sentry_info" where
  "attach k v i = i\<lparr>si_attachments := dset k v (si_attachments i)\<rparr>"

definition with_present :: "string option \<Rightarrow> (string \<Rightarrow> sentry_info \<Rightarrow> sentry_info) \<Rightarrow> sentry_info \<Rightarrow> sentry_info" where
  "with_present v f i = (case present v of Some x \<Rightarrow> f x i | None \<Rightarrow> i)"

definition base_to_sentry :: "error_format \<Rightarrow> nublado_error \<Rightarrow> sentry_info" where
  "base_to_sentry ef e =
     (let cx = ne_context e;
          i = set_tag ''notebook'' (cx_notebook cx) (set_tag ''node'' (cx_node cx) (set_tag ''image'' (cx_image cx) (ef_sentry ef e)));
          i = with_present (cx_cell cx) (\<lambda>c i.
                with_present (cx_cell_number cx) (add_context ''cell_info'' ''cell_number'') (add_context ''cell_info'' ''cell_id'' c i)) i
      in case ne_started_at e of
           Some t \<Rightarrow> add_context ''info'' ''failed_at'' (ef_time ef (ne_failed_at e)) (add_context ''info'' ''started_at'' (ef_time ef t) i)
         | None \<Rightarrow> i)"

definition dict_merge :: "(string, 'v) dict \<Rightarrow> (string, 'v) dict \<Rightarrow> (string, 'v) dict" where
  "dict_merge d u = foldl (\<lambda>d (k, v). dset k v d) d u"

definition execution_to_sentry ::
  "error_format \<Rightarrow> nublado_error \<Rightarrow> string option \<Rightarrow> string option \<Rightarrow> string option \<Rightarrow> sentry_info" where
  "execution_to_sentry ef e code err status =
     with_present code (add_context ''cell_info'' ''code'')
       (with_present err (\<lambda>x. attach ''nublado_error.txt'' (remove_ansi_escapes x))
         (set_tag ''status'' status (base_to_sentry ef e)))"

definition timeout_to_sentry :: "error_format \<Rightarrow> nublado_error \<Rightarrow> string option \<Rightarrow> sentry_info" where
  "timeout_to_sentry ef e code = with_present code (add_context ''cell_info'' ''code'') (base_to_sentry ef e)"

definition redirect_to_sentry :: "error_format \<Rightarrow> nublado_error \<Rightarrow> string \<Rightarrow> sentry_info" where
  "redirect_to_sentry ef e url =
     (let i = base_to_sentry ef e
      in i\<lparr>si_tags := dset ''httpx_request_url'' url (dset ''httpx_request_method'' ''GET'' (si_tags i))\<rparr>)"

definition spawn_to_sentry :: "error_format \<Rightarrow> nublado_error \<Rightarrow> string list \<Rightarrow> sentry_info" where
  "spawn_to_sentry ef e log = attach ''spawn_log.txt'' (spawn_log log) (base_to_sentry ef e)"

definition web_to_sentry :: "error_format \<Rightarrow> nublado_error \<Rightarrow> sentry_info" where
  "web_to_sentry ef e =
     (let i = base_to_sentry ef e; w = ef_web_sentry ef e
      in i\<lparr>si_tags := dict_merge (si_tags i) (si_tags w), si_contexts := dict_merge (si_contexts i) (si_contexts w),
           si_attachments := dict_merge (si_attachments i) (si_attachments w)\<rparr>)"

definition websocket_to_sentry :: "error_format \<Rightarrow> nublado_error \<Rightarrow> nat option \<Rightarrow> string \<Rightarrow> sentry_info" where
  "websocket_to_sentry ef e code body =
     (let i = base_to_sentry ef e
      in with_present (Some body) (attach ''body.txt'')
           (case code of Some c \<Rightarrow> if c = 0 then i else i\<lparr>si_tags := dset ''code'' (dec c) (si_tags i)\<rparr> | None \<Rightarrow> i))"

definition to_sentry :: "error_format \<Rightarrow> nublado_error \<Rightarrow> sentry_info" where
  "to_sentry ef e = (case ne_kind e of
       Execution_failed code err status \<Rightarrow> execution_to_sentry ef e code err status
     | Execution_timed_out code \<Rightarrow> timeout_to_sentry ef e code
     | Redirect_failed url \<Rightarrow> redirect_to_sentry ef e url
     | Lab_spawn_failed log \<Rightarrow> spawn_to_sentry ef e log
     | Web_failed _ _ _ _ \<Rightarrow> web_to_sentry ef e
     | Websocket_failed code body \<Rightarrow> websocket_to_sentry ef e code body
     | _ \<Rightarrow> base_to_sentry ef e)"

end
