(* ===== verification/Client_Http.thy ===== *)
theory Client_Http
  imports Async Client_Errors "HOL-Library.Word"
begin

text \<open>
  The HTTP client of the client library, \<open>src/client/src/rubin/nublado/client/_http.py\<close>: the URLs and
  headers of requests to JupyterHub and JupyterLab, redirects, and the tokens against request forgery.
  Of a response the model keeps what the code reads from it. The bound on redirects is fuel. Logging is
  left out.
\<close>

section \<open>Requests and state\<close>

text \<open>A JSON value as \<open>json.loads\<close> gives it; of a floating-point number, its text.\<close>

datatype json = J_null | J_bool bool | J_int int | J_float string | J_text string | J_list "json list"
  | J_dict "(string \<times> json) list"

datatype request_body = No_body | Raw_body string | Form_body "(string, string) dict" | Json_body json

text \<open>The time limits of a request: those of the client, none, or these, the second for reading.\<close>

datatype request_timeout = Default_timeout | No_timeout | Timeouts timedelta timedelta

record client_request =
  rq_method :: string
  rq_url :: string
  rq_headers :: "(string, string) dict"
  rq_body :: request_body
  rq_params :: "(string, string) dict"
  rq_timeout :: request_timeout

text \<open>A response, with the cookie \<open>_xsrf\<close> that it sets, if any.\<close>

record client_response =
  rs_status :: nat
  rs_url :: string
  rs_location :: "string option"
  rs_xsrf :: "string option"
  rs_json :: "json option"
  rs_failure :: http_failure

datatype client_exn =
    Httpx http_failure
  | Nublado nublado_error
  | Repertoire
  | Websocket_lib websocket_failure
  | Py_key
  | Py_type
  | Py_value
  | Py_timeout
  | Py_cancelled
  | Client_fuel

text \<open>
  What the client waits for. A number names the HTTP client, which has its own cookies. \<open>W_cookies\<close> are
  those that it would send to a URL; \<open>W_within\<close> is a wait that ends at a time with \<open>TimeoutError\<close>.
\<close>

datatype client_wait =
    W_request nat client_request
  | W_discover
  | W_cookies nat string
  | W_close nat
  | W_new_id
  | W_sse_open nat string "(string, string) dict"
  | W_sse_next
  | W_sse_close
  | W_socket_open string "(string, string) dict" timedelta "nat option"
  | W_socket_send "8 word list"
  | W_socket_next
  | W_socket_close
  | W_within datetime client_wait

datatype socket_message = Text_message string | Binary_message "8 word list"

text \<open>An event of a stream, with its data as JSON, if it is that.\<close>

datatype client_answer =
    C_none
  | C_text "string option"
  | C_response client_response
  | C_event "json option option"
  | C_message "socket_message option"

record jupyter_client =
  jc_lab_base_url :: "string option"
  jc_hub_xsrf :: "string option"
  jc_lab_xsrf :: "string option"

record session_manager =
  sm_session_id :: json
  sm_session :: bool

text \<open>
  The state: the clock, the HTTP clients, the one in use, and the managers of lab sessions. \<open>cw_sent\<close> are
  the requests that were sent; no code reads it.
\<close>

record client_world =
  cw_clock :: datetime
  cw_clients :: "nat \<Rightarrow> jupyter_client"
  cw_current :: nat
  cw_next :: nat
  cw_managers :: "nat \<Rightarrow> session_manager"
  cw_sent :: "client_request list"

record client_config =
  cc_user :: string
  cc_token :: string
  cc_format :: error_format
  cc_redirects :: nat
  cc_timeout :: timedelta

type_synonym 'a client_proc = "(client_world, client_wait, client_answer, client_exn, 'a) proc"

definition new_client :: jupyter_client where
  "new_client = \<lparr>jc_lab_base_url = None, jc_hub_xsrf = None, jc_lab_xsrf = None\<rparr>"

definition upd_client :: "nat \<Rightarrow> (jupyter_client \<Rightarrow> jupyter_client) \<Rightarrow> client_world \<Rightarrow> client_world" where
  "upd_client c f s = s\<lparr>cw_clients := (cw_clients s)(c := f (cw_clients s c))\<rparr>"

definition sent :: "client_request \<Rightarrow> client_world \<Rightarrow> client_world" where
  "sent q s = s\<lparr>cw_sent := cw_sent s @ [q]\<rparr>"

section \<open>Sending requests\<close>

definition client_http :: "nat \<Rightarrow> client_request \<Rightarrow> client_response client_proc" where
  "client_http c q =
     seq (act (sent q))
    (bind (await (W_request c q)) (\<lambda>a. case a of C_response r \<Rightarrow> Ret r | _ \<Rightarrow> Raise Py_type))"

definition get_request :: "string \<Rightarrow> (string, string) dict \<Rightarrow> client_request" where
  "get_request url h = \<lparr>rq_method = ''GET'', rq_url = url, rq_headers = h, rq_body = No_body, rq_params = [], rq_timeout = Default_timeout\<rparr>"

definition is_redirect :: "client_response \<Rightarrow> bool" where
  "is_redirect r \<longleftrightarrow> 300 \<le> rs_status r \<and> rs_status r < 400"

definition client_raise_for_status :: "client_response \<Rightarrow> unit client_proc" where
  "client_raise_for_status r =
     (if 200 \<le> rs_status r \<and> rs_status r < 300 then Ret () else Raise (Httpx (rs_failure r)))"

definition or_raise_client :: "client_exn \<Rightarrow> 'x option \<Rightarrow> 'x client_proc" where
  "or_raise_client e x = (case x of None \<Rightarrow> Raise e | Some y \<Rightarrow> Ret y)"

definition raise_new :: "(datetime \<Rightarrow> nublado_error) \<Rightarrow> 'a client_proc" where
  "raise_new f = bind (reading cw_clock) (\<lambda>now. Raise (Nublado (f now)))"

definition convert_http :: "client_config \<Rightarrow> 'a client_proc \<Rightarrow> 'a client_proc" where
  "convert_http cfg p =
     bind (reading cw_clock) (\<lambda>start.
       catch p (\<lambda>e. case e of
           Httpx f \<Rightarrow> raise_new (\<lambda>now. (web_error (cc_format cfg) now f (cc_user cfg))\<lparr>ne_started_at := Some start\<rparr>)
         | _ \<Rightarrow> Raise e))"

definition rstrip_slash :: "string \<Rightarrow> string" where
  "rstrip_slash s = rev (dropWhile (\<lambda>c. c = CHR ''/'') (rev s))"

definition hub_base_url :: "string client_proc" where
  "hub_base_url =
     bind (await W_discover) (\<lambda>a. case a of
         C_text (Some u) \<Rightarrow>
           if u = [] then raise_new (\<lambda>now. new_error now ''nublado service not found in service discovery'' None None Discovery_failed)
           else Ret (rstrip_slash u)
       | C_text None \<Rightarrow> raise_new (\<lambda>now. new_error now ''nublado service not found in service discovery'' None None Discovery_failed)
       | _ \<Rightarrow> Raise Py_type)"

section \<open>Redirects and tokens\<close>

definition lab_base_of :: "nat \<Rightarrow> string option \<Rightarrow> client_world \<Rightarrow> string option" where
  "lab_base_of c b s = (case present b of Some u \<Rightarrow> Some u | None \<Rightarrow> present (jc_lab_base_url (cw_clients s c)))"

definition check_redirect :: "client_config \<Rightarrow> nat \<Rightarrow> string \<Rightarrow> string option \<Rightarrow> unit client_proc" where
  "check_redirect cfg c url lab_base =
     bind hub_base_url (\<lambda>hub.
     if prefix hub url then Ret ()
     else bind (reading (lab_base_of c lab_base)) (\<lambda>b.
       if (case b of None \<Rightarrow> False | Some u \<Rightarrow> prefix u url) then Ret ()
       else raise_new (\<lambda>now. redirect_error (cc_format cfg) now ''Unexpected redirect'' url)))"

definition store_xsrf :: "client_response \<Rightarrow> nat \<Rightarrow> string option \<Rightarrow> client_world \<Rightarrow> client_world" where
  "store_xsrf r c lab_base s =
     (let is_lab = (case lab_base_of c lab_base s of None \<Rightarrow> False | Some u \<Rightarrow> prefix (u @ ''/user'') (rs_url r))
      in case present (rs_xsrf r) of
           None \<Rightarrow> s
         | Some x \<Rightarrow> upd_client c (\<lambda>j. if is_lab then j\<lparr>jc_lab_xsrf := Some x\<rparr> else j\<lparr>jc_hub_xsrf := Some x\<rparr>) s)"

definition extract_xsrf :: "client_response \<Rightarrow> nat \<Rightarrow> string option \<Rightarrow> unit client_proc" where
  "extract_xsrf r c lab_base = act (store_xsrf r c lab_base)"

text \<open>
  The URLs that were seen, as a counter. It is made from a URL, which counts the characters of that
  URL, not the URL.
\<close>

definition seen_at_first :: "string \<Rightarrow> string list" where
  "seen_at_first url = map (\<lambda>ch. [ch]) url"

definition seen_check :: "client_config \<Rightarrow> string \<Rightarrow> string list \<Rightarrow> unit client_proc" where
  "seen_check cfg url seen =
     (if 1 < count_list seen url then raise_new (\<lambda>now. redirect_error (cc_format cfg) now ''Redirect loop'' url)
      else Ret ())"

fun follow_redirects ::
  "nat \<Rightarrow> client_config \<Rightarrow> nat \<Rightarrow> (string, string) dict \<Rightarrow> string \<Rightarrow> string list \<Rightarrow> client_response \<Rightarrow> client_response client_proc" where
  "follow_redirects 0 cfg c h url seen r = Raise Client_fuel"
| "follow_redirects (Suc n) cfg c h url seen r =
     (if is_redirect r then
        seq (extract_xsrf r c None)
       (bind (or_raise_client Py_key (rs_location r)) (\<lambda>loc.
        bind (or_raise_client Py_value (urljoin url loc)) (\<lambda>url'.
        seq (check_redirect cfg c url' None)
       (seq (seen_check cfg url' seen)
       (bind (client_http c (get_request url' h)) (follow_redirects n cfg c h url' (url' # seen)))))))
      else
        seq (client_raise_for_status r) (seq (extract_xsrf r c None) (Ret r)))"

definition get_url_following :: "client_config \<Rightarrow> nat \<Rightarrow> string \<Rightarrow> (string, string) dict \<Rightarrow> client_response client_proc" where
  "get_url_following cfg c url h =
     bind (client_http c (get_request url h)) (follow_redirects (cc_redirects cfg) cfg c h url (seen_at_first url))"

text \<open>A redirect to a host name that starts with the user name changes the base URL of the lab.\<close>

definition rebase :: "client_config \<Rightarrow> string \<Rightarrow> string \<Rightarrow> string option" where
  "rebase cfg base_url loc =
     (case urlparse loc [] of
        None \<Rightarrow> None
      | Some new \<Rightarrow>
          if (case url_hostname new of None \<Rightarrow> False | Some h \<Rightarrow> prefix (cc_user cfg @ ''.'') h)
          then (case urlparse base_url [] of
              None \<Rightarrow> None
            | Some current \<Rightarrow>
                Some (if u_netloc current \<noteq> u_netloc new then geturl (current\<lparr>u_netloc := u_netloc new\<rparr>) else base_url))
          else Some base_url)"

fun lab_redirects ::
  "nat \<Rightarrow> client_config \<Rightarrow> nat \<Rightarrow> (string, string) dict \<Rightarrow> string \<Rightarrow> string \<Rightarrow> string list \<Rightarrow> client_response \<Rightarrow> string client_proc" where
  "lab_redirects 0 cfg c h base_url url seen r = Raise Client_fuel"
| "lab_redirects (Suc n) cfg c h base_url url seen r =
     (if is_redirect r then
        bind (or_raise_client Py_key (rs_location r)) (\<lambda>loc.
        bind (or_raise_client Py_value (rebase cfg base_url loc)) (\<lambda>base_url'.
        bind (or_raise_client Py_value (urljoin url loc)) (\<lambda>url'.
        seq (check_redirect cfg c url' (Some base_url'))
       (seq (seen_check cfg url' seen)
       (seq (extract_xsrf r c (Some base_url'))
       (bind (client_http c (get_request url' h)) (lab_redirects n cfg c h base_url' url' (url' # seen))))))))
      else
        seq (client_raise_for_status r) (seq (extract_xsrf r c None) (Ret base_url)))"

text \<open>
  The headers of a request. Only routes to JupyterHub are asked for a \<open>Referer\<close>, whose own URL is that
  of a route to JupyterHub.
\<close>

definition headers_with :: "client_config \<Rightarrow> nat \<Rightarrow> string \<Rightarrow> string \<Rightarrow> client_world \<Rightarrow> (string, string) dict" where
  "headers_with cfg c route mode s =
     [(''Authorization'', ''Bearer '' @ cc_token cfg), (''Sec-Fetch-Mode'', mode)] @
     (case present (if prefix ''user/'' route then jc_lab_xsrf (cw_clients s c) else jc_hub_xsrf (cw_clients s c)) of
        Some x \<Rightarrow> [(''X-XSRFToken'', x)] | None \<Rightarrow> [])"

definition headers_for_route :: "client_config \<Rightarrow> nat \<Rightarrow> string \<Rightarrow> bool \<Rightarrow> string \<Rightarrow> (string, string) dict client_proc" where
  "headers_for_route cfg c route add_referer mode =
     bind (reading (headers_with cfg c route mode)) (\<lambda>h.
     if add_referer then bind hub_base_url (\<lambda>hub. Ret (h @ [(''Referer'', hub @ ''/hub/home'')])) else Ret h)"

definition find_lab_base_url :: "client_config \<Rightarrow> nat \<Rightarrow> string client_proc" where
  "find_lab_base_url cfg c =
     bind hub_base_url (\<lambda>hub.
     let route = ''user/'' @ cc_user cfg @ ''/lab''; url = hub @ ''/'' @ route
     in bind (headers_for_route cfg c route False ''navigate'') (\<lambda>h.
        bind (client_http c (get_request url h)) (lab_redirects (cc_redirects cfg) cfg c h hub url (seen_at_first url))))"

definition url_for_route :: "client_config \<Rightarrow> nat \<Rightarrow> string \<Rightarrow> string client_proc" where
  "url_for_route cfg c route =
     (if prefix ''user/'' route then
        bind (reading (\<lambda>s. present (jc_lab_base_url (cw_clients s c)))) (\<lambda>b.
        case b of
          Some u \<Rightarrow> Ret (u @ ''/'' @ route)
        | None \<Rightarrow>
            bind (find_lab_base_url cfg c) (\<lambda>u.
            seq (act (upd_client c (\<lambda>j. j\<lparr>jc_lab_base_url := Some u\<rparr>)))
                (Ret (u @ ''/'' @ route))))
      else bind hub_base_url (\<lambda>hub. Ret (hub @ ''/'' @ route)))"

section \<open>The methods\<close>

definition jc_delete :: "client_config \<Rightarrow> nat \<Rightarrow> string \<Rightarrow> bool \<Rightarrow> client_response client_proc" where
  "jc_delete cfg c route add_referer = convert_http cfg
     (bind (url_for_route cfg c route) (\<lambda>url.
      bind (headers_for_route cfg c route add_referer ''same-origin'') (\<lambda>h.
      bind (client_http c ((get_request url h)\<lparr>rq_method := ''DELETE''\<rparr>)) (\<lambda>r.
      seq (client_raise_for_status r) (Ret r)))))"

text \<open>\<open>get\<close> does not use its parameter \<open>add_referer\<close>.\<close>

definition jc_get :: "client_config \<Rightarrow> nat \<Rightarrow> string \<Rightarrow> bool \<Rightarrow> string \<Rightarrow> client_response client_proc" where
  "jc_get cfg c route add_referer mode = convert_http cfg
     (bind (url_for_route cfg c route) (\<lambda>url.
      bind (headers_for_route cfg c route False mode) (\<lambda>h.
      get_url_following cfg c url h)))"

definition jc_open_sse_stream :: "client_config \<Rightarrow> nat \<Rightarrow> string \<Rightarrow> (string \<times> (string, string) dict) client_proc" where
  "jc_open_sse_stream cfg c route = convert_http cfg
     (bind (url_for_route cfg c route) (\<lambda>url.
      bind (headers_for_route cfg c route True ''same-origin'') (\<lambda>h. Ret (url, h))))"

definition url_for_websocket :: "string \<Rightarrow> string option" where
  "url_for_websocket url = map_option (\<lambda>u. geturl (u\<lparr>u_scheme := ''wss''\<rparr>)) (urlparse url [])"

definition jc_open_websocket :: "client_config \<Rightarrow> nat \<Rightarrow> string \<Rightarrow> (string \<times> (string, string) dict) client_proc" where
  "jc_open_websocket cfg c route = convert_http cfg
     (bind (url_for_route cfg c route) (\<lambda>url.
      bind (headers_for_route cfg c route False ''same-origin'') (\<lambda>h.
      bind (await (W_cookies c url)) (\<lambda>a. case a of
          C_text (Some k) \<Rightarrow>
            bind (or_raise_client Py_value (url_for_websocket url)) (\<lambda>u. Ret (u, h @ [(''Cookie'', k)]))
        | _ \<Rightarrow> Raise Py_key))))"

text \<open>\<open>post\<close> without a timeout passes \<open>None\<close> on, which is no time limit at all.\<close>

definition jc_post ::
  "client_config \<Rightarrow> nat \<Rightarrow> string \<Rightarrow> request_body \<Rightarrow> (string, string) dict \<Rightarrow> request_timeout \<Rightarrow>
   (string, string) dict \<Rightarrow> client_response client_proc" where
  "jc_post cfg c route body params timeout extra = convert_http cfg
     (bind (url_for_route cfg c route) (\<lambda>url.
      bind (headers_for_route cfg c route False ''same-origin'') (\<lambda>h.
      let h = foldl (\<lambda>h (k, v). dset k v h) h extra
      in bind (client_http c \<lparr>rq_method = ''POST'', rq_url = url, rq_headers = h, rq_body = body, rq_params = params,
             rq_timeout = timeout\<rparr>) (\<lambda>r.
         if is_redirect r then
           bind (or_raise_client Py_key (rs_location r)) (\<lambda>loc.
           bind (or_raise_client Py_value (urljoin url loc)) (\<lambda>url'.
           seq (check_redirect cfg c url' None) (get_url_following cfg c url' h)))
         else seq (client_raise_for_status r) (Ret r)))))"

end
