(* ===== verification/Client_Socket.thy ===== *)
theory Client_Socket
  imports Client_Http "HOL-Library.Word"
begin

text \<open>
  Messages on the WebSocket to a kernel, \<open>src/client/src/rubin/nublado/client/_websocket.py\<close>: a table of
  offsets in eight bytes each, then the channel and four JSON values. Texts of a channel are lists of
  code points. The printer and the parser of JSON are parameters.
\<close>

section \<open>Bytes\<close>

type_synonym byte = "8 word"

definition from_bytes :: "byte list \<Rightarrow> nat" where
  "from_bytes bs = foldr (\<lambda>b n. unat b + 256 * n) bs 0"

fun le_bytes :: "nat \<Rightarrow> nat \<Rightarrow> byte list" where
  "le_bytes 0 n = []"
| "le_bytes (Suc k) n = word_of_nat n # le_bytes k (n div 256)"

text \<open>\<open>n.to_bytes(8, byteorder="little")\<close>, which raises \<open>OverflowError\<close> when eight bytes do not hold it.\<close>

definition to_bytes :: "nat \<Rightarrow> byte list option" where
  "to_bytes n = (if n < 2 ^ 64 then Some (le_bytes 8 n) else None)"

definition byte_slice :: "'a list \<Rightarrow> nat \<Rightarrow> nat \<Rightarrow> 'a list" where
  "byte_slice xs a b = drop a (take b xs)"

section \<open>UTF-8\<close>

definition surrogate :: "nat \<Rightarrow> bool" where
  "surrogate p \<longleftrightarrow> 0xD800 \<le> p \<and> p \<le> 0xDFFF"

definition utf8_point :: "nat \<Rightarrow> nat list option" where
  "utf8_point p =
     (if p < 0x80 then Some [p]
      else if p < 0x800 then Some [0xC0 + p div 64, 0x80 + p mod 64]
      else if surrogate p then None
      else if p < 0x10000 then Some [0xE0 + p div 4096, 0x80 + p div 64 mod 64, 0x80 + p mod 64]
      else if p < 0x110000
      then Some [0xF0 + p div 262144, 0x80 + p div 4096 mod 64, 0x80 + p div 64 mod 64, 0x80 + p mod 64]
      else None)"

fun utf8_encode :: "nat list \<Rightarrow> byte list option" where
  "utf8_encode [] = Some []"
| "utf8_encode (p # ps) =
     (case (utf8_point p, utf8_encode ps) of
        (Some b, Some bs) \<Rightarrow> Some (map word_of_nat b @ bs) | _ \<Rightarrow> None)"

definition continuation :: "nat \<Rightarrow> bool" where
  "continuation b \<longleftrightarrow> 0x80 \<le> b \<and> b < 0xC0"

definition cons_point :: "nat \<Rightarrow> nat list option \<Rightarrow> nat list option" where
  "cons_point p ps = map_option ((#) p) ps"

text \<open>Longer forms than needed, surrogates and points out of range are errors.\<close>

fun utf8_points :: "nat list \<Rightarrow> nat list option" where
  "utf8_points [] = Some []"
| "utf8_points (a # bs) =
     (if a < 0x80 then cons_point a (utf8_points bs)
      else (case bs of
        [] \<Rightarrow> None
      | b # cs \<Rightarrow>
          if 0xC2 \<le> a \<and> a < 0xE0 then
            (if continuation b then cons_point ((a - 0xC0) * 64 + (b - 0x80)) (utf8_points cs) else None)
          else (case cs of
            [] \<Rightarrow> None
          | c # ds \<Rightarrow>
              if 0xE0 \<le> a \<and> a < 0xF0 then
                (let p = (a - 0xE0) * 4096 + (b - 0x80) * 64 + (c - 0x80)
                 in if continuation b \<and> continuation c \<and> 0x800 \<le> p \<and> \<not> surrogate p
                    then cons_point p (utf8_points ds) else None)
              else (case ds of
                [] \<Rightarrow> None
              | d # es \<Rightarrow>
                  let p = (a - 0xF0) * 262144 + (b - 0x80) * 4096 + (c - 0x80) * 64 + (d - 0x80)
                  in if 0xF0 \<le> a \<and> a < 0xF5 \<and> continuation b \<and> continuation c \<and> continuation d
                        \<and> 0x10000 \<le> p \<and> p < 0x110000
                     then cons_point p (utf8_points es) else None))))"

definition utf8_decode :: "byte list \<Rightarrow> nat list option" where
  "utf8_decode bs = utf8_points (map unat bs)"

section \<open>Messages\<close>

record json_codec =
  js_dumps :: "json \<Rightarrow> byte list"
  js_loads :: "byte list \<Rightarrow> json option"

text \<open>A message to send; a part that is missing is sent as an empty object.\<close>

record outgoing =
  og_channel :: "nat list"
  og_header :: "json option"
  og_parent_header :: "json option"
  og_metadata :: "json option"
  og_content :: "json option"

record incoming =
  ic_channel :: "nat list"
  ic_header :: json
  ic_parent_header :: json
  ic_metadata :: json
  ic_content :: json

definition part_or_empty :: "json option \<Rightarrow> json" where
  "part_or_empty p = (case p of None \<Rightarrow> J_dict [] | Some j \<Rightarrow> j)"

definition message_parts :: "outgoing \<Rightarrow> json list" where
  "message_parts m = map part_or_empty [og_header m, og_parent_header m, og_metadata m, og_content m]"

text \<open>Where each of the texts begins, and the end.\<close>

fun offsets_from :: "nat \<Rightarrow> byte list list \<Rightarrow> nat list" where
  "offsets_from n [] = [n]"
| "offsets_from n (t # ts) = n # offsets_from (n + length t) ts"

fun all_bytes :: "nat list \<Rightarrow> byte list option" where
  "all_bytes [] = Some []"
| "all_bytes (n # ns) =
     (case (to_bytes n, all_bytes ns) of (Some b, Some bs) \<Rightarrow> Some (b @ bs) | _ \<Rightarrow> None)"

definition encode_websocket_message :: "json_codec \<Rightarrow> outgoing \<Rightarrow> byte list option" where
  "encode_websocket_message js m =
     (case utf8_encode (og_channel m) of
        None \<Rightarrow> None
      | Some channel \<Rightarrow>
          let texts = map (js_dumps js) (message_parts m);
              offsets = offsets_from (8 * (1 + 1 + length texts + 1)) (channel # texts)
          in case all_bytes (length offsets # offsets) of
               None \<Rightarrow> None
             | Some table \<Rightarrow> Some (table @ channel @ concat texts))"

definition or_value_error :: "'x option \<Rightarrow> (client_exn, 'x) result" where
  "or_value_error x = (case x of None \<Rightarrow> Inl Py_value | Some y \<Rightarrow> Inr y)"

text \<open>An offset that is not in the table raises \<open>IndexError\<close>, which counts as \<open>KeyError\<close> here.\<close>

definition part_between :: "byte list \<Rightarrow> nat list \<Rightarrow> nat \<Rightarrow> (client_exn, byte list) result" where
  "part_between bs off i =
     (if i + 1 < length off then Inr (byte_slice bs (off ! i) (off ! (i + 1))) else Inl Py_key)"

definition json_between :: "json_codec \<Rightarrow> byte list \<Rightarrow> nat list \<Rightarrow> nat \<Rightarrow> (client_exn, json) result" where
  "json_between js bs off i = rbind (part_between bs off i) (\<lambda>t. or_value_error (js_loads js t))"

definition decode_parts :: "json_codec \<Rightarrow> byte list \<Rightarrow> nat list \<Rightarrow> (client_exn, incoming) result" where
  "decode_parts js bs off =
     rbind (part_between bs off 0) (\<lambda>t.
     rbind (or_value_error (utf8_decode t)) (\<lambda>channel.
     rbind (json_between js bs off 1) (\<lambda>header.
     rbind (json_between js bs off 2) (\<lambda>parent.
     rbind (json_between js bs off 3) (\<lambda>metadata.
     rbind (json_between js bs off 4) (\<lambda>content.
       Inr \<lparr>ic_channel = channel, ic_header = header, ic_parent_header = parent, ic_metadata = metadata,
            ic_content = content\<rparr>))))))"

definition decode_websocket_message :: "json_codec \<Rightarrow> socket_message \<Rightarrow> (client_exn, incoming) result" where
  "decode_websocket_message js m =
     (case m of
        Text_message _ \<Rightarrow> Inl Py_type
      | Binary_message bs \<Rightarrow>
          decode_parts js bs
            (map (\<lambda>i. from_bytes (byte_slice bs (8 * (i + 1)) (8 * (i + 2)))) [0..<from_bytes (byte_slice bs 0 8)]))"

section \<open>A message is read as it was sent\<close>

lemma from_bytes_Cons: "from_bytes (b # bs) = unat b + 256 * from_bytes bs"
  by (simp add: from_bytes_def)

lemma length_le_bytes [simp]: "length (le_bytes k n) = k"
  by (induction k n rule: le_bytes.induct) auto

lemma from_le_bytes: "n < 256 ^ k \<Longrightarrow> from_bytes (le_bytes k n) = n"
proof (induction k n rule: le_bytes.induct)
  case (1 n)
  then show ?case by (simp add: from_bytes_def)
next
  case (2 k n)
  have "n div 256 < 256 ^ k" using "2.prems" by (simp add: div_less_iff_less_mult mult.commute)
  then show ?case using "2.IH" by (simp add: from_bytes_Cons unat_of_nat take_bit_eq_mod)
qed

lemma to_bytes_SomeD: "to_bytes n = Some b \<Longrightarrow> length b = 8 \<and> from_bytes b = n"
  using from_le_bytes [of n 8] length_le_bytes [of 8 n] by (simp add: to_bytes_def del: length_le_bytes split: if_splits)

lemma all_bytes_slice:
  "all_bytes ns = Some bs \<Longrightarrow> i < length ns \<Longrightarrow> from_bytes (byte_slice (bs @ r) (8 * i) (8 * (i + 1))) = ns ! i"
proof (induction ns arbitrary: bs i)
  case Nil
  then show ?case by simp
next
  case (Cons n ns)
  then obtain b bs' where b: "to_bytes n = Some b" "all_bytes ns = Some bs'" "bs = b @ bs'"
    by (auto split: option.splits)
  note l = to_bytes_SomeD [OF b(1)]
  show ?case
  proof (cases i)
    case 0
    then show ?thesis using b l by (simp add: byte_slice_def)
  next
    case (Suc j)
    then show ?thesis using Cons.IH [OF b(2), of j] Cons.prems(2) b(3) l by (simp add: byte_slice_def)
  qed
qed

lemma all_bytes_length: "all_bytes ns = Some bs \<Longrightarrow> length bs = 8 * length ns"
  by (induction ns arbitrary: bs) (auto dest: to_bytes_SomeD split: option.splits)

lemma all_bytes_total: "list_all (\<lambda>n. n < 2 ^ 64) ns \<Longrightarrow> \<exists>bs. all_bytes ns = Some bs"
  by (induction ns) (auto simp: to_bytes_def)

text \<open>A text between its offsets.\<close>

lemma length_offsets_from [simp]: "length (offsets_from n ts) = length ts + 1"
  by (induction n ts rule: offsets_from.induct) auto

lemma offsets_from_0 [simp]: "offsets_from n ts ! 0 = n"
  by (cases ts) auto

lemma offsets_slice:
  "i < length ts \<Longrightarrow> n = length p \<Longrightarrow>
   byte_slice (p @ concat ts) (offsets_from n ts ! i) (offsets_from n ts ! (i + 1)) = ts ! i"
proof (induction ts arbitrary: i n p)
  case Nil
  then show ?case by simp
next
  case (Cons t ts)
  show ?case
  proof (cases i)
    case 0
    then show ?thesis using Cons.prems by (simp add: byte_slice_def)
  next
    case (Suc j)
    then show ?thesis using Cons.IH [of j "n + length t" "p @ t"] Cons.prems by simp
  qed
qed

lemma offsets_bound: "x \<in> set (offsets_from n ts) \<Longrightarrow> x \<le> n + length (concat ts)"
  by (induction n ts rule: offsets_from.induct) auto

text \<open>UTF-8, point by point.\<close>

lemma utf8_point_bytes: "utf8_point p = Some b \<Longrightarrow> list_all (\<lambda>x. x < 256) b"
  by (auto simp: utf8_point_def split: if_splits)

lemma utf8_points_2:
  "2 \<le> x \<Longrightarrow> x < 32 \<Longrightarrow> y < 64 \<Longrightarrow> utf8_points ((0xC0 + x) # (0x80 + y) # bs) = cons_point (x * 64 + y) (utf8_points bs)"
  by (simp add: continuation_def)

lemma utf8_points_3:
  "x < 16 \<Longrightarrow> y < 64 \<Longrightarrow> z < 64 \<Longrightarrow> p = x * 4096 + y * 64 + z \<Longrightarrow> 0x800 \<le> p \<Longrightarrow> \<not> surrogate p \<Longrightarrow>
   utf8_points ((0xE0 + x) # (0x80 + y) # (0x80 + z) # bs) = cons_point p (utf8_points bs)"
  by (simp add: continuation_def Let_def)

lemma utf8_points_4:
  "x < 5 \<Longrightarrow> y < 64 \<Longrightarrow> z < 64 \<Longrightarrow> w < 64 \<Longrightarrow> p = x * 262144 + y * 4096 + z * 64 + w \<Longrightarrow> 0x10000 \<le> p \<Longrightarrow> p < 0x110000 \<Longrightarrow>
   utf8_points ((0xF0 + x) # (0x80 + y) # (0x80 + z) # (0x80 + w) # bs) = cons_point p (utf8_points bs)"
  by (simp add: continuation_def Let_def)

lemma digits_64: "u * 64 + v = q \<Longrightarrow> q * 64 + w = p \<Longrightarrow> u * 4096 + v * 64 + w = (p :: nat)"
  by linarith

lemma base_64: "p div 4096 * 4096 + p div 64 mod 64 * 64 + p mod 64 = (p :: nat)"
proof -
  have "p div 4096 = p div 64 div 64" by (simp only: div_mult2_eq [symmetric]) simp
  then show ?thesis using digits_64 [OF div_mult_mod_eq [of "p div 64" 64] div_mult_mod_eq [of p 64]] by simp
qed

lemma digits_64_long: "u * 4096 + v * 64 + w = q \<Longrightarrow> q * 64 + x = p \<Longrightarrow> u * 262144 + v * 4096 + w * 64 + x = (p :: nat)"
  by linarith

lemma base_64_long: "p div 262144 * 262144 + p div 4096 mod 64 * 4096 + p div 64 mod 64 * 64 + p mod 64 = (p :: nat)"
proof -
  have "p div 262144 = p div 64 div 4096" "p div 64 div 64 = p div 4096" by (simp_all only: div_mult2_eq [symmetric]) simp_all
  then show ?thesis using digits_64_long [OF base_64 [of "p div 64"] div_mult_mod_eq [of p 64]] by simp
qed

lemma utf8_points_point:
  assumes "utf8_point p = Some b"
  shows "utf8_points (b @ bs) = cons_point p (utf8_points bs)"
proof -
  consider (1) "p < 0x80" | (2) "0x80 \<le> p" "p < 0x800" | (3) "0x800 \<le> p" "p < 0x10000" "\<not> surrogate p"
    | (4) "0x10000 \<le> p" "p < 0x110000"
    using assms by (fastforce simp: utf8_point_def split: if_splits)
  then show ?thesis
  proof cases
    case 1
    with assms show ?thesis by (auto simp: utf8_point_def)
  next
    case 2
    then have b: "b = [0xC0 + p div 64, 0x80 + p mod 64]" using assms by (simp add: utf8_point_def)
    have "2 \<le> p div 64" "p div 64 < 32" using 2 by linarith+
    then show ?thesis using b utf8_points_2 [of "p div 64" "p mod 64" bs] by simp
  next
    case 3
    then have b: "b = [0xE0 + p div 4096, 0x80 + p div 64 mod 64, 0x80 + p mod 64]"
      using assms by (simp add: utf8_point_def)
    have "p div 4096 < 16" using 3 by linarith
    then show ?thesis using b 3 utf8_points_3 [of "p div 4096" "p div 64 mod 64" "p mod 64" p bs] base_64 [of p] by simp
  next
    case 4
    then have b: "b = [0xF0 + p div 262144, 0x80 + p div 4096 mod 64, 0x80 + p div 64 mod 64, 0x80 + p mod 64]"
      using assms by (simp add: utf8_point_def surrogate_def)
    have "p div 262144 < 5" using 4 by linarith
    then show ?thesis
      using b 4 utf8_points_4 [of "p div 262144" "p div 4096 mod 64" "p div 64 mod 64" "p mod 64" p bs] base_64_long [of p]
      by simp
  qed
qed

lemma utf8_decode_encode: "utf8_encode ps = Some bs \<Longrightarrow> utf8_decode bs = Some ps"
proof (induction ps arbitrary: bs)
  case Nil
  then show ?case by (simp add: utf8_decode_def)
next
  case (Cons p ps)
  then obtain b bs' where b: "utf8_point p = Some b" "utf8_encode ps = Some bs'" "bs = map word_of_nat b @ bs'"
    by (auto split: option.splits)
  have "map (unat \<circ> (word_of_nat :: nat \<Rightarrow> byte)) b = b"
    using utf8_point_bytes [OF b(1)] by (intro map_idI) (auto simp: list_all_iff unat_of_nat take_bit_eq_mod)
  then show ?case
    using utf8_points_point [OF b(1)] Cons.IH [OF b(2)] b(3) by (simp add: utf8_decode_def cons_point_def)
qed

lemma utf8_encode_total: "list_all (\<lambda>p. p < 0x110000 \<and> \<not> surrogate p) ps \<Longrightarrow> \<exists>bs. utf8_encode ps = Some bs"
  by (induction ps) (auto simp: utf8_point_def)

text \<open>Bytes of a message are found where the table says.\<close>

lemma table_slice:
  assumes "all_bytes ns = Some table" and "i < length ns"
  shows "from_bytes (byte_slice (table @ r) (8 * i) (8 * (i + 1))) = ns ! i"
  using assms by (rule all_bytes_slice)

lemma decode_encoded:
  assumes "\<And>j. j \<in> set (message_parts m) \<Longrightarrow> js_loads js (js_dumps js j) = Some j"
    and "encode_websocket_message js m = Some bs"
  shows "decode_websocket_message js (Binary_message bs) = Inr
     \<lparr>ic_channel = og_channel m, ic_header = part_or_empty (og_header m), ic_parent_header = part_or_empty (og_parent_header m),
      ic_metadata = part_or_empty (og_metadata m), ic_content = part_or_empty (og_content m)\<rparr>"
proof -
  obtain ch where ch: "utf8_encode (og_channel m) = Some ch" using assms(2) by (auto simp: encode_websocket_message_def split: option.splits)
  define texts where "texts = ch # map (js_dumps js) (message_parts m)"
  define off where "off = offsets_from 56 texts"
  have len: "length texts = 5" "length off = 6" by (simp_all add: texts_def off_def message_parts_def)
  obtain table where t: "all_bytes (length off # off) = Some table" and bs: "bs = table @ concat texts"
    using assms(2) ch unfolding off_def texts_def
    by (auto simp: encode_websocket_message_def Let_def message_parts_def
        simp del: all_bytes.simps offsets_from.simps split: option.splits)
  have lt: "length table = 56" using all_bytes_length [OF t] len by simp
  have count: "from_bytes (byte_slice bs 0 8) = 6" using table_slice [OF t, of 0 "concat texts"] bs len by simp
  have off': "map (\<lambda>i. from_bytes (byte_slice bs (8 * (i + 1)) (8 * (i + 2)))) [0..<6] = off"
  proof (rule nth_equalityI)
    fix i assume "i < length (map (\<lambda>i. from_bytes (byte_slice bs (8 * (i + 1)) (8 * (i + 2)))) [0..<6])"
    then have i: "i < 6" by simp
    then show "map (\<lambda>i. from_bytes (byte_slice bs (8 * (i + 1)) (8 * (i + 2)))) [0..<6] ! i = off ! i"
      using table_slice [OF t, of "Suc i" "concat texts"] bs len by (simp add: add.commute)
  qed (simp add: len)
  have part: "byte_slice bs (off ! i) (off ! (i + 1)) = texts ! i" if "i < 5" for i
    using offsets_slice [of i texts 56 table] that len lt bs by (simp add: off_def)
  have loads: "js_loads js (texts ! Suc i) = Some (message_parts m ! i)" if "i < 4" for i
  proof -
    have l: "length (message_parts m) = 4" by (simp add: message_parts_def)
    then show ?thesis using assms(1) [of "message_parts m ! i"] nth_mem [of i "message_parts m"] that by (simp add: texts_def)
  qed
  have json: "json_between js bs off (Suc i) = Inr (message_parts m ! i)" if "i < 4" for i
    using part [of "Suc i"] loads [OF that] that len by (simp add: json_between_def part_between_def or_value_error_def)
  have "part_between bs off 0 = Inr ch" using part [of 0] len by (simp add: part_between_def texts_def)
  moreover have "decode_websocket_message js (Binary_message bs) = decode_parts js bs off"
    unfolding decode_websocket_message_def socket_message.case count off' ..
  ultimately show ?thesis
    using json [of 0] json [of 1] json [of 2] json [of 3] utf8_decode_encode [OF ch]
    by (simp add: decode_parts_def or_value_error_def message_parts_def eval_nat_numeral)
qed

text \<open>A message can be sent when its channel is text and its length fits in eight bytes.\<close>

lemma encode_total:
  assumes "utf8_encode (og_channel m) = Some ch"
    and "56 + length (concat (ch # map (js_dumps js) (message_parts m))) < 2 ^ 64"
  shows "\<exists>bs. encode_websocket_message js m = Some bs"
proof -
  define texts where "texts = ch # map (js_dumps js) (message_parts m)"
  have "list_all (\<lambda>n. n < 2 ^ 64) (length (offsets_from 56 texts) # offsets_from 56 texts)"
    using offsets_bound [of _ 56 texts] assms(2) by (auto simp: list_all_iff texts_def message_parts_def intro: le_less_trans)
  then obtain table where t: "all_bytes (length (offsets_from 56 texts) # offsets_from 56 texts) = Some table"
    using all_bytes_total by blast
  have "8 * (1 + 1 + length (map (js_dumps js) (message_parts m)) + 1) = 56" by (simp add: message_parts_def)
  then show ?thesis
    using t assms(1) unfolding texts_def by (simp add: encode_websocket_message_def Let_def del: all_bytes.simps offsets_from.simps)
qed

text \<open>C14: A message to a kernel can be encoded when its length fits in eight bytes, and is
  decoded to the same channel and JSON values, given that the JSON parser inverts the printer on
  them.\<close>

theorem websocket_roundtrip:
  assumes "\<And>j. j \<in> set (message_parts m) \<Longrightarrow> js_loads js (js_dumps js j) = Some j"
    and "utf8_encode (og_channel m) = Some ch"
    and "56 + length (concat (ch # map (js_dumps js) (message_parts m))) < 2 ^ 64"
  shows "\<exists>bs. encode_websocket_message js m = Some bs \<and>
     decode_websocket_message js (Binary_message bs) = Inr
       \<lparr>ic_channel = og_channel m, ic_header = part_or_empty (og_header m), ic_parent_header = part_or_empty (og_parent_header m),
        ic_metadata = part_or_empty (og_metadata m), ic_content = part_or_empty (og_content m)\<rparr>"
proof -
  obtain bs where "encode_websocket_message js m = Some bs" using encode_total [OF assms(2,3)] by blast
  with decode_encoded [OF assms(1) this] show ?thesis by blast
qed

text \<open>The parameters are instantiated by a printer and a parser for one object.\<close>

definition tiny_codec :: json_codec where
  "tiny_codec = \<lparr>js_dumps = (\<lambda>_. [0x7B, 0x7D]), js_loads = (\<lambda>bs. if bs = [0x7B, 0x7D] then Some (J_dict []) else None)\<rparr>"

definition tiny_message :: outgoing where
  "tiny_message = \<lparr>og_channel = [115, 0xE9, 0x20AC, 0x1F600], og_header = None, og_parent_header = None, og_metadata = None,
     og_content = None\<rparr>"

lemma websocket_roundtrip_witness:
  "\<exists>bs. encode_websocket_message tiny_codec tiny_message = Some bs \<and>
     decode_websocket_message tiny_codec (Binary_message bs) = Inr
       \<lparr>ic_channel = [115, 0xE9, 0x20AC, 0x1F600], ic_header = J_dict [], ic_parent_header = J_dict [], ic_metadata = J_dict [],
        ic_content = J_dict []\<rparr>"
proof -
  have "utf8_encode (og_channel tiny_message) = Some [115, 0xC3, 0xA9, 0xE2, 0x82, 0xAC, 0xF0, 0x9F, 0x98, 0x80]"
    by (simp add: tiny_message_def utf8_point_def surrogate_def)
  moreover have "js_loads tiny_codec (js_dumps tiny_codec j) = Some j" if "j \<in> set (message_parts tiny_message)" for j
    using that by (auto simp: tiny_codec_def tiny_message_def message_parts_def part_or_empty_def)
  ultimately show ?thesis
    using websocket_roundtrip [of tiny_message tiny_codec]
    by (simp add: tiny_codec_def tiny_message_def message_parts_def part_or_empty_def)
qed

end
