(* ===== verification/Nublado_Client.thy ===== *)
theory Nublado_Client
  imports Client_Socket
begin

text \<open>
  Lab sessions and the client itself: \<open>_session.py\<close>, \<open>_client.py\<close> and \<open>_models.py\<close> of
  \<open>src/client/src/rubin/nublado/client\<close>. Streams of messages and events are read with fuel, which
  bounds how many are read. The text that an f-string makes of a JSON value that is not text and the ISO
  format of a time are parameters.
\<close>

section \<open>JSON values as Python uses them\<close>

definition truthy :: "json \<Rightarrow> bool" where
  "truthy j = (case j of J_null \<Rightarrow> False | J_bool b \<Rightarrow> b | J_int i \<Rightarrow> i \<noteq> 0 | J_float t \<Rightarrow> t \<noteq> ''0.0'' \<and> t \<noteq> ''-0.0''
     | J_text s \<Rightarrow> s \<noteq> [] | J_list xs \<Rightarrow> xs \<noteq> [] | J_dict d \<Rightarrow> d \<noteq> [])"

text \<open>\<open>j[k]\<close> and \<open>j.get(k)\<close> with a text as key.\<close>

definition json_item :: "json \<Rightarrow> string \<Rightarrow> (client_exn, json) result" where
  "json_item j k = (case j of
       J_dict d \<Rightarrow> (case map_of d k of None \<Rightarrow> Inl Py_key | Some v \<Rightarrow> Inr v)
     | _ \<Rightarrow> Inl Py_type)"

definition json_get :: "json \<Rightarrow> string \<Rightarrow> json \<Rightarrow> (client_exn, json) result" where
  "json_get j k dflt = (case j of
       J_dict d \<Rightarrow> Inr (case map_of d k of None \<Rightarrow> dflt | Some v \<Rightarrow> v)
     | _ \<Rightarrow> Inl Py_type)"

text \<open>\<open>"".join(j)\<close>.\<close>

definition json_texts :: "json list \<Rightarrow> (client_exn, string list) result" where
  "json_texts = rmap (\<lambda>x. case x of J_text s \<Rightarrow> Inr s | _ \<Rightarrow> Inl Py_type)"

definition json_concat :: "json \<Rightarrow> (client_exn, string) result" where
  "json_concat j = (case j of
       J_text s \<Rightarrow> Inr s
     | J_list xs \<Rightarrow> rbind (json_texts xs) (\<lambda>ss. Inr (concat ss))
     | J_dict d \<Rightarrow> Inr (concat (dkeys d))
     | _ \<Rightarrow> Inl Py_type)"

section \<open>Running code\<close>

record session_config =
  ss_client :: client_config
  ss_codec :: json_codec
  ss_str :: "json \<Rightarrow> string"
  ss_iso :: "datetime \<Rightarrow> string"
  ss_kernel_name :: string
  ss_open_timeout :: timedelta
  ss_max_size :: "nat option"
  ss_messages :: nat

definition json_str :: "session_config \<Rightarrow> json \<Rightarrow> string" where
  "json_str sc j = (case j of J_text s \<Rightarrow> s | _ \<Rightarrow> ss_str sc j)"

record jupyter_output =
  jo_content :: json
  jo_done :: bool
  jo_idle :: bool

definition ignored_message_types :: "string list" where
  "ignored_message_types = [''comm_close'', ''comm_msg'', ''comm_open'', ''display_data'', ''error'', ''execute_input'',
     ''execute_result'']"

text \<open>
  What parsing a message gives: an output, nothing, or an error that the kernel reports, with its
  status and its traceback. Other exceptions are the left side of the result.
\<close>

datatype parsed = Nothing | Output jupyter_output | Kernel_error json "string option"

definition parse_message :: "session_config \<Rightarrow> socket_message \<Rightarrow> string \<Rightarrow> (client_exn, parsed) result" where
  "parse_message sc m message_id =
     rbind (decode_websocket_message (ss_codec sc) m) (\<lambda>d.
     rbind (json_get (ic_parent_header d) ''msg_id'' J_null) (\<lambda>mid.
     if mid \<noteq> J_text message_id then Inr Nothing
     else rbind (json_item (ic_header d) ''msg_type'') (\<lambda>ty.
       if ty = J_text ''execute_reply'' then
         rbind (json_item (ic_content d) ''status'') (\<lambda>st.
         if st = J_text ''ok'' then Inr (Output \<lparr>jo_content = J_text [], jo_done = True, jo_idle = False\<rparr>)
         else rbind (json_get (ic_content d) ''traceback'' J_null) (\<lambda>tb.
           if truthy tb then rbind (json_concat tb) (\<lambda>t. Inr (Kernel_error st (Some t)))
           else Inr (Kernel_error st None)))
       else if ty = J_text ''status'' then
         rbind (json_item (ic_content d) ''execution_state'') (\<lambda>st.
           Inr (if st = J_text ''idle'' then Output \<lparr>jo_content = J_text [], jo_done = False, jo_idle = True\<rparr> else Nothing))
       else if ty = J_text ''stream'' then
         rbind (json_item (ic_content d) ''text'') (\<lambda>t. Inr (Output \<lparr>jo_content = t, jo_done = False, jo_idle = False\<rparr>))
       else Inr Nothing)))"

definition next_message :: "socket_message option client_proc" where
  "next_message = bind (await W_socket_next) (\<lambda>a. case a of C_message m \<Rightarrow> Ret m | _ \<Rightarrow> Raise Py_type)"

text \<open>
  A message that cannot be parsed is ignored. The end of the messages ends the loop, whether the code
  has been executed or not.
\<close>

fun read_result :: "nat \<Rightarrow> session_config \<Rightarrow> string \<Rightarrow> string \<Rightarrow> bool \<Rightarrow> bool \<Rightarrow> string client_proc" where
  "read_result 0 sc message_id out complete idle = Raise Client_fuel"
| "read_result (Suc n) sc message_id out complete idle =
     bind next_message (\<lambda>m. case m of
         None \<Rightarrow> Ret out
       | Some m \<Rightarrow>
           (case parse_message sc m message_id of
              Inl e \<Rightarrow> read_result n sc message_id out complete idle
            | Inr Nothing \<Rightarrow> read_result n sc message_id out complete idle
            | Inr (Kernel_error st tb) \<Rightarrow>
                raise_new (\<lambda>now. execution_error now (cc_user (ss_client sc)) tb
                  (if st = J_null then None else Some (json_str sc st)))
            | Inr (Output x) \<Rightarrow>
                (case jo_content x of
                   J_text t \<Rightarrow>
                     if (complete \<or> jo_done x) \<and> (idle \<or> jo_idle x) then Ret (out @ t)
                     else read_result n sc message_id (out @ t) (complete \<or> jo_done x) (idle \<or> jo_idle x)
                 | _ \<Rightarrow> Raise Py_type)))"

definition text_points :: "string \<Rightarrow> nat list" where
  "text_points s = map of_char s"

definition execute_request :: "session_config \<Rightarrow> json \<Rightarrow> datetime \<Rightarrow> string \<Rightarrow> string \<Rightarrow> outgoing" where
  "execute_request sc session_id start message_id code =
     \<lparr>og_channel = text_points ''shell'',
      og_header = Some (J_dict [(''username'', J_text (cc_user (ss_client sc))), (''version'', J_text ''5.4''),
        (''session'', session_id), (''date'', J_text (ss_iso sc start)), (''msg_id'', J_text message_id),
        (''msg_type'', J_text ''execute_request'')]),
      og_parent_header = Some (J_dict []),
      og_metadata = Some (J_dict []),
      og_content = Some (J_dict [(''code'', J_text code), (''silent'', J_bool False), (''store_history'', J_bool False),
        (''user_expressions'', J_dict []), (''allow_stdin'', J_bool False)])\<rparr>"

definition new_id :: "string client_proc" where
  "new_id = bind (await W_new_id) (\<lambda>a. case a of C_text (Some i) \<Rightarrow> Ret i | _ \<Rightarrow> Raise Py_type)"

definition set_code :: "string \<Rightarrow> nublado_error \<Rightarrow> nublado_error" where
  "set_code code e = (case ne_kind e of Execution_failed _ x st \<Rightarrow> e\<lparr>ne_kind := Execution_failed (Some code) x st\<rparr> | _ \<Rightarrow> e)"

definition set_context :: "code_context option \<Rightarrow> nublado_error \<Rightarrow> nublado_error" where
  "set_context cx e = (case cx of None \<Rightarrow> e | Some c \<Rightarrow> e\<lparr>ne_context := c\<rparr>)"

definition is_execution_error :: "nublado_error \<Rightarrow> bool" where
  "is_execution_error e = (case ne_kind e of Execution_failed _ _ _ \<Rightarrow> True | _ \<Rightarrow> False)"

definition within :: "timedelta option \<Rightarrow> 'a client_proc \<Rightarrow> 'a client_proc" where
  "within limit p =
     (case limit of
        None \<Rightarrow> p
      | Some t \<Rightarrow> if t = 0 then p else bind (reading cw_clock) (\<lambda>now. relabel (W_within (now + t)) p))"

definition run_python :: "session_config \<Rightarrow> json \<Rightarrow> string \<Rightarrow> code_context option \<Rightarrow> timedelta option \<Rightarrow> string client_proc" where
  "run_python sc session_id code cx limit =
     bind (reading cw_clock) (\<lambda>start.
     bind new_id (\<lambda>message_id.
     catch
       (bind (or_raise_client Py_value
          (encode_websocket_message (ss_codec sc) (execute_request sc session_id start message_id code))) (\<lambda>bs.
        bind (await (W_socket_send bs)) (\<lambda>_.
          within limit (read_result (ss_messages sc) sc message_id [] False False))))
       (\<lambda>e. case e of
           Nublado x \<Rightarrow>
             if is_execution_error x
             then Raise (Nublado (set_context cx ((set_code code x)\<lparr>ne_started_at := Some start\<rparr>)))
             else Raise e
         | Py_timeout \<Rightarrow>
             raise_new (\<lambda>now. execution_timeout_error (cc_format (ss_client sc)) now (cc_user (ss_client sc)) (Some code) cx (Some start))
         | Websocket_lib f \<Rightarrow>
             raise_new (\<lambda>now. set_context cx
               ((websocket_error (cc_format (ss_client sc)) now f (cc_user (ss_client sc)))\<lparr>ne_started_at := Some start\<rparr>))
         | _ \<Rightarrow> Raise e)))"

section \<open>Lab sessions\<close>

text \<open>A manager has the id of its session and whether it has a connection. It keeps the client it was made with.\<close>

definition upd_manager :: "nat \<Rightarrow> (session_manager \<Rightarrow> session_manager) \<Rightarrow> client_world \<Rightarrow> client_world" where
  "upd_manager i f s = s\<lparr>cw_managers := (cw_managers s)(i := f (cw_managers s i))\<rparr>"

definition or_raise_result :: "(client_exn, 'x) result \<Rightarrow> 'x client_proc" where
  "or_raise_result r = (case r of Inl e \<Rightarrow> Raise e | Inr x \<Rightarrow> Ret x)"

definition session_route :: "session_config \<Rightarrow> string \<Rightarrow> string" where
  "session_route sc rest = ''user/'' @ cc_user (ss_client sc) @ ''/api/'' @ rest"

text \<open>Entering gives the id of the session.\<close>

definition open_socket :: "session_config \<Rightarrow> nat \<Rightarrow> nat \<Rightarrow> json \<Rightarrow> unit client_proc" where
  "open_socket sc c i kern =
     bind (reading cw_clock) (\<lambda>start.
     catch
       (bind (jc_open_websocket (ss_client sc) c (session_route sc (''kernels/'' @ json_str sc kern @ ''/channels''))) (\<lambda>(u, h).
        seq (act (upd_manager i (\<lambda>m. m\<lparr>sm_session := True\<rparr>)))
            (bind (await (W_socket_open u h (ss_open_timeout sc) (ss_max_size sc))) (\<lambda>_. Ret ()))))
       (\<lambda>e. case e of
           Websocket_lib f \<Rightarrow>
             raise_new (\<lambda>now. (websocket_error (cc_format (ss_client sc)) now f (cc_user (ss_client sc)))\<lparr>ne_started_at := Some start\<rparr>)
         | Py_timeout \<Rightarrow>
             raise_new (\<lambda>now. new_error now ''Timed out attempting to open WebSocket to lab session''
               (Some (cc_user (ss_client sc))) (Some start) Timed_out)
         | _ \<Rightarrow> Raise e))"

definition session_enter :: "session_config \<Rightarrow> nat \<Rightarrow> nat \<Rightarrow> json client_proc" where
  "session_enter sc c i =
     bind new_id (\<lambda>path.
     bind (jc_post (ss_client sc) c (session_route sc ''sessions'')
        (Json_body (J_dict [(''kernel'', J_dict [(''name'', J_text (ss_kernel_name sc))]), (''path'', J_text path),
           (''type'', J_text ''console'')])) [] No_timeout []) (\<lambda>r.
     bind (or_raise_client Py_value (rs_json r)) (\<lambda>j.
     bind (or_raise_result (json_item j ''id'')) (\<lambda>sid.
     seq (act (upd_manager i (\<lambda>m. m\<lparr>sm_session_id := sid\<rparr>)))
    (bind (or_raise_result (rbind (json_item j ''kernel'') (\<lambda>k. json_item k ''id''))) (\<lambda>kern.
     seq (open_socket sc c i kern) (Ret sid)))))))"

text \<open>Leaving, with or without an exception that is on its way.\<close>

definition session_exit :: "session_config \<Rightarrow> nat \<Rightarrow> nat \<Rightarrow> bool \<Rightarrow> unit client_proc" where
  "session_exit sc c i has_exn =
     bind (reading (\<lambda>s. cw_managers s i)) (\<lambda>m.
     if \<not> truthy (sm_session_id m) then Ret ()
     else bind (reading cw_clock) (\<lambda>start.
       catch
         (seq (do_if (sm_session m) (bind (await W_socket_close) (\<lambda>_. Ret ())))
         (seq (act (upd_manager i (\<lambda>m. m\<lparr>sm_session := False\<rparr>)))
         (bind (jc_delete (ss_client sc) c (session_route sc (''sessions/'' @ json_str sc (sm_session_id m))) False) (\<lambda>_. Ret ()))))
         (\<lambda>e. case e of
             Nublado x \<Rightarrow> (case ne_kind x of Web_failed _ _ _ _ \<Rightarrow> if has_exn then Ret () else Raise e | _ \<Rightarrow> Raise e)
           | Websocket_lib f \<Rightarrow>
               if has_exn then Ret ()
               else raise_new (\<lambda>now.
                 (websocket_error (cc_format (ss_client sc)) now f (cc_user (ss_client sc)))\<lparr>ne_started_at := Some start\<rparr>)
           | _ \<Rightarrow> Raise e)))"

text \<open>\<open>async with client.lab_session() as session: body\<close>. The exit is not run when entering raises.\<close>

definition with_lab_session :: "session_config \<Rightarrow> nat \<Rightarrow> nat \<Rightarrow> (json \<Rightarrow> 'a client_proc) \<Rightarrow> 'a client_proc" where
  "with_lab_session sc c i body =
     bind (session_enter sc c i) (\<lambda>sid.
       try_else (body sid)
         (\<lambda>e. seq (session_exit sc c i True) (Raise e))
         (\<lambda>a. seq (session_exit sc c i False) (Ret a)))"

section \<open>The client\<close>

datatype nublado_image_size = Fine | Diminutive | Tiny | Small | Medium | Large | Huge | Gargantuan | Colossal

definition size_value :: "nublado_image_size \<Rightarrow> string" where
  "size_value z = (case z of Fine \<Rightarrow> ''Fine'' | Diminutive \<Rightarrow> ''Diminutive'' | Tiny \<Rightarrow> ''Tiny'' | Small \<Rightarrow> ''Small''
     | Medium \<Rightarrow> ''Medium'' | Large \<Rightarrow> ''Large'' | Huge \<Rightarrow> ''Huge'' | Gargantuan \<Rightarrow> ''Gargantuan'' | Colossal \<Rightarrow> ''Colossal'')"

datatype nublado_image_class = RECOMMENDED | LATEST_RELEASE | LATEST_WEEKLY | LATEST_DAILY | BY_REFERENCE | BY_TAG

definition image_class_value :: "nublado_image_class \<Rightarrow> string" where
  "image_class_value k = (case k of RECOMMENDED \<Rightarrow> ''recommended'' | LATEST_RELEASE \<Rightarrow> ''latest-release''
     | LATEST_WEEKLY \<Rightarrow> ''latest-weekly'' | LATEST_DAILY \<Rightarrow> ''latest-daily'' | BY_REFERENCE \<Rightarrow> ''by-reference'' | BY_TAG \<Rightarrow> ''by-tag'')"

text \<open>An image by reference, by tag, or of one of the first four classes.\<close>

datatype image_choice = By_reference string | By_tag string | By_class nublado_image_class

record nublado_image =
  ni_choice :: image_choice
  ni_size :: nublado_image_size
  ni_debug :: bool

definition to_spawn_form :: "nublado_image \<Rightarrow> (string, string) dict" where
  "to_spawn_form im =
     (case ni_choice im of
        By_reference r \<Rightarrow> [(''image_list'', r), (''size'', size_value (ni_size im))]
      | By_tag t \<Rightarrow> [(''image_tag'', t), (''size'', size_value (ni_size im))]
      | By_class k \<Rightarrow> [(''image_class'', image_class_value k), (''size'', size_value (ni_size im))])
     @ (if ni_debug im then [(''enable_debug'', ''true'')] else [])"

record spawn_progress_message =
  pm_progress :: json
  pm_message :: json
  pm_ready :: json

text \<open>An event that cannot be parsed is ignored.\<close>

definition parse_progress :: "json option \<Rightarrow> spawn_progress_message option" where
  "parse_progress d =
     (case d of
        None \<Rightarrow> None
      | Some j \<Rightarrow>
          (case rbind (json_item j ''progress'') (\<lambda>p.
                rbind (json_item j ''message'') (\<lambda>m.
                rbind (json_get j ''ready'' (J_bool False)) (\<lambda>r.
                  Inr \<lparr>pm_progress = p, pm_message = m, pm_ready = r\<rparr>))) of
             Inl _ \<Rightarrow> None | Inr m \<Rightarrow> Some m))"

text \<open>
  The loop of a consumer over the messages: after each it goes on with a new value or stops with a
  result. At the end of the stream it has its value.
\<close>

fun progress_messages :: "nat \<Rightarrow> ('x \<Rightarrow> spawn_progress_message \<Rightarrow> 'x + 'b) \<Rightarrow> 'x \<Rightarrow> ('x + 'b) client_proc" where
  "progress_messages 0 f x = Raise Client_fuel"
| "progress_messages (Suc n) f x =
     bind (await W_sse_next) (\<lambda>a. case a of
         C_event None \<Rightarrow> Ret (Inl x)
       | C_event (Some d) \<Rightarrow>
           (case parse_progress d of
              None \<Rightarrow> progress_messages n f x
            | Some m \<Rightarrow> (case f x m of Inl y \<Rightarrow> progress_messages n f y | Inr b \<Rightarrow> Ret (Inr b)))
       | _ \<Rightarrow> Raise Py_type)"

definition watch_spawn_progress ::
  "session_config \<Rightarrow> nat \<Rightarrow> ('x \<Rightarrow> spawn_progress_message \<Rightarrow> 'x + 'b) \<Rightarrow> 'x \<Rightarrow> ('x + 'b) client_proc" where
  "watch_spawn_progress sc c f x =
     bind (reading cw_clock) (\<lambda>start.
     bind (jc_open_sse_stream (ss_client sc) c (''hub/api/users/'' @ cc_user (ss_client sc) @ ''/server/progress'')) (\<lambda>(u, h).
       catch
         (bind (await (W_sse_open c u h)) (\<lambda>_.
            finally_do (progress_messages (ss_messages sc) f x) (bind (await W_sse_close) (\<lambda>_. Ret ()))))
         (\<lambda>e. case e of
             Httpx hf \<Rightarrow>
               raise_new (\<lambda>now. (web_error (cc_format (ss_client sc)) now hf (cc_user (ss_client sc)))\<lparr>ne_started_at := Some start\<rparr>)
           | _ \<Rightarrow> Raise e)))"

definition spawn_step :: "json list \<Rightarrow> spawn_progress_message \<Rightarrow> json list + unit" where
  "spawn_step log m = (if truthy (pm_ready m) then Inr () else Inl (log @ [pm_message m]))"

definition wait_for_spawn :: "session_config \<Rightarrow> nat \<Rightarrow> unit client_proc" where
  "wait_for_spawn sc c =
     bind (reading cw_clock) (\<lambda>start.
     bind (watch_spawn_progress sc c spawn_step []) (\<lambda>x. case x of
         Inr _ \<Rightarrow> Ret ()
       | Inl log \<Rightarrow>
           let ms = map (json_str sc) log
           in raise_new (\<lambda>now. new_error now (if ms = [] then ''No output from spawn attempt'' else last ms)
                (Some (cc_user (ss_client sc))) (Some start) (Lab_spawn_failed ms))))"

definition auth_to_hub :: "client_config \<Rightarrow> unit client_proc" where
  "auth_to_hub cfg =
     bind (reading cw_current) (\<lambda>c.
     bind (await (W_close c)) (\<lambda>_.
     bind (reading cw_next) (\<lambda>c'.
     seq (act (\<lambda>s. (upd_client c' (\<lambda>_. new_client) s)\<lparr>cw_current := c', cw_next := c' + 1\<rparr>))
         (bind (jc_get cfg c' ''hub/home'' False ''navigate'') (\<lambda>_. Ret ())))))"

definition auth_to_lab :: "client_config \<Rightarrow> nat \<Rightarrow> unit client_proc" where
  "auth_to_lab cfg c = bind (jc_get cfg c (''user/'' @ cc_user cfg @ ''/lab'') False ''navigate'') (\<lambda>_. Ret ())"

definition is_lab_stopped :: "client_config \<Rightarrow> nat \<Rightarrow> bool client_proc" where
  "is_lab_stopped cfg c =
     bind (jc_get cfg c (''hub/api/users/'' @ cc_user cfg) True ''same-origin'') (\<lambda>r.
     bind (or_raise_client Py_value (rs_json r)) (\<lambda>j.
     bind (or_raise_result (json_item j ''servers'')) (\<lambda>v. Ret (v = J_dict []))))"

definition stop_lab :: "client_config \<Rightarrow> nat \<Rightarrow> unit client_proc" where
  "stop_lab cfg c =
     bind (is_lab_stopped cfg c) (\<lambda>stopped.
     if stopped then Ret ()
     else bind (jc_delete cfg c (''hub/api/users/'' @ cc_user cfg @ ''/server'') True) (\<lambda>_. Ret ()))"

definition spawn_lab :: "client_config \<Rightarrow> nat \<Rightarrow> nublado_image \<Rightarrow> unit client_proc" where
  "spawn_lab cfg c im =
     bind (jc_get cfg c ''hub/spawn'' False ''navigate'') (\<lambda>_.
     bind (jc_post cfg c ''hub/spawn'' (Form_body (to_spawn_form im)) [] No_timeout []) (\<lambda>_. Ret ()))"

record notebook_error =
  nx_name :: string
  nx_value :: string
  nx_message :: string
  nx_traceback :: string

record notebook_result =
  nr_notebook :: string
  nr_resources :: "(string \<times> json) list"
  nr_error :: "notebook_error option"

text \<open>A field under its alias, or else under its name; \<open>None\<close> if it is missing or not text.\<close>

definition text_field :: "(string \<times> json) list \<Rightarrow> string \<Rightarrow> string \<Rightarrow> string option" where
  "text_field d alias name =
     (case (case map_of d alias of None \<Rightarrow> map_of d name | v \<Rightarrow> v) of Some (J_text s) \<Rightarrow> Some s | _ \<Rightarrow> None)"

definition validate_notebook_error :: "json \<Rightarrow> notebook_error option" where
  "validate_notebook_error j =
     (case j of
        J_dict d \<Rightarrow>
          (case (text_field d ''ename'' ''name'', text_field d ''evalue'' ''value'', text_field d ''err_msg'' ''message'',
                 text_field d ''traceback'' ''traceback'') of
             (Some n, Some v, Some m, Some t) \<Rightarrow> Some \<lparr>nx_name = n, nx_value = v, nx_message = m, nx_traceback = t\<rparr>
           | _ \<Rightarrow> None)
      | _ \<Rightarrow> None)"

definition validate_notebook_result :: "json \<Rightarrow> notebook_result option" where
  "validate_notebook_result j =
     (case j of
        J_dict d \<Rightarrow>
          (case (text_field d ''notebook'' ''notebook'',
                 (case map_of d ''resources'' of None \<Rightarrow> Some [] | Some (J_dict r) \<Rightarrow> Some r | _ \<Rightarrow> None),
                 (case map_of d ''error'' of None \<Rightarrow> Some None | Some J_null \<Rightarrow> Some None
                  | Some e \<Rightarrow> map_option Some (validate_notebook_error e))) of
             (Some n, Some r, Some e) \<Rightarrow> Some \<lparr>nr_notebook = n, nr_resources = r, nr_error = e\<rparr>
           | _ \<Rightarrow> None)
      | _ \<Rightarrow> None)"

definition run_notebook ::
  "client_config \<Rightarrow> nat \<Rightarrow> string \<Rightarrow> string option \<Rightarrow> bool \<Rightarrow> timedelta option \<Rightarrow> notebook_result client_proc" where
  "run_notebook cfg c content kern clear read_timeout =
     bind (jc_post cfg c (''user/'' @ cc_user cfg @ ''/rubin/execution'') (Raw_body content)
        ((case present kern of Some k \<Rightarrow> [(''kernel_name'', k)] | None \<Rightarrow> []) @
         (if clear then [(''clear_local_site_packages'', ''true'')] else []))
        (case read_timeout of None \<Rightarrow> No_timeout | Some t \<Rightarrow> if t = 0 then No_timeout else Timeouts (cc_timeout cfg) t)
        (case present kern of Some k \<Rightarrow> [(''X-Kernel-Name'', k)] | None \<Rightarrow> [])) (\<lambda>r.
     bind (or_raise_client Py_value (rs_json r)) (\<lambda>j.
     case validate_notebook_result j of
       Some x \<Rightarrow> Ret x
     | None \<Rightarrow> raise_new (\<lambda>now. new_error now ''Cannot parse notebook execution results'' None None Protocol_failed)))"

end
