(* ===== verification/Client_Laws.thy ===== *)
theory Client_Laws
  imports Nublado_Client
begin

text \<open>
  What the client library promises and what it does not: where it sends requests, that it gets through
  redirects, which tokens it keeps, and what comes out of sessions and spawns.
\<close>

section \<open>Where requests go\<close>

text \<open>
  The base URLs that the client may take for that of the lab: that of JupyterHub, with its host
  replaced by hosts whose name starts with the user name.
\<close>

inductive lab_base :: "string \<Rightarrow> string \<Rightarrow> string \<Rightarrow> bool" for hub user' where
  lab_base_hub: "lab_base hub user' hub"
| lab_base_host: "lab_base hub user' b \<Longrightarrow> urlparse b [] = Some u \<Longrightarrow> url_hostname v = Some h \<Longrightarrow>
    prefix (user' @ ''.'') h \<Longrightarrow> lab_base hub user' (geturl (u\<lparr>u_netloc := u_netloc v\<rparr>))"

definition good_url :: "string \<Rightarrow> string \<Rightarrow> string \<Rightarrow> bool" where
  "good_url hub user' url \<longleftrightarrow> (\<exists>b. lab_base hub user' b \<and> prefix b url)"

definition bases_ok :: "string \<Rightarrow> string \<Rightarrow> client_world \<Rightarrow> bool" where
  "bases_ok hub user' s \<longleftrightarrow> (\<forall>c b. jc_lab_base_url (cw_clients s c) = Some b \<longrightarrow> lab_base hub user' b)"

definition client_ok :: "string \<Rightarrow> string \<Rightarrow> client_request list \<Rightarrow> client_world \<Rightarrow> bool" where
  "client_ok hub user' old s \<longleftrightarrow> bases_ok hub user' s \<and> (\<forall>q \<in> set (cw_sent s). q \<in> set old \<or> good_url hub user' (rq_url q))"

definition answers_ok :: "string \<Rightarrow> string \<Rightarrow> client_request list \<Rightarrow> client_wait \<Rightarrow> client_world \<Rightarrow>
    (client_exn + client_answer) \<Rightarrow> client_world \<Rightarrow> bool" where
  "answers_ok hub user' old w s r s' \<longleftrightarrow>
     (client_ok hub user' old s \<longrightarrow> client_ok hub user' old s') \<and>
     (w = W_discover \<longrightarrow> (\<forall>u. r = Inr (C_text (Some u)) \<longrightarrow> u \<noteq> [] \<longrightarrow> rstrip_slash u = hub))"

interpretation client: interference "client_ok hub user' old" "\<lambda>_ _. True" "\<lambda>_ _. True"
    "answers_ok hub user' old" "\<lambda>_ _. True" for hub user' old
  by unfold_locales auto

text \<open>Coroutines that end with a result in \<open>K\<close> whenever they end with a value.\<close>

definition gives :: "string \<Rightarrow> string \<Rightarrow> client_request list \<Rightarrow> 'a client_proc \<Rightarrow> ('a \<Rightarrow> bool) \<Rightarrow> bool" where
  "gives hub user' old p K = client.triple hub user' old (\<lambda>_. True) p (\<lambda>r _. \<forall>a. r = Inr a \<longrightarrow> K a)"

lemma gives_Ret: "K a \<Longrightarrow> gives hub user' old (Ret a) K"
  unfolding gives_def by (rule client.triple_Ret) simp

lemma gives_Raise: "gives hub user' old (Raise e) K"
  unfolding gives_def by (rule client.triple_Raise) simp

lemma gives_bind:
  assumes "gives hub user' old p M" and "\<And>a. M a \<Longrightarrow> gives hub user' old (f a) K"
  shows "gives hub user' old (bind p f) K"
  unfolding gives_def
proof (rule client.triple_bind [OF assms(1) [unfolded gives_def]])
  show "client.triple hub user' old (\<lambda>s. \<forall>b. Inr a = Inr b \<longrightarrow> M b) (f a) (\<lambda>r _. \<forall>a. r = Inr a \<longrightarrow> K a)" for a
  proof (cases "M a")
    case True
    then show ?thesis using client.triple_mono [OF assms(2) [OF True, unfolded gives_def]] by auto
  next
    case False
    then show ?thesis by (intro client.tripleI) simp
  qed
qed simp

lemma gives_seq: "gives hub user' old p (\<lambda>_. True) \<Longrightarrow> gives hub user' old q K \<Longrightarrow> gives hub user' old (seq p q) K"
  unfolding seq_def by (rule gives_bind)

lemma gives_catch:
  assumes "gives hub user' old p K" and "\<And>e. gives hub user' old (h e) K"
  shows "gives hub user' old (catch p h) K"
  unfolding gives_def
proof (rule client.triple_catch [OF assms(1) [unfolded gives_def]])
  show "client.triple hub user' old (\<lambda>s. \<forall>b. Inl e = Inr b \<longrightarrow> K b) (h e) (\<lambda>r _. \<forall>a. r = Inr a \<longrightarrow> K a)" for e
    using client.triple_mono [OF assms(2) [of e, unfolded gives_def]] by auto
qed auto

lemma gives_await: "(\<And>s s' a. answers_ok hub user' old w s (Inr a) s' \<Longrightarrow> K a) \<Longrightarrow> gives hub user' old (await w) K"
  unfolding gives_def
proof (rule client.triple_await)
  fix s s1 r s2
  assume k: "\<And>s s' a. answers_ok hub user' old w s (Inr a) s' \<Longrightarrow> K a"
    and a: "client_ok hub user' old s1" "answers_ok hub user' old w s1 r s2"
  have "K a" if "r = Inr a" for a using k [of s1 a s2] a(2) that by simp
  with a show "client_ok hub user' old s2 \<and> (\<forall>a. r = Inr a \<longrightarrow> K a)" by (simp add: answers_ok_def)
qed simp

lemma gives_any: "gives hub user' old (await w) (\<lambda>_. True)"
  by (rule gives_await) simp

lemma gives_reading: "(\<And>s. client_ok hub user' old s \<Longrightarrow> K (f s)) \<Longrightarrow> gives hub user' old (reading f) K"
  unfolding gives_def by (rule client.tripleI) (simp add: reading_def)

lemma gives_act: "(\<And>s. client_ok hub user' old s \<Longrightarrow> client_ok hub user' old (f s)) \<Longrightarrow> gives hub user' old (act f) (\<lambda>_. True)"
  unfolding gives_def by (rule client.triple_act) simp

lemma gives_mono: "gives hub user' old p M \<Longrightarrow> (\<And>a. M a \<Longrightarrow> K a) \<Longrightarrow> gives hub user' old p K"
  unfolding gives_def by (erule client.triple_mono) auto

lemma gives_raise_new: "gives hub user' old (raise_new f) K"
  unfolding raise_new_def by (intro gives_bind [OF gives_reading [where K = "\<lambda>_. True"]] gives_Raise) simp

lemma gives_or_raise: "(\<And>y. x = Some y \<Longrightarrow> K y) \<Longrightarrow> gives hub user' old (or_raise_client e x) K"
  by (auto simp: or_raise_client_def split: option.split intro: gives_Ret gives_Raise)

lemma gives_if: "(b \<Longrightarrow> gives hub user' old p K) \<Longrightarrow> (\<not> b \<Longrightarrow> gives hub user' old q K) \<Longrightarrow> gives hub user' old (if b then p else q) K"
  by simp

lemma gives_convert: "gives hub user' old p K \<Longrightarrow> gives hub user' old (convert_http cfg p) K"
  unfolding convert_http_def
  by (rule gives_bind [OF gives_reading [where K = "\<lambda>_. True"]])
    (auto intro!: gives_catch gives_raise_new gives_Raise split: client_exn.split)

lemma gives_hub_base_url: "gives hub user' old hub_base_url (\<lambda>u. u = hub)"
  unfolding hub_base_url_def
  by (rule gives_bind [OF gives_await [where K = "\<lambda>a. \<forall>u. a = C_text (Some u) \<longrightarrow> u \<noteq> [] \<longrightarrow> rstrip_slash u = hub"]])
    (auto simp: answers_ok_def intro: gives_Ret gives_Raise gives_raise_new split: client_answer.split option.split)

lemma gives_http: "good_url hub user' (rq_url q) \<Longrightarrow> gives hub user' old (client_http c q) (\<lambda>_. True)"
  unfolding client_http_def
  by (intro gives_seq gives_bind [OF gives_any] gives_act)
    (auto simp: client_ok_def bases_ok_def sent_def intro: gives_Ret gives_Raise split: client_answer.split)

lemma gives_status: "gives hub user' old (client_raise_for_status r) (\<lambda>_. True)"
  by (simp add: client_raise_for_status_def gives_Ret gives_Raise)

lemma gives_extract: "gives hub user' old (extract_xsrf r c b) (\<lambda>_. True)"
  unfolding extract_xsrf_def
  by (rule gives_act)
    (auto simp: client_ok_def bases_ok_def store_xsrf_def upd_client_def Let_def split: option.split)

lemma lab_base_of_ok: "client_ok hub user' old s \<Longrightarrow> \<forall>u. b = Some u \<longrightarrow> lab_base hub user' u \<Longrightarrow>
    lab_base_of c b s = Some u \<Longrightarrow> lab_base hub user' u"
  by (auto simp: client_ok_def bases_ok_def lab_base_of_def present_def split: option.splits if_splits)

text \<open>A redirect that is followed stays with JupyterHub or the lab.\<close>

lemma gives_check:
  assumes "\<forall>u. b = Some u \<longrightarrow> lab_base hub user' u"
  shows "gives hub user' old (check_redirect cfg c url b) (\<lambda>_. good_url hub user' url)"
  unfolding check_redirect_def
proof (rule gives_bind [OF gives_hub_base_url])
  fix a assume a: "a = hub"
  show "gives hub user' old (if prefix a url then Ret ()
     else bind (reading (lab_base_of c b)) (\<lambda>b. if case b of None \<Rightarrow> False | Some u \<Rightarrow> prefix u url then Ret ()
        else raise_new (\<lambda>now. redirect_error (cc_format cfg) now ''Unexpected redirect'' url))) (\<lambda>_. good_url hub user' url)"
    using a assms
    by (intro gives_if gives_Ret
        gives_bind [OF gives_reading [where K = "\<lambda>b. \<forall>u. b = Some u \<longrightarrow> lab_base hub user' u"]] gives_raise_new)
      (auto simp: good_url_def intro: lab_base_hub lab_base_of_ok split: option.splits)
qed

lemma gives_seen: "gives hub user' old (seen_check cfg url seen) (\<lambda>_. True)"
  by (simp add: seen_check_def gives_Ret gives_raise_new)

lemma geturl_lab_base:
  "rebase cfg b loc = Some b' \<Longrightarrow> lab_base hub (cc_user cfg) b \<Longrightarrow> lab_base hub (cc_user cfg) b'"
  by (auto simp: rebase_def intro: lab_base_host split: option.splits if_splits)

lemma gives_check_seq:
  "\<forall>u. b = Some u \<longrightarrow> lab_base hub user' u \<Longrightarrow> (good_url hub user' url \<Longrightarrow> gives hub user' old q K) \<Longrightarrow>
   gives hub user' old (seq (check_redirect cfg c url b) q) K"
  unfolding seq_def by (erule gives_bind [OF gives_check])

lemma gives_maybe: "(\<And>y. gives hub user' old (f y) K) \<Longrightarrow> gives hub user' old (bind (or_raise_client e x) f) K"
  by (rule gives_bind [OF gives_or_raise [where K = "\<lambda>_. True"]]) auto

lemma gives_request:
  "good_url hub user' (rq_url q) \<Longrightarrow> (\<And>r. gives hub user' old (f r) K) \<Longrightarrow> gives hub user' old (bind (client_http c q) f) K"
  by (rule gives_bind [OF gives_http])

lemma url_get_request [simp]: "rq_url (get_request url h) = url"
  by (simp add: get_request_def)

lemma gives_follow: "gives hub user' old (follow_redirects n cfg c h url seen r) (\<lambda>_. True)"
proof (induction n arbitrary: url seen r)
  case 0
  show ?case by (simp add: gives_Raise)
next
  case (Suc n)
  show ?case
    unfolding follow_redirects.simps
    by (intro gives_if gives_seq [OF gives_extract] gives_maybe gives_check_seq gives_seq [OF gives_seen] gives_request
        gives_seq [OF gives_status] gives_Ret Suc.IH) simp_all
qed

lemma gives_lab_redirects:
  "lab_base hub (cc_user cfg) b \<Longrightarrow>
   gives hub (cc_user cfg) old (lab_redirects n cfg c h b url seen r) (lab_base hub (cc_user cfg))"
proof (induction n arbitrary: b url seen r)
  case 0
  show ?case by (simp add: gives_Raise)
next
  case (Suc n)
  show ?case
    unfolding lab_redirects.simps
    by (intro gives_if gives_maybe gives_bind [OF gives_or_raise [where K = "lab_base hub (cc_user cfg)"]] gives_check_seq
        gives_seq [OF gives_extract] gives_seq [OF gives_seen] gives_request gives_seq [OF gives_status] gives_Ret Suc.IH)
      (simp_all add: Suc.prems geturl_lab_base [OF _ Suc.prems])
qed

lemma gives_headers: "gives hub user' old (headers_for_route cfg c route b mode) (\<lambda>_. True)"
  unfolding headers_for_route_def
  by (intro gives_bind [OF gives_reading [where K = "\<lambda>_. True"]] gives_if gives_bind [OF gives_hub_base_url] gives_Ret) simp_all

lemma good_route: "lab_base hub user' b \<Longrightarrow> good_url hub user' (b @ CHR ''/'' # route)"
  by (auto simp: good_url_def)

lemma gives_find: "gives hub (cc_user cfg) old (find_lab_base_url cfg c) (lab_base hub (cc_user cfg))"
  unfolding find_lab_base_url_def Let_def
  by (intro gives_bind [OF gives_hub_base_url] gives_bind [OF gives_headers] gives_bind [OF gives_http] gives_lab_redirects)
    (auto simp: get_request_def intro: good_route lab_base_hub)

lemma gives_url: "gives hub (cc_user cfg) old (url_for_route cfg c route) (good_url hub (cc_user cfg))"
  unfolding url_for_route_def seq_def
  by (intro gives_if gives_bind [OF gives_reading [where K = "\<lambda>b. \<forall>u. b = Some u \<longrightarrow> lab_base hub (cc_user cfg) u"]]
      gives_bind [OF gives_hub_base_url])
    (auto intro!: gives_Ret good_route lab_base_hub gives_bind [OF gives_find] gives_bind [OF gives_act] split: option.split
      simp: client_ok_def bases_ok_def upd_client_def present_def split: option.splits if_splits)

lemma gives_get_following:
  "good_url hub user' url \<Longrightarrow> gives hub user' old (get_url_following cfg c url h) (\<lambda>_. True)"
  unfolding get_url_following_def by (intro gives_bind [OF gives_http] gives_follow) (simp add: get_request_def)

lemma gives_jc_get: "gives hub (cc_user cfg) old (jc_get cfg c route b mode) (\<lambda>_. True)"
  unfolding jc_get_def
  by (intro gives_convert gives_bind [OF gives_url] gives_bind [OF gives_headers] gives_get_following)

lemma gives_jc_delete: "gives hub (cc_user cfg) old (jc_delete cfg c route b) (\<lambda>_. True)"
  unfolding jc_delete_def
  by (intro gives_convert gives_bind [OF gives_url] gives_bind [OF gives_headers] gives_bind [OF gives_http] gives_seq [OF gives_status] gives_Ret)
    (simp_all add: get_request_def)

lemma gives_jc_post: "gives hub (cc_user cfg) old (jc_post cfg c route body params t extra) (\<lambda>_. True)"
  unfolding jc_post_def Let_def seq_def
  by (intro gives_convert gives_bind [OF gives_url] gives_bind [OF gives_headers] gives_bind [OF gives_http] gives_if
      gives_maybe gives_bind [OF gives_check] gives_bind [OF gives_status]
      gives_get_following gives_Ret) simp_all

text \<open>
  An environment for one task: it leaves the clients and what was sent alone, and the discovery service
  knows one URL for JupyterHub.
\<close>

definition alone :: "string \<Rightarrow> (client_world, client_wait, client_answer, client_exn) env \<Rightarrow> bool" where
  "alone hub env \<longleftrightarrow>
     (\<forall>w s. cw_clients (fst (env w s)) = cw_clients s \<and> cw_sent (fst (env w s)) = cw_sent s) \<and>
     (\<forall>s u. snd (env W_discover s) = Inr (C_text (Some u)) \<longrightarrow> u \<noteq> [] \<longrightarrow> rstrip_slash u = hub)"


section \<open>Redirects end\<close>

text \<open>How often the URLs in \<open>V\<close> may still be visited.\<close>

definition visits_left :: "string set \<Rightarrow> string list \<Rightarrow> nat" where
  "visits_left V seen = (\<Sum>v \<in> V. 2 - count_list seen v)"

lemma visits_left_le: "visits_left V seen \<le> 2 * card V"
proof -
  have "visits_left V seen \<le> (\<Sum>v \<in> V. 2)" unfolding visits_left_def by (rule sum_mono) simp
  then show ?thesis by simp
qed

lemma visits_left_step:
  assumes "finite V" and "u \<in> V" and "\<not> 1 < count_list seen u"
  shows "visits_left V (u # seen) < visits_left V seen"
  unfolding visits_left_def
proof (rule sum_strict_mono_ex1 [OF assms(1)])
  show "\<forall>v\<in>V. 2 - count_list (u # seen) v \<le> 2 - count_list seen v" by (auto intro: diff_le_mono)
  show "\<exists>v\<in>V. 2 - count_list (u # seen) v < 2 - count_list seen v" using assms(2,3) by (intro bexI [of _ u]) auto
qed

text \<open>The answers lead to URLs in \<open>V\<close> only, and none is that fuel is used up.\<close>

definition leads_to :: "string set \<Rightarrow> (client_world, client_wait, client_answer, client_exn) env \<Rightarrow> bool" where
  "leads_to V env \<longleftrightarrow>
     (\<forall>w s. snd (env w s) \<noteq> Inl Client_fuel) \<and>
     (\<forall>c q s r loc u. snd (env (W_request c q) s) = Inr (C_response r) \<longrightarrow> rs_location r = Some loc \<longrightarrow>
        urljoin (rq_url q) loc = Some u \<longrightarrow> u \<in> V)"

definition fuelled :: "(client_world, client_wait, client_answer, client_exn) env \<Rightarrow> 'a client_proc \<Rightarrow> bool" where
  "fuelled env p \<longleftrightarrow> (\<forall>s. snd (run p env s) \<noteq> Inl Client_fuel)"

lemma fuelled_Ret: "fuelled env (Ret a)" and fuelled_reading: "fuelled env (reading f)" and fuelled_act: "fuelled env (act g)"
  by (simp_all add: fuelled_def run_simps)

lemma fuelled_Raise: "e \<noteq> Client_fuel \<Longrightarrow> fuelled env (Raise e)"
  by (simp add: fuelled_def)

lemma fuelled_bind: "fuelled env p \<Longrightarrow> (\<And>a. fuelled env (f a)) \<Longrightarrow> fuelled env (bind p f)"
  by (auto simp: fuelled_def run_bind split: prod.split sum.split) (metis snd_conv)

lemma fuelled_seq: "fuelled env p \<Longrightarrow> fuelled env q \<Longrightarrow> fuelled env (seq p q)"
  unfolding seq_def by (rule fuelled_bind)

lemma fuelled_if: "(b \<Longrightarrow> fuelled env p) \<Longrightarrow> (\<not> b \<Longrightarrow> fuelled env q) \<Longrightarrow> fuelled env (if b then p else q)"
  by simp

lemma fuelled_catch: "fuelled env p \<Longrightarrow> (\<And>e. e \<noteq> Client_fuel \<Longrightarrow> fuelled env (h e)) \<Longrightarrow> fuelled env (catch p h)"
  by (auto simp: fuelled_def run_catch split: prod.split sum.split) (metis snd_conv)

lemma fuelled_await: "leads_to V env \<Longrightarrow> fuelled env (await w)"
  by (simp add: fuelled_def leads_to_def run_await)

lemma fuelled_raise_new: "fuelled env (raise_new f)"
  unfolding raise_new_def by (intro fuelled_bind fuelled_reading fuelled_Raise) simp

lemma fuelled_or_raise: "e \<noteq> Client_fuel \<Longrightarrow> fuelled env (or_raise_client e x)"
  by (auto simp: or_raise_client_def intro: fuelled_Ret fuelled_Raise split: option.split)

lemma fuelled_hub: "leads_to V env \<Longrightarrow> fuelled env hub_base_url"
  unfolding hub_base_url_def
  by (intro fuelled_bind fuelled_await) (auto split: client_answer.split option.split intro: fuelled_Ret fuelled_Raise fuelled_raise_new)

lemma fuelled_check: "leads_to V env \<Longrightarrow> fuelled env (check_redirect cfg c url b)"
  unfolding check_redirect_def by (intro fuelled_bind fuelled_hub fuelled_if fuelled_Ret fuelled_reading fuelled_raise_new)

lemma fuelled_status: "fuelled env (client_raise_for_status r)"
  unfolding client_raise_for_status_def by (intro fuelled_if fuelled_Ret fuelled_Raise) simp

lemma fuelled_extract: "fuelled env (extract_xsrf r c b)"
  by (simp add: extract_xsrf_def fuelled_act)

text \<open>After a request, its answer is known.\<close>

definition answered_from :: "string \<Rightarrow> string set \<Rightarrow> client_response \<Rightarrow> bool" where
  "answered_from url V r \<longleftrightarrow> (\<forall>loc u. rs_location r = Some loc \<longrightarrow> urljoin url loc = Some u \<longrightarrow> u \<in> V)"

lemma fuelled_request:
  assumes "leads_to V env" and "\<And>r. answered_from (rq_url q) V r \<Longrightarrow> fuelled env (f r)"
  shows "fuelled env (bind (client_http c q) f)"
  unfolding fuelled_def
proof
  fix s
  obtain s1 r where env: "env (W_request c q) (sent q s) = (s1, r)" by (cases "env (W_request c q) (sent q s)")
  show "snd (run (bind (client_http c q) f) env s) \<noteq> Inl Client_fuel"
  proof (cases r)
    case (Inl e)
    then show ?thesis using env assms(1) by (simp add: client_http_def run_simps) (metis leads_to_def snd_conv)
  next
    case (Inr a)
    show ?thesis
    proof (cases a)
      case (C_response x)
      have "answered_from (rq_url q) V x"
        using assms(1) env Inr C_response unfolding leads_to_def answered_from_def by (metis snd_conv)
      with assms(2) have "fuelled env (f x)" .
      then show ?thesis using env Inr C_response by (simp add: client_http_def run_simps fuelled_def)
    qed (use env Inr in \<open>simp_all add: client_http_def run_simps\<close>)
  qed
qed

lemma fuelled_maybe: "e \<noteq> Client_fuel \<Longrightarrow> (\<And>y. x = Some y \<Longrightarrow> fuelled env (f y)) \<Longrightarrow> fuelled env (bind (or_raise_client e x) f)"
  by (cases x) (simp_all add: or_raise_client_def fuelled_Raise)

text \<open>The check of the visits is passed only with visits left.\<close>

lemma fuelled_seen:
  assumes "finite V" and "u \<in> V" and "visits_left V (u # seen) < visits_left V seen \<Longrightarrow> fuelled env q"
  shows "fuelled env (seq (seen_check cfg u seen) q)"
  using assms visits_left_step [OF assms(1,2)]
  by (cases "1 < count_list seen u") (simp_all add: seen_check_def seq_def fuelled_raise_new raise_new_def fuelled_def run_simps)

lemma fuelled_follow:
  assumes "leads_to V env" and "finite V"
  shows "visits_left V seen < n \<Longrightarrow> answered_from url V r \<Longrightarrow> fuelled env (follow_redirects n cfg c h url seen r)"
proof (induction n arbitrary: url seen r)
  case (Suc n)
  show ?case
    unfolding follow_redirects.simps
    by (intro fuelled_if fuelled_seq [OF fuelled_extract] fuelled_maybe fuelled_seq [OF fuelled_check [OF assms(1)]]
        fuelled_seen [OF assms(2)] fuelled_request [OF assms(1)] fuelled_seq [OF fuelled_status] fuelled_Ret Suc.IH)
      (use Suc.prems in \<open>auto simp: answered_from_def\<close>)
qed simp

lemma fuelled_lab_redirects:
  assumes "leads_to V env" and "finite V"
  shows "visits_left V seen < n \<Longrightarrow> answered_from url V r \<Longrightarrow> fuelled env (lab_redirects n cfg c h b url seen r)"
proof (induction n arbitrary: b url seen r)
  case (Suc n)
  show ?case
    unfolding lab_redirects.simps
    by (intro fuelled_if fuelled_seq [OF fuelled_extract] fuelled_maybe fuelled_seq [OF fuelled_check [OF assms(1)]]
        fuelled_seen [OF assms(2)] fuelled_request [OF assms(1)] fuelled_seq [OF fuelled_status] fuelled_Ret Suc.IH)
      (use Suc.prems in \<open>auto simp: answered_from_def\<close>)
qed simp

lemma fuelled_headers: "leads_to V env \<Longrightarrow> fuelled env (headers_for_route cfg c route b mode)"
  unfolding headers_for_route_def by (intro fuelled_bind fuelled_reading fuelled_if fuelled_hub fuelled_Ret)

lemma fuelled_find:
  assumes "leads_to V env" and "finite V" and "2 * card V < cc_redirects cfg"
  shows "fuelled env (find_lab_base_url cfg c)"
proof -
  have "visits_left V seen < cc_redirects cfg" for seen using visits_left_le [of V seen] assms(3) by simp
  then show ?thesis
    unfolding find_lab_base_url_def Let_def
    by (intro fuelled_bind [OF fuelled_hub] fuelled_bind [OF fuelled_headers] fuelled_request fuelled_lab_redirects) (use assms in auto)
qed

lemma fuelled_url:
  assumes "leads_to V env" and "finite V" and "2 * card V < cc_redirects cfg"
  shows "fuelled env (url_for_route cfg c route)"
  unfolding url_for_route_def
  by (intro fuelled_if fuelled_bind [OF fuelled_reading] fuelled_bind [OF fuelled_hub [OF assms(1)]] fuelled_Ret)
    (auto intro!: fuelled_Ret fuelled_bind [OF fuelled_find [OF assms]] fuelled_seq fuelled_act split: option.split)

lemma fuelled_get_following:
  assumes "leads_to V env" and "finite V" and "2 * card V < cc_redirects cfg"
  shows "fuelled env (get_url_following cfg c url h)"
proof -
  have "visits_left V seen < cc_redirects cfg" for seen using visits_left_le [of V seen] assms(3) by simp
  then show ?thesis
    unfolding get_url_following_def by (intro fuelled_request fuelled_follow) (use assms in auto)
qed

lemma fuelled_convert: "fuelled env p \<Longrightarrow> fuelled env (convert_http cfg p)"
  unfolding convert_http_def
  by (intro fuelled_bind [OF fuelled_reading] fuelled_catch)
    (auto split: client_exn.split intro: fuelled_raise_new fuelled_Raise)

text \<open>C13: Requests of the client end when redirects lead to finitely many URLs: no URL is
  followed more than twice, so the fuel of the loops is not used up.\<close>

theorem redirects_end:
  assumes "leads_to V env" and "finite V" and "2 * card V < cc_redirects cfg"
    and "p = jc_get cfg c route b mode \<or> p = jc_post cfg c route body params t extra"
  shows "snd (run p env s) \<noteq> Inl Client_fuel"
proof -
  note f = fuelled_url [OF assms(1-3)] fuelled_headers [OF assms(1)] fuelled_get_following [OF assms(1-3)]
  have "fuelled env (jc_get cfg c route b mode)"
    unfolding jc_get_def by (intro fuelled_convert fuelled_bind f)
  moreover have "fuelled env (jc_post cfg c route body params t extra)"
    unfolding jc_post_def Let_def
    by (intro fuelled_convert fuelled_bind [OF f(1)] fuelled_bind [OF f(2)] fuelled_request [OF assms(1)] fuelled_if fuelled_maybe
        fuelled_seq [OF fuelled_check [OF assms(1)]] f fuelled_seq [OF fuelled_status] fuelled_Ret) simp_all
  ultimately show ?thesis using assms(4) by (auto simp: fuelled_def)
qed

section \<open>Repeated redirects\<close>

definition knows_hub :: "string \<Rightarrow> (client_world, client_wait, client_answer, client_exn) env \<Rightarrow> bool" where
  "knows_hub hub env \<longleftrightarrow> (\<forall>s. \<exists>u. u \<noteq> [] \<and> rstrip_slash u = hub \<and> snd (env W_discover s) = Inr (C_text (Some u)))"

lemma alone_clients: "alone hub env \<Longrightarrow> cw_clients (fst (env w s)) = cw_clients s"
  and alone_sent: "alone hub env \<Longrightarrow> cw_sent (fst (env w s)) = cw_sent s"
  by (simp_all add: alone_def)

lemma run_hub:
  assumes "knows_hub hub env"
  shows "run hub_base_url env s = (fst (env W_discover s), Inr hub)"
proof -
  obtain u where u: "u \<noteq> []" "rstrip_slash u = hub" "snd (env W_discover s) = Inr (C_text (Some u))"
    using assms by (auto simp: knows_hub_def)
  then show ?thesis by (cases "env W_discover s") (simp add: hub_base_url_def run_simps)
qed

lemma run_check_hub:
  "knows_hub hub env \<Longrightarrow> prefix hub url \<Longrightarrow> run (check_redirect cfg c url b) env s = (fst (env W_discover s), Inr ())"
  by (simp add: check_redirect_def run_bind run_hub)

lemma run_client_http:
  assumes "snd (env (W_request c q) (sent q s)) = Inr (C_response r)"
  shows "run (client_http c q) env s = (fst (env (W_request c q) (sent q s)), Inr r)"
  using assms by (cases "env (W_request c q) (sent q s)") (simp add: client_http_def run_simps)

lemma sent_store_xsrf [simp]: "cw_sent (store_xsrf r c b s) = cw_sent s"
  by (simp add: store_xsrf_def upd_client_def Let_def split: option.split)

lemma run_headers: "run (headers_for_route cfg c route False mode) env s = (s, Inr (headers_with cfg c route mode s))"
  by (simp add: headers_for_route_def run_simps)

text \<open>A server that answers every request for \<open>url\<close> with a redirect to \<open>url\<close>.\<close>

definition redirects_to_itself :: "string \<Rightarrow> (client_world, client_wait, client_answer, client_exn) env \<Rightarrow> bool" where
  "redirects_to_itself url env \<longleftrightarrow>
     (\<forall>c q s. rq_url q = url \<longrightarrow>
        (\<exists>r. snd (env (W_request c q) s) = Inr (C_response r) \<and> is_redirect r \<and> rs_location r = Some url))"

text \<open>One redirect that is followed.\<close>

lemma follow_step:
  assumes "knows_hub hub env" and "prefix hub url'" and "urljoin url loc = Some url'" and "is_redirect r"
    and "rs_location r = Some loc" and "\<not> 1 < count_list seen url'"
    and "s0 = fst (env W_discover (store_xsrf r c None s))"
    and "snd (env (W_request c (get_request url' h)) (sent (get_request url' h) s0)) = Inr (C_response r')"
  shows "run (follow_redirects (Suc n) cfg c h url seen r) env s =
     run (follow_redirects n cfg c h url' (url' # seen) r') env
       (fst (env (W_request c (get_request url' h)) (sent (get_request url' h) s0)))"
proof -
  have h: "run (client_http c (get_request url' h)) env s0 =
      (fst (env (W_request c (get_request url' h)) (sent (get_request url' h) s0)), Inr r')"
    using assms(8) by (rule run_client_http)
  show ?thesis
    using assms(3-7) h
    by (simp add: run_simps or_raise_client_def extract_xsrf_def run_check_hub [OF assms(1,2)] seen_check_def del: bind.simps)
qed

lemma self_redirect_step:
  assumes "alone hub env" and "knows_hub hub env" and "prefix hub url" and "urljoin url url = Some url"
    and "redirects_to_itself url env" and "is_redirect r" and "rs_location r = Some url" and "\<not> 1 < count_list seen url"
  shows "\<exists>s1 r'. run (follow_redirects (Suc n) cfg c h url seen r) env s = run (follow_redirects n cfg c h url (url # seen) r') env s1 \<and>
     is_redirect r' \<and> rs_location r' = Some url \<and> cw_sent s1 = cw_sent s @ [get_request url h]"
proof -
  define s0 where "s0 = fst (env W_discover (store_xsrf r c None s))"
  obtain r' where r': "snd (env (W_request c (get_request url h)) (sent (get_request url h) s0)) = Inr (C_response r')"
    "is_redirect r'" "rs_location r' = Some url"
    using assms(5) unfolding redirects_to_itself_def by (metis url_get_request)
  have "cw_sent (fst (env (W_request c (get_request url h)) (sent (get_request url h) s0))) = cw_sent s @ [get_request url h]"
    by (simp add: alone_sent [OF assms(1)] sent_def s0_def)
  with follow_step [OF assms(2,3,4,6,7,8) s0_def r'(1)] r' show ?thesis by blast
qed

theorem initial_url_thrice:
  assumes "alone hub env" and "knows_hub hub env" and "prefix hub url" and "urljoin url url = Some url"
    and "redirects_to_itself url env" and "2 \<le> length url" and "3 \<le> cc_redirects cfg"
  shows "\<exists>s' e. run (get_url_following cfg c url h) env s = (s', Inl (Nublado e)) \<and>
     ne_kind e = Redirect_failed (sanitize_url (ef_sub (cc_format cfg)) (Some url)) \<and>
     cw_sent s' = cw_sent s @ replicate 3 (get_request url h)"
proof -
  define q where "q = get_request url h"
  obtain n where n: "cc_redirects cfg = Suc (Suc (Suc n))"
    using assms(7) that [of "cc_redirects cfg - 3"] by simp
  obtain r where r: "snd (env (W_request c q) (sent q s)) = Inr (C_response r)" "is_redirect r" "rs_location r = Some url"
    using assms(5) unfolding redirects_to_itself_def q_def by (metis url_get_request)
  have zero: "count_list (seen_at_first url) url = 0"
    using assms(6) by (auto simp: seen_at_first_def count_list_0_iff)
  let ?f = "follow_redirects"
  note step = self_redirect_step [OF assms(1-5)]
  obtain s1 r1 where 1: "run (?f (Suc (Suc (Suc n))) cfg c h url (seen_at_first url) r) env (fst (env (W_request c q) (sent q s))) =
      run (?f (Suc (Suc n)) cfg c h url (url # seen_at_first url) r1) env s1"
    "is_redirect r1" "rs_location r1 = Some url" "cw_sent s1 = cw_sent (fst (env (W_request c q) (sent q s))) @ [q]"
    using step [OF r(2,3), of "seen_at_first url" "Suc (Suc n)" cfg c h "fst (env (W_request c q) (sent q s))"] zero
    unfolding q_def by auto
  obtain s2 r2 where 2: "run (?f (Suc (Suc n)) cfg c h url (url # seen_at_first url) r1) env s1 =
      run (?f (Suc n) cfg c h url (url # url # seen_at_first url) r2) env s2"
    "is_redirect r2" "rs_location r2 = Some url" "cw_sent s2 = cw_sent s1 @ [q]"
    using step [OF 1(2,3), of "url # seen_at_first url" "Suc n" cfg c h s1] zero unfolding q_def by auto
  have "run (?f (Suc n) cfg c h url (url # url # seen_at_first url) r2) env s2 =
      (let s3 = fst (env W_discover (store_xsrf r2 c None s2))
       in (s3, Inl (Nublado (redirect_error (cc_format cfg) (cw_clock s3) ''Redirect loop'' url))))"
    using 2(2,3) assms(4) zero
    by (simp add: run_simps or_raise_client_def extract_xsrf_def run_check_hub [OF assms(2,3)] seen_check_def raise_new_def Let_def
        del: bind.simps)
  moreover have "run (get_url_following cfg c url h) env s =
      run (?f (Suc (Suc (Suc n))) cfg c h url (seen_at_first url) r) env (fst (env (W_request c q) (sent q s)))"
    by (simp add: get_url_following_def run_bind q_def [symmetric] run_client_http [of env c q s r, OF r(1)] n del: follow_redirects.simps)
  moreover have "cw_sent (fst (env W_discover (store_xsrf r2 c None s2))) = cw_sent s @ [q, q, q]"
    using 1(4) 2(4) by (simp add: alone_sent [OF assms(1)] sent_def)
  ultimately show ?thesis
    using 1(1) 2(1) by (auto simp: Let_def q_def redirect_error_def new_error_def numeral_3_eq_3)
qed

section \<open>Tokens against request forgery\<close>

theorem lab_token_taken_for_hub:
  assumes "alone hub env" and "knows_hub hub env"
    and "present (jc_lab_base_url (cw_clients s c)) = None"
    and "\<And>q s. rq_url q = hub @ ''/user/'' @ cc_user cfg @ ''/lab'' \<Longrightarrow> snd (env (W_request c q) s) = Inr (C_response r)"
    and "rs_status r = 200" and "rs_xsrf r = Some x" and "x \<noteq> []" and "0 < cc_redirects cfg"
  shows "\<exists>s'. run (url_for_route cfg c (''user/'' @ route)) env s = (s', Inr (hub @ ''/user/'' @ route)) \<and>
     jc_hub_xsrf (cw_clients s' c) = Some x \<and> jc_lab_xsrf (cw_clients s' c) = jc_lab_xsrf (cw_clients s c) \<and>
     jc_lab_base_url (cw_clients s' c) = Some hub"
proof -
  define rt where "rt = ''user/'' @ cc_user cfg @ ''/lab''"
  define s1 where "s1 = fst (env W_discover s)"
  define q where "q = get_request (hub @ ''/'' @ rt) (headers_with cfg c rt ''navigate'' s1)"
  define s2 where "s2 = fst (env (W_request c q) (sent q s1))"
  have r: "run (client_http c q) env s1 = (s2, Inr r)"
    using run_client_http [of env c q s1 r] assms(4) [of q] by (simp add: s2_def q_def rt_def)
  obtain n where n: "cc_redirects cfg = Suc n" using assms(8) by (cases "cc_redirects cfg") auto
  have c2: "cw_clients s2 = cw_clients s"
    by (simp add: s2_def s1_def sent_def alone_clients [OF assms(1)])
  have x: "store_xsrf r c None s2 = upd_client c (\<lambda>j. j\<lparr>jc_hub_xsrf := Some x\<rparr>) s2"
    using assms(3,6,7) by (simp add: store_xsrf_def lab_base_of_def present_def c2 Let_def split: option.splits if_splits)
  have "run (find_lab_base_url cfg c) env s =
      run (bind (client_http c q) (lab_redirects (Suc n) cfg c (headers_with cfg c rt ''navigate'' s1) hub (hub @ ''/'' @ rt)
        (seen_at_first (hub @ ''/'' @ rt)))) env s1"
    unfolding find_lab_base_url_def Let_def run_bind run_hub [OF assms(2)] prod.case sum.case run_headers s1_def q_def rt_def n ..
  also have "\<dots> = (store_xsrf r c None s2, Inr hub)"
    using assms(5) by (simp add: run_simps r is_redirect_def client_raise_for_status_def extract_xsrf_def)
  finally show ?thesis
    using assms(3) by (simp add: url_for_route_def run_simps x upd_client_def c2)
qed

section \<open>Hosts that begin like that of JupyterHub\<close>

text \<open>C23: A redirect to a host whose name only begins like that of JupyterHub is followed,
  and the token of the user is sent there.\<close>

theorem token_sent_to_other_host:
  assumes "alone hub env" and "knows_hub hub env" and "\<not> prefix ''user/'' route"
    and "\<And>q s. rq_url q = hub @ ''/'' @ route \<Longrightarrow> snd (env (W_request c q) s) = Inr (C_response r)"
    and "is_redirect r" and "rs_location r = Some (hub @ rest)"
    and "urljoin (hub @ ''/'' @ route) (hub @ rest) = Some (hub @ rest)"
    and "\<And>q s. rq_url q = hub @ rest \<Longrightarrow> snd (env (W_request c q) s) = Inr (C_response r')"
    and "rs_status r' = 200" and "2 \<le> length (hub @ rest)" and "2 \<le> cc_redirects cfg"
  shows "\<exists>s' q. run (jc_get cfg c route b mode) env s = (s', Inr r') \<and> q \<in> set (cw_sent s') \<and> rq_url q = hub @ rest \<and>
     map_of (rq_headers q) ''Authorization'' = Some (''Bearer '' @ cc_token cfg)"
proof -
  define url where "url = hub @ ''/'' @ route"
  define url' where "url' = hub @ rest"
  define s1 where "s1 = fst (env W_discover s)"
  define h where "h = headers_with cfg c route mode s1"
  define q where "q = get_request url h"
  define s2 where "s2 = fst (env (W_request c q) (sent q s1))"
  define s3 where "s3 = fst (env W_discover (store_xsrf r c None s2))"
  define q' where "q' = get_request url' h"
  define s4 where "s4 = fst (env (W_request c q') (sent q' s3))"
  obtain n where n: "cc_redirects cfg = Suc (Suc n)"
    using assms(11) that [of "cc_redirects cfg - 2"] by simp
  have r: "run (client_http c q) env s1 = (s2, Inr r)"
    unfolding s2_def by (rule run_client_http) (simp add: assms(4) q_def url_def)
  have a': "snd (env (W_request c (get_request url' h)) (sent (get_request url' h) s3)) = Inr (C_response r')"
    by (simp add: assms(8) url'_def)
  have "\<not> 1 < count_list (seen_at_first url) url'"
  proof -
    have "url' \<notin> set (seen_at_first url)" using assms(10) by (auto simp: seen_at_first_def url'_def dest: arg_cong [of _ _ length])
    then show ?thesis by simp
  qed
  with follow_step [OF assms(2) _ _ assms(5) _ _ s3_def a', of url "hub @ rest" "seen_at_first url" "Suc n" cfg]
  have "run (follow_redirects (Suc (Suc n)) cfg c h url (seen_at_first url) r) env s2 =
      run (follow_redirects (Suc n) cfg c h url' (url' # seen_at_first url) r') env s4"
    using assms(6,7) by (simp add: url'_def url_def s4_def q'_def)
  also have "\<dots> = (store_xsrf r' c None s4, Inr r')"
    using assms(9) by (simp add: run_simps is_redirect_def client_raise_for_status_def extract_xsrf_def)
  finally have "run (get_url_following cfg c url h) env s1 = (store_xsrf r' c None s4, Inr r')"
    using r by (simp add: get_url_following_def run_bind q_def [symmetric] n del: follow_redirects.simps)
  moreover have "run (url_for_route cfg c route) env s = (s1, Inr url)"
    using assms(3) by (simp add: url_for_route_def run_simps run_hub [OF assms(2)] s1_def url_def)
  ultimately have "run (jc_get cfg c route b mode) env s = (store_xsrf r' c None s4, Inr r')"
    by (simp add: jc_get_def convert_http_def run_bind run_reading run_catch run_headers h_def)
  moreover have "q' \<in> set (cw_sent (store_xsrf r' c None s4))"
    by (simp add: s4_def alone_sent [OF assms(1)] sent_def)
  moreover have "map_of (rq_headers q') ''Authorization'' = Some (''Bearer '' @ cc_token cfg)"
    by (simp add: q'_def get_request_def h_def headers_with_def)
  ultimately show ?thesis unfolding q'_def url'_def by (metis url_get_request)
qed

section \<open>Examples\<close>

text \<open>A world in which requests are answered by URL.\<close>

definition hub_example :: string where
  "hub_example = ''https://nb.example.org''"

definition web :: "(string \<Rightarrow> client_response) \<Rightarrow> (client_world, client_wait, client_answer, client_exn) env" where
  "web pages w s = (s\<lparr>cw_clock := cw_clock s + 1\<rparr>,
     case w of W_discover \<Rightarrow> Inr (C_text (Some hub_example)) | W_request _ q \<Rightarrow> Inr (C_response (pages (rq_url q))) | _ \<Rightarrow> Inr C_none)"

lemma alone_web: "alone hub_example (web pages)"
  by (simp add: alone_def web_def hub_example_def rstrip_slash_def)

lemma knows_hub_web: "knows_hub hub_example (web pages)"
  by (simp add: knows_hub_def web_def hub_example_def rstrip_slash_def)

lemma web_request: "snd (web pages (W_request c q) s) = Inr (C_response (pages (rq_url q)))"
  by (simp add: web_def)

lemma run_http_web: "run (client_http c q) (web pages) s = (fst (web pages (W_request c q) (sent q s)), Inr (pages (rq_url q)))"
  by (rule run_client_http) (rule web_request)

definition no_failure :: http_failure where
  "no_failure = \<lparr>hf_message = [], hf_method = None, hf_url = None, hf_status = None, hf_body = None\<rparr>"

definition page :: "nat \<Rightarrow> string option \<Rightarrow> string \<Rightarrow> client_response" where
  "page status loc url = \<lparr>rs_status = status, rs_url = url, rs_location = loc, rs_xsrf = Some ''x1'', rs_json = None,
     rs_failure = no_failure\<rparr>"

definition format_example :: error_format where
  "format_example = \<lparr>ef_time = (\<lambda>_. []), ef_seconds = (\<lambda>_. []), ef_sub = (\<lambda>_ _ s. s),
     ef_sentry = (\<lambda>_. \<lparr>si_tags = [], si_contexts = [], si_attachments = []\<rparr>),
     ef_web_sentry = (\<lambda>_. \<lparr>si_tags = [], si_contexts = [], si_attachments = []\<rparr>)\<rparr>"

definition client_example :: client_config where
  "client_example = \<lparr>cc_user = ''rachel'', cc_token = ''gt-secret'', cc_format = format_example, cc_redirects = 10, cc_timeout = 30\<rparr>"

definition world_example :: client_world where
  "world_example = \<lparr>cw_clock = 0, cw_clients = (\<lambda>_. new_client), cw_current = 0, cw_next = 1,
     cw_managers = (\<lambda>_. \<lparr>sm_session_id = J_null, sm_session = False\<rparr>), cw_sent = []\<rparr>"


definition login_pages :: "string \<Rightarrow> client_response" where
  "login_pages url = (if url = hub_example @ ''/hub/home'' then page 302 (Some ''/hub/login'') url else page 200 None url)"

lemma redirects_end_witness:
  "snd (run (jc_get client_example 0 ''hub/home'' False ''navigate'') (web login_pages) world_example) \<noteq> Inl Client_fuel"
proof (rule redirects_end [OF _ _ _ disjI1 [OF refl]])
  have "urljoin (hub_example @ ''/hub/home'') ''/hub/login'' = Some (hub_example @ ''/hub/login'')" by code_simp
  then show "leads_to {hub_example @ ''/hub/login''} (web login_pages)"
    by (auto simp: leads_to_def web_def login_pages_def page_def split: client_wait.split if_splits)
qed (simp_all add: client_example_def)

lemma initial_url_thrice_witness:
  "\<exists>s' e. run (get_url_following client_example 0 (hub_example @ ''/hub/home'') []) (web (\<lambda>u. page 302 (Some u) u)) world_example
       = (s', Inl (Nublado e)) \<and>
     ne_kind e = Redirect_failed (hub_example @ ''/hub/home'') \<and>
     cw_sent s' = replicate 3 (get_request (hub_example @ ''/hub/home'') [])"
proof -
  have j: "urljoin (hub_example @ ''/hub/home'') (hub_example @ ''/hub/home'') = Some (hub_example @ ''/hub/home'')" by code_simp
  have s: "sanitize_url (ef_sub (cc_format client_example)) (Some (hub_example @ ''/hub/home'')) = hub_example @ ''/hub/home''"
    by code_simp
  show ?thesis
    using initial_url_thrice [OF alone_web knows_hub_web _ j, of "\<lambda>u. page 302 (Some u) u" client_example 0 "[]" world_example]
    unfolding s
    by (simp add: redirects_to_itself_def web_request page_def is_redirect_def client_example_def world_example_def hub_example_def)
qed

lemma lab_token_taken_for_hub_witness:
  "\<exists>s'. run (url_for_route client_example 0 ''user/rachel/api/sessions'') (web (page 200 None)) world_example =
       (s', Inr (hub_example @ ''/user/rachel/api/sessions'')) \<and>
     jc_hub_xsrf (cw_clients s' 0) = Some ''x1'' \<and> jc_lab_xsrf (cw_clients s' 0) = None"
  using lab_token_taken_for_hub [OF alone_web knows_hub_web, of world_example 0 client_example "page 200 None"
      "page 200 None (hub_example @ ''/user/rachel/lab'')" "''x1''" "''rachel/api/sessions''"]
  by (auto simp: web_request page_def client_example_def world_example_def new_client_def present_def)

definition evil_pages :: "string \<Rightarrow> client_response" where
  "evil_pages url = (if url = hub_example @ ''/hub/home'' then page 302 (Some (hub_example @ ''.evil.net/'')) url else page 200 None url)"

lemma token_sent_to_other_host_witness:
  "\<exists>s' q. run (jc_get client_example 0 ''hub/home'' False ''navigate'') (web evil_pages) world_example =
       (s', Inr (page 200 None ''https://nb.example.org.evil.net/'')) \<and>
     q \<in> set (cw_sent s') \<and> rq_url q = ''https://nb.example.org.evil.net/'' \<and>
     map_of (rq_headers q) ''Authorization'' = Some ''Bearer gt-secret''"
proof -
  have j: "urljoin (hub_example @ ''/'' @ ''hub/home'') (hub_example @ ''.evil.net/'') = Some (hub_example @ ''.evil.net/'')" by code_simp
  have u: "hub_example @ ''.evil.net/'' = ''https://nb.example.org.evil.net/''" by (simp add: hub_example_def)
  have t: "''Bearer '' @ cc_token client_example = ''Bearer gt-secret''" by (simp add: client_example_def)
  have "\<exists>s' q. run (jc_get client_example 0 ''hub/home'' False ''navigate'') (web evil_pages) world_example =
       (s', Inr (page 200 None (hub_example @ ''.evil.net/''))) \<and>
     q \<in> set (cw_sent s') \<and> rq_url q = hub_example @ ''.evil.net/'' \<and>
     map_of (rq_headers q) ''Authorization'' = Some (''Bearer '' @ cc_token client_example)"
    by (rule token_sent_to_other_host [OF alone_web knows_hub_web _ _ _ _ j,
          where r = "page 302 (Some (hub_example @ ''.evil.net/'')) (hub_example @ ''/hub/home'')"])
      (simp_all add: web_request evil_pages_def page_def is_redirect_def client_example_def hub_example_def)
  then show ?thesis unfolding u t .
qed

end
