(* ===== verification/Session_Laws.thy ===== *)
theory Session_Laws
  imports Client_Laws
begin

text \<open>What comes out of running code in a lab session, and of waiting for a spawn.\<close>

section \<open>Output of code\<close>

text \<open>The outputs among messages, their text, and whether they complete the run.\<close>

definition outputs :: "session_config \<Rightarrow> string \<Rightarrow> socket_message list \<Rightarrow> jupyter_output list" where
  "outputs sc message_id ms =
     concat (map (\<lambda>m. case parse_message sc m message_id of Inr (Output x) \<Rightarrow> [x] | _ \<Rightarrow> []) ms)"

definition output_text :: "jupyter_output \<Rightarrow> string" where
  "output_text x = (case jo_content x of J_text t \<Rightarrow> t | _ \<Rightarrow> [])"

definition all_text :: "jupyter_output list \<Rightarrow> string" where
  "all_text xs = concat (map output_text xs)"

definition finished :: "jupyter_output list \<Rightarrow> bool" where
  "finished xs \<longleftrightarrow> (\<exists>x \<in> set xs. jo_done x) \<and> (\<exists>x \<in> set xs. jo_idle x)"

text \<open>
  What a message stops the reading with: an error that the kernel reports, or an output that is no text,
  which cannot be appended to the others.
\<close>

definition stopped_by :: "session_config \<Rightarrow> string \<Rightarrow> datetime \<Rightarrow> socket_message \<Rightarrow> client_exn option" where
  "stopped_by sc message_id now m =
     (case parse_message sc m message_id of
        Inr (Kernel_error st tb) \<Rightarrow>
          Some (Nublado (execution_error now (cc_user (ss_client sc)) tb (if st = J_null then None else Some (json_str sc st))))
      | Inr (Output x) \<Rightarrow> (case jo_content x of J_text t \<Rightarrow> None | _ \<Rightarrow> Some Py_type)
      | _ \<Rightarrow> None)"

text \<open>The error that \<open>run_python\<close> makes of it: that of the kernel gets the code, its context and the time.\<close>

definition with_code :: "string \<Rightarrow> code_context option \<Rightarrow> datetime \<Rightarrow> client_exn \<Rightarrow> client_exn" where
  "with_code code cx start e =
     (case e of Nublado x \<Rightarrow> Nublado (set_context cx ((set_code code x)\<lparr>ne_started_at := Some start\<rparr>)) | _ \<Rightarrow> e)"

text \<open>The messages \<open>ms\<close> arrive in turn, the one at each time of the clock, and then the connection ends.\<close>

definition delivers :: "socket_message list \<Rightarrow> (client_world, client_wait, client_answer, client_exn) env \<Rightarrow> bool" where
  "delivers ms env \<longleftrightarrow>
     (\<forall>s i. cw_clock s = int i \<longrightarrow>
        env W_socket_next s = (s\<lparr>cw_clock := int (Suc i)\<rparr>, Inr (C_message (if i < length ms then Some (ms ! i) else None))))"

lemma outputs_Cons:
  "outputs sc mid (m # ms) = (case parse_message sc m mid of Inr (Output x) \<Rightarrow> [x] | _ \<Rightarrow> []) @ outputs sc mid ms"
  by (simp add: outputs_def)

lemma outputs_Nil [simp]: "outputs sc mid [] = []"
  by (simp add: outputs_def)

definition flags_set :: "bool \<Rightarrow> bool \<Rightarrow> jupyter_output list \<Rightarrow> bool" where
  "flags_set c d xs \<longleftrightarrow> (c \<or> (\<exists>x \<in> set xs. jo_done x)) \<and> (d \<or> (\<exists>x \<in> set xs. jo_idle x))"

lemma flags_set_simps [simp]: "flags_set c d [] = (c \<and> d)"
  "flags_set c d (x # xs) = flags_set (c \<or> jo_done x) (d \<or> jo_idle x) xs"
  by (auto simp: flags_set_def)

lemma run_next:
  "delivers ms env \<Longrightarrow> cw_clock s = int i \<Longrightarrow>
   run next_message env s = (s\<lparr>cw_clock := int (Suc i)\<rparr>, Inr (if i < length ms then Some (ms ! i) else None))"
  by (simp add: next_message_def run_simps delivers_def)

lemma read_result_from:
  assumes "delivers ms env"
  shows "drop i ms = rest \<Longrightarrow> cw_clock s = int i \<Longrightarrow> length rest < n \<Longrightarrow> \<not> (c \<and> d) \<Longrightarrow>
    \<exists>k \<le> length rest. (\<forall>j < k. stopped_by sc mid (int (Suc (i + j))) (rest ! j) = None \<and>
          \<not> flags_set c d (outputs sc mid (take j rest))) \<and>
      (if k = length rest \<or> flags_set c d (outputs sc mid (take k rest))
       then snd (run (read_result n sc mid out c d) env s) = Inr (out @ all_text (outputs sc mid (take k rest)))
       else \<exists>e. stopped_by sc mid (int (Suc (i + k))) (rest ! k) = Some e \<and>
         snd (run (read_result n sc mid out c d) env s) = Inl e)"
proof (induction rest arbitrary: i s n out c d)
  case Nil
  obtain n' where "n = Suc n'" using Nil.prems(3) by (cases n) auto
  then show ?case using Nil.prems by (simp add: run_simps run_next [OF assms Nil.prems(2)] all_text_def)
next
  case (Cons m rest)
  obtain n' where n: "n = Suc n'" using Cons.prems(3) by (cases n) auto
  have i: "i < length ms" "ms ! i = m" "drop (Suc i) ms = rest"
    using Cons.prems(1) by (auto simp: drop_Suc tl_drop [symmetric] nth_via_drop) (metis drop_all list.distinct(1) not_le)
  define s1 where "s1 = s\<lparr>cw_clock := int (Suc i)\<rparr>"
  have s1: "cw_clock s1 = int (Suc i)" "length rest < n'" using Cons.prems(3) n by (simp_all add: s1_def)
  have nxt: "run next_message env s = (s1, Inr (Some m))" using run_next [OF assms Cons.prems(2)] i by (simp add: s1_def)
  let ?now = "int (Suc i)"
  show ?case
  proof (cases "stopped_by sc mid ?now m")
    case (Some e)
    have "snd (run (read_result n sc mid out c d) env s) = Inl e"
      using Some n nxt s1(1)
      by (auto simp: stopped_by_def run_simps raise_new_def split: sum.splits parsed.splits json.splits)
    then show ?thesis using Some Cons.prems(4) by (intro exI [of _ 0]) auto
  next
    case None
    define xs where "xs = (case parse_message sc m mid of Inr (Output x) \<Rightarrow> [x] | _ \<Rightarrow> [])"
    have o: "outputs sc mid (m # ys) = xs @ outputs sc mid ys" for ys
      by (simp add: xs_def outputs_Cons)
    define c' where "c' = (c \<or> (\<exists>x \<in> set xs. jo_done x))"
    define d' where "d' = (d \<or> (\<exists>x \<in> set xs. jo_idle x))"
    have f: "flags_set c d (xs @ ys) = flags_set c' d' ys" for ys by (auto simp: flags_set_def c'_def d'_def)
    have step: "run (read_result n sc mid out c d) env s =
        (if c' \<and> d' then (s1, Inr (out @ all_text xs)) else run (read_result n' sc mid (out @ all_text xs) c' d') env s1)"
      using None n nxt Cons.prems(4)
      by (auto simp: stopped_by_def run_simps xs_def c'_def d'_def all_text_def output_text_def
          split: sum.splits parsed.splits json.splits)
    show ?thesis
    proof (cases "c' \<and> d'")
      case True
      then have "flags_set c d xs" using f [of "[]"] by simp
      with True None Cons.prems(4) o [of "[]"] show ?thesis
        by (intro exI [of _ 1]) (simp add: step less_Suc_eq)
    next
      case False
      obtain k where k: "k \<le> length rest"
        "\<forall>j < k. stopped_by sc mid (int (Suc (Suc i + j))) (rest ! j) = None \<and> \<not> flags_set c' d' (outputs sc mid (take j rest))"
        "if k = length rest \<or> flags_set c' d' (outputs sc mid (take k rest))
         then snd (run (read_result n' sc mid (out @ all_text xs) c' d') env s1) =
           Inr ((out @ all_text xs) @ all_text (outputs sc mid (take k rest)))
         else \<exists>e. stopped_by sc mid (int (Suc (Suc i + k))) (rest ! k) = Some e \<and>
           snd (run (read_result n' sc mid (out @ all_text xs) c' d') env s1) = Inl e"
        using Cons.IH [OF i(3) s1 False, of "out @ all_text xs"] by blast
      have "stopped_by sc mid (int (Suc (i + j))) ((m # rest) ! j) = None \<and>
          \<not> flags_set c d (outputs sc mid (take j (m # rest)))" if "j < Suc k" for j
        using that k(2) None Cons.prems(4) o f by (cases j) simp_all
      moreover have "all_text (xs @ ys) = all_text xs @ all_text ys" for ys by (simp add: all_text_def)
      moreover have "run (read_result n sc mid out c d) env s = run (read_result n' sc mid (out @ all_text xs) c' d') env s1"
        using step False by auto
      ultimately show ?thesis
        using k(1,3) by (intro exI [of _ "Suc k"]) (simp add: o f split: if_splits)
    qed
  qed
qed

text \<open>C15: Running code, on a connection over which messages arrive in turn until it ends,
  gives the texts that the kernel sent in answer to this request, in order, up to the first
  message by which it has reported both that it is done and that it is idle, or up to the end of
  the connection. An error that the kernel reports before that, or an output that is no text, ends
  the run with an exception: that of the kernel carries the code, its context and the time of the
  start.\<close>

theorem run_python_output:
  assumes "delivers ms env" and "cw_clock s = 0" and "length ms < ss_messages sc"
    and "\<And>s. env W_new_id s = (s, Inr (C_text (Some mid)))" and "\<And>bs s. env (W_socket_send bs) s = (s, Inr C_none)"
    and "encode_websocket_message (ss_codec sc) (execute_request sc sid 0 mid code) \<noteq> None"
  shows "\<exists>k \<le> length ms.
    (\<forall>j < k. stopped_by sc mid (int (Suc j)) (ms ! j) = None \<and> \<not> finished (outputs sc mid (take j ms))) \<and>
    (if k = length ms \<or> finished (outputs sc mid (take k ms))
     then snd (run (run_python sc sid code cx None) env s) = Inr (all_text (outputs sc mid (take k ms)))
     else \<exists>e. stopped_by sc mid (int (Suc k)) (ms ! k) = Some e \<and>
       snd (run (run_python sc sid code cx None) env s) = Inl (with_code code cx 0 e))"
proof -
  obtain bs where bs: "encode_websocket_message (ss_codec sc) (execute_request sc sid 0 mid code) = Some bs" using assms(6) by auto
  have f: "flags_set False False xs = finished xs" for xs by (simp add: flags_set_def finished_def)
  obtain s' r where run: "run (read_result (ss_messages sc) sc mid [] False False) env s = (s', r)" by fastforce
  obtain k where k: "k \<le> length ms"
    "\<forall>j < k. stopped_by sc mid (int (Suc j)) (ms ! j) = None \<and> \<not> finished (outputs sc mid (take j ms))"
    "if k = length ms \<or> finished (outputs sc mid (take k ms)) then r = Inr (all_text (outputs sc mid (take k ms)))
     else \<exists>e. stopped_by sc mid (int (Suc k)) (ms ! k) = Some e \<and> r = Inl e"
    using read_result_from [OF assms(1), of 0 ms s "ss_messages sc" False False sc mid "[]"] assms(2,3)
    unfolding f run snd_conv append_Nil add_0 by auto
  have result: "snd (run (run_python sc sid code cx None) env s) =
      (case r of Inr t \<Rightarrow> Inr t | Inl e \<Rightarrow> Inl (with_code code cx 0 e))"
    if "\<And>e. r = Inl e \<Longrightarrow> stopped_by sc mid (int (Suc k)) (ms ! k) = Some e"
  proof (cases r)
    case (Inl e)
    then have "e = Py_type \<or> (\<exists>x. e = Nublado x \<and> is_execution_error x)"
      using that by (auto simp: stopped_by_def is_execution_error_def execution_error_def new_error_def
          split: sum.splits parsed.splits json.splits)
    with Inl run assms(2) show ?thesis
      by (auto simp: run_python_def run_simps new_id_def assms(4,5) or_raise_client_def bs within_def with_code_def)
  next
    case (Inr t)
    with run assms(2) show ?thesis
      by (simp add: run_python_def run_simps new_id_def assms(4,5) or_raise_client_def bs within_def)
  qed
  have "stopped_by sc mid (int (Suc k)) (ms ! k) = Some e" if "r = Inl e" for e
    using that k(3) by (auto split: if_splits)
  note result = result [OF this]
  from k show ?thesis
    by (intro exI [of _ k]) (auto simp: result split: if_splits)
qed

section \<open>Waiting for a spawn\<close>

text \<open>The events \<open>evs\<close> arrive in turn; the other answers take no time.\<close>

definition streams :: "string \<Rightarrow> json option list \<Rightarrow> (client_world, client_wait, client_answer, client_exn) env \<Rightarrow> bool" where
  "streams hub evs env \<longleftrightarrow>
     (\<forall>s. \<exists>u. u \<noteq> [] \<and> rstrip_slash u = hub \<and> env W_discover s = (s, Inr (C_text (Some u)))) \<and>
     (\<forall>s c u h. env (W_sse_open c u h) s = (s, Inr C_none)) \<and> (\<forall>s. env W_sse_close s = (s, Inr C_none)) \<and>
     (\<forall>s i. cw_clock s = int i \<longrightarrow>
        env W_sse_next s = (s\<lparr>cw_clock := int (Suc i)\<rparr>, Inr (C_event (if i < length evs then Some (evs ! i) else None))))"

fun progress_of :: "json option list \<Rightarrow> spawn_progress_message list" where
  "progress_of [] = []"
| "progress_of (e # evs) = (case parse_progress e of None \<Rightarrow> progress_of evs | Some m \<Rightarrow> m # progress_of evs)"

lemma case_spawn_step:
  "(case spawn_step log m of Inl y \<Rightarrow> f y | Inr b \<Rightarrow> g b) = (if truthy (pm_ready m) then g () else f (log @ [pm_message m]))"
  by (simp add: spawn_step_def)

lemma progress_messages_from:
  assumes "streams hub evs env"
  shows "drop i evs = rest \<Longrightarrow> cw_clock s = int i \<Longrightarrow> length rest < n \<Longrightarrow>
    snd (run (progress_messages n spawn_step log) env s) =
      Inr (if \<exists>m \<in> set (progress_of rest). truthy (pm_ready m) then Inr () else Inl (log @ map pm_message (progress_of rest)))"
proof (induction rest arbitrary: i s n log)
  case Nil
  obtain n' where n: "n = Suc n'" using Nil.prems(3) by (cases n) auto
  have "env W_sse_next s = (s\<lparr>cw_clock := int (Suc i)\<rparr>, Inr (C_event None))"
    using assms Nil.prems(1,2) by (simp add: streams_def)
  then show ?case by (simp add: n run_simps)
next
  case (Cons e rest)
  obtain n' where n: "n = Suc n'" using Cons.prems(3) by (cases n) auto
  have i: "i < length evs" "evs ! i = e" "drop (Suc i) evs = rest"
    using Cons.prems(1) by (auto simp: drop_Suc tl_drop [symmetric] nth_via_drop) (metis drop_all list.distinct(1) not_le)
  define s1 where "s1 = s\<lparr>cw_clock := int (Suc i)\<rparr>"
  have e: "env W_sse_next s = (s1, Inr (C_event (Some e)))"
    using assms Cons.prems(2) i by (simp add: streams_def s1_def)
  have IH: "snd (run (progress_messages n' spawn_step log') env s1) =
      Inr (if \<exists>m \<in> set (progress_of rest). truthy (pm_ready m) then Inr () else Inl (log' @ map pm_message (progress_of rest)))" for log'
    using Cons.IH [OF i(3), of s1 n' log'] Cons.prems(3) n by (simp add: s1_def)
  show ?case
    using IH by (simp add: n run_simps e case_spawn_step split: option.split)
qed

text \<open>
  Waiting ends well exactly when a message says that the lab is ready, and otherwise with an error that
  has all messages that came.
\<close>

text \<open>C16: Waiting for a spawn succeeds exactly when the stream has a message that says
  ready, unparsable ones being ignored, and otherwise raises an error with all messages, the last
  as its text.\<close>

theorem wait_for_spawn_result:
  assumes "streams hub evs env" and "cw_clock s = 0" and "length evs < ss_messages sc"
  shows "if \<exists>m \<in> set (progress_of evs). truthy (pm_ready m)
     then snd (run (wait_for_spawn sc c) env s) = Inr ()
     else \<exists>e. snd (run (wait_for_spawn sc c) env s) = Inl (Nublado e) \<and>
       ne_kind e = Lab_spawn_failed (map (json_str sc \<circ> pm_message) (progress_of evs)) \<and>
       ne_message e = (if progress_of evs = [] then ''No output from spawn attempt''
         else json_str sc (pm_message (last (progress_of evs))))"
proof -
  have knows: "knows_hub hub env" unfolding knows_hub_def using assms(1) unfolding streams_def by (metis snd_conv)
  have d: "fst (env W_discover s) = s" for s using assms(1) unfolding streams_def by (metis fst_conv)
  have hub: "run hub_base_url env s = (s, Inr hub)" for s using run_hub [OF knows] d by simp
  define u where "u = hub @ ''/hub/api/users/'' @ cc_user (ss_client sc) @ ''/server/progress''"
  obtain h where op: "run (jc_open_sse_stream (ss_client sc) c (''hub/api/users/'' @ cc_user (ss_client sc) @ ''/server/progress'')) env s = (s, Inr (u, h))"
    by (simp add: jc_open_sse_stream_def convert_http_def run_simps url_for_route_def hub headers_for_route_def u_def)
  obtain s1 where p: "run (progress_messages (ss_messages sc) spawn_step []) env s = (s1,
      Inr (if \<exists>m \<in> set (progress_of evs). truthy (pm_ready m) then Inr () else Inl (map pm_message (progress_of evs))))"
    using progress_messages_from [OF assms(1), of 0 evs s "ss_messages sc" "[]"] assms(2,3)
    by (cases "run (progress_messages (ss_messages sc) spawn_step []) env s") auto
  have "run (watch_spawn_progress sc c spawn_step []) env s = (s1,
      Inr (if \<exists>m \<in> set (progress_of evs). truthy (pm_ready m) then Inr () else Inl (map pm_message (progress_of evs))))"
    unfolding watch_spawn_progress_def run_bind run_reading op prod.case sum.case
    using assms(1) p by (simp add: run_simps streams_def)
  then show ?thesis
    by (auto simp: wait_for_spawn_def run_simps raise_new_def new_error_def Let_def last_map comp_def)
qed

section \<open>Sessions that are left behind\<close>

text \<open>
  The lab has made a session, but the connection to its kernel cannot be opened: entering raises, so the
  exit is not run, and no request deletes the session.
\<close>

lemma run_url_lab:
  "jc_lab_base_url (cw_clients s c) = Some b \<Longrightarrow> b \<noteq> [] \<Longrightarrow>
   run (url_for_route cfg c (session_route sc x)) env s = (s, Inr (b @ ''/'' @ session_route sc x))"
  by (simp add: url_for_route_def session_route_def run_simps present_def)

lemma run_await_Inr: "snd (env w s) = Inr a \<Longrightarrow> run (await w) env s = (fst (env w s), Inr a)"
  by (metis Async.run_await prod.collapse)

text \<open>C24: When the connection to the kernel of a new session cannot be opened, entering the
  session raises and no request deletes the session.\<close>

theorem session_left_behind:
  assumes "alone hub env" and "jc_lab_base_url (cw_clients s c) = Some b" and "b \<noteq> []"
    and "\<And>s. \<exists>x. snd (env W_new_id s) = Inr (C_text (Some x))"
    and "\<And>q s. rq_method q = ''POST'' \<Longrightarrow> snd (env (W_request c q) s) = Inr (C_response r)" and "rs_status r = 201"
    and "rs_json r = Some (J_dict [(''id'', J_text sid), (''kernel'', J_dict [(''id'', J_text kid)])])"
    and "\<And>u s. \<exists>k. snd (env (W_cookies c u) s) = Inr (C_text (Some k))"
    and "url_for_websocket (b @ ''/'' @ session_route sc (''kernels/'' @ kid @ ''/channels'')) = Some w"
    and "\<And>h t m s. snd (env (W_socket_open w h t m) s) = Inl (Websocket_lib f)"
  shows "\<exists>s' e q. run (with_lab_session sc c i body) env s = (s', Inl (Nublado e)) \<and>
     (\<exists>code body. ne_kind e = Websocket_failed code body) \<and> cw_sent s' = cw_sent s @ [q] \<and> rq_method q = ''POST''"
proof -
  note keep = alone_clients [OF assms(1)] alone_sent [OF assms(1)]
  define s0 where "s0 = fst (env W_new_id s)"
  obtain x where "snd (env W_new_id s) = Inr (C_text (Some x))" using assms(4) by blast
  then have id: "run new_id env s = (s0, Inr x)" by (simp add: new_id_def run_bind run_await_Inr s0_def)
  have c0: "jc_lab_base_url (cw_clients s0 c) = Some b" by (simp add: s0_def keep assms(2))
  define body' where "body' = Json_body (J_dict [(''kernel'', J_dict [(''name'', J_text (ss_kernel_name sc))]), (''path'', J_text x),
           (''type'', J_text ''console'')])"
  define q where "q = \<lparr>rq_method = ''POST'', rq_url = b @ ''/'' @ session_route sc ''sessions'',
     rq_headers = headers_with (ss_client sc) c (session_route sc ''sessions'') ''same-origin'' s0, rq_body = body', rq_params = [],
     rq_timeout = No_timeout\<rparr>"
  define s1 where "s1 = fst (env (W_request c q) (sent q s0))"
  have "run (client_http c q) env s0 = (s1, Inr r)"
    unfolding s1_def by (rule run_client_http) (simp add: assms(5) q_def)
  then have post: "run (jc_post (ss_client sc) c (session_route sc ''sessions'') body' [] No_timeout []) env s0 = (s1, Inr r)"
    using assms(6) by (simp add: jc_post_def convert_http_def run_bind run_reading run_catch run_url_lab [OF c0 assms(3)] run_headers
      q_def is_redirect_def client_raise_for_status_def run_seq)
  define s2 where "s2 = upd_manager i (\<lambda>m. m\<lparr>sm_session_id := J_text sid\<rparr>) s1"
  have c2: "jc_lab_base_url (cw_clients s2 c) = Some b"
    by (simp add: s2_def s1_def s0_def upd_manager_def sent_def keep assms(2))
  have n2: "cw_sent s2 = cw_sent s @ [q]" by (simp add: s2_def s1_def s0_def upd_manager_def sent_def keep)
  define rt where "rt = session_route sc (''kernels/'' @ kid @ ''/channels'')"
  define s3 where "s3 = fst (env (W_cookies c (b @ ''/'' @ rt)) s2)"
  obtain k where k: "snd (env (W_cookies c (b @ ''/'' @ rt)) s2) = Inr (C_text (Some k))" using assms(8) by blast
  define h where "h = headers_with (ss_client sc) c rt ''same-origin'' s2 @ [(''Cookie'', k)]"
  have ck: "run (await (W_cookies c (b @ ''/'' @ rt))) env s2 = (s3, Inr (C_text (Some k)))"
    unfolding s3_def using k by (rule run_await_Inr)
  have u: "run (url_for_route (ss_client sc) c rt) env s2 = (s2, Inr (b @ ''/'' @ rt))"
    unfolding rt_def by (rule run_url_lab [OF c2 assms(3)])
  have w: "url_for_websocket (b @ ''/'' @ rt) = Some w" using assms(9) by (simp add: rt_def)
  have ws: "run (jc_open_websocket (ss_client sc) c rt) env s2 = (s3, Inr (w, h))"
    using u ck w by (simp add: jc_open_websocket_def convert_http_def run_bind run_reading run_catch run_headers or_raise_client_def h_def)
  define s4 where "s4 = fst (env (W_socket_open w h (ss_open_timeout sc) (ss_max_size sc)) (upd_manager i (\<lambda>m. m\<lparr>sm_session := True\<rparr>) s3))"
  have op: "env (W_socket_open w h (ss_open_timeout sc) (ss_max_size sc)) (upd_manager i (\<lambda>m. m\<lparr>sm_session := True\<rparr>) s3) = (s4, Inl (Websocket_lib f))"
    using assms(10) by (metis prod.collapse s4_def)
  define e where "e = (websocket_error (cc_format (ss_client sc)) (cw_clock s4) f (cc_user (ss_client sc)))\<lparr>ne_started_at := Some (cw_clock s2)\<rparr>"
  have "run (open_socket sc c i (J_text kid)) env s2 = (s4, Inl (Nublado e))"
    using ws op by (simp add: open_socket_def run_simps json_str_def rt_def raise_new_def e_def)
  then have "run (session_enter sc c i) env s = (s4, Inl (Nublado e))"
    using id post assms(7)
    by (simp add: session_enter_def run_bind run_seq run_act body'_def or_raise_client_def or_raise_result_def json_item_def s2_def)
  then have "run (with_lab_session sc c i body) env s = (s4, Inl (Nublado e))"
    by (simp add: with_lab_session_def run_bind)
  moreover have "cw_sent s4 = cw_sent s @ [q]" using n2 by (simp add: s4_def s3_def upd_manager_def keep)
  moreover have "\<exists>code body. ne_kind e = Websocket_failed code body"
    by (simp add: e_def websocket_error_def new_error_def Let_def split: option.split prod.split)
  ultimately show ?thesis by (auto simp: q_def)
qed

section \<open>Examples\<close>

text \<open>A printer and a parser for a few values, in one byte each, and messages made of them.\<close>

definition known_json :: "json list" where
  "known_json = [J_dict [], J_dict [(''msg_id'', J_text ''m1'')], J_dict [(''msg_type'', J_text ''stream'')],
     J_dict [(''msg_type'', J_text ''execute_reply'')], J_dict [(''msg_type'', J_text ''status'')],
     J_dict [(''text'', J_text ''hi'')], J_dict [(''status'', J_text ''ok'')], J_dict [(''execution_state'', J_text ''idle'')]]"

fun position :: "json \<Rightarrow> json list \<Rightarrow> nat" where
  "position j [] = 0"
| "position j (x # xs) = (if x = j then 0 else Suc (position j xs))"

definition byte_codec :: json_codec where
  "byte_codec = \<lparr>js_dumps = (\<lambda>j. [word_of_nat (position j known_json)]),
     js_loads = (\<lambda>bs. case bs of [b] \<Rightarrow> if unat b < length known_json then Some (known_json ! unat b) else None | _ \<Rightarrow> None)\<rparr>"

definition kernel_message :: "json \<Rightarrow> json \<Rightarrow> json \<Rightarrow> socket_message" where
  "kernel_message header parent content =
     Binary_message (the (encode_websocket_message byte_codec
       \<lparr>og_channel = [], og_header = Some header, og_parent_header = Some parent, og_metadata = None, og_content = Some content\<rparr>))"

lemma byte_codec_law: "j \<in> set known_json \<Longrightarrow> js_loads byte_codec (js_dumps byte_codec j) = Some j"
  by (auto simp: known_json_def byte_codec_def)

lemma decode_kernel_message:
  assumes "{header, parent, content} \<subseteq> set known_json"
  shows "decode_websocket_message byte_codec (kernel_message header parent content) =
    Inr \<lparr>ic_channel = [], ic_header = header, ic_parent_header = parent, ic_metadata = J_dict [], ic_content = content\<rparr>"
proof -
  define m where "m = \<lparr>og_channel = [], og_header = Some header, og_parent_header = Some parent, og_metadata = None, og_content = Some content\<rparr>"
  have p: "js_loads byte_codec (js_dumps byte_codec j) = Some j" if "j \<in> set (message_parts m)" for j
    using that assms by (intro byte_codec_law) (auto simp: m_def message_parts_def part_or_empty_def known_json_def)
  obtain bs where bs: "encode_websocket_message byte_codec m = Some bs"
    using encode_total [of m "[]" byte_codec] by (auto simp: m_def message_parts_def byte_codec_def)
  have "decode_websocket_message byte_codec (Binary_message bs) =
      Inr \<lparr>ic_channel = [], ic_header = header, ic_parent_header = parent, ic_metadata = J_dict [], ic_content = content\<rparr>"
    using decode_encoded [OF p bs] by (simp add: m_def part_or_empty_def)
  then show ?thesis using bs by (simp add: kernel_message_def m_def)
qed

definition session_example :: session_config where
  "session_example = \<lparr>ss_client = client_example, ss_codec = byte_codec, ss_str = (\<lambda>_. []), ss_iso = (\<lambda>_. []),
     ss_kernel_name = ''lsst'', ss_open_timeout = 60, ss_max_size = None, ss_messages = 10\<rparr>"

definition kernel_messages :: "socket_message list" where
  "kernel_messages =
     [kernel_message (J_dict [(''msg_type'', J_text ''stream'')]) (J_dict []) (J_dict [(''text'', J_text ''hi'')]),
      kernel_message (J_dict [(''msg_type'', J_text ''stream'')]) (J_dict [(''msg_id'', J_text ''m1'')]) (J_dict [(''text'', J_text ''hi'')]),
      Text_message [],
      kernel_message (J_dict [(''msg_type'', J_text ''execute_reply'')]) (J_dict [(''msg_id'', J_text ''m1'')]) (J_dict [(''status'', J_text ''ok'')]),
      kernel_message (J_dict [(''msg_type'', J_text ''status'')]) (J_dict [(''msg_id'', J_text ''m1'')]) (J_dict [(''execution_state'', J_text ''idle'')]),
      kernel_message (J_dict [(''msg_type'', J_text ''stream'')]) (J_dict [(''msg_id'', J_text ''m1'')]) (J_dict [(''text'', J_text ''hi'')])]"

definition kernel_world :: "(client_world, client_wait, client_answer, client_exn) env" where
  "kernel_world w s =
     (case w of
        W_new_id \<Rightarrow> (s, Inr (C_text (Some ''m1'')))
      | W_socket_next \<Rightarrow>
          (s\<lparr>cw_clock := cw_clock s + 1\<rparr>,
           Inr (C_message (if nat (cw_clock s) < length kernel_messages then Some (kernel_messages ! nat (cw_clock s)) else None)))
      | _ \<Rightarrow> (s, Inr C_none))"

lemma parsed_kernel_messages:
  "map (\<lambda>m. parse_message session_example m ''m1'') kernel_messages =
    [Inr Nothing, Inr (Output \<lparr>jo_content = J_text ''hi'', jo_done = False, jo_idle = False\<rparr>), Inl Py_type,
     Inr (Output \<lparr>jo_content = J_text [], jo_done = True, jo_idle = False\<rparr>),
     Inr (Output \<lparr>jo_content = J_text [], jo_done = False, jo_idle = True\<rparr>),
     Inr (Output \<lparr>jo_content = J_text ''hi'', jo_done = False, jo_idle = False\<rparr>)]"
  by (simp add: kernel_messages_def parse_message_def session_example_def decode_kernel_message known_json_def
      decode_websocket_message_def [of _ "Text_message _"] json_get_def json_item_def)

lemma run_python_output_witness:
  "snd (run (run_python session_example (J_text ''s1'') ''print(2)'' None None) kernel_world world_example) = Inr ''hi''"
proof -
  let ?o = "\<lambda>k. outputs session_example ''m1'' (take k kernel_messages)"
  have "list_all (\<lambda>m. stopped_by session_example ''m1'' now m = None) kernel_messages" for now
    using parsed_kernel_messages by (simp add: kernel_messages_def stopped_by_def)
  moreover have l: "length kernel_messages = 6" by (simp add: kernel_messages_def)
  ultimately have p: "stopped_by session_example ''m1'' now (kernel_messages ! j) = None" if "j < 6" for now j
    using that by (simp add: list_all_length)
  have d: "delivers kernel_messages kernel_world" by (auto simp: delivers_def kernel_world_def)
  have m: "length kernel_messages < ss_messages session_example" by (simp add: l session_example_def)
  have e: "encode_websocket_message (ss_codec session_example) (execute_request session_example (J_text ''s1'') 0 ''m1'' ''print(2)'') \<noteq> None"
    using encode_total [of "execute_request session_example (J_text ''s1'') 0 ''m1'' ''print(2)''" "[115, 104, 101, 108, 108]" byte_codec]
    by (auto simp: execute_request_def text_points_def utf8_point_def session_example_def byte_codec_def message_parts_def)
  have o: "?o 5 = [\<lparr>jo_content = J_text ''hi'', jo_done = False, jo_idle = False\<rparr>, \<lparr>jo_content = J_text [], jo_done = True, jo_idle = False\<rparr>,
      \<lparr>jo_content = J_text [], jo_done = False, jo_idle = True\<rparr>]"
    using parsed_kernel_messages by (simp add: kernel_messages_def outputs_def)
  have o4: "?o j = butlast (?o 5) \<or> ?o j = take 1 (?o 5) \<or> ?o j = []" if "j < 5" for j
    using that parsed_kernel_messages unfolding o
    by (cases j; simp add: kernel_messages_def outputs_def) (auto simp: numeral_eq_Suc less_Suc_eq)
  let ?r = "snd (run (run_python session_example (J_text ''s1'') ''print(2)'' None None) kernel_world world_example)"
  obtain k where k: "k \<le> 6" "\<forall>j < k. \<not> finished (?o j)" "k = 6 \<or> finished (?o k) \<longrightarrow> ?r = Inr (all_text (?o k))"
      "k = 6 \<or> finished (?o k) \<or> (\<exists>e. stopped_by session_example ''m1'' (int (Suc k)) (kernel_messages ! k) = Some e)"
    using run_python_output [OF d _ m _ _ e, of world_example None] unfolding l
    by (auto simp: kernel_world_def world_example_def split: if_splits)
  then have k3: "k = 6 \<or> finished (?o k)" using p [of k] by (cases "k = 6") auto
  have f: "finished (?o 5)" unfolding o by (simp add: finished_def)
  have nf: "\<not> finished (?o j)" if "j < 5" for j using o4 [OF that] unfolding o by (auto simp: finished_def)
  have "k = 5"
  proof (rule linorder_cases [of k 5])
    assume "k < 5" then show ?thesis using k3 nf by auto
  next
    assume "5 < k" then show ?thesis using k(2) f by auto
  qed simp
  moreover have "all_text (?o 5) = ''hi''" unfolding o by (simp add: all_text_def output_text_def)
  ultimately show ?thesis using k(3) k3 by simp
qed

definition spawn_events :: "json option list" where
  "spawn_events = [None, Some (J_dict [(''progress'', J_int 5), (''message'', J_text ''Starting'')]),
     Some (J_dict [(''progress'', J_int 100), (''message'', J_text ''Ready''), (''ready'', J_bool True)])]"

definition spawn_world :: "(client_world, client_wait, client_answer, client_exn) env" where
  "spawn_world w s =
     (case w of
        W_discover \<Rightarrow> (s, Inr (C_text (Some hub_example)))
      | W_sse_next \<Rightarrow>
          (s\<lparr>cw_clock := cw_clock s + 1\<rparr>,
           Inr (C_event (if nat (cw_clock s) < length spawn_events then Some (spawn_events ! nat (cw_clock s)) else None)))
      | _ \<Rightarrow> (s, Inr C_none))"

lemma wait_for_spawn_result_witness:
  "snd (run (wait_for_spawn session_example 0) spawn_world world_example) = Inr ()"
proof -
  have "streams hub_example spawn_events spawn_world"
    by (auto simp: streams_def spawn_world_def hub_example_def rstrip_slash_def)
  moreover have "\<exists>m \<in> set (progress_of spawn_events). truthy (pm_ready m)" by code_simp
  ultimately show ?thesis
    using wait_for_spawn_result [of hub_example spawn_events spawn_world world_example session_example 0]
    by (simp add: world_example_def session_example_def spawn_events_def)
qed

definition broken_socket :: websocket_failure where
  "broken_socket = \<lparr>wf_class = ''ConnectionClosedError'', wf_text = [], wf_invalid_status = None\<rparr>"

definition created_session :: client_response where
  "created_session = \<lparr>rs_status = 201, rs_url = [], rs_location = None, rs_xsrf = None,
     rs_json = Some (J_dict [(''id'', J_text ''s1''), (''kernel'', J_dict [(''id'', J_text ''k1'')])]), rs_failure = no_failure\<rparr>"

definition broken_world :: "(client_world, client_wait, client_answer, client_exn) env" where
  "broken_world w s = (s,
     case w of
        W_discover \<Rightarrow> Inr (C_text (Some hub_example))
      | W_new_id \<Rightarrow> Inr (C_text (Some ''p1''))
      | W_request _ _ \<Rightarrow> Inr (C_response created_session)
      | W_cookies _ _ \<Rightarrow> Inr (C_text (Some ''_xsrf=x1''))
      | W_socket_open _ _ _ _ \<Rightarrow> Inl (Websocket_lib broken_socket)
      | _ \<Rightarrow> Inr C_none)"

lemma session_left_behind_witness:
  "\<exists>s' e q. run (with_lab_session session_example 0 0 (\<lambda>_. Ret ())) broken_world
       (upd_client 0 (\<lambda>j. j\<lparr>jc_lab_base_url := Some hub_example\<rparr>) world_example) = (s', Inl (Nublado e)) \<and>
     (\<exists>code body. ne_kind e = Websocket_failed code body) \<and> cw_sent s' = [q] \<and> rq_method q = ''POST''"
proof -
  define s where "s = upd_client 0 (\<lambda>j. j\<lparr>jc_lab_base_url := Some hub_example\<rparr>) world_example"
  have a: "alone hub_example broken_world" by (simp add: alone_def broken_world_def hub_example_def rstrip_slash_def)
  have b: "jc_lab_base_url (cw_clients s 0) = Some hub_example" by (simp add: s_def upd_client_def)
  have u: "url_for_websocket (hub_example @ ''/'' @ session_route session_example (''kernels/'' @ ''k1'' @ ''/channels'')) \<noteq> None"
    by code_simp
  then obtain w where w: "url_for_websocket (hub_example @ ''/'' @ session_route session_example (''kernels/'' @ ''k1'' @ ''/channels'')) = Some w"
    by blast
  have "cw_sent s = []" by (simp add: s_def upd_client_def world_example_def)
  then show ?thesis
    unfolding s_def [symmetric] using session_left_behind [OF a b _ _ _ _ _ _ w, of created_session "''s1''" broken_socket 0 "\<lambda>_. Ret ()"]
    by (simp add: broken_world_def created_session_def hub_example_def)
qed

end
