(* ===== verification/Spawn_Form.thy ===== *)
theory Spawn_Form
  imports Lab_Builder Session_Laws
begin

text \<open>
  From the client to the controller: the form that the client sends to JupyterHub, which passes the
  fields on as lists of values, read by \<open>LabRequestOptions\<close> of
  \<open>src/src/nublado/controller/models/v1/lab.py\<close>.
\<close>

section \<open>Reading a form\<close>

definition all_sizes :: "lab_size list" where
  "all_sizes = [FINE, DIMINUTIVE, TINY, SMALL, MEDIUM, LARGE, HUGE, GARGANTUAN, COLOSSAL, CUSTOM]"

definition class_value :: "image_class \<Rightarrow> string" where
  "class_value k = (case k of Lab_Model.RECOMMENDED \<Rightarrow> ''recommended'' | Lab_Model.LATEST_RELEASE \<Rightarrow> ''latest-release''
     | Lab_Model.LATEST_WEEKLY \<Rightarrow> ''latest-weekly'' | Lab_Model.LATEST_DAILY \<Rightarrow> ''latest-daily'')"

definition all_classes :: "image_class list" where
  "all_classes = [Lab_Model.RECOMMENDED, Lab_Model.LATEST_RELEASE, Lab_Model.LATEST_WEEKLY, Lab_Model.LATEST_DAILY]"

definition or_bad :: "'x option \<Rightarrow> string \<Rightarrow> (value_error, 'x) result" where
  "or_bad x field = (case x of None \<Rightarrow> Inl (BadConfig field) | Some y \<Rightarrow> Inr y)"

definition read_size :: "(string, Lab_Model.json) dict \<Rightarrow> (value_error, lab_size) result" where
  "read_size d =
     (case map_option validate_size (map_of d ''size'') of
        Some (JStr s) \<Rightarrow> or_bad (find (\<lambda>z. Lab_Builder.size_value z = s) all_sizes) ''size''
      | _ \<Rightarrow> Inl (BadConfig ''size''))"

definition read_boolean :: "(string, Lab_Model.json) dict \<Rightarrow> string \<Rightarrow> (value_error, bool) result" where
  "read_boolean d k = (case map_of d k of None \<Rightarrow> Inr False | Some v \<Rightarrow> validate_boolean v)"

definition read_text :: "(string, Lab_Model.json) dict \<Rightarrow> string \<Rightarrow> (value_error, string option) result" where
  "read_text d k = (case map_of d k of
       None \<Rightarrow> Inr None | Some JNull \<Rightarrow> Inr None | Some (JStr s) \<Rightarrow> Inr (Some s) | Some _ \<Rightarrow> Inl (BadConfig k))"

definition read_class :: "(string, Lab_Model.json) dict \<Rightarrow> (value_error, image_class option) result" where
  "read_class d = (case map_of d ''image_class'' of
       None \<Rightarrow> Inr None | Some JNull \<Rightarrow> Inr None
     | Some (JStr s) \<Rightarrow> rbind (or_bad (find (\<lambda>k. class_value k = s) all_classes) ''image_class'') (\<lambda>k. Inr (Some k))
     | Some _ \<Rightarrow> Inl (BadConfig ''image_class''))"

text \<open>Fields that the model does not have are ignored.\<close>

definition read_options :: "(string, Lab_Model.json) dict \<Rightarrow> (value_error, lab_request_options) result" where
  "read_options form =
     rbind (validate_lists form) (\<lambda>d.
     rbind (read_size d) (\<lambda>z.
     rbind (read_boolean d ''enable_debug'') (\<lambda>debug.
     rbind (read_boolean d ''reset_user_env'') (\<lambda>reset.
     rbind (read_text d ''image_list'') (\<lambda>il.
     rbind (read_text d ''image_dropdown'') (\<lambda>idd.
     rbind (read_class d) (\<lambda>ic.
     rbind (read_text d ''image_tag'') (\<lambda>it.
       validate_one_image \<lparr>req_size = z, req_enable_debug = debug, req_reset_user_env = reset, image_list = il,
         image_dropdown = idd, req_image_class = ic, image_tag = it\<rparr>))))))))"

text \<open>A form as JupyterHub hands it on.\<close>

definition as_lists :: "(string, string) dict \<Rightarrow> (string, Lab_Model.json) dict" where
  "as_lists d = map (\<lambda>(k, v). (k, JList [JStr v])) d"

section \<open>What the client asks for is what the controller reads\<close>

definition size_of_client :: "nublado_image_size \<Rightarrow> lab_size" where
  "size_of_client z = (case z of Fine \<Rightarrow> FINE | Diminutive \<Rightarrow> DIMINUTIVE | Tiny \<Rightarrow> TINY | Small \<Rightarrow> SMALL | Medium \<Rightarrow> MEDIUM
     | Large \<Rightarrow> LARGE | Huge \<Rightarrow> HUGE | Gargantuan \<Rightarrow> GARGANTUAN | Colossal \<Rightarrow> COLOSSAL)"

fun class_of_client :: "nublado_image_class \<Rightarrow> image_class option" where
  "class_of_client Nublado_Client.RECOMMENDED = Some Lab_Model.RECOMMENDED"
| "class_of_client Nublado_Client.LATEST_RELEASE = Some Lab_Model.LATEST_RELEASE"
| "class_of_client Nublado_Client.LATEST_WEEKLY = Some Lab_Model.LATEST_WEEKLY"
| "class_of_client Nublado_Client.LATEST_DAILY = Some Lab_Model.LATEST_DAILY"
| "class_of_client _ = None"

text \<open>A choice that the client can make: a class of the first four, and a reference or a tag that is text.\<close>

definition choice_ok :: "image_choice \<Rightarrow> bool" where
  "choice_ok c = (case c of By_reference r \<Rightarrow> r \<noteq> [] \<and> r \<noteq> dropdown_sentinel_value | By_tag t \<Rightarrow> t \<noteq> []
     | By_class k \<Rightarrow> class_of_client k \<noteq> None)"

definition wanted_options :: "nublado_image \<Rightarrow> lab_request_options" where
  "wanted_options im =
     \<lparr>req_size = size_of_client (ni_size im), req_enable_debug = ni_debug im, req_reset_user_env = False,
      image_list = (case ni_choice im of By_reference r \<Rightarrow> Some r | _ \<Rightarrow> None), image_dropdown = None,
      req_image_class = (case ni_choice im of By_class k \<Rightarrow> class_of_client k | _ \<Rightarrow> None),
      image_tag = (case ni_choice im of By_tag t \<Rightarrow> Some t | _ \<Rightarrow> None)\<rparr>"

lemma validate_as_lists: "validate_lists (as_lists d) = Inr (map (\<lambda>(k, v). (k, JStr v)) d)"
  by (induction d) (auto simp: as_lists_def)

lemma lower_size: "map to_lower (Nublado_Client.size_value z) = Lab_Builder.size_value (size_of_client z)"
proof -
  have "list_all (\<lambda>z. map to_lower (Nublado_Client.size_value z) = Lab_Builder.size_value (size_of_client z))
      [Fine, Diminutive, Tiny, Small, Medium, Large, Huge, Gargantuan, Colossal]" by code_simp
  then show ?thesis by (cases z) simp_all
qed

lemma find_size: "find (\<lambda>z'. Lab_Builder.size_value z' = Lab_Builder.size_value z) all_sizes = Some z"
  by (cases z) (simp_all add: all_sizes_def Lab_Builder.size_value_def)

lemma read_size_client:
  "map_of d ''size'' = Some (JStr (Nublado_Client.size_value z)) \<Longrightarrow> read_size d = Inr (size_of_client z)"
  by (simp add: read_size_def lower_size find_size or_bad_def)

lemma read_class_client:
  "map_of d ''image_class'' = Some (JStr (image_class_value k)) \<Longrightarrow> class_of_client k = Some k' \<Longrightarrow> read_class d = Inr (Some k')"
  by (cases k) (auto simp: read_class_def image_class_value_def all_classes_def class_value_def or_bad_def)

text \<open>C17: The form that the client sends for an image, as JupyterHub hands it on, passes
  the validators of the controller and is read as the options that were asked for.\<close>

theorem client_form_accepted:
  assumes "choice_ok (ni_choice im)"
  shows "read_options (as_lists (to_spawn_form im)) = Inr (wanted_options im)"
proof -
  define d where "d = map (\<lambda>(k, v). (k, JStr v)) (to_spawn_form im)"
  have z: "read_size d = Inr (size_of_client (ni_size im))"
    by (rule read_size_client) (auto simp: d_def to_spawn_form_def split: image_choice.split)
  have b: "read_boolean d ''enable_debug'' = Inr (ni_debug im)" "read_boolean d ''reset_user_env'' = Inr False"
    by (auto simp: d_def to_spawn_form_def read_boolean_def split: image_choice.split)
  have v: "validate_lists (as_lists (to_spawn_form im)) = Inr d" by (simp add: d_def validate_as_lists)
  show ?thesis
  proof (cases "ni_choice im")
    case (By_reference r)
    then have "read_text d ''image_list'' = Inr (Some r)" "read_text d ''image_dropdown'' = Inr None" "read_class d = Inr None"
      "read_text d ''image_tag'' = Inr None"
      by (auto simp: d_def to_spawn_form_def read_text_def read_class_def)
    then show ?thesis using By_reference assms
      by (simp add: read_options_def v z b validate_one_image_def images_set_def nonempty_def choice_ok_def wanted_options_def)
  next
    case (By_tag t)
    then have "read_text d ''image_list'' = Inr None" "read_text d ''image_dropdown'' = Inr None" "read_class d = Inr None"
      "read_text d ''image_tag'' = Inr (Some t)"
      by (auto simp: d_def to_spawn_form_def read_text_def read_class_def)
    then show ?thesis using By_tag assms
      by (simp add: read_options_def v z b validate_one_image_def images_set_def nonempty_def choice_ok_def wanted_options_def)
  next
    case (By_class k)
    then obtain k' where k': "class_of_client k = Some k'" using assms by (auto simp: choice_ok_def)
    have "read_class d = Inr (Some k')"
      by (rule read_class_client [OF _ k']) (simp add: d_def to_spawn_form_def By_class)
    moreover have "read_text d ''image_list'' = Inr None" "read_text d ''image_dropdown'' = Inr None" "read_text d ''image_tag'' = Inr None"
      using By_class by (auto simp: d_def to_spawn_form_def read_text_def)
    ultimately show ?thesis using By_class k'
      by (simp add: read_options_def v z b validate_one_image_def images_set_def nonempty_def wanted_options_def)
  qed
qed

lemma client_form_accepted_witness:
  "read_options (as_lists (to_spawn_form \<lparr>ni_choice = By_class Nublado_Client.LATEST_WEEKLY, ni_size = Medium, ni_debug = True\<rparr>)) =
     Inr \<lparr>req_size = MEDIUM, req_enable_debug = True, req_reset_user_env = False, image_list = None, image_dropdown = None,
       req_image_class = Some Lab_Model.LATEST_WEEKLY, image_tag = None\<rparr>"
  using client_form_accepted [of "\<lparr>ni_choice = By_class Nublado_Client.LATEST_WEEKLY, ni_size = Medium, ni_debug = True\<rparr>"]
  by (simp add: choice_ok_def wanted_options_def size_of_client_def)

end
