(* ===== verification/Startup_Base.thy ===== *)
theory Startup_Base
  imports Async Kube_Models Py_Url
begin

text \<open>
  What the startup of a lab and the provisioners of home directories use of Python and of the system:
  paths, \<open>OSError\<close> with the subclass of \<open>src/src/nublado/startup/exceptions.py\<close>, Python values as JSON
  and YAML files give them, and the calls of the system, which are waits. Text is the text of a file as
  characters; paths are those of \<open>pathlib\<close>.
\<close>

section \<open>Paths\<close>

datatype fs_path = Path (path_root: string) (path_parts: "string list")

definition root_of :: "string \<Rightarrow> string" where
  "root_of s = (if prefix ''//'' s \<and> \<not> prefix ''///'' s then ''//'' else if prefix ''/'' s then ''/'' else [])"

definition path_of :: "string \<Rightarrow> fs_path" where
  "path_of s = Path (root_of s) (filter (\<lambda>x. x \<noteq> [] \<and> x \<noteq> ''.'') (split_on (CHR ''/'') s))"

definition path_text :: "fs_path \<Rightarrow> string" where
  "path_text p = (if path_root p = [] \<and> path_parts p = [] then ''.'' else path_root p @ str_join ''/'' (path_parts p))"

definition path_join :: "fs_path \<Rightarrow> fs_path \<Rightarrow> fs_path" where
  "path_join p q = (if path_root q \<noteq> [] then q else Path (path_root p) (path_parts p @ path_parts q))"

definition below :: "fs_path \<Rightarrow> string \<Rightarrow> fs_path" where
  "below p s = path_join p (path_of s)"

definition path_name :: "fs_path \<Rightarrow> string" where
  "path_name p = (if path_parts p = [] then [] else last (path_parts p))"

definition path_parent :: "fs_path \<Rightarrow> fs_path" where
  "path_parent p = Path (path_root p) (butlast (path_parts p))"

text \<open>\<open>Path.parts\<close>: the root counts.\<close>

definition all_parts :: "fs_path \<Rightarrow> string list" where
  "all_parts p = (if path_root p = [] then [] else [path_root p]) @ path_parts p"

section \<open>Exceptions\<close>

datatype rsp_error_code = EBADENV | EUNKNOWN

definition rsp_code_value :: "rsp_error_code \<Rightarrow> int" where
  "rsp_code_value c = (case c of EBADENV \<Rightarrow> 200 | EUNKNOWN \<Rightarrow> 201)"

definition rsp_errors :: "(int \<times> (string \<times> string)) list" where
  "rsp_errors = [(rsp_code_value EBADENV, ''EBADENV'', ''Missing environment variable''),
     (rsp_code_value EUNKNOWN, ''EUNKNOWN'', ''Unknown error '' @ dec_int (rsp_code_value EUNKNOWN))]"

text \<open>
  The number of an \<open>OSError\<close> is what it was created with: nothing, a number, or a member of the
  enumeration, which is not a number. A file name is kept as its \<open>repr\<close>. \<open>oe_errorcode\<close> is there for an
  \<open>RSPStartupError\<close> only.
\<close>

datatype err_number = No_errno | Errno int | Errno_member rsp_error_code

record os_error =
  oe_errno :: err_number
  oe_strerror :: "string option"
  oe_filename :: "string option"
  oe_filename2 :: "string option"
  oe_errorcode :: "string option"

datatype startup_exn = Os os_error | Py_value | Py_type | Py_key | Py_attribute | Py_index | Py_unbound
  | Repertoire_failed | Command_failed "string list" int | Command_timed_out "string list"
  | Invalid_home string | Precheck_failed string | Destination_is_directory string | Destination_failed string
  | Py_exception string

definition is_os :: "startup_exn \<Rightarrow> bool" where
  "is_os e = (case e of Os _ \<Rightarrow> True | _ \<Rightarrow> False)"

definition errno_text :: "err_number \<Rightarrow> string" where
  "errno_text n = (case n of No_errno \<Rightarrow> ''None'' | Errno i \<Rightarrow> dec_int i
     | Errno_member EBADENV \<Rightarrow> ''RSPErrorCode.EBADENV'' | Errno_member EUNKNOWN \<Rightarrow> ''RSPErrorCode.EUNKNOWN'')"

text \<open>\<open>str\<close> of an \<open>OSError\<close> that was created with at least a number and a text.\<close>

definition os_error_text :: "os_error \<Rightarrow> string" where
  "os_error_text e =
     ''[Errno '' @ errno_text (oe_errno e) @ ''] '' @ (case oe_strerror e of None \<Rightarrow> ''None'' | Some t \<Rightarrow> t) @
     (case oe_filename e of None \<Rightarrow> []
      | Some f \<Rightarrow> '': '' @ f @ (case oe_filename2 e of None \<Rightarrow> [] | Some g \<Rightarrow> '' -> '' @ g))"

section \<open>Values\<close>

text \<open>
  What parsers of JSON and YAML give. Of a floating-point number it is its text; a value of another type
  (a date, bytes) has its text and whether it counts as true.
\<close>

datatype pyval = V_none | V_bool bool | V_int int | V_float string | V_text string | V_list "pyval list"
  | V_dict "(pyval \<times> pyval) list" | V_other bool string

definition is_true :: "pyval \<Rightarrow> bool" where
  "is_true v = (case v of V_none \<Rightarrow> False | V_bool b \<Rightarrow> b | V_int i \<Rightarrow> i \<noteq> 0 | V_float t \<Rightarrow> t \<noteq> ''0.0'' \<and> t \<noteq> ''-0.0''
     | V_text s \<Rightarrow> s \<noteq> [] | V_list xs \<Rightarrow> xs \<noteq> [] | V_dict d \<Rightarrow> d \<noteq> [] | V_other b _ \<Rightarrow> b)"

text \<open>\<open>v[k]\<close> for a text \<open>k\<close>, and the same place assigned.\<close>

definition item :: "pyval \<Rightarrow> string \<Rightarrow> (startup_exn, pyval) result" where
  "item v k =
     (case v of
        V_dict d \<Rightarrow> (case map_of d (V_text k) of None \<Rightarrow> Inl Py_key | Some x \<Rightarrow> Inr x)
      | _ \<Rightarrow> Inl Py_type)"

definition with_item :: "pyval \<Rightarrow> string \<Rightarrow> pyval \<Rightarrow> pyval" where
  "with_item v k x = (case v of V_dict d \<Rightarrow> V_dict (dset (V_text k) x d) | _ \<Rightarrow> v)"

section \<open>The library\<close>

text \<open>
  The parts of the Python library and of PyYAML that are not modelled: names and texts of error numbers;
  JSON, printed with an indentation and with or without sorted keys; YAML; \<open>int(float(s))\<close>; comparing a
  floating-point number with a whole one; decoding percent signs in a query; SHA-256; and
  configuration files in INI format, with the values of a section after interpolation.
\<close>

type_synonym ini = "(string, (string, string) dict) dict"

record startup_lib =
  sl_errorcode :: "int \<Rightarrow> string option"
  sl_strerror :: "int \<Rightarrow> string"
  sl_dumps :: "nat option \<Rightarrow> bool \<Rightarrow> pyval \<Rightarrow> string"
  sl_loads :: "string \<Rightarrow> pyval option"
  sl_yaml_load :: "string \<Rightarrow> pyval option"
  sl_yaml_dump :: "pyval \<Rightarrow> string"
  sl_int_of_float :: "string \<Rightarrow> (startup_exn, int) result"
  sl_float_less :: "string \<Rightarrow> int \<Rightarrow> bool"
  sl_unquote :: "string \<Rightarrow> string"
  sl_sha256 :: "string \<Rightarrow> string"
  sl_ini_read :: "string \<Rightarrow> (startup_exn, ini) result"
  sl_ini_section :: "ini \<Rightarrow> string \<Rightarrow> (startup_exn, (string, string) dict) result"
  sl_ini_text :: "ini \<Rightarrow> string"

section \<open>Startup errors\<close>

text \<open>
  \<open>RSPStartupError(errno, strerror, filename, winerror, filename2)\<close>, or the same without its last two
  arguments: \<open>winerror\<close> is there when they are, and it is then what an error of an unknown number shows as
  its second name, since the constructor takes \<open>args[3]\<close> for it. That path also assigns a missing
  \<open>filename\<close>, which then shows as \<open>None\<close>.
\<close>

definition rsp_startup_error ::
    "startup_lib \<Rightarrow> err_number \<Rightarrow> string option \<Rightarrow> string option \<Rightarrow> string option \<Rightarrow> string option \<Rightarrow> os_error" where
  "rsp_startup_error lib errno strerror filename winerror filename2 =
     (let e = \<lparr>oe_errno = errno, oe_strerror = strerror, oe_filename = filename, oe_filename2 = filename2, oe_errorcode = None\<rparr>;
          known = (case errno of Errno n \<Rightarrow> sl_errorcode lib n | _ \<Rightarrow> None)
      in case known of
           Some ec \<Rightarrow> e\<lparr>oe_errorcode := Some ec\<rparr>
         | None \<Rightarrow>
             let unknown = rsp_code_value EUNKNOWN;
                 e = (case errno of
                        No_errno \<Rightarrow> e
                      | Errno n \<Rightarrow> if n \<in> rsp_code_value ` {EBADENV, EUNKNOWN} then e else e\<lparr>oe_errno := Errno unknown\<rparr>
                      | Errno_member _ \<Rightarrow> e\<lparr>oe_errno := Errno unknown\<rparr>);
                 n = (case oe_errno e of Errno n \<Rightarrow> n | _ \<Rightarrow> unknown);
                 (code, text) = (case map_of rsp_errors n of Some x \<Rightarrow> x | None \<Rightarrow> ([], []))
             in e\<lparr>oe_strerror := Some (case strerror of None \<Rightarrow> text | Some t \<Rightarrow> if t = [] then text else t),
                  oe_filename := Some (case filename of None \<Rightarrow> ''None'' | Some f \<Rightarrow> f),
                  oe_filename2 := (case winerror of None \<Rightarrow> filename2 | Some w \<Rightarrow> Some w),
                  oe_errorcode := Some code\<rparr>)"

definition or_text :: "string option \<Rightarrow> string \<Rightarrow> string" where
  "or_text o' d = (case o' of None \<Rightarrow> d | Some t \<Rightarrow> if t = [] then d else t)"

definition from_os_error :: "startup_lib \<Rightarrow> os_error \<Rightarrow> os_error" where
  "from_os_error lib e =
     (let n = (case oe_errno e of Errno i \<Rightarrow> if i = 0 then Errno (rsp_code_value EUNKNOWN) else Errno i
                 | No_errno \<Rightarrow> Errno (rsp_code_value EUNKNOWN) | Errno_member c \<Rightarrow> Errno_member c);
          i = (case n of Errno i \<Rightarrow> i | _ \<Rightarrow> 0);
          text = or_text (oe_strerror e) (or_text (Some (sl_strerror lib i)) (''Unknown error '' @ errno_text n))
      in rsp_startup_error lib n (Some text) (oe_filename e) (Some [CHR 0x27, CHR 0x27]) (oe_filename2 e))"

section \<open>The system\<close>

text \<open>
  Calls of the system. \<open>W_mkdir parents exist_ok\<close> is \<open>Path.mkdir\<close>, \<open>W_exists follow\<close> is \<open>Path.exists\<close>. \<open>W_walk\<close>
  is a whole \<open>Path.walk\<close>, of a tree that the walk does not change. The clock is asked in microseconds, as
  a time stamp that is formatted, and as the date of today. \<open>W_portal\<close> asks service discovery at a URL.
\<close>

datatype os_wait =
    W_is_dir fs_path
  | W_is_file fs_path
  | W_is_symlink fs_path
  | W_exists bool fs_path
  | W_mkdir bool bool fs_path
  | W_move fs_path fs_path
  | W_copy fs_path fs_path
  | W_read fs_path
  | W_write fs_path string
  | W_touch fs_path
  | W_unlink fs_path
  | W_rmdir fs_path
  | W_rmtree fs_path
  | W_list fs_path
  | W_glob fs_path string
  | W_walk fs_path
  | W_writable fs_path
  | W_stat fs_path
  | W_chown fs_path int int
  | W_umask nat
  | W_time
  | W_stamp
  | W_today
  | W_portal string
  | W_command "string list"

datatype os_answer = A_done | A_bool bool | A_text string | A_int int | A_paths "fs_path list"
  | A_tree "(fs_path \<times> string list \<times> string list) list" | A_stat int int nat | A_url "string option"

record startup =
  su_environ :: "(string, string) dict"
  su_env :: "(string, string) dict"
  su_broken :: bool
  su_home :: fs_path
  su_debug :: bool

type_synonym ('x, 'a) startup_proc = "('x startup_scheme, os_wait, os_answer, startup_exn, 'a) proc"

definition ask_bool :: "os_wait \<Rightarrow> ('s, os_wait, os_answer, startup_exn, bool) proc" where
  "ask_bool w = bind (await w) (\<lambda>a. case a of A_bool b \<Rightarrow> Ret b | _ \<Rightarrow> Raise Py_type)"

definition ask_text :: "os_wait \<Rightarrow> ('s, os_wait, os_answer, startup_exn, string) proc" where
  "ask_text w = bind (await w) (\<lambda>a. case a of A_text t \<Rightarrow> Ret t | _ \<Rightarrow> Raise Py_type)"

definition ask_paths :: "os_wait \<Rightarrow> ('s, os_wait, os_answer, startup_exn, fs_path list) proc" where
  "ask_paths w = bind (await w) (\<lambda>a. case a of A_paths ps \<Rightarrow> Ret ps | _ \<Rightarrow> Raise Py_type)"

definition call :: "os_wait \<Rightarrow> ('s, os_wait, os_answer, startup_exn, unit) proc" where
  "call w = seq (await w) (Ret ())"

definition or_exn :: "(startup_exn, 'a) result \<Rightarrow> ('s, os_wait, os_answer, startup_exn, 'a) proc" where
  "or_exn r = (case r of Inl e \<Rightarrow> Raise e | Inr a \<Rightarrow> Ret a)"

text \<open>\<open>except OSError\<close>\<close>

definition catch_os :: "('s, os_wait, os_answer, startup_exn, 'a) proc \<Rightarrow> (os_error \<Rightarrow> ('s, os_wait, os_answer, startup_exn, 'a) proc) \<Rightarrow>
    ('s, os_wait, os_answer, startup_exn, 'a) proc" where
  "catch_os p h = catch p (\<lambda>e. case e of Os x \<Rightarrow> h x | _ \<Rightarrow> Raise e)"

text \<open>The environment of the process, and the one that is made for the lab.\<close>

definition getenv :: "string \<Rightarrow> ('x, string option) startup_proc" where
  "getenv k = reading (\<lambda>s. map_of (su_environ s) k)"

definition getenv_or :: "string \<Rightarrow> string \<Rightarrow> ('x, string) startup_proc" where
  "getenv_or k d = reading (\<lambda>s. case map_of (su_environ s) k of None \<Rightarrow> d | Some v \<Rightarrow> v)"

definition setenv :: "string \<Rightarrow> string \<Rightarrow> ('x, unit) startup_proc" where
  "setenv k v = act (\<lambda>s. s\<lparr>su_env := dset k v (su_env s)\<rparr>)"

definition env_item :: "string \<Rightarrow> ('x, string) startup_proc" where
  "env_item k = bind (reading (\<lambda>s. map_of (su_env s) k)) (\<lambda>v. case v of None \<Rightarrow> Raise Py_key | Some v \<Rightarrow> Ret v)"

section \<open>Commands\<close>

text \<open>
  \<open>Command.run\<close> of \<open>startup/storage/command.py\<close>, with the time limit left to \<open>subprocess.run\<close>: the status of the
  command, \<open>Command_timed_out\<close>, or the error of a command that does not run at all.
\<close>

definition command_run :: "bool \<Rightarrow> string list \<Rightarrow> ('s, os_wait, os_answer, startup_exn, int) proc" where
  "command_run ignore_fail args =
     bind (await (W_command args)) (\<lambda>a. case a of
         A_int code \<Rightarrow> if code \<noteq> 0 \<and> \<not> ignore_fail then Raise (Command_failed args code) else Ret code
       | _ \<Rightarrow> Raise Py_type)"

end
