(* ===== verification/Startup_Env.thy ===== *)
theory Startup_Env
  imports Startup_Base
begin

text \<open>
  The environment of the lab process: \<open>services/environment.py\<close> and \<open>utils.py\<close> of \<open>src/src/nublado/startup\<close>.
  Logging is left out.
\<close>

section \<open>Utilities\<close>

text \<open>What follows the first occurrence.\<close>

fun after_first :: "string \<Rightarrow> string \<Rightarrow> string option" where
  "after_first p [] = (if p = [] then Some [] else None)"
| "after_first p (c # cs) = (if prefix p (c # cs) then Some (drop (length p) (c # cs)) else after_first p cs)"

definition get_digest :: "('x, string) startup_proc" where
  "get_digest = bind (getenv_or ''JUPYTER_IMAGE_SPEC'' []) (\<lambda>spec.
     Ret (case after_first ''@sha256:'' spec of None \<Rightarrow> [] | Some d \<Rightarrow> d))"

definition get_jupyterlab_config_dir :: "('x, fs_path) startup_proc" where
  "get_jupyterlab_config_dir = bind (getenv_or ''JUPYTERLAB_CONFIG_DIR'' ''/opt/lsst/software/jupyterlab'') (\<lambda>d. Ret (path_of d))"

definition get_runtime_mounts_dir :: "('x, fs_path) startup_proc" where
  "get_runtime_mounts_dir =
     bind (getenv_or ''NUBLADO_RUNTIME_MOUNTS_DIR'' ''/opt/lsst/software/jupyterlab'') (\<lambda>d. Ret (path_of d))"

section \<open>Users and scratch space\<close>

definition env_home :: "('x, fs_path) startup_proc" where
  "env_home = bind (env_item ''HOME'') (\<lambda>h. Ret (path_of h))"

definition set_user :: "('x, unit) startup_proc" where
  "set_user = bind env_home (\<lambda>h. setenv ''USER'' (path_name h))"

definition user_scratch :: "fs_path \<Rightarrow> string \<Rightarrow> string \<Rightarrow> (startup_exn, fs_path) result" where
  "user_scratch scratch schema user' =
     (if schema = ''initialThenUsername''
      then (case user' of [] \<Rightarrow> Inl Py_index | c # _ \<Rightarrow> Inr (below (below scratch [c]) user'))
      else Inr (below scratch user'))"

definition check_user_scratch_subdir :: "fs_path \<Rightarrow> ('x, fs_path option) startup_proc" where
  "check_user_scratch_subdir path =
     bind (getenv_or ''SCRATCH_PATH'' ''/scratch'') (\<lambda>t. let scratch = path_of t in
     bind (ask_bool (W_is_dir scratch)) (\<lambda>b.
       if \<not> b then Ret None
       else bind (env_item ''USER'') (\<lambda>user'.
         bind (getenv_or ''HOMEDIR_SCHEMA'' ''username'') (\<lambda>schema.
         bind (or_exn (user_scratch scratch schema user')) (\<lambda>dir.
           let full = path_join dir path in
           bind (catch_os (seq (call (W_mkdir True True full)) (Ret True)) (\<lambda>_. Ret False)) (\<lambda>made.
             if \<not> made then Ret None
             else bind (ask_bool (W_writable full)) (\<lambda>w.
               if \<not> w then Ret None
               else seq (setenv ''SCRATCH_DIR'' (path_text dir)) (Ret (Some full)))))))))"

definition set_tmpdir_if_scratch_available :: "('x, unit) startup_proc" where
  "set_tmpdir_if_scratch_available =
     bind (getenv_or ''TMPDIR'' []) (\<lambda>t.
       if t \<noteq> [] then Ret ()
       else bind (check_user_scratch_subdir (path_of ''tmp'')) (\<lambda>p.
         case p of None \<Rightarrow> Ret () | Some p \<Rightarrow> setenv ''TMPDIR'' (path_text p)))"

definition set_butler_cache :: "('x, unit) startup_proc" where
  "set_butler_cache =
     bind (getenv_or ''DAF_BUTLER_CACHE_DIRECTORY'' []) (\<lambda>t.
       if t \<noteq> [] then Ret ()
       else bind (check_user_scratch_subdir (path_of ''butler_cache'')) (\<lambda>p.
         setenv ''DAF_BUTLER_CACHE_DIRECTORY''
           (case p of None \<Rightarrow> ''/tmp/butler_cache'' | Some p \<Rightarrow> path_text p)))"

section \<open>The other variables\<close>

definition cpu_variables :: "string list" where
  "cpu_variables = [''CPU_LIMIT'', ''CPU_COUNT'', ''GOTO_NUM_THREADS'', ''MKL_DOMAIN_NUM_THREADS'', ''MPI_NUM_THREADS'',
     ''NUMEXPR_NUM_THREADS'', ''NUMEXPR_MAX_THREADS'', ''OMP_NUM_THREADS'', ''OPENBLAS_NUM_THREADS'', ''RAYON_NUM_THREADS'']"

definition set_cpu_variables :: "startup_lib \<Rightarrow> ('x, unit) startup_proc" where
  "set_cpu_variables lib =
     bind (getenv_or ''CPU_LIMIT'' ''1'') (\<lambda>t.
     bind (case sl_int_of_float lib t of Inl Py_value \<Rightarrow> Ret 1 | r \<Rightarrow> or_exn r) (\<lambda>n.
       for_each cpu_variables (\<lambda>v. setenv v (dec_int (max n 1)))))"

definition set_image_digest :: "('x, unit) startup_proc" where
  "set_image_digest = bind get_digest (\<lambda>d. do_if (d \<noteq> []) (setenv ''IMAGE_DIGEST'' d))"

definition expand_panda_tilde :: "('x, unit) startup_proc" where
  "expand_panda_tilde =
     bind (getenv_or ''PANDA_CONFIG_ROOT'' []) (\<lambda>root.
       if root = [] then Ret ()
       else bind (env_item ''USER'') (\<lambda>username.
         case all_parts (path_of root) of
           [] \<Rightarrow> Raise Py_index
         | p # ps \<Rightarrow>
             if p = ''~'' \<or> p = CHR ''~'' # username
             then bind env_home (\<lambda>h. setenv ''PANDA_CONFIG_ROOT'' (path_text (foldl below h ps)))
             else Ret ()))"

definition set_firefly_variables :: "('x, unit) startup_proc" where
  "set_firefly_variables =
     bind (getenv_or ''EXTERNAL_INSTANCE_URL'' ''https://localhost:8888'') (\<lambda>ext_url.
     bind (getenv_or ''REPERTOIRE_BASE_URL'' (ext_url @ ''/repertoire'')) (\<lambda>rep_url.
     bind (catch (await (W_portal rep_url)) (\<lambda>e. if e = Repertoire_failed then Ret (A_url None) else Raise e)) (\<lambda>a.
       case a of
         A_url u \<Rightarrow> (case u of None \<Rightarrow> Ret () | Some u \<Rightarrow> do_if (u \<noteq> []) (setenv ''FIREFLY_URL'' u))
       | _ \<Rightarrow> Raise Py_type)))"

definition force_jupyter_prefer_env_path_false :: "('x, unit) startup_proc" where
  "force_jupyter_prefer_env_path_false = setenv ''JUPYTER_PREFER_ENV_PATH'' ''no''"

definition set_butler_credential_variables :: "('x, unit) startup_proc" where
  "set_butler_credential_variables =
     bind env_home (\<lambda>h. let cred_dir = below h ''.lsst'' in
       seq (bind (getenv_or ''AWS_SHARED_CREDENTIALS_FILE'' []) (\<lambda>f. do_if (f \<noteq> [])
              (seq (setenv ''ORIG_AWS_SHARED_CREDENTIALS_FILE'' f)
                (setenv ''AWS_SHARED_CREDENTIALS_FILE'' (path_text (below cred_dir (path_name (path_of f))))))))
           (bind (getenv_or ''PGPASSFILE'' []) (\<lambda>f. do_if (f \<noteq> [])
              (seq (setenv ''ORIG_PGPASSFILE'' f)
                (setenv ''PGPASSFILE'' (path_text (below cred_dir (path_name (path_of f)))))))))"

definition configure_env :: "startup_lib \<Rightarrow> ('x, unit) startup_proc" where
  "configure_env lib =
     seq set_user (seq set_tmpdir_if_scratch_available (seq set_butler_cache (seq (set_cpu_variables lib)
       (seq set_image_digest (seq expand_panda_tilde (seq set_firefly_variables
         (seq force_jupyter_prefer_env_path_false set_butler_credential_variables)))))))"

end
