(* ===== verification/Startup_Home.thy ===== *)
theory Startup_Home
  imports Startup_Env
begin

text \<open>
  The home directory at the startup of a lab: \<open>services/credentials.py\<close>, \<open>dask.py\<close> and \<open>homedir.py\<close> of
  \<open>src/src/nublado/startup\<close>. Logging is left out.
\<close>

section \<open>Credentials\<close>

definition require_env :: "string \<Rightarrow> startup_lib \<Rightarrow> ('x, unit) startup_proc" where
  "require_env k lib = bind (reading (\<lambda>s. map_of (su_env s) k)) (\<lambda>v.
     case v of
       None \<Rightarrow> Raise (Os (rsp_startup_error lib (Errno_member EBADENV) None (Some ([CHR 0x27] @ k @ [CHR 0x27])) None None))
     | Some _ \<Rightarrow> Ret ())"

text \<open>The file in the home directory, made with its directory when it is missing.\<close>

definition touch_below_home :: "fs_path \<Rightarrow> ('s, os_wait, os_answer, startup_exn, unit) proc" where
  "touch_below_home p =
     seq (bind (ask_bool (W_exists True (path_parent p))) (\<lambda>b. do_if (\<not> b) (call (W_mkdir True False (path_parent p)))))
       (call (W_touch p))"

text \<open>\<open>ConfigParser.read\<close> passes over a file that cannot be opened.\<close>

definition read_ini :: "startup_lib \<Rightarrow> fs_path \<Rightarrow> ('s, os_wait, os_answer, startup_exn, ini) proc" where
  "read_ini lib p = bind (catch_os (bind (ask_text (W_read p)) (\<lambda>t. Ret (Some t))) (\<lambda>_. Ret None)) (\<lambda>t.
     case t of None \<Rightarrow> Ret [] | Some t \<Rightarrow> or_exn (sl_ini_read lib t))"

fun copy_sections :: "startup_lib \<Rightarrow> ini \<Rightarrow> string list \<Rightarrow> ini \<Rightarrow> (startup_exn, ini) result" where
  "copy_sections lib ro [] home = Inr home"
| "copy_sections lib ro (sect # ss) home =
     rbind (sl_ini_section lib ro sect) (\<lambda>d. copy_sections lib ro ss (dset sect d home))"

definition ini_sections :: "ini \<Rightarrow> string list" where
  "ini_sections c = filter (\<lambda>k. k \<noteq> ''DEFAULT'') (dkeys c)"

definition merge_aws_creds :: "startup_lib \<Rightarrow> ('x, unit) startup_proc" where
  "merge_aws_creds lib =
     seq (require_env ''AWS_SHARED_CREDENTIALS_FILE'' lib) (seq (require_env ''ORIG_AWS_SHARED_CREDENTIALS_FILE'' lib)
       (bind (env_item ''AWS_SHARED_CREDENTIALS_FILE'') (\<lambda>t. let p = path_of t in
        seq (touch_below_home p)
          (bind (read_ini lib p) (\<lambda>home.
           bind (env_item ''ORIG_AWS_SHARED_CREDENTIALS_FILE'') (\<lambda>orig.
           bind (read_ini lib (path_of orig)) (\<lambda>ro.
           bind (or_exn (copy_sections lib ro (ini_sections ro) home)) (\<lambda>merged.
             call (W_write p (sl_ini_text lib merged))))))))))"

text \<open>\<open>str.splitlines\<close>: the ends of lines among the ASCII characters.\<close>

definition line_end :: "char \<Rightarrow> bool" where
  "line_end c \<longleftrightarrow> (of_char c :: nat) \<in> {10, 11, 12, 13, 28, 29, 30}"

fun splitlines :: "string \<Rightarrow> string list" where
  "splitlines [] = []"
| "splitlines (c # cs) =
     (if c = CHR 0x0D \<and> cs \<noteq> [] \<and> hd cs = CHR 0x0A then [] # splitlines (tl cs)
      else if line_end c then [] # splitlines cs
      else case splitlines cs of [] \<Rightarrow> [[c]] | l # ls \<Rightarrow> (c # l) # ls)"

definition rstrip :: "string \<Rightarrow> string" where
  "rstrip s = rev (dropWhile is_space (rev s))"

text \<open>\<open>line.rsplit(":", maxsplit=1)\<close> of a line with a colon.\<close>

definition split_last_colon :: "string \<Rightarrow> string \<times> string" where
  "split_last_colon s = (rev (tl (dropWhile (\<lambda>c. c \<noteq> CHR '':'') (rev s))), after_last (CHR '':'') s)"

fun pgpass_lines :: "string list \<Rightarrow> (string, string) dict \<Rightarrow> (string, string) dict" where
  "pgpass_lines [] config = config"
| "pgpass_lines (line # ls) config =
     (if CHR '':'' \<notin> set line then pgpass_lines ls config
      else let (connection, passwd) = split_last_colon line in pgpass_lines ls (dset connection (rstrip passwd) config))"

definition pgpass_text :: "(string, string) dict \<Rightarrow> string" where
  "pgpass_text config = concat (map (\<lambda>(connection, passwd). connection @ '':'' @ passwd @ [CHR 0x0A]) config)"

definition merge_pgpass :: "startup_lib \<Rightarrow> ('x, unit) startup_proc" where
  "merge_pgpass lib =
     seq (require_env ''PGPASSFILE'' lib) (seq (require_env ''ORIG_PGPASSFILE'' lib)
       (bind (env_item ''PGPASSFILE'') (\<lambda>t. let p = path_of t in
        seq (touch_below_home p)
          (bind (ask_text (W_read p)) (\<lambda>home.
           bind (env_item ''ORIG_PGPASSFILE'') (\<lambda>orig.
           bind (ask_text (W_read (path_of orig))) (\<lambda>ro.
             call (W_write p (pgpass_text (pgpass_lines (splitlines ro) (pgpass_lines (splitlines home) [])))))))))))"

definition copy_butler_credentials :: "startup_lib \<Rightarrow> ('x, unit) startup_proc" where
  "copy_butler_credentials lib =
     seq (bind (reading (\<lambda>s. map_of (su_env s) ''AWS_SHARED_CREDENTIALS_FILE'')) (\<lambda>v. do_if (v \<noteq> None) (merge_aws_creds lib)))
       (bind (reading (\<lambda>s. map_of (su_env s) ''PGPASSFILE'')) (\<lambda>v. do_if (v \<noteq> None) (merge_pgpass lib)))"

section \<open>Dask\<close>

fun flense_items :: "(pyval \<times> pyval) list \<Rightarrow> (pyval \<times> pyval) list" where
  "flense_items [] = []"
| "flense_items ((k, v) # r) =
     (case v of
        V_none \<Rightarrow> flense_items r
      | V_dict d \<Rightarrow> (case flense_items d of [] \<Rightarrow> flense_items r | e # es \<Rightarrow> (k, V_dict (e # es)) # flense_items r)
      | _ \<Rightarrow> (k, v) # flense_items r)"

definition flense_dict :: "pyval \<Rightarrow> (startup_exn, pyval option) result" where
  "flense_dict v =
     (if \<not> is_true v then Inr None
      else case v of
        V_dict d \<Rightarrow> Inr (case flense_items d of [] \<Rightarrow> None | e # es \<Rightarrow> Some (V_dict (e # es)))
      | _ \<Rightarrow> Inl Py_attribute)"

definition dict1 :: "string \<Rightarrow> pyval \<Rightarrow> pyval" where
  "dict1 k v = V_dict [(V_text k, v)]"

definition newlink :: string where
  "newlink = ''{JUPYTERHUB_PUBLIC_URL}proxy/{port}/status''"

definition goodlink :: pyval where
  "goodlink = dict1 ''distributed'' (dict1 ''dashboard'' (dict1 ''link'' (V_text newlink)))"

text \<open>\<open>obj.update(goodlink)\<close>: the whole value of \<open>distributed\<close> is replaced.\<close>

definition update_goodlink :: "pyval \<Rightarrow> pyval" where
  "update_goodlink v = with_item v ''distributed'' (dict1 ''dashboard'' (dict1 ''link'' (V_text newlink)))"

text \<open>
  What an existing file is to hold: \<open>None\<close> if it is right as it is. When its contents are not understood
  the variable for the new contents stays unbound, and both writing it and reporting that fail.
\<close>

definition new_proxy_contents :: "startup_lib \<Rightarrow> string \<Rightarrow> (startup_exn, pyval option) result" where
  "new_proxy_contents lib t =
     rbind (case sl_yaml_load lib t of None \<Rightarrow> Inl Py_value | Some v \<Rightarrow> Inr v) (\<lambda>v.
     rbind (flense_dict v) (\<lambda>obj.
       Inr (case obj of
          None \<Rightarrow> Some (update_goodlink (V_dict []))
        | Some obj \<Rightarrow> if obj = goodlink then None else Some (update_goodlink obj))))"

definition file_exists_error :: "startup_lib \<Rightarrow> os_error \<Rightarrow> bool" where
  "file_exists_error lib x = (case oe_errno x of Errno n \<Rightarrow> sl_errorcode lib n = Some ''EEXIST'' | _ \<Rightarrow> False)"

definition inject_new_proxy :: "startup_lib \<Rightarrow> fs_path \<Rightarrow> ('s, os_wait, os_answer, startup_exn, unit) proc" where
  "inject_new_proxy lib tgt =
     bind (catch_os (seq (call (W_mkdir True True (path_parent tgt))) (Ret True))
             (\<lambda>x. if file_exists_error lib x then Ret False else Raise (Os x))) (\<lambda>made.
       if \<not> made then Ret ()
       else bind (ask_bool (W_exists True tgt)) (\<lambda>b.
         bind (if b then catch (bind (ask_text (W_read tgt)) (\<lambda>t. or_exn (new_proxy_contents lib t))) (\<lambda>_. Raise Py_unbound)
               else Ret (Some goodlink)) (\<lambda>obj.
           case obj of
             None \<Rightarrow> Ret ()
           | Some obj \<Rightarrow> catch (call (W_write tgt (sl_yaml_dump lib obj))) (\<lambda>_. Ret ()))))"

definition clean_empty_config :: "startup_lib \<Rightarrow> fs_path \<Rightarrow> fs_path \<Rightarrow> ('s, os_wait, os_answer, startup_exn, pyval option) proc" where
  "clean_empty_config lib fl bk =
     bind (catch (bind (ask_text (W_read fl)) (\<lambda>t. case sl_yaml_load lib t of None \<Rightarrow> Raise Py_value | Some v \<Rightarrow> Ret v))
             (\<lambda>_. Ret V_none)) (\<lambda>v.
     bind (or_exn (flense_dict v)) (\<lambda>flensed.
       if flensed = None then seq (call (W_move fl bk)) (Ret None) else Ret flensed))"

definition old_link_part :: string where
  "old_link_part = ''{EXTERNAL_INSTANCE_URL}{JUPYTERHUB_SERVICE_PREFIX}''"

definition new_link_part :: string where
  "new_link_part = ''{JUPYTERHUB_PUBLIC_URL}''"

definition dashboard_link :: "pyval \<Rightarrow> (startup_exn, pyval) result" where
  "dashboard_link cfg = rbind (item cfg ''distributed'') (\<lambda>d. rbind (item d ''dashboard'') (\<lambda>b. item b ''link''))"

definition with_link :: "pyval \<Rightarrow> string \<Rightarrow> pyval" where
  "with_link cfg t =
     (case item cfg ''distributed'' of
        Inr d \<Rightarrow> (case item d ''dashboard'' of
            Inr b \<Rightarrow> with_item cfg ''distributed'' (with_item d ''dashboard'' (with_item b ''link'' (V_text t)))
          | _ \<Rightarrow> cfg)
      | _ \<Rightarrow> cfg)"

definition fix_dashboard :: "startup_lib \<Rightarrow> pyval \<Rightarrow> fs_path \<Rightarrow> fs_path \<Rightarrow> ('s, os_wait, os_answer, startup_exn, bool) proc" where
  "fix_dashboard lib cfg fl bk =
     (case dashboard_link cfg of
        Inl Py_key \<Rightarrow> Ret False
      | Inl e \<Rightarrow> Raise e
      | Inr (V_text val) \<Rightarrow>
          if str_contains new_link_part val then Ret True
          else if \<not> str_contains old_link_part val then Ret False
          else bind (catch (seq (call (W_copy fl bk)) (Ret True)) (\<lambda>_. Ret False)) (\<lambda>saved.
            if \<not> saved then Ret False
            else let newval = str_replace old_link_part new_link_part val in
              if newval = val then Ret False
              else catch (seq (call (W_write fl (sl_yaml_dump lib (with_link cfg newval)))) (Ret True)) (\<lambda>_. Ret False))
      | Inr _ \<Rightarrow> Ret False)"

fun tidy_files :: "startup_lib \<Rightarrow> fs_path list \<Rightarrow> bool \<Rightarrow> ('s, os_wait, os_answer, startup_exn, bool) proc" where
  "tidy_files lib [] retval = Ret retval"
| "tidy_files lib (fl # fls) retval =
     bind (ask_text W_today) (\<lambda>today. let bk = path_of (path_text fl @ ''.'' @ today) in
     bind (clean_empty_config lib fl bk) (\<lambda>newcfg.
       case newcfg of
         None \<Rightarrow> tidy_files lib fls retval
       | Some cfg \<Rightarrow> bind (fix_dashboard lib cfg fl bk) (\<lambda>r. tidy_files lib fls r)))"

definition tidy_extant_config :: "startup_lib \<Rightarrow> fs_path \<Rightarrow> ('s, os_wait, os_answer, startup_exn, bool) proc" where
  "tidy_extant_config lib cfgdir =
     bind (ask_paths (W_glob cfgdir ''*.yaml'')) (\<lambda>fls. bind (tidy_files lib fls False) (\<lambda>r.
     bind (ask_paths (W_glob cfgdir ''*.yml'')) (\<lambda>fls. tidy_files lib fls r)))"

definition setup_dask :: "startup_lib \<Rightarrow> ('x, unit) startup_proc" where
  "setup_dask lib =
     bind (reading su_home) (\<lambda>home. let cfgdir = below (below home ''.config'') ''dask'' in
     bind (ask_bool (W_is_dir cfgdir)) (\<lambda>b.
     bind (if b then tidy_extant_config lib cfgdir else Ret False) (\<lambda>good.
       do_if (\<not> good) (inject_new_proxy lib (below cfgdir ''dashboard.yaml'')))))"

section \<open>Stale files and free space\<close>

definition remove_astropy_cachedir :: "fs_path \<Rightarrow> ('s, os_wait, os_answer, startup_exn, unit) proc" where
  "remove_astropy_cachedir dir =
     seq (call (W_unlink (below dir ''url''))) (seq (call (W_unlink (below dir ''contents''))) (call (W_rmdir dir)))"

definition handle_expiry :: "fs_path \<Rightarrow> string \<Rightarrow> ('s, os_wait, os_answer, startup_exn, unit) proc" where
  "handle_expiry cachefile expiry =
     (case read_int expiry of
        None \<Rightarrow> Ret ()
      | Some exptime \<Rightarrow>
          bind (await W_time) (\<lambda>a. case a of
              A_int now \<Rightarrow> do_if (now > exptime * 1000000) (catch_os (remove_astropy_cachedir cachefile) (\<lambda>_. Ret ()))
            | _ \<Rightarrow> Raise Py_type))"

text \<open>\<open>parse_qsl\<close>: fields without a value are dropped.\<close>

definition parse_qsl :: "startup_lib \<Rightarrow> string \<Rightarrow> (string \<times> string) list" where
  "parse_qsl lib q =
     concat (map (\<lambda>f. case partition_at (CHR ''='') f of
         None \<Rightarrow> []
       | Some (k, v) \<Rightarrow> if v = [] then []
           else [(sl_unquote lib (str_replace ''+'' '' '' k), sl_unquote lib (str_replace ''+'' '' '' v))])
       (split_on (CHR ''&'') q))"

definition clean_cache_entry :: "startup_lib \<Rightarrow> fs_path \<Rightarrow> ('s, os_wait, os_answer, startup_exn, unit) proc" where
  "clean_cache_entry lib c =
     (let urlfile = below c ''url'' in
      bind (ask_bool (W_is_file urlfile)) (\<lambda>b.
        if \<not> b then Ret ()
        else bind (catch (bind (ask_text (W_read urlfile)) (\<lambda>t. Ret (Some t))) (\<lambda>_. Ret None)) (\<lambda>url.
          case url of
            None \<Rightarrow> Ret ()
          | Some url \<Rightarrow>
              (case urlparse url [] of
                 None \<Rightarrow> Raise Py_value
               | Some u \<Rightarrow>
                   for_each (parse_qsl lib (u_query u)) (\<lambda>(k, v).
                     do_if (map to_lower k = ''expires'') (handle_expiry c v))))))"

definition clean_astropy_cache :: "startup_lib \<Rightarrow> ('x, unit) startup_proc" where
  "clean_astropy_cache lib =
     bind (reading su_home) (\<lambda>home.
       let cachedir = below (below (below (below home ''.astropy'') ''cache'') ''download'') ''url'' in
       bind (ask_bool (W_exists True cachedir)) (\<lambda>b.
         if \<not> b then Ret ()
         else bind (ask_paths (W_list cachedir)) (\<lambda>xs.
           bind (collect xs (\<lambda>x. bind (ask_bool (W_is_dir x)) (\<lambda>d. Ret (x, d)))) (\<lambda>ys.
             for_each (map fst (filter snd ys)) (clean_cache_entry lib)))))"

definition remove_cachefile :: "fs_path \<Rightarrow> ('s, os_wait, os_answer, startup_exn, unit) proc" where
  "remove_cachefile p = bind (ask_bool (W_is_file p)) (\<lambda>b. do_if b (call (W_unlink p)))"

definition megabyte :: string where
  "megabyte = concat (replicate (64 * 1024) ''0123456789abcdef'')"

definition write_a_megabyte :: "fs_path \<Rightarrow> ('s, os_wait, os_answer, startup_exn, unit) proc" where
  "write_a_megabyte p =
     seq (call (W_mkdir False True (path_parent p))) (seq (call (W_write p megabyte)) (remove_cachefile p))"

definition try_emergency_cleanup :: "('x, unit) startup_proc" where
  "try_emergency_cleanup =
     bind (reading su_home) (\<lambda>home.
       catch (for_each [below home ''.cache'', below (below home ''.astropy'') ''cache'']
           (\<lambda>cdir. seq (call (W_rmtree cdir)) (call (W_mkdir False True cdir))))
         (\<lambda>_. Ret ()))"

definition test_for_space :: "('x, unit) startup_proc" where
  "test_for_space =
     bind (reading su_home) (\<lambda>home. let cachefile = below (below home ''.cache'') ''1mb.txt'' in
       catch_os (write_a_megabyte cachefile)
         (\<lambda>x. seq try_emergency_cleanup (try_else (write_a_megabyte cachefile) (\<lambda>_. Raise (Os x)) Ret)))"

definition tidy_homedir :: "startup_lib \<Rightarrow> ('x, unit) startup_proc" where
  "tidy_homedir lib = seq (clean_astropy_cache lib) test_for_space"

section \<open>Files for the user\<close>

definition check_for_git_lfs :: "('x, bool) startup_proc" where
  "check_for_git_lfs =
     bind (reading su_home) (\<lambda>home. let gitconfig = below home ''.gitconfig'' in
     bind (ask_bool (W_is_file gitconfig)) (\<lambda>b.
       if \<not> b then Ret False
       else bind (ask_text (W_read gitconfig)) (\<lambda>t.
         Ret (list_ex (\<lambda>l. strip l = ''[filter \"lfs\"]'') (splitlines t)))))"

definition setup_gitlfs :: "('x, unit) startup_proc" where
  "setup_gitlfs = bind check_for_git_lfs (\<lambda>b. do_if (\<not> b) (seq (command_run True [''git'', ''lfs'', ''install'']) (Ret ())))"

definition previous_logging_checksums :: "string list" where
  "previous_logging_checksums = [''2997fe99eb12846a1b724f0b82b9e5e6acbd1d4c29ceb9c9ae8f1ef5503892ec'']"

definition copy_logging_profile :: "startup_lib \<Rightarrow> ('x, unit) startup_proc" where
  "copy_logging_profile lib =
     bind (reading su_home) (\<lambda>home.
       let user_profile = below (below (below (below home ''.ipython'') ''profile_default'') ''startup'') ''20-logging.py''
       in bind (ask_bool (W_is_file user_profile)) (\<lambda>b.
          bind (if \<not> b then Ret True
                else bind (ask_text (W_read user_profile)) (\<lambda>t. Ret (sl_sha256 lib t \<in> set previous_logging_checksums))) (\<lambda>copy.
            if \<not> copy then Ret ()
            else let pdir = path_parent user_profile in
              seq (bind (ask_bool (W_is_dir pdir)) (\<lambda>d. do_if (\<not> d) (call (W_mkdir True False pdir))))
                (bind get_jupyterlab_config_dir (\<lambda>jl_path.
                 let first = below (below jl_path ''etc'') ''20-logging.py''; second = below jl_path ''20-logging.py'' in
                 bind (ask_bool (W_is_file first)) (\<lambda>f.
                   let srcfile = (if f then first else second) in
                   bind (ask_bool (W_is_file srcfile)) (\<lambda>there.
                     if \<not> there then Ret ()
                     else bind (ask_text (W_read srcfile)) (\<lambda>t. call (W_write user_profile t)))))))))"

definition etc_path :: fs_path where
  "etc_path = path_of ''/etc''"

definition copy_dircolors :: "('x, unit) startup_proc" where
  "copy_dircolors =
     bind (reading su_home) (\<lambda>home. let p = below home ''.dir_colors'' in
     bind (ask_bool (W_exists True p)) (\<lambda>b. do_if (\<not> b)
       (bind (ask_text (W_read (below etc_path ''dircolors.ansi-universal''))) (\<lambda>t. call (W_write p t)))))"

text \<open>One directory of the tree: its directories and files, put below \<open>current_dir\<close> when they are missing.\<close>

definition copy_skel_files :: "fs_path \<Rightarrow> fs_path \<Rightarrow> string list \<Rightarrow> ('s, os_wait, os_answer, startup_exn, unit) proc" where
  "copy_skel_files dirpath current_dir files =
     for_each files (\<lambda>f.
       bind (ask_bool (W_exists True (below current_dir f))) (\<lambda>b.
         do_if (\<not> b) (bind (ask_text (W_read (below dirpath f))) (\<lambda>t. call (W_write (below current_dir f) t)))))"

definition copy_skel_level ::
  "fs_path \<Rightarrow> fs_path \<Rightarrow> fs_path \<times> string list \<times> string list \<Rightarrow> ('s, os_wait, os_answer, startup_exn, unit) proc" where
  "copy_skel_level home etc_skel level =
     (let (dirpath, dirs, files) = level;
          current_dir = (if dirpath = etc_skel then home
                         else below home (drop (length (path_text etc_skel) + 1) (path_text dirpath)))
      in seq (for_each dirs (\<lambda>d.
                bind (ask_bool (W_is_dir (below current_dir d))) (\<lambda>b. do_if (\<not> b) (call (W_mkdir False False (below current_dir d))))))
           (copy_skel_files dirpath current_dir files))"

definition copy_etc_skel :: "('x, unit) startup_proc" where
  "copy_etc_skel =
     bind (reading su_home) (\<lambda>home. let etc_skel = below etc_path ''skel'' in
     bind (await (W_walk etc_skel)) (\<lambda>a. case a of
         A_tree levels \<Rightarrow> for_each levels (copy_skel_level home etc_skel)
       | _ \<Rightarrow> Raise Py_type))"

definition copy_files_to_user_homedir :: "startup_lib \<Rightarrow> ('x, unit) startup_proc" where
  "copy_files_to_user_homedir lib =
     seq (copy_butler_credentials lib) (seq (setup_dask lib) (seq setup_gitlfs (seq (copy_logging_profile lib)
       (seq copy_dircolors copy_etc_skel))))"

section \<open>Settings\<close>

definition max_number_outputs :: int where
  "max_number_outputs = 10000"

text \<open>\<open>current_limit < MAX_NUMBER_OUTPUTS\<close>\<close>

definition less_than :: "startup_lib \<Rightarrow> pyval \<Rightarrow> int \<Rightarrow> (startup_exn, bool) result" where
  "less_than lib v n =
     (case v of
        V_int i \<Rightarrow> Inr (i < n) | V_bool b \<Rightarrow> Inr ((if b then 1 else 0) < n) | V_float t \<Rightarrow> Inr (sl_float_less lib t n)
      | _ \<Rightarrow> Inl Py_type)"

text \<open>The new settings, or \<open>None\<close> when they stay as they are.\<close>

definition raise_log_limit :: "startup_lib \<Rightarrow> pyval \<Rightarrow> (startup_exn, pyval option) result" where
  "raise_log_limit lib settings =
     (case settings of
        V_dict d \<Rightarrow>
          rbind (less_than lib (case map_of d (V_text ''maxNumberOutputs'') of None \<Rightarrow> V_int 0 | Some v \<Rightarrow> v) max_number_outputs) (\<lambda>b.
            Inr (if b then Some (with_item settings ''maxNumberOutputs'' (V_int max_number_outputs)) else None))
      | _ \<Rightarrow> Inl Py_attribute)"

definition increase_log_limit :: "startup_lib \<Rightarrow> ('x, unit) startup_proc" where
  "increase_log_limit lib =
     bind (reading su_home) (\<lambda>home.
       let settings_dir = below (below (below (below (below home ''.jupyter'') ''lab'') ''user-settings'') ''@jupyterlab'')
             ''notebook-extension'';
           settings_file = below settings_dir ''tracker.jupyterlab.settings'' in
       seq (call (W_mkdir True True settings_dir))
         (bind (ask_bool (W_is_file settings_file)) (\<lambda>b.
          bind (if \<not> b then Ret (V_dict [])
                else bind (ask_text (W_read settings_file)) (\<lambda>t.
                  case sl_loads lib t of None \<Rightarrow> Raise Py_value | Some v \<Rightarrow> Ret v)) (\<lambda>settings.
          bind (or_exn (raise_log_limit lib settings)) (\<lambda>new.
            case new of None \<Rightarrow> Ret () | Some v \<Rightarrow> call (W_write settings_file (sl_dumps lib (Some 4) True v)))))))"

definition modify_interactive_settings :: "startup_lib \<Rightarrow> ('x, unit) startup_proc" where
  "modify_interactive_settings lib = increase_log_limit lib"

end
