(* ===== verification/Startup.thy ===== *)
theory Startup
  imports Startup_Home
begin

text \<open>
  The preparation of a lab, \<open>src/src/nublado/startup/services/preparer.py\<close>: it relocates the environment of
  the user if that is asked for, makes the environment of the lab, tidies the home directory and fills it,
  and writes the files from which the lab is started. Errors of the system become variables that the lab
  shows to the user. Logging is left out.
\<close>

section \<open>Abnormal startup\<close>

definition abnormal_variables :: "startup_lib \<Rightarrow> os_error \<Rightarrow> (string \<times> string) list" where
  "abnormal_variables lib x =
     (let e = (if oe_errorcode x \<noteq> None then x else from_os_error lib x);
          n = (case oe_errno e of Errno i \<Rightarrow> if i = 0 then rsp_code_value EUNKNOWN else i | _ \<Rightarrow> rsp_code_value EUNKNOWN)
      in [(''ABNORMAL_STARTUP'', ''TRUE''),
          (''ABNORMAL_STARTUP_ERRNO'', errno_text (oe_errno e)),
          (''ABNORMAL_STARTUP_STRERROR'',
             or_text (oe_strerror e) (or_text (Some (sl_strerror lib n)) (''Unknown error '' @ errno_text (oe_errno e)))),
          (''ABNORMAL_STARTUP_ERRORCODE'', or_text (oe_errorcode e) []),
          (''ABNORMAL_STARTUP_MESSAGE'', os_error_text e)])"

definition set_abnormal_startup :: "startup_lib \<Rightarrow> os_error \<Rightarrow> ('x, unit) startup_proc" where
  "set_abnormal_startup lib x =
     seq (act (\<lambda>s. s\<lparr>su_broken := True\<rparr>)) (for_each (abnormal_variables lib x) (\<lambda>(k, v). setenv k v))"

definition missing_variable :: "startup_lib \<Rightarrow> string \<Rightarrow> os_error" where
  "missing_variable lib k = rsp_startup_error lib (Errno_member EBADENV) None (Some ([CHR 0x27] @ k @ [CHR 0x27])) None None"

definition clear_abnormal_startup :: "('x, unit) startup_proc" where
  "clear_abnormal_startup =
     seq (for_each ['''', ''_ERRNO'', ''_STRERROR'', ''_MESSAGE'', ''_ERRORCODE'']
            (\<lambda>e. bind (env_item (''ABNORMAL_STARTUP'' @ e)) (\<lambda>_.
               act (\<lambda>s. s\<lparr>su_env := AList.delete (''ABNORMAL_STARTUP'' @ e) (su_env s)\<rparr>))))
         (act (\<lambda>s. s\<lparr>su_broken := False\<rparr>))"

text \<open>\<open>Preparer.__init__\<close>, from the environment of the process.\<close>

definition new_preparer :: "startup_lib \<Rightarrow> ('x, unit) startup_proc" where
  "new_preparer lib =
     seq (act (\<lambda>s. s\<lparr>su_broken := False, su_env := [],
                     su_debug := (case map_of (su_environ s) ''DEBUG'' of None \<Rightarrow> False | Some v \<Rightarrow> v \<noteq> [])\<rparr>))
     (seq (bind (getenv ''NUBLADO_HOME'') (\<lambda>h. case h of
             None \<Rightarrow> seq (set_abnormal_startup lib (missing_variable lib ''NUBLADO_HOME''))
                       (act (\<lambda>s. s\<lparr>su_home := path_of ''/tmp''\<rparr>))
           | Some h \<Rightarrow> act (\<lambda>s. s\<lparr>su_home := path_of h\<rparr>)))
     (seq (bind (reading su_home) (\<lambda>h. setenv ''HOME'' (path_text h)))
       (bind (env_item ''HOME'') (\<lambda>h. act (\<lambda>s. s\<lparr>su_environ := dset ''HOME'' h (su_environ s)\<rparr>)))))"

section \<open>Relocation\<close>

definition relocated :: "string list" where
  "relocated = [''cache'', ''conda'', ''config'', ''eups'', ''local'', ''jupyter'']"

definition relocate_candidate :: "fs_path \<Rightarrow> fs_path \<Rightarrow> string \<Rightarrow> ('s, os_wait, os_answer, startup_exn, unit) proc" where
  "relocate_candidate home reloc candidate =
     (let c_path = below home (CHR ''.'' # candidate) in
      bind (ask_bool (W_is_dir c_path)) (\<lambda>b. do_if b
        (seq (bind (ask_bool (W_is_dir reloc)) (\<lambda>r. do_if (\<not> r) (call (W_mkdir False False reloc))))
          (call (W_move c_path (below reloc candidate))))))"

definition relocate_user_environment_if_requested :: "('x, unit) startup_proc" where
  "relocate_user_environment_if_requested =
     bind (getenv_or ''RESET_USER_ENV'' []) (\<lambda>r.
       if r = [] then Ret ()
       else bind (ask_text W_stamp) (\<lambda>now. bind (reading su_home) (\<lambda>home.
         let reloc = below home (''.user_env.'' @ now); u_setups = below (below home ''notebooks'') ''.user_setups'' in
         seq (for_each relocated (relocate_candidate home reloc))
           (bind (ask_bool (W_is_file u_setups)) (\<lambda>b. do_if b
             (let tgt = below (below reloc ''notebooks'') ''user_setups'' in
              seq (call (W_mkdir False False (path_parent tgt))) (call (W_move u_setups tgt))))))))"

section \<open>What the user sees\<close>

text \<open>\<open>textwrap.dedent\<close>\<close>

definition blank :: "char \<Rightarrow> bool" where
  "blank c \<longleftrightarrow> c = CHR '' '' \<or> c = CHR 0x09"

fun common_start :: "string \<Rightarrow> string \<Rightarrow> string" where
  "common_start (a # as) (b # bs) = (if a = b then a # common_start as bs else [])"
| "common_start _ _ = []"

definition dedent :: "string \<Rightarrow> string" where
  "dedent s =
     (let ls = map (\<lambda>l. if list_all blank l then [] else l) (split_on (CHR 0x0A) s);
          margins = map (takeWhile blank) (filter (\<lambda>l. l \<noteq> []) ls);
          margin = (case margins of [] \<Rightarrow> [] | m # ms \<Rightarrow> foldl common_start m ms)
      in str_join [CHR 0x0A] (map (removeprefix margin) ls))"

definition indented :: "nat \<Rightarrow> string list \<Rightarrow> string" where
  "indented n ls =
     [CHR 0x0A] @ concat (map (\<lambda>l. (if l = [] then [] else replicate n (CHR '' '') @ l) @ [CHR 0x0A]) ls) @
     replicate n (CHR '' '')"

definition open_an_issue :: "string \<Rightarrow> string" where
  "open_an_issue errmsg = dedent (indented 12 [[], ''Please open an issue with your RSP site administrator with the'',
     ''following information: `'' @ errmsg @ ''`''])"

definition generic_text :: string where
  "generic_text = dedent (indented 8 [''# Abnormal startup'', [], ''Your Lab container did not start normally.'', [],
     ''Do not trust this lab for work you want to keep.'', []])"

definition advice :: "string \<Rightarrow> string \<Rightarrow> string" where
  "advice home errcode =
     (if errcode = ''EDQUOT'' then
        dedent (indented 20 [''You have exceeded your quota.  Try using the terminal to'',
          ''remove unneeded files in `'' @ home @ ''`.  You can use the'',
          ''`quota` command to check your usage.'', [],
          ''After that, shut down and restart the lab.  If that does'',
          ''not result in a working lab:''])
      else if errcode = ''ENOSPC'' then
        dedent (indented 20 [''You have run out of filesystem space.  Try using the'',
          ''terminal to remove unneeded files in `'' @ home @ ''`.'',
          ''Since the filesystem is full, this may not be something'',
          ''you can correct.'', [],
          ''After you have trimmed whatever possible, shut down and'',
          ''restart the lab.'', [],
          ''If that does not result in a working lab:''])
      else if errcode \<in> {''EROFS'', ''EACCES''} then
        dedent (indented 20 [''You do not have permission to write.  Ask your RSP'',
          ''administrator to check ownership and permissions on your'',
          ''directories.''])
      else if errcode = ''EBADENV'' then
        dedent (indented 20 [''You are missing environment variables necessary for RSP'', ''operation.''])
      else [])"

definition make_abnormal_landing_markdown :: "('x, string) startup_proc" where
  "make_abnormal_landing_markdown =
     bind (reading (\<lambda>s. case map_of (su_env s) ''ABNORMAL_STARTUP_MESSAGE'' of None \<Rightarrow> ''<no message>'' | Some m \<Rightarrow> m)) (\<lambda>errmsg.
     bind (reading (\<lambda>s. case map_of (su_env s) ''ABNORMAL_STARTUP_ERRORCODE'' of None \<Rightarrow> ''EUNKNOWN'' | Some m \<Rightarrow> m)) (\<lambda>errcode.
     bind (reading su_home) (\<lambda>home.
       Ret (generic_text @ advice (path_text home) errcode @ dedent (open_an_issue errmsg)))))"

definition viewer_settings :: pyval where
  "viewer_settings = V_dict [(V_text ''defaultViewers'', V_dict [(V_text ''markdown'', V_text ''Markdown Preview'')])]"

definition make_abnormal_startup_environment :: "startup_lib \<Rightarrow> ('x, unit) startup_proc" where
  "make_abnormal_startup_environment lib =
     bind (reading su_broken) (\<lambda>broken. do_if broken
       (bind make_abnormal_landing_markdown (\<lambda>txt.
         catch
           (bind (getenv_or ''SCRATCH_DIR'' ''/tmp'') (\<lambda>t. let temphome = path_of t;
                welcome = below (below (below temphome ''notebooks'') ''tutorials'') ''welcome.md'';
                settings = below (below (below (below (below (below temphome ''.jupyter'') ''lab'') ''user-settings'')
                  ''@jupyterlab'') ''docmanager-extension'') ''plugin.jupyterlab-settings'' in
             seq (call (W_mkdir True True (path_parent welcome))) (seq (call (W_write welcome txt))
               (seq (call (W_mkdir True True (path_parent settings)))
                 (call (W_write settings (sl_dumps lib None False viewer_settings)))))))
           (\<lambda>_. Ret ()))))"

section \<open>Startup files\<close>

definition lab_static_cmd_args :: "string list" where
  "lab_static_cmd_args = [''jupyterhub-singleuser'', ''--ip=0.0.0.0'', ''--port=8888'', ''--no-browser'',
     ''--ContentsManager.allow_hidden=True'', ''--FileContentsManager.hide_globs=[]'',
     ''--KernelSpecManager.ensure_native_kernel=False'', ''--QtExporter.enabled=False'', ''--PDFExporter.enabled=False'',
     ''--WebPDFExporter.enabled=False'', ''--MappingKernelManager.default_kernel_name=lsst'',
     ''--LabApp.check_for_updates_class=jupyterlab.NeverCheckForUpdate'']"

definition startup_path :: fs_path where
  "startup_path = path_of ''/etc/nublado/startup''"

definition timeout_map :: "(string \<times> string) list" where
  "timeout_map = [(''NO_ACTIVITY_TIMEOUT'', ''ServerApp.shutdown_no_activity_timeout''),
     (''CULL_KERNEL_IDLE_TIMEOUT'', ''MappingKernelManager.cull_idle_timeout''),
     (''CULL_KERNEL_CONNECTED'', ''MappingKernelManager.cull_connected''),
     (''CULL_KERNEL_INTERVAL'', ''MappingKernelManager.cull_interval''),
     (''CULL_TERMINAL_INACTIVE_TIMEOUT'', ''TerminalManager.cull_inactive_timeout''),
     (''CULL_TERMINAL_INTERVAL'', ''TerminalManager.cull_interval'')]"

definition timeout_args :: "(string, string) dict \<Rightarrow> string list" where
  "timeout_args environ =
     concat (map (\<lambda>(v, setting). case map_of environ v of
         None \<Rightarrow> [] | Some t \<Rightarrow> if t = [] then [] else [''--'' @ setting @ ''='' @ t]) timeout_map)"

definition set_timeout_variables :: "('x, string list) startup_proc" where
  "set_timeout_variables = reading (\<lambda>s. timeout_args (su_environ s))"

definition env_value :: "(string, string) dict \<Rightarrow> pyval" where
  "env_value vs = V_dict (map (\<lambda>(k, v). (V_text k, V_text v)) vs)"

definition write_lab_environment :: "startup_lib \<Rightarrow> ('x, unit) startup_proc" where
  "write_lab_environment lib =
     bind (reading su_env) (\<lambda>vs. call (W_write (below startup_path ''env.json'') (sl_dumps lib (Some 2) True (env_value vs))))"

definition write_lab_args :: "startup_lib \<Rightarrow> ('x, unit) startup_proc" where
  "write_lab_args lib =
     bind (reading (\<lambda>s. if su_debug s then ''DEBUG'' else ''INFO'')) (\<lambda>log_level.
     bind (reading su_home) (\<lambda>home.
     bind set_timeout_variables (\<lambda>timeouts.
       let cmd_args = lab_static_cmd_args @ [''--notebook-dir='' @ path_text home] @ [''--log-level='' @ log_level] @ timeouts in
       call (W_write (below startup_path ''args.json'') (sl_dumps lib (Some 2) False (V_list (map V_text cmd_args)))))))"

text \<open>A broken lab gets a home directory in scratch space, if it is known, or a temporary one.\<close>

definition use_temporary_home :: "('x, unit) startup_proc" where
  "use_temporary_home =
     act (\<lambda>s. let temphome = (case map_of (su_env s) ''SCRATCH_DIR'' of None \<Rightarrow> ''/tmp'' | Some t \<Rightarrow> t) in
       s\<lparr>su_env := dset ''HOME'' temphome (su_env s), su_home := path_of temphome\<rparr>)"

definition write_lab_startup_files :: "startup_lib \<Rightarrow> ('x, unit) startup_proc" where
  "write_lab_startup_files lib =
     seq (bind (reading su_broken) (\<lambda>broken. do_if broken
           (bind (env_item ''ABNORMAL_STARTUP_MESSAGE'') (\<lambda>_.
            seq (make_abnormal_startup_environment lib) use_temporary_home))))
     (seq (setenv ''RUNNING_INSIDE_JUPYTERLAB'' ''TRUE'')
       (catch (seq (write_lab_environment lib) (write_lab_args lib)) (\<lambda>_. Ret ())))"

section \<open>Preparation\<close>

definition prepare_environment :: "startup_lib \<Rightarrow> ('x, unit) startup_proc" where
  "prepare_environment lib =
     catch_os
       (seq relocate_user_environment_if_requested
         (bind (reading su_home) (\<lambda>h.
            if h = path_of ''/tmp'' then Raise (Os (missing_variable lib ''USER'')) else configure_env lib)))
       (set_abnormal_startup lib)"

definition prepare :: "startup_lib \<Rightarrow> ('x, unit) startup_proc" where
  "prepare lib =
     seq (prepare_environment lib)
     (seq (catch_os (tidy_homedir lib) (set_abnormal_startup lib))
     (seq (bind (reading su_broken) (\<lambda>broken. do_if (\<not> broken)
             (catch_os (seq (copy_files_to_user_homedir lib) (modify_interactive_settings lib)) (set_abnormal_startup lib))))
       (write_lab_startup_files lib)))"

end
