(* ===== verification/Provisioners.thy ===== *)
theory Provisioners
  imports Startup_Base
begin

text \<open>
  The provisioners that run before a lab: \<open>src/src/nublado/inithome/provisioner.py\<close>, which makes the home
  directory of a user, and \<open>src/src/nublado/landingpage\<close>, which puts the landing page into it. Logging is
  left out.
\<close>

section \<open>Home directories\<close>

definition max_id :: int where
  "max_id = 2 ^ 32 - 2"

definition validate_id :: "int \<Rightarrow> (startup_exn, int) result" where
  "validate_id ugid = (if ugid < 0 then Inl Py_value else if ugid > max_id then Inl Py_value else Inr ugid)"

record home_provisioner =
  hp_home :: fs_path
  hp_uid :: int
  hp_gid :: int

definition new_home_provisioner :: "fs_path \<Rightarrow> int \<Rightarrow> int \<Rightarrow> (startup_exn, home_provisioner) result" where
  "new_home_provisioner home u g =
     rbind (validate_id u) (\<lambda>u. rbind (validate_id g) (\<lambda>g. Inr \<lparr>hp_home = home, hp_uid = u, hp_gid = g\<rparr>))"

definition provision_home :: "home_provisioner \<Rightarrow> ('s, os_wait, os_answer, startup_exn, unit) proc" where
  "provision_home p =
     bind (ask_bool (W_exists True (hp_home p))) (\<lambda>b.
       if \<not> b then
         seq (call (W_umask 63)) (seq (call (W_mkdir False False (hp_home p)))
           (call (W_chown (hp_home p) (hp_uid p) (hp_gid p))))
       else bind (ask_bool (W_is_dir (hp_home p))) (\<lambda>d.
         if \<not> d then Raise (Invalid_home (path_text (hp_home p) @ '' exists but is not a directory''))
         else bind (await (W_stat (hp_home p))) (\<lambda>a. case a of
             A_stat u g mode \<Rightarrow>
               do_if (u \<noteq> hp_uid p \<or> g \<noteq> hp_gid p)
                 (bind (ask_paths (W_list (hp_home p))) (\<lambda>xs.
                    if xs \<noteq> [] then
                      Raise (Invalid_home (path_text (hp_home p) @ '' is owned by '' @ dec_int u @ '':'' @ dec_int g @ '', not '' @
                        dec_int (hp_uid p) @ '':'' @ dec_int (hp_gid p) @ '' and is not empty''))
                    else call (W_chown (hp_home p) (hp_uid p) (hp_gid p))))
           | _ \<Rightarrow> Raise Py_type)))"

section \<open>The landing page\<close>

record provisioner_input =
  pv_source_files :: "fs_path list"
  pv_home_dir :: fs_path
  pv_dest_dir :: fs_path
  pv_debug :: bool

definition env_or :: "(string, string) dict \<Rightarrow> string \<Rightarrow> string \<Rightarrow> string" where
  "env_or environ k d = (case map_of environ k of None \<Rightarrow> d | Some v \<Rightarrow> v)"

definition input_from_env :: "(string, string) dict \<Rightarrow> provisioner_input" where
  "input_from_env environ =
     (let home_dir = path_of (env_or environ ''NUBLADO_HOME'' ''/nonexistent'');
          source_dir = path_of (env_or environ ''CST_LANDING_PAGE_SRC_DIR'' ''/rubin/cst_repos/tutorial-notebooks-data/welcome'');
          target_dir = path_of (env_or environ ''CST_LANDING_PAGE_TGT_DIR'' ''notebooks/tutorials'');
          filelist = split_on (CHR '','') (env_or environ ''CST_LANDING_PAGE_FILES'' ''welcome.md,logo_for_header.png'')
      in \<lparr>pv_source_files = map (below source_dir) filelist, pv_home_dir = home_dir,
          pv_dest_dir = path_join home_dir target_dir, pv_debug = env_or environ ''DEBUG'' [] \<noteq> []\<rparr>)"

definition precheck :: "provisioner_input \<Rightarrow> ('s, os_wait, os_answer, startup_exn, unit) proc" where
  "precheck p =
     seq (for_each (pv_source_files p) (\<lambda>sf. bind (ask_bool (W_is_file sf)) (\<lambda>b.
           do_if (\<not> b) (Raise (Precheck_failed (''Source file '' @ path_text sf @ '' is not a file''))))))
       (bind (ask_bool (W_is_dir (pv_home_dir p))) (\<lambda>b.
          do_if (\<not> b) (Raise (Precheck_failed ''Home directory {self._home_dir} is not a directory''))))"

definition provision_tutorial_directories :: "provisioner_input \<Rightarrow> ('s, os_wait, os_answer, startup_exn, unit) proc" where
  "provision_tutorial_directories p = call (W_mkdir True True (pv_dest_dir p))"

definition copy_landing_file :: "provisioner_input \<Rightarrow> fs_path \<Rightarrow> ('s, os_wait, os_answer, startup_exn, unit) proc" where
  "copy_landing_file p src =
     (let dest = below (pv_dest_dir p) (path_name src) in
      seq
        (bind (ask_bool (W_exists False dest)) (\<lambda>there. do_if there
          (bind (ask_bool (W_is_symlink dest)) (\<lambda>link.
           bind (if link then Ret True else ask_bool (W_is_file dest)) (\<lambda>plain.
             if plain then call (W_unlink dest)
             else bind (ask_bool (W_is_dir dest)) (\<lambda>d.
               if d then Raise (Destination_is_directory (path_text dest)) else Raise (Destination_failed (path_text dest))))))))
        (call (W_copy src dest)))"

definition copy_landing_files :: "provisioner_input \<Rightarrow> ('s, os_wait, os_answer, startup_exn, unit) proc" where
  "copy_landing_files p = for_each (pv_source_files p) (copy_landing_file p)"

text \<open>
  The settings with the viewer of Markdown, and whether they are to be written. \<open>k in v\<close> looks for a key, an
  element of a list or a part of a text, and assigning to a key needs a dictionary.
\<close>

definition has_key :: "string \<Rightarrow> pyval \<Rightarrow> (startup_exn, bool) result" where
  "has_key k v =
     (case v of
        V_dict d \<Rightarrow> Inr (map_of d (V_text k) \<noteq> None)
      | V_list xs \<Rightarrow> Inr (V_text k \<in> set xs)
      | V_text t \<Rightarrow> Inr (str_contains k t)
      | _ \<Rightarrow> Inl Py_type)"

definition assign_key :: "pyval \<Rightarrow> string \<Rightarrow> pyval \<Rightarrow> (startup_exn, pyval) result" where
  "assign_key v k x = (case v of V_dict d \<Rightarrow> Inr (with_item v k x) | _ \<Rightarrow> Inl Py_type)"

definition edited_settings :: "pyval \<Rightarrow> (startup_exn, pyval \<times> bool) result" where
  "edited_settings settings =
     rbind (has_key ''defaultViewers'' settings) (\<lambda>b.
     rbind (if b then Inr settings else assign_key settings ''defaultViewers'' (V_dict [])) (\<lambda>settings.
     rbind (item settings ''defaultViewers'') (\<lambda>viewers.
     rbind (has_key ''markdown'' viewers) (\<lambda>m.
       if m then Inr (settings, False)
       else rbind (assign_key viewers ''markdown'' (V_text ''Markdown Preview'')) (\<lambda>viewers.
         Inr (with_item settings ''defaultViewers'' viewers, True))))))"

definition edit_settings :: "startup_lib \<Rightarrow> provisioner_input \<Rightarrow> ('s, os_wait, os_answer, startup_exn, unit) proc" where
  "edit_settings lib p =
     (let settings_dir = below (below (below (below (below (pv_home_dir p) ''.jupyter'') ''lab'') ''user-settings'')
            ''@jupyterlab'') ''docmanager-extension'';
          settings_file = below settings_dir ''plugin.jupyterlab-settings''
      in seq (call (W_mkdir True True settings_dir))
           (bind (ask_bool (W_exists True settings_file)) (\<lambda>b.
            bind (if b then bind (ask_text (W_read settings_file)) (\<lambda>t.
                    case sl_loads lib t of None \<Rightarrow> Raise Py_value | Some v \<Rightarrow> Ret v)
                  else Ret (V_dict [])) (\<lambda>settings.
            bind (or_exn (edited_settings settings)) (\<lambda>(settings, changed).
              do_if changed (call (W_write settings_file (sl_dumps lib (Some 2) True settings))))))))"

definition provision_landing_page :: "startup_lib \<Rightarrow> provisioner_input \<Rightarrow> ('s, os_wait, os_answer, startup_exn, unit) proc" where
  "provision_landing_page lib p =
     seq (precheck p) (seq (provision_tutorial_directories p) (seq (copy_landing_files p) (edit_settings lib p)))"

end
