(* ===== verification/Startup_Laws.thy ===== *)
theory Startup_Laws
  imports Startup Provisioners
begin

text \<open>What the startup of a lab promises, whatever the system answers, and where it stops.\<close>

section \<open>The system leaves the program alone\<close>

definition same_startup :: "'x startup_scheme \<Rightarrow> 'x startup_scheme \<Rightarrow> bool" where
  "same_startup s s' \<longleftrightarrow> su_environ s' = su_environ s \<and> su_env s' = su_env s \<and> su_broken s' = su_broken s \<and>
     su_home s' = su_home s \<and> su_debug s' = su_debug s"

definition outside :: "('x startup_scheme, os_wait, os_answer, startup_exn) env \<Rightarrow> bool" where
  "outside os \<longleftrightarrow> (\<forall>w s. same_startup s (fst (os w s)))"

interpretation startup: interference "\<lambda>_. True" "(=)" "\<lambda>_ _. True" "\<lambda>w s r s'. same_startup s s'" "\<lambda>_ _. True"
  by unfold_locales auto

text \<open>
  While the lab is prepared, the variables say that it is broken if and only if it is, and name its home
  directory. A lab that was broken when the preparation began stays so.
\<close>

definition coherent :: "fs_path \<times> bool \<Rightarrow> 'x startup_scheme \<Rightarrow> bool" where
  "coherent h s \<longleftrightarrow> su_home s = fst h \<and> map_of (su_env s) ''HOME'' = Some (path_text (fst h)) \<and>
     (su_broken s \<longleftrightarrow> map_of (su_env s) ''ABNORMAL_STARTUP'' = Some ''TRUE'') \<and>
     (su_broken s \<longrightarrow> map_of (su_env s) ''ABNORMAL_STARTUP_MESSAGE'' \<noteq> None) \<and> (snd h \<longrightarrow> su_broken s)"

abbreviation steady :: "fs_path \<times> bool \<Rightarrow> ('x, 'a) startup_proc \<Rightarrow> bool" where
  "steady h \<equiv> startup.keeps (coherent h)"

named_theorems steady_intros \<open>parts of the startup that keep the variables coherent\<close>

lemma coherent_same: "coherent h s \<Longrightarrow> same_startup s s' \<Longrightarrow> coherent h s'"
  by (auto simp: coherent_def same_startup_def)

lemma keeps_await_same:
  "(\<And>s s'. J s \<Longrightarrow> same_startup s s' \<Longrightarrow> J s') \<Longrightarrow> startup.keeps J (await w)"
  unfolding startup.keeps_def by (rule startup.triple_await) auto

lemma steady_await: "steady h (await w)"
  by (rule keeps_await_same) (rule coherent_same)

lemma steady_setenv:
  "k \<noteq> ''HOME'' \<Longrightarrow> k \<noteq> ''ABNORMAL_STARTUP'' \<Longrightarrow> k \<noteq> ''ABNORMAL_STARTUP_MESSAGE'' \<Longrightarrow> steady h (setenv k v)"
  unfolding startup.keeps_def setenv_def by (rule startup.triple_act) (auto simp: coherent_def)

lemma steady_prod: "(\<And>a b. steady h (f a b)) \<Longrightarrow> steady h (case x of (a, b) \<Rightarrow> f a b)"
  by (cases x) simp

lemma steady_sum: "(\<And>a. steady h (f a)) \<Longrightarrow> (\<And>b. steady h (g b)) \<Longrightarrow> steady h (case x of Inl a \<Rightarrow> f a | Inr b \<Rightarrow> g b)"
  by (cases x) simp_all

lemma steady_list: "steady h p \<Longrightarrow> (\<And>a b. steady h (f a b)) \<Longrightarrow> steady h (case x of [] \<Rightarrow> p | a # b \<Rightarrow> f a b)"
  by (cases x) simp_all

lemma steady_catch_os: "steady h p \<Longrightarrow> (\<And>x. steady h (q x)) \<Longrightarrow> steady h (catch_os p q)"
  unfolding catch_os_def by (intro startup.keeps_intros) (auto split: startup_exn.split intro: startup.keeps_intros)

lemma steady_answer:
  "steady h p \<Longrightarrow> (\<And>b. steady h (f b)) \<Longrightarrow> (\<And>t. steady h (g t)) \<Longrightarrow> (\<And>i. steady h (k i)) \<Longrightarrow> (\<And>ps. steady h (l ps)) \<Longrightarrow>
   (\<And>t. steady h (m t)) \<Longrightarrow> (\<And>a b c. steady h (n a b c)) \<Longrightarrow> (\<And>u. steady h (q u)) \<Longrightarrow>
   steady h (case x of A_done \<Rightarrow> p | A_bool b \<Rightarrow> f b | A_text t \<Rightarrow> g t | A_int i \<Rightarrow> k i | A_paths ps \<Rightarrow> l ps
     | A_tree t \<Rightarrow> m t | A_stat a b c \<Rightarrow> n a b c | A_url u \<Rightarrow> q u)"
  by (cases x) simp_all

lemmas steady_basic = startup.keeps_intros steady_await steady_sum steady_list steady_prod steady_answer

lemma steady_asks: "steady h (ask_bool w)" "steady h (ask_text w)" "steady h (ask_paths w)" "steady h (call w)"
    "steady h (or_exn r)" "steady h (env_item k)" "steady h (getenv k)" "steady h (getenv_or k d)"
  unfolding ask_bool_def ask_text_def ask_paths_def call_def or_exn_def env_item_def getenv_def getenv_or_def
  by (intro steady_basic)+

lemmas steady_rules = steady_basic steady_setenv steady_catch_os steady_asks

section \<open>Every part keeps the variables coherent\<close>

lemma steady_relocate: "steady h relocate_user_environment_if_requested"
  unfolding relocate_user_environment_if_requested_def relocate_candidate_def Let_def by (intro steady_rules)

lemma steady_scratch: "steady h (check_user_scratch_subdir p)"
  unfolding check_user_scratch_subdir_def Let_def by (intro steady_rules) simp_all

lemma steady_configure_env: "steady h (configure_env lib)"
  unfolding configure_env_def set_user_def set_tmpdir_if_scratch_available_def set_butler_cache_def set_cpu_variables_def
    set_image_digest_def get_digest_def expand_panda_tilde_def set_firefly_variables_def force_jupyter_prefer_env_path_false_def
    set_butler_credential_variables_def env_home_def Let_def
  by (intro steady_rules steady_scratch)
    (auto simp: cpu_variables_def intro: steady_rules split: startup_exn.split)

lemma steady_set_abnormal: "steady h (set_abnormal_startup lib x)"
  unfolding startup.keeps_def startup.triple_def
  by (simp add: set_abnormal_startup_def abnormal_variables_def Let_def seq_def act_def setenv_def coherent_def)

lemma steady_aws: "steady h (merge_aws_creds lib)" and steady_pgpass: "steady h (merge_pgpass lib)"
  unfolding merge_aws_creds_def merge_pgpass_def require_env_def touch_below_home_def read_ini_def Let_def
  by (auto intro!: steady_rules split: option.split)

lemma steady_inject: "steady h (inject_new_proxy lib p)"
  unfolding inject_new_proxy_def by (auto intro!: steady_rules)

lemma steady_clean: "steady h (clean_empty_config lib f b)"
  unfolding clean_empty_config_def by (auto intro!: steady_rules split: option.split)

lemma steady_fix: "steady h (fix_dashboard lib cfg f b)"
  unfolding fix_dashboard_def Let_def
  by (auto intro!: steady_rules split: sum.split startup_exn.split pyval.split)

lemma steady_tidy_files: "steady h (tidy_files lib fs r)"
  by (induction fs arbitrary: r) (auto simp: Let_def intro!: steady_rules steady_clean steady_fix)

lemma steady_dask: "steady h (setup_dask lib)"
  unfolding setup_dask_def tidy_extant_config_def Let_def
  by (intro steady_rules steady_inject steady_tidy_files)

lemma steady_tidy_homedir: "steady h (tidy_homedir lib)"
  unfolding tidy_homedir_def clean_astropy_cache_def clean_cache_entry_def handle_expiry_def remove_astropy_cachedir_def
    test_for_space_def write_a_megabyte_def remove_cachefile_def try_emergency_cleanup_def Let_def
  by (intro steady_rules)

lemma steady_copy_files: "steady h (copy_files_to_user_homedir lib)"
  unfolding copy_files_to_user_homedir_def copy_butler_credentials_def setup_gitlfs_def check_for_git_lfs_def
    command_run_def copy_logging_profile_def get_jupyterlab_config_dir_def copy_dircolors_def copy_etc_skel_def
    copy_skel_level_def copy_skel_files_def Let_def
  by (intro steady_rules steady_aws steady_pgpass steady_dask)

lemma steady_settings: "steady h (modify_interactive_settings lib)"
  unfolding modify_interactive_settings_def increase_log_limit_def Let_def by (intro steady_rules)

section \<open>Reports of errors\<close>

definition settled :: "fs_path \<times> bool \<Rightarrow> startup_exn + 'a \<Rightarrow> 'x startup_scheme \<Rightarrow> bool" where
  "settled h r s \<longleftrightarrow> coherent h s \<and> (\<forall>x. r \<noteq> Inl (Os x))"

definition prepared :: "fs_path \<times> bool \<Rightarrow> 'x startup_scheme \<Rightarrow> bool" where
  "prepared h s \<longleftrightarrow> (snd h \<longrightarrow> su_broken s) \<and> (su_broken s \<longleftrightarrow> map_of (su_env s) ''ABNORMAL_STARTUP'' = Some ''TRUE'') \<and>
     map_of (su_env s) ''HOME'' = Some (if su_broken s then env_or (su_env s) ''SCRATCH_DIR'' ''/tmp'' else path_text (fst h))"

lemma settled_set_abnormal: "startup.triple (coherent h) (set_abnormal_startup lib x) (settled h)"
  unfolding startup.triple_def
  by (simp add: set_abnormal_startup_def abnormal_variables_def Let_def seq_def act_def setenv_def settled_def coherent_def)

lemma settled_catch_os:
  assumes "steady h p"
  shows "startup.triple (coherent h) (catch_os p (set_abnormal_startup lib)) (settled h)"
  unfolding catch_os_def
proof (rule startup.triple_catch [OF assms [unfolded startup.keeps_def]])
  fix e
  show "startup.triple (coherent h) (case e of Os x \<Rightarrow> set_abnormal_startup lib x | _ \<Rightarrow> Raise e) (settled h)"
    by (cases e) (simp_all add: settled_set_abnormal startup.triple_Raise settled_def)
qed (simp add: settled_def)

text \<open>Coroutines that keep a condition and do not raise.\<close>

definition sure :: "('x startup_scheme \<Rightarrow> bool) \<Rightarrow> ('x, 'a) startup_proc \<Rightarrow> bool" where
  "sure J p \<longleftrightarrow> startup.triple J p (\<lambda>r s. (\<exists>a. r = Inr a) \<and> J s)"

lemma sure_Ret: "sure J (Ret a)" and sure_reading: "sure J (reading f)"
  by (auto simp: sure_def startup.triple_def reading_def)

lemma sure_bind: "sure J p \<Longrightarrow> (\<And>a. sure J (f a)) \<Longrightarrow> sure J (bind p f)"
  unfolding sure_def by (erule startup.triple_bind) (auto elim: startup.triple_mono)

lemma sure_seq: "sure J p \<Longrightarrow> sure J q \<Longrightarrow> sure J (seq p q)"
  unfolding seq_def by (rule sure_bind)

lemma sure_do_if: "sure J p \<Longrightarrow> sure J (do_if b p)"
  by (simp add: do_if_def sure_Ret)

lemma sure_caught: "startup.keeps J p \<Longrightarrow> sure J (catch p (\<lambda>_. Ret ()))"
  unfolding startup.keeps_def sure_def by (erule startup.triple_catch) (simp_all add: startup.triple_Ret)

lemma sure_act: "(\<And>s. J s \<Longrightarrow> J (f s)) \<Longrightarrow> sure J (act f)"
  unfolding sure_def by (rule startup.triple_act) auto

lemmas sure_intros = sure_Ret sure_reading sure_bind sure_seq sure_do_if sure_caught sure_act

lemma sure_landing: "sure (coherent h) (make_abnormal_startup_environment lib)"
  unfolding make_abnormal_startup_environment_def make_abnormal_landing_markdown_def Let_def
  by (intro sure_intros steady_rules)

lemma prepared_same: "prepared h s \<Longrightarrow> same_startup s s' \<Longrightarrow> prepared h s'"
  by (auto simp: prepared_def same_startup_def)

lemma sure_files: "sure (prepared h) (catch (seq (write_lab_environment lib) (write_lab_args lib)) (\<lambda>_. Ret ()))"
proof (rule sure_caught)
  show "startup.keeps (prepared h) (seq (write_lab_environment lib) (write_lab_args lib))"
    unfolding write_lab_environment_def write_lab_args_def set_timeout_variables_def call_def Let_def
    by (intro startup.keeps_intros keeps_await_same) (erule (1) prepared_same)+
qed

text \<open>At the end a broken lab is moved to a temporary home directory, another one stays where it is.\<close>

lemma relocate_broken:
  "startup.triple (coherent h)
     (bind (reading su_broken) (\<lambda>broken. do_if broken (bind (env_item ''ABNORMAL_STARTUP_MESSAGE'') (\<lambda>_.
        seq (make_abnormal_startup_environment lib) use_temporary_home))))
     (\<lambda>r s. r = Inr () \<and> prepared h s)"
proof (rule startup.triple_Get)
  fix broken
  let ?Q = "\<lambda>r s. r = Inr () \<and> prepared h s" and ?J = "coherent (fst h, True)"
  let ?p = "bind (env_item ''ABNORMAL_STARTUP_MESSAGE'') (\<lambda>_. seq (make_abnormal_startup_environment lib) use_temporary_home)"
  have item: "sure ?J (env_item ''ABNORMAL_STARTUP_MESSAGE'')"
    by (auto simp: sure_def startup.triple_def env_item_def reading_def coherent_def)
  have move: "startup.triple ?J use_temporary_home ?Q"
    unfolding use_temporary_home_def
    by (rule startup.triple_act) (auto simp: Let_def coherent_def prepared_def env_or_def split: option.split)
  have tail: "startup.triple ?J (seq (make_abnormal_startup_environment lib) use_temporary_home) ?Q"
    by (rule startup.triple_seq [OF sure_landing [unfolded sure_def] startup.triple_mono [OF move]]) simp_all
  have p: "startup.triple ?J ?p ?Q"
    by (rule startup.triple_bind [OF item [unfolded sure_def] startup.triple_mono [OF tail]]) simp_all
  show "startup.triple (\<lambda>s. coherent h s \<and> su_broken s = broken) (do_if broken ?p) ?Q"
  proof (cases broken)
    case False
    then show ?thesis by (auto simp: do_if_def prepared_def coherent_def intro!: startup.triple_Ret)
  next
    case True
    have "startup.triple (\<lambda>s. coherent h s \<and> su_broken s = True) ?p ?Q"
      by (rule startup.triple_mono [OF p]) (auto simp: coherent_def)
    then show ?thesis by (simp only: do_if_def True if_True)
  qed
qed

lemma prepared_write:
  "startup.triple (coherent h) (write_lab_startup_files lib) (\<lambda>r s. r = Inr () \<and> prepared h s)"
proof -
  have "sure (prepared h) (seq (setenv ''RUNNING_INSIDE_JUPYTERLAB'' ''TRUE'')
      (catch (seq (write_lab_environment lib) (write_lab_args lib)) (\<lambda>_. Ret ())))"
    by (intro sure_seq sure_files) (auto simp: setenv_def prepared_def env_or_def intro!: sure_act)
  then show ?thesis
    unfolding write_lab_startup_files_def
    by (intro startup.triple_seq [OF relocate_broken]) (auto simp: sure_def elim: startup.triple_mono)
qed

lemma prepared_prepare:
  "startup.triple (coherent h) (prepare lib) (\<lambda>r s. (\<forall>x. r \<noteq> Inl (Os x)) \<and> (r = Inr () \<longrightarrow> prepared h s))"
proof -
  note drop = startup.triple_mono [of "coherent h"]
  have copy: "startup.triple (coherent h)
      (bind (reading su_broken) (\<lambda>broken. do_if (\<not> broken)
         (catch_os (seq (copy_files_to_user_homedir lib) (modify_interactive_settings lib)) (set_abnormal_startup lib))))
      (settled h)"
    by (rule startup.triple_bind [where M = "\<lambda>r s. (\<exists>a. r = Inr a) \<and> coherent h s"])
      (auto simp: settled_def startup.triple_reading
        intro!: startup.triple_do_if startup.triple_mono [OF settled_catch_os [OF startup.keeps_seq [OF steady_copy_files steady_settings]]])
  have environment: "startup.triple (coherent h) (prepare_environment lib) (settled h)"
    unfolding prepare_environment_def
    by (rule settled_catch_os) (intro steady_rules steady_relocate steady_configure_env)
  show ?thesis
    unfolding prepare_def
    by (rule startup.triple_seq [OF environment], rule startup.triple_mono,
        rule startup.triple_seq [OF settled_catch_os [OF steady_tidy_homedir]], rule startup.triple_mono,
        rule startup.triple_seq [OF copy], rule startup.triple_mono, rule prepared_write)
      (auto simp: settled_def)
qed

lemma new_preparer_coherent:
  "\<exists>s1. run (new_preparer lib) os s = (s1, Inr ()) \<and> su_environ s1 = dset ''HOME'' (path_text (su_home s1)) (su_environ s) \<and>
     coherent (path_of (env_or (su_environ s) ''NUBLADO_HOME'' ''/tmp''), map_of (su_environ s) ''NUBLADO_HOME'' = None) s1"
  by (cases "map_of (su_environ s) ''NUBLADO_HOME''")
    (simp_all add: new_preparer_def run_simps getenv_def set_abnormal_startup_def abnormal_variables_def setenv_def env_item_def
      coherent_def env_or_def Let_def)

text \<open>C18: Whatever the system answers, the preparation of a lab lets no error of the system
  through; when it ends, the variables for the lab say that it is broken if and only if it is, and
  name the home directory of the user or, for a broken lab, a temporary one.\<close>

theorem startup_reports:
  assumes "outside os" and "run (seq (new_preparer lib) (prepare lib)) os s = (s', r)"
  shows "(\<forall>x. r \<noteq> Inl (Os x)) \<and>
    (r = Inr () \<longrightarrow>
      (su_broken s' \<longleftrightarrow> map_of (su_env s') ''ABNORMAL_STARTUP'' = Some ''TRUE'') \<and>
      (map_of (su_environ s) ''NUBLADO_HOME'' = None \<longrightarrow> su_broken s') \<and>
      map_of (su_env s') ''HOME'' =
        Some (if su_broken s' then env_or (su_env s') ''SCRATCH_DIR'' ''/tmp''
              else path_text (path_of (env_or (su_environ s) ''NUBLADO_HOME'' ''/tmp''))))"
proof -
  obtain s1 where s1: "run (new_preparer lib) os s = (s1, Inr ())"
    and c: "coherent (path_of (env_or (su_environ s) ''NUBLADO_HOME'' ''/tmp''), map_of (su_environ s) ''NUBLADO_HOME'' = None) s1"
    using new_preparer_coherent by blast
  have "run (prepare lib) os s1 = (s', r)" using assms(2) s1 by (simp add: run_seq)
  moreover have "same_startup t (fst (os w t))" for w t using assms(1) by (simp add: outside_def)
  ultimately have "True \<and> (\<forall>x. r \<noteq> Inl (Os x)) \<and>
     (r = Inr () \<longrightarrow> prepared (path_of (env_or (su_environ s) ''NUBLADO_HOME'' ''/tmp''), map_of (su_environ s) ''NUBLADO_HOME'' = None) s')"
    by (intro startup.triple_run [OF prepared_prepare _ _ c]) simp_all
  then show ?thesis by (auto simp: prepared_def)
qed


end
