(* ===== verification/Homedir_Laws.thy ===== *)
theory Homedir_Laws
  imports Startup_Laws
begin

text \<open>What the startup of a lab does to the files of the user.\<close>

section \<open>A system with files\<close>

text \<open>
  A system that keeps the contents of files: \<open>files\<close> gives those of the regular files in a state. Calls may
  fail at any time; a write that fails may leave anything in its own file. Different paths are different
  files.
\<close>

definition obeys :: "('s \<Rightarrow> fs_path \<Rightarrow> string option) \<Rightarrow> os_wait \<Rightarrow> 's \<Rightarrow> startup_exn + os_answer \<Rightarrow> 's \<Rightarrow> bool" where
  "obeys files w s r s' =
     (case w of
        W_read p \<Rightarrow> files s' = files s \<and> (\<forall>a. r = Inr a \<longrightarrow> (\<exists>t. files s p = Some t \<and> a = A_text t))
      | W_write p t \<Rightarrow> (\<forall>q. q \<noteq> p \<longrightarrow> files s' q = files s q) \<and> (\<forall>a. r = Inr a \<longrightarrow> files s' p = Some t)
      | W_touch p \<Rightarrow> (\<forall>q. q \<noteq> p \<longrightarrow> files s' q = files s q) \<and>
          (\<forall>a. r = Inr a \<longrightarrow> files s' p = Some (case files s p of None \<Rightarrow> [] | Some t \<Rightarrow> t))
      | W_exists follow p \<Rightarrow> files s' = files s \<and> (\<forall>b. r = Inr (A_bool b) \<longrightarrow> files s p \<noteq> None \<longrightarrow> b)
      | W_is_file p \<Rightarrow> files s' = files s \<and> (\<forall>b. r = Inr (A_bool b) \<longrightarrow> b = (files s p \<noteq> None))
      | W_is_dir p \<Rightarrow> files s' = files s
      | W_mkdir parents exist_ok p \<Rightarrow> files s' = files s
      | W_walk p \<Rightarrow> files s' = files s
      | _ \<Rightarrow> True)"

definition honest :: "('x startup_scheme \<Rightarrow> fs_path \<Rightarrow> string option) \<Rightarrow> ('x startup_scheme, os_wait, os_answer, startup_exn) env \<Rightarrow> bool" where
  "honest files os \<longleftrightarrow> outside os \<and> (\<forall>w s. obeys files w s (snd (os w s)) (fst (os w s)))"

section \<open>Passwords\<close>

definition passwords :: "string \<Rightarrow> string \<Rightarrow> string option" where
  "passwords t = map_of (pgpass_lines (splitlines t) [])"

definition one_line :: "string \<Rightarrow> bool" where
  "one_line l \<longleftrightarrow> list_all (\<lambda>c. \<not> line_end c) l"

lemma splitlines_one_line: "l \<in> set (splitlines t) \<Longrightarrow> one_line l"
  by (induction t arbitrary: l rule: splitlines.induct)
    (auto simp: one_line_def line_end_def split: if_splits list.splits)

lemma splitlines_append: "one_line l \<Longrightarrow> splitlines (l @ CHR 0x0A # t) = l # splitlines t"
  by (induction l) (auto simp: one_line_def line_end_def)

text \<open>Entries that can be written and read again.\<close>

definition entries_ok :: "(string, string) dict \<Rightarrow> bool" where
  "entries_ok d \<longleftrightarrow> dict_ok d \<and> (\<forall>(c, w) \<in> set d. one_line c \<and> one_line w \<and> CHR '':'' \<notin> set w \<and> rstrip w = w)"

lemma split_last_colon_append [simp]: "CHR '':'' \<notin> set w \<Longrightarrow> split_last_colon (c @ CHR '':'' # w) = (c, w)"
  by (auto simp: split_last_colon_def after_last_def dropWhile_append takeWhile_append
      dropWhile_eq_Nil_conv takeWhile_eq_all_conv)

lemma pgpass_lines_add:
  "map_of (pgpass_lines ls config) = map_of config ++ map_of (pgpass_lines ls [])"
proof (induction ls arbitrary: config)
  case (Cons l ls)
  obtain c w where cw: "split_last_colon l = (c, w)" by fastforce
  show ?case
    using Cons [of config] Cons [of "dset c (rstrip w) config"] Cons [of "dset c (rstrip w) []"]
    by (auto simp: cw fun_eq_iff map_add_def split: option.split)
qed simp

lemma lines_of_entries: "entries_ok d \<Longrightarrow> map_of (pgpass_lines (map (\<lambda>(c, w). c @ CHR '':'' # w) d) []) = map_of d"
proof (induction d)
  case (Cons e d)
  obtain c w where e: "e = (c, w)" by fastforce
  have ok: "entries_ok d" "CHR '':'' \<notin> set w" "rstrip w = w" "c \<notin> fst ` set d"
    using Cons.prems by (auto simp: entries_ok_def e dict_ok_def)
  have "map_of d c = None" using ok(4) by (simp add: map_of_eq_None_iff)
  then show ?case
    using Cons.IH [OF ok(1)] ok(2,3)
    by (auto simp: e pgpass_lines_add [of _ "[(c, w)]"] map_add_def fun_eq_iff split: option.split)
qed simp

lemma splitlines_pgpass_text: "entries_ok d \<Longrightarrow> splitlines (pgpass_text d) = map (\<lambda>(c, w). c @ CHR '':'' # w) d"
proof (induction d)
  case (Cons e d)
  obtain c w where e: "e = (c, w)" by fastforce
  have "one_line (c @ CHR '':'' # w)" "entries_ok d"
    using Cons.prems by (auto simp: entries_ok_def e one_line_def line_end_def dict_ok_def)
  then show ?case using Cons.IH splitlines_append [of "c @ CHR '':'' # w"] by (simp add: e pgpass_text_def)
qed (simp add: pgpass_text_def)

lemma passwords_pgpass_text: "entries_ok d \<Longrightarrow> passwords (pgpass_text d) = map_of d"
  by (simp add: passwords_def splitlines_pgpass_text lines_of_entries)

lemma rstrip_facts: "set (rstrip s) \<subseteq> set s" "rstrip (rstrip s) = rstrip s"
  by (auto simp: rstrip_def dest: set_dropWhileD)

lemma in_set_tl: "x \<in> set (tl xs) \<Longrightarrow> x \<in> set xs"
  by (cases xs) auto

lemma pgpass_lines_ok:
  "entries_ok config \<Longrightarrow> (\<And>l. l \<in> set ls \<Longrightarrow> one_line l) \<Longrightarrow> entries_ok (pgpass_lines ls config)"
proof (induction ls arbitrary: config)
  case (Cons l ls)
  obtain c w where cw: "split_last_colon l = (c, w)" by fastforce
  have "set c \<subseteq> set l" "set w \<subseteq> set l" "CHR '':'' \<notin> set w"
    using cw in_set_tl by (auto simp: split_last_colon_def after_last_def dest!: in_set_tl set_dropWhileD set_takeWhileD)
  then have "one_line c" "one_line (rstrip w)" "CHR '':'' \<notin> set (rstrip w)"
    using Cons.prems(2) [of l] rstrip_facts(1) [of w] by (auto simp: one_line_def list_all_iff)
  then have "entries_ok (dset c (rstrip w) config)"
    using Cons.prems(1) rstrip_facts(2) [of w] by (auto simp: entries_ok_def dset_in_iff split: if_splits)
  with Cons show ?case by (simp add: cw)
qed simp

lemma honest_run:
  "honest files os \<Longrightarrow> os w s = (s', r) \<Longrightarrow> obeys files w s r s' \<and> same_startup s s'"
  by (metis fst_conv snd_conv honest_def outside_def)

definition content :: "(fs_path \<Rightarrow> string option) \<Rightarrow> fs_path \<Rightarrow> string" where
  "content f p = (case f p of None \<Rightarrow> [] | Some t \<Rightarrow> t)"

text \<open>Runs that end without an exception, taken apart.\<close>

lemma run_bindE:
  assumes "run (bind p f) os s = (s', Inr a)"
  obtains s1 x where "run p os s = (s1, Inr x)" and "run (f x) os s1 = (s', Inr a)"
  using assms by (auto simp: run_bind split: prod.splits sum.splits)

lemma run_seqE:
  assumes "run (seq p q) os s = (s', Inr a)"
  obtains s1 x where "run p os s = (s1, Inr x)" and "run q os s1 = (s', Inr a)"
  using assms unfolding seq_def by (rule run_bindE)

lemma run_callE:
  assumes "run (call w) os s = (s', Inr u)"
  obtains a where "os w s = (s', Inr a)"
  using assms by (auto simp: call_def run_simps split: prod.splits sum.splits)

lemma run_ask_boolE:
  assumes "run (ask_bool w) os s = (s', Inr b)"
  obtains "os w s = (s', Inr (A_bool b))"
  using assms by (auto simp: ask_bool_def run_simps split: prod.splits sum.splits os_answer.splits)

lemma run_ask_textE:
  assumes "run (ask_text w) os s = (s', Inr t)"
  obtains "os w s = (s', Inr (A_text t))"
  using assms by (auto simp: ask_text_def run_simps split: prod.splits sum.splits os_answer.splits)

lemma run_do_ifE:
  assumes "run (do_if b p) os s = (s', Inr u)"
  obtains "b" "run p os s = (s', Inr u)" | "\<not> b" "s' = s"
  using assms by (auto simp: do_if_def split: if_splits)

lemma run_env_itemE:
  assumes "run (env_item k) os s = (s', Inr v)"
  obtains "s' = s" "map_of (su_env s) k = Some v"
  using assms by (auto simp: env_item_def run_simps split: option.splits)

lemma run_require_envE:
  assumes "run (require_env k lib) os s = (s', Inr u)"
  obtains "s' = s"
  using assms by (auto simp: require_env_def run_simps split: option.splits)

lemmas run_elims = run_bindE run_seqE run_callE run_ask_boolE run_ask_textE run_do_ifE run_env_itemE run_require_envE

lemma same_startup_trans: "same_startup s t \<Longrightarrow> same_startup t u \<Longrightarrow> same_startup s u"
  by (simp add: same_startup_def)

lemma same_startup_refl [simp]: "same_startup s s"
  by (simp add: same_startup_def)

lemma run_make_parent:
  assumes "honest files os"
    and "run (bind (ask_bool (W_exists True q)) (\<lambda>b. do_if (\<not> b) (call (W_mkdir True False q)))) os s = (s', Inr u)"
  shows "same_startup s s' \<and> files s' = files s"
  using assms(2)
proof (elim run_bindE run_ask_boolE)
  fix s1 b
  assume 1: "os (W_exists True q) s = (s1, Inr (A_bool b))" and 2: "run (do_if (\<not> b) (call (W_mkdir True False q))) os s1 = (s', Inr u)"
  from 2 show ?thesis
  proof (elim run_do_ifE run_callE)
    fix a
    assume "os (W_mkdir True False q) s1 = (s', Inr a)"
    with 1 show ?thesis
      using honest_run [OF assms(1), of "W_exists True q"] honest_run [OF assms(1), of "W_mkdir True False q"]
      by (fastforce simp: obeys_def intro: same_startup_trans)
  qed (use 1 honest_run [OF assms(1), of "W_exists True q"] in \<open>fastforce simp: obeys_def\<close>)
qed

lemma run_touch_below_home:
  assumes "honest files os" and "run (touch_below_home p) os s = (s', Inr u)"
  shows "same_startup s s' \<and> files s' = (files s)(p := Some (content (files s) p))"
  using assms(2) unfolding touch_below_home_def
proof (elim run_seqE run_callE)
  fix s1 x a
  assume 1: "run (bind (ask_bool (W_exists True (path_parent p))) (\<lambda>b. do_if (\<not> b) (call (W_mkdir True False (path_parent p))))) os s = (s1, Inr x)"
    and 2: "os (W_touch p) s1 = (s', Inr a)"
  show ?thesis
    using run_make_parent [OF assms(1) 1] honest_run [OF assms(1) 2]
    by (auto simp: obeys_def content_def fun_eq_iff intro: same_startup_trans)
qed

lemma run_merge_pgpassE:
  assumes "run (merge_pgpass lib) os s = (s', Inr u)" and "map_of (su_env s) ''PGPASSFILE'' = Some p"
  obtains s1 s2 s3 home ro orig x a where "run (touch_below_home (path_of p)) os s = (s1, Inr x)"
    and "os (W_read (path_of p)) s1 = (s2, Inr (A_text home))" and "map_of (su_env s2) ''ORIG_PGPASSFILE'' = Some orig"
    and "os (W_read (path_of orig)) s2 = (s3, Inr (A_text ro))"
    and "os (W_write (path_of p) (pgpass_text (pgpass_lines (splitlines ro) (pgpass_lines (splitlines home) [])))) s3 = (s', Inr a)"
  using assms by (auto simp: merge_pgpass_def Let_def elim!: run_elims)

text \<open>C20: Merging the passwords of the container into those of the user leaves a file in
  which every connection that the container has a password for has that one, and every other one
  has the password that the user had.\<close>

theorem pgpass_merged:
  assumes "honest files os" and "run (merge_pgpass lib) os s = (s', Inr ())"
    and "map_of (su_env s) ''PGPASSFILE'' = Some p" and "map_of (su_env s) ''ORIG_PGPASSFILE'' = Some orig"
  shows "\<exists>t. files s' (path_of p) = Some t \<and>
    (\<forall>c. passwords t c = (case passwords (content (files s) (path_of orig)) c of
        Some w \<Rightarrow> Some w | None \<Rightarrow> passwords (content (files s) (path_of p)) c))"
proof -
  let ?P = "path_of p" and ?O = "path_of orig"
  from assms(2,3) obtain s1 s2 s3 home ro o' x a where touch: "run (touch_below_home ?P) os s = (s1, Inr x)"
    and 1: "os (W_read ?P) s1 = (s2, Inr (A_text home))" and o': "map_of (su_env s2) ''ORIG_PGPASSFILE'' = Some o'"
    and 2: "os (W_read (path_of o')) s2 = (s3, Inr (A_text ro))"
    and 3: "os (W_write ?P (pgpass_text (pgpass_lines (splitlines ro) (pgpass_lines (splitlines home) [])))) s3 = (s', Inr a)"
    by (rule run_merge_pgpassE)
  have s1: "same_startup s s1" "files s1 = (files s)(?P := Some (content (files s) ?P))"
    using run_touch_below_home [OF assms(1) touch] by auto
  have s2: "same_startup s1 s2" "files s2 = files s1" "home = content (files s) ?P"
    using honest_run [OF assms(1) 1] s1(2) by (auto simp: obeys_def)
  have "su_env s2 = su_env s" using s1(1) s2(1) by (simp add: same_startup_def)
  with o' assms(4) have "o' = orig" by simp
  with honest_run [OF assms(1) 2] have s3: "files s3 = files s1" "files s1 ?O = Some ro"
    using s2(2) by (auto simp: obeys_def)
  then have ro: "ro = content (files s) ?O" using s1(2) by (auto simp: content_def split: if_splits)
  have ok: "entries_ok (pgpass_lines (splitlines ro) (pgpass_lines (splitlines home) []))"
    by (intro pgpass_lines_ok) (auto simp: entries_ok_def dest: splitlines_one_line)
  have "files s' ?P = Some (pgpass_text (pgpass_lines (splitlines ro) (pgpass_lines (splitlines home) [])))"
    using honest_run [OF assms(1) 3] by (auto simp: obeys_def)
  moreover have "passwords (pgpass_text (pgpass_lines (splitlines ro) (pgpass_lines (splitlines home) []))) c =
      (case passwords ro c of Some w \<Rightarrow> Some w | None \<Rightarrow> passwords home c)" for c
    unfolding passwords_pgpass_text [OF ok]
    by (simp add: pgpass_lines_add [of _ "pgpass_lines (splitlines home) []"] passwords_def map_add_def split: option.split)
  ultimately show ?thesis using ro s2(3) by auto
qed

section \<open>Files that the user has\<close>

text \<open>However it ends, the coroutine changes no file that is there.\<close>

definition spares :: "('x startup_scheme \<Rightarrow> fs_path \<Rightarrow> string option) \<Rightarrow> ('x startup_scheme, os_wait, os_answer, startup_exn) env \<Rightarrow>
    ('x, 'a) startup_proc \<Rightarrow> bool" where
  "spares files os p \<longleftrightarrow> (\<forall>s. files s \<subseteq>\<^sub>m files (fst (run p os s)))"

lemma spares_Ret: "spares files os (Ret a)" and spares_Raise: "spares files os (Raise e)"
  and spares_reading: "spares files os (reading f)"
  by (simp_all add: spares_def reading_def)

lemma spares_bind: "spares files os p \<Longrightarrow> (\<And>a. spares files os (f a)) \<Longrightarrow> spares files os (bind p f)"
  unfolding spares_def run_bind by (auto split: prod.splits sum.splits) (metis fst_conv map_le_trans)+

lemma spares_seq: "spares files os p \<Longrightarrow> spares files os q \<Longrightarrow> spares files os (seq p q)"
  unfolding seq_def by (rule spares_bind)

lemma spares_do_if: "spares files os p \<Longrightarrow> spares files os (do_if b p)"
  by (simp add: do_if_def spares_Ret)

lemma spares_for_each: "(\<And>x. spares files os (f x)) \<Longrightarrow> spares files os (for_each xs f)"
  by (induction xs) (simp_all add: spares_Ret spares_seq)

lemma spares_await: "(\<And>s. files (fst (os w s)) = files s) \<Longrightarrow> spares files os (await w)"
  by (simp add: spares_def run_await)

lemma honest_obeys: "honest files os \<Longrightarrow> obeys files w s (snd (os w s)) (fst (os w s))"
  by (simp add: honest_def)

lemma spares_quiet:
  assumes "honest files os"
  shows "spares files os (await (W_is_dir p))" "spares files os (await (W_mkdir a b p))" "spares files os (await (W_walk p))"
  using honest_obeys [OF assms, of "W_is_dir p"] honest_obeys [OF assms, of "W_mkdir a b p"] honest_obeys [OF assms, of "W_walk p"]
  by (auto intro!: spares_await simp: obeys_def)

lemma spares_create:
  assumes h: "honest files os"
  shows "spares files os (bind (ask_bool (W_exists True p)) (\<lambda>b. do_if (\<not> b) (bind (ask_text (W_read q)) (\<lambda>t. call (W_write p t)))))"
  unfolding spares_def
proof
  fix s
  let ?p = "bind (ask_text (W_read q)) (\<lambda>t. call (W_write p t))"
  obtain s1 r1 where 1: "os (W_exists True p) s = (s1, r1)" by fastforce
  have f1: "files s1 = files s" "r1 = Inr (A_bool False) \<Longrightarrow> files s p = None"
    using honest_run [OF h 1] by (auto simp: obeys_def)
  have "files s \<subseteq>\<^sub>m files (fst (run ?p os s1))" if absent: "files s p = None"
  proof -
    obtain s2 r2 where 2: "os (W_read q) s1 = (s2, r2)" by fastforce
    have f2: "files s2 = files s" using honest_run [OF h 2] f1(1) by (auto simp: obeys_def)
    have "files s \<subseteq>\<^sub>m files (fst (os (W_write p t) s2))" for t
      unfolding map_le_def
    proof
      fix a
      assume "a \<in> dom (files s)"
      with absent have "a \<noteq> p" by auto
      then show "files s a = files (fst (os (W_write p t) s2)) a"
        using honest_obeys [OF h, of "W_write p t" s2] f2 by (simp add: obeys_def)
    qed
    then show ?thesis
      using 2 f2 by (auto simp: run_bind ask_text_def call_def run_seq run_await split: prod.splits sum.splits os_answer.splits)
        (metis fst_conv)+
  qed
  then show "files s \<subseteq>\<^sub>m files (fst (run (bind (ask_bool (W_exists True p)) (\<lambda>b. do_if (\<not> b) ?p)) os s))"
    using 1 f1 by (auto simp: run_bind ask_bool_def run_await do_if_def split: sum.splits os_answer.splits)
qed

text \<open>C19: Copying the default files of the container into the home directory of the user
  changes no file that the user has, whatever fails.\<close>

theorem skel_keeps_files:
  assumes "honest files os" and "run (seq copy_dircolors copy_etc_skel) os s = (s', r)" and "files s p = Some t"
  shows "files s' p = Some t"
proof -
  note create = spares_create [OF assms(1)]
  have dirs: "spares files os (bind (ask_bool (W_is_dir d)) (\<lambda>b. do_if (\<not> b) (call (W_mkdir False False d))))" for d
    unfolding ask_bool_def call_def
    by (intro spares_bind spares_seq spares_do_if spares_quiet [OF assms(1)])
      (auto simp: spares_Ret spares_Raise split: os_answer.split)
  have level: "spares files os (copy_skel_level home skel l)" for home skel l
    unfolding copy_skel_level_def copy_skel_files_def Let_def
    by (auto intro!: spares_seq spares_for_each dirs create split: prod.split)
  have "spares files os (seq copy_dircolors copy_etc_skel)"
    unfolding copy_dircolors_def copy_etc_skel_def Let_def
    by (intro spares_seq spares_bind spares_reading create spares_quiet(3) [OF assms(1)])
      (auto simp: spares_Raise intro!: spares_for_each level split: os_answer.split)
  then have "files s \<subseteq>\<^sub>m files s'" using assms(2) by (metis spares_def fst_conv)
  then show ?thesis using assms(3) by (auto simp: map_le_def dom_def)
qed

section \<open>The configuration of Dask\<close>

text \<open>The settings of a configuration: the values that are no dictionaries, below their keys.\<close>

fun leaves :: "(pyval \<times> pyval) list \<Rightarrow> (pyval list \<times> pyval) list" where
  "leaves [] = []"
| "leaves ((k, v) # r) =
     (case v of V_none \<Rightarrow> [] | V_dict d \<Rightarrow> map (\<lambda>(p, x). (k # p, x)) (leaves d) | _ \<Rightarrow> [([k], v)]) @ leaves r"

lemma flense_keeps_leaves: "leaves (flense_items d) = leaves d \<and> (leaves d = [] \<longleftrightarrow> flense_items d = [])"
proof (induction d rule: flense_items.induct)
  case (2 k v r)
  show ?case
  proof (cases v)
    case (V_dict d)
    show ?thesis
    proof (cases "flense_items d")
      case (Cons e es)
      have "leaves (e # es) = leaves d" "leaves d \<noteq> []" using 2 V_dict Cons by simp_all
      then show ?thesis using 2 V_dict Cons by simp
    qed (use 2 V_dict in auto)
  qed (use 2 in auto)
qed simp

lemma item_dict1: "item (dict1 k x) k' = (if k' = k then Inr x else Inl Py_key)"
  by (simp add: item_def dict1_def)

lemma item_with_item:
  "item (with_item (V_dict d) k x) k' = (if k' = k then Inr x else item (V_dict d) k')"
  by (simp add: item_def with_item_def)

text \<open>A system in which calls fail only for want of a file.\<close>

definition works :: "('x startup_scheme \<Rightarrow> fs_path \<Rightarrow> string option) \<Rightarrow> ('x startup_scheme, os_wait, os_answer, startup_exn) env \<Rightarrow> bool" where
  "works files os \<longleftrightarrow> honest files os \<and>
     (\<forall>s c p. \<exists>b. snd (os (W_exists c p) s) = Inr (A_bool b)) \<and> (\<forall>s p. \<exists>b. snd (os (W_is_file p) s) = Inr (A_bool b)) \<and>
     (\<forall>s p. files s p \<noteq> None \<longrightarrow> (\<exists>a. snd (os (W_read p) s) = Inr a)) \<and>
     (\<forall>s p t. \<exists>a. snd (os (W_write p t) s) = Inr a) \<and> (\<forall>s a b p. \<exists>x. snd (os (W_mkdir a b p) s) = Inr x)"

lemma works_mkdir:
  assumes "works files os"
  obtains s' x where "os (W_mkdir a b p) s = (s', Inr x)" and "files s' = files s" and "same_startup s s'"
proof -
  obtain s' r where 1: "os (W_mkdir a b p) s = (s', r)" by fastforce
  have h: "honest files os" using assms by (simp add: works_def)
  have "\<exists>x. snd (os (W_mkdir a b p) s) = Inr x" using assms by (simp add: works_def)
  with 1 show thesis using honest_run [OF h 1] that by (auto simp: obeys_def fun_eq_iff)
qed

lemma works_read:
  assumes "works files os" and "files s p = Some t"
  obtains s' x where "os (W_read p) s = (s', Inr (A_text t))" and "files s' = files s" and "same_startup s s'"
proof -
  obtain s' r where 1: "os (W_read p) s = (s', r)" by fastforce
  have h: "honest files os" using assms by (simp add: works_def)
  have "\<exists>x. snd (os (W_read p) s) = Inr x" using assms by (simp add: works_def)
  with 1 show thesis using honest_run [OF h 1] assms(2) that by (auto simp: obeys_def fun_eq_iff)
qed

lemma works_exists:
  assumes "works files os" and "files s p = Some t"
  obtains s' where "os (W_exists c p) s = (s', Inr (A_bool True))" and "files s' = files s" and "same_startup s s'"
proof -
  obtain s' r where 1: "os (W_exists c p) s = (s', r)" by fastforce
  have h: "honest files os" using assms by (simp add: works_def)
  have "\<exists>x. snd (os (W_exists c p) s) = Inr (A_bool x)" using assms by (simp add: works_def)
  with 1 show thesis using honest_run [OF h 1] assms(2) that by (auto simp: obeys_def fun_eq_iff)
qed

lemma works_is_file:
  assumes "works files os" and "files s p = Some t"
  obtains s' where "os (W_is_file p) s = (s', Inr (A_bool True))" and "files s' = files s" and "same_startup s s'"
proof -
  obtain s' r where 1: "os (W_is_file p) s = (s', r)" by fastforce
  have h: "honest files os" using assms by (simp add: works_def)
  have "\<exists>x. snd (os (W_is_file p) s) = Inr (A_bool x)" using assms by (simp add: works_def)
  with 1 show thesis using honest_run [OF h 1] assms(2) that by (auto simp: obeys_def fun_eq_iff)
qed

lemma works_write:
  assumes "works files os"
  obtains s' x where "os (W_write p t) s = (s', Inr x)" and "files s' = (files s)(p := Some t)" and "same_startup s s'"
proof -
  obtain s' r where 1: "os (W_write p t) s = (s', r)" by fastforce
  have h: "honest files os" using assms by (simp add: works_def)
  have "\<exists>x. snd (os (W_write p t) s) = Inr x" using assms by (simp add: works_def)
  with 1 show thesis using honest_run [OF h 1] that by (auto simp: obeys_def fun_eq_iff)
qed

text \<open>C22: Where the configuration of Dask lacks the link of the dashboard, it is put in;
  other settings stay, but those that the user has under distributed are all lost.\<close>

theorem dask_settings_lost:
  assumes "works files os" and "files s tgt = Some t" and "sl_yaml_load lib t = Some (V_dict d)"
    and "flense_items d = e # es" and "V_dict (e # es) \<noteq> goodlink"
  shows "\<exists>s' v. run (inject_new_proxy lib tgt) os s = (s', Inr ()) \<and> files s' tgt = Some (sl_yaml_dump lib v) \<and>
    dashboard_link v = Inr (V_text newlink) \<and>
    (\<forall>k. k \<noteq> ''distributed'' \<longrightarrow> item v k = item (V_dict (e # es)) k) \<and>
    (\<forall>k. k \<noteq> ''dashboard'' \<longrightarrow> rbind (item v ''distributed'') (\<lambda>x. item x k) = Inl Py_key)"
proof -
  let ?v = "update_goodlink (V_dict (e # es))"
  obtain s1 x where 1: "os (W_mkdir True True (path_parent tgt)) s = (s1, Inr x)" "files s1 = files s"
    by (rule works_mkdir [OF assms(1)])
  then have "files s1 tgt = Some t" using assms(2) by simp
  then obtain s2 where 2: "os (W_exists True tgt) s1 = (s2, Inr (A_bool True))" "files s2 = files s1"
    by (rule works_exists [OF assms(1)])
  with \<open>files s1 tgt = Some t\<close> have "files s2 tgt = Some t" by simp
  then obtain s3 where 3: "os (W_read tgt) s2 = (s3, Inr (A_text t))"
    by (rule works_read [OF assms(1)])
  obtain s4 y where 4: "os (W_write tgt (sl_yaml_dump lib ?v)) s3 = (s4, Inr y)"
      "files s4 = (files s3)(tgt := Some (sl_yaml_dump lib ?v))"
    by (rule works_write [OF assms(1)])
  have "d \<noteq> []" using assms(4) by auto
  then have new: "new_proxy_contents lib t = Inr (Some ?v)"
    using assms(3-5) by (simp add: new_proxy_contents_def flense_dict_def is_true_def)
  have "run (inject_new_proxy lib tgt) os s = (s4, Inr ())"
    by (simp add: inject_new_proxy_def catch_os_def call_def ask_bool_def ask_text_def or_exn_def run_simps 1 2 3 new 4)
  moreover have "dashboard_link ?v = Inr (V_text newlink)"
    by (simp add: dashboard_link_def update_goodlink_def item_with_item item_dict1)
  moreover have "\<forall>k. k \<noteq> ''distributed'' \<longrightarrow> item ?v k = item (V_dict (e # es)) k"
    by (simp add: update_goodlink_def item_with_item)
  moreover have "\<forall>k. k \<noteq> ''dashboard'' \<longrightarrow> rbind (item ?v ''distributed'') (\<lambda>x. item x k) = Inl Py_key"
    by (simp add: update_goodlink_def item_with_item item_dict1)
  ultimately show ?thesis using 4(2) by auto
qed

text \<open>C21: A settings file of the user that is no JSON makes the preparation of the lab
  raise before it writes the files from which the lab is started.\<close>

theorem bad_settings_stop_startup:
  assumes "works files os" and "run (prepare_environment lib) os s = (s1, Inr ())"
    and "run (tidy_homedir lib) os s1 = (s2, Inr ())" and "\<not> su_broken s2"
    and "run (copy_files_to_user_homedir lib) os s2 = (s3, Inr ())"
    and "files s3 (below (su_home s3) ''.jupyter/lab/user-settings/@jupyterlab/notebook-extension/tracker.jupyterlab.settings'') = Some t"
    and "sl_loads lib t = None"
  shows "\<exists>s'. run (prepare lib) os s = (s', Inl Py_value) \<and> files s' = files s3"
proof -
  let ?dir = "below (below (below (below (below (su_home s3) ''.jupyter'') ''lab'') ''user-settings'') ''@jupyterlab'') ''notebook-extension''"
  let ?file = "below ?dir ''tracker.jupyterlab.settings''"
  have place: "?file = below (su_home s3) ''.jupyter/lab/user-settings/@jupyterlab/notebook-extension/tracker.jupyterlab.settings''"
    by (simp add: below_def path_join_def path_of_def root_of_def)
  obtain s4 x where 1: "os (W_mkdir True True ?dir) s3 = (s4, Inr x)" "files s4 = files s3"
    by (rule works_mkdir [OF assms(1)])
  then have t: "files s4 ?file = Some t" using assms(6) place by simp
  then obtain s5 where 2: "os (W_is_file ?file) s4 = (s5, Inr (A_bool True))" "files s5 = files s4"
    by (rule works_is_file [OF assms(1)])
  with t obtain s6 where 3: "os (W_read ?file) s5 = (s6, Inr (A_text t))" "files s6 = files s5"
    using works_read [OF assms(1), of s5 ?file t] by auto
  have "run (increase_log_limit lib) os s3 = (s6, Inl Py_value)"
    by (simp add: increase_log_limit_def Let_def call_def ask_bool_def ask_text_def run_simps 1 2 3 assms(7))
  then have "run (prepare lib) os s = (s6, Inl Py_value)"
    by (simp add: prepare_def run_simps assms(2-5) catch_os_def modify_interactive_settings_def)
  then show ?thesis using 1(2) 2(2) 3(2) by simp
qed

section \<open>A system to try\<close>

text \<open>A disk that holds files by path, on which nothing fails but reading what is not there.\<close>

definition no_entry :: os_error where
  "no_entry = \<lparr>oe_errno = Errno 2, oe_strerror = Some ''No such file or directory'', oe_filename = None, oe_filename2 = None,
     oe_errorcode = None\<rparr>"

definition disk :: "((fs_path \<Rightarrow> string option) startup_scheme, os_wait, os_answer, startup_exn) env" where
  "disk w s =
     (let f = startup.more s in
      case w of
        W_read p \<Rightarrow> (s, case f p of None \<Rightarrow> Inl (Os no_entry) | Some t \<Rightarrow> Inr (A_text t))
      | W_write p t \<Rightarrow> (startup.more_update (\<lambda>_. f(p := Some t)) s, Inr A_done)
      | W_touch p \<Rightarrow> (startup.more_update (\<lambda>_. f(p := Some (content f p))) s, Inr A_done)
      | W_unlink p \<Rightarrow> (startup.more_update (\<lambda>_. f(p := None)) s, Inr A_done)
      | W_exists c p \<Rightarrow> (s, Inr (A_bool (f p \<noteq> None)))
      | W_is_file p \<Rightarrow> (s, Inr (A_bool (f p \<noteq> None)))
      | W_is_dir p \<Rightarrow> (s, Inr (A_bool True))
      | W_walk p \<Rightarrow> (s, Inr (A_tree []))
      | W_glob p g \<Rightarrow> (s, Inr (A_paths []))
      | W_list p \<Rightarrow> (s, Inr (A_paths []))
      | W_portal u \<Rightarrow> (s, Inr (A_url None))
      | W_command c \<Rightarrow> (s, Inr (A_int 0))
      | _ \<Rightarrow> (s, Inr A_done))"

lemma honest_disk: "honest startup.more disk"
  by (auto simp: honest_def outside_def same_startup_def obeys_def disk_def Let_def content_def
      split: os_wait.splits option.splits)

lemma works_disk: "works startup.more disk"
  by (auto simp: works_def honest_disk disk_def Let_def)

definition lib_example :: startup_lib where
  "lib_example = \<lparr>sl_errorcode = (\<lambda>n. if n = 2 then Some ''ENOENT'' else None), sl_strerror = (\<lambda>_. ''error''),
     sl_dumps = (\<lambda>_ _ _. ''{}''), sl_loads = (\<lambda>_. None), sl_yaml_load = (\<lambda>_. Some goodlink), sl_yaml_dump = (\<lambda>_. ''link''),
     sl_int_of_float = (\<lambda>_. Inr 1), sl_float_less = (\<lambda>_ _. False), sl_unquote = (\<lambda>t. t), sl_sha256 = (\<lambda>t. t),
     sl_ini_read = (\<lambda>_. Inr []), sl_ini_section = (\<lambda>_ _. Inr []), sl_ini_text = (\<lambda>_. [])\<rparr>"

definition home_example :: fs_path where
  "home_example = Path ''/'' [''home'', ''rachel'']"

definition startup_example :: "(string \<times> string) list \<Rightarrow> (fs_path \<Rightarrow> string option) \<Rightarrow> (fs_path \<Rightarrow> string option) startup_scheme" where
  "startup_example vs f = \<lparr>su_environ = [(''TMPDIR'', ''/t''), (''DAF_BUTLER_CACHE_DIRECTORY'', ''/t'')], su_env = vs, su_broken = False,
     su_home = home_example, su_debug = False, \<dots> = f\<rparr>"

lemma startup_reports_witness:
  "snd (run (seq (new_preparer lib_example) (prepare lib_example)) disk (startup_example [] (\<lambda>_. None))) \<noteq> Inl (Os no_entry)"
  using startup_reports [of disk lib_example "startup_example [] (\<lambda>_. None)"] honest_disk
  by (metis honest_def prod.collapse)

definition pgpass_example :: "fs_path \<Rightarrow> string option" where
  "pgpass_example = (\<lambda>_. None)(path_of ''/h'' := Some ''db:a'', path_of ''/o'' := Some ''db:b'')"

lemma pgpass_merged_witness:
  "\<exists>s' t. startup.more s' (path_of ''/h'') = Some t \<and> passwords t ''db'' = Some ''b'' \<and>
     s' = fst (run (merge_pgpass lib_example) disk (startup_example [(''PGPASSFILE'', ''/h''), (''ORIG_PGPASSFILE'', ''/o'')] pgpass_example))"
proof -
  let ?s = "startup_example [(''PGPASSFILE'', ''/h''), (''ORIG_PGPASSFILE'', ''/o'')] pgpass_example"
  have p: "path_of ''/h'' = Path ''/'' [''h'']" "path_of ''/o'' = Path ''/'' [''o'']"
    by code_simp+
  have "snd (run (merge_pgpass lib_example) disk ?s) = Inr ()"
    by (simp add: merge_pgpass_def require_env_def touch_below_home_def env_item_def ask_bool_def ask_text_def call_def run_simps
        disk_def startup_example_def Let_def p pgpass_example_def content_def)
  then have run: "run (merge_pgpass lib_example) disk ?s = (fst (run (merge_pgpass lib_example) disk ?s), Inr ())"
    by (metis prod.collapse)
  have "passwords ''db:b'' ''db'' = Some ''b''" by code_simp
  then show ?thesis
    using pgpass_merged [OF honest_disk run, of "''/h''" "''/o''"]
    by (auto simp: startup_example_def pgpass_example_def content_def p)
qed

lemma skel_keeps_files_witness:
  "startup.more (fst (run (seq copy_dircolors copy_etc_skel) disk (startup_example [] pgpass_example))) (path_of ''/h'') = Some ''db:a''"
proof -
  let ?s = "startup_example [] pgpass_example"
  have "path_of ''/h'' \<noteq> path_of ''/o''" by code_simp
  then have "startup.more ?s (path_of ''/h'') = Some ''db:a''" by (simp add: startup_example_def pgpass_example_def)
  then show ?thesis
    by (rule skel_keeps_files [OF honest_disk, where r = "snd (run (seq copy_dircolors copy_etc_skel) disk ?s)", rotated]) simp
qed

definition worker_config :: "(pyval \<times> pyval) list" where
  "worker_config = [(V_text ''distributed'', V_dict [(V_text ''worker'', V_int 4)])]"

lemma dask_settings_lost_witness:
  "\<exists>s' v. run (inject_new_proxy (lib_example\<lparr>sl_yaml_load := (\<lambda>_. Some (V_dict worker_config))\<rparr>) home_example) disk
       (startup_example [] (\<lambda>_. Some [])) = (s', Inr ()) \<and> rbind (item v ''distributed'') (\<lambda>x. item x ''worker'') = Inl Py_key"
proof -
  let ?lib = "lib_example\<lparr>sl_yaml_load := (\<lambda>_. Some (V_dict worker_config))\<rparr>"
  have a: "startup.more (startup_example [] (\<lambda>_. Some [])) home_example = Some []" by (simp add: startup_example_def)
  have b: "sl_yaml_load ?lib [] = Some (V_dict worker_config)" by simp
  have c: "flense_items worker_config = (V_text ''distributed'', V_dict [(V_text ''worker'', V_int 4)]) # []"
    by (simp add: worker_config_def)
  have d: "V_dict ((V_text ''distributed'', V_dict [(V_text ''worker'', V_int 4)]) # []) \<noteq> goodlink"
    by (simp add: goodlink_def dict1_def)
  obtain s' v where r: "run (inject_new_proxy ?lib home_example) disk (startup_example [] (\<lambda>_. Some [])) = (s', Inr ())"
    and k: "\<And>k. k \<noteq> ''dashboard'' \<Longrightarrow> rbind (item v ''distributed'') (\<lambda>x. item x k) = Inl Py_key"
    using dask_settings_lost [OF works_disk a b c d] by blast
  have "rbind (item v ''distributed'') (\<lambda>x. item x ''worker'') = Inl Py_key" by (rule k) simp
  with r show ?thesis by (intro exI conjI)
qed

definition full_example :: "(fs_path \<Rightarrow> string option) startup_scheme" where
  "full_example = startup_example [(''HOME'', ''/home/rachel'')] (\<lambda>_. Some ''x'')"

lemma prepare_environment_example:
  "\<exists>vs. run (prepare_environment lib_example) disk full_example = (full_example\<lparr>su_env := vs\<rparr>, Inr ()) \<and>
     map_of vs ''AWS_SHARED_CREDENTIALS_FILE'' = None \<and> map_of vs ''PGPASSFILE'' = None"
proof -
  have "home_example \<noteq> path_of ''/tmp''" by code_simp
  then show ?thesis
    by (simp add: prepare_environment_def catch_os_def relocate_user_environment_if_requested_def getenv_or_def run_simps
       full_example_def startup_example_def configure_env_def set_user_def env_home_def env_item_def setenv_def
       set_tmpdir_if_scratch_available_def set_butler_cache_def set_cpu_variables_def lib_example_def or_exn_def
       cpu_variables_def set_image_digest_def get_digest_def expand_panda_tilde_def set_firefly_variables_def disk_def
       force_jupyter_prefer_env_path_false_def set_butler_credential_variables_def Let_def)
qed

definition megabyte_gone :: "fs_path \<Rightarrow> string option" where
  "megabyte_gone = (\<lambda>_. Some ''x'')(below (below home_example ''.cache'') ''1mb.txt'' := None)"

lemma tidy_homedir_example:
  "run (tidy_homedir lib) disk (full_example\<lparr>su_env := vs\<rparr>) = (startup_example vs megabyte_gone, Inr ())"
  by (simp add: tidy_homedir_def clean_astropy_cache_def test_for_space_def write_a_megabyte_def remove_cachefile_def catch_os_def
      ask_bool_def ask_paths_def call_def run_simps full_example_def startup_example_def disk_def Let_def megabyte_gone_def)

lemma other_files:
  "megabyte_gone (below home_example ''.gitconfig'') = Some ''x''"
  "megabyte_gone (below home_example ''.dir_colors'') = Some ''x''"
  "megabyte_gone (below (below (below (below home_example ''.ipython'') ''profile_default'') ''startup'') ''20-logging.py'') = Some ''x''"
  "megabyte_gone (below (below (below home_example ''.config'') ''dask'') ''dashboard.yaml'') = Some ''x''"
  "megabyte_gone (below home_example ''.jupyter/lab/user-settings/@jupyterlab/notebook-extension/tracker.jupyterlab.settings'') = Some ''x''"
  by (simp_all add: megabyte_gone_def below_def path_join_def path_of_def root_of_def home_example_def)

lemma copy_files_example:
  assumes "map_of vs ''AWS_SHARED_CREDENTIALS_FILE'' = None" and "map_of vs ''PGPASSFILE'' = None"
  shows "run (copy_files_to_user_homedir lib_example) disk (startup_example vs megabyte_gone) = (startup_example vs megabyte_gone, Inr ())"
proof -
  let ?s = "startup_example vs megabyte_gone"
  have more: "startup.more ?s = megabyte_gone" "su_home ?s = home_example" "su_env ?s = vs"
    by (simp_all add: startup_example_def)
  have "flense_dict goodlink = Inr (Some goodlink)" by (simp add: flense_dict_def is_true_def goodlink_def dict1_def)
  then have dask: "new_proxy_contents lib_example ''x'' = Inr None"
    by (simp add: new_proxy_contents_def lib_example_def)
  have lines: "splitlines ''x'' = [''x'']" by (simp add: line_end_def)
  have sha: "sl_sha256 lib_example ''x'' = ''x''" by (simp add: lib_example_def)
  show ?thesis
    by (simp add: copy_files_to_user_homedir_def copy_butler_credentials_def assms setup_dask_def tidy_extant_config_def
      inject_new_proxy_def setup_gitlfs_def check_for_git_lfs_def command_run_def copy_logging_profile_def copy_dircolors_def
      copy_etc_skel_def ask_bool_def ask_text_def ask_paths_def call_def or_exn_def catch_os_def run_simps disk_def Let_def
      more other_files dask lines sha strip_def is_space_def previous_logging_checksums_def del: splitlines.simps)
qed

lemma bad_settings_stop_startup_witness:
  "snd (run (prepare lib_example) disk full_example) = Inl Py_value"
proof -
  obtain vs where 1: "run (prepare_environment lib_example) disk full_example = (full_example\<lparr>su_env := vs\<rparr>, Inr ())"
    and vs: "map_of vs ''AWS_SHARED_CREDENTIALS_FILE'' = None" "map_of vs ''PGPASSFILE'' = None"
    using prepare_environment_example by blast
  have "\<exists>s'. run (prepare lib_example) disk full_example = (s', Inl Py_value) \<and> startup.more s' = startup.more (startup_example vs megabyte_gone)"
    by (rule bad_settings_stop_startup [OF works_disk 1 tidy_homedir_example _ copy_files_example [OF vs], where t = "''x''"])
      (simp_all add: startup_example_def other_files lib_example_def)
  then show ?thesis by auto
qed

end
