(* ===== verification/Provision_Laws.thy ===== *)
theory Provision_Laws
  imports Provisioners
begin

text \<open>What the provisioners do to the settings and to the home directory of a user.\<close>

text \<open>Settings that are edited have a viewer for Markdown, and are left alone when they are edited again.\<close>

theorem edited_settings_again:
  assumes "edited_settings (V_dict d) = Inr (v, b)"
  shows "edited_settings v = Inr (v, False)"
  using assms
  by (auto simp: edited_settings_def has_key_def assign_key_def item_def with_item_def rbind_def
      split: option.splits pyval.splits if_splits sum.splits)

text \<open>What the user has set stays: other settings, other viewers, and a viewer for Markdown of the user's own.\<close>

theorem edited_settings_keep:
  assumes "edited_settings (V_dict d) = Inr (v, b)"
  shows "(\<forall>k. k \<noteq> ''defaultViewers'' \<longrightarrow> item v k = item (V_dict d) k) \<and>
    (\<forall>k x. rbind (item (V_dict d) ''defaultViewers'') (\<lambda>w. item w k) = Inr x \<longrightarrow>
       rbind (item v ''defaultViewers'') (\<lambda>w. item w k) = Inr x)"
  using assms
  by (auto simp: edited_settings_def has_key_def assign_key_def item_def with_item_def rbind_def
      split: option.splits pyval.splits if_splits sum.splits)

text \<open>
  Provisioning changes the owner of nothing but the home directory, and to the user and group of the
  provisioner only; it removes and writes nothing.
\<close>

theorem provision_home_chowns:
  "asks (\<lambda>w. case w of W_chown p u g \<Rightarrow> p = hp_home hp \<and> u = hp_uid hp \<and> g = hp_gid hp
        | W_mkdir _ _ p \<Rightarrow> p = hp_home hp | W_exists _ p \<Rightarrow> True | W_is_dir p \<Rightarrow> True | W_stat p \<Rightarrow> True
        | W_list p \<Rightarrow> True | W_umask m \<Rightarrow> True | _ \<Rightarrow> False)
     (\<lambda>_. True) (\<lambda>_. True) (provision_home hp)"
  by (auto simp: provision_home_def ask_bool_def ask_paths_def call_def do_if_def await_def seq_def split: sum.split os_answer.split)

end
