(* ===== verification/Handlers.thy ===== *)
theory Handlers
  imports Lab_Service Fileserver_Service
begin

text \<open>
  The routes of the controller, \<open>src/src/nublado/controller/handlers\<close>, with the dependencies that check who
  asks, \<open>dependencies/user.py\<close>, and what the exceptions of \<open>exceptions.py\<close> that are errors of the client
  become in a reply. What Gafaelfawr answers for a token is an argument, as are the images of the spawner
  form. Templates and logging are left out.
\<close>

section \<open>Replies\<close>

text \<open>An error of the client: its status and name, and the field of the request that it is about.\<close>

record client_error =
  ce_status :: nat
  ce_error :: string
  ce_field :: "(string \<times> string list) option"

datatype 'a reply = Reply nat 'a | Refused client_error | Failed string

definition insufficient_quota_error :: client_error where
  "insufficient_quota_error = \<lparr>ce_status = 403, ce_error = ''insufficient_quota'', ce_field = None\<rparr>"

definition invalid_reference_error :: client_error where
  "invalid_reference_error = \<lparr>ce_status = 422, ce_error = ''invalid_docker_reference'', ce_field = None\<rparr>"

definition invalid_lab_size_error :: client_error where
  "invalid_lab_size_error = \<lparr>ce_status = 422, ce_error = ''invalid_lab_size'', ce_field = Some (''body'', [''options'', ''size''])\<rparr>"

definition invalid_pod_phase_error :: client_error where
  "invalid_pod_phase_error = \<lparr>ce_status = 404, ce_error = ''invalid_phase'', ce_field = None\<rparr>"

definition invalid_token_error :: client_error where
  "invalid_token_error = \<lparr>ce_status = 401, ce_error = ''invalid_token'', ce_field = None\<rparr>"

definition lab_exists_error :: client_error where
  "lab_exists_error = \<lparr>ce_status = 409, ce_error = ''lab_exists'', ce_field = None\<rparr>"

definition operation_conflict_error :: client_error where
  "operation_conflict_error = \<lparr>ce_status = 409, ce_error = ''operation_in_progress'', ce_field = None\<rparr>"

definition not_configured_error :: client_error where
  "not_configured_error = \<lparr>ce_status = 404, ce_error = ''not_supported'', ce_field = None\<rparr>"

definition permission_denied_error :: client_error where
  "permission_denied_error = \<lparr>ce_status = 403, ce_error = ''permission_denied'', ce_field = None\<rparr>"

definition pod_not_found_error :: client_error where
  "pod_not_found_error = \<lparr>ce_status = 404, ce_error = ''not_found'', ce_field = None\<rparr>"

definition unknown_image_error :: client_error where
  "unknown_image_error = \<lparr>ce_status = 400, ce_error = ''unknown_image'', ce_field = None\<rparr>"

definition unknown_user_error :: client_error where
  "unknown_user_error = \<lparr>ce_status = 404, ce_error = ''unknown_user'', ce_field = None\<rparr>"

definition error_class :: "exn \<Rightarrow> client_error option" where
  "error_class e =
     (case e of
        InsufficientQuota \<Rightarrow> Some insufficient_quota_error
      | InvalidDockerReference \<Rightarrow> Some invalid_reference_error
      | InvalidLabSize \<Rightarrow> Some invalid_lab_size_error
      | LabExists \<Rightarrow> Some lab_exists_error
      | OperationConflict \<Rightarrow> Some operation_conflict_error
      | PermissionDenied \<Rightarrow> Some permission_denied_error
      | UnknownDockerImage \<Rightarrow> Some unknown_image_error
      | UnknownUser \<Rightarrow> Some unknown_user_error
      | _ \<Rightarrow> None)"

text \<open>An exception that is no error of the client goes on to the framework.\<close>

definition refuse :: "exn \<Rightarrow> (client_error \<Rightarrow> client_error) \<Rightarrow> 'a reply svc" where
  "refuse e place = (case error_class e of Some c \<Rightarrow> Ret (Refused (place c)) | None \<Rightarrow> Raise e)"

section \<open>Who asks\<close>

datatype gafaelfawr_answer = Gaf_user gafaelfawr_user | Gaf_web_error "nat option" | Gaf_error

definition user_dependency :: "gafaelfawr_answer \<Rightarrow> string \<Rightarrow> ('a reply, gafaelfawr_user) result" where
  "user_dependency answer auth_user =
     (case answer of
        Gaf_web_error st \<Rightarrow> if st \<in> {Some 401, Some 403} then Inl (Refused invalid_token_error) else Inl (Failed ''uncaught'')
      | Gaf_error \<Rightarrow> Inl (Failed ''uncaught'')
      | Gaf_user g \<Rightarrow> if g_username g \<noteq> auth_user then Inl (Refused permission_denied_error) else Inr g)"

definition username_path_dependency :: "string \<Rightarrow> string \<Rightarrow> (client_error, string) result" where
  "username_path_dependency u auth_user = (if u \<noteq> auth_user then Inl permission_denied_error else Inr u)"

section \<open>Labs\<close>

definition get_lab_users :: "string list reply svc" where
  "get_lab_users = bind (reading (list_lab_users True)) (\<lambda>us. Ret (Reply 200 us))"

definition get_lab_state_route :: "string \<Rightarrow> state_id reply svc" where
  "get_lab_state_route u = bind (reading (get_lab_state u)) (\<lambda>st.
     case st of
       None \<Rightarrow> Ret (Refused (unknown_user_error\<lparr>ce_field := Some (''path'', [''username''])\<rparr>))
     | Some i \<Rightarrow> Ret (Reply 200 i))"

definition get_user_state_route :: "string \<Rightarrow> state_id reply svc" where
  "get_user_state_route auth_user = bind (reading (get_lab_state auth_user)) (\<lambda>st.
     case st of None \<Rightarrow> Ret (Refused unknown_user_error) | Some i \<Rightarrow> Ret (Reply 200 i))"

text \<open>The field that an error of a spawn is about.\<close>

definition place_spawn_error :: "lab_specification \<Rightarrow> exn \<Rightarrow> client_error \<Rightarrow> client_error" where
  "place_spawn_error lab e c =
     (if e = InsufficientQuota then c\<lparr>ce_field := Some (''body'', [''options'', ''size''])\<rparr>
      else if e \<in> {InvalidDockerReference, UnknownDockerImage}
      then c\<lparr>ce_field := Some (''body'', [''options'', image_attribute (spec_options lab)])\<rparr>
      else c)"

text \<open>The reply of a success has the user whose lab it is, from whom the framework makes the URL.\<close>

definition post_new_lab ::
  "manager_config \<Rightarrow> gafaelfawr_answer \<Rightarrow> string \<Rightarrow> string \<Rightarrow> lab_specification \<Rightarrow> string reply svc" where
  "post_new_lab cfg answer auth_user u lab =
     (case user_dependency answer auth_user of
        Inl r \<Rightarrow> Ret r
      | Inr g \<Rightarrow>
          if u \<noteq> g_username g then Ret (Refused permission_denied_error)
          else try_else (create_lab cfg g lab) (\<lambda>e. refuse e (place_spawn_error lab e)) (\<lambda>_. Ret (Reply 201 u)))"

definition delete_user_lab :: "manager_config \<Rightarrow> string \<Rightarrow> unit reply svc" where
  "delete_user_lab cfg u =
     try_else (delete_lab cfg u)
       (\<lambda>e. if e = UnknownUser then refuse e (\<lambda>c. c\<lparr>ce_field := Some (''path'', [''username''])\<rparr>)
            else if e = OperationConflict then refuse e (\<lambda>c. c)
            else if is_exception e then Ret (Failed ''delete_failed'') else Raise e)
       (\<lambda>_. Ret (Reply 204 ()))"

definition get_lab_events :: "string \<Rightarrow> string \<Rightarrow> lab_id reply svc" where
  "get_lab_events auth_user u =
     (case username_path_dependency u auth_user of
        Inl c \<Rightarrow> Ret (Refused c)
      | Inr u \<Rightarrow> bind (reading (events_for_user u)) (\<lambda>r. case r of
            Inl e \<Rightarrow> refuse e (\<lambda>c. c\<lparr>ce_field := Some (''path'', [''username''])\<rparr>)
          | Inr l \<Rightarrow> Ret (Reply 200 l)))"

section \<open>The spawner form\<close>

datatype 'i form_page = Unavailable | Spawner_form 'i "lab_size_definition list" lab_size

definition fits_quota :: "notebook_quota \<Rightarrow> lab_size_definition \<Rightarrow> bool" where
  "fits_quota q s \<longleftrightarrow> memory (limits (def_resources s)) \<le> quota_memory q \<and> cpu (limits (def_resources s)) \<le> quota_cpu q"

text \<open>\<open>sizes[0]\<close> raises when there are none.\<close>

definition form_page_of :: "lab_size_definition list \<Rightarrow> lab_size option \<Rightarrow> 'i \<Rightarrow> gafaelfawr_user \<Rightarrow> 'i form_page reply" where
  "form_page_of sizes default_size images g =
     (let shown = (case g_quota g of None \<Rightarrow> sizes | Some q \<Rightarrow> filter (fits_quota q) sizes) in
      if (case g_quota g of None \<Rightarrow> False | Some q \<Rightarrow> shown = [] \<or> \<not> quota_spawn q) then Reply 200 Unavailable
      else
        let preset = (case default_size of None \<Rightarrow> None | Some d \<Rightarrow> if list_ex (\<lambda>s. def_size s = d) shown then Some d else None)
        in case preset of
             Some d \<Rightarrow> Reply 200 (Spawner_form images shown d)
           | None \<Rightarrow> (case shown of [] \<Rightarrow> Failed ''uncaught'' | s # _ \<Rightarrow> Reply 200 (Spawner_form images shown (def_size s))))"

definition get_user_lab_form ::
  "lab_size_definition list \<Rightarrow> lab_size option \<Rightarrow> 'i \<Rightarrow> gafaelfawr_answer \<Rightarrow> string \<Rightarrow> string \<Rightarrow> 'i form_page reply" where
  "get_user_lab_form sizes default_size images answer auth_user u =
     (case user_dependency answer auth_user of
        Inl r \<Rightarrow> r
      | Inr g \<Rightarrow> if u \<noteq> g_username g then Refused permission_denied_error else form_page_of sizes default_size images g)"

section \<open>File servers\<close>

definition get_fileserver_users :: "string list reply fsm" where
  "get_fileserver_users = bind fs_list (\<lambda>us. Ret (Reply 200 us))"

definition get_fileserver_status :: "string \<Rightarrow> bool reply fsm" where
  "get_fileserver_status u = bind (fs_get_status u) (\<lambda>up. Ret (if up then Reply 200 True else Refused unknown_user_error))"

definition remove_fileserver :: "k_config \<Rightarrow> fileserver_config \<Rightarrow> string \<Rightarrow> unit reply fsm" where
  "remove_fileserver kc cfg u =
     try_else (fs_delete kc cfg u)
       (\<lambda>e. if e = K_unknown_user then Ret (Refused unknown_user_error)
            else if is_exn e then Ret (Failed ''file_server_delete_failed'') else Raise e)
       (\<lambda>_. Ret (Reply 204 ()))"

text \<open>The reply is the page for the user.\<close>

definition route_user :: "k_config \<Rightarrow> fileserver_config \<Rightarrow> bool \<Rightarrow> gafaelfawr_answer \<Rightarrow> string \<Rightarrow> string reply fsm" where
  "route_user kc cfg enabled answer auth_user =
     (case user_dependency answer auth_user of
        Inl r \<Rightarrow> Ret r
      | Inr g \<Rightarrow>
          if \<not> enabled then Ret (Refused not_configured_error)
          else try_else (fs_create kc cfg g)
            (\<lambda>e. if is_exn e then Ret (Failed ''file_server_create_failed'') else Raise e)
            (\<lambda>_. Ret (Reply 200 (g_username g))))"

section \<open>What the routes promise\<close>

text \<open>Nobody spawns a lab or reads its events for anybody else.\<close>

lemma post_new_lab_own:
  "\<not> (\<exists>g. answer = Gaf_user g \<and> g_username g = u \<and> auth_user = u) \<Longrightarrow>
   \<exists>r. post_new_lab cfg answer auth_user u lab = Ret r \<and> (\<forall>n x. r \<noteq> Reply n x)"
  by (auto simp: post_new_lab_def user_dependency_def split: gafaelfawr_answer.split)

text \<open>The quota and the size under which \<open>create_lab\<close> goes on.\<close>

definition size_allowed :: "lab_size_definition list \<Rightarrow> gafaelfawr_user \<Rightarrow> lab_size \<Rightarrow> bool" where
  "size_allowed sizes g sz \<longleftrightarrow> check_quota g = Inr () \<and>
     (case get_size_definition sizes sz of None \<Rightarrow> False | Some d \<Rightarrow> \<not> over_quota (g_quota g) (def_resources d))"

lemma create_lab_allowed:
  assumes "run (create_lab cfg g spec) envir s = (s', Inr u)"
  shows "size_allowed (cfg_sizes (m_lab cfg)) g (req_size (spec_options spec))"
proof (rule ccontr)
  assume "\<not> ?thesis"
  then consider e where "check_quota g = Inl e"
    | "check_quota g = Inr ()" "get_size_definition (cfg_sizes (m_lab cfg)) (req_size (spec_options spec)) = None"
    | d where "check_quota g = Inr ()" "get_size_definition (cfg_sizes (m_lab cfg)) (req_size (spec_options spec)) = Some d"
        "over_quota (g_quota g) (def_resources d)"
    by (cases "check_quota g"; cases "get_size_definition (cfg_sizes (m_lab cfg)) (req_size (spec_options spec))")
      (auto simp: size_allowed_def)
  then show False
    using assms by cases
      (auto simp: create_lab_def of_result_def run_bind run_seq split: prod.splits sum.splits if_splits)
qed

lemma get_size_in:
  assumes "distinct (map def_size sizes)" and "d \<in> set sizes"
  shows "get_size_definition sizes (def_size d) = Some d"
  unfolding get_size_definition_def using assms
  by (induction sizes) (auto simp: rev_image_eqI)

lemma shown_allowed:
  assumes "distinct (map def_size sizes)"
    and "form_page_of sizes default_size images g = Reply 200 (Spawner_form images' shown preset)"
  shows "size_allowed sizes g sz \<longleftrightarrow> sz \<in> def_size ` set shown"
proof -
  have shown: "shown = (case g_quota g of None \<Rightarrow> sizes | Some q \<Rightarrow> filter (fits_quota q) sizes)"
    and "check_quota g = Inr ()"
    using assms(2) by (auto simp: form_page_of_def Let_def check_quota_def split: option.splits if_splits list.splits)
  have fits: "over_quota (g_quota g) (def_resources d) \<longleftrightarrow> (\<exists>q. g_quota g = Some q \<and> \<not> fits_quota q d)" for d
    by (auto simp: over_quota_def fits_quota_def split: option.split)
  show ?thesis
  proof
    assume "size_allowed sizes g sz"
    then obtain d where d: "get_size_definition sizes sz = Some d" "\<not> over_quota (g_quota g) (def_resources d)"
      by (auto simp: size_allowed_def split: option.splits)
    from d(1) have "d \<in> set sizes" "def_size d = sz" by (auto simp: get_size_definition_def dest: find_SomeD)
    with d(2) show "sz \<in> def_size ` set shown" by (auto simp: shown fits split: option.splits)
  next
    assume "sz \<in> def_size ` set shown"
    then obtain d where "d \<in> set sizes" "sz = def_size d" "\<not> over_quota (g_quota g) (def_resources d)"
      by (auto simp: shown fits split: option.splits)
    with get_size_in [OF assms(1)] \<open>check_quota g = Inr ()\<close> show "size_allowed sizes g sz" by (simp add: size_allowed_def)
  qed
qed

lemma preset_shown:
  assumes "form_page_of sizes default_size images g = Reply 200 (Spawner_form i shown preset)"
  shows "preset \<in> def_size ` set shown"
proof -
  define sh where "sh = (case g_quota g of None \<Rightarrow> sizes | Some q \<Rightarrow> filter (fits_quota q) sizes)"
  have "shown = sh \<and> (preset \<in> def_size ` set sh \<or> (\<exists>s ss. sh = s # ss \<and> preset = def_size s))"
    using assms unfolding form_page_of_def Let_def sh_def [symmetric]
    by (auto simp: list_ex_iff split: option.splits if_splits list.splits)
  then show ?thesis by auto
qed

text \<open>C31: The spawner form offers every size with which its user can create a lab, and no
  size that the quota forbids; it presets one that it offers. Users to whom it says that labs are
  unavailable can create none.\<close>

theorem form_agrees_with_create:
  assumes "distinct (map def_size (cfg_sizes (m_lab cfg)))"
    and "form_page_of (cfg_sizes (m_lab cfg)) default_size images g = Reply 200 page"
  shows "case page of
      Spawner_form i shown preset \<Rightarrow> preset \<in> def_size ` set shown \<and>
        (\<forall>d \<in> set shown. \<not> over_quota (g_quota g) (def_resources d)) \<and>
        (\<forall>spec envir s s'. run (create_lab cfg g spec) envir s = (s', Inr ()) \<longrightarrow>
           req_size (spec_options spec) \<in> def_size ` set shown)
    | Unavailable \<Rightarrow> \<forall>spec envir s. snd (run (create_lab cfg g spec) envir s) \<noteq> Inr ()"
proof (cases page)
  case Unavailable
  with assms(2) obtain q where q: "g_quota g = Some q" "filter (fits_quota q) (cfg_sizes (m_lab cfg)) = [] \<or> \<not> quota_spawn q"
    by (auto simp: form_page_of_def Let_def split: option.splits if_splits list.splits)
  have "\<not> size_allowed (cfg_sizes (m_lab cfg)) g sz" for sz
    using q by (auto simp: size_allowed_def check_quota_def over_quota_def fits_quota_def get_size_definition_def
        filter_empty_conv split: option.splits dest!: find_SomeD)
  then show ?thesis using Unavailable create_lab_allowed by (auto simp: prod_eq_iff) (metis prod.collapse)
next
  case (Spawner_form i shown preset)
  note page = assms(2) [unfolded Spawner_form]
  have "preset \<in> def_size ` set shown" using page by (rule preset_shown)
  moreover have "\<forall>d \<in> set shown. \<not> over_quota (g_quota g) (def_resources d)"
    using page by (auto simp: form_page_of_def Let_def over_quota_def fits_quota_def split: option.splits if_splits list.splits)
  moreover have "\<forall>spec envir s s'. run (create_lab cfg g spec) envir s = (s', Inr ()) \<longrightarrow>
      req_size (spec_options spec) \<in> def_size ` set shown"
    using create_lab_allowed shown_allowed [OF assms(1) page] by blast
  ultimately show ?thesis using Spawner_form by simp
qed

definition manager_example :: manager_config where
  "manager_example = \<lparr>m_lab = example_config, spawn_timeout = 1, delete_timeout = 1, controller_namespace = ''nublado'',
     watch_fuel = 1, exn_text = (\<lambda>_. [])\<rparr>"

definition barred_user :: gafaelfawr_user where
  "barred_user = example_user\<lparr>g_quota := Some \<lparr>quota_cpu = 4, quota_memory_gib = 8, quota_memory = 8589934592, quota_spawn = False\<rparr>\<rparr>"

lemma form_agrees_with_create_witness:
  "\<forall>spec envir s. snd (run (create_lab manager_example barred_user spec) envir s) \<noteq> Inr ()"
proof -
  have "form_page_of (cfg_sizes (m_lab manager_example)) None () barred_user = Reply 200 Unavailable"
    by (simp add: form_page_of_def barred_user_def)
  from form_agrees_with_create [OF _ this] show ?thesis
    by (simp add: manager_example_def example_config_def example_sizes_def)
qed

end
