(* ===== verification/Controller_Errors.thy ===== *)
theory Controller_Errors
  imports Client_Errors Kube_Models
begin

text \<open>
  The exceptions of the controller that are reported, \<open>src/src/nublado/controller/exceptions.py\<close>: their texts,
  and what they show in Slack and in Sentry. The messages and events that the base class of the Safir
  library makes, the text of a time and the number of seconds of a duration are parameters.
\<close>

record error_details =
  ed_message :: string
  ed_user :: "string option"
  ed_kind :: "string option"
  ed_namespace :: "string option"
  ed_name :: "string option"
  ed_status :: "int option"
  ed_body :: "string option"

datatype controller_error =
    Timeout_error string datetime datetime
  | Duplicate_error error_details
  | Parse_error string
  | Kubernetes_error error_details
  | Missing_error error_details

record controller_format =
  cf_time :: "datetime \<Rightarrow> string"
  cf_seconds :: "timedelta \<Rightarrow> string"
  cf_slack :: "controller_error \<Rightarrow> slack_message"
  cf_sentry :: "controller_error \<Rightarrow> sentry_info"

section \<open>Making them\<close>

text \<open>A failed call of the API, with its body decoded if it is bytes.\<close>

record api_failure =
  af_status :: "int option"
  af_reason :: "string option"
  af_body :: "string option"

definition kubernetes_from_exception ::
  "string \<Rightarrow> api_failure \<Rightarrow> string option \<Rightarrow> string option \<Rightarrow> string option \<Rightarrow> string option \<Rightarrow> error_details" where
  "kubernetes_from_exception msg f u k ns n =
     \<lparr>ed_message = msg, ed_user = u, ed_kind = k, ed_namespace = ns, ed_name = n, ed_status = af_status f,
      ed_body = (case present (af_body f) of Some b \<Rightarrow> Some b | None \<Rightarrow> af_reason f)\<rparr>"

definition missing_secret_error :: "string \<Rightarrow> string \<Rightarrow> string option \<Rightarrow> error_details" where
  "missing_secret_error n ns key =
     \<lparr>ed_message = (case present key of
          Some k \<Rightarrow> ''No key '' @ k @ '' in secret '' @ ns @ ''/'' @ n
        | None \<Rightarrow> ''Secret '' @ ns @ ''/'' @ n @ '' does not exist''),
      ed_user = None, ed_kind = Some ''Secret'', ed_namespace = Some ns, ed_name = Some n, ed_status = None, ed_body = None\<rparr>"

definition timeout_error_text :: "controller_format \<Rightarrow> string \<Rightarrow> datetime \<Rightarrow> datetime \<Rightarrow> string" where
  "timeout_error_text cf what started failed = what @ '' timed out after '' @ cf_seconds cf (failed - started)"

definition gafaelfawr_parse_error :: "string \<Rightarrow> string \<Rightarrow> controller_error" where
  "gafaelfawr_parse_error class text = Parse_error (class @ '': '' @ text)"

section \<open>As text\<close>

definition nonzero :: "int option \<Rightarrow> int option" where
  "nonzero i = (case i of None \<Rightarrow> None | Some n \<Rightarrow> if n = 0 then None else Some n)"

definition kind_prefix :: "error_details \<Rightarrow> string" where
  "kind_prefix e = (case present (ed_kind e) of Some k \<Rightarrow> k @ '' '' | None \<Rightarrow> [])"

definition named_object :: "error_details \<Rightarrow> string \<Rightarrow> string" where
  "named_object e n = kind_prefix e @ (case present (ed_namespace e) of Some ns \<Rightarrow> ns @ ''/'' @ n | None \<Rightarrow> n)"

definition kubernetes_summary :: "error_details \<Rightarrow> string" where
  "kubernetes_summary e =
     (if present (ed_name e) = None \<and> present (ed_kind e) = None \<and> nonzero (ed_status e) = None then ed_message e
      else
        let comma = (if nonzero (ed_status e) = None then [] else '', '') in
        ed_message e @ '' ('' @
        (case present (ed_name e) of
           Some n \<Rightarrow> named_object e n @ comma
         | None \<Rightarrow> (case present (ed_kind e) of Some k \<Rightarrow> k @ comma | None \<Rightarrow> [])) @
        (case nonzero (ed_status e) of Some s \<Rightarrow> ''status '' @ dec_int s | None \<Rightarrow> []) @ '')'')"

definition kubernetes_text :: "error_details \<Rightarrow> string" where
  "kubernetes_text e = kubernetes_summary e @ (case present (ed_body e) of Some b \<Rightarrow> '': '' @ b | None \<Rightarrow> [])"

section \<open>In Slack\<close>

definition add_block :: "slack_block \<Rightarrow> slack_message \<Rightarrow> slack_message" where
  "add_block b m = m\<lparr>sl_blocks := sl_blocks m @ [b]\<rparr>"

definition kubernetes_object :: "error_details \<Rightarrow> string option" where
  "kubernetes_object e =
     (case present (ed_name e) of
        Some n \<Rightarrow> Some (named_object e n)
      | None \<Rightarrow> (case present (ed_kind e) of
          Some k \<Rightarrow> Some (case present (ed_namespace e) of Some ns \<Rightarrow> k @ '' in namespace '' @ ns | None \<Rightarrow> k)
        | None \<Rightarrow> None))"

definition kubernetes_to_slack :: "controller_format \<Rightarrow> error_details \<Rightarrow> slack_message" where
  "kubernetes_to_slack cf e =
     (let m = (cf_slack cf (Kubernetes_error e))\<lparr>sl_message := kubernetes_summary e\<rparr>;
          m = (case nonzero (ed_status e) of Some s \<Rightarrow> m\<lparr>sl_fields := sl_fields m @ [(''Status'', dec_int s)]\<rparr> | None \<Rightarrow> m);
          m = (case kubernetes_object e of Some x \<Rightarrow> add_block (Text_block ''Object'' x) m | None \<Rightarrow> m)
      in case present (ed_body e) of Some b \<Rightarrow> add_block (Code_block ''Error'' b) m | None \<Rightarrow> m)"

definition text_or_none :: "string option \<Rightarrow> string" where
  "text_or_none t = (case t of None \<Rightarrow> ''None'' | Some x \<Rightarrow> x)"

definition missing_object :: "error_details \<Rightarrow> string" where
  "missing_object e =
     (let k = text_or_none (ed_kind e) in
      case present (ed_name e) of
        Some n \<Rightarrow> (case present (ed_namespace e) of Some ns \<Rightarrow> k @ '' '' @ ns @ ''/'' @ n | None \<Rightarrow> k @ '' '' @ n)
      | None \<Rightarrow> (case present (ed_namespace e) of Some ns \<Rightarrow> k @ '' (namespace: '' @ ns @ '')'' | None \<Rightarrow> k))"

definition duplicate_object :: "error_details \<Rightarrow> string" where
  "duplicate_object e =
     (let k = text_or_none (ed_kind e) in case present (ed_namespace e) of Some ns \<Rightarrow> k @ '' '' @ ns | None \<Rightarrow> k)"

definition timeout_error_to_slack :: "controller_format \<Rightarrow> string \<Rightarrow> string option \<Rightarrow> datetime \<Rightarrow> datetime \<Rightarrow> slack_message" where
  "timeout_error_to_slack cf what u started failed =
     \<lparr>sl_message = timeout_error_text cf what started failed, sl_blocks = [],
      sl_fields = [(''Started at'', cf_time cf started), (''Failed at'', cf_time cf failed)] @
        (case present u of Some x \<Rightarrow> [(''User'', x)] | None \<Rightarrow> []),
      sl_attachments = []\<rparr>"

definition controller_to_slack :: "controller_format \<Rightarrow> string option \<Rightarrow> controller_error \<Rightarrow> slack_message" where
  "controller_to_slack cf u e =
     (case e of
        Timeout_error what started failed \<Rightarrow> timeout_error_to_slack cf what u started failed
      | Duplicate_error d \<Rightarrow> add_block (Text_block ''Object'' (duplicate_object d)) (cf_slack cf e)
      | Parse_error x \<Rightarrow> add_block (Code_block ''Error'' x) (cf_slack cf e)
      | Kubernetes_error d \<Rightarrow> kubernetes_to_slack cf d
      | Missing_error d \<Rightarrow> add_block (Text_block ''Object'' (missing_object d)) (cf_slack cf e))"

section \<open>In Sentry\<close>

text \<open>A tag that is set even when it is empty.\<close>

definition plain_tag_info :: "string \<Rightarrow> string \<Rightarrow> sentry_info \<Rightarrow> sentry_info" where
  "plain_tag_info k v i = i\<lparr>si_tags := dset k v (si_tags i)\<rparr>"

text \<open>The event, and the user that it is about if that is set.\<close>

type_synonym sentry_event = "sentry_info \<times> string option"

definition timeout_error_to_sentry :: "controller_format \<Rightarrow> string \<Rightarrow> string option \<Rightarrow> datetime \<Rightarrow> datetime \<Rightarrow> sentry_event" where
  "timeout_error_to_sentry cf what u started failed =
     (add_context ''info'' ''started_at'' (cf_time cf started) (cf_sentry cf (Timeout_error what started failed)), present u)"

definition kubernetes_to_sentry :: "controller_format \<Rightarrow> error_details \<Rightarrow> sentry_info" where
  "kubernetes_to_sentry cf e =
     with_present (ed_body e) (attach ''body'')
       (set_tag ''namespace'' (ed_namespace e) (set_tag ''kind'' (ed_kind e) (set_tag ''name'' (ed_name e)
         (set_tag ''status'' (map_option dec_int (nonzero (ed_status e))) (cf_sentry cf (Kubernetes_error e))))))"

definition duplicate_to_sentry :: "controller_format \<Rightarrow> error_details \<Rightarrow> sentry_info" where
  "duplicate_to_sentry cf e =
     set_tag ''namespace'' (ed_namespace e)
       (plain_tag_info ''kind'' (text_or_none (ed_kind e)) (cf_sentry cf (Duplicate_error e)))"

definition missing_to_sentry :: "controller_format \<Rightarrow> error_details \<Rightarrow> sentry_info" where
  "missing_to_sentry cf e =
     set_tag ''namespace'' (ed_namespace e) (set_tag ''name'' (ed_name e)
       (plain_tag_info ''kind'' (text_or_none (ed_kind e)) (cf_sentry cf (Missing_error e))))"

definition controller_to_sentry :: "controller_format \<Rightarrow> string option \<Rightarrow> controller_error \<Rightarrow> sentry_event" where
  "controller_to_sentry cf u e =
     (case e of
        Timeout_error what started failed \<Rightarrow> timeout_error_to_sentry cf what u started failed
      | Duplicate_error d \<Rightarrow> (duplicate_to_sentry cf d, None)
      | Parse_error x \<Rightarrow> (cf_sentry cf e, None)
      | Kubernetes_error d \<Rightarrow> (kubernetes_to_sentry cf d, None)
      | Missing_error d \<Rightarrow> (missing_to_sentry cf d, None))"

section \<open>What is kept\<close>

text \<open>The text of a failed call holds the message, the object and the body.\<close>

lemma kubernetes_text_complete:
  "prefix (ed_message e) (kubernetes_text e) \<and>
   (\<forall>n. present (ed_name e) = Some n \<longrightarrow> sublist n (kubernetes_text e)) \<and>
   (\<forall>b. present (ed_body e) = Some b \<longrightarrow> suffix b (kubernetes_text e))"
proof (intro conjI allI impI)
  show "prefix (ed_message e) (kubernetes_text e)"
    by (simp add: kubernetes_text_def kubernetes_summary_def Let_def)
next
  fix n
  assume n: "present (ed_name e) = Some n"
  have "suffix n (named_object e n)" by (simp add: named_object_def suffix_def split: option.split)
  then obtain p where "named_object e n = p @ n" by (auto simp: suffix_def)
  with n have "\<exists>ys. kubernetes_text e = (ed_message e @ '' ('' @ p) @ n @ ys"
    by (simp add: kubernetes_text_def kubernetes_summary_def Let_def)
  then show "sublist n (kubernetes_text e)" unfolding sublist_def by blast
next
  fix b
  assume "present (ed_body e) = Some b"
  then show "suffix b (kubernetes_text e)" by (simp add: kubernetes_text_def suffix_def)
qed

end
