(* ===== verification/Spec2Isabelle.thy ===== *)
theory Spec2Isabelle
  imports Image_Collection Docker_Model Lab_Progress Kube_Laws Fileserver_Laws Purger_Laws Registry_Laws Background Hub_Plugins Spawn_Form Homedir_Laws Provision_Laws Handlers Controller_Errors
begin

text \<open>
  Nublado, the JupyterLab service of the Rubin Science Platform. A controller, \<open>src/src/nublado\<close>,
  spawns labs in Kubernetes for JupyterHub, keeps track of the images that users can choose, runs file
  servers for users, and purges scratch space; JupyterHub talks to it through two plugins,
  \<open>src/hub/plugins\<close>, and programs talk to JupyterHub and to labs through a client library,
  \<open>src/client\<close>. This development models the program as HOL functions and coroutines, and proves
  what each part promises. Every definition is translated from the Python code; the manifest names
  the lines of each.

  The theories:

  \<^item> \<open>Prelude\<close>, \<open>Py_Regex\<close>, \<open>Py_Datetime\<close>: what the code uses of Python. Fallible results are sums
    with the exception on the left, dictionaries are association lists in insertion order, strings
    are lists of characters. The stable sort of Python is used over any strict weak order (locales
    \<open>weak_order\<close> and \<open>comparison\<close>). Times are integers, in microseconds.
  \<^item> \<open>Async\<close>: coroutines. A coroutine reads and writes the shared state between two waits; a wait is
    answered with a value or an exception. \<open>run\<close> is a run of one coroutine in an environment that
    answers its waits and may change the state meanwhile, \<open>wp\<close>, \<open>triple\<close> and \<open>keeps\<close> say what holds
    of such runs, \<open>asks\<close> which waits a coroutine may ask for. The locale \<open>interference\<close> has the rules
    for coroutines whose state others change under a rely condition.
  \<^item> \<open>Image_Filter\<close>, \<open>Image_Tag\<close>, \<open>Tag_Collection\<close>, \<open>Image_Collection\<close>:
    \<open>models/images/_type.py\<close>, \<open>_filter.py\<close>, \<open>_tag.py\<close>, \<open>_image.py\<close>. Tags are parsed by regular
    expressions, compared by version, filtered by age, count and version; images refer to each other
    as aliases, so they are kept in a store by address. Shown: the parser on releases and weeklies,
    the order of parsed tags, filtering and its inverse, the well-formedness of collections, and the
    result of indexing a list of images, whatever its aliases are.
  \<^item> \<open>Docker_Model\<close>: \<open>controller/models/domain/docker.py\<close>. Shown: the round trips of references and
    that credentials are given only to their own hosts.
  \<^item> \<open>Lab_Model\<close>, \<open>Lab_Builder\<close>, \<open>Pod_Builders\<close>, \<open>Kube_Models\<close>: the models of requests and labs, the
    builders of the Kubernetes objects of labs, file servers, the administration pod and prepulled
    images, and the placement of pods on nodes. Shown: the objects of a lab fit together, and their
    volumes have names of their own when those of the configuration do; the state of a lab is
    recreated from its objects; and a node is eligible when its taints are tolerated by the rule of
    Kubernetes, \<open>v1_tolerates\<close>, without an end where they evict.
  \<^item> \<open>Lab_State\<close>, \<open>Lab_Service\<close>, \<open>Lab_Pool\<close>, \<open>Lab_Safety\<close>, \<open>Lab_Progress\<close>:
    \<open>controller/services/lab.py\<close>. Each method of \<open>LabManager\<close> and \<open>_LabMonitor\<close> is a coroutine; the pool
    of tasks steps them in any order, with requests arriving and tasks being cancelled. Shown, for
    every reachable state: one operation per lab, what the holder of a lock waits for, and that every
    task waits for one that can go on. The exceptions, apart from the idle reaper, are tasks that wait
    for an operation whose task was cancelled before its first step: \<open>abandoned\<close>, they hang.
  \<^item> \<open>Timeouts\<close>, \<open>Kube_Storage\<close>, \<open>Kube_Laws\<close>: \<open>controller/timeout.py\<close> and
    \<open>controller/storage/kubernetes\<close>. A call of the Kubernetes API is a wait, so every answer and every
    error of the API is considered. Shown: a part of a time limit ends with it, but for the time between
    two readings of the clock; loops end with their time limit; and what was deleted with waiting is
    gone.
  \<^item> \<open>Fileserver_Service\<close>, \<open>Fileserver_Laws\<close>: \<open>controller/services/fileserver.py\<close> and \<open>fsadmin.py\<close>.
    Shown: creation ends, deletion deletes, and the manager refines the set of users whose file
    server runs.
  \<^item> \<open>Registry_Types\<close>, \<open>Registry_Clients\<close>, \<open>Registry_Laws\<close>: \<open>storage/docker.py\<close>, \<open>storage/gar.py\<close> and
    \<open>services/images\<close>. A request to a registry is a wait. Shown, with pages, challenges and failures: where
    requests go, that listing tags ends, and what pruning deletes when it succeeds and when it fails.
  \<^item> \<open>Image_Service\<close>, \<open>Image_Laws\<close>, \<open>Background\<close>: \<open>controller/services/image.py\<close>, \<open>prepuller.py\<close>,
    \<open>services/source\<close> and \<open>controller/background.py\<close>. Shown: the images that are missing on nodes,
    that a prepulled image is not missing, the image that is found for a reference, and that the
    loops survive exceptions.
  \<^item> \<open>Purger\<close>, \<open>Purger_Laws\<close>: \<open>purger\<close>, over a tree of files. Shown: the plan holds exactly what the
    policy calls for, and purging takes away nothing else.
  \<^item> \<open>Hub_Plugins\<close>: the spawner and the authenticator of JupyterHub. Shown: what a listener of the
    progress of a spawn sees and when it is woken.
  \<^item> \<open>Py_Url\<close>, \<open>Client_Errors\<close>, \<open>Client_Http\<close>, \<open>Client_Socket\<close>, \<open>Nublado_Client\<close>, \<open>Client_Laws\<close>,
    \<open>Session_Laws\<close>: the client library, \<open>src/client/src/rubin/nublado/client\<close>: its exceptions, its HTTP
    client with redirects and tokens, the messages on the WebSocket to a kernel, sessions, and spawns.
    A response of a server is the answer of a wait. The field \<open>cw_sent\<close> is not state of the program but
    the list of requests sent so far, for theorems about them. Shown: which hosts requests go to and
    which token they carry, that following redirects ends, the round trip of messages, the output of
    code or the error that it ends with, and the result of waiting for a spawn.
  \<^item> \<open>Spawn_Form\<close>: the client together with the controller. Shown: the controller reads from the form
    of the client what the client was asked for.
  \<^item> \<open>Handlers\<close>, \<open>Controller_Errors\<close>: \<open>controller/handlers\<close>, \<open>dependencies/user.py\<close> and \<open>exceptions.py\<close>.
    Shown: the spawner form and the creation of labs agree on sizes and quotas.
  \<^item> \<open>Startup_Base\<close>, \<open>Startup_Env\<close>, \<open>Startup_Home\<close>, \<open>Startup\<close>, \<open>Provisioners\<close>, \<open>Startup_Laws\<close>,
    \<open>Homedir_Laws\<close>, \<open>Provision_Laws\<close>: what runs in the pod before the lab, \<open>src/src/nublado/startup\<close>,
    \<open>inithome\<close> and \<open>landingpage\<close>. A call of the system is a wait, so every answer and every error of the
    system is considered; \<open>honest\<close> says that a system keeps the contents of files. Shown: which errors
    are reported to the user and which stop the startup, and what happens to the files, passwords and
    settings of the user.

  Bounds. Loops that end by the world outside are bounded by fuel, and running out of it is an
  exception of its own, \<open>Out_of_fuel\<close>. \<open>watch_fuel\<close>, \<open>loop_bound\<close> and \<open>watch_servers\<close> bound the loops over
  the Kubernetes API; \<open>fileserver_create_ends\<close> shows that the bound that it computes from the time
  limit is enough. \<open>rp_pages\<close> bounds the pages of a list of tags; \<open>list_tags_ends\<close> shows that it is
  enough when the links of the pages lead to pages of a finite list. \<open>sc_bound\<close> bounds the events of one spawn that are
  read. \<open>cc_redirects\<close> is the limit on redirects, and \<open>redirects_end\<close> shows when it is enough;
  \<open>ss_messages\<close> bounds the messages of one run of code. The first argument of \<open>periodic\<close> and
  \<open>prepull_loop\<close> bounds the rounds of a loop that never ends.

  Parameters. Code that is not in this repository is an argument of the definitions: the comparison of
  semantic versions \<open>vcmp\<close>, the joining of URLs and the parser of links, \<open>rp_join\<close> and \<open>rp_next_url\<close>, the
  order \<open>it\<close> in which a set is iterated, and the answers of Kubernetes, of registries and of JupyterHub. For
  the client they are the printer and the parser of JSON, \<open>json_codec\<close>, with the law that reading what
  was printed gives the value, the texts of JSON values and of times, \<open>ss_str\<close> and \<open>ss_iso\<close>, and what the
  Safir library makes of an exception, \<open>error_format\<close>, with \<open>re.sub\<close> for patterns from outside, \<open>ef_sub\<close>;
  for the startup of a lab the parsers and printers of JSON, YAML and INI files and the like, \<open>startup_lib\<close>.

  Concurrent tasks that one method starts and joins are one wait where their order does not matter to
  the state: the requests for digests, \<open>Docker_digests\<close>, and the prepulling on nodes,
  \<open>Prepull_tasks\<close>. Texts of log messages and of reports to Slack are left out, as are those of
  exceptions, apart from the parts that callers read.

  Not modelled: routes that only pass on what a service returns, and the wiring of the web framework; the
  schema of the configuration apart from what the builders read and validate; command-line entry
  points; and the mock of JupyterHub for tests of users of the client library.
\<close>

end
